(* ===== verification/Prelude.thy ===== *)
theory Prelude
  imports Main "HOL-Library.Word" "HOL-Library.AList"
begin

unbundle bit_operations_syntax

section \<open>Shared types, errors and helper lemmas\<close>

text \<open>
  What every component of the development uses: Python's strings as lists of code points,
  byte strings as lists of 8-bit words, instants as integers counting microseconds, the
  exceptions of the sources as one \<open>datatype\<close>, fallible results as a sum type, and the
  parts of the Python language (slices, \<open>int.from_bytes\<close>, \<open>bytes.hex\<close>,
  \<open>bytes.fromhex\<close>, insertion-ordered dictionaries) that several components call.
\<close>

named_theorems wcm_result \<comment> \<open>case analysis of fallible results\<close>
named_theorems wcm_bytes \<comment> \<open>lengths and contents of byte strings\<close>

subsection \<open>Types\<close>

type_synonym byte = "8 word"
type_synonym bytes = "byte list"

text \<open>A Python \<open>str\<close> is a sequence of Unicode code points.\<close>

type_synonym pystr = "nat list"

text \<open>An aware \<open>datetime\<close>: microseconds since the epoch, in UTC.\<close>

type_synonym time = int

definition us :: "string \<Rightarrow> pystr" where
  "us s = map of_char s"

lemma us_eq_iff [simp]: "us a = us b \<longleftrightarrow> a = b"
  by (simp add: us_def inj_map_eq_map inj_def)

text \<open>\<open>timedelta(seconds=n)\<close>.\<close>

definition secs :: "int \<Rightarrow> time" where
  "secs n = n * 1000000"

lemma secs_mono: "a \<le> b \<Longrightarrow> secs a \<le> secs b"
  by (simp add: secs_def)

lemma secs_pos: "0 < a \<Longrightarrow> 0 < secs a"
  by (simp add: secs_def)

subsection \<open>Exceptions and fallible results\<close>

datatype exn =
    ValueError pystr
  | TypeError pystr
  | KeyError pystr
  | IndexError
  | ZeroDivisionError
  | ChallengeError pystr
  | SealError pystr
  | QuoteFormatError pystr
  | InvalidSignature pystr
  | KeyWipedError pystr
  | ReattestationRequired int
  | RenewalDenied "pystr list"
  | RuntimeError pystr
  | OverflowError
  | UnsupportedAlgorithm pystr
  | AttributeError pystr
  | OtherError pystr \<comment> \<open>any other \<open>Exception\<close> of a library\<close>
  | BinasciiError pystr
  | GpuRevocationUnavailable pystr \<comment> \<open>a \<open>RuntimeError\<close>\<close>
  | GpuReportFormatError pystr
  | ArtifactDigestError pystr
  | ModelMemoryError pystr
  | HookError nat \<comment> \<open>an \<open>Exception\<close> of supplied code\<close>
  | Interrupt nat \<comment> \<open>a \<open>BaseException\<close> that is no \<open>Exception\<close>\<close>
  | ExceptionGroup pystr "exn list"

text \<open>What \<open>except Exception\<close> and \<open>except ValueError\<close> catch (\<open>binascii.Error\<close>,
  \<open>RenewalDenied\<close>, the two artifact errors and encoding errors are subclasses of \<open>ValueError\<close>).\<close>

fun is_Exception :: "exn \<Rightarrow> bool" where
  "is_Exception (Interrupt n) = False"
| "is_Exception _ = True"

fun is_ValueError :: "exn \<Rightarrow> bool" where
  "is_ValueError (ValueError m) = True"
| "is_ValueError (BinasciiError m) = True"
| "is_ValueError (RenewalDenied cs) = True"
| "is_ValueError (ArtifactDigestError m) = True"
| "is_ValueError (ModelMemoryError m) = True"
| "is_ValueError _ = False"

fun is_InvalidSignature :: "exn \<Rightarrow> bool" where
  "is_InvalidSignature (InvalidSignature m) = True"
| "is_InvalidSignature _ = False"

fun is_TypeError :: "exn \<Rightarrow> bool" where
  "is_TypeError (TypeError m) = True"
| "is_TypeError _ = False"

fun is_UnsupportedAlgorithm :: "exn \<Rightarrow> bool" where
  "is_UnsupportedAlgorithm (UnsupportedAlgorithm m) = True"
| "is_UnsupportedAlgorithm _ = False"

fun is_QuoteFormatError :: "exn \<Rightarrow> bool" where
  "is_QuoteFormatError (QuoteFormatError m) = True"
| "is_QuoteFormatError _ = False"

type_synonym 'a result = "exn + 'a"

text \<open>Sequencing: the first exception stops the computation.\<close>

definition rbind :: "'a result \<Rightarrow> ('a \<Rightarrow> 'b result) \<Rightarrow> 'b result" where
  "rbind r f = (case r of Inl e \<Rightarrow> Inl e | Inr x \<Rightarrow> f x)"

lemma rbind_simps [simp]: "rbind (Inl e) f = Inl e" "rbind (Inr x) f = f x"
  by (simp_all add: rbind_def)

lemma rbind_Inr_iff [wcm_result]: "rbind r f = Inr y \<longleftrightarrow> (\<exists>x. r = Inr x \<and> f x = Inr y)"
  by (cases r) auto

lemma rbind_Inl_iff [wcm_result]:
  "rbind r f = Inl e \<longleftrightarrow> r = Inl e \<or> (\<exists>x. r = Inr x \<and> f x = Inl e)"
  by (cases r) auto

text \<open>A guard that raises: \<open>if c: raise e\<close>.\<close>

definition raise_if :: "bool \<Rightarrow> exn \<Rightarrow> unit result" where
  "raise_if c e = (if c then Inl e else Inr ())"

lemma raise_if_simps [simp]: "raise_if False e = Inr ()" "raise_if True e = Inl e"
  by (simp_all add: raise_if_def)

lemma raise_if_iff [simp]:
  "raise_if c e = Inr u \<longleftrightarrow> \<not> c"
  "raise_if c e = Inl e' \<longleftrightarrow> c \<and> e' = e"
  by (auto simp: raise_if_def)

text \<open>Running a fallible function over a list, left to right, as a comprehension does.\<close>

fun rmap :: "('a \<Rightarrow> 'b result) \<Rightarrow> 'a list \<Rightarrow> 'b list result" where
  "rmap f [] = Inr []"
| "rmap f (x # xs) = rbind (f x) (\<lambda>y. rbind (rmap f xs) (\<lambda>ys. Inr (y # ys)))"

lemma rmap_Inr_iff: "rmap f xs = Inr ys \<longleftrightarrow> list_all2 (\<lambda>x y. f x = Inr y) xs ys"
  by (induction xs arbitrary: ys) (auto simp: rbind_Inr_iff list_all2_Cons1)

lemma rmap_total:
  "(\<And>x. x \<in> set xs \<Longrightarrow> \<exists>y. f x = Inr y \<and> P y) \<Longrightarrow> \<exists>ys. rmap f xs = Inr ys \<and> (\<forall>y \<in> set ys. P y)"
proof (induction xs)
  case (Cons x xs)
  then obtain y ys where "f x = Inr y" "P y" "rmap f xs = Inr ys" "\<forall>y \<in> set ys. P y" by force
  then show ?case by simp
qed simp

lemma rmap_cong [fundef_cong]:
  "xs = ys \<Longrightarrow> (\<And>x. x \<in> set ys \<Longrightarrow> f x = g x) \<Longrightarrow> rmap f xs = rmap g ys"
proof (induction xs arbitrary: ys)
  case (Cons x xs)
  then show ?case by (cases ys) auto
qed simp

subsection \<open>Digests\<close>

text \<open>The two digests of \<open>hashlib\<close> the sources use, as a parameter of the model.\<close>

record hash_fns =
  hf_sha256 :: "bytes \<Rightarrow> bytes"
  hf_shake256 :: "bytes \<Rightarrow> bytes" \<comment> \<open>\<open>shake_256(data).digest(32)\<close>\<close>

subsection \<open>Slices and integers in byte strings\<close>

text \<open>\<open>xs[a:b]\<close> for \<open>0 <= a <= b\<close>: a slice never raises, it is cut at the end.\<close>

definition slice :: "nat \<Rightarrow> nat \<Rightarrow> 'a list \<Rightarrow> 'a list" where
  "slice a b xs = take (b - a) (drop a xs)"

lemma length_slice [wcm_bytes]: "length (slice a b xs) = min (b - a) (length xs - a)"
  by (simp add: slice_def)

lemma slice_take: "b \<le> n \<Longrightarrow> slice a b (take n xs) = slice a b xs"
  by (simp add: slice_def drop_take min_def)

text \<open>\<open>int.from_bytes(b, "little")\<close> and \<open>int.from_bytes(b, "big")\<close>.\<close>

fun le_int :: "bytes \<Rightarrow> int" where
  "le_int [] = 0"
| "le_int (b # bs) = uint b + 256 * le_int bs"

definition be_int :: "bytes \<Rightarrow> int" where
  "be_int bs = le_int (rev bs)"

text \<open>\<open>n.to_bytes(w, "little")\<close> and \<open>"big"\<close>, for \<open>0 <= n < 256 ** w\<close>.\<close>

fun int_le :: "nat \<Rightarrow> int \<Rightarrow> bytes" where
  "int_le 0 n = []"
| "int_le (Suc w) n = word_of_int (n mod 256) # int_le w (n div 256)"

definition int_be :: "nat \<Rightarrow> int \<Rightarrow> bytes" where
  "int_be w n = rev (int_le w n)"

lemma length_int_le [simp, wcm_bytes]: "length (int_le w n) = w"
  by (induction w arbitrary: n) auto

lemma length_int_be [simp, wcm_bytes]: "length (int_be w n) = w"
  by (simp add: int_be_def)

lemma uint_byte_bounds: "0 \<le> uint (b :: byte)" "uint (b :: byte) < 256"
  using uint_bounded [of b] by simp_all

lemma le_int_nonneg: "0 \<le> le_int bs"
  by (induction bs) (auto simp: uint_byte_bounds)

lemma le_int_bound: "le_int bs < 256 ^ length bs"
proof (induction bs)
  case (Cons b bs)
  have "uint b + 256 * le_int bs < 256 + 256 * le_int bs"
    by (simp add: uint_byte_bounds)
  also have "\<dots> \<le> 256 * 256 ^ length bs"
    using Cons.IH by simp
  finally show ?case by simp
qed simp

lemma le_int_int_le: "0 \<le> n \<Longrightarrow> n < 256 ^ w \<Longrightarrow> le_int (int_le w n) = n"
proof (induction w arbitrary: n)
  case (Suc w)
  have "uint (word_of_int (n mod 256) :: byte) = n mod 256"
    by (simp add: uint_word_of_int)
  moreover have "le_int (int_le w (n div 256)) = n div 256"
    using Suc.prems by (intro Suc.IH) auto
  ultimately show ?case by simp
qed simp

lemma int_le_inj:
  "0 \<le> m \<Longrightarrow> m < 256 ^ w \<Longrightarrow> 0 \<le> n \<Longrightarrow> n < 256 ^ w \<Longrightarrow> int_le w m = int_le w n \<Longrightarrow> m = n"
  by (metis le_int_int_le)

lemma int_be_inj:
  "0 \<le> m \<Longrightarrow> m < 256 ^ w \<Longrightarrow> 0 \<le> n \<Longrightarrow> n < 256 ^ w \<Longrightarrow> int_be w m = int_be w n \<Longrightarrow> m = n"
  by (simp add: int_be_def int_le_inj)

subsection \<open>Hexadecimal text\<close>

definition hex_digit :: "nat \<Rightarrow> nat" where
  "hex_digit d = (if d < 10 then 48 + d else 87 + d)"

definition hex_byte :: "byte \<Rightarrow> pystr" where
  "hex_byte b = [hex_digit (unat b div 16), hex_digit (unat b mod 16)]"

text \<open>\<open>bytes.hex()\<close>: two lowercase digits per byte.\<close>

definition hex_of_bytes :: "bytes \<Rightarrow> pystr" where
  "hex_of_bytes bs = concat (map hex_byte bs)"

definition hex_val :: "nat \<Rightarrow> nat option" where
  "hex_val c = (if 48 \<le> c \<and> c \<le> 57 then Some (c - 48)
                else if 97 \<le> c \<and> c \<le> 102 then Some (c - 87)
                else if 65 \<le> c \<and> c \<le> 70 then Some (c - 55) else None)"

definition ascii_space :: "nat \<Rightarrow> bool" where
  "ascii_space c \<longleftrightarrow> c = 32 \<or> (9 \<le> c \<and> c \<le> 13)"

text \<open>
  \<open>bytes.fromhex(s)\<close>: ASCII whitespace is skipped between byte pairs, both letter cases
  are read, anything else is a \<open>ValueError\<close> (\<open>None\<close>).
\<close>

fun bytes_fromhex :: "pystr \<Rightarrow> bytes option" where
  "bytes_fromhex [] = Some []"
| "bytes_fromhex [c] = (if ascii_space c then Some [] else None)"
| "bytes_fromhex (c # d # s) =
     (if ascii_space c then bytes_fromhex (d # s)
      else case (hex_val c, hex_val d) of
        (Some h, Some l) \<Rightarrow> map_option (Cons (of_nat (16 * h + l))) (bytes_fromhex s)
      | _ \<Rightarrow> None)"

lemma hex_val_digit [simp]: "d < 16 \<Longrightarrow> hex_val (hex_digit d) = Some d"
  by (auto simp: hex_val_def hex_digit_def)

lemma hex_digit_not_space [simp]: "d < 16 \<Longrightarrow> \<not> ascii_space (hex_digit d)"
  by (auto simp: ascii_space_def hex_digit_def)

lemma unat_byte_div16 [simp]: "unat (b :: byte) div 16 < 16"
proof -
  have "unat b < 256" using unsigned_less [where ?'a = nat, of b] by simp
  then show ?thesis by simp
qed

lemma bytes_fromhex_hex: "bytes_fromhex (hex_of_bytes bs) = Some bs"
proof (induction bs)
  case (Cons b bs)
  have "16 * (unat b div 16) + unat b mod 16 = unat b"
    by simp
  then have "(of_nat (16 * (unat b div 16) + unat b mod 16) :: byte) = b"
    by (simp only: word_unat_eq_iff) simp
  with Cons.IH show ?case
    by (simp add: hex_of_bytes_def hex_byte_def)
qed (simp add: hex_of_bytes_def)

lemma length_hex_of_bytes [wcm_bytes]: "length (hex_of_bytes bs) = 2 * length bs"
  by (induction bs) (auto simp: hex_of_bytes_def hex_byte_def)

lemma hex_of_bytes_inj: "hex_of_bytes a = hex_of_bytes b \<longleftrightarrow> a = b"
  by (metis bytes_fromhex_hex option.inject)

subsection \<open>Insertion-ordered dictionaries\<close>

text \<open>
  A \<open>dict\<close> or \<open>OrderedDict\<close> is an association list with distinct keys in insertion
  order: \<open>d[k] = v\<close> is \<open>AList.update\<close> (it keeps the position of an existing key and
  appends a new one), \<open>d.pop(k, None)\<close> is \<open>map_of\<close> and \<open>AList.delete\<close>.
\<close>

lemma map_of_update_iff: "map_of (AList.update k v d) k' = (if k' = k then Some v else map_of d k')"
  by (simp add: update_conv)

lemma map_of_delete_iff: "map_of (AList.delete k d) k' = (if k' = k then None else map_of d k')"
  by (simp add: delete_conv)

lemma keys_delete: "fst ` set (AList.delete k d) = fst ` set d - {k}"
proof -
  have "fst ` set (AList.delete k d) = set (map fst (AList.delete k d))" by simp
  also have "\<dots> = fst ` set d - {k}" by (auto simp: delete_keys)
  finally show ?thesis .
qed

lemma keys_update: "fst ` set (AList.update k v d) = insert k (fst ` set d)"
  by (induction d) auto

lemma update_fresh: "map_of d k = None \<Longrightarrow> AList.update k v d = d @ [(k, v)]"
  by (induction d) (auto split: if_splits)

lemma map_of_dropWhile:
  "distinct (map fst d) \<Longrightarrow> map_of (dropWhile P d) k = Some v \<Longrightarrow> map_of d k = Some v"
proof (induction d)
  case (Cons kv d)
  show ?case
  proof (cases "P kv")
    case True
    with Cons have "map_of d k = Some v" by simp
    moreover from this have "k \<in> fst ` set d"
      by (metis domI dom_map_of_conv_image_fst)
    ultimately show ?thesis using Cons.prems(1) by (cases kv) auto
  next
    case False
    with Cons.prems show ?thesis by simp
  qed
qed simp

lemma set_dropWhile_subset: "set (dropWhile P d) \<subseteq> set d"
  using set_dropWhileD by fastforce

lemma distinct_dropWhile_keys: "distinct (map fst d) \<Longrightarrow> distinct (map fst (dropWhile P d))"
  by (metis distinct_drop drop_map dropWhile_eq_drop)

text \<open>\<open>dict.get(k)\<close> on an association list, and a comprehension that keeps some keys.\<close>

lemma set_map_of_mem: "map_of d k = Some v \<Longrightarrow> (k, v) \<in> set d"
  by (rule map_of_SomeD)

text \<open>\<open>str(exc)\<close>, as far as messages show it.\<close>

fun exn_text :: "exn \<Rightarrow> pystr" where
  "exn_text (ValueError m) = m"
| "exn_text (TypeError m) = m"
| "exn_text (ChallengeError m) = m"
| "exn_text (SealError m) = m"
| "exn_text (QuoteFormatError m) = m"
| "exn_text (InvalidSignature m) = m"
| "exn_text (BinasciiError m) = m"
| "exn_text _ = []"

subsection \<open>Whitespace\<close>

text \<open>What \<open>str.isspace\<close>, \<open>str.strip\<close> and the class \<open>\s\<close> of a \<open>str\<close> pattern accept.\<close>

definition re_space :: "nat \<Rightarrow> bool" where
  "re_space c \<longleftrightarrow> (9 \<le> c \<and> c \<le> 13) \<or> (28 \<le> c \<and> c \<le> 32) \<or>
     c \<in> {0x85, 0xA0, 0x1680, 0x2028, 0x2029, 0x202F, 0x205F, 0x3000} \<or> (0x2000 \<le> c \<and> c \<le> 0x200A)"

definition strip :: "pystr \<Rightarrow> pystr" where
  "strip s = rev (dropWhile re_space (rev (dropWhile re_space s)))"

text \<open>\<open>stamp.replace("+00:00", "Z")\<close>\<close>

fun replace_utc :: "pystr \<Rightarrow> pystr" where
  "replace_utc [] = []"
| "replace_utc (c # s) =
     (if take 6 (c # s) = us ''+00:00'' then 90 # replace_utc (drop 5 s) else c # replace_utc s)"

end
