(* ===== verification/Challenge.thy ===== *)
theory Challenge
  imports Prelude
begin

section \<open>Challenge issuance and single-use nonces (\<open>_challenge.py\<close>)\<close>

text \<open>
  The key broker issues a fresh nonce before every release and accepts it once, within
  its lifetime. The two tables are insertion-ordered dictionaries. The clock and the
  token generator are arguments of the operations: the reading \<open>self._now()\<close> returned,
  and the string \<open>secrets.token_hex(32)\<close> returned. The lock makes each operation one step,
  so concurrent callers are sequences of steps.
\<close>

subsection \<open>State and operations\<close>

record challenge =
  ch_nonce :: pystr
  ch_issued_at :: time
  ch_expires_at :: time

record challenge_store =
  cs_ttl :: int
  cs_issued :: "(pystr \<times> challenge) list"
  cs_consumed :: "(pystr \<times> time) list"

definition new_store :: "int \<Rightarrow> challenge_store" where
  "new_store ttl = \<lparr>cs_ttl = ttl, cs_issued = [], cs_consumed = []\<rparr>"

text \<open>Both loops of \<open>_prune\<close> drop entries from the front and stop at the first live one.\<close>

definition cs_prune :: "time \<Rightarrow> challenge_store \<Rightarrow> challenge_store" where
  "cs_prune now s =
     s\<lparr>cs_issued := dropWhile (\<lambda>(n, c). \<not> now \<le> ch_expires_at c) (cs_issued s),
       cs_consumed := dropWhile (\<lambda>(n, e). \<not> now \<le> e) (cs_consumed s)\<rparr>"

definition cs_issue :: "time \<Rightarrow> pystr \<Rightarrow> challenge_store \<Rightarrow> challenge \<times> challenge_store" where
  "cs_issue now token s =
     (let s = cs_prune now s;
          c = \<lparr>ch_nonce = token, ch_issued_at = now, ch_expires_at = now + secs (cs_ttl s)\<rparr>
      in (c, s\<lparr>cs_issued := AList.update token c (cs_issued s)\<rparr>))"

definition cs_consume :: "pystr \<Rightarrow> time \<Rightarrow> challenge_store \<Rightarrow> unit result \<times> challenge_store" where
  "cs_consume nonce now s =
     (if map_of (cs_consumed s) nonce \<noteq> None
      then (Inl (ChallengeError (us ''nonce already used (replay)'')), s)
      else case map_of (cs_issued s) nonce of
        None \<Rightarrow> (Inl (ChallengeError (us ''unknown nonce (not issued by this KBS)'')), s)
      | Some c \<Rightarrow>
          (let s' = s\<lparr>cs_issued := AList.delete nonce (cs_issued s),
                      cs_consumed := AList.update nonce (ch_expires_at c) (cs_consumed s)\<rparr>
           in if now > ch_expires_at c
              then (Inl (ChallengeError (us ''nonce expired'')), s')
              else (Inr (), s')))"

subsection \<open>The contract of a single-use store\<close>

text \<open>
  What the clients of the store rely on, independent of its tables: \<open>live\<close> are the
  nonces a presentation of which can still succeed.
\<close>

datatype 'n nonce_event = Issue time 'n | Consume 'n time

text \<open>Successful presentations of \<open>n\<close> along a sequence of operations.\<close>

fun successes ::
  "(time \<Rightarrow> 'n \<Rightarrow> 's \<Rightarrow> 's) \<Rightarrow> ('n \<Rightarrow> time \<Rightarrow> 's \<Rightarrow> bool \<times> 's) \<Rightarrow> 'n \<Rightarrow>
   'n nonce_event list \<Rightarrow> 's \<Rightarrow> nat" where
  "successes iss con n [] s = 0"
| "successes iss con n (Issue t m # es) s = successes iss con n es (iss t m s)"
| "successes iss con n (Consume m t # es) s =
     (if m = n \<and> fst (con m t s) then 1 else 0) + successes iss con n es (snd (con m t s))"

fun issues :: "'n \<Rightarrow> 'n nonce_event list \<Rightarrow> nat" where
  "issues n [] = 0"
| "issues n (Issue t m # es) = (if m = n then 1 else 0) + issues n es"
| "issues n (Consume m t # es) = issues n es"

locale single_use_store =
  fixes iss :: "time \<Rightarrow> 'n \<Rightarrow> 's \<Rightarrow> 's"
    and con :: "'n \<Rightarrow> time \<Rightarrow> 's \<Rightarrow> bool \<times> 's"
    and live :: "'s \<Rightarrow> 'n set"
  assumes con_ok: "fst (con n t s) \<Longrightarrow> n \<in> live s"
    and con_spent: "fst (con n t s) \<Longrightarrow> n \<notin> live (snd (con n t s))"
    and con_frame: "live (snd (con m t s)) \<subseteq> live s"
    and iss_frame: "live (iss t m s) \<subseteq> insert m (live s)"
begin

lemma successes_le: "successes iss con n es s \<le> issues n es + (if n \<in> live s then 1 else 0)"
proof (induction es arbitrary: s)
  case (Cons e es)
  show ?case
  proof (cases e)
    case (Issue t m)
    then show ?thesis
      using Cons.IH [of "iss t m s"] iss_frame [of t m s] by (auto split: if_splits)
  next
    case (Consume m t)
    then show ?thesis
      using Cons.IH [of "snd (con m t s)"] con_ok [of m t s] con_spent [of m t s]
        con_frame [of m t s]
      by (auto split: if_splits)
  qed
qed simp

lemma once_spent:
  assumes "fst (con n t s)" and "issues n es = 0"
  shows "successes iss con n es (snd (con n t s)) = 0"
  using successes_le [of n es "snd (con n t s)"] con_spent [OF assms(1)] assms(2) by simp

end

definition cs_issue_op :: "time \<Rightarrow> pystr \<Rightarrow> challenge_store \<Rightarrow> challenge_store" where
  "cs_issue_op t n s = snd (cs_issue t n s)"

definition cs_consume_op :: "pystr \<Rightarrow> time \<Rightarrow> challenge_store \<Rightarrow> bool \<times> challenge_store" where
  "cs_consume_op n t s = (case cs_consume n t s of (r, s') \<Rightarrow> (r = Inr (), s'))"

definition cs_live :: "challenge_store \<Rightarrow> pystr set" where
  "cs_live s = fst ` set (cs_issued s)"

lemma cs_consume_ok_iff:
  "fst (cs_consume n t s) = Inr () \<longleftrightarrow>
     map_of (cs_consumed s) n = None \<and>
     (\<exists>c. map_of (cs_issued s) n = Some c \<and> t \<le> ch_expires_at c)"
  by (auto simp: cs_consume_def Let_def split: option.splits)

lemma cs_consume_issued:
  "cs_issued (snd (cs_consume n t s)) =
     (if map_of (cs_consumed s) n = None then AList.delete n (cs_issued s) else cs_issued s)"
proof (cases "map_of (cs_issued s) n")
  case None
  then have "n \<notin> fst ` set (cs_issued s)" by (simp add: map_of_eq_None_iff)
  then have "AList.delete n (cs_issued s) = cs_issued s"
    by (metis delete_id)
  with None show ?thesis by (simp add: cs_consume_def)
qed (simp add: cs_consume_def Let_def)

lemma cs_live_consume:
  "cs_live (snd (cs_consume n t s)) =
     (if map_of (cs_consumed s) n = None then cs_live s - {n} else cs_live s)"
  by (simp add: cs_live_def cs_consume_issued keys_delete)

lemma cs_live_issue: "cs_live (snd (cs_issue t n s)) \<subseteq> insert n (cs_live s)"
  using set_dropWhile_subset [of "\<lambda>(n, c). \<not> t \<le> ch_expires_at c" "cs_issued s"]
  by (auto simp: cs_live_def cs_issue_def Let_def cs_prune_def keys_update)

lemma cs_consume_op_simps:
  "fst (cs_consume_op n t s) \<longleftrightarrow> fst (cs_consume n t s) = Inr ()"
  "snd (cs_consume_op n t s) = snd (cs_consume n t s)"
  by (simp_all add: cs_consume_op_def split_beta)

interpretation cs: single_use_store cs_issue_op cs_consume_op cs_live
proof unfold_locales
  show "fst (cs_consume_op n t s) \<Longrightarrow> n \<in> cs_live s" for n t s
    by (auto simp: cs_consume_op_simps cs_consume_ok_iff cs_live_def image_iff dest!: map_of_SomeD)
       force
qed (use cs_live_issue in
  \<open>auto simp: cs_consume_op_simps cs_consume_ok_iff cs_live_consume cs_issue_op_def\<close>)

subsection \<open>Runs under a steady clock\<close>

text \<open>
  \<open>steady ttl t evs s\<close>: the store \<open>s\<close> is reached from an empty one by the operations
  \<open>evs\<close>, whose clock readings never go back and end at \<open>t\<close>, each issued token being new.
\<close>

inductive steady :: "int \<Rightarrow> time \<Rightarrow> pystr nonce_event list \<Rightarrow> challenge_store \<Rightarrow> bool" for ttl where
  start: "steady ttl t [] (new_store ttl)"
| issue: "steady ttl t evs s \<Longrightarrow> t \<le> t' \<Longrightarrow> n \<notin> cs_live s \<Longrightarrow>
     steady ttl t' (evs @ [Issue t' n]) (cs_issue_op t' n s)"
| consume: "steady ttl t evs s \<Longrightarrow> t \<le> t' \<Longrightarrow>
     steady ttl t' (evs @ [Consume n t']) (snd (cs_consume_op n t' s))"

text \<open>
  The invariant: every pending challenge expires one lifetime after it was issued and was
  issued by an operation of the run; the table of pending challenges is in order of
  expiry; and the consumed table is in order of consumption.
\<close>

definition issued_inv :: "int \<Rightarrow> time \<Rightarrow> pystr nonce_event list \<Rightarrow> challenge_store \<Rightarrow> bool" where
  "issued_inv ttl t evs s \<longleftrightarrow>
     cs_ttl s = ttl \<and>
     (\<forall>(n, c) \<in> set (cs_issued s). ch_nonce c = n \<and> ch_issued_at c \<le> t \<and>
        ch_expires_at c = ch_issued_at c + secs ttl \<and> Issue (ch_issued_at c) n \<in> set evs) \<and>
     sorted (map (ch_expires_at \<circ> snd) (cs_issued s))"

definition consumed_inv :: "int \<Rightarrow> time \<Rightarrow> pystr nonce_event list \<Rightarrow> challenge_store \<Rightarrow> bool" where
  "consumed_inv ttl t evs s \<longleftrightarrow>
     (\<exists>ts. length ts = length (cs_consumed s) \<and> sorted ts \<and> (\<forall>u \<in> set ts. u \<le> t) \<and>
        (\<forall>i < length ts. Consume (fst (cs_consumed s ! i)) (ts ! i) \<in> set evs \<and>
           snd (cs_consumed s ! i) \<le> ts ! i + secs ttl))"

lemma sorted_dropWhile_map: "sorted (map f xs) \<Longrightarrow> sorted (map f (dropWhile P xs))"
  by (metis dropWhile_eq_drop drop_map sorted_wrt_drop)

lemma sorted_delete_map: "sorted (map (f \<circ> snd) d) \<Longrightarrow> sorted (map (f \<circ> snd) (AList.delete k d))"
  by (induction d) (auto simp: AList.delete_eq)

lemma issued_inv_issue:
  assumes inv: "issued_inv ttl t evs s" and le: "t \<le> t'" and fresh: "n \<notin> cs_live s"
  shows "issued_inv ttl t' (evs @ [Issue t' n]) (cs_issue_op t' n s)"
proof -
  let ?P = "\<lambda>(n, c). \<not> t' \<le> ch_expires_at c"
  let ?d = "dropWhile ?P (cs_issued s)"
  have sub: "set ?d \<subseteq> set (cs_issued s)" by (rule set_dropWhile_subset)
  with fresh have "map_of ?d n = None"
    by (auto simp: cs_live_def map_of_eq_None_iff image_iff)
  then have upd: "AList.update n c ?d = ?d @ [(n, c)]" for c by (rule update_fresh)
  have "sorted (map (ch_expires_at \<circ> snd) ?d)"
    using inv by (simp add: issued_inv_def sorted_dropWhile_map)
  moreover have "\<forall>x \<in> set ?d. ch_expires_at (snd x) \<le> t' + secs ttl"
    using inv sub le by (force simp: issued_inv_def)
  ultimately have sorted': "sorted (map (ch_expires_at \<circ> snd) (cs_issued (cs_issue_op t' n s)))"
    using inv by (simp add: issued_inv_def cs_issue_op_def cs_issue_def Let_def cs_prune_def upd
        sorted_append)
  have mem: "ch_nonce c = m \<and> ch_issued_at c \<le> t' \<and> ch_expires_at c = ch_issued_at c + secs ttl \<and>
      Issue (ch_issued_at c) m \<in> set (evs @ [Issue t' n])"
    if "(m, c) \<in> set (cs_issued (cs_issue_op t' n s))" for m c
  proof -
    have "cs_ttl s = ttl" using inv by (simp add: issued_inv_def)
    with that consider "(m, c) \<in> set (cs_issued s)"
      | "m = n" "c = \<lparr>ch_nonce = n, ch_issued_at = t', ch_expires_at = t' + secs ttl\<rparr>"
      using sub by (auto simp: cs_issue_op_def cs_issue_def Let_def cs_prune_def upd)
    then show ?thesis
      using inv le by cases (auto simp: issued_inv_def)
  qed
  have "cs_ttl (cs_issue_op t' n s) = ttl"
    using inv by (simp add: issued_inv_def cs_issue_op_def cs_issue_def Let_def cs_prune_def)
  with sorted' mem show ?thesis by (auto simp: issued_inv_def)
qed

lemma issued_inv_consume:
  assumes inv: "issued_inv ttl t evs s" and le: "t \<le> t'"
  shows "issued_inv ttl t' (evs @ [Consume n t']) (snd (cs_consume_op n t' s))"
proof -
  have sub: "set (cs_issued (snd (cs_consume n t' s))) \<subseteq> set (cs_issued s)"
    by (auto simp: cs_consume_issued AList.delete_eq)
  have "cs_ttl (snd (cs_consume n t' s)) = cs_ttl s"
    by (auto simp: cs_consume_def Let_def split: option.splits)
  then show ?thesis
    using inv sub le sorted_delete_map [of ch_expires_at "cs_issued s" n]
    by (fastforce simp: issued_inv_def cs_consume_op_simps cs_consume_issued)
qed

lemma steady_issued_inv: "steady ttl t evs s \<Longrightarrow> issued_inv ttl t evs s"
proof (induction rule: steady.induct)
  case (start t)
  show ?case by (simp add: issued_inv_def new_store_def)
qed (simp_all add: issued_inv_issue issued_inv_consume)

lemma consumed_inv_mono:
  "consumed_inv ttl t evs s \<Longrightarrow> t \<le> t' \<Longrightarrow> consumed_inv ttl t' (evs @ [e]) s"
  unfolding consumed_inv_def
  by (elim exE conjE, rule exI, intro conjI, assumption, assumption) auto

lemma consumed_inv_issue:
  assumes "consumed_inv ttl t evs s" and "t \<le> t'"
  shows "consumed_inv ttl t' (evs @ [Issue t' n]) (cs_issue_op t' n s)"
proof -
  from consumed_inv_mono [OF assms, of "Issue t' n"]
  obtain ts where ts: "length ts = length (cs_consumed s)" "sorted ts" "\<forall>u \<in> set ts. u \<le> t'"
    "\<forall>i < length ts. Consume (fst (cs_consumed s ! i)) (ts ! i) \<in> set (evs @ [Issue t' n]) \<and>
       snd (cs_consumed s ! i) \<le> ts ! i + secs ttl"
    unfolding consumed_inv_def by blast
  obtain k where k: "cs_consumed (cs_issue_op t' n s) = drop k (cs_consumed s)"
    by (simp add: cs_issue_op_def cs_issue_def Let_def cs_prune_def) (metis dropWhile_eq_drop)
  show ?thesis
    unfolding consumed_inv_def k
    using ts by (intro exI [of _ "drop k ts"]) (auto dest: in_set_dropD)
qed

lemma consumed_inv_consume:
  assumes cinv: "consumed_inv ttl t evs s" and iinv: "issued_inv ttl t evs s" and le: "t \<le> t'"
  shows "consumed_inv ttl t' (evs @ [Consume n t']) (snd (cs_consume_op n t' s))"
proof (cases "map_of (cs_consumed s) n = None \<and> map_of (cs_issued s) n \<noteq> None")
  case False
  then have "cs_consumed (snd (cs_consume_op n t' s)) = cs_consumed s"
    by (auto simp: cs_consume_op_simps cs_consume_def)
  with consumed_inv_mono [OF cinv le, of "Consume n t'"] show ?thesis
    by (simp add: consumed_inv_def)
next
  case True
  then obtain c where c: "map_of (cs_issued s) n = Some c" by auto
  then have "ch_expires_at c \<le> t' + secs ttl"
    using iinv le by (force simp: issued_inv_def dest: map_of_SomeD)
  moreover have "cs_consumed (snd (cs_consume_op n t' s)) = cs_consumed s @ [(n, ch_expires_at c)]"
    using True c by (simp add: cs_consume_op_simps cs_consume_def Let_def update_fresh)
  moreover obtain ts where "length ts = length (cs_consumed s)" "sorted ts" "\<forall>u \<in> set ts. u \<le> t'"
    "\<forall>i < length ts. Consume (fst (cs_consumed s ! i)) (ts ! i) \<in> set (evs @ [Consume n t']) \<and>
       snd (cs_consumed s ! i) \<le> ts ! i + secs ttl"
    using consumed_inv_mono [OF cinv le, of "Consume n t'"] unfolding consumed_inv_def by blast
  ultimately show ?thesis
    unfolding consumed_inv_def
    by (intro exI [of _ "ts @ [t']"]) (auto simp: nth_append sorted_append less_Suc_eq)
qed

lemma steady_consumed_inv: "steady ttl t evs s \<Longrightarrow> consumed_inv ttl t evs s"
proof (induction rule: steady.induct)
  case (start t)
  show ?case by (simp add: consumed_inv_def new_store_def)
next
  case (consume t evs s t' n)
  then show ?case by (simp add: consumed_inv_consume steady_issued_inv)
qed (simp add: consumed_inv_issue)

lemma dropWhile_sorted_live:
  assumes "sorted (map f xs)" and "x \<in> set (dropWhile (\<lambda>y. \<not> t \<le> f y) xs)"
  shows "t \<le> (f x :: int)"
  using assms by (induction xs) (auto split: if_splits)

lemma issue_pending_live:
  assumes run: "steady ttl t evs s" and fresh: "n \<notin> cs_live s" and ttl: "0 \<le> ttl"
    and mem: "(m, c) \<in> set (cs_issued (cs_issue_op t' n s))"
  shows "t' \<le> ch_expires_at c"
proof -
  let ?P = "\<lambda>x. \<not> t' \<le> ch_expires_at (snd x)"
  have P: "(\<lambda>(n, c). \<not> t' \<le> ch_expires_at c) = ?P" by (simp add: fun_eq_iff split_beta)
  have upd: "AList.update n c (dropWhile ?P (cs_issued s)) = dropWhile ?P (cs_issued s) @ [(n, c)]" for c
    using fresh set_dropWhile_subset [of ?P "cs_issued s"]
    by (intro update_fresh) (auto simp: cs_live_def map_of_eq_None_iff image_iff)
  have "sorted (map (ch_expires_at \<circ> snd) (cs_issued s))" "cs_ttl s = ttl"
    using steady_issued_inv [OF run] by (auto simp: issued_inv_def)
  then show ?thesis
    using mem ttl dropWhile_sorted_live [of "ch_expires_at \<circ> snd" "cs_issued s" "(m, c)" t']
    unfolding cs_issue_op_def cs_issue_def cs_prune_def P by (auto simp: Let_def upd secs_def)
qed

lemma issue_consumed_recent:
  assumes run: "steady ttl t evs s" and le: "t \<le> t'" and fresh: "n \<notin> cs_live s"
    and mem: "(m, e) \<in> set (cs_consumed (cs_issue_op t' n s))"
  shows "\<exists>u. Consume m u \<in> set evs \<and> t' \<le> u + secs ttl"
proof -
  let ?d = "cs_consumed (cs_issue_op t' n s)"
  from steady_consumed_inv [OF steady.issue [OF run le fresh]] obtain ts where
    ts: "length ts = length ?d" "sorted ts"
      "\<forall>i < length ts. Consume (fst (?d ! i)) (ts ! i) \<in> set (evs @ [Issue t' n]) \<and>
         snd (?d ! i) \<le> ts ! i + secs ttl"
    unfolding consumed_inv_def by blast
  from mem obtain i where i: "i < length ?d" "?d ! i = (m, e)" by (auto simp: in_set_conv_nth)
  have "?d = dropWhile (\<lambda>(n, e). \<not> t' \<le> e) (cs_consumed s)"
    by (simp add: cs_issue_op_def cs_issue_def Let_def cs_prune_def)
  moreover have "?d \<noteq> []" using i(1) by auto
  ultimately have "\<not> (\<lambda>(n, e). \<not> t' \<le> e) (hd ?d)" by (metis hd_dropWhile)
  with \<open>?d \<noteq> []\<close> have "t' \<le> snd (?d ! 0)" by (simp add: hd_conv_nth split_beta)
  also have "snd (?d ! 0) \<le> ts ! 0 + secs ttl" using ts(1,3) i(1) by force
  also have "ts ! 0 \<le> ts ! i" using ts(1,2) i(1) by (intro sorted_nth_mono) auto
  finally have "t' \<le> ts ! i + secs ttl" by simp
  moreover have "Consume m (ts ! i) \<in> set evs" using ts(1,3) i by force
  ultimately show ?thesis by blast
qed

subsection \<open>Properties of the store\<close>

text \<open>
  C31 (single use). Along any sequence of issue and consume operations on a new store, in
  any interleaving and with any clock readings, a nonce is accepted at most as often as it
  was issued; with tokens that never repeat, at most once.
\<close>

theorem nonce_at_most_once:
  "successes cs_issue_op cs_consume_op n evs (new_store ttl) \<le> issues n evs"
  using cs.successes_le [of n evs "new_store ttl"] by (simp add: cs_live_def new_store_def)

text \<open>
  Under a steady clock an accepted nonce was issued by this store at some
  earlier instant of the run, and no more than the configured lifetime ago.
\<close>

theorem consume_within_lifetime:
  assumes run: "steady ttl t evs s" and le: "t \<le> t'"
    and ok: "fst (cs_consume n t' s) = Inr ()"
  shows "\<exists>t0. Issue t0 n \<in> set evs \<and> t0 \<le> t' \<and> t' \<le> t0 + secs ttl"
proof -
  from ok obtain c where c: "map_of (cs_issued s) n = Some c" "t' \<le> ch_expires_at c"
    by (auto simp: cs_consume_ok_iff)
  from steady_issued_inv [OF run] map_of_SomeD [OF c(1)]
  have "ch_issued_at c \<le> t" "ch_expires_at c = ch_issued_at c + secs ttl"
    "Issue (ch_issued_at c) n \<in> set evs"
    by (auto simp: issued_inv_def)
  with c(2) le show ?thesis by (intro exI [of _ "ch_issued_at c"]) auto
qed

theorem consume_within_lifetime_witness:
  "fst (cs_consume (us ''n'') 5 (cs_issue_op 0 (us ''n'') (new_store 300))) = Inr () \<and>
   (\<exists>t0. Issue t0 (us ''n'') \<in> set [Issue 0 (us ''n'')] \<and> t0 \<le> 5 \<and> 5 \<le> t0 + secs 300)"
proof -
  let ?s = "cs_issue_op 0 (us ''n'') (new_store 300)"
  have run: "steady 300 0 ([] @ [Issue 0 (us ''n'')]) ?s"
    by (rule steady.issue [OF steady.start [of 300 0]]) (simp_all add: cs_live_def new_store_def)
  have ok: "fst (cs_consume (us ''n'') 5 ?s) = Inr ()"
    by (simp add: cs_consume_ok_iff cs_issue_op_def cs_issue_def Let_def cs_prune_def
        new_store_def secs_def)
  show ?thesis using consume_within_lifetime [OF run _ ok] ok by simp
qed

text \<open>
  Bounded memory: Under a steady clock an issue operation leaves no expired challenge
  pending, and keeps a consumed nonce only while the operation that consumed it lies
  within one lifetime.
\<close>

theorem issue_bounds_tables:
  assumes run: "steady ttl t evs s" and le: "t \<le> t'" and fresh: "n \<notin> cs_live s"
    and ttl: "0 \<le> ttl"
  shows "(\<forall>(m, c) \<in> set (cs_issued (cs_issue_op t' n s)). t' \<le> ch_expires_at c) \<and>
         (\<forall>(m, e) \<in> set (cs_consumed (cs_issue_op t' n s)).
            \<exists>u. Consume m u \<in> set evs \<and> t' \<le> u + secs ttl)"
  using issue_pending_live [OF run fresh ttl] issue_consumed_recent [OF run le fresh] by blast

theorem issue_bounds_tables_witness:
  "(let s = snd (cs_consume_op (us ''a'') 5 (cs_issue_op 0 (us ''a'') (new_store 300)));
        s' = cs_issue_op 7 (us ''b'') s
    in cs_consumed s' = [(us ''a'', secs 300)] \<and>
       (\<exists>u. Consume (us ''a'') u \<in> set [Issue 0 (us ''a''), Consume (us ''a'') 5] \<and>
            7 \<le> u + secs 300))"
proof -
  let ?s1 = "cs_issue_op 0 (us ''a'') (new_store 300)"
  let ?s2 = "snd (cs_consume_op (us ''a'') 5 ?s1)"
  have "steady 300 0 ([] @ [Issue 0 (us ''a'')]) ?s1"
    by (rule steady.issue [OF steady.start [of 300 0]]) (simp_all add: cs_live_def new_store_def)
  then have run: "steady 300 5 (([] @ [Issue 0 (us ''a'')]) @ [Consume (us ''a'') 5]) ?s2"
    by (rule steady.consume) simp
  have eq: "cs_consumed (cs_issue_op 7 (us ''b'') ?s2) = [(us ''a'', secs 300)]"
    and fresh: "us ''b'' \<notin> cs_live ?s2"
    by (simp_all add: cs_issue_op_def cs_issue_def cs_consume_op_simps cs_consume_def Let_def
        cs_prune_def new_store_def secs_def us_def cs_live_def)
  have "(\<forall>(m, e) \<in> set (cs_consumed (cs_issue_op 7 (us ''b'') ?s2)).
      \<exists>u. Consume m u \<in> set (([] @ [Issue 0 (us ''a'')]) @ [Consume (us ''a'') 5]) \<and>
          7 \<le> u + secs 300)"
    using issue_bounds_tables [OF run _ fresh, of 7] by simp
  with eq show ?thesis by (simp add: Let_def)
qed

text \<open>
  Retention of consumed nonces: The consumed table is in order of consumption, not of
  expiry, so an entry can stay after its own expiry has passed: with two challenges
  issued at 0s and 100s and consumed in the opposite order, the first one's entry (expiry
  300s) is still held after the issue operation at 350s prunes the tables.
\<close>

theorem consumed_entry_outlives_expiry:
  "(let s1 = cs_issue_op 0 (us ''a'') (new_store 300);
        s2 = cs_issue_op (secs 100) (us ''b'') s1;
        s3 = snd (cs_consume (us ''b'') (secs 110) s2);
        s4 = snd (cs_consume (us ''a'') (secs 120) s3);
        s5 = cs_issue_op (secs 350) (us ''c'') s4
    in cs_consumed s5 = [(us ''b'', secs 400), (us ''a'', secs 300)])"
  by (simp add: cs_issue_op_def cs_issue_def cs_consume_def Let_def cs_prune_def new_store_def
      secs_def us_def)

end
