(* ===== verification/Merkle.thy ===== *)
theory Merkle
  imports Prelude "HOL-Library.While_Combinator"
begin

section \<open>RFC 9162 Merkle tree (\<open>_merkle.py\<close>)\<close>

text \<open>
  The append-only tree under the transparency log: roots, inclusion proofs, consistency
  proofs and the two verifiers that see only roots, sizes and proofs. The digest functions
  are parameters of the model (\<open>hashlib\<close>): every function takes the hash it is called
  with. The verifiers are iterative in the source and follow the bits of the index; both
  are instances of one generic climb, which is shown equal to the recursive shape of the
  tree. Completeness and soundness then follow by induction on the tree.
\<close>

subsection \<open>Hash functions and trees\<close>

definition hash_fn :: "hash_fns \<Rightarrow> pystr \<Rightarrow> (bytes \<Rightarrow> bytes) option" where
  "hash_fn hf algorithm =
     (if algorithm = us ''sha256'' then Some (hf_sha256 hf)
      else if algorithm = us ''shake256'' then Some (hf_shake256 hf) else None)"

definition split_point :: "nat \<Rightarrow> nat" where
  "split_point n = while (\<lambda>k. k < n) (\<lambda>k. 2 * k) 1 div 2"

lemma split_loop_power:
  "\<exists>d. while (\<lambda>k. k < n) (\<lambda>k. 2 * k) (2 ^ e) = (2 :: nat) ^ d \<and> n \<le> 2 ^ d \<and>
       (d = e \<or> e < d \<and> 2 ^ (d - 1) < n)"
proof (induction "n - 2 ^ e" arbitrary: e rule: less_induct)
  case less
  show ?case
  proof (cases "2 ^ e < n")
    case False
    then show ?thesis by (intro exI [of _ e]) (simp add: while_unfold)
  next
    case True
    then have "n - 2 ^ Suc e < n - 2 ^ e" by (simp add: diff_less_mono2)
    from less [OF this] obtain d where
      d: "while (\<lambda>k. k < n) (\<lambda>k. 2 * k) (2 ^ Suc e) = (2 :: nat) ^ d" "n \<le> 2 ^ d"
        "d = Suc e \<or> Suc e < d \<and> 2 ^ (d - 1) < n" by blast
    have "while (\<lambda>k. k < n) (\<lambda>k. 2 * k) (2 ^ e) = (2 :: nat) ^ d"
      using True d(1) by (subst while_unfold) simp
    then show ?thesis
      using d(2,3) True by (intro exI [of _ d]) auto
  qed
qed

text \<open>The split is the largest power of two below the number of leaves.\<close>

lemma split_point_power:
  assumes "1 < n"
  obtains d where "split_point n = 2 ^ d" "2 ^ d < n" "n \<le> 2 ^ Suc d"
proof -
  obtain d where d: "while (\<lambda>k. k < n) (\<lambda>k. 2 * k) (2 ^ 0) = (2 :: nat) ^ d" "n \<le> 2 ^ d"
    "d = 0 \<or> 0 < d \<and> 2 ^ (d - 1) < n"
    using split_loop_power [of n 0] by blast
  have "d \<noteq> 0" using d(2) assms by (metis leD power_0)
  then obtain e where "d = Suc e" by (cases d) auto
  with d show ?thesis by (intro that [of e]) (simp_all add: split_point_def)
qed

lemma split_point_bounds: "1 < n \<Longrightarrow> 0 < split_point n \<and> split_point n < n"
  by (erule split_point_power) simp

lemma split_point_less [simp]:
  "Suc 0 < n \<Longrightarrow> split_point n < n"
  "Suc 0 < n \<Longrightarrow> n - split_point n < n"
  "Suc 0 < n \<Longrightarrow> 0 < split_point n"
  using split_point_bounds [of n] by auto

lemma split_point_unique:
  assumes "2 ^ d < n" and "n \<le> 2 ^ Suc d"
  shows "split_point n = 2 ^ d"
proof -
  have "1 < n" using assms(1) by (metis less_one linorder_neqE_nat not_less_zero
        one_le_numeral one_le_power order_less_le_trans order_less_trans)
  then obtain e where e: "split_point n = 2 ^ e" "2 ^ e < n" "n \<le> 2 ^ Suc e"
    by (rule split_point_power)
  have "(2 :: nat) ^ e < 2 ^ Suc d" "(2 :: nat) ^ d < 2 ^ Suc e"
    using assms e(2,3) by linarith+
  then have "e < Suc d" "d < Suc e" by (simp_all only: power_strict_increasing_iff numeral_eq_one_iff one_less_numeral_iff semiring_norm)
  with e(1) show ?thesis by simp
qed

lemma split_point_take: "1 < n \<Longrightarrow> n \<le> 2 * split_point n"
  by (erule split_point_power) simp

text \<open>
  \<open>_mth\<close> is called on non-empty lists only: \<open>root\<close> checks for the empty tree, and both
  halves of a split are non-empty (\<open>split_point_bounds\<close>).
\<close>

function mth :: "(bytes \<Rightarrow> bytes) \<Rightarrow> bytes list \<Rightarrow> bytes" where
  "mth h hashes =
     (if length hashes \<le> 1 then concat hashes
      else let k = split_point (length hashes)
           in h (1 # mth h (take k hashes) @ mth h (drop k hashes)))"
  by pat_completeness auto
termination
  by (relation "measure (\<lambda>(h, hs). length hs)") auto

declare mth.simps [simp del]

function audit_path :: "(bytes \<Rightarrow> bytes) \<Rightarrow> bytes list \<Rightarrow> nat \<Rightarrow> bytes list" where
  "audit_path h hashes index =
     (if length hashes \<le> 1 then []
      else let k = split_point (length hashes)
           in if index < k then audit_path h (take k hashes) index @ [mth h (drop k hashes)]
              else audit_path h (drop k hashes) (index - k) @ [mth h (take k hashes)])"
  by pat_completeness auto
termination
  by (relation "measure (\<lambda>(h, hs, i). length hs)") auto

declare audit_path.simps [simp del]

text \<open>
  \<open>_subproof\<close> is entered with \<open>0 < m <= n\<close> and keeps it, so it never meets a list of at most
  one hash with another \<open>m\<close>; the second disjunct of the base case only makes the
  recursion total.
\<close>

function subproof :: "(bytes \<Rightarrow> bytes) \<Rightarrow> nat \<Rightarrow> bytes list \<Rightarrow> bool \<Rightarrow> bytes list" where
  "subproof h m hashes b =
     (if m = length hashes \<or> length hashes \<le> 1 then (if b then [] else [mth h hashes])
      else let k = split_point (length hashes)
           in if m \<le> k then subproof h m (take k hashes) b @ [mth h (drop k hashes)]
              else subproof h (m - k) (drop k hashes) False @ [mth h (take k hashes)])"
  by pat_completeness auto
termination
  by (relation "measure (\<lambda>(h, m, hs, b). length hs)") auto

declare subproof.simps [simp del]

subsection \<open>The tree object\<close>

record merkle_tree =
  mt_algorithm :: pystr
  mt_h :: "bytes \<Rightarrow> bytes"
  mt_leaf_hashes :: "bytes list"

record inclusion_proof =
  ip_leaf_index :: int
  ip_tree_size :: int
  ip_leaf_hash :: bytes
  ip_audit_path :: "bytes list"

definition new_tree :: "hash_fns \<Rightarrow> pystr \<Rightarrow> merkle_tree result" where
  "new_tree hf algorithm =
     (case hash_fn hf algorithm of
        None \<Rightarrow> Inl (ValueError (us ''Unsupported algorithm. Use sha256 or shake256.''))
      | Some h \<Rightarrow> Inr \<lparr>mt_algorithm = algorithm, mt_h = h, mt_leaf_hashes = []\<rparr>)"

definition add_leaf :: "bytes \<Rightarrow> merkle_tree \<Rightarrow> bytes \<times> merkle_tree" where
  "add_leaf leaf_preimage t =
     (let leaf_hash = mt_h t (0 # leaf_preimage)
      in (leaf_hash, t\<lparr>mt_leaf_hashes := mt_leaf_hashes t @ [leaf_hash]\<rparr>))"

definition mt_root :: "merkle_tree \<Rightarrow> bytes" where
  "mt_root t = (if mt_leaf_hashes t = [] then mt_h t [] else mth (mt_h t) (mt_leaf_hashes t))"

definition mt_root_hex :: "merkle_tree \<Rightarrow> pystr" where
  "mt_root_hex t = mt_algorithm t @ us '':'' @ hex_of_bytes (mt_root t)"

definition mt_inclusion_proof :: "merkle_tree \<Rightarrow> int \<Rightarrow> inclusion_proof result" where
  "mt_inclusion_proof t leaf_index =
     (let n = length (mt_leaf_hashes t)
      in if leaf_index < 0 \<or> leaf_index \<ge> int n then Inl IndexError
         else Inr \<lparr>ip_leaf_index = leaf_index, ip_tree_size = int n,
                   ip_leaf_hash = mt_leaf_hashes t ! nat leaf_index,
                   ip_audit_path = audit_path (mt_h t) (mt_leaf_hashes t) (nat leaf_index)\<rparr>)"

definition mt_consistency_proof :: "merkle_tree \<Rightarrow> int \<Rightarrow> bytes list result" where
  "mt_consistency_proof t first_size =
     (let n = int (length (mt_leaf_hashes t))
      in if \<not> (0 < first_size \<and> first_size \<le> n)
         then Inl (ValueError (us ''first_size out of range''))
         else if first_size = n then Inr []
         else Inr (subproof (mt_h t) (nat first_size) (mt_leaf_hashes t) True))"

subsection \<open>The verifiers\<close>

text \<open>The inner loop \<open>while (fn & 1) == 0 and fn != 0\<close>, and the loop \<open>while fn & 1\<close>.\<close>

fun shift_even :: "nat \<Rightarrow> nat \<Rightarrow> nat \<times> nat" where
  "shift_even fn sn = (if even fn \<and> fn \<noteq> 0 then shift_even (fn div 2) (sn div 2) else (fn, sn))"

function shift_odd :: "nat \<Rightarrow> nat \<Rightarrow> nat \<times> nat" where
  "shift_odd fn sn = (if odd fn then shift_odd (fn div 2) (sn div 2) else (fn, sn))"
  by pat_completeness auto
termination
  by (relation "measure fst") (auto elim: oddE)

declare shift_even.simps [simp del] shift_odd.simps [simp del]

fun crp_loop :: "(bytes \<Rightarrow> bytes) \<Rightarrow> nat \<Rightarrow> nat \<Rightarrow> bytes \<Rightarrow> bytes list \<Rightarrow> bytes" where
  "crp_loop h fn sn r [] = (if sn \<noteq> 0 then [] else r)"
| "crp_loop h fn sn r (step # path) =
     (if sn = 0 then []
      else if odd fn \<or> fn = sn
      then (case (if even fn then shift_even fn sn else (fn, sn)) of
              (fn, sn) \<Rightarrow> crp_loop h (fn div 2) (sn div 2) (h (1 # step @ r)) path)
      else crp_loop h (fn div 2) (sn div 2) (h (1 # r @ step)) path)"

definition compute_root_from_proof ::
  "bytes \<Rightarrow> int \<Rightarrow> int \<Rightarrow> bytes list \<Rightarrow> (bytes \<Rightarrow> bytes) \<Rightarrow> bytes" where
  "compute_root_from_proof leaf_hash index tree_size path h =
     (if \<not> (0 \<le> index \<and> index < tree_size) then []
      else crp_loop h (nat index) (nat (tree_size - 1)) leaf_hash path)"

definition mt_verify_inclusion :: "merkle_tree \<Rightarrow> inclusion_proof \<Rightarrow> bool" where
  "mt_verify_inclusion t p =
     (compute_root_from_proof (ip_leaf_hash p) (ip_leaf_index p) (ip_tree_size p)
        (ip_audit_path p) (mt_h t) = mt_root t)"

text \<open>\<open>None\<close> is the result \<open>(None, None, -1)\<close> of an over-long proof.\<close>

fun fold_loop ::
  "(bytes \<Rightarrow> bytes) \<Rightarrow> nat \<Rightarrow> nat \<Rightarrow> bytes \<Rightarrow> bytes \<Rightarrow> bytes list \<Rightarrow> (bytes \<times> bytes \<times> nat) option" where
  "fold_loop h fn sn fr sr [] = Some (fr, sr, sn)"
| "fold_loop h fn sn fr sr (c # cs) =
     (if sn = 0 then None
      else if odd fn \<or> fn = sn
      then (case shift_even fn sn of
              (fn, sn) \<Rightarrow>
                fold_loop h (fn div 2) (sn div 2) (h (1 # c @ fr)) (h (1 # c @ sr)) cs)
      else fold_loop h (fn div 2) (sn div 2) fr (h (1 # sr @ c)) cs)"

definition fold_consistency_terms ::
  "bytes list \<Rightarrow> nat \<Rightarrow> nat \<Rightarrow> (bytes \<Rightarrow> bytes) \<Rightarrow> (bytes \<times> bytes \<times> nat) option" where
  "fold_consistency_terms terms fn sn h = fold_loop h fn sn (hd terms) (hd terms) (tl terms)"

definition verify_consistency ::
  "(bytes \<Rightarrow> bytes) \<Rightarrow> bytes \<Rightarrow> bytes \<Rightarrow> nat \<Rightarrow> nat \<Rightarrow> bytes list \<Rightarrow> bool" where
  "verify_consistency h first_root second_root first_size second_size prf =
     (if first_size > second_size then False
      else if first_size = second_size then prf = [] \<and> first_root = second_root
      else if first_size = 0 then prf = []
      else let terms = (if first_size AND (first_size - 1) = 0 then first_root # prf else prf)
           in if terms = [] then False
              else case shift_odd (first_size - 1) (second_size - 1) of
                (fn, sn) \<Rightarrow>
                  (case fold_consistency_terms terms fn sn h of
                     None \<Rightarrow> False
                   | Some (fr, sr, sn) \<Rightarrow> fr = first_root \<and> sr = second_root \<and> sn = 0))"

subsection \<open>A generic climb from a leaf to the root\<close>

text \<open>
  Both verifiers walk up the tree along the bits of a pair \<open>(fn, sn)\<close>: the accumulator is
  combined with a sibling on its left (\<open>R\<close>) or on its right (\<open>L\<close>).
\<close>

fun climb ::
  "(bytes \<Rightarrow> 'a \<Rightarrow> 'a) \<Rightarrow> (bytes \<Rightarrow> 'a \<Rightarrow> 'a) \<Rightarrow> nat \<Rightarrow> nat \<Rightarrow> 'a \<Rightarrow> bytes list \<Rightarrow>
   (nat \<times> nat \<times> 'a) option" where
  "climb R L fn sn a [] = Some (fn, sn, a)"
| "climb R L fn sn a (c # cs) =
     (if sn = 0 then None
      else if odd fn \<or> fn = sn
      then (case shift_even fn sn of (fn, sn) \<Rightarrow> climb R L (fn div 2) (sn div 2) (R c a) cs)
      else climb R L (fn div 2) (sn div 2) (L c a) cs)"

definition at_top :: "(nat \<times> nat \<times> 'a) option \<Rightarrow> 'a option" where
  "at_top x = (case x of None \<Rightarrow> None | Some (fn, sn, a) \<Rightarrow> if sn = 0 then Some a else None)"

lemma at_top_simps [simp]:
  "at_top None = None" "at_top (Some (fn, sn, a)) = (if sn = 0 then Some a else None)"
  by (simp_all add: at_top_def)

lemma shift_even_odd [simp]: "odd fn \<Longrightarrow> shift_even fn sn = (fn, sn)"
  by (simp add: shift_even.simps)

lemma climb_append:
  "climb R L fn sn a (p @ q) =
     Option.bind (climb R L fn sn a p) (\<lambda>(fn, sn, a). climb R L fn sn a q)"
  by (induction R L fn sn a p rule: climb.induct) (auto split: prod.splits)

lemma climb_top_stuck: "climb R L fn 0 a p = (if p = [] then Some (fn, 0, a) else None)"
  by (cases p) auto

lemma pow2_pred_div: "(2 ^ (l + e) - 1) div 2 ^ l = (2 ^ e - 1 :: nat)"
proof (rule div_nat_eqI)
  have "(2 :: nat) ^ e * 2 ^ l - 2 ^ l \<le> 2 ^ e * 2 ^ l - 1"
    by (rule diff_le_mono2) simp
  then show "2 ^ l * (2 ^ e - 1) \<le> (2 ^ (l + e) - 1 :: nat)"
    by (simp add: power_add algebra_simps)
qed (simp add: power_add algebra_simps)

lemma pow2_gt1: "(1 :: nat) < 2 * 2 ^ e"
  by (metis one_less_numeral_iff one_less_power power_Suc semiring_norm(76) zero_less_Suc)

text \<open>In the left half the high bits of \<open>sn\<close> are never seen.\<close>

lemma climb_left:
  assumes "i < 2 ^ d" and "2 ^ d \<le> m" and "length p \<le> d"
  shows "\<exists>a'. climb R L i m a p = Some (i div 2 ^ length p, m div 2 ^ length p, a') \<and>
              climb R L i (2 ^ d - 1) a p =
                Some (i div 2 ^ length p, (2 ^ d - 1) div 2 ^ length p, a')"
  using assms
proof (induction p arbitrary: i m d a)
  case (Cons c p)
  then obtain e where d: "d = Suc e" by (cases d) auto
  have half: "(2 ^ d - 1) div 2 = (2 :: nat) ^ e - 1" by (simp add: d)
  have "i div 2 < 2 ^ e" "2 ^ e \<le> m div 2" "length p \<le> e" using Cons.prems d by auto
  note IH = Cons.IH [OF this]
  have "m \<noteq> 0" "i \<noteq> m" "(2 :: nat) ^ d - 1 \<noteq> 0" "even i \<Longrightarrow> i \<noteq> 2 ^ d - 1"
    using Cons.prems pow2_gt1 [of e] by (auto simp: d)
  then show ?case
    using IH [of "if odd i then R c a else L c a"] half by (auto simp: div_mult2_eq)
qed simp

lemma at_top_left:
  assumes i: "i < 2 ^ d" and m: "2 ^ d \<le> m" "m < 2 ^ Suc d"
  shows "at_top (climb R L i m a (p @ [s])) = map_option (L s) (at_top (climb R L i (2 ^ d - 1) a p))"
proof (cases "length p \<le> d")
  case True
  obtain a' where a': "climb R L i m a p = Some (i div 2 ^ length p, m div 2 ^ length p, a')"
    "climb R L i (2 ^ d - 1) a p = Some (i div 2 ^ length p, (2 ^ d - 1) div 2 ^ length p, a')"
    using climb_left [OF i m(1) True, of R L a] by blast
  obtain e where e: "d = length p + e" using True by (metis le_Suc_ex)
  have lt: "i div 2 ^ length p < 2 ^ e" "2 ^ e \<le> m div 2 ^ length p"
    using i m(1) e by (auto simp: power_add less_mult_imp_div_less mult.commute
        less_eq_div_iff_mult_less_eq)
  show ?thesis
  proof (cases e)
    case 0
    with e have "m div 2 ^ length p = 1" "i div 2 ^ length p = 0" "(2 ^ d - 1) div 2 ^ length p = (0 :: nat)"
      using m lt by (auto intro: div_nat_eqI)
    with a' show ?thesis by (simp add: climb_append)
  next
    case (Suc e')
    have "(1 :: nat) < 2 ^ e" using Suc pow2_gt1 [of e'] by simp
    then have small: "(2 ^ d - 1) div (2 :: nat) ^ length p \<noteq> 0"
      unfolding e pow2_pred_div by simp
    have "2 \<le> m div 2 ^ length p" using lt(2) pow2_gt1 [of e'] Suc by simp
    then have "m div 2 ^ length p div 2 \<noteq> 0" by simp
    with a' small lt show ?thesis by (auto simp: climb_append)
  qed
next
  case False
  define q where "q = take d p"
  from False obtain x r where p: "p = q @ x # r" and q: "length q = d"
    unfolding q_def by (metis append_take_drop_id drop_eq_Nil length_take linorder_not_le
        list.exhaust min.absorb4 nle_le)
  obtain a' where a': "climb R L i m a q = Some (i div 2 ^ d, m div 2 ^ d, a')"
    "climb R L i (2 ^ d - 1) a q = Some (i div 2 ^ d, (2 ^ d - 1) div 2 ^ d, a')"
    using climb_left [OF i m(1), of q R L a] q by auto
  have "m div 2 ^ d = 1" "i div 2 ^ d = 0" "(2 ^ d - 1) div 2 ^ d = (0 :: nat)"
    using i m by (auto intro: div_nat_eqI)
  with a' show ?thesis by (simp add: p climb_append climb_top_stuck)
qed

text \<open>In the right half both numbers carry one more high bit, which stays in front.\<close>

lemma shift_even_offset:
  assumes "fn \<noteq> 0" and "fn \<le> sn" and "sn < 2 ^ e"
  shows "\<exists>a b e'. shift_even fn sn = (a, b) \<and> shift_even (fn + 2 ^ e) (sn + 2 ^ e) = (a + 2 ^ e', b + 2 ^ e') \<and>
           0 < e' \<and> a \<le> b \<and> b < 2 ^ e'"
  using assms
proof (induction fn sn arbitrary: e rule: shift_even.induct)
  case (1 fn sn)
  then obtain d where e: "e = Suc d" by (cases e) auto
  show ?case
  proof (cases "even fn")
    case False
    then show ?thesis using "1.prems" e by (intro exI [of _ fn] exI [of _ sn] exI [of _ e]) auto
  next
    case True
    have "fn div 2 \<noteq> 0" "fn div 2 \<le> sn div 2" "sn div 2 < 2 ^ d"
      using "1.prems" True e by (auto elim: evenE intro: div_le_mono)
    with True "1.prems" e "1.IH" [of d] show ?thesis
      by (auto simp: shift_even.simps [of fn] shift_even.simps [of "fn + 2 * 2 ^ d"] add.commute)
  qed
qed

lemma climb_right:
  assumes "fn \<le> sn" and "sn < 2 ^ e" and "climb R L fn sn a p = Some (fn', sn', a')"
  shows "\<exists>e'. climb R L (fn + 2 ^ e) (sn + 2 ^ e) a p = Some (fn' + 2 ^ e', sn' + 2 ^ e', a') \<and>
              fn' \<le> sn' \<and> sn' < 2 ^ e'"
  using assms
proof (induction p arbitrary: fn sn e a)
  case (Cons c p)
  then have sn: "sn \<noteq> 0" by (auto split: if_splits)
  then obtain d where e: "e = Suc d" using Cons.prems(2) by (cases e) auto
  show ?case
  proof (cases "odd fn \<or> fn = sn")
    case True
    then have "fn \<noteq> 0" using sn by (auto intro: odd_pos)
    from shift_even_offset [OF this Cons.prems(1,2)] obtain x y z where
      xyz: "shift_even fn sn = (x, y)" "shift_even (fn + 2 ^ e) (sn + 2 ^ e) = (x + 2 ^ Suc z, y + 2 ^ Suc z)"
        "x \<le> y" "y < 2 ^ Suc z" by (metis Suc_pred')
    have "x div 2 \<le> y div 2" "y div 2 < 2 ^ z" using xyz(3,4) by (auto intro: div_le_mono)
    from Cons.IH [OF this, of "R c a"] True sn Cons.prems(3) xyz e show ?thesis
      by (auto simp: add.commute)
  next
    case False
    have "fn div 2 \<le> sn div 2" "sn div 2 < 2 ^ d" using Cons.prems e by (auto intro: div_le_mono)
    from Cons.IH [OF this, of "L c a"] False sn Cons.prems(3) e show ?thesis
      by (auto simp: add.commute)
  qed
qed auto

lemma shift_even_pow2: "shift_even (2 ^ e) (2 ^ e) = (1, 1)"
  by (induction e) (simp_all add: shift_even.simps)

lemma climb_step:
  "sn \<noteq> 0 \<Longrightarrow> \<exists>f s b. \<forall>q. climb R L fn sn a (c # q) = climb R L f s b q"
  by (cases "odd fn \<or> fn = sn"; cases "shift_even fn sn") auto

lemma climb_None_split:
  "climb R L fn sn a p = None \<Longrightarrow>
   \<exists>q x r fn' a'. p = q @ x # r \<and> climb R L fn sn a q = Some (fn', 0, a')"
proof (induction p arbitrary: fn sn a)
  case (Cons c p)
  show ?case
  proof (cases "sn = 0")
    case True
    then show ?thesis by (intro exI [of _ "[]"] exI [of _ c] exI [of _ p]) auto
  next
    case False
    from climb_step [OF this] obtain f s b where
      step: "climb R L fn sn a (c # q) = climb R L f s b q" for q by metis
    with Cons obtain q x r fn' a' where "p = q @ x # r" "climb R L f s b q = Some (fn', 0, a')"
      by metis
    with step show ?thesis by (intro exI [of _ "c # q"]) simp
  qed
qed simp

lemma at_top_right:
  assumes "fn \<le> sn" and "sn < 2 ^ e"
  shows "at_top (climb R L (fn + 2 ^ e) (sn + 2 ^ e) a (p @ [s])) =
           map_option (R s) (at_top (climb R L fn sn a p))"
proof (cases "climb R L fn sn a p")
  case None
  then obtain q x r fn' a' where p: "p = q @ x # r" "climb R L fn sn a q = Some (fn', 0, a')"
    using climb_None_split by metis
  from climb_right [OF assms p(2)] obtain e' where
    "climb R L (fn + 2 ^ e) (sn + 2 ^ e) a q = Some (2 ^ e', 2 ^ e', a')" by auto
  with None p(1) show ?thesis by (simp add: climb_append shift_even_pow2 climb_top_stuck)
next
  case (Some y)
  obtain fn' sn' a' where y: "y = (fn', sn', a')" by (cases y)
  from climb_right [OF assms Some [unfolded y]] obtain e' where
    e': "climb R L (fn + 2 ^ e) (sn + 2 ^ e) a p = Some (fn' + 2 ^ e', sn' + 2 ^ e', a')"
      "fn' \<le> sn'" "sn' < 2 ^ e'" by blast
  show ?thesis
  proof (cases "sn' = 0")
    case True
    with e' Some y show ?thesis by (simp add: climb_append shift_even_pow2)
  next
    case False
    obtain f2 s2 a2 where small: "climb R L fn' sn' a' [s] = Some (f2, s2, a2)"
      using False by (cases "odd fn' \<or> fn' = sn'"; cases "shift_even fn' sn'") auto
    from climb_right [OF e'(2,3) this] obtain e2 where
      "climb R L (fn' + 2 ^ e') (sn' + 2 ^ e') a' [s] = Some (f2 + 2 ^ e2, s2 + 2 ^ e2, a2)"
      by blast
    with e'(1) Some y False show ?thesis by (simp add: climb_append)
  qed
qed

subsection \<open>The climb follows the shape of the tree\<close>

function tree_climb ::
  "(bytes \<Rightarrow> 'a \<Rightarrow> 'a) \<Rightarrow> (bytes \<Rightarrow> 'a \<Rightarrow> 'a) \<Rightarrow> nat \<Rightarrow> nat \<Rightarrow> 'a \<Rightarrow> bytes list \<Rightarrow> 'a option" where
  "tree_climb R L n i a path =
     (if n \<le> 1 then (if path = [] then Some a else None)
      else if path = [] then None
      else let k = split_point n
           in if i < k then map_option (L (last path)) (tree_climb R L k i a (butlast path))
              else map_option (R (last path)) (tree_climb R L (n - k) (i - k) a (butlast path)))"
  by pat_completeness auto
termination
  by (relation "measure (\<lambda>(R, L, n, i, a, path). n)") auto

declare tree_climb.simps [simp del]

lemma climb_tree: "i < n \<Longrightarrow> at_top (climb R L i (n - 1) a path) = tree_climb R L n i a path"
proof (induction n arbitrary: i path rule: less_induct)
  case (less n)
  show ?case
  proof (cases "n \<le> 1")
    case True
    with less.prems have "n = 1" by simp
    then show ?thesis by (simp add: climb_top_stuck tree_climb.simps)
  next
    case False
    then have "1 < n" by simp
    then obtain d where d: "split_point n = 2 ^ d" "2 ^ d < n" "n \<le> 2 ^ Suc d"
      by (rule split_point_power)
    show ?thesis
    proof (cases path rule: rev_cases)
      case Nil
      with False show ?thesis by (simp add: tree_climb.simps)
    next
      case (snoc p x)
      show ?thesis
      proof (cases "i < 2 ^ d")
        case True
        have "at_top (climb R L i (n - 1) a path) =
            map_option (L x) (at_top (climb R L i (2 ^ d - 1) a p))"
          unfolding snoc using True d(2,3) by (intro at_top_left) auto
        with True d False snoc less.IH [of "2 ^ d" i p] show ?thesis
          by (simp add: tree_climb.simps [of R L n])
      next
        case right: False
        have sum: "i = (i - 2 ^ d) + 2 ^ d" "n - 1 = (n - 2 ^ d - 1) + 2 ^ d"
          using right d(2) by auto
        have "at_top (climb R L i (n - 1) a path) =
            map_option (R x) (at_top (climb R L (i - 2 ^ d) (n - 2 ^ d - 1) a p))"
          unfolding snoc
          by (subst sum(1), subst sum(2), rule at_top_right) (use less.prems d in auto)
        with right d False snoc less.prems less.IH [of "n - 2 ^ d" "i - 2 ^ d" p] show ?thesis
          by (simp add: tree_climb.simps [of R L n] Let_def)
      qed
    qed
  qed
qed

function cons_climb ::
  "(bytes \<Rightarrow> 'a \<Rightarrow> 'a) \<Rightarrow> (bytes \<Rightarrow> 'a \<Rightarrow> 'a) \<Rightarrow> nat \<Rightarrow> nat \<Rightarrow> 'a \<Rightarrow> bytes list \<Rightarrow> 'a option" where
  "cons_climb R L m n a path =
     (if m = n \<or> n \<le> 1 then (if path = [] then Some a else None)
      else if path = [] then None
      else let k = split_point n
           in if m \<le> k then map_option (L (last path)) (cons_climb R L m k a (butlast path))
              else map_option (R (last path)) (cons_climb R L (m - k) (n - k) a (butlast path)))"
  by pat_completeness auto
termination
  by (relation "measure (\<lambda>(R, L, m, n, a, path). n)") auto

declare cons_climb.simps [simp del]

lemma shift_odd_ones: "shift_odd (2 ^ d - 1) (2 ^ d - 1) = (0, 0)"
proof (induction d)
  case (Suc d)
  have "odd (2 ^ Suc d - 1 :: nat)" "(2 ^ Suc d - 1) div 2 = (2 ^ d - 1 :: nat)"
    using pow2_pred_div [of 1 d] by simp_all
  with Suc show ?case by (subst shift_odd.simps) simp
qed (simp add: shift_odd.simps)

lemma shift_odd_less: "fn < sn \<Longrightarrow> fst (shift_odd fn sn) < snd (shift_odd fn sn)"
proof (induction fn sn rule: shift_odd.induct)
  case (1 fn sn)
  show ?case
  proof (cases "odd fn")
    case True
    then have "fn div 2 < sn div 2" using "1.prems" by (elim oddE) auto
    with True "1.IH" show ?thesis by (simp add: shift_odd.simps [of fn])
  qed (use "1.prems" in \<open>simp add: shift_odd.simps [of fn]\<close>)
qed

lemma shift_odd_left:
  assumes "i < 2 ^ d"
  shows "\<exists>j f. j \<le> d \<and> f < 2 ^ (d - j) \<and> (\<forall>m. shift_odd i m = (f, m div 2 ^ j))"
  using assms
proof (induction d arbitrary: i)
  case (Suc d)
  show ?case
  proof (cases "odd i")
    case True
    from Suc.prems have "i div 2 < 2 ^ d" by simp
    from Suc.IH [OF this] obtain j f where
      jf: "j \<le> d" "f < 2 ^ (d - j)" "\<forall>m. shift_odd (i div 2) m = (f, m div 2 ^ j)" by blast
    then have "\<forall>m. shift_odd i m = (f, m div 2 ^ Suc j)"
      using True by (simp add: shift_odd.simps [of i] div_mult2_eq)
    with jf(1,2) show ?thesis by (intro exI [of _ "Suc j"] exI [of _ f]) simp
  next
    case False
    then have "\<forall>m. shift_odd i m = (i, m div 2 ^ 0)" by (simp add: shift_odd.simps [of i])
    with Suc.prems show ?thesis by (intro exI [of _ 0] exI [of _ i]) simp
  qed
qed (simp add: shift_odd.simps)

lemma shift_odd_right:
  assumes "fn \<le> sn" and "sn < 2 ^ e" and "fn + 1 < 2 ^ e"
  shows "\<exists>a b e'. shift_odd fn sn = (a, b) \<and>
           shift_odd (fn + 2 ^ e) (sn + 2 ^ e) = (a + 2 ^ e', b + 2 ^ e') \<and> a \<le> b \<and> b < 2 ^ e'"
  using assms
proof (induction fn sn arbitrary: e rule: shift_odd.induct)
  case (1 fn sn)
  then obtain d where e: "e = Suc d" by (cases e) auto
  show ?case
  proof (cases "odd fn")
    case False
    then show ?thesis using "1.prems" e
      by (intro exI [of _ fn] exI [of _ sn] exI [of _ e]) (simp add: shift_odd.simps)
  next
    case True
    then obtain q where q: "fn = 2 * q + 1" by (elim oddE)
    have "fn div 2 \<le> sn div 2" "sn div 2 < 2 ^ d" "fn div 2 + 1 < 2 ^ d"
      using "1.prems" q e by (auto intro: div_le_mono)
    with True e "1.IH" [of d] show ?thesis
      by (auto simp: shift_odd.simps [of fn] shift_odd.simps [of "fn + 2 * 2 ^ d"] add.commute)
  qed
qed

lemma climb_cons_left:
  assumes "i < 2 ^ d" and "2 ^ d \<le> m" and "m < 2 ^ Suc d"
  shows "(case shift_odd i m of (fn, sn) \<Rightarrow> at_top (climb R L fn sn a (p @ [s]))) =
         map_option (L s) (case shift_odd i (2 ^ d - 1) of (fn, sn) \<Rightarrow> at_top (climb R L fn sn a p))"
proof -
  obtain j f where jf: "j \<le> d" "f < 2 ^ (d - j)" "\<And>m. shift_odd i m = (f, m div 2 ^ j)"
    using shift_odd_left [OF assms(1)] by blast
  obtain e where e: "d = j + e" using jf(1) by (metis le_Suc_ex)
  have "2 ^ e \<le> m div 2 ^ j" "m div 2 ^ j < 2 ^ Suc e"
    using assms(2,3) e by (auto simp: power_add less_mult_imp_div_less mult.commute
        less_eq_div_iff_mult_less_eq mult.left_commute)
  from at_top_left [OF _ this, of f R L a p s] jf(2,3) e show ?thesis
    by (simp add: pow2_pred_div [of j e, simplified])
qed

lemma climb_cons_right:
  assumes "fn < sn" and "sn < 2 ^ e"
  shows "(case shift_odd (fn + 2 ^ e) (sn + 2 ^ e) of
            (fn, sn) \<Rightarrow> at_top (climb R L fn sn a (p @ [s]))) =
         map_option (R s) (case shift_odd fn sn of (fn, sn) \<Rightarrow> at_top (climb R L fn sn a p))"
proof -
  obtain x y e' where "shift_odd fn sn = (x, y)"
    "shift_odd (fn + 2 ^ e) (sn + 2 ^ e) = (x + 2 ^ e', y + 2 ^ e')" "x \<le> y" "y < 2 ^ e'"
    using shift_odd_right [of fn sn e] assms by auto
  then show ?thesis by (simp add: at_top_right)
qed

lemma climb_cons:
  assumes "0 < m" and "m < n \<or> (m = n \<and> (\<exists>d. n = 2 ^ d))"
  shows "(case shift_odd (m - 1) (n - 1) of (fn, sn) \<Rightarrow> at_top (climb R L fn sn a path)) =
         cons_climb R L m n a path"
  using assms
proof (induction n arbitrary: m path rule: less_induct)
  case (less n)
  show ?case
  proof (cases "m = n")
    case True
    with less.prems obtain d where "n = 2 ^ d" by auto
    with True shift_odd_ones [of d] show ?thesis
      by (simp add: climb_top_stuck cons_climb.simps)
  next
    case False
    with less.prems have mn: "m < n" "1 < n" by auto
    from mn(2) obtain d where d: "split_point n = 2 ^ d" "2 ^ d < n" "n \<le> 2 ^ Suc d"
      by (rule split_point_power)
    show ?thesis
    proof (cases path rule: rev_cases)
      case Nil
      moreover have "m - 1 < n - 1" using mn less.prems(1) by simp
      ultimately show ?thesis
        using shift_odd_less [of "m - 1" "n - 1"] mn
        by (auto simp: cons_climb.simps split: prod.splits)
    next
      case (snoc p x)
      show ?thesis
      proof (cases "m \<le> 2 ^ d")
        case True
        then have "m < 2 ^ d \<or> m = 2 ^ d \<and> (\<exists>e. 2 ^ d = 2 ^ e)" by auto
        from less.IH [OF d(2) less.prems(1) this, of p] True mn d(1)
          climb_cons_left [of "m - 1" d "n - 1" R L a p x] d(2,3) less.prems(1)
        show ?thesis by (simp add: snoc cons_climb.simps [of R L m n])
      next
        case right: False
        have sum: "m - 1 = (m - 2 ^ d - 1) + 2 ^ d" "n - 1 = (n - 2 ^ d - 1) + 2 ^ d"
          using right d(2) by auto
        have "n - 2 ^ d < n" "0 < m - 2 ^ d" "m - 2 ^ d < n - 2 ^ d" using right mn d(2) by auto
        with less.IH [of "n - 2 ^ d" "m - 2 ^ d" p] right mn d(1)
          climb_cons_right [of "m - 2 ^ d - 1" "n - 2 ^ d - 1" d R L a p x] d(2,3)
        show ?thesis by (simp add: snoc cons_climb.simps [of R L m n] Let_def flip: sum)
      qed
    qed
  qed
qed

subsection \<open>The source's loops are climbs\<close>

text \<open>
  The accumulators also record the strings that were hashed, so that soundness can be
  stated with collision-freedom of the hash on exactly those strings.
\<close>

definition incl_R :: "(bytes \<Rightarrow> bytes) \<Rightarrow> bytes \<Rightarrow> bytes \<times> bytes list \<Rightarrow> bytes \<times> bytes list" where
  "incl_R h c = (\<lambda>(r, lg). (h (1 # c @ r), (1 # c @ r) # lg))"

definition incl_L :: "(bytes \<Rightarrow> bytes) \<Rightarrow> bytes \<Rightarrow> bytes \<times> bytes list \<Rightarrow> bytes \<times> bytes list" where
  "incl_L h c = (\<lambda>(r, lg). (h (1 # r @ c), (1 # r @ c) # lg))"

definition cons_R :: "(bytes \<Rightarrow> bytes) \<Rightarrow> bytes \<Rightarrow> bytes \<times> bytes \<times> bytes list \<Rightarrow> bytes \<times> bytes \<times> bytes list" where
  "cons_R h c = (\<lambda>(f, s, lg). (h (1 # c @ f), h (1 # c @ s), (1 # c @ f) # (1 # c @ s) # lg))"

definition cons_L :: "(bytes \<Rightarrow> bytes) \<Rightarrow> bytes \<Rightarrow> bytes \<times> bytes \<times> bytes list \<Rightarrow> bytes \<times> bytes \<times> bytes list" where
  "cons_L h c = (\<lambda>(f, s, lg). (f, h (1 # s @ c), (1 # s @ c) # lg))"

lemmas climb_ops = incl_R_def incl_L_def cons_R_def cons_L_def

lemma crp_loop_climb:
  "crp_loop h fn sn r path =
     (case at_top (climb (incl_R h) (incl_L h) fn sn (r, lg) path) of
        None \<Rightarrow> [] | Some (x, _) \<Rightarrow> x)"
  by (induction h fn sn r path arbitrary: lg rule: crp_loop.induct)
     (auto simp: climb_ops split: prod.splits)

lemma fold_loop_climb:
  "fold_loop h fn sn fr sr cs =
     map_option (\<lambda>(fn, sn, f, s, _). (f, s, sn)) (climb (cons_R h) (cons_L h) fn sn (fr, sr, lg) cs)"
  by (induction h fn sn fr sr cs arbitrary: lg rule: fold_loop.induct)
     (auto simp: climb_ops split: prod.splits)

definition proof_root ::
  "(bytes \<Rightarrow> bytes) \<Rightarrow> bytes \<Rightarrow> nat \<Rightarrow> nat \<Rightarrow> bytes list \<Rightarrow> (bytes \<times> bytes list) option" where
  "proof_root h r i n path = tree_climb (incl_R h) (incl_L h) n i (r, []) path"

text \<open>The strings the inclusion verifier hashes.\<close>

definition proof_hashed :: "(bytes \<Rightarrow> bytes) \<Rightarrow> bytes \<Rightarrow> nat \<Rightarrow> nat \<Rightarrow> bytes list \<Rightarrow> bytes set" where
  "proof_hashed h r i n path =
     (case proof_root h r i n path of None \<Rightarrow> {} | Some (x, lg) \<Rightarrow> set lg)"

lemma compute_root_eq:
  "i < n \<Longrightarrow> compute_root_from_proof r (int i) (int n) path h =
     (case proof_root h r i n path of None \<Rightarrow> [] | Some (x, _) \<Rightarrow> x)"
  using climb_tree [of i n "incl_R h" "incl_L h" "(r, [])" path]
  by (simp add: compute_root_from_proof_def proof_root_def crp_loop_climb [where lg = "[]"]
      nat_diff_distrib)

definition cons_roots ::
  "(bytes \<Rightarrow> bytes) \<Rightarrow> nat \<Rightarrow> nat \<Rightarrow> bytes list \<Rightarrow> (bytes \<times> bytes \<times> bytes list) option" where
  "cons_roots h m n terms = cons_climb (cons_R h) (cons_L h) m n (hd terms, hd terms, []) (tl terms)"

text \<open>The list of terms the consistency verifier folds.\<close>

definition cons_terms :: "bytes \<Rightarrow> nat \<Rightarrow> bytes list \<Rightarrow> bytes list" where
  "cons_terms r1 m prf = (if m AND (m - 1) = 0 then r1 # prf else prf)"

definition cons_hashed :: "(bytes \<Rightarrow> bytes) \<Rightarrow> bytes \<Rightarrow> nat \<Rightarrow> nat \<Rightarrow> bytes list \<Rightarrow> bytes set" where
  "cons_hashed h r1 m n prf =
     (case cons_roots h m n (cons_terms r1 m prf) of None \<Rightarrow> {} | Some (f, s, lg) \<Rightarrow> set lg)"

lemma verify_consistency_eq:
  assumes "0 < m" and "m < n"
  shows "verify_consistency h r1 r2 m n prf \<longleftrightarrow>
           cons_terms r1 m prf \<noteq> [] \<and>
           (\<exists>lg. cons_roots h m n (cons_terms r1 m prf) = Some (r1, r2, lg))"
proof -
  let ?t = "cons_terms r1 m prf"
  obtain fn sn where fs: "shift_odd (m - 1) (n - 1) = (fn, sn)" by force
  have "cons_roots h m n ?t = at_top (climb (cons_R h) (cons_L h) fn sn (hd ?t, hd ?t, []) (tl ?t))"
    using climb_cons [of m n "cons_R h" "cons_L h"] assms fs by (simp add: cons_roots_def)
  moreover have "fold_consistency_terms ?t fn sn h =
      map_option (\<lambda>(fn, sn, f, s, _). (f, s, sn))
        (climb (cons_R h) (cons_L h) fn sn (hd ?t, hd ?t, []) (tl ?t))"
    by (simp add: fold_consistency_terms_def fold_loop_climb [where lg = "[]"])
  ultimately show ?thesis
    using assms fs
    by (cases "climb (cons_R h) (cons_L h) fn sn (hd ?t, hd ?t, []) (tl ?t)")
       (auto simp: verify_consistency_def cons_terms_def Let_def split: if_splits)
qed

subsection \<open>Completeness\<close>

lemma mth_single [simp]: "mth h [x] = x"
  by (simp add: mth.simps)

lemma mth_split:
  "1 < length hs \<Longrightarrow> mth h hs = h (1 # mth h (take (split_point (length hs)) hs) @
                                     mth h (drop (split_point (length hs)) hs))"
  by (subst mth.simps) (simp add: Let_def)

lemma proof_root_audit_path:
  "i < length hs \<Longrightarrow>
   \<exists>lg'. tree_climb (incl_R h) (incl_L h) (length hs) i (hs ! i, lg) (audit_path h hs i) = Some (mth h hs, lg')"
proof (induction "length hs" arbitrary: hs i rule: less_induct)
  case less
  show ?case
  proof (cases "length hs \<le> 1")
    case True
    then obtain x where "hs = [x]" using less.prems by (cases hs) auto
    then show ?thesis using less.prems by (simp add: tree_climb.simps audit_path.simps)
  next
    case False
    let ?k = "split_point (length hs)"
    have k: "0 < ?k" "?k < length hs" using split_point_bounds [of "length hs"] False by auto
    show ?thesis
    proof (cases "i < ?k")
      case True
      with less.hyps [of "take ?k hs" i] k False show ?thesis
        by (auto simp: tree_climb.simps [of _ _ "length hs"] audit_path.simps [of _ hs] Let_def
            incl_L_def mth_split [of hs])
    next
      case right: False
      with less.prems have "i - ?k < length hs - ?k" by linarith
      with right less.hyps [of "drop ?k hs" "i - ?k"] less.prems k False show ?thesis
        by (auto simp: tree_climb.simps [of _ _ "length hs"] audit_path.simps [of _ hs] Let_def
            incl_R_def mth_split [of hs])
    qed
  qed
qed

lemma pow2_test:
  assumes "0 < m"
  shows "m AND (m - 1) = 0 \<longleftrightarrow> (\<exists>d. m = (2 :: nat) ^ d)"
  using assms
proof (induction m rule: less_induct)
  case (less m)
  show ?case
  proof (cases "even m")
    case True
    then obtain q where q: "m = 2 * q" "0 < q" using less.prems by (elim evenE) auto
    then have half: "(2 * q - Suc 0) div 2 = q - Suc 0" by presburger
    have "m AND (m - 1) = 2 * (q AND (q - 1))"
      using q by (subst and_rec) (simp add: half)
    moreover have "(\<exists>d. m = 2 ^ d) \<longleftrightarrow> (\<exists>d. q = 2 ^ d)"
    proof
      assume "\<exists>d. m = 2 ^ d"
      then obtain d where d: "m = 2 ^ d" ..
      with q have "d \<noteq> 0" by (cases d) auto
      with d q show "\<exists>d. q = 2 ^ d" by (cases d) auto
    qed (use q in \<open>auto intro: exI [of _ "Suc _"]\<close>)
    ultimately show ?thesis using less.IH [of q] q by simp
  next
    case False
    then obtain q where q: "m = 2 * q + 1" by (elim oddE)
    then have "m AND (m - 1) = 2 * q" by (subst and_rec) simp
    moreover have "(\<exists>d. m = 2 ^ d) \<longleftrightarrow> q = 0"
    proof
      assume "\<exists>d. m = 2 ^ d"
      then obtain d where "m = 2 ^ d" ..
      with False show "q = 0" using q by (cases d) auto
    qed (use q in \<open>auto intro: exI [of _ 0]\<close>)
    ultimately show ?thesis by simp
  qed
qed

lemma subproof_nonempty: "subproof h m hs False \<noteq> []"
  by (subst subproof.simps) (simp add: Let_def)

lemma subproof_True:
  assumes "0 < m" and "m \<le> length hs" and "m = length hs \<Longrightarrow> \<exists>d. m = 2 ^ d"
  shows "subproof h m hs False =
           (if \<exists>d. m = 2 ^ d then mth h (take m hs) # subproof h m hs True else subproof h m hs True)"
  using assms
proof (induction "length hs" arbitrary: hs rule: less_induct)
  case less
  show ?case
  proof (cases "m = length hs")
    case True
    with less.prems show ?thesis by (simp add: subproof.simps [of h "length hs" hs])
  next
    case False
    let ?k = "split_point (length hs)"
    from False less.prems have n: "1 < length hs" "m < length hs" by auto
    from n(1) obtain d where d: "?k = 2 ^ d" "2 ^ d < length hs" "length hs \<le> 2 ^ Suc d"
      by (rule split_point_power)
    show ?thesis
    proof (cases "m \<le> ?k")
      case True
      with less.hyps [of "take ?k hs"] less.prems d n show ?thesis
        by (auto simp: subproof.simps [of h m hs] Let_def min_def)
    next
      case right: False
      have "\<not> (\<exists>e. m = 2 ^ e)"
      proof
        assume "\<exists>e. m = 2 ^ e"
        then obtain e where "m = 2 ^ e" ..
        with right d n have "(2 :: nat) ^ d < 2 ^ e" "(2 :: nat) ^ e < 2 ^ Suc d" by auto
        then show False by (simp add: power_strict_increasing_iff del: power_Suc)
      qed
      with right n show ?thesis by (simp add: subproof.simps [of h m hs] Let_def)
    qed
  qed
qed

lemma cons_roots_subproof:
  assumes "0 < m" and "m \<le> length hs"
  shows "\<exists>lg. cons_roots h m (length hs) (subproof h m hs False) = Some (mth h (take m hs), mth h hs, lg)"
  using assms
proof (induction "length hs" arbitrary: m hs rule: less_induct)
  case less
  show ?case
  proof (cases "m = length hs")
    case True
    with less.prems show ?thesis by (simp add: cons_roots_def subproof.simps cons_climb.simps)
  next
    case False
    let ?n = "length hs" let ?k = "split_point ?n"
    from False less.prems have n: "1 < ?n" "m < ?n" by auto
    then have k: "0 < ?k" "?k < ?n" using split_point_bounds by auto
    show ?thesis
    proof (cases "m \<le> ?k")
      case True
      obtain x xs where xs: "subproof h m (take ?k hs) False = x # xs"
        using subproof_nonempty [of h m "take ?k hs"] by (cases "subproof h m (take ?k hs) False") auto
      moreover have "min ?n ?k = ?k" "min m ?k = m" using True k by auto
      ultimately show ?thesis
        using True k n less.hyps [of "take ?k hs" m] less.prems
        by (auto simp: cons_roots_def subproof.simps [of h m hs] cons_climb.simps [of _ _ m ?n]
            Let_def cons_L_def mth_split [of hs])
    next
      case right: False
      obtain x xs where xs: "subproof h (m - ?k) (drop ?k hs) False = x # xs"
        using subproof_nonempty [of h "m - ?k" "drop ?k hs"]
        by (cases "subproof h (m - ?k) (drop ?k hs) False") auto
      have split_m: "split_point m = ?k"
      proof -
        obtain d where d: "?k = 2 ^ d" "?n \<le> 2 ^ Suc d" using n(1) by (rule split_point_power)
        with right n(2) have "split_point m = 2 ^ d" by (intro split_point_unique) auto
        with d(1) show ?thesis by simp
      qed
      have "1 < m" using right k by linarith
      then have "mth h (take m hs) = h (1 # mth h (take ?k hs) @ mth h (take (m - ?k) (drop ?k hs)))"
        using mth_split [of "take m hs" h] right k n(2) by (simp add: split_m drop_take min_absorb2)
      moreover have "m - ?k \<le> ?n - ?k" using n(2) by (simp add: diff_le_mono)
      ultimately show ?thesis
        using xs right k n less.hyps [of "drop ?k hs" "m - ?k"]
        by (auto simp: cons_roots_def subproof.simps [of h m hs] cons_climb.simps [of _ _ m ?n]
            Let_def cons_R_def mth_split [of hs])
    qed
  qed
qed

subsection \<open>Soundness under collision-freedom\<close>

text \<open>The strings hashed when the root of a list of leaf hashes is computed.\<close>

function mth_hashed :: "(bytes \<Rightarrow> bytes) \<Rightarrow> bytes list \<Rightarrow> bytes set" where
  "mth_hashed h hs =
     (if length hs \<le> 1 then {}
      else let k = split_point (length hs)
           in insert (1 # mth h (take k hs) @ mth h (drop k hs))
                (mth_hashed h (take k hs) \<union> mth_hashed h (drop k hs)))"
  by pat_completeness auto
termination
  by (relation "measure (\<lambda>(h, hs). length hs)") auto

declare mth_hashed.simps [simp del]

lemma mth_hashed_split:
  "1 < length hs \<Longrightarrow> mth_hashed h hs =
     insert (1 # mth h (take (split_point (length hs)) hs) @ mth h (drop (split_point (length hs)) hs))
       (mth_hashed h (take (split_point (length hs)) hs) \<union>
        mth_hashed h (drop (split_point (length hs)) hs))"
  by (subst mth_hashed.simps) (simp add: Let_def)

text \<open>What the arguments need of a digest: a fixed length.\<close>

definition digest32 :: "(bytes \<Rightarrow> bytes) \<Rightarrow> bool" where
  "digest32 h \<longleftrightarrow> (\<forall>x. length (h x) = 32)"

lemma length_mth:
  assumes "digest32 h" and "\<forall>x \<in> set hs. length x = 32" and "hs \<noteq> []"
  shows "length (mth h hs) = 32"
proof (cases "length hs \<le> 1")
  case True
  with assms(3) obtain x where "hs = [x]" by (cases hs) auto
  with assms show ?thesis by simp
qed (use assms in \<open>simp add: mth_split [of hs] digest32_def\<close>)

lemma inj_on_eqD: "inj_on h S \<Longrightarrow> h a = h b \<Longrightarrow> a \<in> S \<Longrightarrow> b \<in> S \<Longrightarrow> a = b"
  by (auto dest: inj_onD)

lemma mth_node_eq:
  assumes h: "digest32 h" and S: "inj_on h S" and hs: "1 < length hs" "\<forall>x \<in> set hs. length x = 32"
    and sub: "mth_hashed h hs \<subseteq> S" and node: "1 # u @ v \<in> S" "mth h hs = h (1 # u @ v)"
    and len: "length u = 32 \<or> length v = 32"
  shows "u = mth h (take (split_point (length hs)) hs) \<and> v = mth h (drop (split_point (length hs)) hs)"
proof -
  let ?k = "split_point (length hs)"
  have "0 < ?k \<and> ?k < length hs" using split_point_bounds hs(1) by blast
  then have "take ?k hs \<noteq> []" "drop ?k hs \<noteq> []" by auto
  then have "length (mth h (take ?k hs)) = 32" "length (mth h (drop ?k hs)) = 32"
    using hs(2)
    by (auto intro!: length_mth [OF h] dest: in_set_takeD in_set_dropD)
  moreover have "1 # u @ v = 1 # mth h (take ?k hs) @ mth h (drop ?k hs)"
    using node sub hs(1) mth_hashed_split [of hs h] mth_split [of hs h]
    by - (rule inj_on_eqD [OF S], auto)
  ultimately show ?thesis using len by auto
qed

lemma mth_hashed_halves:
  assumes "1 < length hs" and "mth_hashed h hs \<subseteq> S" and "\<forall>x \<in> set hs. length x = (32 :: nat)"
    and "k = split_point (length hs)"
  shows "mth_hashed h (take k hs) \<subseteq> S" and "mth_hashed h (drop k hs) \<subseteq> S"
    and "\<forall>x \<in> set (take k hs). length x = 32" and "\<forall>x \<in> set (drop k hs). length x = 32"
    and "1 # mth h (take k hs) @ mth h (drop k hs) \<in> S"
    and "mth h hs = h (1 # mth h (take k hs) @ mth h (drop k hs))"
  using assms mth_hashed_split [of hs h] mth_split [of hs h]
  by (auto dest: in_set_takeD in_set_dropD)

lemma mth_inj:
  assumes h: "digest32 h" and S: "inj_on h S" "mth_hashed h hs \<subseteq> S" "mth_hashed h hs' \<subseteq> S"
    and len: "\<forall>x \<in> set hs. length x = 32" "\<forall>x \<in> set hs'. length x = 32"
    and eq: "length hs = length hs'" "mth h hs = mth h hs'"
  shows "hs = hs'"
  using S(2,3) len eq
proof (induction "length hs" arbitrary: hs hs' rule: less_induct)
  case less
  show ?case
  proof (cases "length hs \<le> 1")
    case True
    with less.prems show ?thesis by (cases hs; cases hs') auto
  next
    case False
    let ?k = "split_point (length hs)"
    have n: "1 < length hs" "1 < length hs'" and k: "0 < ?k" "?k < length hs" "?k = split_point (length hs')"
      using split_point_bounds [of "length hs"] False less.prems(5) by auto
    note a = mth_hashed_halves [OF n(1) less.prems(1,3) refl]
    note b = mth_hashed_halves [OF n(2) less.prems(2,4) k(3)]
    have "take ?k hs' \<noteq> []" using k less.prems(5) by auto
    then have "length (mth h (take ?k hs')) = 32" by (rule length_mth [OF h b(3)])
    with mth_node_eq [OF h S(1) n(1) less.prems(3,1) b(5)] less.prems(6) b(6)
    have "mth h (take ?k hs') = mth h (take ?k hs)" "mth h (drop ?k hs') = mth h (drop ?k hs)"
      by auto
    then have "take ?k hs = take ?k hs'" "drop ?k hs = drop ?k hs'"
      using less.hyps [of "take ?k hs" "take ?k hs'"] less.hyps [of "drop ?k hs" "drop ?k hs'"]
        k less.prems(5) a(1-4) b(1-4) by simp_all
    then show ?thesis by (metis append_take_drop_id)
  qed
qed

lemma tree_climb_length:
  assumes h: "digest32 h" and "tree_climb (incl_R h) (incl_L h) n i (r, lg) path = Some (x, lg')"
    and "length r = 32"
  shows "length x = 32"
  using assms(2,3)
  by (subst (asm) tree_climb.simps)
     (use h in \<open>auto simp: climb_ops digest32_def Let_def split: if_splits\<close>)

lemma tree_climb_sound:
  assumes h: "digest32 h" and S: "inj_on h S" and r: "length r = 32"
    and "i < length hs" and "\<forall>x \<in> set hs. length x = 32"
    and "tree_climb (incl_R h) (incl_L h) (length hs) i (r, []) path = Some (mth h hs, lg)"
    and "mth_hashed h hs \<subseteq> S" and "set lg \<subseteq> S"
  shows "r = hs ! i \<and> path = audit_path h hs i"
  using assms(4-)
proof (induction "length hs" arbitrary: hs i path lg rule: less_induct)
  case less
  show ?case
  proof (cases "length hs \<le> 1")
    case True
    then obtain x where "hs = [x]" using less.prems(1) by (cases hs) auto
    with less.prems show ?thesis by (auto simp: tree_climb.simps audit_path.simps split: if_splits)
  next
    case False
    let ?k = "split_point (length hs)"
    have n: "1 < length hs" and k: "0 < ?k" "?k < length hs"
      using split_point_bounds [of "length hs"] False by auto
    note a = mth_hashed_halves [OF n less.prems(4,2) refl]
    note node = mth_node_eq [OF h S n less.prems(2,4)]
    obtain p s where path: "path = p @ [s]"
      using less.prems(3) False by (cases path rule: rev_cases) (auto simp: tree_climb.simps)
    show ?thesis
    proof (cases "i < ?k")
      case True
      with less.prems(3) False path obtain x lg' where
        x: "tree_climb (incl_R h) (incl_L h) ?k i (r, []) p = Some (x, lg')"
          "mth h hs = h (1 # x @ s)" "lg = (1 # x @ s) # lg'"
        by (auto simp: tree_climb.simps [of _ _ "length hs"] incl_L_def Let_def)
      with node [of x s] tree_climb_length [OF h x(1) r] less.prems(5)
      have "x = mth h (take ?k hs)" "s = mth h (drop ?k hs)" "set lg' \<subseteq> S" by auto
      with less.hyps [of "take ?k hs" i p lg'] x(1) True k a path False show ?thesis
        by (simp add: min_absorb2 audit_path.simps [of h hs] Let_def)
    next
      case right: False
      with less.prems(3) False path obtain x lg' where
        x: "tree_climb (incl_R h) (incl_L h) (length hs - ?k) (i - ?k) (r, []) p = Some (x, lg')"
          "mth h hs = h (1 # s @ x)" "lg = (1 # s @ x) # lg'"
        by (auto simp: tree_climb.simps [of _ _ "length hs"] incl_R_def Let_def)
      with node [of s x] tree_climb_length [OF h x(1) r] less.prems(5)
      have "x = mth h (drop ?k hs)" "s = mth h (take ?k hs)" "set lg' \<subseteq> S" by auto
      moreover have "i - ?k < length hs - ?k" using right less.prems(1) by linarith
      ultimately show ?thesis
        using less.hyps [of "drop ?k hs" "i - ?k" p lg'] x(1) right k a path False less.prems(1)
        by (simp add: audit_path.simps [of h hs] Let_def)
    qed
  qed
qed

lemma cons_climb_length:
  assumes h: "digest32 h" and "m < n" and "0 < m"
    and "cons_climb (cons_R h) (cons_L h) m n a path = Some (f, s, lg)"
  shows "length s = 32"
  using assms(2-)
  by (subst (asm) cons_climb.simps)
     (use h in \<open>auto simp: climb_ops digest32_def Let_def split: if_splits\<close>)

lemma cons_climb_length_eq:
  assumes h: "digest32 h" and "0 < m" "m \<le> n" and "length f = 32"
    and "cons_climb (cons_R h) (cons_L h) m n (x, x, []) path = Some (f, s, lg)"
  shows "length s = 32"
proof (cases "m = n")
  case True
  with assms show ?thesis by (auto simp: cons_climb.simps split: if_splits)
next
  case False
  with assms show ?thesis by (intro cons_climb_length [OF h _ _ assms(5)]) auto
qed

lemma cons_climb_sound:
  assumes h: "digest32 h" and S: "inj_on h S"
    and "0 < length hs'" and "length hs' \<le> length hs"
    and "\<forall>x \<in> set hs. length x = 32" and "\<forall>x \<in> set hs'. length x = 32"
    and "cons_climb (cons_R h) (cons_L h) (length hs') (length hs) (x, x, []) path =
           Some (mth h hs', mth h hs, lg)"
    and "mth_hashed h hs \<subseteq> S" and "mth_hashed h hs' \<subseteq> S" and "set lg \<subseteq> S"
  shows "hs' = take (length hs') hs"
  using assms(3-)
proof (induction "length hs" arbitrary: hs hs' path lg rule: less_induct)
  case less
  show ?case
  proof (cases "length hs' = length hs")
    case True
    with less.prems have "mth h hs' = mth h hs" by (auto simp: cons_climb.simps split: if_splits)
    with True less.prems have "hs' = hs" by (intro mth_inj [OF h S]) auto
    then show ?thesis by simp
  next
    case False
    let ?m = "length hs'" let ?n = "length hs" let ?k = "split_point ?n"
    have n: "1 < ?n" "?m < ?n" using False less.prems(1,2) by linarith+
    then have k: "0 < ?k" "?k < ?n" using split_point_bounds by auto
    note a = mth_hashed_halves [OF n(1) less.prems(6,3) refl]
    note node = mth_node_eq [OF h S n(1) less.prems(3,6)]
    obtain p c where path: "path = p @ [c]"
      using less.prems(5) n False by (cases path rule: rev_cases) (auto simp: cons_climb.simps)
    show ?thesis
    proof (cases "?m \<le> ?k")
      case True
      with less.prems(5) n path obtain s lg' where
        s: "cons_climb (cons_R h) (cons_L h) ?m ?k (x, x, []) p = Some (mth h hs', s, lg')"
          "mth h hs = h (1 # s @ c)" "lg = (1 # s @ c) # lg'"
        by (auto simp: cons_climb.simps [of _ _ ?m ?n] Let_def cons_L_def)
      have "length (mth h hs') = 32" using less.prems(1,4) by (intro length_mth [OF h]) auto
      then have "length s = 32" using less.prems(1) True by (intro cons_climb_length_eq [OF h _ _ _ s(1)])
      with node [of s c] s(2,3) less.prems(8) have "s = mth h (take ?k hs)" "set lg' \<subseteq> S" by auto
      then have "hs' = take ?m (take ?k hs)"
        using less.hyps [of "take ?k hs" hs' p lg'] s(1) True k a less.prems(1,4,7)
        by (simp add: min_absorb2)
      with True show ?thesis by (simp add: min_absorb1)
    next
      case right: False
      with less.prems(5) n path obtain f s lg' where
        fs: "cons_climb (cons_R h) (cons_L h) (?m - ?k) (?n - ?k) (x, x, []) p = Some (f, s, lg')"
          "mth h hs' = h (1 # c @ f)" "mth h hs = h (1 # c @ s)"
          "lg = (1 # c @ f) # (1 # c @ s) # lg'"
        by (auto simp: cons_climb.simps [of _ _ ?m ?n] Let_def cons_R_def)
      have mk: "0 < ?m - ?k" "?m - ?k < ?n - ?k" "1 < ?m" using right n k by linarith+
      obtain d where d: "?k = 2 ^ d" "?n \<le> 2 ^ Suc d" using n(1) by (rule split_point_power)
      have km: "?k = split_point ?m" unfolding d(1) using right n d by (intro split_point_unique [symmetric]) auto
      note b = mth_hashed_halves [OF mk(3) less.prems(7,4) km]
      have c: "c = mth h (take ?k hs)" "s = mth h (drop ?k hs)"
        using node [of c s] cons_climb_length [OF h mk(2,1) fs(1)] fs(3,4) less.prems(8) by auto
      moreover have "length (mth h (take ?k hs)) = 32" using a(3) k by (intro length_mth [OF h]) auto
      ultimately have c': "c = mth h (take ?k hs')" "f = mth h (drop ?k hs')"
        using mth_node_eq [OF h S mk(3) less.prems(4,7), of c f] fs(2,4) less.prems(8) km by auto
      have "take ?k hs = take ?k hs'"
        using c(1) c'(1) a(1,3) b(1,3) right n k by (intro mth_inj [OF h S]) auto
      moreover have "drop ?k hs' = take (?m - ?k) (drop ?k hs)"
        using less.hyps [of "drop ?k hs" "drop ?k hs'" p lg'] fs(1,4) c(2) c'(2) mk k a b
          less.prems(8) by simp
      moreover have "take ?m hs = take ?k hs @ take (?m - ?k) (drop ?k hs)"
        using right by (metis le_add_diff_inverse nle_le take_add)
      ultimately show ?thesis by (metis append_take_drop_id)
    qed
  qed
qed

subsection \<open>Properties of the tree\<close>

lemma mt_root_nonempty: "mt_leaf_hashes t \<noteq> [] \<Longrightarrow> mt_root t = mth (mt_h t) (mt_leaf_hashes t)"
  by (simp add: mt_root_def)

lemma mt_inclusion_proof_ok:
  assumes "mt_inclusion_proof t i = Inr p"
  shows "mt_verify_inclusion t p"
proof -
  let ?hs = "mt_leaf_hashes t"
  from assms have i: "0 \<le> i" "i < int (length ?hs)"
    and p: "p = \<lparr>ip_leaf_index = i, ip_tree_size = int (length ?hs), ip_leaf_hash = ?hs ! nat i,
              ip_audit_path = audit_path (mt_h t) ?hs (nat i)\<rparr>"
    by (auto simp: mt_inclusion_proof_def Let_def split: if_splits)
  then have lt: "nat i < length ?hs" by linarith
  obtain lg where "proof_root (mt_h t) (?hs ! nat i) (nat i) (length ?hs) (audit_path (mt_h t) ?hs (nat i)) =
      Some (mth (mt_h t) ?hs, lg)"
    using proof_root_audit_path [OF lt] unfolding proof_root_def by blast
  with compute_root_eq [OF lt] i lt p show ?thesis
    by (auto simp: mt_verify_inclusion_def mt_root_def)
qed

text \<open>
  Inclusion, completeness: Every proof the tree hands out verifies against its root:
  the iterative verifier, which sees only the leaf hash, the index, the size and the path,
  reconstructs the root of any tree at any index, balanced or not.
\<close>

theorem inclusion_proof_verifies:
  assumes "mt_inclusion_proof t i = Inr p"
  shows "mt_verify_inclusion t p"
  by (rule mt_inclusion_proof_ok [OF assms])

definition demo_tree :: merkle_tree where
  "demo_tree = \<lparr>mt_algorithm = us ''sha256'', mt_h = (\<lambda>_. replicate 32 0),
     mt_leaf_hashes = [replicate 32 1, replicate 32 2]\<rparr>"

lemma split_point_2: "split_point 2 = 1"
  using split_point_unique [of 0 2] by simp

lemma demo_tree_values:
  "audit_path (mt_h demo_tree) (mt_leaf_hashes demo_tree) 0 = [replicate 32 2]"
  "mth (mt_h demo_tree) (mt_leaf_hashes demo_tree) = replicate 32 0"
  "mth_hashed (mt_h demo_tree) (mt_leaf_hashes demo_tree) = {1 # replicate 32 1 @ replicate 32 2}"
  by (simp_all add: demo_tree_def audit_path.simps mth.simps mth_hashed.simps split_point_2
      numeral_2_eq_2 [symmetric] Let_def)

theorem inclusion_proof_verifies_witness:
  "mt_verify_inclusion demo_tree
     \<lparr>ip_leaf_index = 0, ip_tree_size = 2, ip_leaf_hash = replicate 32 1,
      ip_audit_path = [replicate 32 2]\<rparr>"
proof (rule inclusion_proof_verifies [where i = 0])
  show "mt_inclusion_proof demo_tree 0 =
      Inr \<lparr>ip_leaf_index = 0, ip_tree_size = 2, ip_leaf_hash = replicate 32 1,
           ip_audit_path = [replicate 32 2]\<rparr>"
    using demo_tree_values(1) by (simp add: mt_inclusion_proof_def demo_tree_def)
qed

lemma inclusion_proof_binds:
  assumes "digest32 h" and "\<forall>x \<in> set hs. length x = 32" and "hs \<noteq> []" and "length r = 32"
    and "compute_root_from_proof r i (int (length hs)) path h = mth h hs"
    and "inj_on h (mth_hashed h hs \<union> proof_hashed h r (nat i) (length hs) path)"
  shows "0 \<le> i \<and> i < int (length hs) \<and> r = hs ! nat i \<and> path = audit_path h hs (nat i)"
proof -
  have "mth h hs \<noteq> []" using length_mth [OF assms(1,2,3)] by auto
  with assms(5) have i: "0 \<le> i" "i < int (length hs)"
    by (auto simp: compute_root_from_proof_def split: if_splits)
  then have lt: "nat i < length hs" "int (nat i) = i" by linarith+
  from compute_root_eq [OF lt(1), of r path h] assms(5) lt(2) \<open>mth h hs \<noteq> []\<close>
  obtain lg where lg: "proof_root h r (nat i) (length hs) path = Some (mth h hs, lg)"
    by (auto split: option.splits)
  then have sub: "set lg \<subseteq> mth_hashed h hs \<union> proof_hashed h r (nat i) (length hs) path"
    by (auto simp: proof_hashed_def)
  from tree_climb_sound [OF assms(1,6,4) lt(1) assms(2) lg [unfolded proof_root_def] _ sub] i
  show ?thesis by simp
qed

text \<open>
  Inclusion, soundness: If the verifier's reconstruction equals the root of a tree of
  the claimed size, then the claimed leaf really is the leaf at the claimed index and the
  path is the honest one, provided the digest has 32 bytes and does not collide on the
  strings hashed by the tree and by the verifier. No assumption is made on the elements of
  the path, which the prover chooses.
\<close>

theorem inclusion_sound:
  assumes "digest32 h" and "\<forall>x \<in> set hs. length x = 32" and "hs \<noteq> []" and "length r = 32"
    and "compute_root_from_proof r i (int (length hs)) path h = mth h hs"
    and "inj_on h (mth_hashed h hs \<union> proof_hashed h r (nat i) (length hs) path)"
  shows "0 \<le> i \<and> i < int (length hs) \<and> r = hs ! nat i \<and> path = audit_path h hs (nat i)"
  by (rule inclusion_proof_binds [OF assms])

theorem inclusion_sound_witness:
  "replicate 32 1 = mt_leaf_hashes demo_tree ! nat 0 \<and>
   [replicate 32 2] = audit_path (mt_h demo_tree) (mt_leaf_hashes demo_tree) (nat 0)"
proof -
  let ?h = "mt_h demo_tree" let ?hs = "mt_leaf_hashes demo_tree"
  have d: "digest32 ?h" "\<forall>x \<in> set ?hs. length x = 32" "?hs \<noteq> []" "length ?hs = 2"
    by (auto simp: digest32_def demo_tree_def)
  have c: "compute_root_from_proof (replicate 32 1) 0 (int (length ?hs)) [replicate 32 2] ?h = mth ?h ?hs"
    unfolding demo_tree_values by (simp add: compute_root_from_proof_def demo_tree_def shift_even.simps)
  have "proof_hashed ?h (replicate 32 1) (nat 0) (length ?hs) [replicate 32 2] =
      {1 # replicate 32 1 @ replicate 32 2}"
    by (simp add: d(4) proof_hashed_def proof_root_def tree_climb.simps split_point_2 incl_L_def)
  then have i: "inj_on ?h (mth_hashed ?h ?hs \<union>
      proof_hashed ?h (replicate 32 1) (nat 0) (length ?hs) [replicate 32 2])"
    unfolding demo_tree_values by simp
  show ?thesis
    using inclusion_sound [OF d(1,2,3) _ c i] by simp
qed

lemma mt_consistency_proof_ok:
  assumes "mt_consistency_proof t m = Inr pf"
  shows "verify_consistency (mt_h t) (mth (mt_h t) (take (nat m) (mt_leaf_hashes t)))
           (mth (mt_h t) (mt_leaf_hashes t)) (nat m) (length (mt_leaf_hashes t)) pf"
proof (cases "m = int (length (mt_leaf_hashes t))")
  case True
  with assms show ?thesis
    by (auto simp: mt_consistency_proof_def verify_consistency_def Let_def split: if_splits)
next
  case False
  let ?h = "mt_h t" let ?hs = "mt_leaf_hashes t" let ?m = "nat m"
  from assms False have m: "0 < ?m" "?m < length ?hs" and pf: "pf = subproof ?h ?m ?hs True"
    by (auto simp: mt_consistency_proof_def Let_def split: if_splits)
  have "cons_terms (mth ?h (take ?m ?hs)) ?m pf = subproof ?h ?m ?hs False"
    using subproof_True [of ?m ?hs ?h] m pow2_test [OF m(1)] by (simp add: pf cons_terms_def)
  then show ?thesis
    using cons_roots_subproof [of ?m ?hs ?h] m subproof_nonempty [of ?h ?m ?hs]
    by (simp add: verify_consistency_eq)
qed

text \<open>
  The proof the tree gives for an earlier size verifies
  against the root it had at that size and its current root.
\<close>

theorem consistency_proof_verifies:
  assumes "mt_consistency_proof t m = Inr pf"
  shows "verify_consistency (mt_h t) (mth (mt_h t) (take (nat m) (mt_leaf_hashes t)))
           (mth (mt_h t) (mt_leaf_hashes t)) (nat m) (length (mt_leaf_hashes t)) pf"
  by (rule mt_consistency_proof_ok [OF assms])

theorem consistency_proof_verifies_witness:
  "verify_consistency (mt_h demo_tree) (mth (mt_h demo_tree) (take (nat 1) (mt_leaf_hashes demo_tree)))
     (mth (mt_h demo_tree) (mt_leaf_hashes demo_tree)) (nat 1) (length (mt_leaf_hashes demo_tree))
     [replicate 32 2]"
  by (rule consistency_proof_verifies)
     (simp add: mt_consistency_proof_def demo_tree_def subproof.simps split_point_2
        numeral_2_eq_2 [symmetric])

lemma consistency_proof_binds:
  assumes "digest32 h" and "\<forall>x \<in> set hs. length x = 32" and "\<forall>x \<in> set hs'. length x = 32"
    and "hs' \<noteq> []"
    and "verify_consistency h (mth h hs') (mth h hs) (length hs') (length hs) pf"
    and "inj_on h (mth_hashed h hs \<union> mth_hashed h hs' \<union>
           cons_hashed h (mth h hs') (length hs') (length hs) pf)"
  shows "hs' = take (length hs') hs"
proof -
  let ?S = "mth_hashed h hs \<union> mth_hashed h hs' \<union>
    cons_hashed h (mth h hs') (length hs') (length hs) pf"
  have le: "length hs' \<le> length hs" using assms(5) by (auto simp: verify_consistency_def split: if_splits)
  show ?thesis
  proof (cases "length hs' = length hs")
    case True
    with assms(5) have "mth h hs' = mth h hs" by (simp add: verify_consistency_def)
    with True have "hs' = hs" using assms by (intro mth_inj [OF assms(1,6)]) auto
    then show ?thesis by simp
  next
    case False
    with le assms(4) have lt: "0 < length hs'" "length hs' < length hs" by auto
    let ?t = "cons_terms (mth h hs') (length hs') pf"
    from assms(5) obtain lg where
      lg: "cons_roots h (length hs') (length hs) ?t = Some (mth h hs', mth h hs, lg)"
      by (auto simp: verify_consistency_eq [OF lt])
    then have sub: "set lg \<subseteq> ?S" by (auto simp: cons_hashed_def)
    show ?thesis
      by (rule cons_climb_sound [OF assms(1,6) lt(1) le assms(2,3) lg [unfolded cons_roots_def] _ _ sub])
         auto
  qed
qed

text \<open>
  Consistency, soundness: If the verifier accepts, the earlier tree's leaves are a
  prefix of the later tree's leaves: the log was only appended to. The digest is assumed to
  have 32 bytes and not to collide on the strings the two trees and the verifier hash;
  nothing is assumed of the proof.
\<close>

theorem consistency_sound:
  assumes "digest32 h" and "\<forall>x \<in> set hs. length x = 32" and "\<forall>x \<in> set hs'. length x = 32"
    and "hs' \<noteq> []"
    and "verify_consistency h (mth h hs') (mth h hs) (length hs') (length hs) pf"
    and "inj_on h (mth_hashed h hs \<union> mth_hashed h hs' \<union>
           cons_hashed h (mth h hs') (length hs') (length hs) pf)"
  shows "hs' = take (length hs') hs"
  by (rule consistency_proof_binds [OF assms])

theorem consistency_sound_witness:
  "[replicate 32 1] = take (length [replicate 32 (1 :: byte)]) (mt_leaf_hashes demo_tree)"
proof -
  let ?h = "mt_h demo_tree" let ?hs = "mt_leaf_hashes demo_tree"
  let ?o = "[replicate 32 (1 :: byte)]"
  have d: "digest32 ?h" "\<forall>x \<in> set ?hs. length x = 32" "\<forall>x \<in> set ?o. length x = 32" "?o \<noteq> []"
    and n: "length ?hs = 2" "length ?o = 1" and v: "mth ?h ?o = replicate 32 1"
    by (auto simp: digest32_def demo_tree_def)
  have k: "cons_roots ?h 1 2 (cons_terms (replicate 32 1) 1 [replicate 32 2]) =
      Some (replicate 32 1, replicate 32 0, [1 # replicate 32 1 @ replicate 32 2])"
    by (simp add: cons_roots_def cons_terms_def cons_climb.simps split_point_2 cons_L_def demo_tree_def)
  have c: "verify_consistency ?h (mth ?h ?o) (mth ?h ?hs) (length ?o) (length ?hs) [replicate 32 2]"
    unfolding n v demo_tree_values using k by (subst verify_consistency_eq) (simp_all add: cons_terms_def)
  have "cons_hashed ?h (mth ?h ?o) (length ?o) (length ?hs) [replicate 32 2] =
      {1 # replicate 32 1 @ replicate 32 2}"
    unfolding cons_hashed_def n v k by simp
  moreover have "mth_hashed ?h ?o = {}" by (simp add: mth_hashed.simps)
  ultimately have i: "inj_on ?h (mth_hashed ?h ?hs \<union> mth_hashed ?h ?o \<union>
      cons_hashed ?h (mth ?h ?o) (length ?o) (length ?hs) [replicate 32 2])"
    unfolding demo_tree_values by simp
  show ?thesis by (rule consistency_sound [OF d c i])
qed

end
