(* ===== verification/Canonicalize.thy ===== *)
theory Canonicalize
  imports Prelude Complex_Main "HOL-Library.List_Lexorder" "HOL-Library.Multiset"
begin

section \<open>Canonical JSON (\<open>_canonicalize.py\<close>)\<close>

text \<open>
  The single canonicalization entry point, whose bytes every signature and every digest of
  the system covers. A Python value is a \<open>json\<close> tree: dictionaries are insertion-ordered
  association lists with string keys. Two tables of the interpreter are parameters of the
  model: \<open>nfc\<close> (\<open>unicodedata.is_normalized("NFC", s)\<close>) and \<open>frepr\<close>
  (\<open>repr\<close> of a finite \<open>float\<close>). The main result is that two values without floats
  have the same canonical bytes only if they agree up to the order of their members and
  members that are \<open>None\<close>.
\<close>

subsection \<open>Values\<close>

text \<open>A finite float is the rational it denotes; both zeros print alike, so they are one.\<close>

datatype pyfloat = NaN | Infinity bool | Finite rat

datatype json =
    JNull
  | JBool bool
  | JInt int
  | JFloat pyfloat
  | JStr pystr
  | JList "json list" \<comment> \<open>\<open>list\<close> or \<open>tuple\<close>\<close>
  | JDict "(pystr \<times> json) list"
  | JOther pystr \<comment> \<open>any other type, by name\<close>

definition max_depth :: int where
  "max_depth = 64"

subsection \<open>Encodings of the standard library\<close>

text \<open>\<open>str(n)\<close> for an \<open>int\<close>; more than 4300 digits raise \<open>ValueError\<close>.\<close>

fun nat_str :: "nat \<Rightarrow> pystr" where
  "nat_str n = (if n < 10 then [48 + n] else nat_str (n div 10) @ [48 + n mod 10])"

declare nat_str.simps [simp del]

definition int_str :: "int \<Rightarrow> pystr" where
  "int_str n = (if n < 0 then 45 # nat_str (nat (- n)) else nat_str (nat n))"

definition py_int_str :: "int \<Rightarrow> pystr result" where
  "py_int_str n =
     (if length (nat_str (nat \<bar>n\<bar>)) > 4300
      then Inl (ValueError (us ''Exceeds the limit for integer string conversion''))
      else Inr (int_str n))"

definition surrogate :: "nat \<Rightarrow> bool" where
  "surrogate c \<longleftrightarrow> 0xD800 \<le> c \<and> c < 0xE000"

abbreviation encode_error :: exn where
  "encode_error \<equiv> ValueError (us ''surrogates not allowed'')"

definition utf8_cp :: "nat \<Rightarrow> nat list" where
  "utf8_cp c =
     (if c < 0x80 then [c]
      else if c < 0x800 then [0xC0 + c div 64, 0x80 + c mod 64]
      else if c < 0x10000 then [0xE0 + c div 4096, 0x80 + c div 64 mod 64, 0x80 + c mod 64]
      else [0xF0 + c div 262144, 0x80 + c div 4096 mod 64, 0x80 + c div 64 mod 64, 0x80 + c mod 64])"

text \<open>\<open>s.encode("utf-8")\<close>.\<close>

definition utf8_encode :: "pystr \<Rightarrow> bytes result" where
  "utf8_encode s =
     (if list_ex surrogate s then Inl encode_error
      else Inr (map of_nat (concat (map utf8_cp s))))"

definition utf16_cp :: "nat \<Rightarrow> nat list" where
  "utf16_cp c =
     (if c < 0x10000 then [c div 256, c mod 256]
      else let v = c - 0x10000; hi = 0xD800 + v div 1024; lo = 0xDC00 + v mod 1024
           in [hi div 256, hi mod 256, lo div 256, lo mod 256])"

text \<open>\<open>_utf16_sort_key\<close>: \<open>s.encode("utf-16-be")\<close> of a string without surrogates.\<close>

definition utf16_sort_key :: "pystr \<Rightarrow> bytes" where
  "utf16_sort_key s = map of_nat (concat (map utf16_cp s))"

subsection \<open>Serialization\<close>

definition hex4 :: "nat \<Rightarrow> pystr" where
  "hex4 c = map hex_digit [c div 4096 mod 16, c div 256 mod 16, c div 16 mod 16, c mod 16]"

definition esc :: "nat \<Rightarrow> pystr" where
  "esc c =
     (if c = 34 then us [CHR 0x5C, CHR 0x22]
      else if c = 92 then us [CHR 0x5C, CHR 0x5C]
      else if c = 8 then us [CHR 0x5C, CHR ''b'']
      else if c = 12 then us [CHR 0x5C, CHR ''f'']
      else if c = 10 then us [CHR 0x5C, CHR ''n'']
      else if c = 13 then us [CHR 0x5C, CHR ''r'']
      else if c = 9 then us [CHR 0x5C, CHR ''t'']
      else if c \<le> 0x1F \<or> (0x7F \<le> c \<and> c \<le> 0x9F) \<or> c = 0x2028 \<or> c = 0x2029
      then us [CHR 0x5C, CHR ''u''] @ hex4 c
      else [c])"

definition quoted :: "pystr \<Rightarrow> pystr" where
  "quoted s = 34 # concat (map esc s) @ [34]"

definition quote :: "(pystr \<Rightarrow> bool) \<Rightarrow> pystr \<Rightarrow> pystr result" where
  "quote nfc s =
     (if \<not> nfc s then Inl (ValueError (us ''string is not NFC-normalized''))
      else Inr (quoted s))"

fun contains :: "pystr \<Rightarrow> pystr \<Rightarrow> bool" where
  "contains p [] = (p = [])"
| "contains p (c # s) = (take (length p) (c # s) = p \<or> contains p s)"

definition replace_e :: "pystr \<Rightarrow> pystr" where
  "replace_e s = concat (map (\<lambda>c. if c = 101 then us ''e+'' else [c]) s)"

definition float_to_str :: "(rat \<Rightarrow> pystr) \<Rightarrow> pyfloat \<Rightarrow> pystr result" where
  "float_to_str frepr f =
     (case f of
        Finite q \<Rightarrow>
          (if q = of_int \<lfloor>q\<rfloor> \<and> \<bar>q\<bar> < 1000000000000000 then py_int_str \<lfloor>q\<rfloor>
           else let s = frepr q in
             Inr (if contains (us ''e'') s \<and> \<not> contains (us ''e+'') s \<and> \<not> contains (us ''e-'') s
                  then replace_e s else s))
      | _ \<Rightarrow> Inl (ValueError (us ''RFC 8785 does not permit NaN or Infinity'')))"

fun join :: "pystr \<Rightarrow> pystr list \<Rightarrow> pystr" where
  "join sep [] = []"
| "join sep [x] = x"
| "join sep (x # y # xs) = x @ sep @ join sep (y # xs)"

lemma size_member_list [termination_simp]: "v \<in> set xs \<Longrightarrow> size v < Suc (size_list size xs)"
  by (simp add: less_Suc_eq_le size_list_estimation')

lemma size_member_dict [termination_simp]:
  assumes "(k, v) \<in> set (filter P (sort_key f kvs))"
  shows "size v < Suc (size_list (size_prod (\<lambda>x. 0) size) kvs)"
proof -
  have "size_prod (\<lambda>x. 0) size (k, v) \<le> size_list (size_prod (\<lambda>x. 0) size) kvs"
    using assms by (intro size_list_estimation' [of "(k, v)"]) auto
  then show ?thesis by simp
qed

function (sequential) serialize ::
  "(pystr \<Rightarrow> bool) \<Rightarrow> (rat \<Rightarrow> pystr) \<Rightarrow> bool \<Rightarrow> int \<Rightarrow> json \<Rightarrow> pystr result" where
  "serialize nfc frepr exclude_none depth obj =
     (if depth > max_depth then Inl (ValueError (us ''JSON nesting depth exceeds maximum''))
      else case obj of
        JNull \<Rightarrow> Inr (us ''null'')
      | JBool b \<Rightarrow> Inr (if b then us ''true'' else us ''false'')
      | JInt n \<Rightarrow> py_int_str n
      | JFloat f \<Rightarrow> float_to_str frepr f
      | JStr s \<Rightarrow> quote nfc s
      | JList vs \<Rightarrow>
          rbind (rmap (\<lambda>v. serialize nfc frepr exclude_none (depth + 1) v) vs)
            (\<lambda>parts. Inr (us ''['' @ join (us '','') parts @ us '']''))
      | JDict d \<Rightarrow>
          if list_ex (\<lambda>(k, v). list_ex surrogate k) d then Inl encode_error
          else rbind
            (rmap (\<lambda>(k, v). rbind (quote nfc k) (\<lambda>q.
                     rbind (serialize nfc frepr exclude_none (depth + 1) v) (\<lambda>s.
                     Inr (q @ us '':'' @ s))))
               (filter (\<lambda>(k, v). \<not> (exclude_none \<and> v = JNull))
                 (sort_key (\<lambda>(k, v). utf16_sort_key k) d)))
            (\<lambda>parts. Inr (us ''{'' @ join (us '','') parts @ us ''}''))
      | JOther t \<Rightarrow> Inl (TypeError (us ''not JSON-serializable under RFC 8785'')))"
  by pat_completeness auto
termination
  by (relation "measure (\<lambda>(_, _, _, _, obj). size obj)")
     (auto simp: size_member_list intro: size_member_dict)

declare serialize.simps [simp del]

lemma serialize_simps:
  assumes "depth \<le> max_depth"
  shows "serialize nfc frepr ex depth JNull = Inr (us ''null'')"
    "serialize nfc frepr ex depth (JBool b) = Inr (if b then us ''true'' else us ''false'')"
    "serialize nfc frepr ex depth (JInt n) = py_int_str n"
    "serialize nfc frepr ex depth (JStr s) = quote nfc s"
    "serialize nfc frepr ex depth (JList vs) =
       rbind (rmap (serialize nfc frepr ex (depth + 1)) vs)
         (\<lambda>parts. Inr (us ''['' @ join (us '','') parts @ us '']''))"
    "serialize nfc frepr ex depth (JDict d) =
       (if list_ex (\<lambda>(k, v). list_ex surrogate k) d then Inl encode_error
        else rbind
          (rmap (\<lambda>(k, v). rbind (quote nfc k) (\<lambda>q.
                   rbind (serialize nfc frepr ex (depth + 1) v) (\<lambda>s.
                   Inr (q @ us '':'' @ s))))
             (filter (\<lambda>(k, v). \<not> (ex \<and> v = JNull))
               (sort_key (\<lambda>(k, v). utf16_sort_key k) d)))
          (\<lambda>parts. Inr (us ''{'' @ join (us '','') parts @ us ''}'')))"
  using assms by (subst serialize.simps; simp)+

definition canonicalize ::
  "(pystr \<Rightarrow> bool) \<Rightarrow> (rat \<Rightarrow> pystr) \<Rightarrow> bool \<Rightarrow> json \<Rightarrow> bytes result" where
  "canonicalize nfc frepr exclude_none obj =
     rbind (serialize nfc frepr exclude_none 0 obj) utf8_encode"

definition canonical_hash ::
  "(pystr \<Rightarrow> bool) \<Rightarrow> (rat \<Rightarrow> pystr) \<Rightarrow> hash_fns \<Rightarrow> pystr \<Rightarrow> bool \<Rightarrow> json \<Rightarrow> pystr result" where
  "canonical_hash nfc frepr hf algorithm exclude_none obj =
     rbind (canonicalize nfc frepr exclude_none obj) (\<lambda>data.
       if algorithm = us ''sha256''
       then Inr (algorithm @ us '':'' @ hex_of_bytes (hf_sha256 hf data))
       else if algorithm = us ''shake256''
       then Inr (algorithm @ us '':'' @ hex_of_bytes (hf_shake256 hf data))
       else Inl (ValueError (us ''Unsupported algorithm'')))"

subsection \<open>What the canonical text depends on\<close>

text \<open>
  \<open>canon ex a\<close> is the value with its members in key order and, when \<open>ex\<close>, without
  the members that are \<open>None\<close>; \<open>render\<close> prints a value in the order it has, \<open>render_with\<close> does so
  for any way to print strings.
\<close>

function canon :: "bool \<Rightarrow> json \<Rightarrow> json" where
  "canon ex obj =
     (case obj of
        JList vs \<Rightarrow> JList (map (canon ex) vs)
      | JDict d \<Rightarrow>
          JDict (map (\<lambda>(k, v). (k, canon ex v))
            (filter (\<lambda>(k, v). \<not> (ex \<and> v = JNull)) (sort_key (\<lambda>(k, v). utf16_sort_key k) d)))
      | _ \<Rightarrow> obj)"
  by pat_completeness auto
termination
  by (relation "measure (\<lambda>(_, obj). size obj)")
     (auto simp: size_member_list intro: size_member_dict)

declare canon.simps [simp del]

lemma canon_simps [simp]:
  "canon ex JNull = JNull" "canon ex (JBool b) = JBool b" "canon ex (JInt n) = JInt n"
  "canon ex (JStr s) = JStr s" "canon ex (JList vs) = JList (map (canon ex) vs)"
  by (simp_all add: canon.simps)

lemma size_member_dict' [termination_simp]:
  "(k, v) \<in> set kvs \<Longrightarrow> size v < Suc (size_list (size_prod (\<lambda>x. 0) size) kvs)"
  using size_member_dict [of k v "\<lambda>x. True" "\<lambda>x. 0 :: nat" kvs] by simp

fun render_with :: "(pystr \<Rightarrow> pystr) \<Rightarrow> json \<Rightarrow> pystr" where
  "render_with q JNull = us ''null''"
| "render_with q (JBool b) = (if b then us ''true'' else us ''false'')"
| "render_with q (JInt n) = int_str n"
| "render_with q (JFloat f) = []"
| "render_with q (JStr s) = q s"
| "render_with q (JList vs) = us ''['' @ join (us '','') (map (render_with q) vs) @ us '']''"
| "render_with q (JDict d) =
     us ''{'' @ join (us '','') (map (\<lambda>(k, v). q k @ us '':'' @ render_with q v) d) @ us ''}''"
| "render_with q (JOther t) = []"

abbreviation render :: "json \<Rightarrow> pystr" where
  "render \<equiv> render_with quoted"

text \<open>Values without floats whose strings are Python strings (code points below 0x110000).\<close>

definition code_points :: "pystr \<Rightarrow> bool" where
  "code_points s \<longleftrightarrow> (\<forall>c \<in> set s. c < 0x110000)"

fun exact :: "json \<Rightarrow> bool" where
  "exact (JFloat f) = False"
| "exact (JOther t) = False"
| "exact (JStr s) = code_points s"
| "exact (JList vs) = (\<forall>v \<in> set vs. exact v)"
| "exact (JDict d) = (\<forall>(k, v) \<in> set d. code_points k \<and> exact v)"
| "exact _ = True"

fun texts :: "(pystr \<Rightarrow> bool) \<Rightarrow> json \<Rightarrow> bool" where
  "texts ok (JStr s) = ok s"
| "texts ok (JList vs) = (\<forall>v \<in> set vs. texts ok v)"
| "texts ok (JDict d) = (\<forall>(k, v) \<in> set d. ok k \<and> texts ok v)"
| "texts ok _ = True"

lemma texts_True [simp]: "texts (\<lambda>_. True) v"
  by (induction "\<lambda>_ :: pystr. True" v rule: texts.induct) auto

lemma list_all2_map_eq: "list_all2 (\<lambda>x y. P x \<longrightarrow> y = f x) xs ys \<Longrightarrow> \<forall>x \<in> set xs. P x \<Longrightarrow> ys = map f xs"
  by (induction xs ys rule: list_all2_induct) auto

lemma serialize_render:
  "exact obj \<Longrightarrow> serialize nfc frepr ex depth obj = Inr s \<Longrightarrow> s = render (canon ex obj)"
proof (induction nfc frepr ex depth obj arbitrary: s rule: serialize.induct)
  case (1 nfc frepr ex depth obj)
  from 1(4) have d: "\<not> depth > max_depth" by (auto simp: serialize.simps)
  show ?case
  proof (cases obj)
    case (JList vs)
    from 1(4) d obtain ps where ps: "rmap (serialize nfc frepr ex (depth + 1)) vs = Inr ps"
      and s: "s = us ''['' @ join (us '','') ps @ us '']''"
      by (auto simp: serialize.simps [of nfc frepr ex depth "JList vs"] JList rbind_Inr_iff)
    have "ps = map (\<lambda>v. render (canon ex v)) vs"
    proof (rule list_all2_map_eq [where P = exact])
      show "list_all2 (\<lambda>x y. exact x \<longrightarrow> y = render (canon ex x)) vs ps"
        using ps 1(1) [OF d JList] unfolding rmap_Inr_iff by (auto elim!: list.rel_mono_strong)
    qed (use 1(3) JList in auto)
    with s show ?thesis by (simp add: JList comp_def)
  next
    case (JDict kvs)
    let ?ms = "filter (\<lambda>(k, v). \<not> (ex \<and> v = JNull)) (sort_key (\<lambda>(k, v). utf16_sort_key k) kvs)"
    let ?f = "\<lambda>(k, v). rbind (quote nfc k) (\<lambda>q.
                rbind (serialize nfc frepr ex (depth + 1) v) (\<lambda>s. Inr (q @ us '':'' @ s)))"
    from 1(4) d obtain ps where e: "\<not> list_ex (\<lambda>(k, v). list_ex surrogate k) kvs"
      and ps: "rmap ?f ?ms = Inr ps" and s: "s = us ''{'' @ join (us '','') ps @ us ''}''"
      by (auto simp: serialize.simps [of nfc frepr ex depth "JDict kvs"] JDict rbind_Inr_iff split: if_splits)
    have "ps = map (\<lambda>(k, v). quoted k @ us '':'' @ render (canon ex v)) ?ms"
    proof (rule list_all2_map_eq [where P = "\<lambda>(k, v). exact v"])
      show "list_all2 (\<lambda>x y. (case x of (k, v) \<Rightarrow> exact v) \<longrightarrow>
              y = (case x of (k, v) \<Rightarrow> quoted k @ us '':'' @ render (canon ex v))) ?ms ps"
        using ps unfolding rmap_Inr_iff
        by (rule list.rel_mono_strong)
           (use 1(2) [OF d JDict e] in \<open>fastforce simp: rbind_Inr_iff quote_def split: if_splits\<close>)
    qed (use 1(3) JDict in auto)
    with s show ?thesis by (simp add: JDict canon.simps [of ex "JDict kvs"] comp_def case_prod_unfold)
  qed (use 1(3,4) d in \<open>auto simp: serialize.simps quote_def py_int_str_def split: if_splits\<close>)
qed

subsection \<open>The canonical text can be read back\<close>

text \<open>
  Every printed form is self-delimiting once what follows does not start with a digit, so a
  text splits in at most one way into a value and a rest.
\<close>

definition delim :: "pystr \<Rightarrow> bool" where
  "delim r \<longleftrightarrow> (case r of [] \<Rightarrow> True | c # _ \<Rightarrow> c < 48 \<or> 57 < c)"

lemma delim_simps [simp]: "delim []" "delim (c # r) \<longleftrightarrow> c < 48 \<or> 57 < c"
  by (simp_all add: delim_def)

lemma nat_str_digits: "c \<in> set (nat_str n) \<Longrightarrow> 48 \<le> c \<and> c \<le> 57"
proof (induction n rule: nat_str.induct)
  case (1 n)
  from 1(2) consider "n < 10" "c = 48 + n" | "\<not> n < 10" "c \<in> set (nat_str (n div 10))"
    | "c = 48 + n mod 10"
    by (subst (asm) nat_str.simps) (auto split: if_splits)
  then show ?case
  proof cases
    case 2 then show ?thesis by (rule 1(1))
  next
    case 3
    moreover have "n mod 10 < 10" by simp
    ultimately show ?thesis by linarith
  qed simp
qed

definition digits_nat :: "pystr \<Rightarrow> nat" where
  "digits_nat = foldl (\<lambda>n c. 10 * n + (c - 48)) 0"

lemma digits_nat_str: "digits_nat (nat_str n) = n"
proof (induction n rule: nat_str.induct)
  case (1 n)
  then show ?case by (subst nat_str.simps) (auto simp: digits_nat_def)
qed

lemma nat_str_nonempty: "nat_str n \<noteq> []"
  by (subst nat_str.simps) simp

lemma nat_str_prefix:
  assumes "nat_str m @ r = nat_str n @ r'" "delim r" "delim r'"
  shows "m = n \<and> r = r'"
proof -
  have tw: "takeWhile (\<lambda>c. 48 \<le> c \<and> c \<le> 57) (nat_str k @ x) = nat_str k" if "delim x" for k x
    using that nat_str_digits by (subst takeWhile_append2) (auto simp: delim_def split: list.splits)
  from tw [OF assms(2), of m] tw [OF assms(3), of n] assms(1) have "nat_str m = nat_str n" by simp
  with assms(1) show ?thesis by (metis digits_nat_str same_append_eq)
qed

lemma int_str_prefix:
  assumes "int_str m @ r = int_str n @ r'" "delim r" "delim r'"
  shows "m = n \<and> r = r'"
proof -
  have no: "nat_str a @ x \<noteq> 45 # y" for a x y
    using nat_str_digits [of "hd (nat_str a)" a] nat_str_nonempty [of a]
    by (cases "nat_str a") auto
  show ?thesis
  proof (cases "m < 0"; cases "n < 0")
    assume "m < 0" "n < 0"
    then show ?thesis
      using assms nat_str_prefix [of "nat (- m)" r "nat (- n)" r'] by (simp add: int_str_def eq_nat_nat_iff)
  next
    assume "\<not> m < 0" "\<not> n < 0"
    then show ?thesis
      using assms nat_str_prefix [of "nat m" r "nat n" r'] by (simp add: int_str_def eq_nat_nat_iff)
  qed (use assms(1) no in \<open>simp_all add: int_str_def no [symmetric]\<close>)
qed

text \<open>A reader of one escaped character.\<close>

definition hex4_val :: "pystr \<Rightarrow> nat" where
  "hex4_val = foldl (\<lambda>n c. 16 * n + (case hex_val c of Some d \<Rightarrow> d | None \<Rightarrow> 0)) 0"

lemma hex4_val_hex4: "c < 65536 \<Longrightarrow> hex4_val (hex4 c) = c"
proof -
  assume "c < 65536"
  then have 1: "c div 4096 mod 16 = c div 4096" by simp
  have 2: "16 * (c div 4096) + c div 256 mod 16 = c div 256"
    using mult_div_mod_eq [of 16 "c div 256"] by (simp add: div_mult2_eq [symmetric])
  have 3: "16 * (c div 256) + c div 16 mod 16 = c div 16"
    using mult_div_mod_eq [of 16 "c div 16"] by (simp add: div_mult2_eq [symmetric])
  have 4: "16 * (c div 16) + c mod 16 = c" by simp
  have "hex4_val (hex4 c) = 16 * (16 * (16 * (16 * 0 + c div 4096 mod 16) + c div 256 mod 16) +
      c div 16 mod 16) + c mod 16"
    unfolding hex4_val_def hex4_def list.map foldl.simps by (simp only: hex_val_digit option.case mod_less_divisor zero_less_numeral)
  also have "\<dots> = c" unfolding 1 mult_0_right add_0_left 2 3 4 by (rule refl)
  finally show "hex4_val (hex4 c) = c" .
qed

definition unesc :: "pystr \<Rightarrow> nat \<times> pystr" where
  "unesc s =
     (if hd s \<noteq> 92 then (hd s, tl s)
      else let d = s ! 1; t = drop 2 s in
        if d = 98 then (8, t) else if d = 102 then (12, t) else if d = 110 then (10, t)
        else if d = 114 then (13, t) else if d = 116 then (9, t)
        else if d = 117 then (hex4_val (take 4 t), drop 4 t) else (d, t))"

lemma unesc_esc: "unesc (esc c @ x) = (c, x)"
proof -
  have "length (hex4 c) = 4" by (simp add: hex4_def)
  then have "unesc (92 # 117 # hex4 c @ x) = (hex4_val (hex4 c), x)"
    by (simp add: unesc_def Let_def)
  then have h: "unesc (92 # 117 # hex4 c @ x) = (c, x)" if "c < 65536"
    using that by (simp add: hex4_val_hex4)
  show ?thesis
  proof (cases "c \<in> {34, 92, 8, 12, 10, 13, 9}")
    case True
    then show ?thesis by (elim insertE) (simp_all add: esc_def us_def unesc_def)
  next
    case False
    then have "esc c = (if c \<le> 0x1F \<or> (0x7F \<le> c \<and> c \<le> 0x9F) \<or> c = 0x2028 \<or> c = 0x2029
        then 92 # 117 # hex4 c else [c])"
      by (simp add: esc_def us_def)
    with h False show ?thesis by (auto simp: unesc_def)
  qed
qed

lemma esc_prefix: "esc a @ x = esc b @ y \<Longrightarrow> a = b \<and> x = y"
  by (metis Pair_inject unesc_esc)

lemma esc_not_quote: "esc a @ x \<noteq> 34 # y"
  by (simp add: esc_def us_def)

lemma quoted_prefix:
  "concat (map esc s) @ 34 # r = concat (map esc s') @ 34 # r' \<Longrightarrow> s = s' \<and> r = r'"
proof (induction s arbitrary: s')
  case Nil
  then show ?case by (cases s') (simp_all add: esc_not_quote [symmetric])
next
  case (Cons c s)
  then show ?case
  proof (cases s')
    case Nil
    with Cons.prems show ?thesis by (simp add: esc_not_quote)
  next
    case (Cons c' t)
    with Cons.prems have "esc c @ concat (map esc s) @ 34 # r = esc c' @ concat (map esc t) @ 34 # r'" by simp
    from esc_prefix [OF this] Cons.IH [of t] Cons show ?thesis by simp
  qed
qed

text \<open>A printer whose texts are self-delimiting, on given arguments.\<close>

definition reads_back :: "('a \<Rightarrow> pystr) \<Rightarrow> 'a \<Rightarrow> 'a \<Rightarrow> bool" where
  "reads_back f x y \<longleftrightarrow>
     (\<forall>r r'. delim r \<longrightarrow> delim r' \<longrightarrow> f x @ r = f y @ r' \<longrightarrow> x = y \<and> r = r')"

lemma reads_backD:
  "reads_back f x y \<Longrightarrow> f x @ r = f y @ r' \<Longrightarrow> delim r \<Longrightarrow> delim r' \<Longrightarrow> x = y \<and> r = r'"
  by (simp add: reads_back_def)

definition comma_tail :: "('a \<Rightarrow> pystr) \<Rightarrow> 'a list \<Rightarrow> pystr" where
  "comma_tail f xs = concat (map (\<lambda>x. 44 # f x) xs)"

lemma join_comma: "join (us '','') (map f (x # xs)) = f x @ comma_tail f xs"
  by (induction xs arbitrary: x) (simp_all add: comma_tail_def us_def)

lemma delim_comma_tail: "c < 48 \<or> 57 < c \<Longrightarrow> delim (comma_tail f xs @ c # r)"
  by (cases xs) (auto simp: comma_tail_def)

lemma comma_tail_prefix:
  assumes "\<And>x y. x \<in> set xs \<Longrightarrow> y \<in> set ys \<Longrightarrow> reads_back f x y" and "57 < c"
    and "comma_tail f xs @ c # r = comma_tail f ys @ c # r'"
  shows "xs = ys \<and> r = r'"
  using assms(1,3)
proof (induction xs arbitrary: ys)
  case Nil
  with assms(2) show ?case by (cases ys) (auto simp: comma_tail_def)
next
  case (Cons x xs)
  show ?case
  proof (cases ys)
    case Nil
    with Cons.prems(2) assms(2) show ?thesis by (auto simp: comma_tail_def)
  next
    case ys: (Cons y zs)
    have "x = y \<and> comma_tail f xs @ c # r = comma_tail f zs @ c # r'"
    proof (rule reads_backD [of f])
      show "reads_back f x y" using Cons.prems(1) ys by simp
      show "f x @ comma_tail f xs @ c # r = f y @ comma_tail f zs @ c # r'"
        using Cons.prems(2) ys by (simp add: comma_tail_def)
    qed (use assms(2) delim_comma_tail in auto)
    with Cons.IH [of zs] Cons.prems(1) ys show ?thesis by simp
  qed
qed

lemma join_not_close:
  assumes "\<And>x z z'. x \<in> set xs \<Longrightarrow> f x @ z \<noteq> c # z'"
    and "join (us '','') (map f xs) @ c # r = c # r'"
  shows "xs = []"
proof (cases xs)
  case (Cons x ys)
  then have "f x @ comma_tail f ys @ c # r = c # r'" using assms(2) join_comma [of f x ys] by simp
  with assms(1) [of x] Cons show ?thesis by simp
qed simp

lemma join_prefix:
  assumes "\<And>x y. x \<in> set xs \<Longrightarrow> y \<in> set ys \<Longrightarrow> reads_back f x y" and "57 < c"
    and "\<And>x z z'. x \<in> set xs \<union> set ys \<Longrightarrow> f x @ z \<noteq> c # z'"
    and "join (us '','') (map f xs) @ c # r = join (us '','') (map f ys) @ c # r'"
  shows "xs = ys \<and> r = r'"
proof (cases xs)
  case Nil
  with assms(3,4) have "ys = []" by (intro join_not_close [of ys f c r' r]) auto
  with Nil assms(4) show ?thesis by simp
next
  case xs: (Cons x xs')
  show ?thesis
  proof (cases ys)
    case Nil
    with assms(3,4) have "xs = []" by (intro join_not_close [of xs f c r r']) auto
    with Nil assms(4) show ?thesis by simp
  next
    case ys: (Cons y ys')
    have "x = y \<and> comma_tail f xs' @ c # r = comma_tail f ys' @ c # r'"
    proof (rule reads_backD [of f])
      show "reads_back f x y" using assms(1) xs ys by simp
      show "f x @ comma_tail f xs' @ c # r = f y @ comma_tail f ys' @ c # r'"
        using assms(4) xs ys join_comma [of f x xs'] join_comma [of f y ys'] by simp
    qed (use assms(2) delim_comma_tail in auto)
    moreover have "xs' = ys' \<and> r = r'" if "comma_tail f xs' @ c # r = comma_tail f ys' @ c # r'"
      using comma_tail_prefix [OF _ assms(2) that] assms(1) xs ys by simp
    ultimately show ?thesis using xs ys by simp
  qed
qed

text \<open>The first character tells the kind of a value.\<close>

definition kind :: "json \<Rightarrow> nat" where
  "kind v = (case v of JNull \<Rightarrow> 110 | JBool b \<Rightarrow> if b then 116 else 102 | JInt _ \<Rightarrow> 48
     | JStr _ \<Rightarrow> 34 | JList _ \<Rightarrow> 91 | JDict _ \<Rightarrow> 123 | _ \<Rightarrow> 0)"

definition kind_of_char :: "nat \<Rightarrow> nat" where
  "kind_of_char c = (if c = 45 \<or> 48 \<le> c \<and> c \<le> 57 then 48 else c)"

lemma hd_int_str: "int_str n \<noteq> [] \<and> (hd (int_str n) = 45 \<or> 48 \<le> hd (int_str n) \<and> hd (int_str n) \<le> 57)"
  using nat_str_digits [OF hd_in_set [OF nat_str_nonempty]] by (simp add: int_str_def nat_str_nonempty)

lemma kind_iffs:
  assumes "exact b"
  shows "kind JNull = kind b \<longleftrightarrow> b = JNull" "kind (JBool x) = kind b \<longleftrightarrow> b = JBool x"
    "kind (JInt n) = kind b \<longleftrightarrow> (\<exists>m. b = JInt m)" "kind (JStr s) = kind b \<longleftrightarrow> (\<exists>t. b = JStr t)"
    "kind (JList vs) = kind b \<longleftrightarrow> (\<exists>ws. b = JList ws)"
    "kind (JDict d) = kind b \<longleftrightarrow> (\<exists>e. b = JDict e)"
  using assms by (cases b; simp add: kind_def)+

text \<open>What a printer of strings promises: a quotation mark first, and a text that can be told from
  what follows it.\<close>

locale text_coder =
  fixes q :: "pystr \<Rightarrow> pystr" and ok :: "pystr \<Rightarrow> bool"
  assumes q_opens: "\<exists>w. q s = 34 # w"
    and q_prefix: "ok s \<Longrightarrow> ok t \<Longrightarrow> q s @ r = q t @ r' \<Longrightarrow> s = t \<and> r = r'"
begin

lemma q_head: "q s \<noteq> []" "hd (q s) = 34" "57 < c \<Longrightarrow> q s @ z \<noteq> c # z'"
  using q_opens [of s] by auto

lemma render_kind: "exact v \<Longrightarrow> render_with q v \<noteq> [] \<and> kind_of_char (hd (render_with q v)) = kind v"
  using hd_int_str by (cases v) (auto simp: kind_def kind_of_char_def us_def q_head)

lemma render_kind_eq:
  assumes "exact a" "exact b" "render_with q a @ r = render_with q b @ r'"
  shows "kind a = kind b"
  using render_kind [OF assms(1)] render_kind [OF assms(2)] assms(3) by (metis hd_append2)

lemma render_not_close: "exact v \<Longrightarrow> c \<in> {93, 125} \<Longrightarrow> render_with q v @ z \<noteq> c # z'"
  using render_kind [of v] by (cases v; cases "render_with q v") (auto simp: kind_def kind_of_char_def split: if_splits)

lemma reads_backI:
  assumes "exact a" "exact b"
    and "\<And>r r'. delim r \<Longrightarrow> delim r' \<Longrightarrow> kind a = kind b \<Longrightarrow> render_with q a @ r = render_with q b @ r' \<Longrightarrow> a = b \<and> r = r'"
  shows "reads_back (render_with q) a b"
  using assms(3) render_kind_eq [OF assms(1,2)] unfolding reads_back_def by blast

lemma reads_back_JList:
  assumes "exact (JList vs)" "exact (JList ws)"
    and "\<And>v w. v \<in> set vs \<Longrightarrow> w \<in> set ws \<Longrightarrow> reads_back (render_with q) v w"
    and eq: "render_with q (JList vs) @ r = render_with q (JList ws) @ r'"
  shows "vs = ws \<and> r = r'"
proof (rule join_prefix [of vs ws "render_with q" 93])
  show "join (us '','') (map (render_with q) vs) @ 93 # r = join (us '','') (map (render_with q) ws) @ 93 # r'"
    using eq by (simp add: us_def)
  show "render_with q x @ z \<noteq> 93 # z'" if "x \<in> set vs \<union> set ws" for x z z'
    using that assms(1,2) by (intro render_not_close) auto
qed (use assms(3) in auto)

lemma reads_back_member:
  assumes "reads_back (render_with q) v w" and "ok k" and "ok l"
  shows "reads_back (\<lambda>(k, v). q k @ us '':'' @ render_with q v) (k, v) (l, w)"
  unfolding reads_back_def
proof (intro allI impI)
  fix y y' assume d: "delim y" "delim y'"
    and e: "(case (k, v) of (k, v) \<Rightarrow> q k @ us '':'' @ render_with q v) @ y =
      (case (l, w) of (k, v) \<Rightarrow> q k @ us '':'' @ render_with q v) @ y'"
  have "q k @ (58 # render_with q v @ y) = q l @ (58 # render_with q w @ y')" using e by (simp add: us_def)
  from q_prefix [OF assms(2,3) this] have "k = l" "render_with q v @ y = render_with q w @ y'" by simp_all
  then show "(k, v) = (l, w) \<and> y = y'" using reads_backD [OF assms(1) _ d] by auto
qed

lemma reads_back_JDict:
  assumes "\<And>k v l w. (k, v) \<in> set d \<Longrightarrow> (l, w) \<in> set e \<Longrightarrow> reads_back (render_with q) v w \<and> ok k \<and> ok l"
    and eq: "render_with q (JDict d) @ r = render_with q (JDict e) @ r'"
  shows "d = e \<and> r = r'"
proof (rule join_prefix [of d e "\<lambda>(k, v). q k @ us '':'' @ render_with q v" 125])
  let ?m = "\<lambda>(k, v). q k @ us '':'' @ render_with q v"
  show "join (us '','') (map ?m d) @ 125 # r = join (us '','') (map ?m e) @ 125 # r'"
    using eq by (simp add: us_def)
  show "?m x @ z \<noteq> 125 # z'" for x z z' by (cases x) (simp add: q_head)
  show "reads_back ?m x y" if "x \<in> set d" "y \<in> set e" for x y
    using that assms(1) reads_back_member by (metis surj_pair)
qed simp

lemma render_reads_back: "exact a \<Longrightarrow> exact b \<Longrightarrow> texts ok a \<Longrightarrow> texts ok b \<Longrightarrow> reads_back (render_with q) a b"
proof (induction a arbitrary: b)
  case (JList vs)
  show ?case
  proof (rule reads_backI [OF JList.prems(1,2)])
    fix r r' assume k: "kind (JList vs) = kind b" and eq: "render_with q (JList vs) @ r = render_with q b @ r'"
    from k JList.prems(2) obtain ws where b: "b = JList ws" by (auto simp: kind_iffs)
    with JList eq reads_back_JList [of vs ws r r'] show "JList vs = b \<and> r = r'" by auto
  qed
next
  case (JDict d)
  show ?case
  proof (rule reads_backI [OF JDict.prems(1,2)])
    fix r r' assume k: "kind (JDict d) = kind b" and eq: "render_with q (JDict d) @ r = render_with q b @ r'"
    from k JDict.prems(2) obtain e where b: "b = JDict e" by (auto simp: kind_iffs)
    have "reads_back (render_with q) v w \<and> ok k \<and> ok l" if "(k, v) \<in> set d" "(l, w) \<in> set e" for k v l w
    proof -
      have "exact v \<and> texts ok v \<and> ok k" "exact w \<and> texts ok w \<and> ok l" using that JDict.prems b by fastforce+
      then show ?thesis using that(1) JDict.IH [of "(k, v)" v w] by simp
    qed
    with b eq reads_back_JDict [of d e r r'] show "JDict d = b \<and> r = r'" by auto
  qed
next
  case (JInt n)
  show ?case
    by (rule reads_backI [OF JInt.prems(1,2)])
       (use JInt.prems(2) in \<open>auto simp: kind_iffs dest: int_str_prefix\<close>)
next
  case (JStr s)
  show ?case
  proof (rule reads_backI [OF JStr.prems(1,2)])
    fix r r' assume k: "kind (JStr s) = kind b" and eq: "render_with q (JStr s) @ r = render_with q b @ r'"
    from k JStr.prems(2) obtain t where b: "b = JStr t" by (auto simp: kind_iffs)
    with q_prefix [of s t r r'] JStr.prems eq show "JStr s = b \<and> r = r'" by simp
  qed
next
  case JNull
  show ?case by (rule reads_backI [OF JNull.prems(1,2)]) (use JNull.prems(2) in \<open>auto simp: kind_iffs\<close>)
next
  case (JBool x)
  show ?case by (rule reads_backI [OF JBool.prems(1,2)]) (use JBool.prems(2) in \<open>auto simp: kind_iffs\<close>)
qed simp_all

lemma render_inj: "exact a \<Longrightarrow> exact b \<Longrightarrow> texts ok a \<Longrightarrow> texts ok b \<Longrightarrow> render_with q a = render_with q b \<Longrightarrow> a = b"
  using reads_backD [OF render_reads_back, of a b "[]" "[]"] by simp

end

interpretation canonical: text_coder quoted "\<lambda>_. True"
proof
  show "s = t \<and> r = r'" if "quoted s @ r = quoted t @ r'" for s t r r'
    using that by (intro quoted_prefix) (simp add: quoted_def)
qed (simp add: quoted_def)

lemma exact_canon: "exact a \<Longrightarrow> exact (canon ex a)"
proof (induction ex a rule: canon.induct)
  case (1 ex a)
  show ?case
  proof (cases a)
    case (JList vs)
    with 1 show ?thesis by auto
  next
    case (JDict d)
    with 1(2) [OF JDict] 1(3) show ?thesis by (fastforce simp: canon.simps [of ex "JDict d"])
  qed (use 1 in auto)
qed

subsection \<open>UTF-8 and UTF-16 can be read back\<close>

lemma concat_code_inj:
  assumes "\<And>c x. c \<in> S \<Longrightarrow> dec (f c @ x) = (c, x)" and "\<And>c. c \<in> S \<Longrightarrow> f c \<noteq> []"
    and "set s \<subseteq> S" "set s' \<subseteq> S" "concat (map f s) = concat (map f s')"
  shows "s = s'"
  using assms(3-)
proof (induction s arbitrary: s')
  case Nil
  with assms(2) show ?case by (cases s') auto
next
  case (Cons c s)
  have c: "c \<in> S" "set s \<subseteq> S" using Cons.prems(1) by auto
  have "s' \<noteq> []" using Cons.prems(3) assms(2) [OF c(1)] by force
  then obtain c' t where s': "s' = c' # t" by (cases s') blast+
  have c': "c' \<in> S" "set t \<subseteq> S" using Cons.prems(2) s' by auto
  have "f c @ concat (map f s) = f c' @ concat (map f t)" using Cons.prems(3) s' by simp
  then have "dec (f c @ concat (map f s)) = dec (f c' @ concat (map f t))" by (rule arg_cong)
  then have eq: "c = c'" "concat (map f s) = concat (map f t)"
    unfolding assms(1) [OF c(1)] assms(1) [OF c'(1)] by (simp_all only: prod.inject)
  from Cons.IH [OF c(2) c'(2) eq(2)] eq(1) s' show ?case by (simp only:)
qed

definition utf8_dec :: "nat list \<Rightarrow> nat \<times> nat list" where
  "utf8_dec s =
     (let h = s ! 0; t = \<lambda>i. s ! i - 0x80 in
      if h < 0x80 then (h, drop 1 s)
      else if h < 0xE0 then (64 * (h - 0xC0) + t 1, drop 2 s)
      else if h < 0xF0 then (64 * (64 * (h - 0xE0) + t 1) + t 2, drop 3 s)
      else (64 * (64 * (64 * (h - 0xF0) + t 1) + t 2) + t 3, drop 4 s))"

lemma div_steps:
  "64 * (c div 262144) + c div 4096 mod 64 = c div 4096"
  "64 * (c div 4096) + c div 64 mod 64 = c div 64"
  "64 * (c div 64) + c mod 64 = (c :: nat)"
  using mult_div_mod_eq [of 64 "c div 4096"] mult_div_mod_eq [of 64 "c div 64"]
  by (simp_all add: div_mult2_eq [symmetric])

lemma utf8_dec_cp:
  assumes "c < 0x110000"
  shows "utf8_dec (utf8_cp c @ x) = (c, x)"
proof -
  consider "c < 0x80" | "0x80 \<le> c" "c < 0x800" | "0x800 \<le> c" "c < 0x10000" | "0x10000 \<le> c" by linarith
  then show ?thesis
  proof cases
    case 2
    then have "c div 64 < 32" by auto
    with 2 show ?thesis by (simp add: utf8_cp_def utf8_dec_def)
  next
    case 3
    then have "c div 4096 < 16" by auto
    with 3 show ?thesis by (simp add: utf8_cp_def utf8_dec_def div_steps)
  next
    case 4
    then show ?thesis by (simp add: utf8_cp_def utf8_dec_def div_steps)
  qed (simp add: utf8_cp_def utf8_dec_def)
qed

lemma cp_nonempty [simp]: "utf8_cp c \<noteq> []" "utf16_cp c \<noteq> []"
  by (simp_all add: utf8_cp_def utf16_cp_def Let_def)

lemma utf8_cp_bytes: "c < 0x110000 \<Longrightarrow> b \<in> set (utf8_cp c) \<Longrightarrow> b < 256"
  by (auto simp: utf8_cp_def split: if_splits)

lemma of_nat_byte_inj: "inj_on (of_nat :: nat \<Rightarrow> byte) {..<256}"
proof (rule inj_onI)
  fix x y :: nat assume "x \<in> {..<256}" "y \<in> {..<256}" and eq: "(of_nat x :: byte) = of_nat y"
  then have "x < 2 ^ LENGTH(8)" "y < 2 ^ LENGTH(8)" by simp_all
  from of_nat_inverse [OF eq this(1)] of_nat_inverse [OF refl this(2)] show "x = y" by (rule trans [OF sym])
qed

lemma byte_map_inj:
  assumes "\<And>b. b \<in> set xs \<Longrightarrow> b < 256" "\<And>b. b \<in> set ys \<Longrightarrow> b < 256"
    and "map (of_nat :: nat \<Rightarrow> byte) xs = map of_nat ys"
  shows "xs = ys"
  using assms by (intro inj_on_map_eq_map [THEN iffD1, OF _ assms(3)] inj_on_subset [OF of_nat_byte_inj]) auto

lemma code_points_append [simp]: "code_points (s @ t) \<longleftrightarrow> code_points s \<and> code_points t"
  by (auto simp: code_points_def)

lemma code_points_Cons [simp]: "code_points (c # t) \<longleftrightarrow> c < 0x110000 \<and> code_points t" "code_points []"
  by (auto simp: code_points_def)

lemma code_points_us [simp]: "code_points (us s)"
proof -
  have "(of_char c :: nat) < 0x110000" for c by (rule less_trans [OF nat_of_char_less_256]) simp
  then show ?thesis by (auto simp: code_points_def us_def)
qed

lemma code_points_hex4: "code_points (hex4 c)"
proof -
  have "hex_digit d < 0x110000" if "d < 16" for d
    using that by (simp add: hex_digit_def)
  then show ?thesis by (simp add: hex4_def)
qed

lemma code_points_esc: "c < 0x110000 \<Longrightarrow> code_points (esc c)"
  by (simp add: esc_def code_points_hex4)

lemma code_points_quoted [simp]: "code_points s \<Longrightarrow> code_points (quoted s)"
  by (induction s) (auto simp: quoted_def code_points_esc)

lemma code_points_join [simp]:
  "(\<And>x. x \<in> set xs \<Longrightarrow> code_points x) \<Longrightarrow> code_points sep \<Longrightarrow> code_points (join sep xs)"
  by (induction sep xs rule: join.induct) auto

lemma code_points_int_str [simp]: "code_points (int_str n)"
  using nat_str_digits by (fastforce simp: code_points_def int_str_def split: if_splits)

lemma code_points_render: "exact a \<Longrightarrow> code_points (render a)"
proof (induction a)
  case (JDict d)
  then show ?case by (fastforce intro!: code_points_join)
qed (auto intro!: code_points_join)

lemma utf8_encode_inj:
  assumes "utf8_encode s = Inr b" "utf8_encode t = Inr b" "code_points s" "code_points t"
  shows "s = t"
proof (rule concat_code_inj [where f = utf8_cp and dec = utf8_dec and S = "{..<0x110000}"])
  show "concat (map utf8_cp s) = concat (map utf8_cp t)"
    using assms utf8_cp_bytes
    by (intro byte_map_inj) (auto simp: utf8_encode_def code_points_def split: if_splits)
qed (use assms(3,4) in \<open>auto simp: utf8_dec_cp code_points_def\<close>)

definition utf16_dec :: "nat list \<Rightarrow> nat \<times> nat list" where
  "utf16_dec s =
     (let u = 256 * s ! 0 + s ! 1; w = 256 * s ! 2 + s ! 3 in
      if surrogate u then (0x10000 + 1024 * (u - 0xD800) + (w - 0xDC00), drop 4 s)
      else (u, drop 2 s))"

lemma utf16_dec_cp:
  assumes "c < 0x110000" "\<not> surrogate c"
  shows "utf16_dec (utf16_cp c @ x) = (c, x)"
proof (cases "c < 0x10000")
  case True
  then show ?thesis using assms(2) by (simp add: utf16_cp_def utf16_dec_def)
next
  case False
  define v where "v = c - 0x10000"
  have v: "v div 1024 < 1024" "c = 0x10000 + v" using assms(1) False by (auto simp: v_def)
  then have "surrogate (0xD800 + v div 1024)" by (simp add: surrogate_def)
  moreover have "1024 * (v div 1024) + v mod 1024 = v" by simp
  moreover have "utf16_cp c = [(0xD800 + v div 1024) div 256, (0xD800 + v div 1024) mod 256,
      (0xDC00 + v mod 1024) div 256, (0xDC00 + v mod 1024) mod 256]"
    using False by (simp add: utf16_cp_def v_def Let_def)
  ultimately show ?thesis using v(2) by (simp add: utf16_dec_def)
qed

lemma utf16_cp_bytes: "c < 0x110000 \<Longrightarrow> b \<in> set (utf16_cp c) \<Longrightarrow> b < 256"
  by (auto simp: utf16_cp_def Let_def split: if_splits)

lemma utf16_sort_key_inj:
  assumes "utf16_sort_key s = utf16_sort_key t" "code_points s" "code_points t"
    and "\<not> list_ex surrogate s" "\<not> list_ex surrogate t"
  shows "s = t"
proof (rule concat_code_inj [where f = utf16_cp and dec = utf16_dec and S = "{c. c < 0x110000 \<and> \<not> surrogate c}"])
  show "concat (map utf16_cp s) = concat (map utf16_cp t)"
    using assms utf16_cp_bytes by (intro byte_map_inj) (auto simp: utf16_sort_key_def code_points_def)
qed (use assms(2-) in \<open>auto simp: utf16_dec_cp code_points_def list_ex_iff\<close>)

subsection \<open>Properties of the canonical form\<close>

lemma canonicalize_inj:
  assumes "exact a" and "exact b"
    and "canonicalize nfc frepr ex a = Inr data" and "canonicalize nfc frepr ex b = Inr data"
  shows "canon ex a = canon ex b"
proof -
  obtain s t where s: "serialize nfc frepr ex 0 a = Inr s" "utf8_encode s = Inr data"
    and t: "serialize nfc frepr ex 0 b = Inr t" "utf8_encode t = Inr data"
    using assms(3,4) by (auto simp: canonicalize_def rbind_Inr_iff)
  have r: "s = render (canon ex a)" "t = render (canon ex b)"
    using serialize_render [OF assms(1) s(1)] serialize_render [OF assms(2) t(1)] by simp_all
  have "s = t"
    using utf8_encode_inj [OF s(2) t(2)] code_points_render [OF exact_canon] assms(1,2) r by simp
  with r show ?thesis using canonical.render_inj [OF exact_canon exact_canon] assms(1,2) by simp
qed

text \<open>
  C32 (canonical form). Two float-free values with the same canonical bytes are the same value
  up to the order of their members and, when \<open>exclude_none\<close> is set, members that are
  \<open>None\<close>: no two distinct values share a signing pre-image. Nothing is assumed of the
  normalization table.
\<close>

theorem canonicalize_injective:
  assumes "exact a" and "exact b"
    and "canonicalize nfc frepr ex a = Inr data" and "canonicalize nfc frepr ex b = Inr data"
  shows "canon ex a = canon ex b"
  by (rule canonicalize_inj [OF assms])

theorem canonicalize_injective_witness:
  "canon True (JDict [(us ''b'', JInt (-7)), (us ''a'', JStr (us ''x''))]) =
   canon True (JDict [(us ''a'', JStr (us ''x'')), (us ''c'', JNull), (us ''b'', JInt (-7))])"
proof (rule canonicalize_injective [where nfc = "\<lambda>_. True" and frepr = "\<lambda>_. []"
      and data = "[123, 34, 97, 34, 58, 34, 120, 34, 44, 34, 98, 34, 58, 45, 55, 125]"])
  note [simp] = canonicalize_def serialize_simps max_depth_def us_def surrogate_def quote_def
    quoted_def esc_def py_int_str_def int_str_def nat_str.simps utf16_sort_key_def utf16_cp_def
    utf8_encode_def utf8_cp_def
  show "canonicalize (\<lambda>_. True) (\<lambda>_. []) True (JDict [(us ''b'', JInt (-7)), (us ''a'', JStr (us ''x''))]) =
      Inr [123, 34, 97, 34, 58, 34, 120, 34, 44, 34, 98, 34, 58, 45, 55, 125]"
    by simp
  show "canonicalize (\<lambda>_. True) (\<lambda>_. []) True
      (JDict [(us ''a'', JStr (us ''x'')), (us ''c'', JNull), (us ''b'', JInt (-7))]) =
      Inr [123, 34, 97, 34, 58, 34, 120, 34, 44, 34, 98, 34, 58, 45, 55, 125]"
    by simp
qed simp_all

subsection \<open>When canonicalization succeeds\<close>

text \<open>
  \<open>clean nfc n obj\<close>: no float, no foreign type, normalized strings without surrogates,
  integers Python prints, and at most \<open>n\<close> levels of nesting.
\<close>

definition clean_str :: "(pystr \<Rightarrow> bool) \<Rightarrow> pystr \<Rightarrow> bool" where
  "clean_str nfc s \<longleftrightarrow> nfc s \<and> \<not> list_ex surrogate s"

fun clean :: "(pystr \<Rightarrow> bool) \<Rightarrow> nat \<Rightarrow> json \<Rightarrow> bool" where
  "clean nfc n (JFloat f) = False"
| "clean nfc n (JOther t) = False"
| "clean nfc n (JInt k) = (length (nat_str (nat \<bar>k\<bar>)) \<le> 4300)"
| "clean nfc n (JStr s) = clean_str nfc s"
| "clean nfc n (JList vs) = (\<forall>v \<in> set vs. 0 < n \<and> clean nfc (n - 1) v)"
| "clean nfc n (JDict d) = (\<forall>(k, v) \<in> set d. clean_str nfc k \<and> 0 < n \<and> clean nfc (n - 1) v)"
| "clean nfc n _ = True"

abbreviation no_surrogates :: "pystr \<Rightarrow> bool" where
  "no_surrogates s \<equiv> \<not> list_ex surrogate s"

lemma no_surrogates_us [simp]: "no_surrogates (us s)"
proof -
  have "\<not> surrogate (of_char c)" for c
    using less_le_trans [OF nat_of_char_less_256, of "0xD800" c] by (auto simp: surrogate_def)
  then show ?thesis by (auto simp: us_def list_ex_iff)
qed

lemma no_surrogates_int_str: "no_surrogates (int_str n)"
proof -
  have "\<not> surrogate c" if "c \<in> set (nat_str m)" for c m
    using nat_str_digits [OF that] by (simp add: surrogate_def)
  then show ?thesis by (auto simp: int_str_def list_ex_iff surrogate_def)
qed

lemma no_surrogates_hex4: "no_surrogates (hex4 c)"
proof -
  have "hex_digit d < 200" if "d < 16" for d using that by (simp add: hex_digit_def)
  then have "\<not> surrogate (hex_digit d)" if "d < 16" for d using that by (force simp: surrogate_def)
  then show ?thesis by (simp add: hex4_def)
qed

lemma ascii_text: "\<forall>c \<in> set s. c < 128 \<Longrightarrow> no_surrogates s" "\<forall>c \<in> set s. c < 128 \<Longrightarrow> code_points s"
  by (fastforce simp: list_ex_iff surrogate_def code_points_def)+

lemma ascii_hex: "c \<in> set (hex_of_bytes bs) \<Longrightarrow> c < 128"
proof -
  have "hex_digit d < 128" if "d < 16" for d using that by (auto simp: hex_digit_def)
  then show "c \<in> set (hex_of_bytes bs) \<Longrightarrow> c < 128"
    by (induction bs) (auto simp: hex_of_bytes_def hex_byte_def)
qed

lemma text_hex [simp]: "no_surrogates (hex_of_bytes bs)" "code_points (hex_of_bytes bs)"
  using ascii_text ascii_hex by blast+

lemma no_surrogates_quoted: "no_surrogates s \<Longrightarrow> no_surrogates (quoted s)"
proof -
  have "no_surrogates (esc c)" if "\<not> surrogate c" for c
    using that no_surrogates_hex4 by (simp add: esc_def)
  then show "no_surrogates s \<Longrightarrow> no_surrogates (quoted s)"
    by (induction s) (auto simp: quoted_def surrogate_def)
qed

lemma no_surrogates_join:
  "\<forall>x \<in> set xs. no_surrogates x \<Longrightarrow> no_surrogates sep \<Longrightarrow> no_surrogates (join sep xs)"
  by (induction sep xs rule: join.induct) auto

lemma serialize_total:
  "clean nfc n obj \<Longrightarrow> depth + int n \<le> max_depth \<Longrightarrow>
   \<exists>s. serialize nfc frepr ex depth obj = Inr s \<and> no_surrogates s"
proof (induction obj arbitrary: n depth)
  case (JList vs)
  have "\<exists>ys. rmap (serialize nfc frepr ex (depth + 1)) vs = Inr ys \<and> (\<forall>y \<in> set ys. no_surrogates y)"
  proof (rule rmap_total)
    fix v assume v: "v \<in> set vs"
    with JList.prems have "clean nfc (n - 1) v" "depth + 1 + int (n - 1) \<le> max_depth"
      by (auto simp: of_nat_diff)
    from JList.IH [OF v this]
    show "\<exists>y. serialize nfc frepr ex (depth + 1) v = Inr y \<and> no_surrogates y" .
  qed
  then show ?case using JList.prems by (auto simp: serialize_simps no_surrogates_join)
next
  case (JDict d)
  let ?f = "\<lambda>(k, v). rbind (quote nfc k) (\<lambda>q.
              rbind (serialize nfc frepr ex (depth + 1) v) (\<lambda>s. Inr (q @ us '':'' @ s)))"
  let ?ms = "filter (\<lambda>(k, v). \<not> (ex \<and> v = JNull)) (sort_key (\<lambda>(k, v). utf16_sort_key k) d)"
  have "\<exists>ys. rmap ?f ?ms = Inr ys \<and> (\<forall>y \<in> set ys. no_surrogates y)"
  proof (rule rmap_total)
    fix x assume "x \<in> set ?ms"
    then obtain k v where x: "x = (k, v)" "(k, v) \<in> set d" by auto
    with JDict.prems have c: "clean_str nfc k" "clean nfc (n - 1) v" "depth + 1 + int (n - 1) \<le> max_depth"
      by (auto simp: of_nat_diff)
    obtain s where "serialize nfc frepr ex (depth + 1) v = Inr s" "no_surrogates s"
      using JDict.IH [OF x(2) _ c(2,3)] by auto
    with c(1) x show "\<exists>y. ?f x = Inr y \<and> no_surrogates y"
      by (simp add: clean_str_def quote_def no_surrogates_quoted)
  qed
  moreover have "\<not> list_ex (\<lambda>(k, v). list_ex surrogate k) d"
    using JDict.prems(1) by (fastforce simp: list_ex_iff [of _ d] clean_str_def)
  ultimately show ?case using JDict.prems by (auto simp: serialize_simps no_surrogates_join)
qed (auto simp: serialize_simps py_int_str_def no_surrogates_int_str clean_str_def quote_def no_surrogates_quoted)

lemma canonicalize_clean:
  "clean nfc 64 obj \<Longrightarrow> \<exists>data. canonicalize nfc frepr ex obj = Inr data"
  using serialize_total [of nfc 64 obj 0 frepr ex]
  by (auto simp: canonicalize_def utf8_encode_def max_depth_def)

text \<open>
  Canonical form: Canonicalization returns on every float-free value nested at most 64
  deep whose strings are normalized and free of surrogates.
\<close>

theorem canonicalize_total:
  assumes "clean nfc 64 obj"
  shows "\<exists>data. canonicalize nfc frepr ex obj = Inr data"
  by (rule canonicalize_clean [OF assms])

theorem canonicalize_total_witness:
  "\<exists>data. canonicalize (\<lambda>_. True) (\<lambda>_. []) True (JDict [(us ''k'', JList [JInt 7, JStr (us ''v'')])]) = Inr data"
  by (rule canonicalize_total) (simp add: clean_str_def nat_str.simps)

text \<open>
  Canonical form: The order in which a dictionary's members were inserted does not
  matter: dictionaries with the same members serialize alike, success or error.
\<close>

theorem member_order_irrelevant:
  assumes "distinct (map fst d)" and "mset d = mset e" and "\<forall>m \<in> set d. code_points (fst m)"
  shows "serialize nfc frepr ex depth (JDict d) = serialize nfc frepr ex depth (JDict e)"
proof (cases "list_ex (\<lambda>(k, v). list_ex surrogate k) d")
  case True
  moreover have "set d = set e" by (rule mset_eq_setD [OF assms(2)])
  ultimately show ?thesis by (simp add: serialize.simps list_ex_iff)
next
  case False
  have se: "set d = set e" by (rule mset_eq_setD [OF assms(2)])
  have "inj_on (\<lambda>(k, v). utf16_sort_key k) (set d)"
  proof (rule inj_onI)
    fix x y assume xy: "x \<in> set d" "y \<in> set d"
      and k: "(case x of (k, v) \<Rightarrow> utf16_sort_key k) = (case y of (k, v) \<Rightarrow> utf16_sort_key k)"
    then have "fst x = fst y"
      using False assms(3) by (intro utf16_sort_key_inj) (auto simp: list_ex_iff case_prod_unfold)
    then show "x = y" using assms(1) xy by (metis eq_key_imp_eq_value prod.collapse)
  qed
  then have "sort_key (\<lambda>(k, v). utf16_sort_key k) d = sort_key (\<lambda>(k, v). utf16_sort_key k) e"
    using assms(2) by (intro sort_key_inj_key_eq) auto
  then show ?thesis using se by (simp add: serialize.simps list_ex_iff)
qed

theorem member_order_irrelevant_witness:
  "serialize (\<lambda>_. True) (\<lambda>_. []) True 0 (JDict [(us ''b'', JBool True), (us ''a'', JNull)]) =
   serialize (\<lambda>_. True) (\<lambda>_. []) True 0 (JDict [(us ''a'', JNull), (us ''b'', JBool True)])"
  by (rule member_order_irrelevant) (simp_all add: us_def)

end
