(* ===== verification/Signing.thy ===== *)
theory Signing
  imports Canonicalize
begin

section \<open>Signatures over canonical bytes (\<open>_signing.py\<close>)\<close>

text \<open>
  Base64url text, the signing pre-image of a manifest, and the three signature profiles
  (Ed25519, ML-DSA-65 and the hybrid). The primitives of the \<open>cryptography\<close> package are
  fields of a parameter record \<open>crypto\<close>; what the system relies on (that a signature made
  with a key verifies under its public half) is a named hypothesis of the theorems that use
  it. The main results: base64url text has exactly one spelling per byte string, and a
  verifier accepts what the matching signer produces.
\<close>

subsection \<open>The \<open>cryptography\<close> package as a parameter\<close>

text \<open>
  Private keys are opaque byte strings. \<open>ed_load\<close> and \<open>ml_load\<close> say whether
  \<open>from_public_bytes\<close> accepts the bytes (otherwise it raises \<open>ValueError\<close>);
  \<open>ml_available\<close> whether the build has ML-DSA. The tables of the interpreter the
  canonicalizer reads are kept in the same record.
\<close>

record crypto =
  nfc :: "pystr \<Rightarrow> bool"
  frepr :: "rat \<Rightarrow> pystr"
  hf :: hash_fns
  ed_public :: "bytes \<Rightarrow> bytes"
  ed_sign :: "bytes \<Rightarrow> bytes \<Rightarrow> bytes"
  ed_load :: "bytes \<Rightarrow> bool"
  ed_verify :: "bytes \<Rightarrow> bytes \<Rightarrow> bytes \<Rightarrow> bool" \<comment> \<open>public key, signature, message\<close>
  ml_available :: bool
  ml_public :: "bytes \<Rightarrow> bytes"
  ml_sign :: "bytes \<Rightarrow> bytes \<Rightarrow> bytes"
  ml_load :: "bytes \<Rightarrow> bool"
  ml_verify :: "bytes \<Rightarrow> bytes \<Rightarrow> bytes \<Rightarrow> bool"

abbreviation sha256 :: "('x) crypto_scheme \<Rightarrow> bytes \<Rightarrow> bytes" where
  "sha256 cr \<equiv> hf_sha256 (hf cr)"

abbreviation canon_bytes :: "('x) crypto_scheme \<Rightarrow> json \<Rightarrow> bytes result" where
  "canon_bytes cr \<equiv> canonicalize (nfc cr) (frepr cr) True"

abbreviation canon_hash :: "('x) crypto_scheme \<Rightarrow> json \<Rightarrow> pystr result" where
  "canon_hash cr \<equiv> canonical_hash (nfc cr) (frepr cr) (hf cr) (us ''sha256'') True"

text \<open>\<open>"sha256:" + hashlib.sha256(data).hexdigest()\<close>\<close>

definition prefixed_sha256 :: "('x) crypto_scheme \<Rightarrow> bytes \<Rightarrow> pystr" where
  "prefixed_sha256 cr data = us ''sha256:'' @ hex_of_bytes (sha256 cr data)"

subsection \<open>Base64url without padding\<close>

definition b64_char :: "nat \<Rightarrow> nat" where
  "b64_char n = (if n < 26 then 65 + n else if n < 52 then 71 + n else if n < 62 then n - 4
                 else if n = 62 then 45 else 95)"

definition b64_val :: "nat \<Rightarrow> nat option" where
  "b64_val c = (if 65 \<le> c \<and> c \<le> 90 then Some (c - 65)
                else if 97 \<le> c \<and> c \<le> 122 then Some (c - 71)
                else if 48 \<le> c \<and> c \<le> 57 then Some (c + 4)
                else if c = 45 then Some 62 else if c = 95 then Some 63 else None)"

fun b64_groups :: "nat list \<Rightarrow> nat list" where
  "b64_groups [] = []"
| "b64_groups [a] = [a div 4, a mod 4 * 16]"
| "b64_groups [a, b] = [a div 4, a mod 4 * 16 + b div 16, b mod 16 * 4]"
| "b64_groups (a # b # c # r) =
     [a div 4, a mod 4 * 16 + b div 16, b mod 16 * 4 + c div 64, c mod 64] @ b64_groups r"

definition b64url_encode :: "bytes \<Rightarrow> pystr" where
  "b64url_encode data = map b64_char (b64_groups (map unat data))"

text \<open>The decoder of the standard library drops the low bits of a short last group.\<close>

fun b64_ungroup :: "nat list \<Rightarrow> nat list" where
  "b64_ungroup (p # q # r # s # t) =
     [p * 4 + q div 16, q mod 16 * 16 + r div 4, r mod 4 * 64 + s] @ b64_ungroup t"
| "b64_ungroup [p, q, r] = [p * 4 + q div 16, q mod 16 * 16 + r div 4]"
| "b64_ungroup [p, q] = [p * 4 + q div 16]"
| "b64_ungroup _ = []"

definition b64url_decode :: "pystr \<Rightarrow> bytes result" where
  "b64url_decode s =
     (if list_ex (\<lambda>c. b64_val c = None) s \<or> length s mod 4 = 1
      then Inl (ValueError (us ''Invalid base64url: contains non-URL-safe characters''))
      else let raw = map of_nat (b64_ungroup (map (\<lambda>c. the (b64_val c)) s)) in
        if b64url_encode raw \<noteq> s
        then Inl (ValueError (us ''Invalid base64url: non-canonical encoding''))
        else Inr raw)"

lemma b64_val_char: "n < 64 \<Longrightarrow> b64_val (b64_char n) = Some n"
  by (auto simp: b64_val_def b64_char_def)

lemma b64_groups_range: "\<forall>b \<in> set bs. b < 256 \<Longrightarrow> n \<in> set (b64_groups bs) \<Longrightarrow> n < 64"
  by (induction bs arbitrary: n rule: b64_groups.induct) auto

lemma b64_groups_length: "length (b64_groups bs) mod 4 \<noteq> 1"
  by (induction bs rule: b64_groups.induct) auto

lemma b64_ungroup_groups: "\<forall>b \<in> set bs. b < 256 \<Longrightarrow> b64_ungroup (b64_groups bs) = bs"
  by (induction bs rule: b64_groups.induct) auto

lemma unat_bytes_range: "\<forall>b \<in> set (map unat (bs :: bytes)). b < 256"
  using unsigned_less [where ?'a = nat and ?'b = 8] by auto

lemma b64url_decode_encode: "b64url_decode (b64url_encode data) = Inr data"
proof -
  let ?g = "b64_groups (map unat data)"
  have r: "n < 64" if "n \<in> set ?g" for n using b64_groups_range [OF unat_bytes_range that] .
  have "map (\<lambda>c. the (b64_val c)) (map b64_char ?g) = ?g"
    using r by (simp add: map_idI b64_val_char)
  moreover have "map of_nat (map unat data) = data" by (simp add: map_idI)
  ultimately have "map of_nat (b64_ungroup (map (\<lambda>c. the (b64_val c)) (b64url_encode data))) = data"
    using b64_ungroup_groups [OF unat_bytes_range, of data] unfolding b64url_encode_def by simp
  moreover have "\<not> list_ex (\<lambda>c. b64_val c = None) (b64url_encode data)"
    using r by (auto simp: b64url_encode_def list_ex_iff b64_val_char)
  moreover have "length (b64url_encode data) mod 4 \<noteq> 1"
    using b64_groups_length [of "map unat data"] by (simp add: b64url_encode_def)
  ultimately show ?thesis by (simp add: b64url_decode_def)
qed

lemma b64url_decodeD: "b64url_decode s = Inr data \<Longrightarrow> s = b64url_encode data"
  by (auto simp: b64url_decode_def Let_def split: if_splits)

lemma b64url_encode_inj: "b64url_encode a = b64url_encode b \<Longrightarrow> a = b"
  by (metis b64url_decode_encode sum.inject(2))

text \<open>
  Base64url: A text decodes to a byte string exactly when it is that string's encoding:
  encoding and decoding are inverse, and padding, the standard alphabet, stray characters
  and non-canonical last groups are all refused, so a signature or a key has one spelling.
\<close>

theorem b64url_one_spelling: "b64url_decode s = Inr data \<longleftrightarrow> s = b64url_encode data"
  using b64url_decode_encode b64url_decodeD by blast

lemma ascii_b64: "c \<in> set (b64url_encode bs) \<Longrightarrow> c < 128"
proof -
  have "b64_char n < 128" if "n < 64" for n using that by (auto simp: b64_char_def)
  moreover have "n < 64" if "n \<in> set (b64_groups (map unat bs))" for n
    using b64_groups_range [OF unat_bytes_range that] .
  ultimately show "c \<in> set (b64url_encode bs) \<Longrightarrow> c < 128" by (auto simp: b64url_encode_def)
qed

lemma text_b64 [simp]: "no_surrogates (b64url_encode bs)" "code_points (b64url_encode bs)"
  using ascii_text ascii_b64 by blast+

subsection \<open>The signing pre-image\<close>

definition WCM_SIGNED_FIELDS :: "pystr list" where
  "WCM_SIGNED_FIELDS =
     map us [''manifest_version'', ''weights_hash'', ''builder'', ''release_terms'',
       ''release_policy'', ''custody'', ''base_confidentiality'', ''deployment_model'',
       ''derived_from'', ''rights_holder'', ''provenance'']"

definition signed_subset :: "(pystr \<times> json) list \<Rightarrow> (pystr \<times> json) list" where
  "signed_subset d =
     List.map_filter (\<lambda>k. map_option (Pair k) (map_of d k)) WCM_SIGNED_FIELDS"

definition signing_pre_image :: "('x) crypto_scheme \<Rightarrow> (pystr \<times> json) list \<Rightarrow> bytes result" where
  "signing_pre_image cr d = canon_bytes cr (JDict (signed_subset d))"

definition key_id :: "('x) crypto_scheme \<Rightarrow> bytes \<Rightarrow> pystr" where
  "key_id cr public_key_bytes = hex_of_bytes (sha256 cr public_key_bytes)"

subsection \<open>Ed25519\<close>

definition SMALL_ORDER_POINTS :: "bytes list" where
  "SMALL_ORDER_POINTS = List.map_filter (\<lambda>h. bytes_fromhex (us h))
     [''0000000000000000000000000000000000000000000000000000000000000000'',
      ''0100000000000000000000000000000000000000000000000000000000000000'',
      ''26e8958fc2b227b045c3f489f2ef98f0d5dfac05d3c63339b13802886d53fc05'',
      ''c7176a703d4dd84fba3c0b760d10670f2a2053fa2c39ccc64ec7fd7792ac037a'',
      ''0000000000000000000000000000000000000000000000000000000000000080'',
      ''ecffffffffffffffffffffffffffffffffffffffffffffffffffffffffffff7f'',
      ''26e8958fc2b227b045c3f489f2ef98f0d5dfac05d3c63339b13802886d53fc85'',
      ''c7176a703d4dd84fba3c0b760d10670f2a2053fa2c39ccc64ec7fd7792ac03fa'']"

record key_pair =
  kp_private :: bytes
  kp_public :: bytes

definition ed25519_from_private_bytes :: "('x) crypto_scheme \<Rightarrow> bytes \<Rightarrow> key_pair result" where
  "ed25519_from_private_bytes cr raw =
     (if length raw \<noteq> 32 then Inl (ValueError (us ''An Ed25519 private key is 32 bytes long''))
      else Inr \<lparr>kp_private = raw, kp_public = ed_public cr raw\<rparr>)"

definition ed25519_from_private_b64url :: "('x) crypto_scheme \<Rightarrow> pystr \<Rightarrow> key_pair result" where
  "ed25519_from_private_b64url cr s = rbind (b64url_decode s) (ed25519_from_private_bytes cr)"

definition kp_key_id :: "('x) crypto_scheme \<Rightarrow> key_pair \<Rightarrow> pystr" where
  "kp_key_id cr kp = key_id cr (kp_public kp)"

definition public_b64url :: "key_pair \<Rightarrow> pystr" where
  "public_b64url kp = b64url_encode (kp_public kp)"

definition private_b64url :: "key_pair \<Rightarrow> pystr" where
  "private_b64url kp = b64url_encode (kp_private kp)"

definition ed25519_signer_sign ::
  "('x) crypto_scheme \<Rightarrow> key_pair \<Rightarrow> (pystr \<times> json) list \<Rightarrow> pystr \<Rightarrow> pystr \<Rightarrow> pystr
     \<Rightarrow> (pystr \<times> json) list result" where
  "ed25519_signer_sign cr kp manifest_dict role signer signed_at =
     rbind (signing_pre_image cr manifest_dict) (\<lambda>pre_image.
       Inr [(us ''role'', JStr role), (us ''signer'', JStr signer),
            (us ''algorithm'', JStr (us ''Ed25519'')),
            (us ''key_id'', JStr (kp_key_id cr kp)), (us ''key_type'', JStr (us ''software'')),
            (us ''signed_at'', JStr signed_at),
            (us ''signature_value'', JStr (b64url_encode (ed_sign cr (kp_private kp) pre_image))),
            (us ''signed_fields'', JList (map JStr WCM_SIGNED_FIELDS))])"

text \<open>A verifier is its public key; loading rejects the eight torsion points.\<close>

definition ed25519_verifier :: "('x) crypto_scheme \<Rightarrow> bytes \<Rightarrow> bytes result" where
  "ed25519_verifier cr public_key_bytes =
     (if length public_key_bytes \<noteq> 32 \<or> public_key_bytes \<in> set SMALL_ORDER_POINTS
      then Inl (ValueError (us ''Invalid Ed25519 public key: key is a small-order subgroup element''))
      else if \<not> ed_load cr public_key_bytes then Inl (ValueError (us ''invalid public key''))
      else Inr public_key_bytes)"

definition ed25519_verify ::
  "('x) crypto_scheme \<Rightarrow> bytes \<Rightarrow> (pystr \<times> json) list \<Rightarrow> pystr \<Rightarrow> unit result" where
  "ed25519_verify cr pub manifest_dict signature_value =
     rbind (signing_pre_image cr manifest_dict) (\<lambda>pre_image.
     rbind (b64url_decode signature_value) (\<lambda>sig_bytes.
       if length sig_bytes \<noteq> 64
       then Inl (InvalidSignature (us ''Ed25519 signature must be 64 bytes''))
       else if ed_verify cr pub sig_bytes pre_image then Inr () else Inl (InvalidSignature [])))"

subsection \<open>ML-DSA-65 and the hybrid\<close>

definition mldsa_module :: "('x) crypto_scheme \<Rightarrow> unit result" where
  "mldsa_module cr = raise_if (\<not> ml_available cr) (RuntimeError (us ''ML-DSA-65 requires a cryptography build with FIPS 204 support''))"

definition ml_dsa65_from_seed_bytes :: "('x) crypto_scheme \<Rightarrow> bytes \<Rightarrow> key_pair result" where
  "ml_dsa65_from_seed_bytes cr raw =
     rbind (mldsa_module cr) (\<lambda>_.
       if length raw \<noteq> 32 then Inl (ValueError (us ''An ML-DSA-65 seed is 32 bytes long''))
       else Inr \<lparr>kp_private = raw, kp_public = ml_public cr raw\<rparr>)"

definition ml_dsa65_signer_sign ::
  "('x) crypto_scheme \<Rightarrow> key_pair \<Rightarrow> (pystr \<times> json) list \<Rightarrow> pystr \<Rightarrow> pystr \<Rightarrow> pystr
     \<Rightarrow> (pystr \<times> json) list result" where
  "ml_dsa65_signer_sign cr kp manifest_dict role signer signed_at =
     rbind (signing_pre_image cr manifest_dict) (\<lambda>pre_image.
       Inr [(us ''role'', JStr role), (us ''signer'', JStr signer),
            (us ''algorithm'', JStr (us ''ML-DSA-65'')),
            (us ''key_id'', JStr (kp_key_id cr kp)), (us ''key_type'', JStr (us ''software'')),
            (us ''signed_at'', JStr signed_at),
            (us ''signature_value'', JStr (b64url_encode (ml_sign cr (kp_private kp) pre_image))),
            (us ''signed_fields'', JList (map JStr WCM_SIGNED_FIELDS))])"

definition ml_dsa65_verifier :: "('x) crypto_scheme \<Rightarrow> bytes \<Rightarrow> bytes result" where
  "ml_dsa65_verifier cr public_key_bytes =
     rbind (mldsa_module cr) (\<lambda>_.
       if ml_load cr public_key_bytes then Inr public_key_bytes
       else Inl (ValueError (us ''An ML-DSA-65 public key is 1952 bytes long'')))"

definition ml_dsa65_verify ::
  "('x) crypto_scheme \<Rightarrow> bytes \<Rightarrow> (pystr \<times> json) list \<Rightarrow> pystr \<Rightarrow> unit result" where
  "ml_dsa65_verify cr pub manifest_dict signature_value =
     rbind (signing_pre_image cr manifest_dict) (\<lambda>pre_image.
     rbind (b64url_decode signature_value) (\<lambda>sig_bytes.
       if ml_verify cr pub sig_bytes pre_image then Inr () else Inl (InvalidSignature [])))"

record hybrid_key_pair =
  hk_ed25519 :: key_pair
  hk_ml_dsa65 :: key_pair

definition hybrid_key_id :: "('x) crypto_scheme \<Rightarrow> hybrid_key_pair \<Rightarrow> pystr" where
  "hybrid_key_id cr kp =
     hex_of_bytes (sha256 cr (kp_public (hk_ed25519 kp) @ kp_public (hk_ml_dsa65 kp)))"

definition hybrid_signer_sign ::
  "('x) crypto_scheme \<Rightarrow> hybrid_key_pair \<Rightarrow> (pystr \<times> json) list \<Rightarrow> pystr \<Rightarrow> pystr \<Rightarrow> pystr
     \<Rightarrow> (pystr \<times> json) list result" where
  "hybrid_signer_sign cr kp manifest_dict role signer signed_at =
     rbind (signing_pre_image cr manifest_dict) (\<lambda>pre_image.
       Inr [(us ''role'', JStr role), (us ''signer'', JStr signer),
            (us ''algorithm'', JStr (us ''hybrid-Ed25519-ML-DSA-65'')),
            (us ''key_id'', JStr (hybrid_key_id cr kp)), (us ''key_type'', JStr (us ''software'')),
            (us ''signed_at'', JStr signed_at),
            (us ''classical_signature'',
               JStr (b64url_encode (ed_sign cr (kp_private (hk_ed25519 kp)) pre_image))),
            (us ''pq_signature'',
               JStr (b64url_encode (ml_sign cr (kp_private (hk_ml_dsa65 kp)) pre_image))),
            (us ''signature_value'', JStr []),
            (us ''signed_fields'', JList (map JStr WCM_SIGNED_FIELDS))])"

definition hybrid_verifier :: "('x) crypto_scheme \<Rightarrow> bytes \<Rightarrow> bytes \<Rightarrow> (bytes \<times> bytes) result" where
  "hybrid_verifier cr ed_bytes ml_bytes =
     rbind (ed25519_verifier cr ed_bytes) (\<lambda>classical.
     rbind (ml_dsa65_verifier cr ml_bytes) (\<lambda>pq. Inr (classical, pq)))"

definition hybrid_verify ::
  "('x) crypto_scheme \<Rightarrow> bytes \<times> bytes \<Rightarrow> (pystr \<times> json) list \<Rightarrow> pystr \<Rightarrow> pystr \<Rightarrow> unit result" where
  "hybrid_verify cr ver manifest_dict classical_signature pq_signature =
     rbind (ed25519_verify cr (fst ver) manifest_dict classical_signature) (\<lambda>_.
       ml_dsa65_verify cr (snd ver) manifest_dict pq_signature)"

subsection \<open>Members of a canonical dictionary\<close>

text \<open>What a dictionary says about a key, in canonical form: an absent key and one whose value
  is \<open>None\<close> say the same.\<close>

definition member :: "(pystr \<times> json) list \<Rightarrow> pystr \<Rightarrow> json option" where
  "member d k = (case map_of d k of None \<Rightarrow> None
                 | Some v \<Rightarrow> if v = JNull then None else Some (canon True v))"

lemma map_of_filter_snd:
  "distinct (map fst d) \<Longrightarrow>
   map_of (filter (\<lambda>(k, v). P v) d) k = (case map_of d k of Some v \<Rightarrow> if P v then Some v else None | None \<Rightarrow> None)"
proof (induction d)
  case (Cons kv d)
  have "map_of d (fst kv) = None" using Cons.prems by (simp add: map_of_eq_None_iff)
  with Cons show ?case by (cases kv) auto
qed simp

lemma map_of_sort_key:
  assumes "distinct (map fst d)"
  shows "map_of (sort_key f d) = map_of d" "distinct (map fst (sort_key f d))"
proof -
  have "mset (map fst (sort_key f d)) = mset (map fst d)" by (simp add: mset_map)
  then show *: "distinct (map fst (sort_key f d))" using assms by (metis mset_eq_imp_distinct_iff)
  with assms show "map_of (sort_key f d) = map_of d" by (intro map_of_inject_set [THEN iffD2]) auto
qed

lemma canon_JDict_member:
  assumes "distinct (map fst d)" "canon True (JDict d) = JDict e"
  shows "map_of e k = member d k"
proof -
  let ?s = "sort_key (\<lambda>(k, v). utf16_sort_key k) d"
  have e: "e = map (\<lambda>(k, v). (k, canon True v)) (filter (\<lambda>(k, v). v \<noteq> JNull) ?s)"
    using assms(2) by (simp add: canon.simps [of True "JDict d"] case_prod_unfold)
  have "map_of e k = map_option (canon True) (map_of (filter (\<lambda>(k, v). v \<noteq> JNull) ?s) k)"
    unfolding e by (simp add: map_of_map)
  also have "\<dots> = member d k"
    unfolding map_of_filter_snd [OF map_of_sort_key(2) [OF assms(1)]] map_of_sort_key(1) [OF assms(1)]
    by (auto simp: member_def split: option.splits)
  finally show ?thesis .
qed

lemma canon_JDict_eqD:
  assumes "canon True (JDict d) = canon True (JDict d')" "distinct (map fst d)" "distinct (map fst d')"
  shows "member d k = member d' k"
proof -
  obtain e where "canon True (JDict d) = JDict e" by (simp add: canon.simps [of True "JDict d"])
  with assms canon_JDict_member [of d e k] canon_JDict_member [of d' e k] show ?thesis by simp
qed

lemma keys_map_filter: "map fst (List.map_filter (\<lambda>k. map_option (Pair k) (m k)) ks) = filter (\<lambda>k. m k \<noteq> None) ks"
  by (induction ks) (auto simp: map_filter_simps split: option.splits)

lemma map_of_map_filter:
  "map_of (List.map_filter (\<lambda>k. map_option (Pair k) (m k)) ks) k = (if k \<in> set ks then m k else None)"
  by (induction ks) (auto simp: map_filter_simps split: option.splits)

lemma distinct_signed_fields: "distinct WCM_SIGNED_FIELDS"
  by (simp add: WCM_SIGNED_FIELDS_def us_def)

lemma distinct_signed_subset: "distinct (map fst (signed_subset d))"
  by (simp add: signed_subset_def keys_map_filter distinct_signed_fields)

lemma member_signed_subset: "k \<in> set WCM_SIGNED_FIELDS \<Longrightarrow> member (signed_subset d) k = member d k"
  by (simp add: member_def signed_subset_def map_of_map_filter)

lemma exact_signed_subset:
  assumes "exact (JDict d)"
  shows "exact (JDict (signed_subset d))"
proof -
  have "(k, v) \<in> set d" if "(k, v) \<in> set (signed_subset d)" for k v
    using that by (auto simp: signed_subset_def map_filter_def dest: map_of_SomeD)
  with assms show ?thesis by fastforce
qed

text \<open>
  Joint signature: If two manifests have the same signing pre-image, they agree on every
  field the joint signature covers (a field that is absent and one that is \<open>None\<close> counting
  as the same).
\<close>

theorem pre_image_binds_signed_fields:
  assumes "exact (JDict d)" and "exact (JDict d')"
    and "signing_pre_image cr d = Inr p" and "signing_pre_image cr d' = Inr p"
    and "k \<in> set WCM_SIGNED_FIELDS"
  shows "member d k = member d' k"
proof -
  have "canon True (JDict (signed_subset d)) = canon True (JDict (signed_subset d'))"
    using assms unfolding signing_pre_image_def by (intro canonicalize_inj [OF exact_signed_subset exact_signed_subset])
  from canon_JDict_eqD [OF this distinct_signed_subset distinct_signed_subset, of k]
  show ?thesis using assms(5) by (simp add: member_signed_subset)
qed

definition demo_crypto :: crypto where
  "demo_crypto = \<lparr>nfc = (\<lambda>_. True), frepr = (\<lambda>_. []),
     hf = \<lparr>hf_sha256 = (\<lambda>m. take 32 (m @ replicate 32 0)), hf_shake256 = (\<lambda>m. take 32 (m @ replicate 32 0))\<rparr>,
     ed_public = (\<lambda>sk. sk), ed_sign = (\<lambda>sk m. replicate 64 1), ed_load = (\<lambda>_. True),
     ed_verify = (\<lambda>pk sg m. sg = replicate 64 1), ml_available = True, ml_public = (\<lambda>sk. sk),
     ml_sign = (\<lambda>sk m. [2]), ml_load = (\<lambda>_. True), ml_verify = (\<lambda>pk sg m. sg = [2])\<rparr>"

lemmas canon_eval =
  canonicalize_def serialize_simps max_depth_def us_def surrogate_def quote_def quoted_def esc_def
  py_int_str_def int_str_def nat_str.simps utf16_sort_key_def utf16_cp_def utf8_encode_def utf8_cp_def

theorem pre_image_binds_signed_fields_witness:
  "member [(us ''weights_hash'', JStr (us ''a'')), (us ''signatures'', JList [])] (us ''weights_hash'') =
   member [(us ''provenance'', JNull), (us ''weights_hash'', JStr (us ''a''))] (us ''weights_hash'')"
proof (rule pre_image_binds_signed_fields [where cr = demo_crypto
      and p = "[123, 34, 119, 101, 105, 103, 104, 116, 115, 95, 104, 97, 115, 104, 34, 58, 34, 97, 34, 125]"])
  note [simp] = signing_pre_image_def signed_subset_def WCM_SIGNED_FIELDS_def map_filter_simps
    demo_crypto_def canon_eval
  let ?p = "[123, 34, 119, 101, 105, 103, 104, 116, 115, 95, 104, 97, 115, 104, 34, 58, 34, 97, 34, 125]"
  show "signing_pre_image demo_crypto
      [(us ''weights_hash'', JStr (us ''a'')), (us ''signatures'', JList [])] = Inr ?p" by simp
  show "signing_pre_image demo_crypto
      [(us ''provenance'', JNull), (us ''weights_hash'', JStr (us ''a''))] = Inr ?p" by simp
qed (simp_all add: WCM_SIGNED_FIELDS_def)

subsection \<open>Signers and verifiers agree\<close>

text \<open>What the system relies on of the package: a signature verifies under the signer's key.\<close>

definition ed_correct :: "('x) crypto_scheme \<Rightarrow> bool" where
  "ed_correct cr \<longleftrightarrow> (\<forall>sk m. length (ed_sign cr sk m) = 64 \<and>
     ed_verify cr (ed_public cr sk) (ed_sign cr sk m) m)"

definition ml_correct :: "('x) crypto_scheme \<Rightarrow> bool" where
  "ml_correct cr \<longleftrightarrow> (\<forall>sk m. ml_verify cr (ml_public cr sk) (ml_sign cr sk m) m)"

definition block_str :: "(pystr \<times> json) list \<Rightarrow> string \<Rightarrow> pystr" where
  "block_str b k = (case map_of b (us k) of Some (JStr s) \<Rightarrow> s | _ \<Rightarrow> [])"

lemma map_filter_cong':
  "(\<And>x. x \<in> set xs \<Longrightarrow> f x = g x) \<Longrightarrow> List.map_filter f xs = List.map_filter g xs"
  by (induction xs) (auto simp: map_filter_simps split: option.splits)

lemma signing_pre_image_cong:
  "(\<And>k. k \<in> set WCM_SIGNED_FIELDS \<Longrightarrow> map_of d k = map_of d' k) \<Longrightarrow>
   signing_pre_image cr d = signing_pre_image cr d'"
  unfolding signing_pre_image_def signed_subset_def
  by (rule arg_cong [where f = "\<lambda>x. canon_bytes cr (JDict x)"]) (rule map_filter_cong', simp)

text \<open>
  The block a hybrid signer produces verifies under the pair of public
  keys, on every manifest that agrees with the signed one on the signed fields, whatever was
  appended to it.
\<close>

theorem hybrid_sign_verifies:
  assumes "ed_correct cr" and "ml_correct cr"
    and "kp_public (hk_ed25519 kp) = ed_public cr (kp_private (hk_ed25519 kp))"
    and "kp_public (hk_ml_dsa65 kp) = ml_public cr (kp_private (hk_ml_dsa65 kp))"
    and "hybrid_signer_sign cr kp d role signer tm = Inr b"
    and "\<forall>k \<in> set WCM_SIGNED_FIELDS. map_of d' k = map_of d k"
  shows "hybrid_verify cr (kp_public (hk_ed25519 kp), kp_public (hk_ml_dsa65 kp)) d'
           (block_str b ''classical_signature'') (block_str b ''pq_signature'') = Inr ()"
proof -
  have pre: "signing_pre_image cr d' = signing_pre_image cr d"
    using assms(6) by (intro signing_pre_image_cong) simp
  from assms(5) obtain p where p: "signing_pre_image cr d = Inr p"
    and c: "block_str b ''classical_signature'' = b64url_encode (ed_sign cr (kp_private (hk_ed25519 kp)) p)"
    and q: "block_str b ''pq_signature'' = b64url_encode (ml_sign cr (kp_private (hk_ml_dsa65 kp)) p)"
    by (auto simp: hybrid_signer_sign_def rbind_Inr_iff block_str_def us_def)
  show ?thesis
    using assms(1-4) unfolding hybrid_verify_def ed25519_verify_def ml_dsa65_verify_def pre p c q
    by (simp add: b64url_decode_encode ed_correct_def ml_correct_def)
qed

theorem hybrid_sign_verifies_witness:
  "hybrid_verify demo_crypto ([5], [6]) [(us ''weights_hash'', JNull), (us ''signatures'', JList [])]
     (b64url_encode (replicate 64 1)) (b64url_encode [2]) = Inr ()"
proof -
  let ?kp = "\<lparr>hk_ed25519 = \<lparr>kp_private = [5], kp_public = [5]\<rparr>,
               hk_ml_dsa65 = \<lparr>kp_private = [6], kp_public = [6]\<rparr>\<rparr>"
  have "signing_pre_image demo_crypto [(us ''weights_hash'', JNull)] = Inr [123, 125]"
    by (simp add: signing_pre_image_def signed_subset_def WCM_SIGNED_FIELDS_def map_filter_simps
        demo_crypto_def canon_eval)
  then obtain b where b: "hybrid_signer_sign demo_crypto ?kp [(us ''weights_hash'', JNull)] [] [] [] = Inr b"
    and s: "block_str b ''classical_signature'' = b64url_encode (replicate 64 1)"
      "block_str b ''pq_signature'' = b64url_encode [2]"
    by (simp add: hybrid_signer_sign_def block_str_def demo_crypto_def us_def)
  have "hybrid_verify demo_crypto (kp_public (hk_ed25519 ?kp), kp_public (hk_ml_dsa65 ?kp))
      [(us ''weights_hash'', JNull), (us ''signatures'', JList [])]
      (block_str b ''classical_signature'') (block_str b ''pq_signature'') = Inr ()"
    by (rule hybrid_sign_verifies [OF _ _ _ _ b])
       (simp_all add: demo_crypto_def ed_correct_def ml_correct_def WCM_SIGNED_FIELDS_def us_def)
  then show ?thesis using s by simp
qed

end
