(* ===== verification/Models.thy ===== *)
theory Models
  imports Signing
begin

section \<open>The manifest (\<open>models.py\<close>, \<open>_types.py\<close>)\<close>

text \<open>
  The Layer 1 manifest: its enumerations, its objects as records with the source's fields in
  the source's order, the validators that run when an object is built, and the JSON form
  (\<open>model_dump(mode="json", exclude_none=True)\<close>) whose canonical bytes are signed. A
  manifest is built by parsing JSON with pydantic, which is not modelled: a record stands for
  a parsed object, and \<open>validate_manifest\<close> for the checks parsing makes.
\<close>

subsection \<open>Enumerations\<close>

datatype assurance_tier = hardware_attested
datatype physical_hardening = ph_not_required | tamper_evident
datatype trusted_time_source = secure_tsc | lease_with_op_count_hybrid | none_best_effort
datatype memory_fingerprint_challenge = required_for_hostile_owner_posture | mfc_not_required
datatype tenancy = tenancy_shared | tenancy_dedicated
datatype platform_integrity_requirement = pi_required | pi_not_required
datatype key_release_mode = attestation_gated
datatype replay_protection = kbs_nonce_required
datatype serving_image_status = image_current | image_retiring | image_revoked
datatype revocation_authority =
  builder_and_custodian_joint | quorum | builder_and_opaque_joint
datatype custodian_type = hosted | customer_self_custody | opaque_hosted
datatype signature_role = role_builder | role_custodian | role_sovereign | role_additional
datatype signature_algorithm = ed25519 | ml_dsa_65 | hybrid
datatype key_type = software | hardware
datatype base_confidentiality = confidential | gated_open | open_weights
datatype deployment_model = builder_to_customer | byom_symmetric
datatype derivative_policy = dp_none | fine_tune_only | unrestricted

text \<open>The value of each member, \<open>m.value\<close>.\<close>

definition assurance_tier_value :: "assurance_tier \<Rightarrow> pystr" where
  "assurance_tier_value t = us ''hardware-attested''"

definition physical_hardening_value :: "physical_hardening \<Rightarrow> pystr" where
  "physical_hardening_value x = (case x of ph_not_required \<Rightarrow> us ''not-required''
     | tamper_evident \<Rightarrow> us ''tamper-evident-enclosure+access-control+chain-of-custody'')"

definition trusted_time_source_value :: "trusted_time_source \<Rightarrow> pystr" where
  "trusted_time_source_value x = (case x of secure_tsc \<Rightarrow> us ''secure-tsc''
     | lease_with_op_count_hybrid \<Rightarrow> us ''lease-with-op-count-hybrid''
     | none_best_effort \<Rightarrow> us ''none-best-effort'')"

definition memory_fingerprint_challenge_value :: "memory_fingerprint_challenge \<Rightarrow> pystr" where
  "memory_fingerprint_challenge_value x = (case x of
       required_for_hostile_owner_posture \<Rightarrow> us ''required-for-hostile-owner-posture''
     | mfc_not_required \<Rightarrow> us ''not-required'')"

definition tenancy_value :: "tenancy \<Rightarrow> pystr" where
  "tenancy_value x = (case x of tenancy_shared \<Rightarrow> us ''shared'' | tenancy_dedicated \<Rightarrow> us ''dedicated'')"

definition platform_integrity_requirement_value :: "platform_integrity_requirement \<Rightarrow> pystr" where
  "platform_integrity_requirement_value x = (case x of pi_required \<Rightarrow> us ''required''
     | pi_not_required \<Rightarrow> us ''not-required'')"

definition key_release_mode_value :: "key_release_mode \<Rightarrow> pystr" where
  "key_release_mode_value x = us ''attestation-gated''"

definition replay_protection_value :: "replay_protection \<Rightarrow> pystr" where
  "replay_protection_value x = us ''kbs-nonce-required''"

definition serving_image_status_value :: "serving_image_status \<Rightarrow> pystr" where
  "serving_image_status_value x = (case x of image_current \<Rightarrow> us ''current''
     | image_retiring \<Rightarrow> us ''retiring'' | image_revoked \<Rightarrow> us ''revoked'')"

definition revocation_authority_value :: "revocation_authority \<Rightarrow> pystr" where
  "revocation_authority_value x = (case x of
       builder_and_custodian_joint \<Rightarrow> us ''builder-and-custodian-joint''
     | quorum \<Rightarrow> us ''quorum''
     | builder_and_opaque_joint \<Rightarrow> us ''builder-and-opaque-joint'')"

definition revocation_authority_canonical :: "revocation_authority \<Rightarrow> revocation_authority" where
  "revocation_authority_canonical x =
     (if x = builder_and_opaque_joint then builder_and_custodian_joint else x)"

definition custodian_type_value :: "custodian_type \<Rightarrow> pystr" where
  "custodian_type_value x = (case x of hosted \<Rightarrow> us ''custodian-hosted''
     | customer_self_custody \<Rightarrow> us ''customer-self-custody''
     | opaque_hosted \<Rightarrow> us ''opaque-hosted'')"

definition custodian_type_canonical :: "custodian_type \<Rightarrow> custodian_type" where
  "custodian_type_canonical x = (if x = opaque_hosted then hosted else x)"

definition signature_role_value :: "signature_role \<Rightarrow> pystr" where
  "signature_role_value x = (case x of role_builder \<Rightarrow> us ''builder''
     | role_custodian \<Rightarrow> us ''custodian'' | role_sovereign \<Rightarrow> us ''sovereign''
     | role_additional \<Rightarrow> us ''additional'')"

definition signature_algorithm_value :: "signature_algorithm \<Rightarrow> pystr" where
  "signature_algorithm_value x = (case x of ed25519 \<Rightarrow> us ''Ed25519''
     | ml_dsa_65 \<Rightarrow> us ''ML-DSA-65'' | hybrid \<Rightarrow> us ''hybrid-Ed25519-ML-DSA-65'')"

definition key_type_value :: "key_type \<Rightarrow> pystr" where
  "key_type_value x = (case x of software \<Rightarrow> us ''software'' | hardware \<Rightarrow> us ''hardware'')"

definition base_confidentiality_value :: "base_confidentiality \<Rightarrow> pystr" where
  "base_confidentiality_value x = (case x of confidential \<Rightarrow> us ''confidential''
     | gated_open \<Rightarrow> us ''gated-open'' | open_weights \<Rightarrow> us ''open'')"

definition deployment_model_value :: "deployment_model \<Rightarrow> pystr" where
  "deployment_model_value x = (case x of builder_to_customer \<Rightarrow> us ''builder-to-customer''
     | byom_symmetric \<Rightarrow> us ''byom-symmetric'')"

definition derivative_policy_value :: "derivative_policy \<Rightarrow> pystr" where
  "derivative_policy_value x = (case x of dp_none \<Rightarrow> us ''none''
     | fine_tune_only \<Rightarrow> us ''fine-tune-only'' | unrestricted \<Rightarrow> us ''unrestricted'')"

lemma physical_hardening_value_inj [simp]: "physical_hardening_value a = physical_hardening_value b \<longleftrightarrow> a = b"
  by (cases a; cases b; simp add: physical_hardening_value_def)

lemma trusted_time_source_value_inj [simp]: "trusted_time_source_value a = trusted_time_source_value b \<longleftrightarrow> a = b"
  by (cases a; cases b; simp add: trusted_time_source_value_def)

lemma memory_fingerprint_challenge_value_inj [simp]: "memory_fingerprint_challenge_value a = memory_fingerprint_challenge_value b \<longleftrightarrow> a = b"
  by (cases a; cases b; simp add: memory_fingerprint_challenge_value_def)

lemma tenancy_value_inj [simp]: "tenancy_value a = tenancy_value b \<longleftrightarrow> a = b"
  by (cases a; cases b; simp add: tenancy_value_def)

lemma platform_integrity_requirement_value_inj [simp]: "platform_integrity_requirement_value a = platform_integrity_requirement_value b \<longleftrightarrow> a = b"
  by (cases a; cases b; simp add: platform_integrity_requirement_value_def)

lemma serving_image_status_value_inj [simp]: "serving_image_status_value a = serving_image_status_value b \<longleftrightarrow> a = b"
  by (cases a; cases b; simp add: serving_image_status_value_def)

lemma revocation_authority_value_inj [simp]: "revocation_authority_value a = revocation_authority_value b \<longleftrightarrow> a = b"
  by (cases a; cases b; simp add: revocation_authority_value_def)

lemma custodian_type_value_inj [simp]: "custodian_type_value a = custodian_type_value b \<longleftrightarrow> a = b"
  by (cases a; cases b; simp add: custodian_type_value_def)

lemma base_confidentiality_value_inj [simp]: "base_confidentiality_value a = base_confidentiality_value b \<longleftrightarrow> a = b"
  by (cases a; cases b; simp add: base_confidentiality_value_def)

lemma deployment_model_value_inj [simp]: "deployment_model_value a = deployment_model_value b \<longleftrightarrow> a = b"
  by (cases a; cases b; simp add: deployment_model_value_def)

lemma derivative_policy_value_inj [simp]: "derivative_policy_value a = derivative_policy_value b \<longleftrightarrow> a = b"
  by (cases a; cases b; simp add: derivative_policy_value_def)

lemma assurance_tier_value_inj [simp]: "assurance_tier_value a = assurance_tier_value b \<longleftrightarrow> a = b"
  by (cases a; cases b; simp add: assurance_tier_value_def)

lemma key_release_mode_value_inj [simp]: "key_release_mode_value a = key_release_mode_value b \<longleftrightarrow> a = b"
  by (cases a; cases b; simp add: key_release_mode_value_def)

lemma replay_protection_value_inj [simp]: "replay_protection_value a = replay_protection_value b \<longleftrightarrow> a = b"
  by (cases a; cases b; simp add: replay_protection_value_def)

lemma signature_role_value_inj [simp]: "signature_role_value a = signature_role_value b \<longleftrightarrow> a = b"
  by (cases a; cases b; simp add: signature_role_value_def)

subsection \<open>\<open>HashValue\<close>\<close>

definition lower_hex :: "nat \<Rightarrow> bool" where
  "lower_hex c \<longleftrightarrow> (48 \<le> c \<and> c \<le> 57) \<or> (97 \<le> c \<and> c \<le> 102)"

lemma lower_hex_hex: "list_all lower_hex (hex_of_bytes bs)"
proof (induction bs)
  case (Cons b bs)
  have "lower_hex (hex_digit d)" if "d < 16" for d using that by (auto simp: lower_hex_def hex_digit_def)
  with Cons show ?case by (simp add: hex_of_bytes_def hex_byte_def)
qed (simp add: hex_of_bytes_def)

text \<open>\<open>fullmatch\<close> of \<open>(sha256|shake256):[0-9a-f]{64}\<close>.\<close>

definition hash_value_ok :: "pystr \<Rightarrow> bool" where
  "hash_value_ok v \<longleftrightarrow>
     (\<exists>p \<in> {us ''sha256:'', us ''shake256:''}.
        take (length p) v = p \<and> length v = length p + 64 \<and> list_all lower_hex (drop (length p) v))"

definition hash_value_validate :: "pystr \<Rightarrow> pystr result" where
  "hash_value_validate v =
     (if hash_value_ok v then Inr v else Inl (ValueError (us ''Invalid hash value'')))"

subsection \<open>Objects\<close>

record builder =
  b_identity :: pystr
  b_signing_key :: pystr

record release_terms =
  rt_license :: pystr
  rt_permitted_derivatives :: pystr
  rt_permitted_environments :: "pystr list"
  rt_jurisdiction_restriction :: "pystr option"
  rt_derivatives :: "derivative_policy option"

record rights_holder =
  rh_base :: pystr
  rh_derivative :: "pystr option"

record model_signing_provenance =
  ms_signed_digest :: pystr
  ms_transparency :: "pystr option"
  ms_signer :: "pystr option"

record provenance =
  pv_model_signing :: "model_signing_provenance option"

record required_gpu_measurement =
  gm_rim_pin :: pystr
  gm_require_cc_mode :: "bool option"
  gm_note :: "pystr option"

record accepted_measurement =
  am_measurement :: pystr
  am_status :: serving_image_status
  am_retire_after :: "pystr option"

record required_serving_image =
  si_signer :: pystr
  si_release_rule :: pystr
  si_accepted_measurements :: "accepted_measurement list"
  si_note :: "pystr option"

record sovereign_profile =
  sp_enabled :: bool
  sp_revocation_authority :: revocation_authority
  sp_sovereign_signer :: "pystr option"
  sp_additional_signers :: "pystr list option"
  sp_note :: "pystr option"

record platform_integrity =
  pl_alias_check_complete :: platform_integrity_requirement
  pl_ciphertext_hiding :: platform_integrity_requirement
  pl_note :: "pystr option"

text \<open>\<open>rp_authority_set\<close> is \<open>"revocation_authority" in model_fields_set\<close>.\<close>

record release_policy =
  rp_required_assurance_tier :: assurance_tier
  rp_physical_hardening :: physical_hardening
  rp_trusted_time_source :: trusted_time_source
  rp_memory_fingerprint_challenge :: memory_fingerprint_challenge
  rp_required_hw_platform :: "pystr list"
  rp_required_gpu_measurement :: "required_gpu_measurement option"
  rp_require_evidence_verification :: "bool option"
  rp_tenancy :: tenancy
  rp_platform_integrity :: "platform_integrity option"
  rp_required_serving_image :: required_serving_image
  rp_key_release_mode :: key_release_mode
  rp_replay_protection :: replay_protection
  rp_attestation_revocation_check :: "pystr option"
  rp_revocation_authority :: revocation_authority
  rp_sovereign_profile :: sovereign_profile
  rp_authority_set :: bool

record kbs_image =
  ki_measurement :: pystr
  ki_signer :: pystr
  ki_note :: "pystr option"

record custody =
  cu_custodian :: pystr
  cu_custodian_type :: custodian_type
  cu_kbs_image :: kbs_image
  cu_enclave_id :: pystr
  cu_attestation_cadence :: pystr
  cu_kbs_attestation_cadence :: "pystr option"

record manifest_signature =
  sg_role :: signature_role
  sg_signer :: pystr
  sg_algorithm :: signature_algorithm
  sg_key_id :: pystr
  sg_key_type :: key_type
  sg_signed_at :: "pystr option"
  sg_signature_value :: pystr
  sg_classical_signature :: "pystr option"
  sg_pq_signature :: "pystr option"
  sg_signed_fields :: "pystr list option"

record manifest =
  m_manifest_version :: pystr
  m_weights_hash :: pystr
  m_builder :: builder
  m_release_terms :: release_terms
  m_release_policy :: release_policy
  m_custody :: custody
  m_base_confidentiality :: base_confidentiality
  m_deployment_model :: deployment_model
  m_derived_from :: "pystr option"
  m_rights_holder :: "rights_holder option"
  m_provenance :: "provenance option"
  m_signatures :: "manifest_signature list"

subsection \<open>Validators\<close>

definition retire_after_only_when_retiring :: "required_serving_image \<Rightarrow> unit result" where
  "retire_after_only_when_retiring si =
     rbind (rmap (\<lambda>m.
         if am_status m = image_retiring \<and> am_retire_after m = None
         then Inl (ValueError (us ''a retiring accepted_measurement requires retire_after''))
         else raise_if (am_status m \<noteq> image_retiring \<and> am_retire_after m \<noteq> None)
           (ValueError (us ''retire_after is only valid on a retiring accepted_measurement'')))
       (si_accepted_measurements si)) (\<lambda>_. Inr ())"

definition enabled_requires_quorum :: "sovereign_profile \<Rightarrow> unit result" where
  "enabled_requires_quorum sp =
     (if sp_enabled sp
      then if revocation_authority_canonical (sp_revocation_authority sp) \<noteq> quorum
           then Inl (ValueError (us ''sovereign_profile.enabled requires revocation_authority=quorum''))
           else raise_if (sp_sovereign_signer sp \<in> {None, Some []})
             (ValueError (us ''sovereign_profile.enabled requires sovereign_signer''))
      else Inr ())"

definition derived_from_not_self :: "manifest \<Rightarrow> unit result" where
  "derived_from_not_self m =
     raise_if (m_derived_from m = Some (m_weights_hash m))
       (ValueError (us ''derived_from must not equal the own weights_hash''))"

definition byom_symmetric_is_self_custody :: "manifest \<Rightarrow> unit result" where
  "byom_symmetric_is_self_custody m =
     raise_if (m_deployment_model m = byom_symmetric \<and>
         custodian_type_canonical (cu_custodian_type (m_custody m)) \<noteq> customer_self_custody)
       (ValueError (us ''deployment_model byom-symmetric requires customer-self-custody''))"

definition sovereign_consistency :: "manifest \<Rightarrow> unit result" where
  "sovereign_consistency m =
     raise_if (sp_enabled (rp_sovereign_profile (m_release_policy m)) \<and>
         revocation_authority_canonical (rp_revocation_authority (m_release_policy m)) \<noteq> quorum)
       (ValueError (us ''with sovereign_profile.enabled, release_policy.revocation_authority must be quorum''))"

text \<open>All checks of parsing a manifest that depend on its values; inner objects come first.\<close>

definition validate_manifest :: "manifest \<Rightarrow> manifest result" where
  "validate_manifest m =
     (let rp = m_release_policy m; short = ValueError (us ''List should have at least 1 item'') in
      rbind (raise_if (rt_permitted_environments (m_release_terms m) = []) short) (\<lambda>_.
      rbind (raise_if (rp_required_hw_platform rp = []) short) (\<lambda>_.
      rbind (raise_if (si_accepted_measurements (rp_required_serving_image rp) = []) short) (\<lambda>_.
      rbind (hash_value_validate (m_weights_hash m)) (\<lambda>_.
      rbind (rmap (\<lambda>a. hash_value_validate (am_measurement a))
               (si_accepted_measurements (rp_required_serving_image rp))) (\<lambda>_.
      rbind (hash_value_validate (ki_measurement (cu_kbs_image (m_custody m)))) (\<lambda>_.
      rbind (case m_derived_from m of None \<Rightarrow> Inr [] | Some h \<Rightarrow> hash_value_validate h) (\<lambda>_.
      rbind (retire_after_only_when_retiring (rp_required_serving_image rp)) (\<lambda>_.
      rbind (enabled_requires_quorum (rp_sovereign_profile rp)) (\<lambda>_.
      rbind (derived_from_not_self m) (\<lambda>_.
      rbind (byom_symmetric_is_self_custody m) (\<lambda>_.
      rbind (sovereign_consistency m) (\<lambda>_. Inr m)))))))))))))"

subsection \<open>JSON form\<close>

text \<open>An object of optional members; \<open>exclude_none\<close> drops those that are \<open>None\<close>.\<close>

definition present :: "(string \<times> json option) list \<Rightarrow> (pystr \<times> json) list" where
  "present fs = List.map_filter (\<lambda>(k, v). map_option (Pair (us k)) v) fs"

abbreviation JStrs :: "pystr list \<Rightarrow> json" where
  "JStrs ss \<equiv> JList (map JStr ss)"

definition dump_builder :: "builder \<Rightarrow> json" where
  "dump_builder b = JDict (present
     [(''identity'', Some (JStr (b_identity b))),
      (''signing_key'', Some (JStr (b_signing_key b)))])"

definition dump_release_terms :: "release_terms \<Rightarrow> json" where
  "dump_release_terms t = JDict (present
     [(''license'', Some (JStr (rt_license t))),
      (''permitted_derivatives'', Some (JStr (rt_permitted_derivatives t))),
      (''permitted_environments'', Some (JStrs (rt_permitted_environments t))),
      (''jurisdiction_restriction'', map_option JStr (rt_jurisdiction_restriction t)),
      (''derivatives'', map_option (\<lambda>d. JStr (derivative_policy_value d)) (rt_derivatives t))])"

definition dump_rights_holder :: "rights_holder \<Rightarrow> json" where
  "dump_rights_holder r = JDict (present
     [(''base'', Some (JStr (rh_base r))), (''derivative'', map_option JStr (rh_derivative r))])"

definition dump_model_signing :: "model_signing_provenance \<Rightarrow> json" where
  "dump_model_signing p = JDict (present
     [(''method'', Some (JStr (us ''openssf-model-signing''))),
      (''signed_digest'', Some (JStr (ms_signed_digest p))),
      (''transparency'', map_option JStr (ms_transparency p)),
      (''signer'', map_option JStr (ms_signer p))])"

definition dump_provenance :: "provenance \<Rightarrow> json" where
  "dump_provenance p = JDict (present
     [(''model_signing'', map_option dump_model_signing (pv_model_signing p))])"

definition dump_gpu_measurement :: "required_gpu_measurement \<Rightarrow> json" where
  "dump_gpu_measurement g = JDict (present
     [(''rim_pin'', Some (JStr (gm_rim_pin g))),
      (''require_cc_mode'', map_option JBool (gm_require_cc_mode g)),
      (''note'', map_option JStr (gm_note g))])"

definition dump_accepted_measurement :: "accepted_measurement \<Rightarrow> json" where
  "dump_accepted_measurement a = JDict (present
     [(''measurement'', Some (JStr (am_measurement a))),
      (''status'', Some (JStr (serving_image_status_value (am_status a)))),
      (''retire_after'', map_option JStr (am_retire_after a))])"

definition dump_serving_image :: "required_serving_image \<Rightarrow> json" where
  "dump_serving_image i = JDict (present
     [(''signer'', Some (JStr (si_signer i))), (''release_rule'', Some (JStr (si_release_rule i))),
      (''accepted_measurements'',
         Some (JList (map dump_accepted_measurement (si_accepted_measurements i)))),
      (''note'', map_option JStr (si_note i))])"

definition dump_sovereign_profile :: "sovereign_profile \<Rightarrow> json" where
  "dump_sovereign_profile s = JDict (present
     [(''enabled'', Some (JBool (sp_enabled s))),
      (''revocation_authority'', Some (JStr (revocation_authority_value (sp_revocation_authority s)))),
      (''sovereign_signer'', map_option JStr (sp_sovereign_signer s)),
      (''additional_signers'', map_option JStrs (sp_additional_signers s)),
      (''note'', map_option JStr (sp_note s))])"

definition dump_platform_integrity :: "platform_integrity \<Rightarrow> json" where
  "dump_platform_integrity p = JDict (present
     [(''alias_check_complete'',
         Some (JStr (platform_integrity_requirement_value (pl_alias_check_complete p)))),
      (''ciphertext_hiding'',
         Some (JStr (platform_integrity_requirement_value (pl_ciphertext_hiding p)))),
      (''note'', map_option JStr (pl_note p))])"

definition dump_release_policy :: "release_policy \<Rightarrow> json" where
  "dump_release_policy p = JDict (present
     [(''required_assurance_tier'', Some (JStr (assurance_tier_value (rp_required_assurance_tier p)))),
      (''physical_hardening'', Some (JStr (physical_hardening_value (rp_physical_hardening p)))),
      (''trusted_time_source'', Some (JStr (trusted_time_source_value (rp_trusted_time_source p)))),
      (''memory_fingerprint_challenge'',
         Some (JStr (memory_fingerprint_challenge_value (rp_memory_fingerprint_challenge p)))),
      (''required_hw_platform'', Some (JStrs (rp_required_hw_platform p))),
      (''required_gpu_measurement'', map_option dump_gpu_measurement (rp_required_gpu_measurement p)),
      (''require_evidence_verification'', map_option JBool (rp_require_evidence_verification p)),
      (''tenancy'', Some (JStr (tenancy_value (rp_tenancy p)))),
      (''platform_integrity'', map_option dump_platform_integrity (rp_platform_integrity p)),
      (''required_serving_image'', Some (dump_serving_image (rp_required_serving_image p))),
      (''key_release_mode'', Some (JStr (key_release_mode_value (rp_key_release_mode p)))),
      (''replay_protection'', Some (JStr (replay_protection_value (rp_replay_protection p)))),
      (''attestation_revocation_check'', map_option JStr (rp_attestation_revocation_check p)),
      (''revocation_authority'', Some (JStr (revocation_authority_value (rp_revocation_authority p)))),
      (''sovereign_profile'', Some (dump_sovereign_profile (rp_sovereign_profile p)))])"

definition dump_kbs_image :: "kbs_image \<Rightarrow> json" where
  "dump_kbs_image k = JDict (present
     [(''measurement'', Some (JStr (ki_measurement k))), (''signer'', Some (JStr (ki_signer k))),
      (''note'', map_option JStr (ki_note k))])"

definition dump_custody :: "custody \<Rightarrow> json" where
  "dump_custody c = JDict (present
     [(''custodian'', Some (JStr (cu_custodian c))),
      (''custodian_type'', Some (JStr (custodian_type_value (cu_custodian_type c)))),
      (''kbs_image'', Some (dump_kbs_image (cu_kbs_image c))),
      (''enclave_id'', Some (JStr (cu_enclave_id c))),
      (''attestation_cadence'', Some (JStr (cu_attestation_cadence c))),
      (''kbs_attestation_cadence'', map_option JStr (cu_kbs_attestation_cadence c))])"

definition dump_signature :: "manifest_signature \<Rightarrow> json" where
  "dump_signature s = JDict (present
     [(''role'', Some (JStr (signature_role_value (sg_role s)))),
      (''signer'', Some (JStr (sg_signer s))),
      (''algorithm'', Some (JStr (signature_algorithm_value (sg_algorithm s)))),
      (''key_id'', Some (JStr (sg_key_id s))),
      (''key_type'', Some (JStr (key_type_value (sg_key_type s)))),
      (''signed_at'', map_option JStr (sg_signed_at s)),
      (''signature_value'', Some (JStr (sg_signature_value s))),
      (''classical_signature'', map_option JStr (sg_classical_signature s)),
      (''pq_signature'', map_option JStr (sg_pq_signature s)),
      (''signed_fields'', map_option JStrs (sg_signed_fields s))])"

definition unsigned_members :: "manifest \<Rightarrow> (string \<times> json option) list" where
  "unsigned_members m =
     [(''manifest_version'', Some (JStr (m_manifest_version m))),
      (''weights_hash'', Some (JStr (m_weights_hash m))),
      (''builder'', Some (dump_builder (m_builder m))),
      (''release_terms'', Some (dump_release_terms (m_release_terms m))),
      (''release_policy'', Some (dump_release_policy (m_release_policy m))),
      (''custody'', Some (dump_custody (m_custody m))),
      (''base_confidentiality'',
         Some (JStr (base_confidentiality_value (m_base_confidentiality m)))),
      (''deployment_model'', Some (JStr (deployment_model_value (m_deployment_model m)))),
      (''derived_from'', map_option JStr (m_derived_from m)),
      (''rights_holder'', map_option dump_rights_holder (m_rights_holder m)),
      (''provenance'', map_option dump_provenance (m_provenance m))]"

definition unsigned_dict :: "manifest \<Rightarrow> (pystr \<times> json) list" where
  "unsigned_dict m = present (unsigned_members m)"

text \<open>\<open>model_dump(mode="json", exclude_none=True)\<close>, the signatures included.\<close>

definition dump_manifest :: "manifest \<Rightarrow> (pystr \<times> json) list" where
  "dump_manifest m = unsigned_dict m @ [(us ''signatures'', JList (map dump_signature (m_signatures m)))]"

definition with_current_values :: "manifest \<Rightarrow> manifest" where
  "with_current_values m =
     (if m_signatures m \<noteq> [] \<or> rp_authority_set (m_release_policy m) then m
      else m\<lparr>m_release_policy := (m_release_policy m)
               \<lparr>rp_revocation_authority := builder_and_custodian_joint, rp_authority_set := True\<rparr>\<rparr>)"

definition signed_roles :: "manifest \<Rightarrow> signature_role set" where
  "signed_roles m = sg_role ` set (m_signatures m)"

text \<open>The dump names every field that is not \<open>None\<close>, so after re-validation they are set.\<close>

definition with_signatures :: "manifest \<Rightarrow> manifest_signature list \<Rightarrow> manifest result" where
  "with_signatures m blocks =
     validate_manifest (m\<lparr>m_signatures := blocks,
       m_release_policy := (m_release_policy m)\<lparr>rp_authority_set := True\<rparr>\<rparr>)"

subsection \<open>A dumped object determines its members\<close>

definition jcanon :: "json option \<Rightarrow> json option" where
  "jcanon x = (case x of None \<Rightarrow> None | Some v \<Rightarrow> if v = JNull then None else Some (canon True v))"

lemma jcanon_Some [simp]: "v \<noteq> JNull \<Longrightarrow> jcanon (Some v) = Some (canon True v)"
  by (simp add: jcanon_def)

lemma jcanon_map [simp]:
  "(\<And>v. f v \<noteq> JNull) \<Longrightarrow> jcanon (map_option f x) = map_option (\<lambda>v. canon True (f v)) x"
  by (auto simp: jcanon_def split: option.splits)

lemma map_option_eq_inj:
  "(\<And>v w. f v = f w \<Longrightarrow> v = w) \<Longrightarrow> map_option f x = map_option f y \<longleftrightarrow> x = y"
  by (cases x; cases y) auto

lemma present_mem: "(us k, v) \<in> set (present fs) \<Longrightarrow> k \<in> fst ` set fs"
  by (force simp: present_def map_filter_def)

lemma present_fresh:
  assumes "k \<notin> fst ` set fs"
  shows "us k \<notin> fst ` set (present fs)" "map_of (present fs) (us k) = None"
  using assms present_mem by (force, force simp: map_of_eq_None_iff)

lemma present_Cons:
  "present ((k, x) # fs) = (case x of None \<Rightarrow> present fs | Some v \<Rightarrow> (us k, v) # present fs)"
  by (simp add: present_def map_filter_simps split: option.splits)

lemma distinct_present: "distinct (map fst fs) \<Longrightarrow> distinct (map fst (present fs))"
proof (induction fs)
  case (Cons f fs)
  then show ?case by (cases f) (auto simp: present_Cons present_fresh split: option.splits)
qed (simp add: present_def map_filter_simps)

lemma member_present:
  "distinct (map fst fs) \<Longrightarrow> (k, x) \<in> set fs \<Longrightarrow> member (present fs) (us k) = jcanon x"
proof (induction fs)
  case (Cons f fs)
  obtain l y where f: "f = (l, y)" by force
  show ?case
  proof (cases "k = l")
    case True
    then have "k \<notin> fst ` set fs" using Cons.prems f by auto
    moreover from this have "x = y" using Cons.prems f True by (force simp: image_iff)
    ultimately show ?thesis
      using f True present_fresh [of k fs]
      by (simp add: present_Cons member_def jcanon_def split: option.splits)
  next
    case False
    then have "member (present fs) (us k) = jcanon x" using Cons f by auto
    moreover have "map_of (present (f # fs)) (us k) = map_of (present fs) (us k)"
      using f False by (simp add: present_Cons split: option.splits)
    ultimately show ?thesis by (simp add: member_def)
  qed
qed simp

lemma present_inj:
  assumes "canon True (JDict (present fs)) = canon True (JDict (present gs))"
    and "map fst fs = map fst gs" "distinct (map fst fs)"
  shows "map (\<lambda>f. jcanon (snd f)) fs = map (\<lambda>f. jcanon (snd f)) gs"
proof (rule nth_equalityI)
  have n: "length fs = length gs" using assms(2) by (metis length_map)
  then show "length (map (\<lambda>f. jcanon (snd f)) fs) = length (map (\<lambda>f. jcanon (snd f)) gs)" by simp
  fix i assume "i < length (map (\<lambda>f. jcanon (snd f)) fs)"
  then have i: "i < length fs" "i < length gs" using n by auto
  have k: "fst (fs ! i) = fst (gs ! i)" using assms(2) i by (metis nth_map)
  have "jcanon (snd (fs ! i)) = member (present fs) (us (fst (fs ! i)))"
    using assms(3) i by (intro member_present [symmetric]) simp_all
  also have "\<dots> = member (present gs) (us (fst (gs ! i)))"
    unfolding k using assms by (intro canon_JDict_eqD distinct_present) simp_all
  also have "\<dots> = jcanon (snd (gs ! i))"
    using assms(2,3) i by (intro member_present) simp_all
  finally show "map (\<lambda>f. jcanon (snd f)) fs ! i = map (\<lambda>f. jcanon (snd f)) gs ! i"
    using i by simp
qed

lemma JStrs_inj [simp]: "map JStr a = map JStr b \<longleftrightarrow> a = b"
  by (rule inj_map_eq_map) (simp add: inj_def)

lemma canon_JStr_comp [simp]: "canon True \<circ> JStr = JStr"
  by (simp add: fun_eq_iff)

lemma opt_JStr_inj [simp]: "map_option JStr x = map_option JStr y \<longleftrightarrow> x = y"
  by (rule map_option_eq_inj) simp

lemma opt_JBool_inj [simp]: "map_option JBool x = map_option JBool y \<longleftrightarrow> x = y"
  by (rule map_option_eq_inj) simp

lemma opt_JStrs_inj [simp]: "map_option (\<lambda>ss. JStrs ss) x = map_option (\<lambda>ss. JStrs ss) y \<longleftrightarrow> x = y"
  by (rule map_option_eq_inj) simp

lemma opt_derivatives_inj [simp]:
  "map_option (\<lambda>d. JStr (derivative_policy_value d)) x = map_option (\<lambda>d. JStr (derivative_policy_value d)) y
     \<longleftrightarrow> x = y"
  by (rule map_option_eq_inj) simp

lemma dump_not_null [simp]:
  "dump_builder x0 \<noteq> JNull"
  "dump_release_terms x1 \<noteq> JNull"
  "dump_rights_holder x2 \<noteq> JNull"
  "dump_model_signing x3 \<noteq> JNull"
  "dump_provenance x4 \<noteq> JNull"
  "dump_gpu_measurement x5 \<noteq> JNull"
  "dump_accepted_measurement x6 \<noteq> JNull"
  "dump_serving_image x7 \<noteq> JNull"
  "dump_sovereign_profile x8 \<noteq> JNull"
  "dump_platform_integrity x9 \<noteq> JNull"
  "dump_release_policy x10 \<noteq> JNull"
  "dump_kbs_image x11 \<noteq> JNull"
  "dump_custody x12 \<noteq> JNull"
  "dump_signature x13 \<noteq> JNull"
  by (simp_all add: dump_builder_def dump_release_terms_def dump_rights_holder_def dump_model_signing_def dump_provenance_def dump_gpu_measurement_def dump_accepted_measurement_def dump_serving_image_def dump_sovereign_profile_def dump_platform_integrity_def dump_release_policy_def dump_kbs_image_def dump_custody_def dump_signature_def)

lemma dump_builder_inj [simp]: "canon True (dump_builder a) = canon True (dump_builder b) \<longleftrightarrow> a = b"
proof
  assume "canon True (dump_builder a) = canon True (dump_builder b)"
  from present_inj [OF this [unfolded dump_builder_def]] show "a = b" by simp
qed simp

lemma dump_release_terms_inj [simp]: "canon True (dump_release_terms a) = canon True (dump_release_terms b) \<longleftrightarrow> a = b"
proof
  assume "canon True (dump_release_terms a) = canon True (dump_release_terms b)"
  from present_inj [OF this [unfolded dump_release_terms_def]] show "a = b" by simp
qed simp

lemma dump_rights_holder_inj [simp]: "canon True (dump_rights_holder a) = canon True (dump_rights_holder b) \<longleftrightarrow> a = b"
proof
  assume "canon True (dump_rights_holder a) = canon True (dump_rights_holder b)"
  from present_inj [OF this [unfolded dump_rights_holder_def]] show "a = b" by simp
qed simp

lemma dump_model_signing_inj [simp]: "canon True (dump_model_signing a) = canon True (dump_model_signing b) \<longleftrightarrow> a = b"
proof
  assume "canon True (dump_model_signing a) = canon True (dump_model_signing b)"
  from present_inj [OF this [unfolded dump_model_signing_def]] show "a = b" by simp
qed simp

lemma opt_model_signing_inj [simp]:
  "map_option (\<lambda>v. canon True (dump_model_signing v)) x = map_option (\<lambda>v. canon True (dump_model_signing v)) y \<longleftrightarrow> x = y"
  by (rule map_option_eq_inj) simp

lemma dump_provenance_inj [simp]: "canon True (dump_provenance a) = canon True (dump_provenance b) \<longleftrightarrow> a = b"
proof
  assume "canon True (dump_provenance a) = canon True (dump_provenance b)"
  from present_inj [OF this [unfolded dump_provenance_def]] show "a = b" by simp
qed simp

lemma dump_gpu_measurement_inj [simp]: "canon True (dump_gpu_measurement a) = canon True (dump_gpu_measurement b) \<longleftrightarrow> a = b"
proof
  assume "canon True (dump_gpu_measurement a) = canon True (dump_gpu_measurement b)"
  from present_inj [OF this [unfolded dump_gpu_measurement_def]] show "a = b" by simp
qed simp

lemma opt_gpu_measurement_inj [simp]:
  "map_option (\<lambda>v. canon True (dump_gpu_measurement v)) x = map_option (\<lambda>v. canon True (dump_gpu_measurement v)) y \<longleftrightarrow> x = y"
  by (rule map_option_eq_inj) simp

lemma dump_accepted_measurement_inj [simp]: "canon True (dump_accepted_measurement a) = canon True (dump_accepted_measurement b) \<longleftrightarrow> a = b"
proof
  assume "canon True (dump_accepted_measurement a) = canon True (dump_accepted_measurement b)"
  from present_inj [OF this [unfolded dump_accepted_measurement_def]] show "a = b" by simp
qed simp

lemma list_accepted_measurement_inj [simp]:
  "map (canon True \<circ> dump_accepted_measurement) xs = map (canon True \<circ> dump_accepted_measurement) ys
     \<longleftrightarrow> xs = ys"
  by (rule inj_map_eq_map) (simp add: inj_def)

lemma dump_serving_image_inj [simp]: "canon True (dump_serving_image a) = canon True (dump_serving_image b) \<longleftrightarrow> a = b"
proof
  assume "canon True (dump_serving_image a) = canon True (dump_serving_image b)"
  from present_inj [OF this [unfolded dump_serving_image_def]] show "a = b" by simp
qed simp

lemma dump_sovereign_profile_inj [simp]: "canon True (dump_sovereign_profile a) = canon True (dump_sovereign_profile b) \<longleftrightarrow> a = b"
proof
  assume "canon True (dump_sovereign_profile a) = canon True (dump_sovereign_profile b)"
  from present_inj [OF this [unfolded dump_sovereign_profile_def]] show "a = b" by simp
qed simp

lemma dump_platform_integrity_inj [simp]: "canon True (dump_platform_integrity a) = canon True (dump_platform_integrity b) \<longleftrightarrow> a = b"
proof
  assume "canon True (dump_platform_integrity a) = canon True (dump_platform_integrity b)"
  from present_inj [OF this [unfolded dump_platform_integrity_def]] show "a = b" by simp
qed simp

lemma opt_platform_integrity_inj [simp]:
  "map_option (\<lambda>v. canon True (dump_platform_integrity v)) x = map_option (\<lambda>v. canon True (dump_platform_integrity v)) y \<longleftrightarrow> x = y"
  by (rule map_option_eq_inj) simp

lemma dump_release_policy_inj [simp]:
  "canon True (dump_release_policy a) = canon True (dump_release_policy b) \<longleftrightarrow>
     a\<lparr>rp_authority_set := True\<rparr> = b\<lparr>rp_authority_set := True\<rparr>"
proof
  assume "canon True (dump_release_policy a) = canon True (dump_release_policy b)"
  from present_inj [OF this [unfolded dump_release_policy_def]]
  show "a\<lparr>rp_authority_set := True\<rparr> = b\<lparr>rp_authority_set := True\<rparr>"
    by (intro release_policy.equality) simp_all
next
  assume *: "a\<lparr>rp_authority_set := True\<rparr> = b\<lparr>rp_authority_set := True\<rparr>"
  have "dump_release_policy p = dump_release_policy (p\<lparr>rp_authority_set := True\<rparr>)" for p
    by (simp add: dump_release_policy_def)
  with * show "canon True (dump_release_policy a) = canon True (dump_release_policy b)" by metis
qed

lemma dump_kbs_image_inj [simp]: "canon True (dump_kbs_image a) = canon True (dump_kbs_image b) \<longleftrightarrow> a = b"
proof
  assume "canon True (dump_kbs_image a) = canon True (dump_kbs_image b)"
  from present_inj [OF this [unfolded dump_kbs_image_def]] show "a = b" by simp
qed simp

lemma dump_custody_inj [simp]: "canon True (dump_custody a) = canon True (dump_custody b) \<longleftrightarrow> a = b"
proof
  assume "canon True (dump_custody a) = canon True (dump_custody b)"
  from present_inj [OF this [unfolded dump_custody_def]] show "a = b" by simp
qed simp

lemma opt_rights_holder_inj [simp]:
  "map_option (\<lambda>v. canon True (dump_rights_holder v)) x = map_option (\<lambda>v. canon True (dump_rights_holder v)) y \<longleftrightarrow> x = y"
  by (rule map_option_eq_inj) simp

lemma opt_provenance_inj [simp]:
  "map_option (\<lambda>v. canon True (dump_provenance v)) x = map_option (\<lambda>v. canon True (dump_provenance v)) y \<longleftrightarrow> x = y"
  by (rule map_option_eq_inj) simp

text \<open>A manifest up to its signatures and the record of which fields were written out.\<close>

definition signed_part :: "manifest \<Rightarrow> manifest" where
  "signed_part m = m\<lparr>m_signatures := [],
     m_release_policy := (m_release_policy m)\<lparr>rp_authority_set := True\<rparr>\<rparr>"

lemma unsigned_dict_inj:
  assumes "canon True (JDict (unsigned_dict a)) = canon True (JDict (unsigned_dict b))"
  shows "signed_part a = signed_part b"
  using present_inj [OF assms [unfolded unsigned_dict_def unsigned_members_def]]
  unfolding signed_part_def by (intro manifest.equality) simp_all

lemma map_of_present:
  "distinct (map fst fs) \<Longrightarrow> (k, x) \<in> set fs \<Longrightarrow> map_of (present fs) (us k) = x"
proof (induction fs)
  case (Cons f fs)
  obtain l y where f: "f = (l, y)" by force
  show ?case
  proof (cases "k = l")
    case True
    then have "k \<notin> fst ` set fs" using Cons.prems f by auto
    moreover from this have "x = y" using Cons.prems f True by (force simp: image_iff)
    ultimately show ?thesis
      using f True present_fresh [of k fs] by (simp add: present_Cons split: option.splits)
  next
    case False
    then have "map_of (present fs) (us k) = x" using Cons f by auto
    then show ?thesis using f False by (simp add: present_Cons split: option.splits)
  qed
qed simp

lemma signed_fields_keys: "WCM_SIGNED_FIELDS = map (\<lambda>f. us (fst f)) (unsigned_members m)"
  by (simp add: WCM_SIGNED_FIELDS_def unsigned_members_def)

lemma distinct_unsigned_members: "distinct (map fst (unsigned_members m))"
  by (simp add: unsigned_members_def)

lemma map_filter_map_comp: "List.map_filter f (map g xs) = List.map_filter (\<lambda>x. f (g x)) xs"
  by (induction xs) (auto simp: map_filter_simps split: option.splits)

lemma signed_subset_dump: "signed_subset (dump_manifest m) = unsigned_dict m"
proof -
  let ?fs = "unsigned_members m"
  have "map_of (dump_manifest m) (us (fst f)) = snd f" if f: "f \<in> set ?fs" for f
  proof -
    have "fst f \<noteq> ''signatures''" using f by (auto simp: unsigned_members_def)
    moreover have "map_of (present ?fs) (us (fst f)) = snd f"
      using f by (intro map_of_present distinct_unsigned_members) simp
    ultimately show ?thesis
      by (simp add: dump_manifest_def unsigned_dict_def map_add_def split: option.splits)
  qed
  then have "signed_subset (dump_manifest m) = List.map_filter (\<lambda>f. map_option (Pair (us (fst f))) (snd f)) ?fs"
    unfolding signed_subset_def signed_fields_keys [of m] map_filter_map_comp
    by (intro map_filter_cong') simp
  then show ?thesis by (simp add: unsigned_dict_def present_def case_prod_unfold)
qed

text \<open>The pre-image a signer sees is the one a verifier computes from the signed document.\<close>

lemma pre_image_ignores_signatures:
  "signing_pre_image cr (dump_manifest m) = canon_bytes cr (JDict (unsigned_dict m))"
  by (simp add: signing_pre_image_def signed_subset_dump)

lemma signed_part_eqD: "signed_part a = signed_part b \<Longrightarrow> unsigned_dict a = unsigned_dict b"
proof -
  have "unsigned_dict (signed_part m) = unsigned_dict m" for m
    by (simp add: unsigned_dict_def unsigned_members_def signed_part_def dump_release_policy_def)
  then show "signed_part a = signed_part b \<Longrightarrow> unsigned_dict a = unsigned_dict b" by metis
qed

text \<open>
  Two manifests have the same signing pre-image exactly when they agree on
  every field but the signatures: whoever signs the pre-image commits to the whole manifest,
  nested policy objects included, and to nothing that is appended later.
\<close>

theorem manifest_pre_image_faithful:
  assumes "exact (JDict (unsigned_dict m))" and "exact (JDict (unsigned_dict m'))"
    and "signing_pre_image cr (dump_manifest m) = Inr p"
  shows "signing_pre_image cr (dump_manifest m') = Inr p \<longleftrightarrow> signed_part m' = signed_part m"
proof
  assume "signing_pre_image cr (dump_manifest m') = Inr p"
  with assms canonicalize_inj [OF assms(2,1)] show "signed_part m' = signed_part m"
    by (intro unsigned_dict_inj) (simp add: pre_image_ignores_signatures)
next
  assume "signed_part m' = signed_part m"
  from signed_part_eqD [OF this] assms(3) show "signing_pre_image cr (dump_manifest m') = Inr p"
    by (simp add: pre_image_ignores_signatures)
qed

subsection \<open>A concrete manifest\<close>

definition demo_hash :: "nat \<Rightarrow> pystr" where
  "demo_hash d = us ''sha256:'' @ replicate 64 (48 + d)"

definition demo_policy :: release_policy where
  "demo_policy = \<lparr>rp_required_assurance_tier = hardware_attested,
     rp_physical_hardening = ph_not_required, rp_trusted_time_source = secure_tsc,
     rp_memory_fingerprint_challenge = mfc_not_required,
     rp_required_hw_platform = [us ''amd-sev-snp''],
     rp_required_gpu_measurement = None, rp_require_evidence_verification = Some False,
     rp_tenancy = tenancy_shared, rp_platform_integrity = None,
     rp_required_serving_image =
       \<lparr>si_signer = us ''s'', si_release_rule = us ''prefer-current'',
        si_accepted_measurements =
          [\<lparr>am_measurement = demo_hash 1, am_status = image_current, am_retire_after = None\<rparr>],
        si_note = None\<rparr>,
     rp_key_release_mode = attestation_gated, rp_replay_protection = kbs_nonce_required,
     rp_attestation_revocation_check = None,
     rp_revocation_authority = builder_and_custodian_joint,
     rp_sovereign_profile =
       \<lparr>sp_enabled = False, sp_revocation_authority = quorum, sp_sovereign_signer = None,
        sp_additional_signers = None, sp_note = None\<rparr>,
     rp_authority_set = True\<rparr>"

definition demo_manifest :: manifest where
  "demo_manifest = \<lparr>m_manifest_version = us ''1.0'', m_weights_hash = demo_hash 0,
     m_builder = \<lparr>b_identity = us ''b'', b_signing_key = us ''k''\<rparr>,
     m_release_terms =
       \<lparr>rt_license = us ''l'', rt_permitted_derivatives = us ''none'',
        rt_permitted_environments = [us ''prod''], rt_jurisdiction_restriction = None,
        rt_derivatives = Some dp_none\<rparr>,
     m_release_policy = demo_policy,
     m_custody =
       \<lparr>cu_custodian = us ''c'', cu_custodian_type = hosted,
        cu_kbs_image = \<lparr>ki_measurement = demo_hash 2, ki_signer = us ''s'', ki_note = None\<rparr>,
        cu_enclave_id = us ''e'', cu_attestation_cadence = us ''24h'',
        cu_kbs_attestation_cadence = None\<rparr>,
     m_base_confidentiality = confidential, m_deployment_model = builder_to_customer,
     m_derived_from = None, m_rights_holder = None, m_provenance = None, m_signatures = []\<rparr>"

lemmas dump_defs =
  dump_builder_def dump_release_terms_def dump_rights_holder_def dump_model_signing_def
  dump_provenance_def dump_gpu_measurement_def dump_accepted_measurement_def
  dump_serving_image_def dump_sovereign_profile_def dump_platform_integrity_def
  dump_release_policy_def dump_kbs_image_def dump_custody_def unsigned_dict_def
  unsigned_members_def

lemmas value_defs =
  assurance_tier_value_def physical_hardening_value_def trusted_time_source_value_def
  memory_fingerprint_challenge_value_def tenancy_value_def
  platform_integrity_requirement_value_def key_release_mode_value_def
  replay_protection_value_def serving_image_status_value_def revocation_authority_value_def
  custodian_type_value_def base_confidentiality_value_def deployment_model_value_def
  derivative_policy_value_def

lemma clean_demo_hash [simp]: "d < 10 \<Longrightarrow> no_surrogates (demo_hash d)" "d < 10 \<Longrightarrow> code_points (demo_hash d)"
  by (simp_all add: demo_hash_def list_ex_iff [of _ "replicate _ _"] surrogate_def
      code_points_def [of "replicate _ _"])

lemma demo_manifest_exact: "exact (JDict (unsigned_dict demo_manifest))"
  by (simp add: demo_manifest_def demo_policy_def dump_defs value_defs present_def map_filter_simps)

lemma demo_manifest_clean: "clean (nfc demo_crypto) 64 (JDict (unsigned_dict demo_manifest))"
  by (simp add: demo_manifest_def demo_policy_def dump_defs value_defs present_def map_filter_simps
      demo_crypto_def clean_str_def)

lemma demo_manifest_valid: "validate_manifest demo_manifest = Inr demo_manifest"
  by (simp add: validate_manifest_def demo_manifest_def demo_policy_def demo_hash_def
      hash_value_validate_def hash_value_ok_def retire_after_only_when_retiring_def
      enabled_requires_quorum_def derived_from_not_self_def byom_symmetric_is_self_custody_def
      sovereign_consistency_def raise_if_def us_def list_all_iff lower_hex_def)

theorem manifest_pre_image_faithful_witness:
  "\<exists>p. signing_pre_image demo_crypto (dump_manifest demo_manifest) = Inr p \<and>
     (signing_pre_image demo_crypto (dump_manifest (demo_manifest\<lparr>m_deployment_model := byom_symmetric\<rparr>)) = Inr p
        \<longleftrightarrow> signed_part (demo_manifest\<lparr>m_deployment_model := byom_symmetric\<rparr>) = signed_part demo_manifest)"
proof -
  let ?m = "demo_manifest\<lparr>m_deployment_model := byom_symmetric\<rparr>"
  obtain p where p: "signing_pre_image demo_crypto (dump_manifest demo_manifest) = Inr p"
    using canonicalize_clean [OF demo_manifest_clean, of "frepr demo_crypto" True] by (auto simp: pre_image_ignores_signatures)
  have "exact (JDict (unsigned_dict ?m))"
    by (simp add: demo_manifest_def demo_policy_def dump_defs value_defs present_def map_filter_simps)
  from manifest_pre_image_faithful [OF demo_manifest_exact this p] p show ?thesis by blast
qed

end
