(* ===== verification/Renewal.thy ===== *)
theory Renewal
  imports Models
begin

section \<open>Evidence and signed renewal decisions (\<open>attestation.py\<close>, \<open>renewal.py\<close>)\<close>

text \<open>
  The composite evidence an enclave presents (a CPU quote, an optional GPU report and an
  optional memory fingerprint), its identity and the manifest's identity, and the signed,
  keyless renewal decision with its verifier. The main results: an identity determines the
  manifest it names up to signatures, and a decision produced by the signer verifies under
  the signer's public key and no other.
\<close>

subsection \<open>Evidence\<close>

record cpu_quote =
  cq_platform :: pystr
  cq_assurance_tier :: pystr
  cq_serving_image_measurement :: pystr
  cq_nonce_echo :: pystr
  cq_attestation_key_id :: pystr
  cq_attestation_key_cache_age_seconds :: int
  cq_quote_b64 :: "pystr option"
  cq_transport_public_key :: "pystr option"

record gpu_report =
  gr_platform :: pystr
  gr_measurement :: pystr
  gr_cc_mode :: "bool option"
  gr_nonce_echo :: pystr
  gr_quote_b64 :: "pystr option"

record memory_fingerprint =
  mf_challenge_nonce :: pystr
  mf_algorithm :: pystr
  mf_range_start :: int
  mf_range_length :: int
  mf_page_size :: int
  mf_pages_written :: int
  mf_pages_read :: int
  mf_aliasing_detected :: bool
  mf_readback_hash :: pystr
  mf_public_key_b64url :: "pystr option"
  mf_signature_b64url :: "pystr option"

record composite_evidence =
  ev_cpu :: cpu_quote
  ev_gpu :: "gpu_report option"
  ev_memory_fingerprint :: "memory_fingerprint option"

definition dump_cpu_quote :: "cpu_quote \<Rightarrow> json" where
  "dump_cpu_quote q = JDict (present
     [(''platform'', Some (JStr (cq_platform q))),
      (''assurance_tier'', Some (JStr (cq_assurance_tier q))),
      (''serving_image_measurement'', Some (JStr (cq_serving_image_measurement q))),
      (''nonce_echo'', Some (JStr (cq_nonce_echo q))),
      (''attestation_key_id'', Some (JStr (cq_attestation_key_id q))),
      (''attestation_key_cache_age_seconds'', Some (JInt (cq_attestation_key_cache_age_seconds q))),
      (''quote_b64'', map_option JStr (cq_quote_b64 q)),
      (''transport_public_key'', map_option JStr (cq_transport_public_key q))])"

definition dump_gpu_report :: "gpu_report \<Rightarrow> json" where
  "dump_gpu_report g = JDict (present
     [(''platform'', Some (JStr (gr_platform g))),
      (''measurement'', Some (JStr (gr_measurement g))),
      (''cc_mode'', map_option JBool (gr_cc_mode g)),
      (''nonce_echo'', Some (JStr (gr_nonce_echo g))),
      (''quote_b64'', map_option JStr (gr_quote_b64 g))])"

definition mf_signing_members :: "memory_fingerprint \<Rightarrow> (string \<times> json option) list" where
  "mf_signing_members f =
     [(''challenge_nonce'', Some (JStr (mf_challenge_nonce f))),
      (''algorithm'', Some (JStr (mf_algorithm f))),
      (''range_start'', Some (JInt (mf_range_start f))),
      (''range_length'', Some (JInt (mf_range_length f))),
      (''page_size'', Some (JInt (mf_page_size f))),
      (''pages_written'', Some (JInt (mf_pages_written f))),
      (''pages_read'', Some (JInt (mf_pages_read f))),
      (''aliasing_detected'', Some (JBool (mf_aliasing_detected f))),
      (''readback_hash'', Some (JStr (mf_readback_hash f))),
      (''public_key_b64url'', map_option JStr (mf_public_key_b64url f))]"

definition dump_memory_fingerprint :: "memory_fingerprint \<Rightarrow> json" where
  "dump_memory_fingerprint f = JDict (present
     (mf_signing_members f @ [(''signature_b64url'', map_option JStr (mf_signature_b64url f))]))"

text \<open>\<open>MemoryFingerprint.signing_payload\<close>: every member but the signature. The source leaves a
  \<open>None\<close> member in, which the canonicalizer drops.\<close>

definition mf_signing_payload :: "memory_fingerprint \<Rightarrow> json" where
  "mf_signing_payload f = JDict (present (mf_signing_members f))"

definition dump_evidence :: "composite_evidence \<Rightarrow> json" where
  "dump_evidence e = JDict (present
     [(''cpu'', Some (dump_cpu_quote (ev_cpu e))),
      (''gpu'', map_option dump_gpu_report (ev_gpu e)),
      (''memory_fingerprint'', map_option dump_memory_fingerprint (ev_memory_fingerprint e))])"

lemma dump_cpu_quote_inj [simp]:
  "canon True (dump_cpu_quote a) = canon True (dump_cpu_quote b) \<longleftrightarrow> a = b"
proof
  assume "canon True (dump_cpu_quote a) = canon True (dump_cpu_quote b)"
  from present_inj [OF this [unfolded dump_cpu_quote_def]] show "a = b" by simp
qed simp

lemma dump_gpu_report_inj [simp]:
  "canon True (dump_gpu_report a) = canon True (dump_gpu_report b) \<longleftrightarrow> a = b"
proof
  assume "canon True (dump_gpu_report a) = canon True (dump_gpu_report b)"
  from present_inj [OF this [unfolded dump_gpu_report_def]] show "a = b" by simp
qed simp

lemma dump_memory_fingerprint_inj [simp]:
  "canon True (dump_memory_fingerprint a) = canon True (dump_memory_fingerprint b) \<longleftrightarrow> a = b"
proof
  assume "canon True (dump_memory_fingerprint a) = canon True (dump_memory_fingerprint b)"
  from present_inj [OF this [unfolded dump_memory_fingerprint_def mf_signing_members_def]]
  show "a = b" by simp
qed simp

lemma dump_evidence_not_null [simp]:
  "dump_cpu_quote q \<noteq> JNull" "dump_gpu_report g \<noteq> JNull" "dump_memory_fingerprint f \<noteq> JNull"
  by (simp_all add: dump_cpu_quote_def dump_gpu_report_def dump_memory_fingerprint_def)

lemma opt_gpu_report_inj [simp]:
  "map_option (\<lambda>v. canon True (dump_gpu_report v)) x = map_option (\<lambda>v. canon True (dump_gpu_report v)) y \<longleftrightarrow> x = y"
  by (rule map_option_eq_inj) simp

lemma opt_memory_fingerprint_inj [simp]:
  "map_option (\<lambda>v. canon True (dump_memory_fingerprint v)) x =
   map_option (\<lambda>v. canon True (dump_memory_fingerprint v)) y \<longleftrightarrow> x = y"
  by (rule map_option_eq_inj) simp

lemma dump_evidence_inj: "canon True (dump_evidence a) = canon True (dump_evidence b) \<Longrightarrow> a = b"
proof -
  assume "canon True (dump_evidence a) = canon True (dump_evidence b)"
  from present_inj [OF this [unfolded dump_evidence_def]] show "a = b" by simp
qed

subsection \<open>Identities\<close>

definition manifest_identity :: "('x) crypto_scheme \<Rightarrow> manifest \<Rightarrow> pystr result" where
  "manifest_identity cr m =
     rbind (signing_pre_image cr (dump_manifest m)) (\<lambda>material. Inr (prefixed_sha256 cr material))"

definition evidence_identity :: "('x) crypto_scheme \<Rightarrow> composite_evidence \<Rightarrow> pystr result" where
  "evidence_identity cr e = canon_hash cr (dump_evidence e)"

definition nonce_hash :: "('x) crypto_scheme \<Rightarrow> pystr \<Rightarrow> pystr result" where
  "nonce_hash cr nonce = rbind (utf8_encode nonce) (\<lambda>b. Inr (prefixed_sha256 cr b))"

lemma prefixed_sha256_eq: "prefixed_sha256 cr a = prefixed_sha256 cr b \<longleftrightarrow> sha256 cr a = sha256 cr b"
  by (simp add: prefixed_sha256_def hex_of_bytes_inj)

lemma evidence_identity_eq:
  "evidence_identity cr e = rbind (canon_bytes cr (dump_evidence e)) (\<lambda>data. Inr (prefixed_sha256 cr data))"
  by (simp add: evidence_identity_def canonical_hash_def prefixed_sha256_def us_def)

subsection \<open>Renewal decisions\<close>

definition REQUIRED_RENEWAL_CHECKS :: "pystr list" where
  "REQUIRED_RENEWAL_CHECKS = map us
     [''nonce_fresh'', ''manifest_authorized'', ''channel_binding'', ''cpu_platform_allowed'',
      ''assurance_tier'', ''serving_image'', ''gpu'', ''memory_fingerprint'',
      ''attestation_revocation'', ''cpu_quote_verified'', ''gpu_report_verified'',
      ''key_available'']"

type_synonym check_dict = "(pystr \<times> json) list"

record renewal_decision =
  rd_kind :: pystr
  rd_algorithm :: pystr
  rd_renewed :: bool
  rd_weights_hash :: pystr
  rd_manifest_hash :: pystr
  rd_challenge_nonce_hash :: pystr
  rd_evidence_hash :: pystr
  rd_issued_at :: pystr
  rd_expires_at :: pystr
  rd_evidence_expires_at :: "pystr option"
  rd_checks :: "check_dict list"
  rd_public_key_b64url :: pystr
  rd_signature_b64url :: pystr

text \<open>\<open>signing_payload\<close>; again a \<open>None\<close> member is dropped by the canonicalizer.\<close>

definition rd_signing_payload :: "renewal_decision \<Rightarrow> json" where
  "rd_signing_payload d = JDict (present
     [(''kind'', Some (JStr (rd_kind d))), (''algorithm'', Some (JStr (rd_algorithm d))),
      (''renewed'', Some (JBool (rd_renewed d))),
      (''weights_hash'', Some (JStr (rd_weights_hash d))),
      (''manifest_hash'', Some (JStr (rd_manifest_hash d))),
      (''challenge_nonce_hash'', Some (JStr (rd_challenge_nonce_hash d))),
      (''evidence_hash'', Some (JStr (rd_evidence_hash d))),
      (''issued_at'', Some (JStr (rd_issued_at d))), (''expires_at'', Some (JStr (rd_expires_at d))),
      (''evidence_expires_at'', map_option JStr (rd_evidence_expires_at d)),
      (''checks'', Some (JList (map JDict (rd_checks d)))),
      (''public_key_b64url'', Some (JStr (rd_public_key_b64url d)))])"

definition renewal_id :: "('x) crypto_scheme \<Rightarrow> renewal_decision \<Rightarrow> pystr result" where
  "renewal_id cr d = canon_hash cr (rd_signing_payload d)"

definition unb64url :: "pystr \<Rightarrow> bytes result" where
  "unb64url value = (if value = [] then Inl (ValueError (us ''invalid base64url'')) else b64url_decode value)"

text \<open>\<open>RenewalDecision.verify\<close>: only \<open>ValueError\<close> and \<open>InvalidSignature\<close> are caught.\<close>

definition rd_verify :: "('x) crypto_scheme \<Rightarrow> renewal_decision \<Rightarrow> pystr \<Rightarrow> bool result" where
  "rd_verify cr d expected_public_key_b64url =
     (if rd_kind d \<noteq> us ''wcm-renewal/v1'' \<or> rd_algorithm d \<noteq> us ''Ed25519'' \<or>
         rd_public_key_b64url d \<noteq> expected_public_key_b64url
      then Inr False
      else
        (case rbind (unb64url (rd_public_key_b64url d)) (\<lambda>pub.
              rbind (raise_if (\<not> ed_load cr pub) (ValueError (us ''invalid public key''))) (\<lambda>_.
              rbind (unb64url (rd_signature_b64url d)) (\<lambda>sig.
              rbind (canon_bytes cr (rd_signing_payload d)) (\<lambda>msg.
              raise_if (\<not> ed_verify cr pub sig msg) (InvalidSignature []))))) of
           Inr _ \<Rightarrow> Inr True
         | Inl e \<Rightarrow> if is_ValueError e \<or> is_InvalidSignature e then Inr False else Inl e))"

definition renewal_public_key :: "('x) crypto_scheme \<Rightarrow> bytes \<Rightarrow> pystr" where
  "renewal_public_key cr signing_key = b64url_encode (ed_public cr signing_key)"

definition sign_renewal_decision ::
  "('x) crypto_scheme \<Rightarrow> bytes \<Rightarrow> bool \<Rightarrow> manifest \<Rightarrow> composite_evidence \<Rightarrow> pystr \<Rightarrow> pystr
     \<Rightarrow> check_dict list \<Rightarrow> pystr option \<Rightarrow> renewal_decision result" where
  "sign_renewal_decision cr signing_key renewed manifest evidence issued_at expires_at checks evidence_expires_at =
     rbind (manifest_identity cr manifest) (\<lambda>mh.
     rbind (nonce_hash cr (cq_nonce_echo (ev_cpu evidence))) (\<lambda>nh.
     rbind (evidence_identity cr evidence) (\<lambda>eh.
     let unsigned =
       \<lparr>rd_kind = us ''wcm-renewal/v1'', rd_algorithm = us ''Ed25519'', rd_renewed = renewed,
        rd_weights_hash = m_weights_hash manifest, rd_manifest_hash = mh,
        rd_challenge_nonce_hash = nh, rd_evidence_hash = eh,
        rd_issued_at = issued_at, rd_expires_at = expires_at,
        rd_evidence_expires_at = evidence_expires_at, rd_checks = checks,
        rd_public_key_b64url = renewal_public_key cr signing_key, rd_signature_b64url = []\<rparr>
     in rbind (canon_bytes cr (rd_signing_payload unsigned)) (\<lambda>msg.
        Inr (unsigned\<lparr>rd_signature_b64url := b64url_encode (ed_sign cr signing_key msg)\<rparr>)))))"

subsection \<open>Properties of identities and decisions\<close>

lemma manifest_identity_eq:
  "manifest_identity cr m = rbind (canon_bytes cr (JDict (unsigned_dict m))) (\<lambda>p. Inr (prefixed_sha256 cr p))"
  by (simp add: manifest_identity_def pre_image_ignores_signatures)

text \<open>The strings two manifests have hashed for their identities.\<close>

definition manifest_hashed :: "('x) crypto_scheme \<Rightarrow> manifest \<Rightarrow> bytes set" where
  "manifest_hashed cr m = (case signing_pre_image cr (dump_manifest m) of Inr p \<Rightarrow> {p} | Inl e \<Rightarrow> {})"

lemma manifest_identity_eqD:
  assumes "exact (JDict (unsigned_dict m))" and "exact (JDict (unsigned_dict m'))"
    and "manifest_identity cr m = Inr h" and "manifest_identity cr m' = Inr h"
    and "inj_on (sha256 cr) (manifest_hashed cr m \<union> manifest_hashed cr m')"
  shows "signed_part m = signed_part m'"
proof -
  obtain p q where p: "signing_pre_image cr (dump_manifest m) = Inr p" "h = prefixed_sha256 cr p"
    and q: "signing_pre_image cr (dump_manifest m') = Inr q" "h = prefixed_sha256 cr q"
    using assms(3,4) by (auto simp: manifest_identity_def rbind_Inr_iff)
  have "p \<in> manifest_hashed cr m \<union> manifest_hashed cr m'" "q \<in> manifest_hashed cr m \<union> manifest_hashed cr m'"
    by (simp_all add: manifest_hashed_def p(1) q(1))
  moreover have "sha256 cr p = sha256 cr q" using p(2) q(2) by (simp add: prefixed_sha256_eq)
  ultimately have "p = q" by - (rule inj_onD [OF assms(5)])
  then show ?thesis
    using canonicalize_inj [OF assms(1,2)] p(1) q(1)
    by (intro unsigned_dict_inj) (simp add: pre_image_ignores_signatures)
qed

lemma rd_verify_True_iff:
  "rd_verify cr d k = Inr True \<longleftrightarrow>
     rd_kind d = us ''wcm-renewal/v1'' \<and> rd_algorithm d = us ''Ed25519'' \<and> rd_public_key_b64url d = k \<and>
     (\<exists>pub sig msg. unb64url k = Inr pub \<and> ed_load cr pub \<and> unb64url (rd_signature_b64url d) = Inr sig \<and>
        canon_bytes cr (rd_signing_payload d) = Inr msg \<and> ed_verify cr pub sig msg)"
  by (auto simp: rd_verify_def rbind_Inr_iff split: sum.splits if_splits)

lemma unb64url_encode: "x \<noteq> [] \<Longrightarrow> unb64url (b64url_encode x) = Inr x"
proof -
  assume "x \<noteq> []"
  then have "b64url_encode x \<noteq> []" using b64url_encode_inj [of x "[]"] by (auto simp: b64url_encode_def)
  then show ?thesis by (simp add: unb64url_def b64url_decode_encode)
qed

lemma rd_signing_payload_ignores_signature [simp]:
  "rd_signing_payload (d\<lparr>rd_signature_b64url := s\<rparr>) = rd_signing_payload d"
  by (simp add: rd_signing_payload_def)

lemma sign_renewal_fields:
  assumes "sign_renewal_decision cr sk renewed m ev iat xat cs eea = Inr d"
  shows "\<exists>msg. canon_bytes cr (rd_signing_payload d) = Inr msg \<and> rd_signature_b64url d = b64url_encode (ed_sign cr sk msg)"
    and "rd_kind d = us ''wcm-renewal/v1''" "rd_algorithm d = us ''Ed25519''" "rd_public_key_b64url d = renewal_public_key cr sk"
    and "manifest_identity cr m = Inr (rd_manifest_hash d)" "evidence_identity cr ev = Inr (rd_evidence_hash d)"
      "nonce_hash cr (cq_nonce_echo (ev_cpu ev)) = Inr (rd_challenge_nonce_hash d)"
    and "rd_renewed d = renewed" "rd_checks d = cs" "rd_weights_hash d = m_weights_hash m"
    and "rd_issued_at d = iat" "rd_expires_at d = xat" "rd_evidence_expires_at d = eea"
  using assms by (auto simp: sign_renewal_decision_def rbind_Inr_iff Let_def rd_signing_payload_def)

lemma sign_renewal_verifies:
  assumes "ed_correct cr" and "ed_load cr (ed_public cr sk)" and "ed_public cr sk \<noteq> []"
    and "sign_renewal_decision cr sk renewed m ev iat xat cs eea = Inr d"
  shows "rd_verify cr d k = Inr True \<longleftrightarrow> k = renewal_public_key cr sk"
proof -
  note f = sign_renewal_fields [OF assms(4)]
  from f(1) obtain msg where msg: "canon_bytes cr (rd_signing_payload d) = Inr msg"
    and sg: "rd_signature_b64url d = b64url_encode (ed_sign cr sk msg)" by blast
  have "length (ed_sign cr sk msg) = 64" using assms(1) by (simp add: ed_correct_def)
  then have "ed_sign cr sk msg \<noteq> []" by force
  then have "unb64url (rd_signature_b64url d) = Inr (ed_sign cr sk msg)" by (simp add: sg unb64url_encode)
  with f(2-4) msg assms(1-3) show ?thesis
    by (auto simp: rd_verify_True_iff renewal_public_key_def unb64url_encode ed_correct_def)
qed

text \<open>
  A decision produced by the signer verifies under the signer's public key, is
  refused under every other expected key, and carries the identities of the manifest, the
  evidence and the nonce it was made for.
\<close>

theorem renewal_sign_verifies:
  assumes "ed_correct cr" and "ed_load cr (ed_public cr sk)" and "ed_public cr sk \<noteq> []"
    and "sign_renewal_decision cr sk renewed m ev iat xat cs eea = Inr d"
  shows "(rd_verify cr d k = Inr True \<longleftrightarrow> k = renewal_public_key cr sk) \<and>
    manifest_identity cr m = Inr (rd_manifest_hash d) \<and>
    evidence_identity cr ev = Inr (rd_evidence_hash d) \<and>
    nonce_hash cr (cq_nonce_echo (ev_cpu ev)) = Inr (rd_challenge_nonce_hash d) \<and>
    rd_renewed d = renewed \<and> rd_checks d = cs"
  using sign_renewal_fields [OF assms(4)] sign_renewal_verifies [OF assms] by simp

subsection \<open>A concrete decision\<close>

definition demo_evidence :: composite_evidence where
  "demo_evidence =
     \<lparr>ev_cpu = \<lparr>cq_platform = us ''amd-sev-snp'', cq_assurance_tier = us ''hardware-attested'',
        cq_serving_image_measurement = demo_hash 1, cq_nonce_echo = us ''n'',
        cq_attestation_key_id = us ''vcek'', cq_attestation_key_cache_age_seconds = 0,
        cq_quote_b64 = None, cq_transport_public_key = None\<rparr>,
      ev_gpu = None, ev_memory_fingerprint = None\<rparr>"

lemma demo_manifest_identity: "\<exists>h. manifest_identity demo_crypto demo_manifest = Inr h"
  using canonicalize_clean [OF demo_manifest_clean, of "frepr demo_crypto" True] by (auto simp: manifest_identity_eq)

lemma demo_evidence_clean: "clean (nfc demo_crypto) 64 (dump_evidence demo_evidence)"
  by (simp add: demo_evidence_def dump_evidence_def dump_cpu_quote_def present_def map_filter_simps
      demo_crypto_def clean_str_def nat_str.simps)

lemma demo_evidence_identity: "\<exists>h. evidence_identity demo_crypto demo_evidence = Inr h"
  using canonicalize_clean [OF demo_evidence_clean, of "frepr demo_crypto" True] by (auto simp: evidence_identity_eq)

lemma nfc_demo [simp]: "nfc demo_crypto s" "hf_sha256 (hf demo_crypto) = (\<lambda>m. take 32 (m @ replicate 32 0))"
  by (simp_all add: demo_crypto_def)

lemma sign_renewal_total:
  assumes "manifest_identity cr m = Inr mh" "nonce_hash cr (cq_nonce_echo (ev_cpu ev)) = Inr nh"
    and "evidence_identity cr ev = Inr eh"
    and "clean (nfc cr) 64 (rd_signing_payload
       \<lparr>rd_kind = us ''wcm-renewal/v1'', rd_algorithm = us ''Ed25519'', rd_renewed = renewed,
        rd_weights_hash = m_weights_hash m, rd_manifest_hash = mh,
        rd_challenge_nonce_hash = nh, rd_evidence_hash = eh,
        rd_issued_at = iat, rd_expires_at = xat,
        rd_evidence_expires_at = eea, rd_checks = cs,
        rd_public_key_b64url = renewal_public_key cr sk, rd_signature_b64url = []\<rparr>)"
  shows "\<exists>d. sign_renewal_decision cr sk renewed m ev iat xat cs eea = Inr d"
  using canonicalize_clean [OF assms(4), of "frepr cr" True] assms(1-3)
  by (auto simp: sign_renewal_decision_def Let_def)

lemma no_surrogates_prefixed [simp]: "no_surrogates (prefixed_sha256 cr x)"
  by (simp add: prefixed_sha256_def)

lemma identity_no_surrogates:
  "manifest_identity cr m = Inr h \<Longrightarrow> no_surrogates h"
  "evidence_identity cr e = Inr h \<Longrightarrow> no_surrogates h"
  "nonce_hash cr n = Inr h \<Longrightarrow> no_surrogates h"
  by (auto simp: manifest_identity_def evidence_identity_eq nonce_hash_def rbind_Inr_iff)

theorem renewal_sign_verifies_witness:
  "\<exists>d. sign_renewal_decision demo_crypto [5] True demo_manifest demo_evidence [] [] [] None = Inr d \<and>
     (rd_verify demo_crypto d (us ''x'') = Inr True \<longleftrightarrow> us ''x'' = renewal_public_key demo_crypto [5]) \<and>
     rd_renewed d"
proof -
  obtain mh eh where ids: "manifest_identity demo_crypto demo_manifest = Inr mh"
    "evidence_identity demo_crypto demo_evidence = Inr eh"
    using demo_manifest_identity demo_evidence_identity by blast
  obtain nh where nh: "nonce_hash demo_crypto (cq_nonce_echo (ev_cpu demo_evidence)) = Inr nh"
    by (auto simp: nonce_hash_def demo_evidence_def utf8_encode_def)
  have "\<exists>d. sign_renewal_decision demo_crypto [5] True demo_manifest demo_evidence [] [] [] None = Inr d"
    using identity_no_surrogates(1) [OF ids(1)] identity_no_surrogates(2) [OF ids(2)]
      identity_no_surrogates(3) [OF nh]
    by (intro sign_renewal_total [OF ids(1) nh ids(2)])
       (simp add: rd_signing_payload_def present_def map_filter_simps clean_str_def
          renewal_public_key_def demo_manifest_def)
  then obtain d where d: "sign_renewal_decision demo_crypto [5] True demo_manifest demo_evidence [] [] [] None = Inr d" ..
  have "ed_correct demo_crypto" "ed_load demo_crypto (ed_public demo_crypto [5])" "ed_public demo_crypto [5] \<noteq> []"
    by (simp_all add: demo_crypto_def ed_correct_def)
  from renewal_sign_verifies [OF this d, of "us ''x''"] d show ?thesis by blast
qed

lemma evidence_identity_eqD:
  assumes "exact (dump_evidence e)" and "exact (dump_evidence e')"
    and "evidence_identity cr e = Inr h" and "evidence_identity cr e' = Inr h"
    and "inj_on (sha256 cr) {p. canon_bytes cr (dump_evidence e) = Inr p \<or> canon_bytes cr (dump_evidence e') = Inr p}"
  shows "e = e'"
proof -
  obtain p q where p: "canon_bytes cr (dump_evidence e) = Inr p" "h = prefixed_sha256 cr p"
    and q: "canon_bytes cr (dump_evidence e') = Inr q" "h = prefixed_sha256 cr q"
    using assms(3,4) by (auto simp: evidence_identity_eq rbind_Inr_iff)
  have "sha256 cr p = sha256 cr q" using p(2) q(2) by (simp add: prefixed_sha256_eq)
  with p(1) q(1) have "p = q" by - (rule inj_onD [OF assms(5)], simp_all)
  with p(1) q(1) show ?thesis
    by (intro dump_evidence_inj) (rule canonicalize_inj [OF assms(1,2)], simp_all)
qed

subsection \<open>Release decisions (\<open>kbs.py\<close>)\<close>

record check_result =
  cr_name :: pystr
  cr_passed :: bool
  cr_detail :: "pystr option"

record release_decision =
  dec_released :: bool
  dec_key :: "bytes option"
  dec_checks :: "check_result list"
  dec_evidence_not_after :: "time option"
  dec_sealed_key :: "bytes option"
  dec_manifest_hash :: "pystr option"
  dec_renewal_public_key_b64url :: "pystr option"

definition dec_failures :: "release_decision \<Rightarrow> check_result list" where
  "dec_failures d = filter (\<lambda>c. \<not> cr_passed c) (dec_checks d)"

text \<open>\<open>dataclasses.asdict\<close> of a check result.\<close>

definition check_asdict :: "check_result \<Rightarrow> check_dict" where
  "check_asdict c = [(us ''name'', JStr (cr_name c)), (us ''passed'', JBool (cr_passed c)),
     (us ''detail'', case cr_detail c of None \<Rightarrow> JNull | Some t \<Rightarrow> JStr t)]"

end
