(* ===== verification/Seal.thy ===== *)
theory Seal
  imports Signing
begin

section \<open>Sealing a key to a transport key (\<open>_seal.py\<close>)\<close>

text \<open>
  Ephemeral-static X25519, HKDF-SHA256 and ChaCha20-Poly1305 as the module composes them.
  The primitives are fields of the parameter record \<open>env\<close>, which also carries the parts of
  the interpreter the later components use. The ephemeral private key and the AEAD nonce the
  source draws at random are arguments.
\<close>

datatype pydt = Naive time | Aware time

text \<open>
  \<open>x_exchange\<close> is \<open>None\<close> where the package raises \<open>ValueError\<close> (a low-order point);
  \<open>aead_dec\<close> is \<open>None\<close> where it raises \<open>InvalidTag\<close>; \<open>from_iso\<close> is
  \<open>datetime.fromisoformat\<close>, \<open>None\<close> where it raises; \<open>udecimal\<close> is the decimal value of
  a code point of the Unicode class \<open>Nd\<close>.
\<close>

record env = crypto +
  x_public :: "bytes \<Rightarrow> bytes"
  x_exchange :: "bytes \<Rightarrow> bytes \<Rightarrow> bytes option"
  hkdf :: "bytes \<Rightarrow> bytes \<Rightarrow> bytes" \<comment> \<open>info, input key material\<close>
  aead_enc :: "bytes \<Rightarrow> bytes \<Rightarrow> bytes \<Rightarrow> bytes \<Rightarrow> bytes" \<comment> \<open>key, nonce, payload, aad\<close>
  aead_dec :: "bytes \<Rightarrow> bytes \<Rightarrow> bytes \<Rightarrow> bytes \<Rightarrow> bytes option"
  from_iso :: "pystr \<Rightarrow> pydt option"
  iso_format :: "time \<Rightarrow> pystr"
  udecimal :: "nat \<Rightarrow> nat option"

definition seal_VERSION :: byte where "seal_VERSION = 1"
definition EPH_LEN :: nat where "EPH_LEN = 32"
definition NONCE_LEN :: nat where "NONCE_LEN = 12"
definition HEADER_LEN :: nat where "HEADER_LEN = 1 + EPH_LEN + NONCE_LEN"
definition TAG_LEN :: nat where "TAG_LEN = 16"

lemmas seal_consts = seal_VERSION_def EPH_LEN_def NONCE_LEN_def HEADER_LEN_def TAG_LEN_def

definition ascii :: "string \<Rightarrow> bytes" where
  "ascii s = map (\<lambda>c. of_nat (of_char c)) s"

definition derive_key :: "('x) env_scheme \<Rightarrow> bytes \<Rightarrow> bytes \<Rightarrow> bytes \<Rightarrow> bytes" where
  "derive_key env shared eph_pub peer_pub =
     hkdf env (ascii ''wcm/sealed-key/v1'') (eph_pub @ peer_pub @ shared)"

definition generate_transport_keypair :: "('x) env_scheme \<Rightarrow> bytes \<Rightarrow> bytes \<times> pystr" where
  "generate_transport_keypair env priv = (priv, hex_of_bytes (x_public env priv))"

definition seal_to_public_key ::
  "('x) env_scheme \<Rightarrow> bytes \<Rightarrow> bytes \<Rightarrow> pystr \<Rightarrow> bytes \<Rightarrow> bytes \<Rightarrow> bytes result" where
  "seal_to_public_key env eph nonce recipient_pub_hex payload aad =
     (case bytes_fromhex recipient_pub_hex of
        None \<Rightarrow> Inl (SealError (us ''invalid recipient transport public key''))
      | Some recipient \<Rightarrow>
          if length recipient \<noteq> 32 then Inl (SealError (us ''invalid recipient transport public key''))
          else let eph_pub = x_public env eph in
            case x_exchange env eph recipient of
              None \<Rightarrow> Inl (SealError (us ''recipient transport public key is a low-order point''))
            | Some shared \<Rightarrow>
                let key = derive_key env shared eph_pub recipient;
                    ct = aead_enc env key nonce payload aad
                in Inr (seal_VERSION # eph_pub @ nonce @ ct))"

definition open_sealed :: "('x) env_scheme \<Rightarrow> bytes \<Rightarrow> bytes \<Rightarrow> bytes \<Rightarrow> bytes result" where
  "open_sealed env blob private_key aad =
     (if length blob < HEADER_LEN + TAG_LEN then Inl (SealError (us ''sealed blob too short''))
      else if hd blob \<noteq> seal_VERSION then Inl (SealError (us ''unsupported sealed-blob version''))
      else let eph_pub = slice 1 (1 + EPH_LEN) blob;
               nonce = slice (1 + EPH_LEN) HEADER_LEN blob;
               ct = drop HEADER_LEN blob;
               peer_pub = x_public env private_key
           in case x_exchange env private_key eph_pub of
                None \<Rightarrow> Inl (SealError (us ''could not open sealed key''))
              | Some shared \<Rightarrow>
                  (case aead_dec env (derive_key env shared eph_pub peer_pub) nonce ct aad of
                     None \<Rightarrow> Inl (SealError (us ''could not open sealed key''))
                   | Some payload \<Rightarrow> Inr payload))"

subsection \<open>Properties\<close>

text \<open>What the module relies on of the package.\<close>

definition dh_correct :: "('x) env_scheme \<Rightarrow> bool" where
  "dh_correct env \<longleftrightarrow> (\<forall>a b. length (x_public env a) = 32 \<and>
     x_exchange env a (x_public env b) = x_exchange env b (x_public env a))"

definition aead_correct :: "('x) env_scheme \<Rightarrow> bool" where
  "aead_correct env \<longleftrightarrow> (\<forall>k n p aad. length (aead_enc env k n p aad) = length p + 16 \<and>
     aead_dec env k n (aead_enc env k n p aad) aad = Some p)"

lemma slice_header:
  assumes "length e = 32" "length n = 12"
  shows "slice 1 (1 + EPH_LEN) (v # e @ n @ c) = e"
    "slice (1 + EPH_LEN) HEADER_LEN (v # e @ n @ c) = n" "drop HEADER_LEN (v # e @ n @ c) = c"
  using assms by (simp_all add: slice_def seal_consts)

lemma seal_open:
  assumes "dh_correct env" "aead_correct env" "length nonce = 12"
    and "bytes_fromhex pub_hex = Some (x_public env sk)"
    and "seal_to_public_key env eph nonce pub_hex payload aad = Inr blob"
  shows "open_sealed env blob sk aad = Inr payload"
proof -
  have eph: "length (x_public env eph) = 32" using assms(1) by (simp add: dh_correct_def)
  obtain shared where sh: "x_exchange env eph (x_public env sk) = Some shared"
    and blob: "blob = seal_VERSION # x_public env eph @ nonce @
      aead_enc env (derive_key env shared (x_public env eph) (x_public env sk)) nonce payload aad"
    using assms(4,5) by (auto simp: seal_to_public_key_def Let_def split: if_splits option.splits)
  have ex: "x_exchange env sk (x_public env eph) = Some shared"
    using sh assms(1) by (metis dh_correct_def)
  have len: "\<not> length blob < HEADER_LEN + TAG_LEN"
    using assms(2,3) eph by (simp add: blob aead_correct_def seal_consts)
  have "aead_dec env (derive_key env shared (x_public env eph) (x_public env sk)) nonce
      (aead_enc env (derive_key env shared (x_public env eph) (x_public env sk)) nonce payload aad) aad = Some payload"
    using assms(2) by (simp add: aead_correct_def)
  moreover have "slice 1 (1 + EPH_LEN) blob = x_public env eph" "slice (1 + EPH_LEN) HEADER_LEN blob = nonce"
    "drop HEADER_LEN blob =
       aead_enc env (derive_key env shared (x_public env eph) (x_public env sk)) nonce payload aad"
    "hd blob = seal_VERSION"
    unfolding blob by (simp_all only: slice_header [OF eph assms(3)] list.sel)
  ultimately show ?thesis
    using ex len by (simp only: open_sealed_def Let_def) simp
qed

end
