(* ===== verification/Custody.thy ===== *)
theory Custody
  imports Renewal Seal
begin

section \<open>Wipe-on-lapse custody (\<open>custody.py\<close>)\<close>

text \<open>
  The enclave's custody of one released key: parsing the cadence, the session's state
  machine (tick, re-attest, apply a signed renewal, authorize an operation, hand out the key,
  zeroize), the idle monitor and the once-only teardown adapter. The teardown hook is code of
  the deployment: it acts on a world of type \<open>'w\<close> and may raise. An operation takes the
  clock reading the source takes (its \<open>now\<close> argument or one call of the clock), the session
  and the world, and returns its outcome with the new session and world, so that a raise keeps
  the state it leaves behind.
\<close>

subsection \<open>Cadence\<close>

text \<open>\<open>int(text)\<close> of decimal digits.\<close>

definition digits_value :: "('x) env_scheme \<Rightarrow> pystr \<Rightarrow> int" where
  "digits_value env ds = foldl (\<lambda>n c. 10 * n + (case udecimal env c of Some d \<Rightarrow> int d | None \<Rightarrow> 0)) 0 ds"

definition CADENCE_UNITS :: "nat \<Rightarrow> int option" where
  "CADENCE_UNITS c = (if c = 100 then Some 86400 else if c = 104 then Some 3600
     else if c = 109 then Some 60 else if c = 115 then Some 1 else None)"

definition parse_cadence :: "('x) env_scheme \<Rightarrow> pystr \<Rightarrow> int result" where
  "parse_cadence env text =
     (let bad = Inl (ValueError (us ''invalid cadence''));
          t = dropWhile re_space text;
          ds = takeWhile (\<lambda>c. udecimal env c \<noteq> None) t;
          r = dropWhile re_space (dropWhile (\<lambda>c. udecimal env c \<noteq> None) t)
      in if ds = [] then bad
         else case r of [] \<Rightarrow> bad
           | u # rest \<Rightarrow>
               (case CADENCE_UNITS u of
                  None \<Rightarrow> bad
                | Some unit_seconds \<Rightarrow>
                    if \<not> list_all re_space rest then bad
                    else if length ds > 4300
                    then Inl (ValueError (us ''Exceeds the limit for integer string conversion''))
                    else let value = digits_value env ds in
                      if value = 0 then Inl (ValueError (us ''cadence must be greater than zero''))
                      else Inr (value * unit_seconds)))"

subsection \<open>Session state\<close>

datatype session_state = holding | wiped
datatype time_floor = floor_sound | floor_weaker | floor_none
datatype stop_floor = stop_adapter | stop_none

definition FLOOR :: "trusted_time_source \<Rightarrow> time_floor" where
  "FLOOR t = (case t of secure_tsc \<Rightarrow> floor_sound | lease_with_op_count_hybrid \<Rightarrow> floor_weaker
     | none_best_effort \<Rightarrow> floor_none)"

type_synonym 'w hook = "'w \<Rightarrow> exn option \<times> 'w"

text \<open>\<open>ses_old\<close> is what the bytearray that held the key contains after the session dropped it.\<close>

record 'w session =
  ses_key :: bytes
  ses_old :: "bytes option"
  ses_cadence :: int
  ses_tts :: trusted_time_source
  ses_max_ops :: "int option"
  ses_ops :: int
  ses_weights_hash :: "pystr option"
  ses_manifest_hash :: "pystr option"
  ses_renewal_public_key :: "pystr option"
  ses_used_renewals :: "pystr set"
  ses_on_stop :: "'w hook option"
  ses_state :: session_state
  ses_deadline :: time

type_synonym ('a, 'w) op = "'w session \<Rightarrow> 'w \<Rightarrow> 'a result \<times> 'w session \<times> 'w"

definition oret :: "'a \<Rightarrow> ('a, 'w) op" where
  "oret x s w = (Inr x, s, w)"

definition olift :: "'a result \<Rightarrow> ('a, 'w) op" where
  "olift r s w = (r, s, w)"

definition obind :: "('a, 'w) op \<Rightarrow> ('a \<Rightarrow> ('b, 'w) op) \<Rightarrow> ('b, 'w) op" where
  "obind m f s w = (case m s w of (Inl e, s', w') \<Rightarrow> (Inl e, s', w') | (Inr x, s', w') \<Rightarrow> f x s' w')"

text \<open>The latest instant a \<open>datetime\<close> holds; addition beyond it raises \<open>OverflowError\<close>.\<close>

definition max_time :: time where
  "max_time = 253402300799999999"

definition time_add :: "time \<Rightarrow> int \<Rightarrow> time result" where
  "time_add t s = (if t + secs s \<le> max_time then Inr (t + secs s) else Inl OverflowError)"

definition new_session ::
  "bytes \<Rightarrow> int \<Rightarrow> trusted_time_source \<Rightarrow> int option \<Rightarrow> pystr option \<Rightarrow> pystr option \<Rightarrow> pystr option
     \<Rightarrow> time \<Rightarrow> 'w hook option \<Rightarrow> 'w session result" where
  "new_session key cadence_seconds tts max_operations weights_hash manifest_hash renewal_pk now on_stop =
     (if cadence_seconds \<le> 0 then Inl (ValueError (us ''cadence_seconds must be greater than zero''))
      else if (case max_operations of None \<Rightarrow> False | Some n \<Rightarrow> n \<le> 0)
      then Inl (ValueError (us ''max_operations must be greater than zero when set''))
      else rbind (time_add now cadence_seconds) (\<lambda>deadline.
        Inr \<lparr>ses_key = key, ses_old = None, ses_cadence = cadence_seconds, ses_tts = tts,
             ses_max_ops = max_operations, ses_ops = 0, ses_weights_hash = weights_hash,
             ses_manifest_hash = manifest_hash, ses_renewal_public_key = renewal_pk,
             ses_used_renewals = {}, ses_on_stop = on_stop, ses_state = holding,
             ses_deadline = deadline\<rparr>))"

definition from_release ::
  "('x) env_scheme \<Rightarrow> manifest \<Rightarrow> release_decision \<Rightarrow> int option \<Rightarrow> time \<Rightarrow> 'w hook option
     \<Rightarrow> bytes option \<Rightarrow> 'w session result" where
  "from_release env manifest decision max_operations now on_stop transport_private_key =
     rbind (if dec_released decision \<and> dec_key decision = None \<and> dec_sealed_key decision \<noteq> None
            then case transport_private_key of
                None \<Rightarrow> Inl (ValueError (us ''cannot start custody: the key was released sealed and no transport_private_key was given to open it''))
              | Some sk \<Rightarrow>
                  (case open_sealed env (the (dec_sealed_key decision)) sk [] of
                     Inr k \<Rightarrow> Inr (Some k)
                   | Inl e \<Rightarrow> Inl (ValueError (us ''cannot start custody: sealed key did not open'')))
            else Inr (dec_key decision)) (\<lambda>key.
     rbind (raise_if (\<not> dec_released decision \<or> key = None)
              (ValueError (us ''cannot start custody: the release decision has no key''))) (\<lambda>_.
     rbind (case dec_manifest_hash decision of
              None \<Rightarrow> Inr ()
            | Some h \<Rightarrow> rbind (manifest_identity env manifest) (\<lambda>i.
                raise_if (h \<noteq> i) (ValueError (us ''cannot start custody: the manifest is not the one this key was released against'')))) (\<lambda>_.
     rbind (parse_cadence env (cu_attestation_cadence (m_custody manifest))) (\<lambda>cadence.
       new_session (the key) cadence (rp_trusted_time_source (m_release_policy manifest)) max_operations
         (Some (m_weights_hash manifest)) (dec_manifest_hash decision)
         (dec_renewal_public_key_b64url decision) now on_stop))))"

subsection \<open>Properties of the object\<close>

definition is_wiped :: "'w session \<Rightarrow> bool" where
  "is_wiped s \<longleftrightarrow> ses_state s = wiped"

definition ses_time_floor :: "'w session \<Rightarrow> time_floor" where
  "ses_time_floor s = FLOOR (ses_tts s)"

definition ses_stop_floor :: "'w session \<Rightarrow> stop_floor" where
  "ses_stop_floor s = (if ses_on_stop s = None then stop_none else stop_adapter)"

text \<open>In microseconds; the source converts to seconds as a \<open>float\<close>.\<close>

definition remaining_us :: "time \<Rightarrow> 'w session \<Rightarrow> int" where
  "remaining_us now s = (if ses_state s = wiped then 0 else max 0 (ses_deadline s - now))"

definition operations_remaining :: "'w session \<Rightarrow> int option" where
  "operations_remaining s = map_option (\<lambda>n. max 0 (n - ses_ops s)) (ses_max_ops s)"

subsection \<open>Transitions\<close>

definition zeroize :: "(unit, 'w) op" where
  "zeroize s w =
     (if ses_state s = wiped then (Inr (), s, w)
      else let s' = s\<lparr>ses_state := wiped, ses_old := Some (map (\<lambda>_. 0) (ses_key s)), ses_key := []\<rparr>
           in case ses_on_stop s of
                None \<Rightarrow> (Inr (), s', w)
              | Some hook \<Rightarrow> (case hook w of (None, w') \<Rightarrow> (Inr (), s', w') | (Some e, w') \<Rightarrow> (Inl e, s', w')))"

definition tick :: "time \<Rightarrow> (session_state, 'w) op" where
  "tick current s w =
     (if ses_state s = wiped then (Inr wiped, s, w)
      else if current \<ge> ses_deadline s
      then obind zeroize (\<lambda>_ s w. (Inr (ses_state s), s, w)) s w
      else (Inr (ses_state s), s, w))"

definition reattest :: "time \<Rightarrow> (unit, 'w) op" where
  "reattest current =
     obind (tick current) (\<lambda>st s w.
       if st = wiped then (Inl (KeyWipedError (us ''re-attestation too late'')), s, w)
       else case time_add current (ses_cadence s) of
         Inl e \<Rightarrow> (Inl e, s, w)
       | Inr d \<Rightarrow> (Inr (), s\<lparr>ses_deadline := d, ses_ops := 0\<rparr>, w))"

definition authorize_operation :: "time \<Rightarrow> (unit, 'w) op" where
  "authorize_operation now =
     obind (tick now) (\<lambda>st s w.
       if st = wiped then (Inl (KeyWipedError (us ''key has been zeroized (cadence lapsed)'')), s, w)
       else case ses_max_ops s of
         Some n \<Rightarrow>
           (if ses_ops s \<ge> n then (Inl (ReattestationRequired n), s, w)
            else (Inr (), s\<lparr>ses_ops := ses_ops s + 1\<rparr>, w))
       | None \<Rightarrow> (Inr (), s\<lparr>ses_ops := ses_ops s + 1\<rparr>, w))"

definition use_key :: "time \<Rightarrow> (bytes, 'w) op" where
  "use_key now = obind (authorize_operation now) (\<lambda>_ s w. (Inr (ses_key s), s, w))"

subsection \<open>Applying a signed renewal\<close>

definition check_name :: "check_dict \<Rightarrow> pystr option" where
  "check_name c = (case map_of c (us ''name'') of Some (JStr n) \<Rightarrow> Some n | _ \<Rightarrow> None)"

definition check_passed :: "check_dict \<Rightarrow> bool" where
  "check_passed c \<longleftrightarrow> map_of c (us ''passed'') = Some (JBool True)"

definition checks_complete :: "check_dict list \<Rightarrow> bool" where
  "checks_complete cs \<longleftrightarrow>
     list_all (\<lambda>c. check_name c \<noteq> None) cs \<and> distinct (map check_name cs) \<and>
     list_all (\<lambda>n. Some n \<in> set (map check_name cs)) REQUIRED_RENEWAL_CHECKS"

definition failed_check_names :: "renewal_decision \<Rightarrow> pystr list" where
  "failed_check_names d =
     List.map_filter check_name (filter (\<lambda>c. \<not> check_passed c) (rd_checks d))"

text \<open>\<open>text.replace("Z", "+00:00")\<close>\<close>

definition replace_Z :: "pystr \<Rightarrow> pystr" where
  "replace_Z t = concat (map (\<lambda>c. if c = 90 then us ''+00:00'' else [c]) t)"

definition parse_stamp :: "('x) env_scheme \<Rightarrow> pystr \<Rightarrow> time option" where
  "parse_stamp env t =
     (if t = [] \<or> last t \<noteq> 90 then None
      else case from_iso env (replace_Z t) of Some (Aware x) \<Rightarrow> Some x | _ \<Rightarrow> None)"

definition renewal_gate ::
  "('x) env_scheme \<Rightarrow> manifest \<Rightarrow> renewal_decision \<Rightarrow> time \<Rightarrow> composite_evidence \<Rightarrow> 'w session \<Rightarrow> unit result" where
  "renewal_gate env manifest decision current evidence s =
     (case (ses_manifest_hash s, ses_renewal_public_key s) of
        (Some mh, Some pk) \<Rightarrow>
     rbind (rd_verify env decision pk) (\<lambda>ok.
     rbind (raise_if (\<not> ok) (ValueError (us ''renewal decision signature or signer is invalid''))) (\<lambda>_.
     rbind (raise_if (rd_renewed decision \<and> \<not> checks_complete (rd_checks decision))
              (ValueError (us ''renewal decision omits required gates''))) (\<lambda>_.
     rbind (raise_if (rd_renewed decision \<and> \<not> list_all check_passed (rd_checks decision))
              (ValueError (us ''renewal decision claims success over a failed gate''))) (\<lambda>_.
     rbind (raise_if (Some (rd_weights_hash decision) \<noteq> ses_weights_hash s)
              (ValueError (us ''renewal decision is for different model weights''))) (\<lambda>_.
     rbind (manifest_identity env manifest) (\<lambda>expected.
     rbind (raise_if (expected \<noteq> mh \<or> rd_manifest_hash decision \<noteq> mh)
              (ValueError (us ''renewal decision or manifest policy does not match this session''))) (\<lambda>_.
     rbind (parse_cadence env (cu_attestation_cadence (m_custody manifest))) (\<lambda>cadence.
     rbind (raise_if (cadence \<noteq> ses_cadence s)
              (ValueError (us ''renewal cadence does not match this session''))) (\<lambda>_.
     rbind (nonce_hash env (cq_nonce_echo (ev_cpu evidence))) (\<lambda>nh.
     rbind (evidence_identity env evidence) (\<lambda>eh.
     rbind (raise_if (rd_evidence_hash decision \<noteq> eh \<or> rd_challenge_nonce_hash decision \<noteq> nh)
              (ValueError (us ''renewal decision was issued for different evidence''))) (\<lambda>_.
     rbind (raise_if (rp_trusted_time_source (m_release_policy manifest) \<noteq> ses_tts s)
              (ValueError (us ''renewal trusted-time source does not match this session''))) (\<lambda>_.
     (case (parse_stamp env (rd_issued_at decision), parse_stamp env (rd_expires_at decision)) of
        (Some issued, Some expires) \<Rightarrow>
          rbind (raise_if (issued > current \<or> current > expires \<or> expires \<le> issued)
                   (ValueError (us ''renewal decision is not currently valid''))) (\<lambda>_.
          raise_if (\<not> rd_renewed decision) (RenewalDenied (failed_check_names decision)))
      | _ \<Rightarrow> Inl (ValueError (us ''renewal decision timestamps are invalid''))))))))))))))))
      | _ \<Rightarrow> Inl (ValueError (us ''session was not created from a renewal-capable release'')))"

text \<open>The evidence bound: \<open>None\<close> on the decision leaves the full cadence.\<close>

definition bounded_deadline :: "('x) env_scheme \<Rightarrow> renewal_decision \<Rightarrow> time \<Rightarrow> time result" where
  "bounded_deadline env decision deadline =
     (case rd_evidence_expires_at decision of
        None \<Rightarrow> Inr deadline
      | Some t \<Rightarrow>
          (case from_iso env (replace_Z t) of
             Some (Aware bound) \<Rightarrow> Inr (min deadline bound)
           | _ \<Rightarrow> Inl (ValueError (us ''renewal decision evidence bound is invalid''))))"

definition apply_renewal ::
  "('x) env_scheme \<Rightarrow> manifest \<Rightarrow> renewal_decision \<Rightarrow> time \<Rightarrow> composite_evidence \<Rightarrow> (unit, 'w) op" where
  "apply_renewal env manifest decision current evidence =
     obind (tick current) (\<lambda>st s w.
       if st = wiped
       then (Inl (KeyWipedError (us ''renewal too late: custody was already zeroized'')), s, w)
       else case renewal_gate env manifest decision current evidence s of
         Inl e \<Rightarrow> (Inl e, s, w)
       | Inr _ \<Rightarrow>
         (case renewal_id env decision of
            Inl e \<Rightarrow> (Inl e, s, w)
          | Inr rid \<Rightarrow>
              if rid \<in> ses_used_renewals s
              then (Inl (ValueError (us ''renewal decision was already applied'')), s, w)
              else let s' = s\<lparr>ses_used_renewals := insert rid (ses_used_renewals s)\<rparr> in
                case rbind (time_add current (ses_cadence s)) (bounded_deadline env decision) of
                  Inl e \<Rightarrow> (Inl e, s', w)
                | Inr d \<Rightarrow> (Inr (), s'\<lparr>ses_deadline := d, ses_ops := 0\<rparr>, w)))"

subsection \<open>Sequences of operations\<close>

datatype cmd =
    CTick time
  | CReattest time
  | CRenew manifest renewal_decision time composite_evidence
  | CAuthorize time
  | CUse time
  | CZeroize

text \<open>One call on the session; only \<open>use_key\<close> returns key bytes.\<close>

definition omap :: "('a \<Rightarrow> 'b) \<Rightarrow> ('a, 'w) op \<Rightarrow> ('b, 'w) op" where
  "omap f m = obind m (\<lambda>x s w. (Inr (f x), s, w))"

fun exec :: "('x) env_scheme \<Rightarrow> cmd \<Rightarrow> (bytes option, 'w) op" where
  "exec env (CTick t) = omap (\<lambda>_. None) (tick t)"
| "exec env (CReattest t) = omap (\<lambda>_. None) (reattest t)"
| "exec env (CRenew m d t ev) = omap (\<lambda>_. None) (apply_renewal env m d t ev)"
| "exec env (CAuthorize t) = omap (\<lambda>_. None) (authorize_operation t)"
| "exec env (CUse t) = omap Some (use_key t)"
| "exec env CZeroize = omap (\<lambda>_. None) zeroize"

type_synonym 'w config = "'w session \<times> 'w"

definition step :: "('x) env_scheme \<Rightarrow> cmd \<Rightarrow> 'w config \<Rightarrow> bytes option result \<times> 'w config" where
  "step env c sw = (case sw of (s, w) \<Rightarrow> exec env c s w)"

text \<open>\<open>run step cs x\<close>: the configuration after the commands \<open>cs\<close>, whatever their outcomes.\<close>

definition run :: "('c \<Rightarrow> 's \<Rightarrow> 'r \<times> 's) \<Rightarrow> 'c list \<Rightarrow> 's \<Rightarrow> 's" where
  "run stp cs x = fold (\<lambda>c x. snd (stp c x)) cs x"

lemma run_simps [simp]:
  "run stp [] x = x" "run stp (c # cs) x = run stp cs (snd (stp c x))"
  by (simp_all add: run_def)

text \<open>The reading of the last command that renewed, \<open>r\<close> if none did.\<close>

fun last_renewed :: "('c \<Rightarrow> 's \<Rightarrow> 'r \<times> 's) \<Rightarrow> ('c \<Rightarrow> 'r \<Rightarrow> time option) \<Rightarrow> time \<Rightarrow> 'c list \<Rightarrow> 's \<Rightarrow> time" where
  "last_renewed stp renews r [] x = r"
| "last_renewed stp renews r (c # cs) x =
     last_renewed stp renews (case renews c (fst (stp c x)) of Some t \<Rightarrow> t | None \<Rightarrow> r) cs (snd (stp c x))"

text \<open>The successful uses since the last command that renewed, \<open>k\<close> of them before the commands.\<close>

fun uses_since :: "('c \<Rightarrow> 's \<Rightarrow> 'r \<times> 's) \<Rightarrow> ('c \<Rightarrow> 'r \<Rightarrow> time option) \<Rightarrow> ('c \<Rightarrow> 'r \<Rightarrow> time option) \<Rightarrow> int \<Rightarrow> 'c list \<Rightarrow> 's \<Rightarrow> int" where
  "uses_since stp uses renews k [] x = k"
| "uses_since stp uses renews k (c # cs) x =
     uses_since stp uses renews
       (if renews c (fst (stp c x)) \<noteq> None then 0 else if uses c (fst (stp c x)) \<noteq> None then k + 1 else k) cs (snd (stp c x))"

subsection \<open>The contract of a lease\<close>

text \<open>
  What the users of a leased resource rely on: nothing is granted at or after the deadline,
  only a renewal moves the deadline, and a renewal grants at most one window from its own
  clock reading.
\<close>

locale lease =
  fixes stp :: "'c \<Rightarrow> 's \<Rightarrow> 'r \<times> 's"
    and ended :: "'s \<Rightarrow> bool"
    and deadline :: "'s \<Rightarrow> time"
    and window :: "'s \<Rightarrow> time"
    and uses :: "'c \<Rightarrow> 'r \<Rightarrow> time option"
    and renews :: "'c \<Rightarrow> 'r \<Rightarrow> time option"
  assumes ended_stays: "ended x \<Longrightarrow> ended (snd (stp c x))"
    and ended_grants_nothing:
      "ended x \<Longrightarrow> uses c (fst (stp c x)) = None \<and> renews c (fst (stp c x)) = None"
    and use_before_deadline: "uses c (fst (stp c x)) = Some t \<Longrightarrow> t < deadline x"
    and renew_before_deadline: "renews c (fst (stp c x)) = Some t \<Longrightarrow> t < deadline x"
    and renew_bounded: "renews c (fst (stp c x)) = Some t \<Longrightarrow> deadline (snd (stp c x)) \<le> t + window x"
    and deadline_kept: "renews c (fst (stp c x)) = None \<Longrightarrow> deadline (snd (stp c x)) = deadline x"
    and window_kept: "window (snd (stp c x)) = window x"
begin

lemma window_run: "window (run stp cs x) = window x"
  by (induction cs arbitrary: x) (simp_all add: window_kept)

lemma ended_run: "ended x \<Longrightarrow> ended (run stp cs x)"
  by (induction cs arbitrary: x) (simp_all add: ended_stays)

lemma deadline_run:
  "deadline x \<le> r + window x \<Longrightarrow> deadline (run stp cs x) \<le> last_renewed stp renews r cs x + window x"
proof (induction cs arbitrary: x r)
  case (Cons c cs)
  have "deadline (snd (stp c x)) \<le>
      (case renews c (fst (stp c x)) of Some t \<Rightarrow> t | None \<Rightarrow> r) + window (snd (stp c x))"
    using Cons.prems renew_bounded [of c x] deadline_kept [of c x]
    by (auto simp: window_kept split: option.splits)
  from Cons.IH [OF this] show ?case by (simp add: window_kept)
qed simp

lemma use_within_window:
  assumes "deadline x \<le> r + window x" "uses c (fst (stp c (run stp cs x))) = Some t"
  shows "t < last_renewed stp renews r cs x + window x"
  using use_before_deadline [OF assms(2)] deadline_run [OF assms(1), of cs] by linarith

lemma no_use_after_end:
  "ended x \<Longrightarrow> uses c (fst (stp c (run stp cs x))) = None"
  using ended_run ended_grants_nothing by blast

end

text \<open>A lease that also counts: a use is counted, a renewal starts the count again, and no use
  succeeds once the count has reached the budget.\<close>

locale metered_lease = lease +
  fixes used :: "'s \<Rightarrow> int" and budget :: "'s \<Rightarrow> int option"
  assumes used_counts: "uses c (fst (stp c x)) \<noteq> None \<Longrightarrow> renews c (fst (stp c x)) = None \<and> used (snd (stp c x)) = used x + 1"
    and used_within: "uses c (fst (stp c x)) \<noteq> None \<Longrightarrow> budget x = Some n \<Longrightarrow> used x < n"
    and used_reset: "renews c (fst (stp c x)) \<noteq> None \<Longrightarrow> used (snd (stp c x)) = 0"
    and used_kept: "uses c (fst (stp c x)) = None \<Longrightarrow> renews c (fst (stp c x)) = None \<Longrightarrow>
      used (snd (stp c x)) = used x"
    and budget_kept: "budget (snd (stp c x)) = budget x"
begin

lemma budget_run: "budget (run stp cs x) = budget x"
  by (induction cs arbitrary: x) (simp_all add: budget_kept)

text \<open>The counter is the number of uses since the last renewal.\<close>

lemma used_run: "used (run stp cs x) = uses_since stp uses renews (used x) cs x"
proof (induction cs arbitrary: x)
  case (Cons c cs)
  have "used (snd (stp c x)) =
      (if renews c (fst (stp c x)) \<noteq> None then 0 else if uses c (fst (stp c x)) \<noteq> None then used x + 1 else used x)"
    using used_counts [of c x] used_reset [of c x] used_kept [of c x] by simp
  then show ?case using Cons.IH [of "snd (stp c x)"] by simp
qed simp

lemma used_within_budget:
  "budget x = Some n \<Longrightarrow> 0 \<le> used x \<Longrightarrow> used x \<le> n \<Longrightarrow> 0 \<le> used (run stp cs x) \<and> used (run stp cs x) \<le> n"
proof (induction cs arbitrary: x)
  case (Cons c cs)
  have "0 \<le> used (snd (stp c x)) \<and> used (snd (stp c x)) \<le> n"
    using Cons.prems used_counts [of c x] used_within [of c x n] used_reset [of c x] used_kept [of c x]
    by (cases "renews c (fst (stp c x))"; cases "uses c (fst (stp c x))") auto
  then show ?case using Cons.IH [of "snd (stp c x)"] Cons.prems(1) by (simp add: budget_kept)
qed simp

end

subsection \<open>Each operation by cases\<close>

text \<open>The session after its key is wiped.\<close>

definition wipe :: "'w session \<Rightarrow> 'w session" where
  "wipe s = s\<lparr>ses_state := wiped, ses_old := Some (map (\<lambda>_. 0) (ses_key s)), ses_key := []\<rparr>"

lemma wipe_fields [simp]:
  "ses_state (wipe s) = wiped" "ses_key (wipe s) = []" "ses_deadline (wipe s) = ses_deadline s"
  "ses_cadence (wipe s) = ses_cadence s" "ses_ops (wipe s) = ses_ops s"
  "ses_max_ops (wipe s) = ses_max_ops s" "ses_used_renewals (wipe s) = ses_used_renewals s"
  "ses_on_stop (wipe s) = ses_on_stop s"
  "ses_old (wipe s) = Some (replicate (length (ses_key s)) 0)"
  by (simp_all add: wipe_def map_replicate_const)

lemma session_state_iff [simp]: "ses_state s \<noteq> wiped \<longleftrightarrow> ses_state s = holding" "ses_state s \<noteq> holding \<longleftrightarrow> ses_state s = wiped"
  by (cases "ses_state s"; simp)+

lemma zeroize_wiped [simp]: "ses_state s = wiped \<Longrightarrow> zeroize s w = (Inr (), s, w)"
  by (simp add: zeroize_def)

text \<open>What the hook does to the world, once.\<close>

definition stop_world :: "'w session \<Rightarrow> 'w \<Rightarrow> 'w" where
  "stop_world s w = (case ses_on_stop s of None \<Rightarrow> w | Some hook \<Rightarrow> snd (hook w))"

definition stop_result :: "'w session \<Rightarrow> 'w \<Rightarrow> unit result" where
  "stop_result s w = (case ses_on_stop s of None \<Rightarrow> Inr ()
     | Some hook \<Rightarrow> (case fst (hook w) of None \<Rightarrow> Inr () | Some e \<Rightarrow> Inl e))"

lemma zeroize_holding: "ses_state s = holding \<Longrightarrow> zeroize s w = (stop_result s w, wipe s, stop_world s w)"
  by (auto simp: zeroize_def stop_result_def stop_world_def wipe_def Let_def split: option.splits prod.splits)

lemma tick_eq:
  "tick t s w =
     (if ses_state s = holding \<and> t < ses_deadline s then (Inr holding, s, w)
      else if ses_state s = wiped then (Inr wiped, s, w)
      else (rbind (stop_result s w) (\<lambda>_. Inr wiped), wipe s, stop_world s w))"
  by (cases "stop_result s w") (auto simp: obind_def tick_def zeroize_holding)

lemma obind_tick:
  "obind (tick t) f s w =
     (if ses_state s = holding \<and> t < ses_deadline s then f holding s w
      else if ses_state s = wiped then f wiped s w
      else case stop_result s w of Inr _ \<Rightarrow> f wiped (wipe s) (stop_world s w)
           | Inl e \<Rightarrow> (Inl e, wipe s, stop_world s w))"
  by (cases "stop_result s w") (auto simp: obind_def tick_eq)

definition cmd_uses :: "cmd \<Rightarrow> 'a result \<Rightarrow> time option" where
  "cmd_uses c r = (case (c, r) of (CAuthorize t, Inr _) \<Rightarrow> Some t | (CUse t, Inr _) \<Rightarrow> Some t | _ \<Rightarrow> None)"

definition cmd_renews :: "cmd \<Rightarrow> 'a result \<Rightarrow> time option" where
  "cmd_renews c r = (case (c, r) of (CReattest t, Inr _) \<Rightarrow> Some t | (CRenew _ _ t _, Inr _) \<Rightarrow> Some t | _ \<Rightarrow> None)"

text \<open>The possible effects of one command on a session that still holds its key.\<close>

definition lapse :: "time \<Rightarrow> 'w session \<Rightarrow> 'w \<Rightarrow> 'a result \<Rightarrow> 'w session \<Rightarrow> 'w \<Rightarrow> bool" where
  "lapse t s w r s' w' \<longleftrightarrow> ses_deadline s \<le> t \<and> (\<exists>e. r = Inl e) \<and> s' = wipe s \<and> w' = stop_world s w"

lemma reattest_effect:
  assumes "reattest t s w = (r, s', w')" "ses_state s = holding"
  shows "(t < ses_deadline s \<and> w' = w \<and>
      (r = Inr () \<and> s' = s\<lparr>ses_deadline := t + secs (ses_cadence s), ses_ops := 0\<rparr> \<or> (\<exists>e. r = Inl e) \<and> s' = s)) \<or>
     lapse t s w r s' w'"
  using assms by (cases "stop_result s w")
    (auto simp: reattest_def obind_tick time_add_def lapse_def split: if_splits sum.splits dest!: sym [of "Inl _"])

definition within_budget :: "'w session \<Rightarrow> bool" where
  "within_budget s \<longleftrightarrow> (case ses_max_ops s of None \<Rightarrow> True | Some n \<Rightarrow> ses_ops s < n)"

lemma authorize_effect:
  assumes "authorize_operation t s w = (r, s', w')" "ses_state s = holding"
  shows "(t < ses_deadline s \<and> w' = w \<and>
      (r = Inr () \<and> s' = s\<lparr>ses_ops := ses_ops s + 1\<rparr> \<and> within_budget s \<or> (\<exists>e. r = Inl e) \<and> s' = s)) \<or>
     lapse t s w r s' w'"
  using assms by (cases "stop_result s w")
    (auto simp: authorize_operation_def obind_tick lapse_def within_budget_def split: if_splits sum.splits option.splits dest!: sym [of "Inl _"])

lemma use_key_effect:
  assumes "use_key t s w = (r, s', w')" "ses_state s = holding"
  shows "(t < ses_deadline s \<and> w' = w \<and>
      (r = Inr (ses_key s) \<and> s' = s\<lparr>ses_ops := ses_ops s + 1\<rparr> \<and> within_budget s \<or> (\<exists>e. r = Inl e) \<and> s' = s)) \<or>
     lapse t s w r s' w'"
proof -
  obtain r1 s1 w1 where a: "authorize_operation t s w = (r1, s1, w1)" by (metis prod_cases3)
  with assms(1) have "r = rbind r1 (\<lambda>_. Inr (ses_key s1))" "s' = s1" "w' = w1"
    by (auto simp: use_key_def obind_def split: sum.splits)
  with authorize_effect [OF a assms(2)] show ?thesis by (auto simp: lapse_def)
qed

text \<open>A renewal that is refused may still have been recorded as used.\<close>

lemma renewal_effect:
  assumes "apply_renewal env m d t ev s w = (r, s', w')" "ses_state s = holding"
  shows "(t < ses_deadline s \<and> w' = w \<and>
      ((\<exists>dl rid. r = Inr () \<and> renewal_gate env m d t ev s = Inr () \<and> renewal_id env d = Inr rid \<and>
          rid \<notin> ses_used_renewals s \<and> bounded_deadline env d (t + secs (ses_cadence s)) = Inr dl \<and>
          s' = s\<lparr>ses_used_renewals := insert rid (ses_used_renewals s), ses_deadline := dl, ses_ops := 0\<rparr>) \<or>
       (\<exists>e. r = Inl e) \<and> (\<exists>u. ses_used_renewals s \<subseteq> u \<and> s' = s\<lparr>ses_used_renewals := u\<rparr>))) \<or>
     lapse t s w r s' w'"
proof (cases "t < ses_deadline s")
  case False
  with assms show ?thesis
    by (cases "stop_result s w") (auto simp: apply_renewal_def obind_tick lapse_def dest!: sym [of "Inl _"])
next
  case True
  have unchanged: "\<exists>u. ses_used_renewals s \<subseteq> u \<and> s = s\<lparr>ses_used_renewals := u\<rparr>"
    by (rule exI [of _ "ses_used_renewals s"]) simp
  from assms True show ?thesis
    by (auto simp: apply_renewal_def obind_tick time_add_def Let_def rbind_def unchanged
        split: sum.splits if_splits dest!: sym [of "Inl _"])
qed

lemma omap_eq: "omap f m s w = (case m s w of (r, s', w') \<Rightarrow> (rbind r (\<lambda>x. Inr (f x)), s', w'))"
  by (auto simp: omap_def obind_def split: sum.splits prod.splits)

text \<open>A wiped session changes no more, and neither does the world.\<close>

lemma exec_wiped:
  assumes "ses_state s = wiped"
  shows "exec env c s w = (fst (exec env c s w), s, w)" "cmd_uses c (fst (exec env c s w)) = None"
    "cmd_renews c (fst (exec env c s w)) = None"
  using assms
  by (cases c; simp add: omap_eq tick_eq reattest_def apply_renewal_def authorize_operation_def use_key_def
        obind_def cmd_uses_def cmd_renews_def)+

text \<open>
  One command on a session that holds its key: the session is wiped because its deadline has
  passed or because it was asked to be, or it stays as it is but for the lease fields.
\<close>

definition kept :: "cmd \<Rightarrow> 'a result \<Rightarrow> 'w session \<Rightarrow> 'w session \<Rightarrow> bool" where
  "kept c r s s' \<longleftrightarrow>
     s' = s\<lparr>ses_used_renewals := ses_used_renewals s', ses_deadline := ses_deadline s', ses_ops := ses_ops s'\<rparr> \<and>
     ses_used_renewals s \<subseteq> ses_used_renewals s' \<and>
     (case cmd_uses c r of
        Some t \<Rightarrow> t < ses_deadline s \<and> within_budget s \<and> ses_ops s' = ses_ops s + 1 \<and>
                  ses_deadline s' = ses_deadline s
      | None \<Rightarrow>
          (case cmd_renews c r of
             Some t \<Rightarrow> t < ses_deadline s \<and> ses_deadline s' \<le> t + secs (ses_cadence s) \<and> ses_ops s' = 0
           | None \<Rightarrow> ses_ops s' = ses_ops s \<and> ses_deadline s' = ses_deadline s))"

lemma bounded_deadline_le: "bounded_deadline env d x = Inr dl \<Longrightarrow> dl \<le> x"
  by (auto simp: bounded_deadline_def split: option.splits pydt.splits)

lemma cmd_uses_simps [simp]:
  "cmd_uses (CTick t) r = None" "cmd_uses (CReattest t) r = None" "cmd_uses (CRenew m d t ev) r = None"
  "cmd_uses CZeroize r = None" "cmd_uses c (Inl e) = None" "cmd_uses (CUse t) (Inr x) = Some t"
  "cmd_uses (CAuthorize t) (Inr x) = Some t"
  by (simp_all add: cmd_uses_def split: cmd.splits)

lemma cmd_renews_simps [simp]:
  "cmd_renews (CTick t) r = None" "cmd_renews (CReattest t) (Inr x) = Some t"
  "cmd_renews (CRenew m d t ev) (Inr x) = Some t" "cmd_renews (CUse t) r = None"
  "cmd_renews (CAuthorize t) r = None" "cmd_renews CZeroize r = None" "cmd_renews c (Inl e) = None"
  by (simp_all add: cmd_renews_def split: cmd.splits)

lemma exec_holding:
  assumes ex: "exec env c s w = (r, s', w')" and h: "ses_state s = holding"
  shows "s' = wipe s \<and> w' = stop_world s w \<and> cmd_uses c r = None \<and> cmd_renews c r = None \<or>
    kept c r s s' \<and> w' = w"
proof (cases c)
  case (CTick t)
  with ex h show ?thesis by (auto simp: omap_eq tick_eq kept_def split: if_splits)
next
  case (CReattest t)
  with ex obtain q where q: "reattest t s w = (q, s', w')" "r = rbind q (\<lambda>_. Inr None)"
    by (auto simp: omap_eq split: prod.splits)
  from reattest_effect [OF q(1) h] q(2) CReattest show ?thesis by (auto simp: kept_def lapse_def)
next
  case (CRenew m d t ev)
  with ex obtain q where q: "apply_renewal env m d t ev s w = (q, s', w')" "r = rbind q (\<lambda>_. Inr None)"
    by (auto simp: omap_eq split: prod.splits)
  from renewal_effect [OF q(1) h] q(2) CRenew show ?thesis
    by (auto simp: kept_def lapse_def dest: bounded_deadline_le)
next
  case (CAuthorize t)
  with ex obtain q where q: "authorize_operation t s w = (q, s', w')" "r = rbind q (\<lambda>_. Inr None)"
    by (auto simp: omap_eq split: prod.splits)
  from authorize_effect [OF q(1) h] q(2) CAuthorize show ?thesis by (auto simp: kept_def lapse_def)
next
  case (CUse t)
  with ex obtain q where q: "use_key t s w = (q, s', w')" "r = rbind q (\<lambda>k. Inr (Some k))"
    by (auto simp: omap_eq split: prod.splits)
  from use_key_effect [OF q(1) h] q(2) CUse show ?thesis by (auto simp: kept_def lapse_def)
next
  case CZeroize
  with ex h show ?thesis by (auto simp: omap_eq zeroize_holding)
qed

lemma keptD:
  assumes "kept c r s s'"
  shows "ses_state s' = ses_state s" "ses_key s' = ses_key s" "ses_cadence s' = ses_cadence s"
    "ses_max_ops s' = ses_max_ops s" "ses_on_stop s' = ses_on_stop s"
    "ses_used_renewals s \<subseteq> ses_used_renewals s'"
proof -
  have *: "s' = s\<lparr>ses_used_renewals := ses_used_renewals s', ses_deadline := ses_deadline s', ses_ops := ses_ops s'\<rparr>"
    and u: "ses_used_renewals s \<subseteq> ses_used_renewals s'"
    using assms by (simp_all add: kept_def)
  show "ses_state s' = ses_state s" "ses_key s' = ses_key s" "ses_cadence s' = ses_cadence s"
    "ses_max_ops s' = ses_max_ops s" "ses_on_stop s' = ses_on_stop s"
    by (subst *, simp)+
  show "ses_used_renewals s \<subseteq> ses_used_renewals s'" by (rule u)
qed

text \<open>Both contracts hold of the session.\<close>

definition cfg_window :: "'w config \<Rightarrow> time" where
  "cfg_window x = secs (ses_cadence (fst x))"

lemma step_disj:
  fixes env :: "('x) env_scheme" and x :: "'w config"
  defines "r \<equiv> \<lambda>c. fst (step env c x)" and "y \<equiv> \<lambda>c. snd (step env c x)"
  shows "ses_state (fst x) = wiped \<and> y c = x \<and> cmd_uses c (r c) = None \<and> cmd_renews c (r c) = None \<or>
    ses_state (fst x) = holding \<and> y c = (wipe (fst x), stop_world (fst x) (snd x)) \<and>
      cmd_uses c (r c) = None \<and> cmd_renews c (r c) = None \<or>
    ses_state (fst x) = holding \<and> kept c (r c) (fst x) (fst (y c)) \<and> snd (y c) = snd x"
proof -
  obtain r' s' w' where ex: "exec env c (fst x) (snd x) = (r', s', w')" by (metis prod_cases3)
  then have st: "r c = r'" "y c = (s', w')" by (simp_all add: r_def y_def step_def case_prod_unfold)
  show ?thesis
  proof (cases "ses_state (fst x)")
    case wiped
    have "s' = fst x" "w' = snd x" using exec_wiped(1) [OF wiped, of env c "snd x"] ex by auto
    then show ?thesis
      using exec_wiped(2) [OF wiped, where env = env and c = c and w = "snd x"]
        exec_wiped(3) [OF wiped, where env = env and c = c and w = "snd x"] wiped ex st by auto
  next
    case holding
    from exec_holding [OF ex holding] holding st show ?thesis by auto
  qed
qed

lemma kept_use: "kept c r s s' \<Longrightarrow> cmd_uses c r = Some t \<Longrightarrow>
    t < ses_deadline s \<and> within_budget s \<and> ses_ops s' = ses_ops s + 1 \<and> ses_deadline s' = ses_deadline s"
  by (simp add: kept_def)

lemma kept_renew: "kept c r s s' \<Longrightarrow> cmd_renews c r = Some t \<Longrightarrow>
    t < ses_deadline s \<and> ses_deadline s' \<le> t + secs (ses_cadence s) \<and> ses_ops s' = 0"
  by (cases c; cases r) (simp_all add: kept_def)

lemma kept_other: "kept c r s s' \<Longrightarrow> cmd_renews c r = None \<Longrightarrow>
    ses_deadline s' = ses_deadline s \<and> (cmd_uses c r = None \<longrightarrow> ses_ops s' = ses_ops s)"
  by (auto simp: kept_def split: option.splits)

lemma cmd_uses_no_renewal: "cmd_uses c r = Some t \<Longrightarrow> cmd_renews c r = None"
  by (cases c; cases r) simp_all

interpretation custody: metered_lease "step env" "\<lambda>x. is_wiped (fst x)" "\<lambda>x. ses_deadline (fst x)"
  cfg_window cmd_uses cmd_renews "\<lambda>x. ses_ops (fst x)" "\<lambda>x. ses_max_ops (fst x)"
  for env :: "('x) env_scheme"
proof unfold_locales
  fix x :: "'w config" and c t n
  note d = step_disj [of x env c]
  show "is_wiped (fst x) \<Longrightarrow> is_wiped (fst (snd (step env c x)))"
    using d by (auto simp: is_wiped_def)
  show "is_wiped (fst x) \<Longrightarrow> cmd_uses c (fst (step env c x)) = None \<and> cmd_renews c (fst (step env c x)) = None"
    using d by (auto simp: is_wiped_def)
  show "t < ses_deadline (fst x)" if "cmd_uses c (fst (step env c x)) = Some t"
    using d that by (auto dest: kept_use)
  show "t < ses_deadline (fst x)" if "cmd_renews c (fst (step env c x)) = Some t"
    using d that by (auto dest: kept_renew)
  show "ses_deadline (fst (snd (step env c x))) \<le> t + cfg_window x" if "cmd_renews c (fst (step env c x)) = Some t"
    using d that by (auto simp: cfg_window_def dest: kept_renew)
  show "ses_deadline (fst (snd (step env c x))) = ses_deadline (fst x)" if "cmd_renews c (fst (step env c x)) = None"
    using d that by (auto dest: kept_other)
  show "cfg_window (snd (step env c x)) = cfg_window x"
    using d by (auto simp: cfg_window_def keptD)
  show "cmd_renews c (fst (step env c x)) = None \<and> ses_ops (fst (snd (step env c x))) = ses_ops (fst x) + 1"
    if "cmd_uses c (fst (step env c x)) \<noteq> None"
    using d that by (auto simp: cmd_uses_no_renewal dest: kept_use)
  show "ses_ops (fst (snd (step env c x))) = 0" if "cmd_renews c (fst (step env c x)) \<noteq> None"
    using d that by (auto dest: kept_renew)
  show "ses_ops (fst x) < n" if "cmd_uses c (fst (step env c x)) \<noteq> None" "ses_max_ops (fst x) = Some n"
    using d that by (auto simp: within_budget_def dest!: kept_use)
  show "ses_ops (fst (snd (step env c x))) = ses_ops (fst x)"
    if "cmd_uses c (fst (step env c x)) = None" "cmd_renews c (fst (step env c x)) = None"
    using d that by (auto dest: kept_other)
  show "ses_max_ops (fst (snd (step env c x))) = ses_max_ops (fst x)"
    using d by (auto simp: keptD)
qed

subsection \<open>Properties of custody\<close>

text \<open>Along any run the session either holds the key it was given, the world untouched, or is
  wiped, the hook having run exactly once.\<close>

definition custody_inv :: "bytes \<Rightarrow> 'w session \<Rightarrow> 'w \<Rightarrow> 'w config \<Rightarrow> bool" where
  "custody_inv key s0 w0 x \<longleftrightarrow>
     ses_on_stop (fst x) = ses_on_stop s0 \<and>
     (if ses_state (fst x) = holding then ses_key (fst x) = key \<and> snd x = w0
      else ses_key (fst x) = [] \<and> ses_old (fst x) = Some (replicate (length key) 0) \<and>
           snd x = stop_world s0 w0)"

lemma custody_inv_step:
  assumes "custody_inv key s0 w0 x"
  shows "custody_inv key s0 w0 (snd (step env c x))"
proof -
  have sw: "stop_world (fst x) w = stop_world s0 w" for w
    using assms by (simp add: custody_inv_def stop_world_def)
  from step_disj [of x env c] assms show ?thesis
    by (auto simp: custody_inv_def keptD sw split: if_splits)
qed

lemma custody_inv_run: "custody_inv key s0 w0 x \<Longrightarrow> custody_inv key s0 w0 (run (step env) cs x)"
  by (induction cs arbitrary: x) (simp_all add: custody_inv_step)

lemma new_session_fields:
  assumes "new_session key cad tts mo wh mh pk t0 hook = Inr s"
  shows "0 < cad" "ses_key s = key" "ses_state s = holding" "ses_cadence s = cad" "ses_on_stop s = hook"
    "ses_deadline s = t0 + secs cad" "ses_ops s = 0" "ses_max_ops s = mo" "ses_used_renewals s = {}"
    "case mo of None \<Rightarrow> True | Some n \<Rightarrow> 0 < n" "ses_tts s = tts"
    "ses_manifest_hash s = mh" "ses_renewal_public_key s = pk" "ses_weights_hash s = wh"
  using assms by (auto simp: new_session_def rbind_Inr_iff time_add_def split: if_splits option.splits)

lemma custody_inv_new:
  "new_session key cad tts mo wh mh pk t0 hook = Inr s \<Longrightarrow> custody_inv key s w (s, w)"
  by (simp add: custody_inv_def new_session_fields)

text \<open>
  C33 (custody window). Whatever sequence of calls was made on a session, with whatever clock
  readings, and whether or not they failed: if \<open>use_key\<close> hands out a key at reading
  \<open>t\<close>, it is the key the session was created with, and less than one cadence has passed
  since the last successful re-attestation or renewal (or since creation).
\<close>

theorem key_only_within_cadence:
  assumes "new_session key cad tts mo wh mh pk t0 hook = Inr s0"
    and "run (step env) cs (s0, w0) = (s, w)"
    and "use_key t s w = (Inr k, s', w')"
  shows "k = key \<and> t < last_renewed (step env) cmd_renews t0 cs (s0, w0) + secs cad"
proof -
  have st: "step env (CUse t) (s, w) = (Inr (Some k), (s', w'))"
    using assms(3) by (simp add: step_def omap_eq)
  then have use: "cmd_uses (CUse t) (fst (step env (CUse t) (run (step env) cs (s0, w0)))) = Some t"
    using assms(2) by simp
  have "ses_deadline (fst (s0, w0)) \<le> t0 + cfg_window (s0, w0)"
    using new_session_fields [OF assms(1)] by (simp add: cfg_window_def)
  from custody.use_within_window [OF this use] new_session_fields(4) [OF assms(1)]
  have t: "t < last_renewed (step env) cmd_renews t0 cs (s0, w0) + secs cad" by (simp add: cfg_window_def)
  have h: "ses_state s = holding"
    using assms(3) by (cases "ses_state s") (simp_all add: use_key_def authorize_operation_def obind_def tick_eq)
  with use_key_effect [OF assms(3) h] have "k = ses_key s" by (auto simp: lapse_def)
  moreover have "ses_key s = key"
    using custody_inv_run [OF custody_inv_new [OF assms(1)], of w0 env cs] assms(2) h by (simp add: custody_inv_def)
  ultimately show ?thesis using t by simp
qed

definition demo_session :: "unit session" where
  "demo_session = \<lparr>ses_key = [1, 2], ses_old = None, ses_cadence = 60, ses_tts = secure_tsc,
     ses_max_ops = Some 2, ses_ops = 0, ses_weights_hash = None, ses_manifest_hash = None,
     ses_renewal_public_key = None, ses_used_renewals = {}, ses_on_stop = None,
     ses_state = holding, ses_deadline = secs 60\<rparr>"

lemma demo_session_new:
  "new_session [1, 2] 60 secure_tsc (Some 2) None None None 0 None = Inr demo_session"
  by (simp add: new_session_def demo_session_def time_add_def max_time_def secs_def)

theorem key_only_within_cadence_witness:
  "[1, 2] = [1, 2 :: byte] \<and>
   secs 70 < last_renewed (step undefined) cmd_renews 0 [CUse (secs 5), CReattest (secs 30)] (demo_session, ()) + secs 60"
proof (rule key_only_within_cadence [OF demo_session_new])
  note [simp] = step_def omap_eq use_key_def authorize_operation_def reattest_def obind_def tick_eq
    demo_session_def time_add_def max_time_def secs_def
  show "run (step undefined) [CUse (secs 5), CReattest (secs 30)] (demo_session, ()) =
      (demo_session\<lparr>ses_deadline := secs 90\<rparr>, ())" by simp
  show "use_key (secs 70) (demo_session\<lparr>ses_deadline := secs 90\<rparr>) () =
      (Inr [1, 2], demo_session\<lparr>ses_deadline := secs 90, ses_ops := 1\<rparr>, ())" by simp
qed

text \<open>
  Along any run from a new session: while it holds, the teardown hook has not run
  and the key is intact; once it is wiped, the session holds no key, the buffer that held it
  is all zeros, and the world is exactly what one call of the hook made of it, so the hook ran
  once, whatever was called since.
\<close>

theorem wipe_exactly_once:
  assumes "new_session key cad tts mo wh mh pk t0 hook = Inr s0"
    and "run (step env) cs (s0, w0) = (s, w)"
  shows "if is_wiped s
         then ses_key s = [] \<and> ses_old s = Some (replicate (length key) 0) \<and>
              w = (case hook of None \<Rightarrow> w0 | Some h \<Rightarrow> snd (h w0))
         else ses_key s = key \<and> w = w0"
  using custody_inv_run [OF custody_inv_new [OF assms(1)], of w0 env cs] assms(2)
    new_session_fields(5) [OF assms(1)]
  by (auto simp: custody_inv_def is_wiped_def stop_world_def split: if_splits)

definition demo_hooked :: "nat session" where
  "demo_hooked = \<lparr>ses_key = [1, 2], ses_old = None, ses_cadence = 60, ses_tts = secure_tsc,
     ses_max_ops = None, ses_ops = 0, ses_weights_hash = None, ses_manifest_hash = None,
     ses_renewal_public_key = None, ses_used_renewals = {}, ses_on_stop = Some (\<lambda>w. (None, Suc w)),
     ses_state = holding, ses_deadline = secs 60\<rparr>"

theorem wipe_exactly_once_witness:
  "if is_wiped (wipe demo_hooked)
   then ses_key (wipe demo_hooked) = [] \<and> ses_old (wipe demo_hooked) = Some (replicate (length [1, 2 :: byte]) 0) \<and>
        1 = (case Some (\<lambda>w. (None :: exn option, Suc w)) of None \<Rightarrow> 0 | Some h \<Rightarrow> snd (h 0))
   else ses_key (wipe demo_hooked) = [1, 2] \<and> (1 :: nat) = 0"
proof (rule wipe_exactly_once)
  show "new_session [1, 2] 60 secure_tsc None None None None 0 (Some (\<lambda>w. (None, Suc w))) = Inr demo_hooked"
    by (simp add: new_session_def demo_hooked_def time_add_def max_time_def secs_def)
  show "run (step undefined) [CTick (secs 60), CTick (secs 1), CZeroize] (demo_hooked, 0) = (wipe demo_hooked, 1)"
    by (simp add: step_def omap_eq tick_eq demo_hooked_def stop_result_def stop_world_def secs_def)
qed

lemma authorize_live:
  assumes "ses_state s = holding" and "t < ses_deadline s" and "ses_max_ops s = Some n"
  shows "fst (authorize_operation t s w) = (if ses_ops s < n then Inr () else Inl (ReattestationRequired n))"
  using assms by (simp add: authorize_operation_def obind_def tick_eq)

lemma authorize_ended:
  assumes "ses_state s = wiped \<or> \<not> t < ses_deadline s"
  shows "fst (authorize_operation t s w) \<noteq> Inr ()"
  using assms by (cases "ses_state s"; cases "stop_result s w") (simp_all add: authorize_operation_def obind_def tick_eq)

text \<open>
  C34 (operation budget). Let a session have an operation budget \<open>n\<close> and let any sequence of calls be
  made on it, with any re-attestations and renewals among them, whether they succeed or fail. Then
  the operations authorized since the last successful re-attestation or renewal (or since creation)
  never exceed \<open>n\<close>; and the next operation, at a reading before the deadline of a session that still
  holds its key, is authorized exactly when fewer than \<open>n\<close> have been, and raises
  \<open>ReattestationRequired\<close> exactly when all \<open>n\<close> have been.
\<close>

theorem operations_within_budget:
  assumes "new_session key cad tts (Some n) wh mh pk t0 hook = Inr s0"
    and "run (step env) cs (s0, w0) = (s, w)"
  shows "0 \<le> uses_since (step env) cmd_uses cmd_renews 0 cs (s0, w0) \<and> uses_since (step env) cmd_uses cmd_renews 0 cs (s0, w0) \<le> n \<and>
    (fst (authorize_operation t s w) = Inr () \<longleftrightarrow>
       \<not> is_wiped s \<and> t < ses_deadline s \<and> uses_since (step env) cmd_uses cmd_renews 0 cs (s0, w0) < n) \<and>
    (\<not> is_wiped s \<and> t < ses_deadline s \<longrightarrow>
       (fst (authorize_operation t s w) = Inl (ReattestationRequired n) \<longleftrightarrow>
         uses_since (step env) cmd_uses cmd_renews 0 cs (s0, w0) = n))"
proof -
  note f = new_session_fields [OF assms(1)]
  have u: "ses_ops s = uses_since (step env) cmd_uses cmd_renews 0 cs (s0, w0)"
    using custody.used_run [of env cs "(s0, w0)"] f(7) assms(2) by simp
  have b: "ses_max_ops s = Some n" using custody.budget_run [of env cs "(s0, w0)"] f(8) assms(2) by simp
  have "0 \<le> ses_ops s \<and> ses_ops s \<le> n"
    using custody.used_within_budget [of "(s0, w0)" n env cs] f(7,8,10) assms(2) by simp
  moreover have "fst (authorize_operation t s w) = (if ses_ops s < n then Inr () else Inl (ReattestationRequired n))"
    if "\<not> is_wiped s" "t < ses_deadline s" using authorize_live [OF _ that(2) b] that(1) by (simp add: is_wiped_def)
  moreover have "fst (authorize_operation t s w) \<noteq> Inr ()" if "is_wiped s \<or> \<not> t < ses_deadline s"
    by (rule authorize_ended) (use that in \<open>simp add: is_wiped_def\<close>)
  ultimately show ?thesis unfolding u [symmetric] by (cases "\<not> is_wiped s \<and> t < ses_deadline s") auto
qed

text \<open>Two operations, a re-attestation, two more: the third after it is refused.\<close>

theorem operations_within_budget_witness:
  "uses_since (step undefined) cmd_uses cmd_renews 0 [CUse 1, CAuthorize 2, CUse 3, CReattest 4, CUse 5, CAuthorize 6] (demo_session, ()) \<le> 2 \<and>
   fst (authorize_operation 7 (demo_session\<lparr>ses_deadline := 4 + secs 60, ses_ops := 2\<rparr>) ()) = Inl (ReattestationRequired 2)"
proof -
  note [simp] = step_def omap_eq use_key_def authorize_operation_def reattest_def obind_def tick_eq
    demo_session_def time_add_def max_time_def secs_def
  let ?cs = "[CUse 1, CAuthorize 2, CUse 3, CReattest 4, CUse 5, CAuthorize 6]"
  have r: "run (step undefined) ?cs (demo_session, ()) = (demo_session\<lparr>ses_deadline := 4 + secs 60, ses_ops := 2\<rparr>, ())" by simp
  have u: "uses_since (step undefined) cmd_uses cmd_renews 0 ?cs (demo_session, ()) = 2" by simp
  show ?thesis
    using operations_within_budget [OF demo_session_new r, of 7] unfolding u
    by (simp add: is_wiped_def del: authorize_operation_def)
qed

subsection \<open>Properties of renewals\<close>

lemma renewal_gate_iff:
  "renewal_gate env m d t ev s = Inr () \<longleftrightarrow>
     (\<exists>mh pk cad nh issued expires.
        ses_manifest_hash s = Some mh \<and> ses_renewal_public_key s = Some pk \<and>
        rd_verify env d pk = Inr True \<and> rd_renewed d \<and>
        checks_complete (rd_checks d) \<and> list_all check_passed (rd_checks d) \<and>
        ses_weights_hash s = Some (rd_weights_hash d) \<and>
        manifest_identity env m = Inr mh \<and> rd_manifest_hash d = mh \<and>
        parse_cadence env (cu_attestation_cadence (m_custody m)) = Inr cad \<and> cad = ses_cadence s \<and>
        nonce_hash env (cq_nonce_echo (ev_cpu ev)) = Inr nh \<and> rd_challenge_nonce_hash d = nh \<and>
        evidence_identity env ev = Inr (rd_evidence_hash d) \<and>
        rp_trusted_time_source (m_release_policy m) = ses_tts s \<and>
        parse_stamp env (rd_issued_at d) = Some issued \<and> parse_stamp env (rd_expires_at d) = Some expires \<and>
        issued \<le> t \<and> t \<le> expires \<and> issued < expires)"
  by (auto simp: renewal_gate_def rbind_Inr_iff split: option.splits)

lemma checks_complete_required:
  assumes "checks_complete cs" "list_all check_passed cs" "n \<in> set REQUIRED_RENEWAL_CHECKS"
  shows "\<exists>c \<in> set cs. check_name c = Some n \<and> check_passed c"
  using assms by (fastforce simp: checks_complete_def list_all_iff)

lemma apply_renewal_success:
  assumes "apply_renewal env m d t ev s w = (Inr (), s', w')"
  shows "ses_state s = holding" "t < ses_deadline s" "renewal_gate env m d t ev s = Inr ()" "w' = w"
    "\<exists>dl rid. renewal_id env d = Inr rid \<and> rid \<notin> ses_used_renewals s \<and>
       bounded_deadline env d (t + secs (ses_cadence s)) = Inr dl \<and>
       s' = s\<lparr>ses_used_renewals := insert rid (ses_used_renewals s), ses_deadline := dl, ses_ops := 0\<rparr>"
proof -
  show h: "ses_state s = holding"
    using assms by (cases "ses_state s") (simp_all add: apply_renewal_def obind_tick)
  from renewal_effect [OF assms h] show "t < ses_deadline s" "renewal_gate env m d t ev s = Inr ()" "w' = w"
    "\<exists>dl rid. renewal_id env d = Inr rid \<and> rid \<notin> ses_used_renewals s \<and>
       bounded_deadline env d (t + secs (ses_cadence s)) = Inr dl \<and>
       s' = s\<lparr>ses_used_renewals := insert rid (ses_used_renewals s), ses_deadline := dl, ses_ops := 0\<rparr>"
    by (auto simp: lapse_def)
qed

text \<open>
  A renewal is applied only if the session still holds its key before its
  deadline, the decision is signed by the key pinned at release, every required gate is
  present and every reported gate passed, the decision names this session's weights,
  manifest and evidence, and the reading lies in its validity. The window it buys is at most
  one cadence from the reading, and never outlives the revocation evidence behind it.
\<close>

theorem renewal_requires_verified_decision:
  assumes "apply_renewal env m d t ev s w = (Inr (), s', w')"
  shows "t < ses_deadline s \<and>
    (\<exists>pk. ses_renewal_public_key s = Some pk \<and> rd_verify env d pk = Inr True) \<and>
    rd_renewed d \<and> list_all check_passed (rd_checks d) \<and>
    list_all (\<lambda>n. \<exists>c \<in> set (rd_checks d). check_name c = Some n \<and> check_passed c) REQUIRED_RENEWAL_CHECKS \<and>
    ses_weights_hash s = Some (rd_weights_hash d) \<and>
    ses_manifest_hash s = Some (rd_manifest_hash d) \<and>
    manifest_identity env m = Inr (rd_manifest_hash d) \<and>
    evidence_identity env ev = Inr (rd_evidence_hash d) \<and>
    (\<exists>issued expires. parse_stamp env (rd_issued_at d) = Some issued \<and>
       parse_stamp env (rd_expires_at d) = Some expires \<and> issued \<le> t \<and> t \<le> expires) \<and>
    ses_deadline s' =
      (case rd_evidence_expires_at d of
         None \<Rightarrow> t + secs (ses_cadence s)
       | Some b \<Rightarrow> (case from_iso env (replace_Z b) of
           Some (Aware bound) \<Rightarrow> min (t + secs (ses_cadence s)) bound | _ \<Rightarrow> ses_deadline s')) \<and>
    ses_ops s' = 0"
proof -
  note ok = apply_renewal_success [OF assms]
  from ok(5) obtain dl where dl: "bounded_deadline env d (t + secs (ses_cadence s)) = Inr dl"
    "ses_deadline s' = dl" "ses_ops s' = 0" by auto
  have "dl = (case rd_evidence_expires_at d of None \<Rightarrow> t + secs (ses_cadence s)
       | Some b \<Rightarrow> (case from_iso env (replace_Z b) of
           Some (Aware bound) \<Rightarrow> min (t + secs (ses_cadence s)) bound | _ \<Rightarrow> dl))"
    using dl(1) by (auto simp: bounded_deadline_def split: option.splits pydt.splits)
  with ok(2,3) dl(2,3) show ?thesis
    by (auto simp: renewal_gate_iff list_all_iff [of _ REQUIRED_RENEWAL_CHECKS] dest: checks_complete_required)
qed

definition demo_env :: env where
  "demo_env = crypto.extend demo_crypto
     \<lparr>x_public = (\<lambda>_. replicate 32 3), x_exchange = (\<lambda>_ _. Some [9]), hkdf = (\<lambda>_ _. [8]),
      aead_enc = (\<lambda>k n p a. p @ replicate 16 0), aead_dec = (\<lambda>k n c a. Some (take (length c - 16) c)),
      from_iso = (\<lambda>s. Some (Aware (int (length s)))), iso_format = (\<lambda>t. replicate (nat t) 48 @ us ''+00:00''),
      udecimal = (\<lambda>c. if 48 \<le> c \<and> c \<le> 57 then Some (c - 48) else None)\<rparr>"

lemma demo_env_simps [simp]:
  "nfc demo_env s" "frepr demo_env = frepr demo_crypto" "hf demo_env = hf demo_crypto"
  "nfc demo_env = nfc demo_crypto"
  "ed_public demo_env = (\<lambda>sk. sk)" "ed_sign demo_env = (\<lambda>sk m. replicate 64 1)" "ed_load demo_env pub"
  "ed_verify demo_env = (\<lambda>pk sg m. sg = replicate 64 1)"
  "from_iso demo_env = (\<lambda>s. Some (Aware (int (length s))))"
  "iso_format demo_env = (\<lambda>t. replicate (nat t) 48 @ us ''+00:00'')"
  "udecimal demo_env = (\<lambda>c. if 48 \<le> c \<and> c \<le> 57 then Some (c - 48) else None)"
  "x_public demo_env = (\<lambda>_. replicate 32 3)" "x_exchange demo_env = (\<lambda>_ _. Some [9])"
  "hkdf demo_env = (\<lambda>_ _. [8])" "aead_enc demo_env = (\<lambda>k n p a. p @ replicate 16 0)"
  "aead_dec demo_env = (\<lambda>k n c a. Some (take (length c - 16) c))"
  by (simp_all add: demo_env_def crypto.defs demo_crypto_def)

text \<open>A session and a decision on which a renewal succeeds.\<close>

definition demo_check :: "pystr \<Rightarrow> check_dict" where
  "demo_check n = [(us ''name'', JStr n), (us ''passed'', JBool True)]"

definition demo_decision :: "pystr \<Rightarrow> pystr \<Rightarrow> pystr \<Rightarrow> renewal_decision" where
  "demo_decision mh nh eh =
     \<lparr>rd_kind = us ''wcm-renewal/v1'', rd_algorithm = us ''Ed25519'', rd_renewed = True,
      rd_weights_hash = demo_hash 0, rd_manifest_hash = mh, rd_challenge_nonce_hash = nh,
      rd_evidence_hash = eh, rd_issued_at = us ''Z'', rd_expires_at = us ''00Z'',
      rd_evidence_expires_at = Some (us ''000Z''), rd_checks = map demo_check REQUIRED_RENEWAL_CHECKS,
      rd_public_key_b64url = b64url_encode [5], rd_signature_b64url = b64url_encode (replicate 64 1)\<rparr>"

definition demo_renewable :: "pystr \<Rightarrow> unit session" where
  "demo_renewable mh = demo_session\<lparr>ses_cadence := 86400, ses_weights_hash := Some (demo_hash 0),
     ses_manifest_hash := Some mh, ses_renewal_public_key := Some (b64url_encode [5])\<rparr>"

lemma demo_checks_ok:
  "checks_complete (map demo_check REQUIRED_RENEWAL_CHECKS)"
  "list_all check_passed (map demo_check REQUIRED_RENEWAL_CHECKS)"
  by (simp_all add: checks_complete_def demo_check_def check_name_def check_passed_def
      REQUIRED_RENEWAL_CHECKS_def)

lemma demo_identities:
  obtains mh nh eh where "manifest_identity demo_env demo_manifest = Inr mh"
    "nonce_hash demo_env (cq_nonce_echo (ev_cpu demo_evidence)) = Inr nh"
    "evidence_identity demo_env demo_evidence = Inr eh"
    "no_surrogates mh" "no_surrogates nh" "no_surrogates eh"
proof -
  obtain mh where mh: "manifest_identity demo_env demo_manifest = Inr mh"
    using canonicalize_clean [OF demo_manifest_clean, of "frepr demo_crypto" True]
    by (auto simp: manifest_identity_eq)
  obtain eh where eh: "evidence_identity demo_env demo_evidence = Inr eh"
    using canonicalize_clean [OF demo_evidence_clean, of "frepr demo_crypto" True]
    by (auto simp: evidence_identity_eq)
  obtain nh where nh: "nonce_hash demo_env (cq_nonce_echo (ev_cpu demo_evidence)) = Inr nh"
    by (auto simp: nonce_hash_def demo_evidence_def utf8_encode_def)
  show ?thesis
    using that [OF mh nh eh identity_no_surrogates(1) [OF mh] identity_no_surrogates(3) [OF nh]
        identity_no_surrogates(2) [OF eh]] .
qed

lemma demo_decision_clean:
  "no_surrogates mh \<Longrightarrow> no_surrogates nh \<Longrightarrow> no_surrogates eh \<Longrightarrow>
   clean (nfc demo_env) 64 (rd_signing_payload (demo_decision mh nh eh))"
  by (simp add: demo_decision_def rd_signing_payload_def present_def map_filter_simps clean_str_def
      demo_check_def REQUIRED_RENEWAL_CHECKS_def)

lemma demo_parse_cadence: "parse_cadence demo_env (us ''24h'') = Inr 86400"
  by (simp add: parse_cadence_def us_def re_space_def CADENCE_UNITS_def digits_value_def)

lemma demo_renewal_gate:
  assumes "manifest_identity demo_env demo_manifest = Inr mh"
    "nonce_hash demo_env (cq_nonce_echo (ev_cpu demo_evidence)) = Inr nh"
    "evidence_identity demo_env demo_evidence = Inr eh"
    "no_surrogates mh" "no_surrogates nh" "no_surrogates eh"
  shows "renewal_gate demo_env demo_manifest (demo_decision mh nh eh) 7 demo_evidence (demo_renewable mh) = Inr ()"
proof -
  have u: "unb64url (b64url_encode [5]) = Inr [5]"
    "unb64url (b64url_encode (replicate 64 1)) = Inr (replicate 64 1)"
    by (simp_all add: unb64url_encode)
  obtain msg where msg: "canon_bytes demo_env (rd_signing_payload (demo_decision mh nh eh)) = Inr msg"
    using canonicalize_clean [OF demo_decision_clean [OF assms(4-6)], of "frepr demo_env" True] by blast
  have v: "rd_verify demo_env (demo_decision mh nh eh) (b64url_encode [5]) = Inr True"
    using msg u by (simp add: rd_verify_True_iff) (simp add: demo_decision_def u)
  have f: "ses_manifest_hash (demo_renewable mh) = Some mh"
    "ses_renewal_public_key (demo_renewable mh) = Some (b64url_encode [5])"
    "ses_weights_hash (demo_renewable mh) = Some (demo_hash 0)" "ses_cadence (demo_renewable mh) = 86400"
    "ses_tts (demo_renewable mh) = secure_tsc"
    by (simp_all add: demo_renewable_def demo_session_def)
  have g: "rd_renewed (demo_decision mh nh eh)" "rd_checks (demo_decision mh nh eh) = map demo_check REQUIRED_RENEWAL_CHECKS"
    "rd_weights_hash (demo_decision mh nh eh) = demo_hash 0" "rd_manifest_hash (demo_decision mh nh eh) = mh"
    "rd_challenge_nonce_hash (demo_decision mh nh eh) = nh" "rd_evidence_hash (demo_decision mh nh eh) = eh"
    "parse_stamp demo_env (rd_issued_at (demo_decision mh nh eh)) = Some 6"
    "parse_stamp demo_env (rd_expires_at (demo_decision mh nh eh)) = Some 8"
    by (simp_all add: demo_decision_def parse_stamp_def replace_Z_def us_def)
  have m: "cu_attestation_cadence (m_custody demo_manifest) = us ''24h''"
    "rp_trusted_time_source (m_release_policy demo_manifest) = secure_tsc"
    by (simp_all add: demo_manifest_def demo_policy_def)
  show ?thesis
    unfolding renewal_gate_iff f g m using g(1) assms(1-3) v demo_checks_ok demo_parse_cadence by simp
qed

lemma demo_renewal:
  "\<exists>mh nh eh s'. apply_renewal demo_env demo_manifest (demo_decision mh nh eh) 7 demo_evidence (demo_renewable mh) () =
     (Inr (), s', ()) \<and> ses_deadline s' = 9"
proof -
  obtain mh nh eh where ids: "manifest_identity demo_env demo_manifest = Inr mh"
    "nonce_hash demo_env (cq_nonce_echo (ev_cpu demo_evidence)) = Inr nh"
    "evidence_identity demo_env demo_evidence = Inr eh"
    "no_surrogates mh" "no_surrogates nh" "no_surrogates eh" by (rule demo_identities)
  obtain rid where rid: "renewal_id demo_env (demo_decision mh nh eh) = Inr rid"
    using canonicalize_clean [OF demo_decision_clean [OF ids(4-6)], of "frepr demo_env" True]
    by (auto simp: renewal_id_def canonical_hash_def)
  have "apply_renewal demo_env demo_manifest (demo_decision mh nh eh) 7 demo_evidence (demo_renewable mh) () =
      (Inr (), (demo_renewable mh)\<lparr>ses_used_renewals := {rid}, ses_deadline := 9, ses_ops := 0\<rparr>, ())"
    unfolding apply_renewal_def obind_tick demo_renewal_gate [OF ids] rid
    by (simp add: demo_renewable_def demo_session_def secs_def time_add_def max_time_def bounded_deadline_def
        demo_decision_def replace_Z_def us_def)
  then show ?thesis by (intro exI [of _ mh] exI [of _ nh] exI [of _ eh]) simp
qed

theorem renewal_requires_verified_decision_witness:
  "\<exists>mh nh eh. rd_renewed (demo_decision mh nh eh) \<and>
     manifest_identity demo_env demo_manifest = Inr (rd_manifest_hash (demo_decision mh nh eh)) \<and>
     7 < ses_deadline (demo_renewable mh)"
proof -
  obtain mh nh eh s' where
    "apply_renewal demo_env demo_manifest (demo_decision mh nh eh) 7 demo_evidence (demo_renewable mh) () = (Inr (), s', ())"
    using demo_renewal by blast
  from renewal_requires_verified_decision [OF this] show ?thesis by blast
qed

text \<open>Identifiers of applied renewals are never forgotten.\<close>

lemma used_renewals_run:
  "ses_used_renewals (fst x) \<subseteq> ses_used_renewals (fst (run (step env) cs x))"
proof (induction cs arbitrary: x)
  case (Cons c cs)
  have "ses_used_renewals (fst x) \<subseteq> ses_used_renewals (fst (snd (step env c x)))"
    using step_disj [of x env c] by (auto dest!: keptD(6))
  with Cons [of "snd (step env c x)"] show ?case by auto
qed simp

text \<open>
  A renewal decision is applied at most once: after it was applied, and after
  any further calls on the session, every decision with the same identifier is refused, even
  with other evidence or another manifest, so a captured decision cannot be replayed.
\<close>

theorem renewal_applied_at_most_once:
  assumes "apply_renewal env m d t ev s w = (Inr (), s', w')"
    and "run (step env) cs (s', w') = (s2, w2)"
    and "renewal_id env d' = renewal_id env d"
  shows "fst (apply_renewal env m' d' t' ev' s2 w2) \<noteq> Inr ()"
proof
  assume again: "fst (apply_renewal env m' d' t' ev' s2 w2) = Inr ()"
  obtain s3 w3 where "apply_renewal env m' d' t' ev' s2 w2 = (Inr (), s3, w3)"
    using again by (metis prod.collapse)
  from apply_renewal_success(5) [OF this] apply_renewal_success(5) [OF assms(1)] assms(3)
  obtain rid where "rid \<in> ses_used_renewals s'" "rid \<notin> ses_used_renewals s2" by force
  with used_renewals_run [of "(s', w')" env cs] assms(2) show False by auto
qed

theorem renewal_applied_at_most_once_witness:
  "\<exists>mh nh eh s'.
     apply_renewal demo_env demo_manifest (demo_decision mh nh eh) 7 demo_evidence (demo_renewable mh) () = (Inr (), s', ()) \<and>
     fst (apply_renewal demo_env demo_manifest (demo_decision mh nh eh) 8 demo_evidence s' ()) \<noteq> Inr ()"
proof -
  obtain mh nh eh s' where a:
    "apply_renewal demo_env demo_manifest (demo_decision mh nh eh) 7 demo_evidence (demo_renewable mh) () = (Inr (), s', ())"
    using demo_renewal by blast
  have "run (step demo_env) [] (s', ()) = (s', ())" by simp
  from renewal_applied_at_most_once [OF a this refl] a show ?thesis by blast
qed

text \<open>
  Renewal: A refused renewal, a denial included, moves neither the deadline nor the
  operation count: either the deadline had already passed and the key is wiped, or custody
  continues on the unextended remainder of the lease.
\<close>

theorem refused_renewal_extends_nothing:
  assumes "apply_renewal env m d t ev s w = (Inl e, s', w')" and "ses_state s = holding"
  shows "if t < ses_deadline s
         then ses_state s' = holding \<and> ses_key s' = ses_key s \<and> ses_deadline s' = ses_deadline s \<and>
              ses_ops s' = ses_ops s \<and> w' = w
         else ses_state s' = wiped \<and> ses_key s' = []"
  using renewal_effect [OF assms] assms(2) by (auto simp: lapse_def)

theorem refused_renewal_extends_nothing_witness:
  "if (1 :: time) < ses_deadline demo_session
   then ses_state demo_session = holding \<and> ses_key demo_session = ses_key demo_session \<and>
        ses_deadline demo_session = ses_deadline demo_session \<and> ses_ops demo_session = ses_ops demo_session \<and> () = ()
   else ses_state demo_session = wiped \<and> ses_key demo_session = []"
  by (rule refused_renewal_extends_nothing [of demo_env demo_manifest "demo_decision [] [] []" 1 demo_evidence])
     (simp_all add: apply_renewal_def obind_tick renewal_gate_def demo_session_def secs_def)

subsection \<open>Cadence texts\<close>

text \<open>What is relied on of the digit table: on ASCII it is the usual one.\<close>

definition ascii_digits :: "('x) env_scheme \<Rightarrow> bool" where
  "ascii_digits env \<longleftrightarrow>
     (\<forall>c < 128. udecimal env c = (if 48 \<le> c \<and> c \<le> 57 then Some (c - 48) else None))"

lemma digits_value_nonneg: "0 \<le> digits_value env ds"
proof -
  have "0 \<le> foldl (\<lambda>n c. 10 * n + (case udecimal env c of Some d \<Rightarrow> int d | None \<Rightarrow> 0)) a ds" if "0 \<le> a" for a
    using that by (induction ds arbitrary: a) (auto split: option.splits)
  then show ?thesis by (simp add: digits_value_def)
qed

lemma parse_cadence_pos: "parse_cadence env text = Inr c \<Longrightarrow> 0 < c"
proof -
  assume "parse_cadence env text = Inr c"
  then obtain ds u k where "c = digits_value env ds * k" "digits_value env ds \<noteq> 0" "CADENCE_UNITS u = Some k"
    by (auto simp: parse_cadence_def Let_def split: if_splits list.splits option.splits)
  moreover from this have "0 < k" by (auto simp: CADENCE_UNITS_def split: if_splits)
  ultimately show "0 < c"
    using digits_value_nonneg [of env ds] by (simp add: zero_less_mult_iff)
qed

lemma digits_value_nat_str: "ascii_digits env \<Longrightarrow> digits_value env (nat_str n) = int n"
proof (induction n rule: nat_str.induct)
  case (1 n)
  have d: "udecimal env (48 + k) = Some k" if "k < 10" for k
    using 1(2) that by (simp add: ascii_digits_def)
  show ?case
  proof (cases "n < 10")
    case True
    then show ?thesis using d [of n] by (subst nat_str.simps) (simp add: digits_value_def)
  next
    case False
    have "digits_value env (nat_str n) = 10 * digits_value env (nat_str (n div 10)) + int (n mod 10)"
      using d [of "n mod 10"] False by (subst nat_str.simps) (simp add: digits_value_def)
    with 1(1) [OF False 1(2)] show ?thesis by (simp add: zdiv_int zmod_int)
  qed
qed

lemma takeWhile_digits:
  assumes "ascii_digits env" "u \<in> {100, 104, 109, 115}"
  shows "takeWhile (\<lambda>c. udecimal env c \<noteq> None) (nat_str n @ u # r) = nat_str n"
    "dropWhile (\<lambda>c. udecimal env c \<noteq> None) (nat_str n @ u # r) = u # r"
proof -
  have "udecimal env c \<noteq> None" if "c \<in> set (nat_str n)" for c
    using nat_str_digits [OF that] assms(1) by (simp add: ascii_digits_def)
  moreover have "udecimal env u = None" using assms by (auto simp: ascii_digits_def)
  ultimately show "takeWhile (\<lambda>c. udecimal env c \<noteq> None) (nat_str n @ u # r) = nat_str n"
    "dropWhile (\<lambda>c. udecimal env c \<noteq> None) (nat_str n @ u # r) = u # r"
    by (simp_all add: takeWhile_append2 dropWhile_append2)
qed

text \<open>
  Cadence: The decimal digits of a positive number followed by one of the units
  d, h, m, s parse to that many units, in seconds.
\<close>

theorem parse_cadence_correct:
  assumes "ascii_digits env" and "0 < n" and "length (nat_str n) \<le> 4300"
    and "CADENCE_UNITS u = Some k"
  shows "parse_cadence env (nat_str n @ [u]) = Inr (int n * k)"
proof -
  have u: "u \<in> {100, 104, 109, 115}" using assms(4) by (auto simp: CADENCE_UNITS_def split: if_splits)
  have nsp: "\<not> re_space c" if "48 \<le> c \<and> c \<le> 57 \<or> c \<in> {100, 104, 109, 115}" for c
    using that by (auto simp: re_space_def)
  obtain c cs where c: "nat_str n = c # cs" using nat_str_nonempty [of n] by (cases "nat_str n") auto
  then have "\<not> re_space c" using nat_str_digits [of c n] by (intro nsp) auto
  then have dw: "dropWhile re_space (nat_str n @ [u]) = nat_str n @ [u]" using c by simp
  show ?thesis
    unfolding parse_cadence_def Let_def dw takeWhile_digits [OF assms(1) u]
    using nsp [of u] u assms by (simp add: nat_str_nonempty digits_value_nat_str)
qed

theorem parse_cadence_correct_witness: "parse_cadence demo_env (nat_str 15 @ [109]) = Inr (int 15 * 60)"
  by (rule parse_cadence_correct)
     (simp_all add: ascii_digits_def nat_str.simps CADENCE_UNITS_def)

subsection \<open>The idle monitor\<close>

text \<open>
  One pass of the loop of \<open>monitor\<close>: the reading \<open>tick\<close> takes, the reading
  \<open>remaining_seconds\<close> takes, the calls other tasks make on the session while the monitor
  sleeps, and how the sleep ends (an exception is a cancellation).
\<close>

record pass =
  ps_tick :: "time result"
  ps_remaining :: "time result"
  ps_meanwhile :: "cmd list"
  ps_sleep :: "exn option"

text \<open>\<open>finally: self.zeroize()\<close>: an exception of the hook replaces the pending outcome.\<close>

definition finally_zeroize :: "unit result \<Rightarrow> 'w config \<Rightarrow> unit result option \<times> 'w config" where
  "finally_zeroize r x = (case zeroize (fst x) (snd x) of (Inl e, y) \<Rightarrow> (Some (Inl e), y) | (Inr _, y) \<Rightarrow> (Some r, y))"

text \<open>\<open>None\<close>: the monitor is still running after the given passes.\<close>

fun monitor_loop :: "('x) env_scheme \<Rightarrow> pass list \<Rightarrow> 'w config \<Rightarrow> unit result option \<times> 'w config" where
  "monitor_loop env [] x = (None, x)"
| "monitor_loop env (p # ps) x =
     (case (if ses_state (fst x) = wiped then (Inr wiped, x)
            else case ps_tick p of Inl e \<Rightarrow> (Inl e, x) | Inr t \<Rightarrow> tick t (fst x) (snd x)) of
        (Inl e, y) \<Rightarrow> finally_zeroize (Inl e) y
      | (Inr wiped, y) \<Rightarrow> finally_zeroize (Inr ()) y
      | (Inr holding, y) \<Rightarrow>
          (case ps_remaining p of
             Inl e \<Rightarrow> finally_zeroize (Inl e) y
           | Inr _ \<Rightarrow>
               let z = run (step env) (ps_meanwhile p) y in
               (case ps_sleep p of Some e \<Rightarrow> finally_zeroize (Inl e) z | None \<Rightarrow> monitor_loop env ps z)))"

definition monitor :: "('x) env_scheme \<Rightarrow> pyfloat \<Rightarrow> pass list \<Rightarrow> 'w config \<Rightarrow> unit result option \<times> 'w config" where
  "monitor env poll_interval ps x =
     (case poll_interval of
        Finite q \<Rightarrow> if q \<le> 0 then (Some (Inl (ValueError (us ''poll_interval must be finite and greater than zero''))), x)
                    else monitor_loop env ps x
      | _ \<Rightarrow> (Some (Inl (ValueError (us ''poll_interval must be finite and greater than zero''))), x))"

lemma finally_zeroize_wiped: "finally_zeroize r x = (q, y) \<Longrightarrow> ses_state (fst y) = wiped"
  by (cases "ses_state (fst x)"; cases "stop_result (fst x) (snd x)")
     (auto simp: finally_zeroize_def zeroize_holding)

lemma custody_inv_zeroize:
  assumes "custody_inv key s0 w0 x" "zeroize (fst x) (snd x) = (r, y)"
  shows "custody_inv key s0 w0 y"
proof -
  have "snd (step env CZeroize x) = y" for env :: env
    using assms(2) by (auto simp: step_def omap_eq split: prod.splits)
  with custody_inv_step [OF assms(1)] show ?thesis by metis
qed

lemma custody_inv_tick:
  assumes "custody_inv key s0 w0 x" "tick t (fst x) (snd x) = (r, y)"
  shows "custody_inv key s0 w0 y"
proof -
  have "snd (step env (CTick t) x) = y" for env :: env
    using assms(2) by (auto simp: step_def omap_eq split: prod.splits)
  with custody_inv_step [OF assms(1)] show ?thesis by metis
qed

lemma custody_inv_finally:
  "custody_inv key s0 w0 x \<Longrightarrow> finally_zeroize r x = (q, y) \<Longrightarrow> custody_inv key s0 w0 y"
  by (auto simp: finally_zeroize_def split: prod.splits sum.splits dest: custody_inv_zeroize)

lemma monitor_loop_inv:
  assumes "custody_inv key s0 w0 x" "monitor_loop env ps x = (Some r, y)"
  shows "custody_inv key s0 w0 y \<and> ses_state (fst y) = wiped"
  using assms
proof (induction ps arbitrary: x)
  case (Cons p ps)
  let ?t = "if ses_state (fst x) = wiped then (Inr wiped, x)
    else case ps_tick p of Inl e \<Rightarrow> (Inl e, x) | Inr t \<Rightarrow> tick t (fst x) (snd x)"
  obtain q z where t: "?t = (q, z)" by (metis surj_pair)
  then have z: "custody_inv key s0 w0 z"
    using Cons.prems(1) by (auto split: if_splits sum.splits intro: custody_inv_tick [OF Cons.prems(1)])
  have fin: ?case if "finally_zeroize u v = (Some r, y)" "custody_inv key s0 w0 v" for u v
    using custody_inv_finally [OF that(2,1)] finally_zeroize_wiped [OF that(1)] by simp
  have run: "custody_inv key s0 w0 (run (step env) (ps_meanwhile p) z)" by (rule custody_inv_run [OF z])
  show ?case
  proof (cases q)
    case (Inl e)
    with Cons.prems(2) t z show ?thesis by (intro fin [of "Inl e" z]) simp_all
  next
    case (Inr st)
    have ml: "monitor_loop env (p # ps) x = (case st of wiped \<Rightarrow> finally_zeroize (Inr ()) z
       | holding \<Rightarrow> (case ps_remaining p of Inl e \<Rightarrow> finally_zeroize (Inl e) z
           | Inr _ \<Rightarrow> (case ps_sleep p of Some e \<Rightarrow> finally_zeroize (Inl e) (run (step env) (ps_meanwhile p) z)
              | None \<Rightarrow> monitor_loop env ps (run (step env) (ps_meanwhile p) z))))"
      unfolding monitor_loop.simps t Inr Let_def by simp
    note e = Cons.prems(2) [unfolded ml]
    show ?thesis
    proof (cases "st = wiped \<or> isl (ps_remaining p) \<or> ps_sleep p \<noteq> None")
      case True
      with e z run show ?thesis
        by (cases st; cases "ps_remaining p"; cases "ps_sleep p") (simp_all, (erule fin, assumption)+)
    next
      case False
      with e Cons.IH [OF run] show ?thesis by (cases st; cases "ps_remaining p") simp_all
    qed
  qed
qed simp

text \<open>
  C35 (monitor). However the monitor ends, by the deadline, by a clock that raises, by
  cancellation or by an exception of the teardown hook: the session it leaves behind is
  wiped, holds no key, and the hook has run exactly once, whatever other tasks did with the
  session while it slept.
\<close>

theorem monitor_ends_wiped:
  assumes "new_session key cad tts mo wh mh pk t0 hook = Inr s0" and "0 < q"
    and "monitor env (Finite q) ps (s0, w0) = (Some r, (s, w))"
  shows "is_wiped s \<and> ses_key s = [] \<and> w = (case hook of None \<Rightarrow> w0 | Some h \<Rightarrow> snd (h w0))"
proof -
  have "monitor_loop env ps (s0, w0) = (Some r, (s, w))" using assms(2,3) by (simp add: monitor_def)
  from monitor_loop_inv [OF custody_inv_new [OF assms(1)] this] new_session_fields(5) [OF assms(1)]
  show ?thesis by (auto simp: custody_inv_def is_wiped_def stop_world_def)
qed

theorem monitor_ends_wiped_witness:
  "is_wiped (wipe demo_hooked) \<and> ses_key (wipe demo_hooked) = [] \<and>
   1 = (case Some (\<lambda>w. (None :: exn option, Suc w)) of None \<Rightarrow> 0 | Some h \<Rightarrow> snd (h 0))"
proof (rule monitor_ends_wiped [of _ _ _ _ _ _ _ _ _ _ 1])
  show "new_session [1, 2] 60 secure_tsc None None None None 0 (Some (\<lambda>w. (None, Suc w))) = Inr demo_hooked"
    by (simp add: new_session_def demo_hooked_def time_add_def max_time_def secs_def)
  show "monitor demo_env (Finite 1)
      [\<lparr>ps_tick = Inr 1, ps_remaining = Inr 1, ps_meanwhile = [], ps_sleep = Some (HookError 0)\<rparr>]
      (demo_hooked, 0) = (Some (Inl (HookError 0)), (wipe demo_hooked, 1))"
    by (simp add: monitor_def tick_eq finally_zeroize_def zeroize_holding demo_hooked_def stop_result_def
        stop_world_def secs_def)
qed simp

subsection \<open>The teardown adapter\<close>

text \<open>\<open>ServingShutdown\<close>: four callbacks on the world and a flag set under a lock.\<close>

record 'w shutdown =
  sd_stop_admission :: "'w hook"
  sd_cancel_inflight :: "'w hook"
  sd_unload_weights :: "'w hook"
  sd_terminate :: "'w hook"

text \<open>The section under the lock is atomic: it sets the flag and says whether to go on.\<close>

definition sd_enter :: "bool \<Rightarrow> bool \<times> bool" where
  "sd_enter stopped = (\<not> stopped, True)"

text \<open>
  One \<open>try: callback() except Exception\<close>: an \<open>Exception\<close> is collected, anything else
  (\<open>Inl\<close>) leaves the block.
\<close>

definition sd_try :: "'w hook \<Rightarrow> exn list \<Rightarrow> 'w \<Rightarrow> (exn + exn list \<times> bool) \<times> 'w" where
  "sd_try h errors w =
     (case h w of
        (None, w') \<Rightarrow> (Inr (errors, True), w')
      | (Some e, w') \<Rightarrow> if is_Exception e then (Inr (errors @ [e], False), w') else (Inl e, w'))"

text \<open>The body of the outer \<open>try\<close>: the pending exception, if any, and the collected ones.\<close>

definition sd_body :: "'w shutdown \<Rightarrow> 'w \<Rightarrow> exn option \<times> exn list \<times> 'w" where
  "sd_body d w =
     (case sd_try (sd_stop_admission d) [] w of
        (Inl e, w1) \<Rightarrow> (Some e, [], w1)
      | (Inr (es1, _), w1) \<Rightarrow>
          (case sd_try (sd_cancel_inflight d) es1 w1 of
             (Inl e, w2) \<Rightarrow> (Some e, es1, w2)
           | (Inr (es2, False), w2) \<Rightarrow> (None, es2, w2)
           | (Inr (es2, True), w2) \<Rightarrow>
               (case sd_try (sd_unload_weights d) es2 w2 of
                  (Inl e, w3) \<Rightarrow> (Some e, es2, w3)
                | (Inr (es3, _), w3) \<Rightarrow> (None, es3, w3))))"

definition sd_call :: "'w shutdown \<Rightarrow> (bool \<times> 'w) hook" where
  "sd_call d bw =
     (case bw of (stopped, w) \<Rightarrow>
       (case sd_enter stopped of (proceed, stopped') \<Rightarrow>
          if \<not> proceed then (None, (stopped', w))
          else case sd_body d w of (pending, errors, w1) \<Rightarrow>
            (case sd_try (sd_terminate d) errors w1 of
               (Inl e, w2) \<Rightarrow> (Some e, (stopped', w2))
             | (Inr (errors', _), w2) \<Rightarrow>
                 (case pending of
                    Some e \<Rightarrow> (Some e, (stopped', w2))
                  | None \<Rightarrow>
                      if errors' \<noteq> []
                      then (Some (ExceptionGroup (us ''serving shutdown failed'') errors'), (stopped', w2))
                      else (None, (stopped', w2))))))"

text \<open>Callers that race for the lock: the flags they are given, in the order they enter.\<close>

fun sd_race :: "nat \<Rightarrow> bool \<Rightarrow> bool list" where
  "sd_race 0 stopped = []"
| "sd_race (Suc n) stopped = (case sd_enter stopped of (p, stopped') \<Rightarrow> p # sd_race n stopped')"

lemma sd_race_stopped: "sd_race n True = replicate n False"
  by (induction n) (simp_all add: sd_enter_def)

text \<open>
  The first call stops admission, then cancels in-flight work, unloads the
  weights only if the cancellation returned, and terminates in every case, also when an
  earlier callback raised; of any number of racing callers exactly the first goes on, and a
  later call does nothing.
\<close>

theorem shutdown_order:
  "(case sd_stop_admission d w of (ra, wa) \<Rightarrow>
     case sd_cancel_inflight d wa of (rc, wc) \<Rightarrow>
       snd (sd_call d (False, w)) =
         (True, snd (sd_terminate d
            (if (case ra of None \<Rightarrow> False | Some e \<Rightarrow> \<not> is_Exception e) then wa
             else if rc = None then snd (sd_unload_weights d wc) else wc)))) \<and>
   sd_call d (True, w) = (None, (True, w)) \<and>
   sd_race (Suc n) False = True # replicate n False"
proof -
  obtain ra wa where a: "sd_stop_admission d w = (ra, wa)" by (metis surj_pair)
  obtain rc wc where c: "sd_cancel_inflight d wa = (rc, wc)" by (metis surj_pair)
  obtain ru wu where u: "sd_unload_weights d wc = (ru, wu)" by (metis surj_pair)
  have t: "\<exists>r. sd_try (sd_terminate d) es x = (r, snd (sd_terminate d x))" for es x
    by (auto simp: sd_try_def split: prod.splits option.splits)
  have "\<exists>p es. sd_body d w = (p, es,
      (if (case ra of None \<Rightarrow> False | Some e \<Rightarrow> \<not> is_Exception e) then wa else if rc = None then wu else wc))"
    by (auto simp: sd_body_def sd_try_def a c u split: option.splits)
  then obtain p es where body: "sd_body d w = (p, es,
      (if (case ra of None \<Rightarrow> False | Some e \<Rightarrow> \<not> is_Exception e) then wa else if rc = None then wu else wc))"
    by blast
  have "snd (sd_call d (False, w)) = (True, snd (sd_terminate d x))" if "sd_body d w = (p, es, x)" for x
    using t [of es x] that by (auto simp: sd_call_def sd_enter_def split: sum.splits option.splits if_splits)
  from this [OF body] have "snd (sd_call d (False, w)) = (True, snd (sd_terminate d
      (if (case ra of None \<Rightarrow> False | Some e \<Rightarrow> \<not> is_Exception e) then wa else if rc = None then wu else wc)))" .
  moreover have "sd_call d (True, w) = (None, (True, w))" by (simp add: sd_call_def sd_enter_def)
  moreover have "sd_race (Suc n) False = True # replicate n False"
    by (simp add: sd_enter_def sd_race_stopped)
  ultimately show ?thesis by (simp only: a c u prod.case snd_conv simp_thms)
qed

end
