(* ===== verification/Quote.thy ===== *)
theory Quote
  imports Seal
begin

section \<open>Quote verification (\<open>_quote_verify.py\<close>, \<open>_certificates.py\<close>)\<close>

text \<open>
  The trust decision: the certificate chain of a quote up to a trusted root, the report
  signature under the leaf key, the binding of REPORT_DATA to the challenge nonce and the
  transport key, and the signed launch measurement. Certificates are an abstract type
  \<open>'c\<close>; what the \<open>cryptography\<close> package reads from them and how it verifies a
  signature are fields of the parameter record \<open>pki\<close>, each able to raise, as the package
  parses lazily. The main result is that a verified quote has a path to a trusted root, a
  valid signature and the expected binding.
\<close>

subsection \<open>\<open>base64.b64decode\<close>\<close>

definition std64_val :: "nat \<Rightarrow> nat option" where
  "std64_val c = (if 65 \<le> c \<and> c \<le> 90 then Some (c - 65)
                  else if 97 \<le> c \<and> c \<le> 122 then Some (c - 71)
                  else if 48 \<le> c \<and> c \<le> 57 then Some (c + 4)
                  else if c = 43 then Some 62 else if c = 47 then Some 63 else None)"

text \<open>
  The lenient decoder: characters outside the alphabet are skipped, and decoding stops at the
  padding that completes a group. Arguments: position in the group of four, pending bits,
  padding seen. An incomplete last group is an error.
\<close>

fun a2b_base64 :: "nat \<Rightarrow> nat \<Rightarrow> nat \<Rightarrow> pystr \<Rightarrow> nat list option" where
  "a2b_base64 quad left pads [] = (if quad = 0 then Some [] else None)"
| "a2b_base64 quad left pads (c # s) =
     (if c = 61
      then if quad \<ge> 2
           then if quad + pads + 1 \<ge> 4 then Some [] else a2b_base64 quad left (pads + 1) s
           else a2b_base64 quad left pads s
      else case std64_val c of
        None \<Rightarrow> a2b_base64 quad left pads s
      | Some v \<Rightarrow>
          if quad = 0 then a2b_base64 1 v 0 s
          else if quad = 1 then map_option (Cons (left * 4 + v div 16)) (a2b_base64 2 (v mod 16) 0 s)
          else if quad = 2 then map_option (Cons (left * 16 + v div 4)) (a2b_base64 3 (v mod 4) 0 s)
          else map_option (Cons (left * 64 + v)) (a2b_base64 0 0 0 s))"

definition b64decode :: "pystr \<Rightarrow> bytes result" where
  "b64decode s =
     (if list_ex (\<lambda>c. c \<ge> 128) s
      then Inl (ValueError (us ''string argument should contain only ASCII characters''))
      else case a2b_base64 0 0 0 s of
        None \<Rightarrow> Inl (BinasciiError (us ''Incorrect padding''))
      | Some bs \<Rightarrow> Inr (map of_nat bs))"

subsection \<open>Certificates as a parameter\<close>

datatype public_key = EC bool \<comment> \<open>on P-384\<close> | RSA | Ed25519 | OtherKey

fun is_EC :: "public_key \<Rightarrow> bool" where
  "is_EC (EC b) = True"
| "is_EC _ = False"

datatype profile = ECDSA_SHA256 | ECDSA_SHA384 | RSA_PSS_SHA256 | RSA_PKCS1_SHA256 | PURE_ED25519

text \<open>
  \<open>load_x509\<close> is the PEM loader of the X.509 package, which raises \<open>ValueError\<close> on most malformed input
  and exceptions of its own on some, such as \<open>x509.InvalidVersion\<close>;
  \<open>cert_verify pki issuer cert\<close> is the outcome of verifying the certificate's signature
  under the issuer's key with the certificate's own parameters (\<open>None\<close>: it verifies);
  \<open>report_verify pki cert profile signature body\<close> likewise for a report.
\<close>

record 'c pki =
  load_x509 :: "bytes \<Rightarrow> 'c result"
  serial_number :: "'c \<Rightarrow> int"
  validity :: "'c \<Rightarrow> (time \<times> time) result"
  subject :: "'c \<Rightarrow> pystr result"
  public_key :: "'c \<Rightarrow> public_key result"
  cert_verify :: "'c \<Rightarrow> 'c \<Rightarrow> exn option"
  report_verify :: "'c \<Rightarrow> profile \<Rightarrow> bytes \<Rightarrow> bytes \<Rightarrow> exn option"
  basic_constraints :: "'c \<Rightarrow> (bool \<times> int option) option result" \<comment> \<open>cA, pathLenConstraint\<close>
  key_cert_sign :: "'c \<Rightarrow> bool option result" \<comment> \<open>keyUsage, when present\<close>
  encode_dss_signature :: "int \<Rightarrow> int \<Rightarrow> bytes"
  json_loads :: "bytes \<Rightarrow> json result"

definition load_pem_certificate :: "('c, 'x) pki_scheme \<Rightarrow> bool \<Rightarrow> bytes \<Rightarrow> 'c result" where
  "load_pem_certificate pki allow_non_positive_serial data =
     (case load_x509 pki data of
        Inl e \<Rightarrow> if is_ValueError e then Inl (ValueError (us ''provider certificate is not accepted X.509'')) else Inl e
      | Inr c \<Rightarrow>
          if serial_number pki c \<le> 0 \<and> \<not> allow_non_positive_serial
          then Inl (ValueError (us ''provider certificate serial number must be positive''))
          else Inr c)"

record 'c parsed_quote =
  pq_report_body :: bytes
  pq_signature :: bytes
  pq_leaf :: 'c
  pq_intermediates :: "'c list"
  pq_report_data_offset :: nat
  pq_report_signature_algorithm :: pystr
  pq_launch_measurement :: "bytes option"
  pq_snp_report :: "bytes option"

subsection \<open>The reference container\<close>

record json_quote_parser =
  jp_algorithm :: pystr
  jp_report_data_offset :: nat
  jp_launch_offset :: "nat option"
  jp_launch_length :: nat

text \<open>\<open>doc[k]\<close>, and \<open>base64.b64decode\<close> of a member that need not be a text.\<close>

definition json_item :: "(pystr \<times> json) list \<Rightarrow> string \<Rightarrow> json result" where
  "json_item doc k = (case map_of doc (us k) of Some v \<Rightarrow> Inr v | None \<Rightarrow> Inl (KeyError (us k)))"

definition json_b64 :: "json \<Rightarrow> bytes result" where
  "json_b64 v = (case v of JStr s \<Rightarrow> b64decode s | _ \<Rightarrow> Inl (TypeError (us ''argument should be a bytes-like object or ASCII string'')))"

text \<open>\<open>load_pem_certificate(text.encode())\<close>\<close>

definition load_pem_text :: "('c, 'x) pki_scheme \<Rightarrow> json \<Rightarrow> 'c result" where
  "load_pem_text pki v =
     (case v of JStr s \<Rightarrow> rbind (utf8_encode s) (load_pem_certificate pki False) | _ \<Rightarrow> Inl (AttributeError (us ''encode'')))"

text \<open>Iterating over a JSON value: the items of a list, the characters of a text, the keys of an
  object; anything else is a \<open>TypeError\<close>.\<close>

definition json_iter :: "json \<Rightarrow> json list option" where
  "json_iter v =
     (case v of JList vs \<Rightarrow> Some vs | JStr s \<Rightarrow> Some (map (\<lambda>c. JStr [c]) s)
      | JDict d \<Rightarrow> Some (map (JStr \<circ> fst) d) | _ \<Rightarrow> None)"

text \<open>The body of \<open>JsonQuoteParser.parse\<close> on the decoded object, and the exceptions its handlers turn
  into \<open>QuoteFormatError\<close>; any other escapes.\<close>

definition json_quote_body ::
  "('c, 'x) pki_scheme \<Rightarrow> json_quote_parser \<Rightarrow> (pystr \<times> json) list \<Rightarrow> 'c parsed_quote result" where
  "json_quote_body pki p doc =
     rbind (raise_if (case map_of doc (us ''report_data_offset'') of None \<Rightarrow> False
              | Some v \<Rightarrow> v \<noteq> JInt (int (jp_report_data_offset p))) (ValueError (us ''report_data_offset is not the configured one''))) (\<lambda>_.
     rbind (rbind (json_item doc ''leaf_pem'') (load_pem_text pki)) (\<lambda>leaf.
     rbind (case map_of doc (us ''intermediates_pem'') of
              None \<Rightarrow> Inr []
            | Some v \<Rightarrow> (case json_iter v of None \<Rightarrow> Inl (TypeError (us ''object is not iterable'')) | Some ps \<Rightarrow> Inr ps)) (\<lambda>ps.
     rbind (rmap (load_pem_text pki) ps) (\<lambda>inters.
     rbind (rbind (json_item doc ''report_b64'') json_b64) (\<lambda>body.
     rbind (case jp_launch_offset p of
              None \<Rightarrow> Inr None
            | Some off \<Rightarrow>
                if length body < off + jp_launch_length p then Inl (ValueError (us ''report too short for the configured launch measurement''))
                else Inr (Some (slice off (off + jp_launch_length p) body))) (\<lambda>launch.
     rbind (rbind (json_item doc ''signature_b64'') json_b64) (\<lambda>sig.
     Inr \<lparr>pq_report_body = body, pq_signature = sig, pq_leaf = leaf, pq_intermediates = inters,
          pq_report_data_offset = jp_report_data_offset p,
          pq_report_signature_algorithm = jp_algorithm p, pq_launch_measurement = launch,
          pq_snp_report = None\<rparr>)))))))"

fun container_error :: "exn \<Rightarrow> bool" where
  "container_error (KeyError k) = True"
| "container_error (AttributeError a) = True"
| "container_error (OtherError n) = (n = us ''RecursionError'')"
| "container_error e = (is_ValueError e \<or> is_TypeError e)"

definition json_quote_parse ::
  "('c, 'x) pki_scheme \<Rightarrow> json_quote_parser \<Rightarrow> pystr \<Rightarrow> 'c parsed_quote result" where
  "json_quote_parse pki p quote_b64 =
     (case rbind (rbind (b64decode quote_b64) (json_loads pki)) (\<lambda>v.
             case v of JDict doc \<Rightarrow> json_quote_body pki p doc | _ \<Rightarrow> Inl (AttributeError (us ''get''))) of
        Inr q \<Rightarrow> Inr q
      | Inl e \<Rightarrow> if container_error e then Inl (QuoteFormatError (us ''unparseable quote container'')) else Inl e)"

subsection \<open>Signatures and chains\<close>

definition verify_report_signature :: "('c, 'x) pki_scheme \<Rightarrow> 'c parsed_quote \<Rightarrow> unit result" where
  "verify_report_signature pki q =
     rbind (public_key pki (pq_leaf q)) (\<lambda>pub.
       let alg = pq_report_signature_algorithm q;
           run = (\<lambda>p. case report_verify pki (pq_leaf q) p (pq_signature q) (pq_report_body q) of
                        None \<Rightarrow> Inr () | Some e \<Rightarrow> Inl e)
       in if alg = us ''ecdsa-sha256'' \<and> is_EC pub then run ECDSA_SHA256
          else if alg = us ''ecdsa-p384-sha384'' \<and> is_EC pub
          then if pub \<noteq> EC True then Inl (InvalidSignature (us ''SNP report requires a P-384 key''))
               else run ECDSA_SHA384
          else if alg = us ''rsa-pss-sha256'' \<and> pub = RSA then run RSA_PSS_SHA256
          else if alg = us ''rsa-pkcs1-sha256'' \<and> pub = RSA then run RSA_PKCS1_SHA256
          else if alg = us ''ed25519'' \<and> pub = Ed25519 then run PURE_ED25519
          else Inl (InvalidSignature (us ''unsupported report signature profile or key type'')))"

text \<open>What the \<open>except\<close> clauses of this module treat as a failed signature.\<close>

definition signature_failure :: "exn \<Rightarrow> bool" where
  "signature_failure e \<longleftrightarrow>
     is_InvalidSignature e \<or> is_UnsupportedAlgorithm e \<or> is_TypeError e \<or> is_ValueError e"

definition pubkey_verify :: "('c, 'x) pki_scheme \<Rightarrow> 'c \<Rightarrow> 'c \<Rightarrow> unit result" where
  "pubkey_verify pki issuer cert =
     rbind (public_key pki issuer) (\<lambda>pub.
       if pub = OtherKey then Inl (InvalidSignature (us ''unsupported issuer key type''))
       else case cert_verify pki issuer cert of None \<Rightarrow> Inr () | Some e \<Rightarrow> Inl e)"

definition signed_by :: "('c, 'x) pki_scheme \<Rightarrow> 'c \<Rightarrow> 'c \<Rightarrow> bool result" where
  "signed_by pki cert issuer =
     (case pubkey_verify pki issuer cert of
        Inr _ \<Rightarrow> Inr True
      | Inl e \<Rightarrow> if signature_failure e then Inr False else Inl e)"

definition may_issue :: "('c, 'x) pki_scheme \<Rightarrow> 'c \<Rightarrow> int \<Rightarrow> bool result" where
  "may_issue pki issuer certs_below =
     rbind (basic_constraints pki issuer) (\<lambda>bc.
       case bc of
         None \<Rightarrow> Inr False
       | Some (ca, path_length) \<Rightarrow>
           if \<not> ca then Inr False
           else if (case path_length of None \<Rightarrow> False | Some n \<Rightarrow> certs_below > n) then Inr False
           else rbind (key_cert_sign pki issuer) (\<lambda>ku.
                  Inr (case ku of None \<Rightarrow> True | Some b \<Rightarrow> b)))"

definition valid_at :: "('c, 'x) pki_scheme \<Rightarrow> 'c \<Rightarrow> time \<Rightarrow> bool result" where
  "valid_at pki cert now = rbind (validity pki cert) (\<lambda>(nb, na). Inr (nb \<le> now \<and> now \<le> na))"

text \<open>The loop over the links of the chain, then the validity of its top. \<open>Inr None\<close>: no error.\<close>

fun chain_links :: "('c, 'x) pki_scheme \<Rightarrow> time \<Rightarrow> int \<Rightarrow> 'c list \<Rightarrow> pystr option result" where
  "chain_links pki now i [] = Inr None"
| "chain_links pki now i [tp] =
     rbind (valid_at pki tp now) (\<lambda>v.
       if v then Inr None
       else rbind (subject pki tp) (\<lambda>s. Inr (Some (us ''certificate outside validity window: '' @ s))))"
| "chain_links pki now i (a # b # rest) =
     rbind (valid_at pki a now) (\<lambda>v.
       if \<not> v then rbind (subject pki a) (\<lambda>s. Inr (Some (us ''certificate outside validity window: '' @ s)))
       else rbind (signed_by pki a b) (\<lambda>sg.
         if \<not> sg then Inr (Some (us ''broken certificate chain (a link is not signed by the next)''))
         else rbind (may_issue pki b i) (\<lambda>m.
           if \<not> m then rbind (subject pki b) (\<lambda>s.
             Inr (Some (us ''certificate is not a CA permitted to issue at this depth: '' @ s)))
           else chain_links pki now (i + 1) (b # rest))))"

fun roots_error :: "('c, 'x) pki_scheme \<Rightarrow> time \<Rightarrow> 'c \<Rightarrow> int \<Rightarrow> 'c list \<Rightarrow> pystr option result" where
  "roots_error pki now tp below [] = Inr (Some (us ''does not chain to a trusted root''))"
| "roots_error pki now tp below (anchor # roots) =
     rbind (valid_at pki anchor now) (\<lambda>v.
       if \<not> v then roots_error pki now tp below roots
       else if tp = anchor then Inr None
       else rbind (signed_by pki tp anchor) (\<lambda>sg.
         if \<not> sg then roots_error pki now tp below roots
         else rbind (may_issue pki anchor below) (\<lambda>m.
           if m then Inr None else roots_error pki now tp below roots)))"

definition chain_error ::
  "('c, 'x) pki_scheme \<Rightarrow> 'c \<Rightarrow> 'c list \<Rightarrow> 'c list \<Rightarrow> time \<Rightarrow> pystr option result" where
  "chain_error pki leaf intermediates roots now =
     (let chain = leaf # intermediates in
      rbind (chain_links pki now 0 chain) (\<lambda>e.
        case e of
          Some msg \<Rightarrow> Inr (Some msg)
        | None \<Rightarrow> roots_error pki now (last chain) (int (length chain) - 1) roots))"

definition verify_cert_chain ::
  "('c, 'x) pki_scheme \<Rightarrow> 'c \<Rightarrow> 'c list \<Rightarrow> 'c list \<Rightarrow> time \<Rightarrow> pystr option result" where
  "verify_cert_chain pki leaf intermediates roots now =
     (case chain_error pki leaf intermediates roots now of
        Inr e \<Rightarrow> Inr e
      | Inl e \<Rightarrow> if is_Exception e then Inr (Some (us ''malformed certificate while checking the chain'')) else Inl e)"

subsection \<open>The verifier\<close>

record quote_verification =
  qv_verified :: bool
  qv_reason :: "pystr option"
  qv_leaf_subject :: "pystr option"
  qv_snp_report :: "bytes option"
  qv_gpu_measurement :: "pystr option"

definition qv_fail :: "pystr \<Rightarrow> quote_verification" where
  "qv_fail reason = \<lparr>qv_verified = False, qv_reason = Some reason, qv_leaf_subject = None,
     qv_snp_report = None, qv_gpu_measurement = None\<rparr>"

record 'c quote_verifier =
  ve_parse :: "pystr \<Rightarrow> 'c parsed_quote result"
  ve_roots :: "'c list"
  ve_require_launch_measurement :: bool

definition launch_error ::
  "('x) crypto_scheme \<Rightarrow> bool \<Rightarrow> bytes option \<Rightarrow> pystr option \<Rightarrow> pystr option" where
  "launch_error cr required launch expected_workload_measurement =
     (case expected_workload_measurement of
        None \<Rightarrow> None
      | Some expected \<Rightarrow>
          (case launch of
             None \<Rightarrow> if required then Some (us ''quote carries no signed workload launch measurement'') else None
           | Some l \<Rightarrow> if prefixed_sha256 cr l \<noteq> expected
                       then Some (us ''signed workload launch measurement mismatch'') else None))"

definition quote_verify ::
  "('x) crypto_scheme \<Rightarrow> ('c, 'y) pki_scheme \<Rightarrow> 'c quote_verifier \<Rightarrow> pystr \<Rightarrow> pystr \<Rightarrow> bytes \<Rightarrow> pystr option
     \<Rightarrow> time \<Rightarrow> quote_verification result" where
  "quote_verify cr pki ver quote_b64 expected_nonce channel_binding expected_workload_measurement now =
     (case ve_parse ver quote_b64 of
        Inl e \<Rightarrow> if is_QuoteFormatError e then Inr (qv_fail (us ''quote format error'')) else Inl e
      | Inr q \<Rightarrow>
     rbind (verify_cert_chain pki (pq_leaf q) (pq_intermediates q) (ve_roots ver) now) (\<lambda>ce.
     case ce of Some msg \<Rightarrow> Inr (qv_fail msg) | None \<Rightarrow>
     (case verify_report_signature pki q of
        Inl e \<Rightarrow> if signature_failure e
                 then Inr (qv_fail (us ''report signature does not verify under the leaf key'')) else Inl e
      | Inr _ \<Rightarrow>
     (case bytes_fromhex expected_nonce of
        None \<Rightarrow> Inl (ValueError (us ''non-hexadecimal number found in fromhex() arg''))
      | Some nonce \<Rightarrow>
          if slice (pq_report_data_offset q) (pq_report_data_offset q + 32) (pq_report_body q)
             \<noteq> sha256 cr (nonce @ channel_binding)
          then Inr (qv_fail (if channel_binding \<noteq> []
                 then us ''REPORT_DATA does not bind the challenge nonce and transport key (possible relay)''
                 else us ''REPORT_DATA does not bind the challenge nonce (possible replay)''))
          else case launch_error cr (ve_require_launch_measurement ver) (pq_launch_measurement q)
                      expected_workload_measurement of
            Some msg \<Rightarrow> Inr (qv_fail msg)
          | None \<Rightarrow>
              rbind (subject pki (pq_leaf q)) (\<lambda>s.
              Inr \<lparr>qv_verified = True, qv_reason = None, qv_leaf_subject = Some s,
                   qv_snp_report = pq_snp_report q, qv_gpu_measurement = None\<rparr>)))))"

subsection \<open>What a verified quote guarantees\<close>

text \<open>A path from a certificate to a trusted root, as RFC 5280 wants it: every certificate is in
  its validity window and signed by the next, and every issuer may issue at its depth.\<close>

inductive trusted_path :: "('c, 'x) pki_scheme \<Rightarrow> 'c list \<Rightarrow> time \<Rightarrow> int \<Rightarrow> 'c list \<Rightarrow> bool"
  for pki :: "('c, 'x) pki_scheme" and roots :: "'c list" and now :: time where
  anchored: "valid_at pki a now = Inr True \<Longrightarrow> a \<in> set roots \<Longrightarrow> trusted_path pki roots now i [a]"
| issued_by_root: "valid_at pki a now = Inr True \<Longrightarrow> anchor \<in> set roots \<Longrightarrow> valid_at pki anchor now = Inr True \<Longrightarrow>
    signed_by pki a anchor = Inr True \<Longrightarrow> may_issue pki anchor i = Inr True \<Longrightarrow> trusted_path pki roots now i [a]"
| link: "valid_at pki a now = Inr True \<Longrightarrow> signed_by pki a b = Inr True \<Longrightarrow> may_issue pki b i = Inr True \<Longrightarrow>
    trusted_path pki roots now (i + 1) (b # rest) \<Longrightarrow> trusted_path pki roots now i (a # b # rest)"

lemma roots_error_None:
  "roots_error pki now a i roots = Inr None \<Longrightarrow>
   \<exists>anchor \<in> set roots. valid_at pki anchor now = Inr True \<and>
     (a = anchor \<or> signed_by pki a anchor = Inr True \<and> may_issue pki anchor i = Inr True)"
  by (induction roots) (auto simp: rbind_Inr_iff split: if_splits)

lemma chain_links_path:
  assumes "chain_links pki now i chain = Inr None" "chain \<noteq> []"
    and "roots_error pki now (last chain) (i + int (length chain) - 1) roots = Inr None"
  shows "trusted_path pki roots now i chain"
  using assms
proof (induction pki now i chain rule: chain_links.induct)
  case (2 pki now i tp)
  then have v: "valid_at pki tp now = Inr True" by (auto simp: rbind_Inr_iff split: if_splits)
  from 2 have "roots_error pki now tp i roots = Inr None" by simp
  from roots_error_None [OF this] v show ?case by (auto intro: anchored issued_by_root)
next
  case (3 pki now i a b rest)
  from 3(2) have "valid_at pki a now = Inr True" "signed_by pki a b = Inr True" "may_issue pki b i = Inr True"
    "chain_links pki now (i + 1) (b # rest) = Inr None"
    by (auto simp: rbind_Inr_iff split: if_splits)
  with 3 show ?case by (auto intro!: link)
qed simp

lemma verify_cert_chain_sound:
  assumes "verify_cert_chain pki leaf inters roots now = Inr None"
  shows "trusted_path pki roots now 0 (leaf # inters)"
proof -
  have ce: "chain_error pki leaf inters roots now = Inr None"
    using assms by (auto simp: verify_cert_chain_def split: sum.splits if_splits)
  then have "chain_links pki now 0 (leaf # inters) = Inr None"
    "roots_error pki now (last (leaf # inters)) (int (length (leaf # inters)) - 1) roots = Inr None"
    by (auto simp: chain_error_def Let_def rbind_Inr_iff split: option.splits)
  then show ?thesis by (intro chain_links_path) auto
qed

lemma qv_fail_unverified [simp]: "\<not> qv_verified (qv_fail r)"
  by (simp add: qv_fail_def)

text \<open>The branch of \<open>quote_verify\<close> that ends in a verified result, step by step.\<close>

lemma quote_verify_accepts:
  assumes "quote_verify cr pki ver quote_b64 nonce binding expected now = Inr v" and "qv_verified v"
  obtains q raw s where "ve_parse ver quote_b64 = Inr q"
    "verify_cert_chain pki (pq_leaf q) (pq_intermediates q) (ve_roots ver) now = Inr None"
    "verify_report_signature pki q = Inr ()" "bytes_fromhex nonce = Some raw"
    "slice (pq_report_data_offset q) (pq_report_data_offset q + 32) (pq_report_body q) = sha256 cr (raw @ binding)"
    "launch_error cr (ve_require_launch_measurement ver) (pq_launch_measurement q) expected = None"
    "subject pki (pq_leaf q) = Inr s"
    "v = \<lparr>qv_verified = True, qv_reason = None, qv_leaf_subject = Some s,
          qv_snp_report = pq_snp_report q, qv_gpu_measurement = None\<rparr>"
proof -
  obtain q where q: "ve_parse ver quote_b64 = Inr q"
    using assms by (cases "ve_parse ver quote_b64") (auto simp: quote_verify_def split: if_splits)
  have c: "verify_cert_chain pki (pq_leaf q) (pq_intermediates q) (ve_roots ver) now = Inr None"
    using assms q
    by (cases "verify_cert_chain pki (pq_leaf q) (pq_intermediates q) (ve_roots ver) now")
       (auto simp: quote_verify_def split: option.split_asm)
  have sg: "verify_report_signature pki q = Inr ()"
    using assms q c by (cases "verify_report_signature pki q") (auto simp: quote_verify_def split: if_splits)
  obtain raw where raw: "bytes_fromhex nonce = Some raw"
    using assms q c sg by (cases "bytes_fromhex nonce") (auto simp: quote_verify_def)
  have b: "slice (pq_report_data_offset q) (pq_report_data_offset q + 32) (pq_report_body q) = sha256 cr (raw @ binding)"
    using assms q c sg raw by (auto simp: quote_verify_def split: if_split_asm)
  have l: "launch_error cr (ve_require_launch_measurement ver) (pq_launch_measurement q) expected = None"
    using assms q c sg raw b
    by (cases "launch_error cr (ve_require_launch_measurement ver) (pq_launch_measurement q) expected")
       (auto simp: quote_verify_def)
  obtain s where "subject pki (pq_leaf q) = Inr s"
    using assms q c sg raw b l by (cases "subject pki (pq_leaf q)") (auto simp: quote_verify_def)
  with assms q c sg raw b l show ?thesis by (intro that) (auto simp: quote_verify_def)
qed

text \<open>
  A verified quote parsed to one whose leaf has a path to a trusted
  root at the verification time, whose report is signed by the leaf key under the profile of
  its format, whose REPORT_DATA is the digest of the challenge nonce and the transport key,
  and whose signed launch measurement, when there is one, is the measurement that is about to
  be approved; the report handed on is the parsed one.
\<close>

theorem verified_quote_is_bound:
  assumes "quote_verify cr pki ver quote_b64 nonce binding expected now = Inr v" and "qv_verified v"
  shows "\<exists>q raw. ve_parse ver quote_b64 = Inr q \<and>
    trusted_path pki (ve_roots ver) now 0 (pq_leaf q # pq_intermediates q) \<and>
    verify_report_signature pki q = Inr () \<and>
    bytes_fromhex nonce = Some raw \<and>
    slice (pq_report_data_offset q) (pq_report_data_offset q + 32) (pq_report_body q) = sha256 cr (raw @ binding) \<and>
    launch_error cr (ve_require_launch_measurement ver) (pq_launch_measurement q) expected = None \<and>
    qv_snp_report v = pq_snp_report q"
  using assms by (elim quote_verify_accepts) (auto simp: verify_cert_chain_sound)

subsection \<open>A concrete verifier\<close>

definition demo_pki :: "nat pki" where
  "demo_pki = \<lparr>load_x509 = (\<lambda>_. Inr 0), serial_number = (\<lambda>_. 1), validity = (\<lambda>_. Inr (0, 100)),
     subject = (\<lambda>_. Inr []), public_key = (\<lambda>_. Inr (EC True)), cert_verify = (\<lambda>_ _. None),
     report_verify = (\<lambda>_ _ _ _. None), basic_constraints = (\<lambda>_. Inr (Some (True, None))),
     key_cert_sign = (\<lambda>_. Inr None), encode_dss_signature = (\<lambda>_ _. []), json_loads = (\<lambda>_. Inr JNull)\<rparr>"

definition demo_quote :: "nat parsed_quote" where
  "demo_quote = \<lparr>pq_report_body = replicate 32 0, pq_signature = [], pq_leaf = 1, pq_intermediates = [2],
     pq_report_data_offset = 0, pq_report_signature_algorithm = us ''ecdsa-p384-sha384'',
     pq_launch_measurement = None, pq_snp_report = None\<rparr>"

theorem verified_quote_is_bound_witness:
  "\<exists>q raw. (Inr demo_quote :: nat parsed_quote result) = Inr q \<and>
    trusted_path demo_pki [7] 5 0 (pq_leaf q # pq_intermediates q) \<and> bytes_fromhex (us ''00'') = Some raw"
proof -
  let ?ver = "\<lparr>ve_parse = (\<lambda>_. Inr demo_quote), ve_roots = [7], ve_require_launch_measurement = False\<rparr>"
  have "quote_verify demo_crypto demo_pki ?ver [] (us ''00'') [] None 5 =
      Inr \<lparr>qv_verified = True, qv_reason = None, qv_leaf_subject = Some [], qv_snp_report = None,
           qv_gpu_measurement = None\<rparr>"
    by (simp add: quote_verify_def verify_cert_chain_def chain_error_def valid_at_def signed_by_def
        pubkey_verify_def may_issue_def verify_report_signature_def launch_error_def demo_quote_def
        demo_pki_def Let_def us_def hex_val_def ascii_space_def slice_def demo_crypto_def numeral_eq_Suc)
  from verified_quote_is_bound [OF this] show ?thesis by auto
qed

end
