(* ===== verification/Snp.thy ===== *)
theory Snp
  imports Quote
begin

section \<open>SEV-SNP attestation reports (\<open>snp.py\<close>)\<close>

text \<open>
  Parsing an AMD SEV-SNP report, its platform-information bits with their version gates, the
  conversion of its signature, the Azure wrapper and the adapter to the generic quote
  verifier. ECDSA, DER encoding and certificates are parameters. The main results: every
  field the gate reads lies in the bytes the hardware key signs, and a bit that the report
  version cannot carry reads as unknown, never as false.
\<close>

subsection \<open>Platform information\<close>

record platform_info =
  pf_raw :: int
  pf_smt_en :: bool
  pf_tsme_en :: bool
  pf_ecc_en :: bool
  pf_rapl_dis :: bool
  pf_ciphertext_hiding_en :: bool
  pf_alias_check_complete :: "bool option"
  pf_sev_tio_en :: "bool option"

definition parse_platform_info :: "int \<Rightarrow> int \<Rightarrow> platform_info" where
  "parse_platform_info value version =
     \<lparr>pf_raw = value, pf_smt_en = bit value 0, pf_tsme_en = bit value 1, pf_ecc_en = bit value 2,
      pf_rapl_dis = bit value 3, pf_ciphertext_hiding_en = bit value 4,
      pf_alias_check_complete = (if version \<ge> 3 then Some (bit value 5) else None),
      pf_sev_tio_en = (if version \<ge> 5 then Some (bit value 7) else None)\<rparr>"

subsection \<open>Reports\<close>

definition REPORT_LEN :: nat where "REPORT_LEN = 0x4A0"
definition SIG_OFFSET :: nat where "SIG_OFFSET = 0x2A0"

record snp_report =
  sr_version :: int
  sr_policy :: int
  sr_vmpl :: int
  sr_platform_info :: platform_info
  sr_report_data :: bytes
  sr_measurement :: bytes
  sr_host_data :: bytes
  sr_reported_tcb :: int
  sr_chip_id :: bytes
  sr_raw :: bytes

definition sr_body :: "snp_report \<Rightarrow> bytes" where
  "sr_body r = take SIG_OFFSET (sr_raw r)"

text \<open>\<open>int.from_bytes(report[off : off + size], "little")\<close>\<close>

definition le_field :: "nat \<Rightarrow> nat \<Rightarrow> bytes \<Rightarrow> int" where
  "le_field off n report = le_int (slice off (off + n) report)"

definition parse_snp_report :: "bytes \<Rightarrow> snp_report result" where
  "parse_snp_report report =
     (if length report < REPORT_LEN then Inl (QuoteFormatError (us ''SNP report too short''))
      else let version = le_field 0x00 4 report in
        Inr \<lparr>sr_version = version, sr_policy = le_field 0x08 8 report, sr_vmpl = le_field 0x30 4 report,
             sr_platform_info = parse_platform_info (le_field 0x40 8 report) version,
             sr_report_data = slice 0x50 (0x50 + 64) report,
             sr_measurement = slice 0x90 (0x90 + 48) report,
             sr_host_data = slice 0xC0 (0xC0 + 32) report,
             sr_reported_tcb = le_field 0x180 8 report,
             sr_chip_id = slice 0x1A0 (0x1A0 + 64) report,
             sr_raw = take REPORT_LEN report\<rparr>)"

definition snp_signature_der :: "('c, 'x) pki_scheme \<Rightarrow> bytes \<Rightarrow> bytes" where
  "snp_signature_der pki report =
     (let sig = slice SIG_OFFSET (SIG_OFFSET + 512) report
      in encode_dss_signature pki (le_int (slice 0 48 sig)) (le_int (slice 72 (72 + 48) sig)))"

definition verify_snp_report_signature :: "('c, 'x) pki_scheme \<Rightarrow> bytes \<Rightarrow> 'c \<Rightarrow> bool result" where
  "verify_snp_report_signature pki report vcek =
     rbind (public_key pki vcek) (\<lambda>pub.
       if \<not> is_EC pub then Inr False
       else case report_verify pki vcek ECDSA_SHA384 (snp_signature_der pki report) (take SIG_OFFSET report) of
         None \<Rightarrow> Inr True
       | Some e \<Rightarrow> if is_InvalidSignature e then Inr False else Inl e)"

definition extract_snp_report_from_hcl :: "bytes \<Rightarrow> bytes result" where
  "extract_snp_report_from_hcl hcl =
     (if take 4 hcl \<noteq> ascii ''HCLA'' then Inl (QuoteFormatError (us ''not an Azure HCL report''))
      else if length hcl < 32 + REPORT_LEN
      then Inl (QuoteFormatError (us ''Azure HCL report is shorter than its header and SNP report''))
      else Inr (slice 32 (32 + REPORT_LEN) hcl))"

subsection \<open>The adapter to the quote verifier\<close>

definition snp_quote_parse ::
  "('c, 'x) pki_scheme \<Rightarrow> 'c \<Rightarrow> 'c list \<Rightarrow> pystr \<Rightarrow> 'c parsed_quote result" where
  "snp_quote_parse pki vcek intermediates quote_b64 =
     (case b64decode quote_b64 of
        Inl e \<Rightarrow> Inl (QuoteFormatError (us ''undecodable SNP quote''))
      | Inr report \<Rightarrow>
          if length report < REPORT_LEN then Inl (QuoteFormatError (us ''SNP report too short''))
          else Inr \<lparr>pq_report_body = take SIG_OFFSET report, pq_signature = snp_signature_der pki report,
                    pq_leaf = vcek, pq_intermediates = intermediates,
                    pq_report_data_offset = 0x50,
                    pq_report_signature_algorithm = us ''ecdsa-p384-sha384'',
                    pq_launch_measurement = Some (slice 0x90 (0x90 + 48) report),
                    pq_snp_report = Some (take REPORT_LEN report)\<rparr>)"

subsection \<open>What a verified SNP report states\<close>

text \<open>Every field of a parsed report but the raw bytes is read from the signed body.\<close>

definition sr_fields :: "snp_report \<Rightarrow> snp_report" where
  "sr_fields r = r\<lparr>sr_raw := []\<rparr>"

lemma slice_body: "b \<le> SIG_OFFSET \<Longrightarrow> slice a b (take SIG_OFFSET report) = slice a b report"
  by (rule slice_take)

lemma parse_snp_report_body:
  assumes "take SIG_OFFSET report = take SIG_OFFSET report'"
    and "parse_snp_report report = Inr r" and "parse_snp_report report' = Inr r'"
  shows "sr_fields r = sr_fields r'"
proof -
  have "slice a b report = slice a b report'" if "b \<le> SIG_OFFSET" for a b
    using slice_body [OF that] assms(1) by metis
  with assms(2,3) show ?thesis
    by (auto simp: parse_snp_report_def sr_fields_def le_field_def SIG_OFFSET_def Let_def split: if_splits)
qed

lemma snp_signature_der_take: "snp_signature_der pki (take REPORT_LEN report) = snp_signature_der pki report"
  by (simp add: snp_signature_der_def SIG_OFFSET_def REPORT_LEN_def slice_take Let_def)

lemma verified_snp_report:
  assumes "quote_verify cr pki \<lparr>ve_parse = snp_quote_parse pki vcek inters, ve_roots = roots,
      ve_require_launch_measurement = req\<rparr> quote_b64 nonce binding expected now = Inr v"
    and "qv_verified v"
  shows "\<exists>raw r n. qv_snp_report v = Some raw \<and> parse_snp_report raw = Inr r \<and>
    public_key pki vcek = Inr (EC True) \<and>
    report_verify pki vcek ECDSA_SHA384 (snp_signature_der pki raw) (sr_body r) = None \<and>
    bytes_fromhex nonce = Some n \<and> take 32 (sr_report_data r) = sha256 cr (n @ binding) \<and>
    (\<forall>m. expected = Some m \<longrightarrow> prefixed_sha256 cr (sr_measurement r) = m) \<and>
    (\<forall>other r'. parse_snp_report other = Inr r' \<and> take SIG_OFFSET other = sr_body r \<longrightarrow> sr_fields r' = sr_fields r)"
proof -
  let ?ver = "\<lparr>ve_parse = snp_quote_parse pki vcek inters, ve_roots = roots, ve_require_launch_measurement = req\<rparr>"
  obtain q n where q: "snp_quote_parse pki vcek inters quote_b64 = Inr q"
    and sg: "verify_report_signature pki q = Inr ()" and n: "bytes_fromhex nonce = Some n"
    and rd: "slice (pq_report_data_offset q) (pq_report_data_offset q + 32) (pq_report_body q) = sha256 cr (n @ binding)"
    and l: "launch_error cr req (pq_launch_measurement q) expected = None"
    and v: "qv_snp_report v = pq_snp_report q"
    using quote_verify_accepts [OF assms] by (metis quote_verification.select_convs(4) quote_verifier.select_convs(1,3))
  from q obtain report where len: "\<not> length report < REPORT_LEN"
    and qd: "q = \<lparr>pq_report_body = take SIG_OFFSET report, pq_signature = snp_signature_der pki report,
                    pq_leaf = vcek, pq_intermediates = inters,
                    pq_report_data_offset = 0x50,
                    pq_report_signature_algorithm = us ''ecdsa-p384-sha384'',
                    pq_launch_measurement = Some (slice 0x90 (0x90 + 48) report),
                    pq_snp_report = Some (take REPORT_LEN report)\<rparr>"
    by (auto simp: snp_quote_parse_def split: sum.splits if_splits)
  let ?raw = "take REPORT_LEN report"
  obtain r where r: "parse_snp_report ?raw = Inr r" using len by (auto simp: parse_snp_report_def Let_def)
  have body: "take SIG_OFFSET ?raw = take SIG_OFFSET report" by (simp add: SIG_OFFSET_def REPORT_LEN_def min_def)
  have rf: "sr_body r = take SIG_OFFSET report" "sr_report_data r = slice 0x50 (0x50 + 64) report"
    "sr_measurement r = slice 0x90 (0x90 + 48) report"
    using r len body by (auto simp: parse_snp_report_def sr_body_def Let_def slice_take REPORT_LEN_def)
  have "public_key pki vcek = Inr (EC True) \<and>
      report_verify pki vcek ECDSA_SHA384 (snp_signature_der pki ?raw) (sr_body r) = None"
    using sg by (auto simp: verify_report_signature_def qd rbind_Inr_iff snp_signature_der_take rf Let_def
        split: if_splits option.splits)
  moreover have "take 32 (sr_report_data r) = sha256 cr (n @ binding)"
    using rd by (simp add: qd rf slice_take SIG_OFFSET_def) (simp add: slice_def)
  moreover have "\<forall>m. expected = Some m \<longrightarrow> prefixed_sha256 cr (sr_measurement r) = m"
    using l by (auto simp: launch_error_def qd rf split: if_splits)
  moreover have "\<forall>other r'. parse_snp_report other = Inr r' \<and> take SIG_OFFSET other = sr_body r \<longrightarrow>
      sr_fields r' = sr_fields r"
    using parse_snp_report_body [OF _ _ r] body rf by auto
  ultimately show ?thesis using v r n by (auto simp: qd)
qed

text \<open>
  When the SNP adapter's quote verifies, the report it hands to the release
  gate parses; the VCEK signs exactly its body, on P-384 with SHA-384; the first half of its
  REPORT_DATA is the digest of the challenge nonce and the transport key; its launch
  measurement is the one about to be approved; and any other report with the same signed body
  has the same fields, so nothing outside the signature can change what the gate reads.
\<close>

theorem verified_snp_report_is_signed:
  assumes "quote_verify cr pki \<lparr>ve_parse = snp_quote_parse pki vcek inters, ve_roots = roots,
      ve_require_launch_measurement = req\<rparr> quote_b64 nonce binding expected now = Inr v"
    and "qv_verified v"
  shows "\<exists>raw r n. qv_snp_report v = Some raw \<and> parse_snp_report raw = Inr r \<and>
    public_key pki vcek = Inr (EC True) \<and>
    report_verify pki vcek ECDSA_SHA384 (snp_signature_der pki raw) (sr_body r) = None \<and>
    bytes_fromhex nonce = Some n \<and> take 32 (sr_report_data r) = sha256 cr (n @ binding) \<and>
    (\<forall>m. expected = Some m \<longrightarrow> prefixed_sha256 cr (sr_measurement r) = m) \<and>
    (\<forall>other r'. parse_snp_report other = Inr r' \<and> take SIG_OFFSET other = sr_body r \<longrightarrow> sr_fields r' = sr_fields r)"
  by (rule verified_snp_report [OF assms])

subsection \<open>A concrete report\<close>

lemma a2b_base64_zeros: "a2b_base64 0 0 0 (concat (replicate n [65, 65, 65, 65])) = Some (replicate (3 * n) 0)"
  by (induction n) (simp_all add: std64_val_def numeral_3_eq_3)

lemma b64decode_zeros: "b64decode (concat (replicate n [65, 65, 65, 65])) = Inr (replicate (3 * n) 0)"
proof -
  have "\<not> list_ex (\<lambda>c. c \<ge> 128) (concat (replicate n [65, 65, 65, 65 :: nat]))" by (induction n) auto
  then show ?thesis by (simp add: b64decode_def a2b_base64_zeros)
qed

theorem verified_snp_report_is_signed_witness:
  "\<exists>r. parse_snp_report (replicate 0x4A0 0) = Inr r \<and>
     take 32 (sr_report_data r) = sha256 demo_crypto ([0] @ [])"
proof -
  let ?q = "concat (replicate 395 [65, 65, 65, 65])"
  let ?v = "\<lparr>qv_verified = True, qv_reason = None, qv_leaf_subject = Some [], qv_snp_report = Some (replicate 0x4A0 0),
           qv_gpu_measurement = None\<rparr>"
  have "quote_verify demo_crypto demo_pki \<lparr>ve_parse = snp_quote_parse demo_pki 3 [], ve_roots = [7],
      ve_require_launch_measurement = True\<rparr> ?q (us ''00'') [] None 5 = Inr ?v"
    by (simp add: quote_verify_def snp_quote_parse_def b64decode_zeros REPORT_LEN_def SIG_OFFSET_def
        verify_cert_chain_def chain_error_def valid_at_def signed_by_def
        pubkey_verify_def may_issue_def verify_report_signature_def launch_error_def
        demo_pki_def us_def hex_val_def ascii_space_def slice_def take_replicate drop_replicate)
      (simp add: demo_crypto_def numeral_eq_Suc)
  from verified_snp_report_is_signed [OF this] have "\<exists>raw r n. qv_snp_report ?v = Some raw \<and> parse_snp_report raw = Inr r \<and>
     bytes_fromhex (us ''00'') = Some n \<and> take 32 (sr_report_data r) = sha256 demo_crypto (n @ [])" by auto
  then show ?thesis by (auto simp: us_def hex_val_def ascii_space_def)
qed

end
