(* ===== verification/MemorySweep.thy ===== *)
theory MemorySweep
  imports Renewal Seal
begin

section \<open>The protected-memory sweep (\<open>memory_sweep.py\<close>)\<close>

text \<open>
  The challenge that detects aliased memory: every page is written with a nonce-derived value
  in one pseudo-random order and read back in another, and the transcript is signed. A range
  is given by the operations of \<open>ProtectedMemoryRange\<close> as state-passing functions; the
  locale \<open>paged_memory\<close> states what a range with a given assignment of pages to physical
  cells does, and is interpreted on \<open>BytearrayMemoryRange\<close> and on the same range behind an
  address decoder. The main results: the page order is a permutation for every key and nonce,
  the sweep reports aliasing exactly when two pages share a cell, and a transcript the sweep
  signs is accepted by its verifier. \<open>shake_256(seed).digest(n)\<close> is a parameter.
\<close>

subsection \<open>HMAC-SHA256\<close>

definition hmac_block :: "(bytes \<Rightarrow> bytes) \<Rightarrow> bytes \<Rightarrow> bytes" where
  "hmac_block h key = (let k = (if length key > 64 then h key else key) in k @ replicate (64 - length k) 0)"

definition hmac_sha256 :: "(bytes \<Rightarrow> bytes) \<Rightarrow> bytes \<Rightarrow> bytes \<Rightarrow> bytes" where
  "hmac_sha256 h key msg =
     (let k = hmac_block h key
      in h (map (\<lambda>b. b XOR 0x5C) k @ h (map (\<lambda>b. b XOR 0x36) k @ msg)))"

text \<open>\<open>n.to_bytes(8, "big")\<close>\<close>

definition to_bytes8 :: "int \<Rightarrow> bytes result" where
  "to_bytes8 n = (if 0 \<le> n \<and> n < 2 ^ 64 then Inr (int_be 8 n) else Inl OverflowError)"

subsection \<open>Ranges\<close>

record 'm mem_ops =
  mo_page_size :: "'m \<Rightarrow> int"
  mo_page_count :: "'m \<Rightarrow> int"
  mo_write_page :: "int \<Rightarrow> bytes \<Rightarrow> 'm \<Rightarrow> unit result \<times> 'm"
  mo_read_page :: "int \<Rightarrow> 'm \<Rightarrow> bytes result"

record bytearray_range =
  br_memory :: bytes
  br_page_size :: int

definition new_bytearray_range :: "int \<Rightarrow> int \<Rightarrow> bytearray_range result" where
  "new_bytearray_range sz page_size =
     (if sz \<le> 0 \<or> page_size \<le> 0 \<or> sz mod page_size \<noteq> 0
      then Inl (ValueError (us ''memory range must contain whole, non-empty pages''))
      else Inr \<lparr>br_memory = replicate (nat sz) 0, br_page_size = page_size\<rparr>)"

definition br_page_count :: "bytearray_range \<Rightarrow> int" where
  "br_page_count m = int (length (br_memory m)) div br_page_size m"

definition br_write_page :: "int \<Rightarrow> bytes \<Rightarrow> bytearray_range \<Rightarrow> unit result \<times> bytearray_range" where
  "br_write_page index value m =
     (if int (length value) \<noteq> br_page_size m \<or> \<not> (0 \<le> index \<and> index < br_page_count m)
      then (Inl (ValueError (us ''invalid protected-memory page write'')), m)
      else let start = nat (index * br_page_size m) in
        (Inr (), m\<lparr>br_memory := take start (br_memory m) @ value @
                     drop (start + nat (br_page_size m)) (br_memory m)\<rparr>))"

definition br_read_page :: "int \<Rightarrow> bytearray_range \<Rightarrow> bytes result" where
  "br_read_page index m =
     (if \<not> (0 \<le> index \<and> index < br_page_count m)
      then Inl (ValueError (us ''invalid protected-memory page read''))
      else let start = nat (index * br_page_size m) in
        Inr (slice start (start + nat (br_page_size m)) (br_memory m)))"

definition bytearray_ops :: "bytearray_range mem_ops" where
  "bytearray_ops = \<lparr>mo_page_size = br_page_size, mo_page_count = br_page_count,
     mo_write_page = br_write_page, mo_read_page = br_read_page\<rparr>"

subsection \<open>Page values and orders\<close>

definition memory_sweep_public_key :: "('x) crypto_scheme \<Rightarrow> bytes \<Rightarrow> pystr" where
  "memory_sweep_public_key cr signing_key = b64url_encode (ed_public cr signing_key)"

definition page_value ::
  "('x) crypto_scheme \<Rightarrow> (bytes \<Rightarrow> nat \<Rightarrow> bytes) \<Rightarrow> bytes \<Rightarrow> pystr \<Rightarrow> int \<Rightarrow> int \<Rightarrow> bytes result" where
  "page_value cr shake secret nonce index page_size =
     rbind (utf8_encode nonce) (\<lambda>n.
     rbind (to_bytes8 index) (\<lambda>i.
     Inr (shake (hmac_sha256 (sha256 cr) secret (n @ i)) (nat page_size))))"

text \<open>The loop that looks for a step coprime to the count; a zero step becomes one.\<close>

definition or1 :: "int \<Rightarrow> int" where
  "or1 n = (if n = 0 then 1 else n)"

function coprime_step :: "int \<Rightarrow> int \<Rightarrow> int" where
  "coprime_step pages step =
     (if pages \<le> 0 \<or> gcd step pages = 1 then step else coprime_step pages (or1 ((step + 1) mod pages)))"
  by auto

lemma gcd_pred: "gcd (n - 1) (n :: int) = 1"
  by (metis add.commute coprime_add_one_left coprime_iff_gcd_eq_1 diff_add_cancel gcd.commute)

lemma gcd_near_end:
  assumes "0 < pages" "gcd step pages \<noteq> 1" "0 \<le> step" "step < pages"
  shows "step + 1 < (pages :: int)"
  using assms gcd_pred [of pages] by (cases "step = pages - 1") auto

termination coprime_step
proof (relation "measure (\<lambda>(pages, step). if 0 \<le> step \<and> step < pages then nat (pages - step) else nat pages + 1)")
  fix pages step :: int
  assume "\<not> (pages \<le> 0 \<or> gcd step pages = 1)"
  then have c: "0 < pages" "gcd step pages \<noteq> 1" by auto
  have r: "0 \<le> or1 k \<and> or1 k < pages \<or> pages = 1" if "0 \<le> k" "k < pages" for k
    using that by (auto simp: or1_def)
  have one: "pages \<noteq> 1" using c by auto
  show "((pages, or1 ((step + 1) mod pages)), pages, step) \<in> measure (\<lambda>(pages, step).
      if 0 \<le> step \<and> step < pages then nat (pages - step) else nat pages + 1)"
  proof (cases "0 \<le> step \<and> step < pages")
    case True
    with c have "step + 1 < pages" by (intro gcd_near_end) auto
    with True have "(step + 1) mod pages = step + 1" by simp
    with True c \<open>step + 1 < pages\<close> show ?thesis by (auto simp: or1_def)
  next
    case False
    with c one r [of "(step + 1) mod pages"] show ?thesis by (auto simp: or1_def)
  qed
qed simp

declare coprime_step.simps [simp del]

text \<open>\<open>_order\<close>, a generator: what it yields, or the exception of its first step.\<close>

definition sweep_order ::
  "('x) crypto_scheme \<Rightarrow> bytes \<Rightarrow> pystr \<Rightarrow> int \<Rightarrow> bytes \<Rightarrow> int list result" where
  "sweep_order cr secret nonce pages label =
     rbind (utf8_encode nonce) (\<lambda>n.
       let material = hmac_sha256 (sha256 cr) secret (label @ n) in
       if pages = 0 then Inl ZeroDivisionError
       else let start = be_int (take 16 material) mod pages;
                step = coprime_step pages (or1 (be_int (drop 16 material) mod pages))
            in Inr (map (\<lambda>offset. (start + offset * step) mod pages) (map int [0..<nat pages])))"

subsection \<open>The sweep\<close>

fun sweep_write ::
  "('x) crypto_scheme \<Rightarrow> (bytes \<Rightarrow> nat \<Rightarrow> bytes) \<Rightarrow> 'm mem_ops \<Rightarrow> bytes \<Rightarrow> pystr \<Rightarrow> int list \<Rightarrow> 'm
     \<Rightarrow> unit result \<times> 'm" where
  "sweep_write cr shake ops secret nonce [] m = (Inr (), m)"
| "sweep_write cr shake ops secret nonce (index # order) m =
     (case page_value cr shake secret nonce index (mo_page_size ops m) of
        Inl e \<Rightarrow> (Inl e, m)
      | Inr v \<Rightarrow>
          (case mo_write_page ops index v m of
             (Inl e, m') \<Rightarrow> (Inl e, m')
           | (Inr _, m') \<Rightarrow> sweep_write cr shake ops secret nonce order m'))"

text \<open>The read loop: the aliasing flag and the bytes fed to the transcript hash so far.\<close>

fun sweep_read ::
  "('x) crypto_scheme \<Rightarrow> (bytes \<Rightarrow> nat \<Rightarrow> bytes) \<Rightarrow> 'm mem_ops \<Rightarrow> bytes \<Rightarrow> pystr \<Rightarrow> 'm \<Rightarrow> int list
     \<Rightarrow> bool \<Rightarrow> bytes \<Rightarrow> (bool \<times> bytes) result" where
  "sweep_read cr shake ops secret nonce m [] aliasing readback = Inr (aliasing, readback)"
| "sweep_read cr shake ops secret nonce m (index # order) aliasing readback =
     rbind (mo_read_page ops index m) (\<lambda>actual.
     rbind (page_value cr shake secret nonce index (mo_page_size ops m)) (\<lambda>expected.
     rbind (to_bytes8 index) (\<lambda>i.
     sweep_read cr shake ops secret nonce m order (aliasing \<or> actual \<noteq> expected)
       (readback @ i @ sha256 cr actual))))"

definition sign_fingerprint ::
  "('x) crypto_scheme \<Rightarrow> bytes \<Rightarrow> memory_fingerprint \<Rightarrow> memory_fingerprint result" where
  "sign_fingerprint cr signing_key fp =
     rbind (canon_bytes cr (mf_signing_payload fp)) (\<lambda>msg.
     Inr (fp\<lparr>mf_signature_b64url := Some (b64url_encode (ed_sign cr signing_key msg))\<rparr>))"

definition run_memory_sweep ::
  "('x) crypto_scheme \<Rightarrow> (bytes \<Rightarrow> nat \<Rightarrow> bytes) \<Rightarrow> 'm mem_ops \<Rightarrow> pystr \<Rightarrow> bytes \<Rightarrow> bytes \<Rightarrow> int \<Rightarrow> 'm
     \<Rightarrow> memory_fingerprint result \<times> 'm" where
  "run_memory_sweep cr shake ops challenge_nonce signing_key sweep_secret range_start memory =
     (if length sweep_secret < 32
      then (Inl (ValueError (us ''sweep_secret must contain at least 32 unpredictable bytes'')), memory)
      else if mo_page_count ops memory \<le> 0 \<or> mo_page_size ops memory \<le> 0 \<or> range_start < 0
      then (Inl (ValueError (us ''declared protected-memory range is invalid'')), memory)
      else let pages = mo_page_count ops memory in
        case sweep_order cr sweep_secret challenge_nonce pages (ascii ''write'') of
          Inl e \<Rightarrow> (Inl e, memory)
        | Inr write_order \<Rightarrow>
            (case sweep_write cr shake ops sweep_secret challenge_nonce write_order memory of
               (Inl e, m) \<Rightarrow> (Inl e, m)
             | (Inr _, m) \<Rightarrow>
                 (rbind (sweep_order cr sweep_secret challenge_nonce pages (ascii ''read'')) (\<lambda>read_order.
                  rbind (sweep_read cr shake ops sweep_secret challenge_nonce m read_order False []) (\<lambda>(aliasing, readback).
                  rbind (hash_value_validate (prefixed_sha256 cr readback)) (\<lambda>h.
                  sign_fingerprint cr signing_key
                    \<lparr>mf_challenge_nonce = challenge_nonce, mf_algorithm = us ''wcm-full-range-v1'',
                     mf_range_start = range_start,
                     mf_range_length = mo_page_count ops m * mo_page_size ops m,
                     mf_page_size = mo_page_size ops m, mf_pages_written = mo_page_count ops m,
                     mf_pages_read = mo_page_count ops m, mf_aliasing_detected = aliasing,
                     mf_readback_hash = h,
                     mf_public_key_b64url = Some (memory_sweep_public_key cr signing_key),
                     mf_signature_b64url = Some []\<rparr>))), m)))"

definition verify_memory_sweep ::
  "('x) crypto_scheme \<Rightarrow> memory_fingerprint \<Rightarrow> pystr \<Rightarrow> (bool \<times> pystr) result" where
  "verify_memory_sweep cr result expected_public_key_b64url =
     (if mf_algorithm result \<noteq> us ''wcm-full-range-v1''
      then Inr (False, us ''unsupported memory sweep algorithm'')
      else if mf_range_start result < 0 \<or> mf_range_length result \<le> 0 \<or> mf_page_size result \<le> 0 \<or>
              mf_range_length result mod mf_page_size result \<noteq> 0 \<or>
              mf_pages_written result \<noteq> mf_range_length result div mf_page_size result \<or>
              mf_pages_read result \<noteq> mf_pages_written result
      then Inr (False, us ''memory sweep did not cover the complete declared range'')
      else if mf_public_key_b64url result \<noteq> Some expected_public_key_b64url \<or>
              mf_signature_b64url result = None \<or> mf_signature_b64url result = Some []
      then Inr (False, us ''memory sweep signer is not the policy-pinned protected key'')
      else
        (case rbind (b64url_decode expected_public_key_b64url) (\<lambda>public.
              rbind (b64url_decode (the (mf_signature_b64url result))) (\<lambda>signature.
              rbind (raise_if (\<not> ed_load cr public) (ValueError (us ''invalid public key''))) (\<lambda>_.
              rbind (canon_bytes cr (mf_signing_payload result)) (\<lambda>msg.
              raise_if (\<not> ed_verify cr public signature msg) (InvalidSignature []))))) of
           Inr _ \<Rightarrow> Inr (True, us ''memory sweep transcript is complete and signed'')
         | Inl e \<Rightarrow> if is_ValueError e \<or> is_InvalidSignature e
                    then Inr (False, us ''memory sweep signature is invalid'') else Inl e))"

subsection \<open>The page order is a permutation\<close>

lemma coprime_step_coprime: "0 < pages \<Longrightarrow> gcd (coprime_step pages step) pages = 1"
proof (induction pages step rule: coprime_step.induct)
  case (1 pages step)
  then show ?case by (subst coprime_step.simps) auto
qed

lemma affine_inj:
  assumes "0 < n" "gcd step n = 1"
  shows "inj_on (\<lambda>k. (start + k * step) mod n) {0..<n :: int}"
proof (rule inj_onI)
  fix a b assume ab: "a \<in> {0..<n}" "b \<in> {0..<n}" "(start + a * step) mod n = (start + b * step) mod n"
  then have "n dvd (start + a * step) - (start + b * step)" by (simp add: mod_eq_dvd_iff)
  then have "n dvd (a - b) * step" by (simp add: algebra_simps)
  moreover have "coprime n step" using assms(2) by (simp add: coprime_iff_gcd_eq_1 gcd.commute)
  ultimately have "n dvd a - b" by (simp add: coprime_dvd_mult_left_iff)
  then have "a mod n = b mod n" by (simp add: mod_eq_dvd_iff)
  with ab show "a = b" by simp
qed

lemma sweep_order_permutes:
  assumes "sweep_order cr secret nonce pages label = Inr order" "0 < pages"
  shows "distinct order \<and> set order = {0..<pages}"
proof -
  obtain start step where o: "order = map (\<lambda>k. (start + k * step) mod pages) (map int [0..<nat pages])"
    and g: "gcd step pages = 1"
    using assms coprime_step_coprime [OF assms(2)]
    by (auto simp: sweep_order_def rbind_Inr_iff Let_def)
  have s: "set (map int [0..<nat pages]) = {0..<pages}"
    using assms(2) by (auto simp: image_int_atLeastLessThan)
  have inj: "inj_on (\<lambda>k. (start + k * step) mod pages) {0..<pages}"
    using assms(2) g by (rule affine_inj)
  have "distinct (map int [0..<nat pages])" by (simp add: distinct_map)
  with inj have d: "distinct order" unfolding o distinct_map s by simp
  have "set order \<subseteq> {0..<pages}" using assms(2) by (auto simp: o)
  moreover have "card (set order) = card {0..<pages}"
    using distinct_card [OF d] by (simp add: o)
  ultimately have "set order = {0..<pages}" by (intro card_subset_eq) auto
  with d show ?thesis by simp
qed

text \<open>
  C40 (memory sweep). For every key, label, page count and encodable nonce the generator
  returns, and what it yields is a permutation of the page indices: the search for a coprime
  step ends, and every page is visited exactly once.
\<close>

theorem sweep_order_is_permutation:
  assumes "0 < pages" and "utf8_encode nonce = Inr n"
  shows "\<exists>order. sweep_order cr secret nonce pages label = Inr order \<and> distinct order \<and> set order = {0..<pages}"
proof -
  obtain order where "sweep_order cr secret nonce pages label = Inr order"
    using assms by (auto simp: sweep_order_def Let_def)
  with sweep_order_permutes [OF this assms(1)] show ?thesis by blast
qed

theorem sweep_order_is_permutation_witness:
  "\<exists>order. sweep_order demo_crypto [] (us ''n'') 6 [] = Inr order \<and> distinct order \<and> set order = {0..<6}"
  by (rule sweep_order_is_permutation) (auto simp: utf8_encode_def utf8_cp_def us_def surrogate_def)

lemma run_memory_sweep_success:
  assumes "run_memory_sweep cr shake ops nonce sk secret start m = (Inr fp, m')"
  obtains wo ro al rb where "0 < mo_page_size ops m" "0 < mo_page_count ops m" "0 \<le> start"
    "sweep_order cr secret nonce (mo_page_count ops m) (ascii ''write'') = Inr wo"
    "sweep_write cr shake ops secret nonce wo m = (Inr (), m')"
    "sweep_order cr secret nonce (mo_page_count ops m) (ascii ''read'') = Inr ro"
    "sweep_read cr shake ops secret nonce m' ro False [] = Inr (al, rb)"
    "sign_fingerprint cr sk
       \<lparr>mf_challenge_nonce = nonce, mf_algorithm = us ''wcm-full-range-v1'',
        mf_range_start = start, mf_range_length = mo_page_count ops m' * mo_page_size ops m',
        mf_page_size = mo_page_size ops m', mf_pages_written = mo_page_count ops m',
        mf_pages_read = mo_page_count ops m', mf_aliasing_detected = al,
        mf_readback_hash = prefixed_sha256 cr rb,
        mf_public_key_b64url = Some (memory_sweep_public_key cr sk),
        mf_signature_b64url = Some []\<rparr> = Inr fp"
  using assms
  by (auto simp: run_memory_sweep_def Let_def rbind_Inr_iff hash_value_validate_def
      split: if_splits sum.splits prod.splits)

text \<open>When the sweep's parts return: the order, the digest text and the signature.\<close>

lemma sweep_order_total:
  assumes "0 < pages" and "\<exists>n. utf8_encode nonce = Inr n"
  shows "\<exists>order. sweep_order cr secret nonce pages label = Inr order \<and> set order = {0..<pages}"
proof -
  obtain order where "sweep_order cr secret nonce pages label = Inr order"
    using assms by (auto simp: sweep_order_def Let_def)
  with sweep_order_permutes [OF this assms(1)] show ?thesis by blast
qed

lemma hash_value_ok_prefixed: "length (sha256 cr x) = 32 \<Longrightarrow> hash_value_ok (prefixed_sha256 cr x)"
  by (simp add: hash_value_ok_def prefixed_sha256_def length_hex_of_bytes lower_hex_hex)

lemma nat_str_length: "n < 10 ^ k \<Longrightarrow> 0 < k \<Longrightarrow> length (nat_str n) \<le> k"
proof (induction k arbitrary: n)
  case (Suc k)
  show ?case
  proof (cases "n < 10")
    case True
    then show ?thesis by (subst nat_str.simps) simp
  next
    case False
    with Suc.prems have "n div 10 < 10 ^ k" "0 < k" by (auto intro: gr0I)
    with Suc.IH [of "n div 10"] False show ?thesis by (subst nat_str.simps) simp
  qed
qed simp

lemma nat_str_length64: "0 \<le> i \<Longrightarrow> i \<le> 2 ^ 64 \<Longrightarrow> length (nat_str (nat \<bar>i\<bar>)) \<le> 4300"
proof -
  assume "0 \<le> i" "i \<le> 2 ^ 64"
  then have "nat i < 10 ^ 20" by simp
  with nat_str_length [of "nat i" 20] \<open>0 \<le> i\<close> show ?thesis by simp
qed

lemma sign_fingerprint_total:
  assumes ascii: "\<And>s. \<forall>c \<in> set s. c < 128 \<Longrightarrow> nfc cr s" and "clean_str (nfc cr) (mf_challenge_nonce fp)"
    and "mf_algorithm fp = us ''wcm-full-range-v1''" and "mf_readback_hash fp = prefixed_sha256 cr rb"
    and "mf_public_key_b64url fp = Some (b64url_encode pk)"
    and "0 \<le> mf_range_start fp" "mf_range_start fp \<le> 2 ^ 64"
    and "0 \<le> mf_range_length fp" "mf_range_length fp \<le> 2 ^ 64" and "0 \<le> mf_page_size fp" "mf_page_size fp \<le> 2 ^ 64"
    and "0 \<le> mf_pages_written fp" "mf_pages_written fp \<le> 2 ^ 64"
    and "0 \<le> mf_pages_read fp" "mf_pages_read fp \<le> 2 ^ 64"
  shows "\<exists>fp'. sign_fingerprint cr sk fp = Inr fp' \<and> mf_aliasing_detected fp' = mf_aliasing_detected fp"
proof -
  have "nfc cr (prefixed_sha256 cr rb)" "nfc cr (b64url_encode pk)"
    using ascii_hex ascii_b64 by (auto intro!: ascii simp: prefixed_sha256_def us_def)
  moreover have "nfc cr (us ''challenge_nonce'')" "nfc cr (us ''algorithm'')" "nfc cr (us ''range_start'')"
    "nfc cr (us ''range_length'')" "nfc cr (us ''page_size'')" "nfc cr (us ''pages_written'')"
    "nfc cr (us ''pages_read'')" "nfc cr (us ''aliasing_detected'')" "nfc cr (us ''readback_hash'')"
    "nfc cr (us ''public_key_b64url'')" "nfc cr (us ''wcm-full-range-v1'')"
    by (rule ascii; simp add: us_def)+
  ultimately have "clean (nfc cr) 64 (mf_signing_payload fp)"
    using assms nat_str_length64
    by (simp add: mf_signing_payload_def mf_signing_members_def present_def map_filter_simps clean_str_def)
  from canonicalize_clean [OF this, of "frepr cr" True] show ?thesis by (auto simp: sign_fingerprint_def)
qed

subsection \<open>Detection of aliased pages\<close>

text \<open>
  A range whose page \<open>i\<close> is the physical cell \<open>cell i\<close>: what a write leaves in each cell
  and what a read returns.
\<close>

locale paged_memory =
  fixes ops :: "'m mem_ops"
    and inv :: "'m \<Rightarrow> bool"
    and cell :: "int \<Rightarrow> int"
    and content :: "'m \<Rightarrow> int \<Rightarrow> bytes"
  assumes cell_range: "inv m \<Longrightarrow> 0 \<le> i \<Longrightarrow> i < mo_page_count ops m \<Longrightarrow> 0 \<le> cell i \<and> cell i < mo_page_count ops m"
    and write_ok: "inv m \<Longrightarrow> 0 \<le> i \<Longrightarrow> i < mo_page_count ops m \<Longrightarrow> int (length v) = mo_page_size ops m \<Longrightarrow>
      \<exists>m'. mo_write_page ops i v m = (Inr (), m') \<and> inv m' \<and>
        mo_page_size ops m' = mo_page_size ops m \<and> mo_page_count ops m' = mo_page_count ops m \<and>
        (\<forall>c. 0 \<le> c \<and> c < mo_page_count ops m \<longrightarrow> content m' c = (if c = cell i then v else content m c))"
    and read_ok: "inv m \<Longrightarrow> 0 \<le> i \<Longrightarrow> i < mo_page_count ops m \<Longrightarrow> mo_read_page ops i m = Inr (content m (cell i))"
begin

text \<open>After the write loop a cell holds the value of the last page written to it.\<close>

lemma sweep_write_content:
  assumes "inv m" and "set order \<subseteq> {0..<mo_page_count ops m}"
    and "\<And>i. i \<in> {0..<mo_page_count ops m} \<Longrightarrow> page_value cr shake secret nonce i (mo_page_size ops m) = Inr (val i)"
    and "\<And>i. i \<in> {0..<mo_page_count ops m} \<Longrightarrow> int (length (val i)) = mo_page_size ops m"
  shows "\<exists>m'. sweep_write cr shake ops secret nonce order m = (Inr (), m') \<and> inv m' \<and>
    mo_page_size ops m' = mo_page_size ops m \<and> mo_page_count ops m' = mo_page_count ops m \<and>
    (\<forall>c \<in> cell ` set order. \<exists>i \<in> set order. cell i = c \<and> content m' c = val i) \<and>
    (\<forall>c. 0 \<le> c \<and> c < mo_page_count ops m \<and> c \<notin> cell ` set order \<longrightarrow> content m' c = content m c)"
  using assms
proof (induction order arbitrary: m)
  case (Cons i order)
  let ?n = "mo_page_count ops m"
  have i: "0 \<le> i" "i < ?n" and v: "page_value cr shake secret nonce i (mo_page_size ops m) = Inr (val i)"
    "int (length (val i)) = mo_page_size ops m"
    using Cons.prems by auto
  obtain m1 where m1: "mo_write_page ops i (val i) m = (Inr (), m1)" "inv m1"
    "mo_page_size ops m1 = mo_page_size ops m" "mo_page_count ops m1 = ?n"
    "\<forall>c. 0 \<le> c \<and> c < ?n \<longrightarrow> content m1 c = (if c = cell i then val i else content m c)"
    using write_ok [OF Cons.prems(1) i v(2)] by blast
  obtain m2 where m2: "sweep_write cr shake ops secret nonce order m1 = (Inr (), m2)" "inv m2"
    "mo_page_size ops m2 = mo_page_size ops m" "mo_page_count ops m2 = ?n"
    and hit: "\<forall>c \<in> cell ` set order. \<exists>k \<in> set order. cell k = c \<and> content m2 c = val k"
    and miss: "\<forall>c. 0 \<le> c \<and> c < ?n \<and> c \<notin> cell ` set order \<longrightarrow> content m2 c = content m1 c"
    using Cons.IH [OF m1(2)] Cons.prems m1(3,4) by auto
  have "\<exists>k \<in> set (i # order). cell k = c \<and> content m2 c = val k" if c: "c \<in> cell ` set (i # order)" for c
  proof (cases "c \<in> cell ` set order")
    case False
    with c have "c = cell i" by simp
    with False miss m1(5) cell_range [OF Cons.prems(1) i] show ?thesis by auto
  qed (use hit in auto)
  moreover have "content m2 c = content m c" if "0 \<le> c" "c < ?n" "c \<notin> cell ` set (i # order)" for c
    using that miss m1(5) by auto
  ultimately show ?case using v(1) m1(1) m2 by auto
qed simp

lemma sweep_read_flag:
  assumes "inv m" and "set order \<subseteq> {0..<mo_page_count ops m}"
    and "\<And>i. i \<in> {0..<mo_page_count ops m} \<Longrightarrow> page_value cr shake secret nonce i (mo_page_size ops m) = Inr (val i)"
    and "mo_page_count ops m \<le> 2 ^ 64"
  shows "\<exists>rb. sweep_read cr shake ops secret nonce m order al acc =
    Inr (al \<or> (\<exists>i \<in> set order. content m (cell i) \<noteq> val i), rb)"
  using assms(2)
proof (induction order arbitrary: al acc)
  case (Cons i order)
  have i: "0 \<le> i" "i < mo_page_count ops m" using Cons.prems by auto
  then have "\<exists>b. to_bytes8 i = Inr b" using assms(4) by (simp add: to_bytes8_def)
  then obtain b where b: "to_bytes8 i = Inr b" ..
  have "\<exists>rb. sweep_read cr shake ops secret nonce m order (al \<or> content m (cell i) \<noteq> val i)
      (acc @ b @ sha256 cr (content m (cell i))) =
      Inr ((al \<or> content m (cell i) \<noteq> val i) \<or> (\<exists>i \<in> set order. content m (cell i) \<noteq> val i), rb)"
    using Cons.prems by (intro Cons.IH) auto
  then show ?case using assms(3) [of i] i b read_ok [OF assms(1) i] by auto
qed simp

lemma readback_differs_iff:
  assumes hit: "\<forall>c \<in> cell ` {0..<n}. \<exists>i \<in> {0..<n}. cell i = c \<and> content m c = val i"
    and inj: "inj_on val {0..<n}"
  shows "(\<exists>i \<in> {0..<n}. content m (cell i) \<noteq> val i) \<longleftrightarrow> \<not> inj_on cell {0..<n}"
proof
  assume "\<exists>i \<in> {0..<n}. content m (cell i) \<noteq> val i"
  then obtain i where i: "i \<in> {0..<n}" "content m (cell i) \<noteq> val i" ..
  with hit obtain k where "k \<in> {0..<n}" "cell k = cell i" "content m (cell i) = val k" by blast
  with i show "\<not> inj_on cell {0..<n}" by (metis inj_onD)
next
  assume "\<not> inj_on cell {0..<n}"
  then obtain i j where ij: "i \<in> {0..<n}" "j \<in> {0..<n}" "i \<noteq> j" "cell i = cell j" by (auto simp: inj_on_def)
  then have "val i \<noteq> val j" using inj by (metis inj_onD)
  with ij show "\<exists>i \<in> {0..<n}. content m (cell i) \<noteq> val i" by metis
qed

lemma run_memory_sweep_detects:
  fixes cr :: "('x) crypto_scheme"
  assumes "inv m" and "0 < mo_page_count ops m" and "0 < mo_page_size ops m"
    and "mo_page_count ops m * mo_page_size ops m \<le> 2 ^ 64" and "0 \<le> start" "start \<le> 2 ^ 64"
    and "32 \<le> length secret" and "clean_str (nfc cr) nonce"
    and "\<And>s. \<forall>c \<in> set s. c < 128 \<Longrightarrow> nfc cr s" and "\<And>x. length (sha256 cr x) = 32"
    and "\<And>s n. length (shake s n) = n"
    and "inj_on (\<lambda>i. page_value cr shake secret nonce i (mo_page_size ops m)) {0..<mo_page_count ops m}"
  shows "\<exists>fp m'. run_memory_sweep cr shake ops nonce sk secret start m = (Inr fp, m') \<and>
    (mf_aliasing_detected fp \<longleftrightarrow> \<not> inj_on cell {0..<mo_page_count ops m})"
proof -
  let ?n = "mo_page_count ops m" and ?p = "mo_page_size ops m"
  define val where "val i = projr (page_value cr shake secret nonce i ?p)" for i
  have n64: "?n \<le> 2 ^ 64" "?p \<le> 2 ^ 64"
    using assms(2-4) mult_left_mono [of 1 ?p ?n] mult_right_mono [of 1 ?n ?p] by linarith+
  have enc: "\<exists>b. utf8_encode nonce = Inr b" using assms(8) by (simp add: clean_str_def utf8_encode_def)
  have pv: "page_value cr shake secret nonce i ?p = Inr (val i)" "int (length (val i)) = ?p"
    if "i \<in> {0..<?n}" for i
    using that n64 enc assms(3,11) by (auto simp: page_value_def to_bytes8_def val_def)
  have inj: "inj_on val {0..<?n}" using assms(12) pv(1) by (auto simp: inj_on_def)
  obtain wo where wo: "sweep_order cr secret nonce ?n (ascii ''write'') = Inr wo" "set wo = {0..<?n}"
    using sweep_order_total [OF assms(2) enc] by blast
  obtain ro where ro: "sweep_order cr secret nonce ?n (ascii ''read'') = Inr ro" "set ro = {0..<?n}"
    using sweep_order_total [OF assms(2) enc] by blast
  obtain m2 where m2: "sweep_write cr shake ops secret nonce wo m = (Inr (), m2)" "inv m2"
    "mo_page_size ops m2 = ?p" "mo_page_count ops m2 = ?n"
    and hit: "\<forall>c \<in> cell ` {0..<?n}. \<exists>i \<in> {0..<?n}. cell i = c \<and> content m2 c = val i"
    using sweep_write_content [of m wo cr shake secret nonce val, OF assms(1) _ pv] wo(2) by auto
  obtain rb where rb: "sweep_read cr shake ops secret nonce m2 ro False [] =
      Inr (\<exists>i \<in> {0..<?n}. content m2 (cell i) \<noteq> val i, rb)"
    using sweep_read_flag [of m2 ro cr shake secret nonce val False "[]"] m2 ro(2) n64(1) pv(1) by auto
  define u where "u = \<lparr>mf_challenge_nonce = nonce, mf_algorithm = us ''wcm-full-range-v1'',
        mf_range_start = start, mf_range_length = ?n * ?p, mf_page_size = ?p, mf_pages_written = ?n,
        mf_pages_read = ?n, mf_aliasing_detected = (\<exists>i \<in> {0..<?n}. content m2 (cell i) \<noteq> val i),
        mf_readback_hash = prefixed_sha256 cr rb,
        mf_public_key_b64url = Some (memory_sweep_public_key cr sk),
        mf_signature_b64url = Some []\<rparr>"
  have "\<exists>fp. sign_fingerprint cr sk u = Inr fp \<and> mf_aliasing_detected fp = mf_aliasing_detected u"
    using assms(2-6,8) n64
    by (intro sign_fingerprint_total [where rb = rb and pk = "ed_public cr sk"] assms(9))
       (simp_all add: u_def memory_sweep_public_key_def)
  then obtain fp where fp: "sign_fingerprint cr sk u = Inr fp"
      "mf_aliasing_detected fp = (\<exists>i \<in> {0..<?n}. content m2 (cell i) \<noteq> val i)" by (auto simp: u_def)
  have "run_memory_sweep cr shake ops nonce sk secret start m = (Inr fp, m2)"
    using assms(2,3,5,7) wo(1) ro(1) m2 rb fp(1) assms(10)
    by (simp add: run_memory_sweep_def Let_def hash_value_validate_def hash_value_ok_prefixed u_def)
  with fp(2) readback_differs_iff [OF hit inj] show ?thesis by blast
qed

end

subsection \<open>\<open>BytearrayMemoryRange\<close>, plain and behind an address decoder\<close>

definition br_wf :: "bytearray_range \<Rightarrow> bool" where
  "br_wf m \<longleftrightarrow> 0 < br_page_size m"

definition br_content :: "bytearray_range \<Rightarrow> int \<Rightarrow> bytes" where
  "br_content m c = slice (nat (c * br_page_size m)) (nat (c * br_page_size m) + nat (br_page_size m)) (br_memory m)"

text \<open>Replacing one page of a list of pages.\<close>

lemma slice_page_update:
  assumes "length v = p" and "i * p + p \<le> length xs" and "c * p + p \<le> length xs"
  shows "slice (c * p) (c * p + p) (take (i * p) xs @ v @ drop (i * p + p) xs) =
    (if c = i then v else slice (c * p) (c * p + p) xs)"
proof -
  consider "c = i" | "c < i" | "i < c" by linarith
  then show ?thesis
  proof cases
    case 1
    with assms show ?thesis by (simp add: slice_def)
  next
    case 2
    then have "Suc c * p \<le> i * p" by (intro mult_le_mono1) simp
    then have "c * p + p \<le> i * p" by simp
    moreover have "i * p \<le> length xs" using assms(2) by simp
    ultimately have "slice (c * p) (c * p + p) (take (i * p) xs @ v @ drop (i * p + p) xs) =
        slice (c * p) (c * p + p) (take (i * p) xs)" by (simp add: slice_def min_def)
    with 2 \<open>c * p + p \<le> i * p\<close> show ?thesis by (simp add: slice_take)
  next
    case 3
    then have "Suc i * p \<le> c * p" by (intro mult_le_mono1) simp
    then have le: "i * p + p \<le> c * p" by simp
    have "drop (c * p) (take (i * p) xs @ v @ drop (i * p + p) xs) = drop (c * p) xs"
      using le 3 assms by (simp add: min_absorb2)
    with 3 show ?thesis by (simp add: slice_def)
  qed
qed

lemma br_page_fits:
  assumes "br_wf m" "0 \<le> i" "i < br_page_count m"
  shows "nat i * nat (br_page_size m) + nat (br_page_size m) \<le> length (br_memory m)"
    and "nat (i * br_page_size m) = nat i * nat (br_page_size m)"
proof -
  let ?p = "br_page_size m" and ?l = "int (length (br_memory m))"
  have "(i + 1) * ?p \<le> (?l div ?p) * ?p"
    using assms by (intro mult_right_mono) (auto simp: br_wf_def br_page_count_def)
  also have "\<dots> \<le> ?l" using assms(1) by (simp add: br_wf_def minus_mod_eq_div_mult [symmetric])
  finally have "i * ?p + ?p \<le> ?l" by (simp add: algebra_simps)
  moreover show eq: "nat (i * ?p) = nat i * nat ?p"
    using assms by (simp add: nat_mult_distrib br_wf_def)
  ultimately show "nat i * nat ?p + nat ?p \<le> length (br_memory m)"
    using assms by (simp flip: eq add: br_wf_def nat_add_distrib [symmetric])
qed

lemma br_write_ok:
  assumes "br_wf m" "0 \<le> i" "i < br_page_count m" "int (length v) = br_page_size m"
  shows "\<exists>m'. br_write_page i v m = (Inr (), m') \<and> br_wf m' \<and>
    br_page_size m' = br_page_size m \<and> br_page_count m' = br_page_count m \<and>
    (\<forall>c. 0 \<le> c \<and> c < br_page_count m \<longrightarrow> br_content m' c = (if c = i then v else br_content m c))"
proof -
  let ?p = "nat (br_page_size m)"
  let ?m' = "m\<lparr>br_memory := take (nat i * ?p) (br_memory m) @ v @ drop (nat i * ?p + ?p) (br_memory m)\<rparr>"
  note fit = br_page_fits [OF assms(1-3)]
  have v: "length v = ?p" using assms(4) by simp
  have w: "br_write_page i v m = (Inr (), ?m')" using assms fit by (simp add: br_write_page_def Let_def)
  have len: "length (br_memory ?m') = length (br_memory m)" using fit(1) v by simp
  have "br_content ?m' c = (if c = i then v else br_content m c)" if c: "0 \<le> c" "c < br_page_count m" for c
  proof -
    note fc = br_page_fits [OF assms(1) c]
    have "nat c = nat i \<longleftrightarrow> c = i" using c assms by auto
    with slice_page_update [OF v fit(1) fc(1)] fc(2) show ?thesis by (simp add: br_content_def)
  qed
  with w len assms(1) show ?thesis by (auto simp: br_wf_def br_page_count_def)
qed

interpretation bytearray: paged_memory bytearray_ops br_wf "\<lambda>i. i" br_content
  using br_write_ok
  by unfold_locales (auto simp: bytearray_ops_def br_read_page_def br_content_def Let_def)

text \<open>
  The attack the sweep is for: an address decoder \<open>f\<close> between the guest and its memory
  redirects page accesses, so that two pages may share a cell.
\<close>

definition aliased_ops :: "(int \<Rightarrow> int) \<Rightarrow> bytearray_range mem_ops" where
  "aliased_ops f = \<lparr>mo_page_size = br_page_size, mo_page_count = br_page_count,
     mo_write_page = (\<lambda>i. br_write_page (f i)), mo_read_page = (\<lambda>i. br_read_page (f i))\<rparr>"

definition aliased_wf :: "(int \<Rightarrow> int) \<Rightarrow> bytearray_range \<Rightarrow> bool" where
  "aliased_wf f m \<longleftrightarrow> br_wf m \<and> (\<forall>i. 0 \<le> i \<and> i < br_page_count m \<longrightarrow> 0 \<le> f i \<and> f i < br_page_count m)"

interpretation aliased: paged_memory "aliased_ops f" "aliased_wf f" f br_content for f
proof (unfold_locales, goal_cases)
  case (1 m i)
  then show ?case by (simp add: aliased_ops_def aliased_wf_def)
next
  case (2 m i v)
  then have "br_wf m" "0 \<le> f i" "f i < br_page_count m" "int (length v) = br_page_size m"
    by (auto simp: aliased_ops_def aliased_wf_def)
  from br_write_ok [OF this] 2 show ?case by (auto simp: aliased_ops_def aliased_wf_def)
next
  case (3 m i)
  then show ?case
    by (auto simp: aliased_ops_def aliased_wf_def br_read_page_def br_content_def Let_def)
qed

text \<open>
  C39 (memory sweep). Over memory behind any address decoder that keeps pages inside the range
  the sweep completes, and it reports aliasing exactly when the decoder maps two of the pages to the
  same cell, provided the page values of this nonce do not collide. In particular honest memory
  is never accused. The hypotheses state a 64-bit address range and the documented lengths of
  the digests.
\<close>

theorem sweep_detects_aliasing:
  assumes "0 < br_page_size m" and "0 < br_page_count m"
    and "br_page_count m * br_page_size m \<le> 2 ^ 64" and "0 \<le> start" and "start \<le> 2 ^ 64"
    and "\<forall>i. 0 \<le> i \<and> i < br_page_count m \<longrightarrow> 0 \<le> f i \<and> f i < br_page_count m"
    and "32 \<le> length secret" and "clean_str (nfc cr) nonce"
    and "\<forall>s. (\<forall>c \<in> set s. c < 128) \<longrightarrow> nfc cr s" and "\<forall>x. length (sha256 cr x) = 32"
    and "\<forall>s n. length (shake s n) = n"
    and "inj_on (\<lambda>i. page_value cr shake secret nonce i (br_page_size m)) {0..<br_page_count m}"
  shows "\<exists>fp m'. run_memory_sweep cr shake (aliased_ops f) nonce sk secret start m = (Inr fp, m') \<and>
    (mf_aliasing_detected fp \<longleftrightarrow> \<not> inj_on f {0..<br_page_count m})"
proof -
  have "aliased_wf f m" using assms(1,6) by (simp add: aliased_wf_def br_wf_def)
  with assms show ?thesis
    using aliased.run_memory_sweep_detects [of f m start secret cr nonce shake sk]
    by (simp add: aliased_ops_def)
qed

subsection \<open>The verifier accepts what the sweep signs\<close>

lemma verify_memory_sweep_True_iff:
  "(\<exists>d. verify_memory_sweep cr fp k = Inr (True, d)) \<longleftrightarrow>
     mf_algorithm fp = us ''wcm-full-range-v1'' \<and> 0 \<le> mf_range_start fp \<and> 0 < mf_page_size fp \<and>
     0 < mf_range_length fp \<and> mf_range_length fp mod mf_page_size fp = 0 \<and>
     mf_pages_written fp = mf_range_length fp div mf_page_size fp \<and> mf_pages_read fp = mf_pages_written fp \<and>
     mf_public_key_b64url fp = Some k \<and>
     (\<exists>pub sig msg. b64url_decode k = Inr pub \<and> ed_load cr pub \<and>
        mf_signature_b64url fp = Some (b64url_encode sig) \<and> b64url_encode sig \<noteq> [] \<and>
        canon_bytes cr (mf_signing_payload fp) = Inr msg \<and> ed_verify cr pub sig msg)"
  (is "?L \<longleftrightarrow> ?R")
proof
  assume ?L
  then show ?R
    by (auto simp: verify_memory_sweep_def rbind_Inr_iff not_le not_less b64url_decode_encode dest!: b64url_decodeD
        split: if_splits sum.splits)
next
  assume ?R
  then show ?L
    by (auto simp: verify_memory_sweep_def b64url_decode_encode)
qed

text \<open>No page operation changes the geometry of the range.\<close>

lemma sweep_write_frame:
  assumes "\<And>i v m. Q (snd (mo_write_page ops i v m)) = Q m"
  shows "Q (snd (sweep_write cr shake ops secret nonce order m)) = Q m"
proof (induction order arbitrary: m)
  case (Cons i order)
  show ?case
  proof (cases "page_value cr shake secret nonce i (mo_page_size ops m)")
    case (Inr v)
    then show ?thesis
      using Cons [of "snd (mo_write_page ops i v m)"] assms [of i v m] by (auto split: prod.splits sum.splits)
  qed simp
qed simp

lemma br_write_frame:
  "br_page_size (snd (br_write_page i v m)) = br_page_size m \<and>
   br_page_count (snd (br_write_page i v m)) = br_page_count m"
proof (cases "int (length v) = br_page_size m \<and> 0 \<le> i \<and> i < br_page_count m \<and> 0 < br_page_size m")
  case True
  then show ?thesis using br_write_ok [of m i v] by (auto simp: br_wf_def)
next
  case False
  show ?thesis
  proof (cases "br_page_size m = 0")
    case True
    then show ?thesis by (auto simp: br_write_page_def br_page_count_def Let_def)
  next
    case size: False
    with False have "int (length v) \<noteq> br_page_size m \<or> \<not> (0 \<le> i \<and> i < br_page_count m)" by auto
    then show ?thesis by (simp add: br_write_page_def)
  qed
qed

text \<open>
  A transcript the sweep signs, over memory behind any address decoder, is
  accepted by the verifier under the signer's key, and under no other expected key.
\<close>

theorem sweep_transcript_verifies:
  assumes "ed_correct cr" and "ed_load cr (ed_public cr sk)"
    and "run_memory_sweep cr shake (aliased_ops f) nonce sk secret start m = (Inr fp, m')"
  shows "(\<exists>d. verify_memory_sweep cr fp k = Inr (True, d)) \<longleftrightarrow> k = memory_sweep_public_key cr sk"
proof -
  obtain wo ro al rb where geo: "0 < br_page_size m" "0 < br_page_count m" "0 \<le> start"
    and w: "sweep_write cr shake (aliased_ops f) secret nonce wo m = (Inr (), m')"
    and fp: "sign_fingerprint cr sk
       \<lparr>mf_challenge_nonce = nonce, mf_algorithm = us ''wcm-full-range-v1'',
        mf_range_start = start, mf_range_length = br_page_count m' * br_page_size m',
        mf_page_size = br_page_size m', mf_pages_written = br_page_count m',
        mf_pages_read = br_page_count m', mf_aliasing_detected = al,
        mf_readback_hash = prefixed_sha256 cr rb,
        mf_public_key_b64url = Some (memory_sweep_public_key cr sk),
        mf_signature_b64url = Some []\<rparr> = Inr fp" (is "sign_fingerprint cr sk ?fp = Inr fp")
    by (rule run_memory_sweep_success [OF assms(3)]) (simp add: aliased_ops_def)
  have "(\<lambda>m. (br_page_size m, br_page_count m)) (snd (sweep_write cr shake (aliased_ops f) secret nonce wo m)) =
      (br_page_size m, br_page_count m)"
    by (rule sweep_write_frame) (simp add: aliased_ops_def br_write_frame)
  with w have same: "br_page_size m' = br_page_size m" "br_page_count m' = br_page_count m" by auto
  have payload: "mf_signing_payload (x\<lparr>mf_signature_b64url := y\<rparr>) = mf_signing_payload x" for x y
    by (simp add: mf_signing_payload_def mf_signing_members_def)
  obtain msg where msg: "canon_bytes cr (mf_signing_payload ?fp) = Inr msg"
    and fpd: "fp = ?fp\<lparr>mf_signature_b64url := Some (b64url_encode (ed_sign cr sk msg))\<rparr>"
    using fp by (auto simp: sign_fingerprint_def rbind_Inr_iff)
  then have "canon_bytes cr (mf_signing_payload fp) = Inr msg" by (simp only: payload)
  have "length (ed_sign cr sk msg) = 64" using assms(1) by (simp add: ed_correct_def)
  then have "b64url_encode (ed_sign cr sk msg) \<noteq> []"
    using b64url_encode_inj [of "ed_sign cr sk msg" "[]"] by (auto simp: b64url_encode_def)
  moreover have inj: "b64url_encode a = b64url_encode b \<longleftrightarrow> a = b" for a b using b64url_encode_inj by blast
  ultimately show ?thesis using fpd \<open>canon_bytes cr (mf_signing_payload fp) = Inr msg\<close> same geo assms(1,2)
    by (auto simp: verify_memory_sweep_True_iff memory_sweep_public_key_def b64url_decode_encode inj ed_correct_def)
qed

subsection \<open>A concrete sweep\<close>

text \<open>A stand-in digest, the last 32 bytes of its input, that keeps page values apart.\<close>

definition tail32 :: "bytes \<Rightarrow> bytes" where
  "tail32 x = drop (length x) (replicate 32 0 @ x)"

definition demo_sweep_crypto :: crypto where
  "demo_sweep_crypto = demo_crypto\<lparr>hf := \<lparr>hf_sha256 = tail32, hf_shake256 = tail32\<rparr>\<rparr>"

definition demo_shake :: "bytes \<Rightarrow> nat \<Rightarrow> bytes" where
  "demo_shake s n = take n (rev s @ replicate n 0)"

definition demo_range :: bytearray_range where
  "demo_range = \<lparr>br_memory = [0, 0], br_page_size = 1\<rparr>"

lemma length_tail32 [simp]: "length (tail32 x) = 32" by (simp add: tail32_def)

lemma last_tail32: "x \<noteq> [] \<Longrightarrow> last (tail32 x) = last x"
  by (cases x rule: rev_cases) (simp_all add: tail32_def last_append)

lemma last_hmac: "msg \<noteq> [] \<Longrightarrow> last (hmac_sha256 tail32 k msg) = last msg"
proof -
  have "tail32 x \<noteq> []" for x using length_tail32 [of x] by force
  then show "msg \<noteq> [] \<Longrightarrow> ?thesis" by (simp add: hmac_sha256_def Let_def last_tail32)
qed

lemma last_int_be8: "int_be 8 i \<noteq> [] \<and> last (int_be 8 i) = word_of_int (i mod 256)"
proof -
  have "int_be (Suc w) i \<noteq> [] \<and> last (int_be (Suc w) i) = word_of_int (i mod 256)" for w
    by (simp add: int_be_def)
  from this [of 7] show ?thesis by simp
qed

lemma demo_page_value:
  "0 \<le> i \<Longrightarrow> i < 2 ^ 64 \<Longrightarrow> page_value demo_sweep_crypto demo_shake k (us ''n'') i 1 = Inr [word_of_int (i mod 256)]"
proof -
  assume i: "0 \<le> i" "i < 2 ^ 64"
  obtain b where b: "utf8_encode (us ''n'') = Inr b" by (simp add: utf8_encode_def)
  have "length (hmac_sha256 tail32 k (b @ int_be 8 i)) = 32" by (simp add: hmac_sha256_def Let_def)
  then have "demo_shake (hmac_sha256 tail32 k (b @ int_be 8 i)) 1 = [last (hmac_sha256 tail32 k (b @ int_be 8 i))]"
    by (cases "hmac_sha256 tail32 k (b @ int_be 8 i)" rule: rev_cases) (auto simp: demo_shake_def)
  with i b show ?thesis
    by (simp add: page_value_def to_bytes8_def demo_sweep_crypto_def last_hmac last_int_be8)
qed

lemma length_demo_shake [simp]: "length (demo_shake s n) = n" by (simp add: demo_shake_def min_def)

lemma two_pages: "{0..<2 :: int} = {0, 1}" by auto

theorem sweep_detects_aliasing_witness:
  "\<exists>fp m'. run_memory_sweep demo_sweep_crypto demo_shake (aliased_ops (\<lambda>i. 0)) (us ''n'') [5] (replicate 32 7) 0 demo_range =
     (Inr fp, m') \<and> mf_aliasing_detected fp"
proof -
  have "\<exists>fp m'. run_memory_sweep demo_sweep_crypto demo_shake (aliased_ops (\<lambda>i. 0)) (us ''n'') [5] (replicate 32 7) 0 demo_range =
     (Inr fp, m') \<and> (mf_aliasing_detected fp \<longleftrightarrow> \<not> inj_on (\<lambda>i :: int. 0 :: int) {0..<br_page_count demo_range})"
  proof (rule sweep_detects_aliasing)
    show "inj_on (\<lambda>i. page_value demo_sweep_crypto demo_shake (replicate 32 7) (us ''n'') i (br_page_size demo_range))
        {0..<br_page_count demo_range}"
      by (simp add: br_page_count_def demo_range_def two_pages demo_page_value)
  qed (simp_all add: demo_range_def br_page_count_def clean_str_def demo_sweep_crypto_def demo_crypto_def)
  then show ?thesis by (simp add: demo_range_def br_page_count_def two_pages)
qed

theorem sweep_transcript_verifies_witness:
  "\<exists>fp m'. run_memory_sweep demo_sweep_crypto demo_shake (aliased_ops (\<lambda>i. i)) (us ''n'') [5] (replicate 32 7) 0 demo_range =
     (Inr fp, m') \<and>
     (\<exists>d. verify_memory_sweep demo_sweep_crypto fp (memory_sweep_public_key demo_sweep_crypto [5]) = Inr (True, d))"
proof -
  have "\<exists>fp m'. run_memory_sweep demo_sweep_crypto demo_shake (aliased_ops (\<lambda>i. i)) (us ''n'') [5] (replicate 32 7) 0 demo_range =
     (Inr fp, m') \<and> (mf_aliasing_detected fp \<longleftrightarrow>
        \<not> inj_on (\<lambda>i. i) {0..<mo_page_count (aliased_ops (\<lambda>i. i)) demo_range})"
  proof (rule aliased.run_memory_sweep_detects)
    show "inj_on (\<lambda>i. page_value demo_sweep_crypto demo_shake (replicate 32 7) (us ''n'') i
        (mo_page_size (aliased_ops (\<lambda>i. i)) demo_range)) {0..<mo_page_count (aliased_ops (\<lambda>i. i)) demo_range}"
      by (simp add: aliased_ops_def br_page_count_def demo_range_def two_pages demo_page_value)
  qed (simp_all add: demo_range_def br_page_count_def clean_str_def demo_sweep_crypto_def demo_crypto_def
         aliased_ops_def aliased_wf_def br_wf_def)
  then obtain fp m' where r: "run_memory_sweep demo_sweep_crypto demo_shake (aliased_ops (\<lambda>i. i)) (us ''n'') [5]
      (replicate 32 7) 0 demo_range = (Inr fp, m')" by blast
  have "ed_correct demo_sweep_crypto" "ed_load demo_sweep_crypto (ed_public demo_sweep_crypto [5])"
    by (simp_all add: demo_sweep_crypto_def demo_crypto_def ed_correct_def)
  from sweep_transcript_verifies [OF this r] r show ?thesis by blast
qed

end
