(* ===== verification/GpuRevocation.thy ===== *)
theory GpuRevocation
  imports Quote
begin

section \<open>Live GPU revocation (\<open>gpu_revocation.py\<close>)\<close>

text \<open>
  The nonce-bound OCSP check over the device chain and the answers the client holds for
  renewals. What the \<open>cryptography\<close> package reads from certificates and OCSP messages is the
  parameter record \<open>ocsp_lib\<close>; what the network answered and the nonce drawn are
  arguments of each query. The main results: a passing check rests, for every link that is
  asked, on a verified answer about that very certificate under this request's nonce; held
  answers refine the history of verified answers; and reuse never extends a bound.
\<close>

subsection \<open>The OCSP package as a parameter\<close>

type_synonym cert_id = "int \<times> bytes \<times> bytes" \<comment> \<open>serial, issuer name hash, issuer key hash\<close>

record 'c ocsp_response =
  or_response_status :: pystr
  or_cert_id :: cert_id
  or_hash_algorithm :: "pystr option"
  or_nonce :: "bytes option result" \<comment> \<open>the nonce extension, when present\<close>
  or_certificates :: "'c list"
  or_signature_hash_algorithm :: "pystr option"
  or_signature :: bytes
  or_tbs :: bytes
  or_next_update :: "time option"
  or_certificate_status :: pystr

text \<open>
  \<open>ol_cert_id alg cert issuer\<close> is the CertID of a request built for the pair;
  \<open>ol_eku\<close> whether the extended key usage, when present, lists OCSP signing;
  \<open>ol_ec_verify key_cert hash signature message\<close> the outcome of an ECDSA verification
  under a certificate's key; the signature and signed bytes of a certificate are fields too.
\<close>

record 'c ocsp_lib =
  ol_cert_id :: "pystr option \<Rightarrow> 'c \<Rightarrow> 'c \<Rightarrow> cert_id result"
  ol_request :: "'c \<Rightarrow> 'c \<Rightarrow> bytes \<Rightarrow> bytes result"
  ol_aia_ocsp :: "'c \<Rightarrow> pystr list option result"
  ol_load :: "bytes \<Rightarrow> 'c ocsp_response result"
  ol_eku :: "'c \<Rightarrow> bool option result"
  ol_key :: "'c \<Rightarrow> public_key result"
  ol_sig_hash :: "'c \<Rightarrow> pystr option result"
  ol_signature :: "'c \<Rightarrow> bytes"
  ol_tbs :: "'c \<Rightarrow> bytes"
  ol_ec_verify :: "'c \<Rightarrow> pystr \<Rightarrow> bytes \<Rightarrow> bytes \<Rightarrow> exn option"
  ol_load_pems :: "bytes \<Rightarrow> 'c list result"
  ol_json_loads :: "bytes \<Rightarrow> json result"

definition SHA384 :: "pystr option" where "SHA384 = Some (us ''sha384'')"

subsection \<open>Transport\<close>

definition ATTEMPTS :: nat where "ATTEMPTS = 5"

definition RESPONDER :: pystr where "RESPONDER = us ''http://ocsp.ndis.nvidia.com''"

definition starts_with :: "pystr \<Rightarrow> pystr \<Rightarrow> bool" where
  "starts_with s p \<longleftrightarrow> take (length p) s = p"

text \<open>The retry loop of \<open>http_post\<close>; \<open>urlopen k\<close> is what the attempt \<open>k\<close> brought.\<close>

function http_attempts :: "(nat \<Rightarrow> bytes result) \<Rightarrow> nat \<Rightarrow> bytes result" where
  "http_attempts urlopen attempt =
     (if attempt \<ge> ATTEMPTS then Inl (GpuRevocationUnavailable (us ''no answer in 5 attempts''))
      else case urlopen attempt of
        Inr body \<Rightarrow> Inr body
      | Inl e \<Rightarrow> if is_Exception e then http_attempts urlopen (attempt + 1) else Inl e)"
  by auto
termination by (relation "measure (\<lambda>(u, k). ATTEMPTS - k)") auto

declare http_attempts.simps [simp del]

definition http_post :: "(nat \<Rightarrow> pystr \<Rightarrow> bytes \<Rightarrow> bytes result) \<Rightarrow> pystr \<Rightarrow> bytes \<Rightarrow> bytes result" where
  "http_post urlopen url body =
     (if \<not> (starts_with url (us ''http://'') \<or> starts_with url (us ''https://''))
      then Inl (GpuRevocationUnavailable (us ''refusing a non-HTTP OCSP responder URL''))
      else http_attempts (\<lambda>k. urlopen k url body) 0)"

text \<open>\<open>lower\<close> is \<open>str.lower\<close>, of which only the ASCII letters can match the prefix.\<close>

definition lower_ascii :: "pystr \<Rightarrow> pystr" where
  "lower_ascii s = map (\<lambda>c. if 65 \<le> c \<and> c \<le> 90 then c + 32 else c) s"

definition responder_for :: "'c ocsp_lib \<Rightarrow> 'c \<Rightarrow> pystr result" where
  "responder_for lib cert =
     rbind (ol_aia_ocsp lib cert) (\<lambda>aia.
       let urls = (case aia of None \<Rightarrow> [] | Some ls \<Rightarrow> ls) in
       Inr (case filter (\<lambda>u. starts_with (lower_ascii u) (us ''https://'')) urls of
              u # _ \<Rightarrow> u
            | [] \<Rightarrow> (case urls of u # _ \<Rightarrow> u | [] \<Rightarrow> RESPONDER)))"

subsection \<open>Verifying an answer\<close>

definition names_cert :: "'c ocsp_lib \<Rightarrow> 'c ocsp_response \<Rightarrow> 'c \<Rightarrow> 'c \<Rightarrow> bool result" where
  "names_cert lib response cert issuer =
     (case ol_cert_id lib (or_hash_algorithm response) cert issuer of
        Inl e \<Rightarrow> if is_ValueError e \<or> is_TypeError e then Inr False else Inl e
      | Inr asked \<Rightarrow> Inr (or_cert_id response = asked))"

definition held_key :: "'c ocsp_lib \<Rightarrow> 'c \<Rightarrow> 'c \<Rightarrow> cert_id result" where
  "held_key lib cert issuer = ol_cert_id lib SHA384 cert issuer"

text \<open>An ECDSA check whose documented failures become a refusal.\<close>

definition ec_check :: "exn option \<Rightarrow> pystr \<Rightarrow> unit result" where
  "ec_check outcome msg =
     (case outcome of
        None \<Rightarrow> Inr ()
      | Some e \<Rightarrow> if is_InvalidSignature e \<or> is_TypeError e \<or> is_ValueError e
                  then Inl (GpuRevocationUnavailable msg) else Inl e)"

definition delegated_signer :: "'c ocsp_lib \<Rightarrow> 'c \<Rightarrow> 'c \<Rightarrow> unit result" where
  "delegated_signer lib issuer signer =
     rbind (ol_eku lib signer) (\<lambda>usage.
     rbind (raise_if (usage \<noteq> Some True)
       (GpuRevocationUnavailable (us ''the responder certificate is not authorised to sign OCSP''))) (\<lambda>_.
     rbind (ol_key lib issuer) (\<lambda>issuer_key.
     rbind (raise_if (\<not> is_EC issuer_key)
       (GpuRevocationUnavailable (us ''the issuer of the certificate does not hold an EC key''))) (\<lambda>_.
     rbind (ol_sig_hash lib signer) (\<lambda>h.
     case h of
       None \<Rightarrow> Inl (GpuRevocationUnavailable (us ''the responder certificate names no signature hash algorithm''))
     | Some h \<Rightarrow> ec_check (ol_ec_verify lib issuer h (ol_signature lib signer) (ol_tbs lib signer))
                  (us ''the responder was not delegated by the issuer of this certificate''))))))"

definition verify_signature :: "'c ocsp_lib \<Rightarrow> 'c ocsp_response \<Rightarrow> 'c \<Rightarrow> unit result" where
  "verify_signature lib response issuer =
     (let signer = (case or_certificates response of [] \<Rightarrow> issuer | c # _ \<Rightarrow> c) in
      rbind (if or_certificates response = [] then Inr () else delegated_signer lib issuer signer) (\<lambda>_.
      rbind (ol_key lib signer) (\<lambda>signer_key.
      rbind (raise_if (\<not> is_EC signer_key)
        (GpuRevocationUnavailable (us ''the OCSP signer does not hold an EC key''))) (\<lambda>_.
      case or_signature_hash_algorithm response of
        None \<Rightarrow> Inl (GpuRevocationUnavailable (us ''the OCSP answer names no signature hash algorithm''))
      | Some h \<Rightarrow> ec_check (ol_ec_verify lib signer h (or_signature response) (or_tbs response))
                   (us ''the signature of the OCSP answer does not verify'')))))"

definition verify_answer :: "'c ocsp_lib \<Rightarrow> 'c ocsp_response \<Rightarrow> 'c \<Rightarrow> 'c \<Rightarrow> bytes option \<Rightarrow> unit result" where
  "verify_answer lib response cert issuer nonce =
     rbind (names_cert lib response cert issuer) (\<lambda>ok.
     rbind (raise_if (\<not> ok)
       (GpuRevocationUnavailable (us ''the answer is about a different certificate than the one asked''))) (\<lambda>_.
     rbind (case nonce of
              None \<Rightarrow> Inr ()
            | Some n \<Rightarrow>
                rbind (or_nonce response) (\<lambda>echoed.
                case echoed of
                  None \<Rightarrow> Inl (GpuRevocationUnavailable (us ''the answer did not echo the nonce, so it may be a replay''))
                | Some x \<Rightarrow> raise_if (x \<noteq> n)
                    (GpuRevocationUnavailable (us ''the answer echoed a different nonce, so it is not for this request'')))) (\<lambda>_.
     verify_signature lib response issuer)))"

subsection \<open>The client\<close>

record answer =
  an_status :: pystr
  an_source :: pystr
  an_not_after :: "time option"

record revocation_result =
  rr_passed :: bool
  rr_detail :: pystr
  rr_not_after :: "time option"

type_synonym held = "(cert_id \<times> (pystr \<times> time \<times> time option)) list"

record ocsp_client =
  oc_max_age_seconds :: int
  oc_held :: held

definition new_ocsp_client :: "int \<Rightarrow> ocsp_client result" where
  "new_ocsp_client max_age_seconds =
     (if max_age_seconds \<le> 0 then Inl (ValueError (us ''max_age_seconds must be positive''))
      else Inr \<lparr>oc_max_age_seconds = max_age_seconds, oc_held = []\<rparr>)"

definition client_bound :: "ocsp_client \<Rightarrow> time \<Rightarrow> time option \<Rightarrow> time option" where
  "client_bound c fetched next_update =
     (let short = fetched + secs (oc_max_age_seconds c)
      in Some (case next_update of None \<Rightarrow> short | Some n \<Rightarrow> min short n))"

text \<open>\<open>int(delta.total_seconds())\<close> truncates towards zero.\<close>

definition trunc_seconds :: "time \<Rightarrow> int" where
  "trunc_seconds d = (if d \<ge> 0 then d div 1000000 else - ((- d) div 1000000))"

definition client_reuse :: "'c ocsp_lib \<Rightarrow> ocsp_client \<Rightarrow> 'c \<Rightarrow> 'c \<Rightarrow> time \<Rightarrow> answer result" where
  "client_reuse lib c cert issuer now =
     rbind (held_key lib cert issuer) (\<lambda>k.
     case map_of (oc_held c) k of
       None \<Rightarrow> Inl (GpuRevocationUnavailable
         (us ''NVIDIA could not be reached and no earlier answer about this certificate is held''))
     | Some (status, fetched, next_update) \<Rightarrow>
         let age = trunc_seconds (now - fetched) in
         if age > oc_max_age_seconds c
         then Inl (GpuRevocationUnavailable
           (us ''NVIDIA could not be reached and the held answer is past the short window''))
         else if (case next_update of None \<Rightarrow> False | Some n \<Rightarrow> now \<ge> n)
         then Inl (GpuRevocationUnavailable
           (us ''NVIDIA could not be reached and the held answer is past its own nextUpdate''))
         else Inr \<lparr>an_status = status,
                   an_source = us ''reused '' @ int_str age @ us ''s after it was obtained'',
                   an_not_after = client_bound c fetched next_update\<rparr>)"

text \<open>The branch of \<open>status\<close> after a response was obtained.\<close>

definition answered ::
  "'c ocsp_lib \<Rightarrow> bytes \<Rightarrow> 'c \<Rightarrow> 'c \<Rightarrow> time \<Rightarrow> 'c ocsp_response \<Rightarrow> ocsp_client \<Rightarrow> answer result \<times> ocsp_client" where
  "answered lib nonce cert issuer now response c =
     (if or_response_status response = us ''UNAUTHORIZED''
      then (Inr \<lparr>an_status = us ''UNAUTHORIZED'', an_source = us ''fresh'', an_not_after = None\<rparr>, c)
      else if or_response_status response \<noteq> us ''SUCCESSFUL''
      then (Inl (GpuRevocationUnavailable (us ''NVIDIA answered '' @ or_response_status response)), c)
      else (case verify_answer lib response cert issuer (Some nonce) of
         Inl e \<Rightarrow> (Inl e, c)
       | Inr _ \<Rightarrow>
           if (case or_next_update response of None \<Rightarrow> False | Some n \<Rightarrow> now \<ge> n)
           then (Inl (GpuRevocationUnavailable (us ''the answer of NVIDIA is already past its own nextUpdate'')), c)
           else (case held_key lib cert issuer of
              Inl e \<Rightarrow> (Inl e, c)
            | Inr k \<Rightarrow>
                (Inr \<lparr>an_status = or_certificate_status response, an_source = us ''fresh'',
                      an_not_after = or_next_update response\<rparr>,
                 c\<lparr>oc_held := AList.update k (or_certificate_status response, now, or_next_update response)
                                (oc_held c)\<rparr>))))"

text \<open>
  \<open>NvidiaOcspClient.status\<close>: \<open>nonce\<close> is what \<open>self._nonce()\<close> drew, \<open>post\<close> what the
  transport answers to the request.
\<close>

definition client_status ::
  "'c ocsp_lib \<Rightarrow> bytes \<Rightarrow> (pystr \<Rightarrow> bytes \<Rightarrow> bytes result) \<Rightarrow> 'c \<Rightarrow> 'c \<Rightarrow> time \<Rightarrow> bool \<Rightarrow> ocsp_client
     \<Rightarrow> answer result \<times> ocsp_client" where
  "client_status lib nonce post cert issuer now allow_reuse c =
     (case ol_request lib cert issuer nonce of
        Inl e \<Rightarrow> (Inl e, c)
      | Inr request \<Rightarrow>
     (case rbind (responder_for lib cert) (\<lambda>url. rbind (post url request) (ol_load lib)) of
        Inl e \<Rightarrow>
          if \<not> is_Exception e then (Inl e, c)
          else if \<not> allow_reuse
          then (Inl (GpuRevocationUnavailable
                 (us ''NVIDIA could not be reached and a first release may not rest on an earlier answer'')), c)
          else (client_reuse lib c cert issuer now, c)
      | Inr response \<Rightarrow> answered lib nonce cert issuer now response c))"

subsection \<open>The chain\<close>

definition link_label :: "nat \<Rightarrow> pystr" where
  "link_label index =
     (case index of 0 \<Rightarrow> us ''FMC leaf'' | Suc 0 \<Rightarrow> us ''BROM'' | Suc (Suc 0) \<Rightarrow> us ''Provisioner ICA''
      | Suc (Suc (Suc 0)) \<Rightarrow> us ''Identity CA'' | _ \<Rightarrow> us ''link '' @ int_str (int index))"

text \<open>\<open>earlier a b\<close>: the running \<open>not_after\<close> after an answer bounded by \<open>b\<close>.\<close>

definition earlier :: "time option \<Rightarrow> time option \<Rightarrow> time option" where
  "earlier a b = (case b of None \<Rightarrow> a | Some y \<Rightarrow> (case a of None \<Rightarrow> Some y | Some x \<Rightarrow> Some (min x y)))"

definition rr_refuse :: "pystr \<Rightarrow> revocation_result" where
  "rr_refuse detail = \<lparr>rr_passed = False, rr_detail = detail, rr_not_after = None\<rparr>"

text \<open>
  The loop of \<open>check_chain\<close>: the links still to ask, the index of the next one, the bound and
  the detail so far; \<open>net index\<close> is the nonce drawn for the link and what the network answered.
\<close>

fun check_links ::
  "'c ocsp_lib \<Rightarrow> (nat \<Rightarrow> bytes \<times> (pystr \<Rightarrow> bytes \<Rightarrow> bytes result)) \<Rightarrow> time \<Rightarrow> bool \<Rightarrow> nat \<Rightarrow> ('c \<times> 'c) list
     \<Rightarrow> time option \<Rightarrow> pystr \<Rightarrow> ocsp_client \<Rightarrow> revocation_result result \<times> ocsp_client" where
  "check_links lib net now allow_reuse index [] not_after detail c =
     (Inr \<lparr>rr_passed = True, rr_detail = us ''NVIDIA OCSP, nonce-bound: '' @ detail, rr_not_after = not_after\<rparr>, c)"
| "check_links lib net now allow_reuse index ((cert, issuer) # links) not_after detail c =
     (case client_status lib (fst (net index)) (snd (net index)) cert issuer now allow_reuse c of
        (Inl (GpuRevocationUnavailable m), c') \<Rightarrow> (Inr (rr_refuse (link_label index @ us '': '' @ m)), c')
      | (Inl e, c') \<Rightarrow> (Inl e, c')
      | (Inr a, c') \<Rightarrow>
          if an_status a = us ''UNAUTHORIZED''
          then (Inr (rr_refuse (link_label index @ us '': NVIDIA would not answer for a link it must vouch for'')), c')
          else if an_status a \<noteq> us ''GOOD''
          then (Inr (rr_refuse (link_label index @ us '': NVIDIA reports this certificate '' @ an_status a)), c')
          else check_links lib net now allow_reuse (index + 1) links (earlier not_after (an_not_after a))
                 (detail @ us ''; '' @ link_label index @ us '' GOOD, '' @ an_source a) c')"

definition check_chain ::
  "'c ocsp_lib \<Rightarrow> (nat \<Rightarrow> bytes \<times> (pystr \<Rightarrow> bytes \<Rightarrow> bytes result)) \<Rightarrow> 'c list \<Rightarrow> time \<Rightarrow> bool \<Rightarrow> ocsp_client
     \<Rightarrow> revocation_result result \<times> ocsp_client" where
  "check_chain lib net chain now allow_reuse c =
     (if length chain < 3
      then (Inr (rr_refuse (us ''the GPU certificate chain is too short to check for revocation'')), c)
      else check_links lib net now allow_reuse 1 (zip (butlast (tl chain)) (tl (tl chain))) None
             (us ''leaf not established: NVIDIA does not answer for it, so this says nothing about the signing certificate itself; revoking the chip is reachable through BROM instead'') c)"

definition chain_from_evidence :: "'c ocsp_lib \<Rightarrow> pystr \<Rightarrow> 'c list result" where
  "chain_from_evidence lib evidence_b64 =
     rbind (b64decode evidence_b64) (\<lambda>raw.
     rbind (ol_json_loads lib raw) (\<lambda>doc.
     case doc of
       JDict d \<Rightarrow>
         (case map_of d (us ''cert_chain_pem'') of
            None \<Rightarrow> Inl (KeyError (us ''cert_chain_pem''))
          | Some (JStr t) \<Rightarrow> rbind (utf8_encode t) (ol_load_pems lib)
          | Some _ \<Rightarrow> Inl (AttributeError (us ''encode'')))
     | _ \<Rightarrow> Inl (TypeError (us ''document is not subscriptable by a string''))))"

subsection \<open>What a passing check rests on\<close>

text \<open>The answer is signed by the issuer, or by a responder the issuer certified for OCSP signing.\<close>

definition vouched :: "'c ocsp_lib \<Rightarrow> 'c ocsp_response \<Rightarrow> 'c \<Rightarrow> bool" where
  "vouched lib response issuer \<longleftrightarrow>
     (\<exists>signer h. or_signature_hash_algorithm response = Some h \<and>
        ol_ec_verify lib signer h (or_signature response) (or_tbs response) = None \<and>
        (signer = issuer \<and> or_certificates response = [] \<or>
         signer \<in> set (or_certificates response) \<and> ol_eku lib signer = Inr (Some True) \<and>
         (\<exists>h'. ol_sig_hash lib signer = Inr (Some h') \<and>
            ol_ec_verify lib issuer h' (ol_signature lib signer) (ol_tbs lib signer) = None)))"

lemma ec_check_ok: "ec_check r m = Inr u \<longleftrightarrow> r = None"
  by (auto simp: ec_check_def split: option.splits)

lemma delegated_signer_ok:
  "delegated_signer lib issuer signer = Inr u \<Longrightarrow> ol_eku lib signer = Inr (Some True) \<and>
     (\<exists>h. ol_sig_hash lib signer = Inr (Some h) \<and>
        ol_ec_verify lib issuer h (ol_signature lib signer) (ol_tbs lib signer) = None)"
  by (auto simp: delegated_signer_def rbind_Inr_iff ec_check_ok split: option.splits)

lemma verify_signature_sound:
  assumes "verify_signature lib response issuer = Inr u"
  shows "vouched lib response issuer"
proof (cases "or_certificates response")
  case Nil
  with assms show ?thesis
    by (auto simp: verify_signature_def vouched_def rbind_Inr_iff ec_check_ok split: option.splits)
next
  case (Cons s cs)
  with assms show ?thesis
    by (auto simp: verify_signature_def vouched_def rbind_Inr_iff ec_check_ok split: option.splits
        dest!: delegated_signer_ok intro!: exI [of _ s])
qed

definition fresh_answer ::
  "'c ocsp_lib \<Rightarrow> bytes \<Rightarrow> (pystr \<Rightarrow> bytes \<Rightarrow> bytes result) \<Rightarrow> 'c \<Rightarrow> 'c \<Rightarrow> time \<Rightarrow> 'c ocsp_response \<Rightarrow> bool" where
  "fresh_answer lib nonce post cert issuer now response \<longleftrightarrow>
     (\<exists>request url raw. ol_request lib cert issuer nonce = Inr request \<and> responder_for lib cert = Inr url \<and>
        post url request = Inr raw \<and> ol_load lib raw = Inr response) \<and>
     or_response_status response = us ''SUCCESSFUL'' \<and>
     ol_cert_id lib (or_hash_algorithm response) cert issuer = Inr (or_cert_id response) \<and>
     or_nonce response = Inr (Some nonce) \<and> vouched lib response issuer \<and>
     (\<forall>n. or_next_update response = Some n \<longrightarrow> now < n)"

lemma verify_answer_sound:
  assumes "verify_answer lib response cert issuer (Some nonce) = Inr u"
  shows "ol_cert_id lib (or_hash_algorithm response) cert issuer = Inr (or_cert_id response) \<and>
    or_nonce response = Inr (Some nonce) \<and> vouched lib response issuer"
proof -
  have "names_cert lib response cert issuer = Inr True" "or_nonce response = Inr (Some nonce)"
    "verify_signature lib response issuer = Inr u"
    using assms by (auto simp: verify_answer_def rbind_Inr_iff split: option.splits)
  then show ?thesis
    by (auto simp: names_cert_def verify_signature_sound split: sum.splits if_splits)
qed

lemma answered_cases:
  assumes "answered lib nonce cert issuer now response c = (Inr a, c')"
  shows "an_status a = us ''UNAUTHORIZED'' \<and> c' = c \<or>
    (\<exists>k. or_response_status response = us ''SUCCESSFUL'' \<and>
      verify_answer lib response cert issuer (Some nonce) = Inr () \<and>
      (\<forall>n. or_next_update response = Some n \<longrightarrow> now < n) \<and> held_key lib cert issuer = Inr k \<and>
      a = \<lparr>an_status = or_certificate_status response, an_source = us ''fresh'', an_not_after = or_next_update response\<rparr> \<and>
      c' = c\<lparr>oc_held := AList.update k (or_certificate_status response, now, or_next_update response) (oc_held c)\<rparr>)"
proof (cases "or_response_status response = us ''SUCCESSFUL''")
  case True
  then show ?thesis using assms unfolding answered_def
    by (cases "verify_answer lib response cert issuer (Some nonce)"; cases "held_key lib cert issuer";
        cases "or_next_update response") (simp_all split: if_split_asm)
next
  case False
  then show ?thesis using assms by (auto simp: answered_def split: if_split_asm)
qed

text \<open>The three ways \<open>status\<close> returns an answer.\<close>

lemma client_status_cases:
  assumes "client_status lib nonce post cert issuer now reuse c = (Inr a, c')"
  obtains (unauthorized) "an_status a = us ''UNAUTHORIZED''" "c' = c"
  | (fresh) response k where "fresh_answer lib nonce post cert issuer now response"
      "held_key lib cert issuer = Inr k"
      "a = \<lparr>an_status = or_certificate_status response, an_source = us ''fresh'', an_not_after = or_next_update response\<rparr>"
      "c' = c\<lparr>oc_held := AList.update k (or_certificate_status response, now, or_next_update response) (oc_held c)\<rparr>"
  | (reused) "reuse" "client_reuse lib c cert issuer now = Inr a" "c' = c"
proof (cases "ol_request lib cert issuer nonce")
  case (Inl e)
  with assms show ?thesis by (simp add: client_status_def)
next
  case rq: (Inr request)
  show ?thesis
  proof (cases "rbind (responder_for lib cert) (\<lambda>url. rbind (post url request) (ol_load lib))")
    case (Inl e)
    with assms have "reuse" "client_reuse lib c cert issuer now = Inr a" "c' = c"
      by (auto simp: client_status_def rq split: if_split_asm)
    then show ?thesis by (rule reused)
  next
    case (Inr response)
    then have got: "\<exists>url raw. responder_for lib cert = Inr url \<and> post url request = Inr raw \<and>
        ol_load lib raw = Inr response" by (auto simp: rbind_Inr_iff)
    have "answered lib nonce cert issuer now response c = (Inr a, c')"
      using assms by (simp add: client_status_def rq Inr)
    from answered_cases [OF this] show ?thesis
    proof (elim disjE conjE exE)
      fix k assume ok: "or_response_status response = us ''SUCCESSFUL''"
        "verify_answer lib response cert issuer (Some nonce) = Inr ()"
        "\<forall>n. or_next_update response = Some n \<longrightarrow> now < n"
      have "fresh_answer lib nonce post cert issuer now response"
        using rq got ok(1,3) verify_answer_sound [OF ok(2)] by (simp add: fresh_answer_def)
      moreover assume "held_key lib cert issuer = Inr k"
        "a = \<lparr>an_status = or_certificate_status response, an_source = us ''fresh'', an_not_after = or_next_update response\<rparr>"
        "c' = c\<lparr>oc_held := AList.update k (or_certificate_status response, now, or_next_update response) (oc_held c)\<rparr>"
      ultimately show ?thesis by (rule fresh)
    qed (rule unauthorized)
  qed
qed

declare check_links.simps(2) [simp del]

lemma check_links_Cons_passed:
  assumes "check_links lib net now reuse i ((cert, issuer) # links) na d c = (Inr r, c')" and "rr_passed r"
  obtains a c1 where "client_status lib (fst (net i)) (snd (net i)) cert issuer now reuse c = (Inr a, c1)"
    "an_status a = us ''GOOD''"
    "check_links lib net now reuse (i + 1) links (earlier na (an_not_after a))
       (d @ us ''; '' @ link_label i @ us '' GOOD, '' @ an_source a) c1 = (Inr r, c')"
proof -
  obtain res c1 where st: "client_status lib (fst (net i)) (snd (net i)) cert issuer now reuse c = (res, c1)"
    by fastforce
  have nr: "\<not> rr_passed (rr_refuse m)" for m by (simp add: rr_refuse_def)
  show thesis
  proof (cases res)
    case (Inl e)
    with assms st nr show ?thesis by (cases e) (auto simp: check_links.simps(2))
  next
    case (Inr a)
    with assms st nr that show ?thesis by (auto simp: check_links.simps(2) split: if_splits)
  qed
qed

lemma earlier_bounds:
  "earlier a b = Some x \<Longrightarrow> (\<forall>y. a = Some y \<longrightarrow> x \<le> y) \<and> (\<forall>y. b = Some y \<longrightarrow> x \<le> y)"
  "a = Some y \<or> b = Some y \<Longrightarrow> \<exists>x. earlier a b = Some x \<and> x \<le> y"
  by (auto simp: earlier_def split: option.splits)

lemma check_links_bound:
  "check_links lib net now reuse i links na d c = (Inr r, c') \<Longrightarrow> rr_passed r \<Longrightarrow> na = Some y \<Longrightarrow>
   \<exists>x. rr_not_after r = Some x \<and> x \<le> y"
proof (induction links arbitrary: i na d c y)
  case (Cons l links)
  obtain cert issuer where l: "l = (cert, issuer)" by fastforce
  obtain a c1 where
    st: "client_status lib (fst (net i)) (snd (net i)) cert issuer now reuse c = (Inr a, c1)"
    and good: "an_status a = us ''GOOD''"
    and rest: "check_links lib net now reuse (i + 1) links (earlier na (an_not_after a))
       (d @ us ''; '' @ link_label i @ us '' GOOD, '' @ an_source a) c1 = (Inr r, c')"
    by (rule check_links_Cons_passed [OF Cons.prems(1) [unfolded l] Cons.prems(2)])
  obtain z where "earlier na (an_not_after a) = Some z" "z \<le> y"
    using earlier_bounds(2) [of na y "an_not_after a"] Cons.prems(3) by auto
  with Cons.IH [OF rest Cons.prems(2)] show ?case by (meson order_trans)
qed auto

lemma check_links_fresh:
  assumes "check_links lib net now False i links na d c = (Inr r, c')" and "rr_passed r" and "k < length links"
  shows "\<exists>response. fresh_answer lib (fst (net (i + k))) (snd (net (i + k))) (fst (links ! k)) (snd (links ! k)) now response \<and>
    or_certificate_status response = us ''GOOD'' \<and>
    (\<forall>n. or_next_update response = Some n \<longrightarrow> (\<exists>x. rr_not_after r = Some x \<and> x \<le> n))"
  using assms
proof (induction links arbitrary: i na d c k)
  case (Cons l links)
  obtain cert issuer where l: "l = (cert, issuer)" by fastforce
  obtain a c1 where
    st: "client_status lib (fst (net i)) (snd (net i)) cert issuer now False c = (Inr a, c1)"
    and good: "an_status a = us ''GOOD''"
    and rest: "check_links lib net now False (i + 1) links (earlier na (an_not_after a))
       (d @ us ''; '' @ link_label i @ us '' GOOD, '' @ an_source a) c1 = (Inr r, c')"
    by (rule check_links_Cons_passed [OF Cons.prems(1) [unfolded l] Cons.prems(2)])
  show ?case
  proof (cases k)
    case (Suc j)
    with Cons.IH [OF rest Cons.prems(2), of j] Cons.prems(3) show ?thesis by simp
  next
    case 0
    from st obtain response where f: "fresh_answer lib (fst (net i)) (snd (net i)) cert issuer now response"
      "a = \<lparr>an_status = or_certificate_status response, an_source = us ''fresh'', an_not_after = or_next_update response\<rparr>"
      by (rule client_status_cases) (use good in auto)
    have "\<exists>x. rr_not_after r = Some x \<and> x \<le> n" if "or_next_update response = Some n" for n
      using earlier_bounds(2) [of na n "an_not_after a"] check_links_bound [OF rest Cons.prems(2)] that f(2)
      by (auto intro: order_trans)
    with f good 0 l show ?thesis by auto
  qed
qed simp

text \<open>
  When the check of a first release passes, the chain has at least three
  certificates, and for every link between the leaf and the root the network answered this
  very request with a response that names that certificate under that issuer, echoes the nonce
  drawn for it, is signed by the issuer or a responder the issuer delegated, says GOOD and is
  not past its nextUpdate; the permission it grants ends no later than any of them.
\<close>

theorem passing_revocation_check:
  assumes "check_chain lib net chain now False c = (Inr r, c')" and "rr_passed r"
  shows "3 \<le> length chain \<and>
    (\<forall>i. 1 \<le> i \<and> i + 1 < length chain \<longrightarrow>
      (\<exists>response. fresh_answer lib (fst (net i)) (snd (net i)) (chain ! i) (chain ! (i + 1)) now response \<and>
         or_certificate_status response = us ''GOOD'' \<and>
         (\<forall>n. or_next_update response = Some n \<longrightarrow> (\<exists>x. rr_not_after r = Some x \<and> x \<le> n))))"
proof -
  let ?links = "zip (butlast (tl chain)) (tl (tl chain))"
  have len: "3 \<le> length chain" using assms by (auto simp: check_chain_def rr_refuse_def split: if_splits)
  then obtain d where cl: "check_links lib net now False 1 ?links None d c = (Inr r, c')"
    using assms(1) by (auto simp: check_chain_def)
  have at: "?links ! (i - 1) = (chain ! i, chain ! (i + 1))" if "1 \<le> i" "i + 1 < length chain" for i
    using that by (auto simp: nth_butlast nth_tl)
  show ?thesis
  proof (intro conjI allI impI)
    fix i assume i: "1 \<le> i \<and> i + 1 < length chain"
    then have "i - 1 < length ?links" "1 + (i - 1) = i" by auto
    with check_links_fresh [OF cl assms(2), of "i - 1"] at [of i] i show
      "\<exists>response. fresh_answer lib (fst (net i)) (snd (net i)) (chain ! i) (chain ! (i + 1)) now response \<and>
         or_certificate_status response = us ''GOOD'' \<and>
         (\<forall>n. or_next_update response = Some n \<longrightarrow> (\<exists>x. rr_not_after r = Some x \<and> x \<le> n))"
      by simp
  qed (rule len)
qed

subsection \<open>Held answers refine the history of verified answers\<close>

text \<open>One call of \<open>status\<close>, with what the network did.\<close>

record 'c query =
  q_nonce :: bytes
  q_post :: "pystr \<Rightarrow> bytes \<Rightarrow> bytes result"
  q_cert :: 'c
  q_issuer :: 'c
  q_now :: time
  q_reuse :: bool

definition ask :: "'c ocsp_lib \<Rightarrow> 'c query \<Rightarrow> ocsp_client \<Rightarrow> answer result \<times> ocsp_client" where
  "ask lib q c = client_status lib (q_nonce q) (q_post q) (q_cert q) (q_issuer q) (q_now q) (q_reuse q) c"

fun asked :: "'c ocsp_lib \<Rightarrow> 'c query list \<Rightarrow> ocsp_client \<Rightarrow> ocsp_client" where
  "asked lib [] c = c"
| "asked lib (q # qs) c = asked lib qs (snd (ask lib q c))"

text \<open>The specification: the log of verified answers, from what the network answered alone.\<close>

definition verified_entry :: "'c ocsp_lib \<Rightarrow> 'c query \<Rightarrow> (cert_id \<times> (pystr \<times> time \<times> time option)) option" where
  "verified_entry lib q =
     (case rbind (ol_request lib (q_cert q) (q_issuer q) (q_nonce q)) (\<lambda>request.
           rbind (responder_for lib (q_cert q)) (\<lambda>url. rbind (q_post q url request) (ol_load lib))) of
        Inl e \<Rightarrow> None
      | Inr response \<Rightarrow>
          if or_response_status response = us ''SUCCESSFUL'' \<and>
             verify_answer lib response (q_cert q) (q_issuer q) (Some (q_nonce q)) = Inr () \<and>
             \<not> (case or_next_update response of None \<Rightarrow> False | Some n \<Rightarrow> q_now q \<ge> n)
          then (case held_key lib (q_cert q) (q_issuer q) of
                  Inl e \<Rightarrow> None
                | Inr k \<Rightarrow> Some (k, or_certificate_status response, q_now q, or_next_update response))
          else None)"

fun history :: "'c ocsp_lib \<Rightarrow> 'c query list \<Rightarrow> (cert_id \<rightharpoonup> pystr \<times> time \<times> time option)" where
  "history lib [] = (\<lambda>_. None)"
| "history lib (q # qs) = (case verified_entry lib q of None \<Rightarrow> history lib qs | Some (k, v) \<Rightarrow>
     (\<lambda>_. None)(k \<mapsto> v) ++ history lib qs)"

lemma answered_held:
  "map_of (oc_held (snd (answered lib nonce cert issuer now response c))) =
     (if or_response_status response = us ''SUCCESSFUL'' \<and>
         verify_answer lib response cert issuer (Some nonce) = Inr () \<and>
         \<not> (case or_next_update response of None \<Rightarrow> False | Some n \<Rightarrow> now \<ge> n)
      then (case held_key lib cert issuer of
              Inl e \<Rightarrow> map_of (oc_held c)
            | Inr k \<Rightarrow> (map_of (oc_held c))(k \<mapsto> (or_certificate_status response, now, or_next_update response)))
      else map_of (oc_held c))"
proof (cases "verify_answer lib response cert issuer (Some nonce)")
  case (Inr u)
  then show ?thesis
    by (cases "held_key lib cert issuer") (auto simp: answered_def update_conv' split: option.splits)
qed (simp add: answered_def)

lemma ask_held:
  "map_of (oc_held (snd (ask lib q c))) =
     (case verified_entry lib q of None \<Rightarrow> map_of (oc_held c) | Some (k, v) \<Rightarrow> (map_of (oc_held c))(k \<mapsto> v))"
proof (cases "ol_request lib (q_cert q) (q_issuer q) (q_nonce q)")
  case (Inl e)
  then show ?thesis by (simp add: ask_def client_status_def verified_entry_def)
next
  case rq: (Inr request)
  show ?thesis
  proof (cases "rbind (responder_for lib (q_cert q)) (\<lambda>url. rbind (q_post q url request) (ol_load lib))")
    case (Inl e)
    then show ?thesis by (simp add: ask_def client_status_def verified_entry_def rq)
  next
    case (Inr response)
    then show ?thesis
      by (simp add: ask_def client_status_def verified_entry_def rq answered_held split: sum.splits)
  qed
qed

lemma ask_max_age: "oc_max_age_seconds (snd (ask lib q c)) = oc_max_age_seconds c"
proof (cases "client_status lib (q_nonce q) (q_post q) (q_cert q) (q_issuer q) (q_now q) (q_reuse q) c")
  case (Pair r c')
  then show ?thesis
  proof (cases r)
    case (Inr a)
    with Pair show ?thesis
      by (auto simp: ask_def elim!: client_status_cases [of lib "q_nonce q" "q_post q" "q_cert q" "q_issuer q" "q_now q" "q_reuse q" c a c'])
  next
    case (Inl e)
    with Pair show ?thesis
      by (auto simp: ask_def client_status_def answered_def split: sum.splits if_splits)
  qed
qed

lemma asked_held: "map_of (oc_held (asked lib qs c)) = map_of (oc_held c) ++ history lib qs"
proof (induction qs arbitrary: c)
  case (Cons q qs)
  show ?case
    by (simp add: Cons ask_held split: option.splits prod.splits)
qed simp

lemma asked_max_age: "oc_max_age_seconds (asked lib qs c) = oc_max_age_seconds c"
  by (induction qs arbitrary: c) (simp_all add: ask_max_age)

text \<open>
  The table of held answers refines the log of verified answers: after
  any sequence of queries it holds, for every certificate, exactly the latest answer that was
  verified for it, whatever else the network answered. A verified revocation therefore
  replaces a held GOOD at once, and nothing unverified ever enters.
\<close>

theorem held_answers_refine_history:
  assumes "new_ocsp_client max_age = Inr c"
  shows "map_of (oc_held (asked lib qs c)) = history lib qs"
  using assms by (auto simp: asked_held new_ocsp_client_def split: if_splits)

lemma trunc_seconds_le: "trunc_seconds d \<le> n \<Longrightarrow> 0 \<le> n \<Longrightarrow> d < secs (n + 1)"
  by (simp add: trunc_seconds_def secs_def split: if_splits)

text \<open>
  An answer reused during an outage, after any sequence of queries, is the
  latest verified answer about that certificate; it is less than one second past the short
  window, not past its nextUpdate, and the bound it carries is measured from when it was
  obtained: it is at most the end of the short window and at most the nextUpdate.
\<close>

theorem reuse_never_extends:
  assumes "new_ocsp_client max_age = Inr c"
    and "client_reuse lib (asked lib qs c) cert issuer now = Inr a"
  shows "\<exists>k fetched next bound. held_key lib cert issuer = Inr k \<and>
    history lib qs k = Some (an_status a, fetched, next) \<and> now < fetched + secs (max_age + 1) \<and>
    (\<forall>n. next = Some n \<longrightarrow> now < n \<and> bound \<le> n) \<and>
    an_not_after a = Some bound \<and> bound \<le> fetched + secs max_age"
proof -
  have c: "oc_max_age_seconds (asked lib qs c) = max_age" "0 < max_age"
    "map_of (oc_held (asked lib qs c)) = history lib qs"
    using assms(1) by (auto simp: asked_max_age asked_held new_ocsp_client_def split: if_splits)
  obtain k where kk: "held_key lib cert issuer = Inr k"
    using assms(2) by (auto simp: client_reuse_def rbind_Inr_iff)
  obtain st fetched nx where h: "history lib qs k = Some (st, fetched, nx)"
    using assms(2) kk by (cases "history lib qs k") (auto simp: client_reuse_def c)
  have k: "an_status a = st" "\<not> trunc_seconds (now - fetched) > max_age" "\<forall>n. nx = Some n \<longrightarrow> now < n"
    "an_not_after a = client_bound (asked lib qs c) fetched nx"
    using assms(2) by (auto simp: client_reuse_def c kk h Let_def split: if_split_asm)
  from k(2) c(2) have "now < fetched + secs (max_age + 1)"
    using trunc_seconds_le [of "now - fetched" max_age] by simp
  with k kk h c(1) show ?thesis
    by (auto simp: client_bound_def Let_def split: option.splits)
qed

subsection \<open>A concrete responder\<close>

text \<open>Certificates are numbers; the responder answers every request with the same signed GOOD.\<close>

definition demo_response :: "nat ocsp_response" where
  "demo_response = \<lparr>or_response_status = us ''SUCCESSFUL'', or_cert_id = (1, [], []), or_hash_algorithm = SHA384,
     or_nonce = Inr (Some [9]), or_certificates = [], or_signature_hash_algorithm = Some [],
     or_signature = [], or_tbs = [], or_next_update = Some 500, or_certificate_status = us ''GOOD''\<rparr>"

definition demo_ocsp :: "nat ocsp_lib" where
  "demo_ocsp = \<lparr>ol_cert_id = (\<lambda>_ _ _. Inr (1, [], [])), ol_request = (\<lambda>_ _ _. Inr []), ol_aia_ocsp = (\<lambda>_. Inr None),
     ol_load = (\<lambda>_. Inr demo_response), ol_eku = (\<lambda>_. Inr None), ol_key = (\<lambda>_. Inr (EC True)),
     ol_sig_hash = (\<lambda>_. Inr None), ol_signature = (\<lambda>_. []), ol_tbs = (\<lambda>_. []),
     ol_ec_verify = (\<lambda>_ _ _ _. None), ol_load_pems = (\<lambda>_. Inr [0, 1, 2]), ol_json_loads = (\<lambda>_. Inr JNull)\<rparr>"

lemma demo_verify_answer: "verify_answer demo_ocsp demo_response cert issuer (Some [9]) = Inr ()"
  by (simp add: verify_answer_def names_cert_def verify_signature_def ec_check_def demo_ocsp_def demo_response_def)

lemma demo_status:
  "now < 500 \<Longrightarrow> client_status demo_ocsp [9] (\<lambda>_ _. Inr []) cert issuer now reuse c =
     (Inr \<lparr>an_status = us ''GOOD'', an_source = us ''fresh'', an_not_after = Some 500\<rparr>,
      c\<lparr>oc_held := AList.update (1, [], []) (us ''GOOD'', now, Some 500) (oc_held c)\<rparr>)"
proof -
  assume "now < 500"
  moreover have "responder_for demo_ocsp cert = Inr RESPONDER" "ol_request demo_ocsp cert issuer [9] = Inr []"
    "ol_load demo_ocsp [] = Inr demo_response" "held_key demo_ocsp cert issuer = Inr (1, [], [])"
    by (simp_all add: responder_for_def demo_ocsp_def held_key_def)
  moreover have "or_response_status demo_response = us ''SUCCESSFUL''" "or_next_update demo_response = Some 500"
    "or_certificate_status demo_response = us ''GOOD''" by (simp_all add: demo_response_def)
  ultimately show ?thesis by (simp add: client_status_def answered_def demo_verify_answer)
qed

theorem passing_revocation_check_witness:
  "\<exists>response. fresh_answer demo_ocsp [9] (\<lambda>_ _. Inr []) (1 :: nat) 2 100 response \<and>
     or_certificate_status response = us ''GOOD''"
proof -
  let ?c = "\<lparr>oc_max_age_seconds = 600, oc_held = []\<rparr>"
  let ?net = "\<lambda>_ :: nat. ([9] :: bytes, \<lambda>_ _. Inr [])"
  have "check_links demo_ocsp ?net 100 False 1 [(1, 2)] None d ?c =
     (Inr \<lparr>rr_passed = True, rr_detail = us ''NVIDIA OCSP, nonce-bound: '' @ d @ us ''; '' @ link_label 1 @ us '' GOOD, '' @ us ''fresh'',
           rr_not_after = Some 500\<rparr>, ?c\<lparr>oc_held := [((1, [], []), us ''GOOD'', 100, Some 500)]\<rparr>)" for d
    by (simp add: check_links.simps(2) demo_status earlier_def)
  then obtain r c' where "check_chain demo_ocsp ?net [0, 1, 2] 100 False ?c = (Inr r, c')" "rr_passed r"
    by (simp add: check_chain_def)
  from passing_revocation_check [OF this] have
    "\<forall>i. 1 \<le> i \<and> i + 1 < length [0, 1, 2 :: nat] \<longrightarrow>
      (\<exists>response. fresh_answer demo_ocsp [9] (\<lambda>_ _. Inr []) ([0, 1, 2] ! i) ([0, 1, 2] ! (i + 1)) 100 response \<and>
         or_certificate_status response = us ''GOOD'')" by fastforce
  from this [rule_format, of 1] show ?thesis by simp
qed

definition demo_query :: "nat query" where
  "demo_query = \<lparr>q_nonce = [9], q_post = (\<lambda>_ _. Inr []), q_cert = 1, q_issuer = 2, q_now = 100, q_reuse = False\<rparr>"

theorem held_answers_refine_history_witness:
  "map_of (oc_held (asked demo_ocsp [demo_query] \<lparr>oc_max_age_seconds = 600, oc_held = []\<rparr>)) =
   history demo_ocsp [demo_query]"
  by (rule held_answers_refine_history [where max_age = 600]) (simp add: new_ocsp_client_def)

theorem reuse_never_extends_witness:
  "\<exists>k fetched next bound. history demo_ocsp [demo_query] k = Some (us ''GOOD'', fetched, next) \<and>
     bound \<le> fetched + secs 600 \<and> (\<forall>n. next = Some n \<longrightarrow> bound \<le> n)"
proof -
  let ?c = "\<lparr>oc_max_age_seconds = 600, oc_held = []\<rparr>"
  have n: "new_ocsp_client 600 = Inr ?c" by (simp add: new_ocsp_client_def)
  have "asked demo_ocsp [demo_query] ?c = ?c\<lparr>oc_held := [((1, [], []), us ''GOOD'', 100, Some 500)]\<rparr>"
    by (simp add: ask_def demo_query_def demo_status)
  then have "client_reuse demo_ocsp (asked demo_ocsp [demo_query] ?c) 1 2 200 =
     Inr \<lparr>an_status = us ''GOOD'', an_source = us ''reused '' @ int_str 0 @ us ''s after it was obtained'',
          an_not_after = Some 500\<rparr>"
    by (simp add: client_reuse_def held_key_def demo_ocsp_def trunc_seconds_def client_bound_def secs_def)
  from reuse_never_extends [OF n this] show ?thesis by fastforce
qed

end
