(* ===== verification/Kbs.thy ===== *)
theory Kbs
  imports Challenge Custody Snp MemorySweep GpuRevocation
begin

section \<open>The key broker service (\<open>kbs.py\<close>)\<close>

text \<open>
  The release gate: a challenge store, the operator's configuration, one definition per gate
  check, \<open>verify_and_release\<close> and \<open>verify_for_renewal\<close>. The configured quote verifiers
  are functions (the quote verifier of theory \<open>Quote\<close> is one); each reading of the clock, the
  ephemeral key and nonce of the sealing, and what the network answered are fields of the
  record \<open>kbs_io\<close>. The main results: a release implies every gate, on pinned identities and
  authenticated reports; a nonce releases at most once; under channel binding the key leaves
  only sealed; a refusal carries no key; and a renewal is bounded by the evidence behind it.
\<close>

subsection \<open>State and inputs\<close>

type_synonym cpu_verifier = "pystr \<Rightarrow> pystr \<Rightarrow> bytes \<Rightarrow> pystr option \<Rightarrow> time \<Rightarrow> quote_verification result"
type_synonym gpu_verifier = "pystr \<Rightarrow> pystr \<Rightarrow> time \<Rightarrow> quote_verification result"

record kbs =
  kb_keystore :: "(pystr \<times> bytes) list"
  kb_challenges :: challenge_store
  kb_revoked :: "pystr list"
  kb_max_cache :: int
  kb_gpu_revocation :: "ocsp_client option"
  kb_cpu_quote_verifier :: "cpu_verifier option"
  kb_gpu_report_verifier :: "gpu_verifier option"
  kb_require_channel_binding :: bool
  kb_require_cpu_quote_verification :: bool
  kb_require_gpu_report_verification :: bool
  kb_renewal_signing_key :: bytes
  kb_renewal_ttl :: int
  kb_memory_fingerprint_public_key :: "pystr option"
  kb_allow_legacy_memory_fingerprint :: bool
  kb_trusted_manifest_identities :: "pystr list"
  kb_allowed_platform_instances :: "pystr list option"

record kbs_io =
  io_consume :: time \<comment> \<open>the clock as the nonce is consumed\<close>
  io_image :: time
  io_gpu :: time
  io_cpu :: time
  io_revocation :: time
  io_issued :: time
  io_net :: "nat \<Rightarrow> bytes \<times> (pystr \<Rightarrow> bytes \<Rightarrow> bytes result)"
  io_ephemeral :: bytes
  io_seal_nonce :: bytes

text \<open>\<open>type(exc).__name__\<close>, as far as the check details show it.\<close>

fun exn_name :: "exn \<Rightarrow> pystr" where
  "exn_name (ValueError m) = us ''ValueError''"
| "exn_name (TypeError m) = us ''TypeError''"
| "exn_name (KeyError m) = us ''KeyError''"
| "exn_name IndexError = us ''IndexError''"
| "exn_name (RuntimeError m) = us ''RuntimeError''"
| "exn_name (AttributeError m) = us ''AttributeError''"
| "exn_name _ = us ''Exception''"

definition check :: "string \<Rightarrow> bool \<Rightarrow> pystr option \<Rightarrow> check_result" where
  "check name passed detail = \<lparr>cr_name = us name, cr_passed = passed, cr_detail = detail\<rparr>"

subsection \<open>Configuration\<close>

definition parse_retire_after :: "('x) env_scheme \<Rightarrow> pystr \<Rightarrow> time option" where
  "parse_retire_after env text =
     (case from_iso env text of None \<Rightarrow> None | Some (Naive t) \<Rightarrow> Some t | Some (Aware t) \<Rightarrow> Some t)"

text \<open>
  One entry of the operator's list. No character outside ASCII becomes a hexadecimal digit
  under \<open>lower\<close>, so the ASCII part of \<open>str.lower\<close> decides.
\<close>

definition normalize_instance :: "json \<Rightarrow> pystr result" where
  "normalize_instance value =
     (case value of
        JStr v \<Rightarrow>
          let chip = lower_ascii (strip v) in
          if length chip \<noteq> 128 \<or> list_ex (\<lambda>c. \<not> lower_hex c) chip
          then Inl (ValueError (us ''allowed_platform_instances entries must be a 64-byte SEV-SNP CHIP_ID as 128 hex characters''))
          else if list_all (\<lambda>c. c = 48) chip
          then Inl (ValueError (us ''allowed_platform_instances cannot list a zero (masked) CHIP_ID''))
          else Inr chip
      | _ \<Rightarrow> Inl (ValueError (us ''allowed_platform_instances entries must be hex strings'')))"

definition normalize_platform_instances :: "json list option \<Rightarrow> pystr list option result" where
  "normalize_platform_instances values =
     (case values of
        None \<Rightarrow> Inr None
      | Some vs \<Rightarrow>
          rbind (rmap normalize_instance vs) (\<lambda>out.
          if out = [] then Inl (ValueError (us ''allowed_platform_instances is empty; pass None to disable the check''))
          else Inr (Some (remdups out))))"

text \<open>\<open>__init__\<close>: the arguments are the fields of \<open>config\<close>, but for the challenge lifetime and
  the unchecked list of instances.\<close>

definition new_kbs :: "kbs \<Rightarrow> int \<Rightarrow> json list option \<Rightarrow> kbs result" where
  "new_kbs config challenge_ttl_seconds allowed_platform_instances =
     (if kb_renewal_ttl config \<le> 0
      then Inl (ValueError (us ''renewal_decision_ttl_seconds must be positive''))
      else rbind (normalize_platform_instances allowed_platform_instances) (\<lambda>instances.
        Inr (config\<lparr>kb_challenges := new_store challenge_ttl_seconds,
                    kb_allowed_platform_instances := instances\<rparr>)))"

definition issue_challenge :: "time \<Rightarrow> pystr \<Rightarrow> kbs \<Rightarrow> challenge \<times> kbs" where
  "issue_challenge now token k =
     (case cs_issue now token (kb_challenges k) of (c, s) \<Rightarrow> (c, k\<lparr>kb_challenges := s\<rparr>))"

subsection \<open>Gate checks\<close>

definition check_serving_image ::
  "('x) env_scheme \<Rightarrow> time \<Rightarrow> manifest \<Rightarrow> composite_evidence \<Rightarrow> check_result" where
  "check_serving_image env now manifest evidence =
     (let accepted = si_accepted_measurements (rp_required_serving_image (m_release_policy manifest));
          presented = cq_serving_image_measurement (ev_cpu evidence);
          fail = (\<lambda>d. check ''serving_image'' False (Some (us d)))
      in case find (\<lambda>m. am_measurement m = presented) accepted of
           None \<Rightarrow> fail ''measurement not in accepted_measurements''
         | Some m \<Rightarrow>
             if am_status m = image_revoked then fail ''serving image is revoked''
             else
               let has_current = list_ex (\<lambda>a. am_status a = image_current) accepted;
                   prefer_current = (if has_current then fail ''prefer-current: a current image is available''
                                     else check ''serving_image'' True None)
               in if am_status m = image_retiring
                  then case am_retire_after m of
                      None \<Rightarrow> prefer_current
                    | Some text \<Rightarrow>
                        (case parse_retire_after env text of
                           None \<Rightarrow> fail ''retire_after is not a parseable timestamp, so the retirement deadline cannot be evaluated''
                         | Some retire_after \<Rightarrow>
                             if now > retire_after then fail ''retiring image is past retire_after''
                             else prefer_current)
                  else check ''serving_image'' True None)"

definition check_gpu ::
  "manifest \<Rightarrow> composite_evidence \<Rightarrow> bool \<Rightarrow> pystr option \<Rightarrow> check_result" where
  "check_gpu manifest evidence gpu_verified verified_measurement =
     (let fail = (\<lambda>d. check ''gpu'' False (Some (us d)));
          pass = (\<lambda>d. check ''gpu'' True (Some (us d)))
      in case rp_required_gpu_measurement (m_release_policy manifest) of
           None \<Rightarrow> pass ''no GPU measurement required''
         | Some req \<Rightarrow>
             (case ev_gpu evidence of
                None \<Rightarrow> fail ''GPU report absent but required''
              | Some gpu \<Rightarrow>
                  if gr_nonce_echo gpu \<noteq> cq_nonce_echo (ev_cpu evidence)
                  then fail ''GPU report not bound to CPU quote (nonce echo mismatch)''
                  else if gpu_verified \<and> verified_measurement = None
                  then fail ''the verified GPU report states no measurement the KBS can read, so rim_pin cannot be matched''
                  else if gpu_verified \<and> verified_measurement \<noteq> Some (gm_rim_pin req)
                  then fail ''verified GPU report measurement does not match rim_pin''
                  else if \<not> gpu_verified \<and> gr_measurement gpu \<noteq> gm_rim_pin req
                  then fail ''GPU measurement does not match rim_pin''
                  else if gm_require_cc_mode req = Some False
                  then pass ''confidential-compute mode waived by require_cc_mode: false''
                  else if gr_cc_mode gpu = Some False
                  then fail ''GPU confidential-compute mode is off but required''
                  else if \<not> gpu_verified
                  then fail ''GPU confidential-compute mode is not established: the GPU report was not cryptographically verified''
                  else pass ''confidential-compute mode inferred from a verified GPU report (SPEC 3.2 assumption)''))"

definition check_memory_fingerprint ::
  "('x) env_scheme \<Rightarrow> kbs \<Rightarrow> manifest \<Rightarrow> composite_evidence \<Rightarrow> pystr \<Rightarrow> check_result result" where
  "check_memory_fingerprint env k manifest evidence nonce =
     (let res = (\<lambda>b d. Inr (check ''memory_fingerprint'' b (Some (us d))))
      in if rp_memory_fingerprint_challenge (m_release_policy manifest) \<noteq> required_for_hostile_owner_posture
         then res True ''not required''
         else case ev_memory_fingerprint evidence of
           None \<Rightarrow> res False ''required but not present in evidence''
         | Some mf \<Rightarrow>
             if mf_challenge_nonce mf \<noteq> nonce then res False ''fingerprint not bound to this challenge''
             else if mf_aliasing_detected mf
             then res False ''DRAM aliasing detected (BadRAM-class measurement forgery)''
             else case kb_memory_fingerprint_public_key k of
               None \<Rightarrow>
                 if kb_allow_legacy_memory_fingerprint k
                 then res True ''declarative conformance mode: signed sweep not evaluated''
                 else res False ''required memory sweep verifier key is not configured''
             | Some key \<Rightarrow>
                 rbind (verify_memory_sweep env mf key) (\<lambda>(verified, detail).
                   Inr (check ''memory_fingerprint'' verified (Some detail))))"

text \<open>A transport key that is \<open>None\<close> or empty is absent.\<close>

definition check_channel_binding :: "kbs \<Rightarrow> composite_evidence \<Rightarrow> check_result \<times> bytes" where
  "check_channel_binding k evidence =
     (case cq_transport_public_key (ev_cpu evidence) of
        None \<Rightarrow> if kb_require_channel_binding k
                then (check ''channel_binding'' False (Some (us ''channel binding required but evidence has no transport_public_key'')), [])
                else (check ''channel_binding'' True (Some (us ''not required'')), [])
      | Some tpk \<Rightarrow>
          if tpk = []
          then if kb_require_channel_binding k
               then (check ''channel_binding'' False (Some (us ''channel binding required but evidence has no transport_public_key'')), [])
               else (check ''channel_binding'' True (Some (us ''not required'')), [])
          else case bytes_fromhex tpk of
            None \<Rightarrow> (check ''channel_binding'' False (Some (us ''transport_public_key is not valid hex'')), [])
          | Some raw \<Rightarrow>
              if length raw \<noteq> 32
              then (check ''channel_binding'' False (Some (us ''transport_public_key is not a 32-byte X25519 key'')), [])
              else (check ''channel_binding'' True None, raw))"

text \<open>The second result of the two verifier checks is what the authenticated report states.\<close>

definition check_cpu_quote ::
  "time \<Rightarrow> kbs \<Rightarrow> manifest \<Rightarrow> composite_evidence \<Rightarrow> pystr \<Rightarrow> bytes \<Rightarrow> (check_result \<times> bytes option) result" where
  "check_cpu_quote now k manifest evidence nonce channel_binding =
     (let res = (\<lambda>b d. Inr (check ''cpu_quote_verified'' b (Some (us d)), None))
      in case kb_cpu_quote_verifier k of
           None \<Rightarrow>
             if kb_require_cpu_quote_verification k
             then res False ''cryptographic CPU quote verifier required but not configured''
             else if rp_require_evidence_verification (m_release_policy manifest) \<noteq> Some False
             then res False ''cryptographic CPU quote verification required by the manifest but no verifier is configured''
             else res True ''waived by require_evidence_verification: false: structural trust only (no cryptographic quote verification)''
         | Some verify \<Rightarrow>
             (case cq_quote_b64 (ev_cpu evidence) of
                None \<Rightarrow> res False ''verifier configured but evidence has no raw quote''
              | Some quote_b64 \<Rightarrow>
                  (case verify quote_b64 nonce channel_binding
                          (Some (cq_serving_image_measurement (ev_cpu evidence))) now of
                     Inr v \<Rightarrow> Inr (check ''cpu_quote_verified'' (qv_verified v) (qv_reason v),
                                   if qv_verified v then qv_snp_report v else None)
                   | Inl e \<Rightarrow>
                       if is_Exception e
                       then Inr (check ''cpu_quote_verified'' False
                                  (Some (us ''CPU quote verification raised '' @ exn_name e)), None)
                       else Inl e)))"

definition check_gpu_report ::
  "time \<Rightarrow> kbs \<Rightarrow> manifest \<Rightarrow> composite_evidence \<Rightarrow> pystr \<Rightarrow> (check_result \<times> pystr option) result" where
  "check_gpu_report now k manifest evidence nonce =
     (let res = (\<lambda>b d. Inr (check ''gpu_report_verified'' b (Some (us d)), None))
      in case ev_gpu evidence of
           None \<Rightarrow> res True ''no GPU report present''
         | Some gpu \<Rightarrow>
             (case kb_gpu_report_verifier k of
                None \<Rightarrow>
                  if kb_require_gpu_report_verification k
                  then res False ''cryptographic GPU report verifier required but not configured''
                  else if rp_require_evidence_verification (m_release_policy manifest) \<noteq> Some False
                  then res False ''cryptographic GPU report verification required by the manifest but no verifier is configured''
                  else res True ''waived by require_evidence_verification: false: structural trust only (no cryptographic GPU verification)''
              | Some verify \<Rightarrow>
                  (case gr_quote_b64 gpu of
                     None \<Rightarrow> res False ''verifier configured but GPU report has no raw quote''
                   | Some quote_b64 \<Rightarrow>
                       (case verify quote_b64 nonce now of
                          Inr v \<Rightarrow> Inr (check ''gpu_report_verified'' (qv_verified v) (qv_reason v),
                                        if qv_verified v then qv_gpu_measurement v else None)
                        | Inl e \<Rightarrow>
                            if is_Exception e
                            then Inr (check ''gpu_report_verified'' False
                                       (Some (us ''GPU report verification raised '' @ exn_name e)), None)
                            else Inl e))))"

definition need_alias :: "platform_integrity \<Rightarrow> bool" where
  "need_alias want \<longleftrightarrow> pl_alias_check_complete want = pi_required"

definition need_ciphertext_hiding :: "platform_integrity \<Rightarrow> bool" where
  "need_ciphertext_hiding want \<longleftrightarrow> pl_ciphertext_hiding want = pi_required"

definition integrity_failures :: "platform_integrity \<Rightarrow> platform_info \<Rightarrow> pystr list" where
  "integrity_failures want info =
     (if need_alias want
      then case pf_alias_check_complete info of
          None \<Rightarrow> [us ''alias_check_complete required but the SNP report version predates the field (needs version >= 3)'']
        | Some b \<Rightarrow> if b then [] else [us ''alias_check_complete required but PLATFORM_INFO bit 5 is clear (DRAM alias scan did not complete cleanly, or firmware predates the BadRAM mitigation)'']
      else []) @
     (if need_ciphertext_hiding want \<and> \<not> pf_ciphertext_hiding_en info
      then [us ''ciphertext_hiding required but PLATFORM_INFO bit 4 is clear (a hypervisor-privileged operator can read guest ciphertext)'']
      else [])"

definition join :: "pystr \<Rightarrow> pystr list \<Rightarrow> pystr" where
  "join sep xs = (case xs of [] \<Rightarrow> [] | y # ys \<Rightarrow> y @ concat (map (\<lambda>z. sep @ z) ys))"

definition check_platform_integrity ::
  "manifest \<Rightarrow> composite_evidence \<Rightarrow> bytes option \<Rightarrow> check_result" where
  "check_platform_integrity manifest evidence verified_snp_report =
     (let res = (\<lambda>b d. check ''platform_integrity'' b (Some d))
      in case rp_platform_integrity (m_release_policy manifest) of
           None \<Rightarrow> res True (us ''not required'')
         | Some want \<Rightarrow>
             if \<not> (need_alias want \<or> need_ciphertext_hiding want) then res True (us ''not required'')
             else if cq_platform (ev_cpu evidence) \<noteq> us ''amd-sev-snp''
             then res False (us ''platform_integrity is SEV-SNP-only; evidence platform is '' @ cq_platform (ev_cpu evidence))
             else case verified_snp_report of
               None \<Rightarrow> res False (us ''required but no cryptographically verified SNP report: PLATFORM_INFO is read only from a report whose signature the CPU quote verifier checked'')
             | Some raw \<Rightarrow>
                 (case parse_snp_report raw of
                    Inl e \<Rightarrow> res False (us ''unparseable SNP report: '' @ exn_text e)
                  | Inr report \<Rightarrow>
                      let failures = integrity_failures want (sr_platform_info report)
                      in if failures \<noteq> [] then res False (join (us ''; '') failures)
                         else check ''platform_integrity'' True None))"

definition check_platform_instance ::
  "kbs \<Rightarrow> composite_evidence \<Rightarrow> bytes option \<Rightarrow> check_result" where
  "check_platform_instance k evidence verified_snp_report =
     (let fail = (\<lambda>d. check ''platform_instance_allowed'' False (Some d))
      in case kb_allowed_platform_instances k of
           None \<Rightarrow> check ''platform_instance_allowed'' True (Some (us ''not required''))
         | Some allowed \<Rightarrow>
             if cq_platform (ev_cpu evidence) \<noteq> us ''amd-sev-snp''
             then fail (us ''allowed_platform_instances is SEV-SNP-only (CHIP_ID); evidence platform is '' @ cq_platform (ev_cpu evidence))
             else case verified_snp_report of
               None \<Rightarrow> fail (us ''required but no cryptographically verified SNP report: CHIP_ID is read only from a report whose signature the CPU quote verifier checked'')
             | Some raw \<Rightarrow>
                 (case parse_snp_report raw of
                    Inl e \<Rightarrow> fail (us ''unparseable SNP report: '' @ exn_text e)
                  | Inr report \<Rightarrow>
                      if list_all (\<lambda>b. b = 0) (sr_chip_id report)
                      then fail (us ''CHIP_ID is zero (masked by guest policy), so the instance cannot be checked'')
                      else if hex_of_bytes (sr_chip_id report) \<notin> set allowed
                      then fail (us ''CHIP_ID '' @ take 16 (hex_of_bytes (sr_chip_id report)) @ us ''... is not in allowed_platform_instances'')
                      else check ''platform_instance_allowed'' True None))"

text \<open>The revocation check also returns when its evidence expires, and the client it has asked.\<close>

definition check_attestation_revocation ::
  "'c ocsp_lib \<Rightarrow> kbs_io \<Rightarrow> kbs \<Rightarrow> manifest \<Rightarrow> composite_evidence \<Rightarrow> bool
     \<Rightarrow> (check_result \<times> time option) result \<times> kbs" where
  "check_attestation_revocation lib io k manifest evidence renewal =
     (let res = (\<lambda>b d. (Inr (check ''attestation_revocation'' b (Some d), None), k))
      in if rp_attestation_revocation_check (m_release_policy manifest) = None
         then res True (us ''not required'')
         else if cq_attestation_key_id (ev_cpu evidence) \<in> set (kb_revoked k)
         then res False (us ''attestation key '' @ cq_attestation_key_id (ev_cpu evidence) @ us '' is revoked'')
         else if cq_attestation_key_cache_age_seconds (ev_cpu evidence) > kb_max_cache k
         then res False (us ''revocation status cache is staler than the allowed window'')
         else case kb_gpu_revocation k of
           None \<Rightarrow> res True (us ''configured revoked-key set only; no vendor revocation service was asked'')
         | Some client \<Rightarrow>
             (case Option.bind (ev_gpu evidence) gr_quote_b64 of
                None \<Rightarrow> res False (us ''a live GPU revocation check is required and the evidence carries no GPU certificate chain to ask about'')
              | Some gq \<Rightarrow>
                  if gq = []
                  then res False (us ''a live GPU revocation check is required and the evidence carries no GPU certificate chain to ask about'')
                  else case chain_from_evidence lib gq of
                    Inl e \<Rightarrow>
                      if is_Exception e
                      then res False (us ''the GPU certificate chain could not be read: '' @ take 120 (exn_text e))
                      else (Inl e, k)
                  | Inr chain \<Rightarrow>
                      (case check_chain lib (io_net io) chain (io_revocation io) renewal client of
                         (Inl e, client') \<Rightarrow>
                           if is_Exception e
                           then (Inr (check ''attestation_revocation'' False
                                   (Some (us ''GPU revocation check raised '' @ exn_name e)), None),
                                 k\<lparr>kb_gpu_revocation := Some client'\<rparr>)
                           else (Inl e, k\<lparr>kb_gpu_revocation := Some client'\<rparr>)
                       | (Inr r, client') \<Rightarrow>
                           (Inr (check ''attestation_revocation'' (rr_passed r) (Some (rr_detail r)),
                                 if rr_passed r then rr_not_after r else None),
                            k\<lparr>kb_gpu_revocation := Some client'\<rparr>))))"

subsection \<open>The release gate\<close>

definition denied :: "('x) env_scheme \<Rightarrow> kbs \<Rightarrow> check_result \<Rightarrow> pystr option \<Rightarrow> release_decision" where
  "denied env k c manifest_hash =
     \<lparr>dec_released = False, dec_key = None, dec_checks = [c], dec_evidence_not_after = None,
      dec_sealed_key = None, dec_manifest_hash = manifest_hash,
      dec_renewal_public_key_b64url = Some (renewal_public_key env (kb_renewal_signing_key k))\<rparr>"

text \<open>Everything the gate reads before it asks about revocation, in the order of the calls.\<close>

definition check_authorized :: "kbs \<Rightarrow> pystr \<Rightarrow> check_result" where
  "check_authorized k manifest_hash =
     (let pinned = manifest_hash \<in> set (kb_trusted_manifest_identities k)
      in check ''manifest_authorized'' pinned
           (Some (if pinned then us ''exact manifest identity is pinned''
                  else us ''manifest identity is not pinned by this KBS'')))"

definition check_cpu_platform :: "manifest \<Rightarrow> composite_evidence \<Rightarrow> check_result" where
  "check_cpu_platform manifest evidence =
     (let ok = cq_platform (ev_cpu evidence) \<in> set (rp_required_hw_platform (m_release_policy manifest))
      in check ''cpu_platform_allowed'' ok
           (if ok then None
            else Some (us ''cpu platform '' @ cq_platform (ev_cpu evidence) @ us '' not in required_hw_platform'')))"

definition check_assurance_tier :: "manifest \<Rightarrow> composite_evidence \<Rightarrow> check_result" where
  "check_assurance_tier manifest evidence =
     (let want_tier = assurance_tier_value (rp_required_assurance_tier (m_release_policy manifest));
          ok = cq_assurance_tier (ev_cpu evidence) = want_tier
      in check ''assurance_tier'' ok
           (if ok then None
            else Some (us ''assurance tier '' @ cq_assurance_tier (ev_cpu evidence) @ us '' != required '' @ want_tier)))"

definition check_key_available :: "kbs \<Rightarrow> manifest \<Rightarrow> check_result" where
  "check_key_available k manifest =
     (let have_key = map_of (kb_keystore k) (m_weights_hash manifest) \<noteq> None
      in check ''key_available'' have_key
           (if have_key then None else Some (us ''no key held for this weights_hash'')))"

text \<open>The decision's list of checks, from the results of the verifier calls.\<close>

definition gate_list ::
  "('x) env_scheme \<Rightarrow> kbs_io \<Rightarrow> kbs \<Rightarrow> manifest \<Rightarrow> composite_evidence \<Rightarrow> pystr \<Rightarrow> check_result \<times> pystr option
     \<Rightarrow> check_result \<Rightarrow> check_result \<times> bytes option \<Rightarrow> check_result \<Rightarrow> check_result list" where
  "gate_list env io k manifest evidence manifest_hash gpu_report mf_check cpu_quote revocation_check =
     (let (gpu_report_check, verified_gpu_measurement) = gpu_report;
          (cpu_quote_check, verified_snp_report) = cpu_quote;
          gpu_verified = (cr_passed gpu_report_check \<and> kb_gpu_report_verifier k \<noteq> None \<and> ev_gpu evidence \<noteq> None)
      in [check ''nonce_fresh'' True None,
          check_authorized k manifest_hash, fst (check_channel_binding k evidence),
          check_cpu_platform manifest evidence,
          check_assurance_tier manifest evidence,
          check_serving_image env (io_image io) manifest evidence,
          check_gpu manifest evidence gpu_verified verified_gpu_measurement,
          mf_check,
          check_platform_integrity manifest evidence verified_snp_report,
          check_platform_instance k evidence verified_snp_report,
          revocation_check, cpu_quote_check, gpu_report_check,
          check_key_available k manifest])"

text \<open>All gate checks after the nonce, in the order of the calls.\<close>

definition gate_checks ::
  "('x) env_scheme \<Rightarrow> 'c ocsp_lib \<Rightarrow> kbs_io \<Rightarrow> kbs \<Rightarrow> manifest \<Rightarrow> composite_evidence \<Rightarrow> pystr \<Rightarrow> bool
     \<Rightarrow> (check_result list \<times> time option) result \<times> kbs" where
  "gate_checks env lib io k manifest evidence manifest_hash renewal =
     (let nonce = cq_nonce_echo (ev_cpu evidence);
          channel_binding = snd (check_channel_binding k evidence)
      in case check_gpu_report (io_gpu io) k manifest evidence nonce of
           Inl e \<Rightarrow> (Inl e, k)
         | Inr gpu_report \<Rightarrow>
             (case check_memory_fingerprint env k manifest evidence nonce of
                Inl e \<Rightarrow> (Inl e, k)
              | Inr mf_check \<Rightarrow>
                  (case check_cpu_quote (io_cpu io) k manifest evidence nonce channel_binding of
                     Inl e \<Rightarrow> (Inl e, k)
                   | Inr cpu_quote \<Rightarrow>
                       (case check_attestation_revocation lib io k manifest evidence renewal of
                          (Inl e, k') \<Rightarrow> (Inl e, k')
                        | (Inr (revocation_check, not_after), k') \<Rightarrow>
                            (Inr (gate_list env io k manifest evidence manifest_hash gpu_report mf_check
                                    cpu_quote revocation_check, not_after), k')))))"

text \<open>The end of \<open>verify_and_release\<close>: the key, in the clear or sealed.\<close>

definition release_key ::
  "('x) env_scheme \<Rightarrow> kbs_io \<Rightarrow> kbs \<Rightarrow> manifest \<Rightarrow> composite_evidence \<Rightarrow> pystr \<Rightarrow> check_result list \<Rightarrow> time option
     \<Rightarrow> release_decision" where
  "release_key env io k manifest evidence manifest_hash checks not_after =
     (let released = list_all cr_passed checks;
          key = (if released then map_of (kb_keystore k) (m_weights_hash manifest) else None);
          decision = (\<lambda>rel ky cs sealed.
            \<lparr>dec_released = rel, dec_key = ky, dec_checks = cs, dec_evidence_not_after = not_after,
             dec_sealed_key = sealed, dec_manifest_hash = Some manifest_hash,
             dec_renewal_public_key_b64url = Some (renewal_public_key env (kb_renewal_signing_key k))\<rparr>)
      in if released \<and> kb_require_channel_binding k
         then case (key, cq_transport_public_key (ev_cpu evidence)) of
             (Some secret, Some tpk) \<Rightarrow>
               (case seal_to_public_key env (io_ephemeral io) (io_seal_nonce io) tpk secret [] of
                  Inr sealed \<Rightarrow> decision True None checks (Some sealed)
                | Inl e \<Rightarrow> decision False None (checks @ [check ''key_sealed'' False (Some (exn_text e))]) None)
           | _ \<Rightarrow> decision released key checks None
         else decision released key checks None)"

definition verify_and_release ::
  "('x) env_scheme \<Rightarrow> 'c ocsp_lib \<Rightarrow> kbs_io \<Rightarrow> manifest \<Rightarrow> composite_evidence \<Rightarrow> bool \<Rightarrow> kbs
     \<Rightarrow> release_decision result \<times> kbs" where
  "verify_and_release env lib io manifest evidence renewal k =
     (case rbind (manifest_identity env manifest) (\<lambda>mh. rbind (evidence_identity env evidence) (\<lambda>_. Inr mh)) of
        Inl e \<Rightarrow>
          if is_ValueError e \<or> is_TypeError e
          then (Inr (denied env k (check ''input_canonical'' False
                       (Some (us ''cannot canonicalize input: '' @ exn_text e))) None), k)
          else (Inl e, k)
      | Inr manifest_hash \<Rightarrow>
          (case cs_consume (cq_nonce_echo (ev_cpu evidence)) (io_consume io) (kb_challenges k) of
             (Inl e, s) \<Rightarrow>
               (Inr (denied env k (check ''nonce_fresh'' False (Some (exn_text e))) (Some manifest_hash)),
                k\<lparr>kb_challenges := s\<rparr>)
           | (Inr _, s) \<Rightarrow>
               (case gate_checks env lib io (k\<lparr>kb_challenges := s\<rparr>) manifest evidence manifest_hash renewal of
                  (Inl e, k') \<Rightarrow> (Inl e, k')
                | (Inr (checks, not_after), k') \<Rightarrow>
                    (Inr (release_key env io k' manifest evidence manifest_hash checks not_after), k'))))"

subsection \<open>Renewals\<close>

definition iso_Z :: "('x) env_scheme \<Rightarrow> time \<Rightarrow> pystr" where
  "iso_Z env t = replace_utc (iso_format env t)"

definition verify_for_renewal ::
  "('x) env_scheme \<Rightarrow> 'c ocsp_lib \<Rightarrow> kbs_io \<Rightarrow> manifest \<Rightarrow> composite_evidence \<Rightarrow> kbs
     \<Rightarrow> renewal_decision result \<times> kbs" where
  "verify_for_renewal env lib io manifest evidence k =
     (case verify_and_release env lib io manifest evidence True k of
        (Inl e, k') \<Rightarrow> (Inl e, k')
      | (Inr decision, k') \<Rightarrow>
          if list_ex (\<lambda>c. cr_name c = us ''input_canonical'') (dec_checks decision)
          then (Inl (ValueError (case cr_detail (hd (dec_checks decision)) of
                   Some d \<Rightarrow> if d = [] then us ''input does not canonicalize'' else d
                 | None \<Rightarrow> us ''input does not canonicalize'')), k')
          else
            (rbind (time_add (io_issued io) (kb_renewal_ttl k')) (\<lambda>expires.
             let expires = (case dec_evidence_not_after decision of None \<Rightarrow> expires | Some b \<Rightarrow> min expires b)
             in sign_renewal_decision env (kb_renewal_signing_key k') (dec_released decision) manifest evidence
                  (iso_Z env (io_issued io)) (iso_Z env expires)
                  (map check_asdict (dec_checks decision))
                  (map_option (iso_Z env) (dec_evidence_not_after decision))), k'))"

subsection \<open>The paths through the gate\<close>

lemma check_simps [simp]:
  "cr_name (check n p d) = us n" "cr_passed (check n p d) = p" "cr_detail (check n p d) = d"
  by (simp_all add: check_def)

lemma denied_simps [simp]:
  "\<not> dec_released (denied env k c h)" "dec_key (denied env k c h) = None" "dec_sealed_key (denied env k c h) = None"
  "dec_checks (denied env k c h) = [c]" "dec_manifest_hash (denied env k c h) = h"
  by (simp_all add: denied_def)

lemma verify_and_release_cases:
  assumes "verify_and_release env lib io m ev renewal k = (Inr d, k')"
  obtains (noncanonical) c where "cr_name c = us ''input_canonical''" "\<not> cr_passed c" "d = denied env k c None" "k' = k"
    "\<nexists>mh eh. manifest_identity env m = Inr mh \<and> evidence_identity env ev = Inr eh"
  | (stale) e s mh c where "manifest_identity env m = Inr mh"
      "cs_consume (cq_nonce_echo (ev_cpu ev)) (io_consume io) (kb_challenges k) = (Inl e, s)"
      "cr_name c = us ''nonce_fresh''" "\<not> cr_passed c" "d = denied env k c (Some mh)" "k' = k\<lparr>kb_challenges := s\<rparr>"
  | (gated) s mh eh cs na where "manifest_identity env m = Inr mh" "evidence_identity env ev = Inr eh"
      "cs_consume (cq_nonce_echo (ev_cpu ev)) (io_consume io) (kb_challenges k) = (Inr (), s)"
      "gate_checks env lib io (k\<lparr>kb_challenges := s\<rparr>) m ev mh renewal = (Inr (cs, na), k')"
      "d = release_key env io k' m ev mh cs na"
proof (cases "rbind (manifest_identity env m) (\<lambda>mh. rbind (evidence_identity env ev) (\<lambda>_. Inr mh))")
  case (Inl e)
  then have "\<nexists>mh eh. manifest_identity env m = Inr mh \<and> evidence_identity env ev = Inr eh"
    by (auto simp: rbind_Inl_iff)
  with Inl assms show ?thesis
    by (intro noncanonical) (auto simp: verify_and_release_def split: if_split_asm)
next
  case (Inr mh)
  then obtain eh where ids: "manifest_identity env m = Inr mh" "evidence_identity env ev = Inr eh"
    by (auto simp: rbind_Inr_iff)
  obtain r s where con: "cs_consume (cq_nonce_echo (ev_cpu ev)) (io_consume io) (kb_challenges k) = (r, s)"
    by fastforce
  show ?thesis
  proof (cases r)
    case Inl': (Inl e)
    with assms Inr con ids(1) show ?thesis by (intro stale) (auto simp: verify_and_release_def)
  next
    case Inr': (Inr u)
    obtain g k1 where g: "gate_checks env lib io (k\<lparr>kb_challenges := s\<rparr>) m ev mh renewal = (g, k1)" by fastforce
    with assms Inr con Inr' obtain cs na where "g = Inr (cs, na)" "k1 = k'" "d = release_key env io k' m ev mh cs na"
      by (auto simp: verify_and_release_def split: sum.splits)
    with g con Inr' ids gated show ?thesis by auto
  qed
qed

text \<open>The gate as its components: which calls were made and what the list holds.\<close>

lemma gate_checks_cases:
  assumes "gate_checks env lib io k m ev mh renewal = (Inr (cs, na), k')"
  obtains gr vm mf cq vs rv where
    "check_gpu_report (io_gpu io) k m ev (cq_nonce_echo (ev_cpu ev)) = Inr (gr, vm)"
    "check_memory_fingerprint env k m ev (cq_nonce_echo (ev_cpu ev)) = Inr mf"
    "check_cpu_quote (io_cpu io) k m ev (cq_nonce_echo (ev_cpu ev)) (snd (check_channel_binding k ev)) = Inr (cq, vs)"
    "check_attestation_revocation lib io k m ev renewal = (Inr (rv, na), k')"
    "cs = gate_list env io k m ev mh (gr, vm) mf (cq, vs) rv"
proof -
  let ?n = "cq_nonce_echo (ev_cpu ev)" and ?b = "snd (check_channel_binding k ev)"
  obtain gr vm where gr: "check_gpu_report (io_gpu io) k m ev ?n = Inr (gr, vm)"
    using assms by (cases "check_gpu_report (io_gpu io) k m ev ?n") (auto simp: gate_checks_def Let_def)
  obtain mf where mf: "check_memory_fingerprint env k m ev ?n = Inr mf"
    using assms by (cases "check_memory_fingerprint env k m ev ?n") (auto simp: gate_checks_def gr Let_def)
  obtain cq vs where cq: "check_cpu_quote (io_cpu io) k m ev ?n ?b = Inr (cq, vs)"
    using assms by (cases "check_cpu_quote (io_cpu io) k m ev ?n ?b") (auto simp: gate_checks_def gr mf Let_def)
  obtain r k1 where "check_attestation_revocation lib io k m ev renewal = (r, k1)" by fastforce
  moreover from this obtain rv where "r = Inr (rv, na)" "k1 = k'"
    using assms by (cases r) (auto simp: gate_checks_def gr mf cq Let_def)
  ultimately show ?thesis
    using assms by (intro that [OF gr mf cq]) (auto simp: gate_checks_def gr mf cq Let_def)
qed

lemma gate_list_passed:
  "list_all cr_passed (gate_list env io k m ev mh (gr, vm) mf (cq, vs) rv) \<longleftrightarrow>
     cr_passed (check_authorized k mh) \<and> cr_passed (fst (check_channel_binding k ev)) \<and>
     cr_passed (check_cpu_platform m ev) \<and> cr_passed (check_assurance_tier m ev) \<and>
     cr_passed (check_serving_image env (io_image io) m ev) \<and>
     cr_passed (check_gpu m ev (kb_gpu_report_verifier k \<noteq> None \<and> ev_gpu ev \<noteq> None) vm) \<and> cr_passed mf \<and>
     cr_passed (check_platform_integrity m ev vs) \<and> cr_passed (check_platform_instance k ev vs) \<and>
     cr_passed rv \<and> cr_passed cq \<and> cr_passed gr \<and> cr_passed (check_key_available k m)"
  by (auto simp: gate_list_def)

text \<open>The revocation client is all a gate changes.\<close>

lemma same_client [simp]: "\<exists>c. (k :: kbs) = k\<lparr>kb_gpu_revocation := c\<rparr>"
  by (rule exI [of _ "kb_gpu_revocation k"]) simp

lemma check_attestation_revocation_frame:
  assumes "check_attestation_revocation lib io k m ev renewal = (r, k')"
  shows "\<exists>c. k' = k\<lparr>kb_gpu_revocation := c\<rparr>"
  using assms
  by (auto simp: check_attestation_revocation_def Let_def split: if_split_asm option.split_asm sum.split_asm prod.split_asm)

lemma gate_checks_frame:
  assumes "gate_checks env lib io k m ev mh renewal = (r, k')"
  shows "\<exists>c. k' = k\<lparr>kb_gpu_revocation := c\<rparr>"
proof -
  obtain r1 k1 where rv: "check_attestation_revocation lib io k m ev renewal = (r1, k1)" by fastforce
  from check_attestation_revocation_frame [OF rv] assms rv show ?thesis
    by (auto simp: gate_checks_def Let_def split: sum.split_asm prod.split_asm)
qed

lemma release_key_fields:
  "dec_released (release_key env io k m ev mh cs na) \<Longrightarrow> list_all cr_passed cs"
  "dec_manifest_hash (release_key env io k m ev mh cs na) = Some mh"
  "dec_evidence_not_after (release_key env io k m ev mh cs na) = na"
  by (auto simp: release_key_def Let_def split: if_split_asm option.splits sum.splits)

text \<open>A release comes from the gate, with every check of its list passed.\<close>

lemma released_gate:
  assumes "verify_and_release env lib io m ev renewal k = (Inr d, k')" and "dec_released d"
  obtains s mh eh cs na where "manifest_identity env m = Inr mh" "evidence_identity env ev = Inr eh"
      "cs_consume (cq_nonce_echo (ev_cpu ev)) (io_consume io) (kb_challenges k) = (Inr (), s)"
      "gate_checks env lib io (k\<lparr>kb_challenges := s\<rparr>) m ev mh renewal = (Inr (cs, na), k')"
      "d = release_key env io k' m ev mh cs na" "list_all cr_passed cs"
  using assms(1)
proof (cases rule: verify_and_release_cases)
  case (gated s mh eh cs na)
  with assms(2) release_key_fields(1) that show ?thesis by blast
qed (use assms(2) in auto)

subsection \<open>What each passed check means\<close>

lemma serving_image_passed:
  assumes "cr_passed (check_serving_image env now m ev)"
  shows "\<exists>a \<in> set (si_accepted_measurements (rp_required_serving_image (m_release_policy m))).
    am_measurement a = cq_serving_image_measurement (ev_cpu ev) \<and> am_status a \<noteq> image_revoked \<and>
    (am_status a = image_retiring \<longrightarrow>
       (\<forall>b \<in> set (si_accepted_measurements (rp_required_serving_image (m_release_policy m))). am_status b \<noteq> image_current) \<and>
       (\<forall>x. am_retire_after a = Some x \<longrightarrow> (\<exists>t. parse_retire_after env x = Some t \<and> now \<le> t)))"
proof -
  let ?acc = "si_accepted_measurements (rp_required_serving_image (m_release_policy m))"
  obtain a where a: "find (\<lambda>x. am_measurement x = cq_serving_image_measurement (ev_cpu ev)) ?acc = Some a"
    using assms by (cases "find (\<lambda>x. am_measurement x = cq_serving_image_measurement (ev_cpu ev)) ?acc")
      (auto simp: check_serving_image_def Let_def)
  then have "a \<in> set ?acc" "am_measurement a = cq_serving_image_measurement (ev_cpu ev)"
    by (auto simp: find_Some_iff)
  moreover have "am_status a \<noteq> image_revoked"
    using assms a by (auto simp: check_serving_image_def Let_def)
  moreover have "\<not> list_ex (\<lambda>b. am_status b = image_current) ?acc" if "am_status a = image_retiring"
    using assms a that by (auto simp: check_serving_image_def Let_def split: option.split_asm if_split_asm)
  moreover have "\<exists>t. parse_retire_after env x = Some t \<and> now \<le> t"
    if "am_status a = image_retiring" "am_retire_after a = Some x" for x
    using assms a that by (auto simp: check_serving_image_def Let_def split: option.split_asm if_split_asm)
  ultimately show ?thesis by (intro bexI [of _ a]) (auto simp: list_ex_iff)
qed

lemma cpu_quote_passed:
  assumes "check_cpu_quote now k m ev n b = Inr (cq, vs)" and "cr_passed cq"
  shows "case kb_cpu_quote_verifier k of
      None \<Rightarrow> vs = None \<and> \<not> kb_require_cpu_quote_verification k \<and>
        rp_require_evidence_verification (m_release_policy m) = Some False
    | Some verify \<Rightarrow> \<exists>q v. cq_quote_b64 (ev_cpu ev) = Some q \<and>
        verify q n b (Some (cq_serving_image_measurement (ev_cpu ev))) now = Inr v \<and> qv_verified v \<and> vs = qv_snp_report v"
  using assms
  by (auto simp: check_cpu_quote_def Let_def split: option.splits sum.splits if_splits)

lemma platform_integrity_passed:
  assumes "cr_passed (check_platform_integrity m ev vs)" and "rp_platform_integrity (m_release_policy m) = Some want"
    and "need_alias want \<or> need_ciphertext_hiding want"
  shows "\<exists>raw r. vs = Some raw \<and> parse_snp_report raw = Inr r \<and> cq_platform (ev_cpu ev) = us ''amd-sev-snp'' \<and>
    (need_alias want \<longrightarrow> 3 \<le> sr_version r \<and> bit (pf_raw (sr_platform_info r)) 5) \<and>
    (need_ciphertext_hiding want \<longrightarrow> bit (pf_raw (sr_platform_info r)) 4)"
proof -
  obtain raw r where r: "vs = Some raw" "parse_snp_report raw = Inr r" "cq_platform (ev_cpu ev) = us ''amd-sev-snp''"
    and f: "integrity_failures want (sr_platform_info r) = []"
    using assms by (auto simp: check_platform_integrity_def Let_def split: option.split_asm sum.split_asm if_split_asm)
  have bits: "pf_alias_check_complete (sr_platform_info r) =
      (if 3 \<le> sr_version r then Some (bit (pf_raw (sr_platform_info r)) 5) else None)"
    "pf_ciphertext_hiding_en (sr_platform_info r) = bit (pf_raw (sr_platform_info r)) 4"
    using r(2) by (auto simp: parse_snp_report_def Let_def parse_platform_info_def split: if_split_asm)
  have "need_alias want \<Longrightarrow> 3 \<le> sr_version r \<and> bit (pf_raw (sr_platform_info r)) 5"
    using f bits(1) by (auto simp: integrity_failures_def split: if_split_asm)
  moreover have "need_ciphertext_hiding want \<Longrightarrow> bit (pf_raw (sr_platform_info r)) 4"
    using f bits(2) by (auto simp: integrity_failures_def split: if_split_asm)
  ultimately show ?thesis using r by blast
qed

lemma platform_instance_passed:
  assumes "cr_passed (check_platform_instance k ev vs)" and "kb_allowed_platform_instances k = Some allowed"
  shows "\<exists>raw r. vs = Some raw \<and> parse_snp_report raw = Inr r \<and> hex_of_bytes (sr_chip_id r) \<in> set allowed \<and>
    \<not> list_all (\<lambda>b. b = 0) (sr_chip_id r)"
  using assms
  by (auto simp: check_platform_instance_def Let_def split: option.split_asm sum.split_asm if_split_asm)

lemma channel_binding_passed:
  assumes "cr_passed (fst (check_channel_binding k ev))" and "kb_require_channel_binding k"
  shows "\<exists>tpk raw. cq_transport_public_key (ev_cpu ev) = Some tpk \<and> bytes_fromhex tpk = Some raw \<and> length raw = 32 \<and>
    snd (check_channel_binding k ev) = raw"
  using assms by (auto simp: check_channel_binding_def split: option.split_asm if_split_asm)

lemma gpu_report_passed:
  assumes "check_gpu_report now k m ev n = Inr (gr, vm)" and "cr_passed gr" and "ev_gpu ev = Some g"
  shows "case kb_gpu_report_verifier k of
      None \<Rightarrow> vm = None \<and> \<not> kb_require_gpu_report_verification k \<and>
        rp_require_evidence_verification (m_release_policy m) = Some False
    | Some verify \<Rightarrow> \<exists>q v. gr_quote_b64 g = Some q \<and> verify q n now = Inr v \<and> qv_verified v \<and> vm = qv_gpu_measurement v"
  using assms
  by (auto simp: check_gpu_report_def Let_def split: option.splits sum.splits if_splits)

lemma gpu_passed:
  assumes "cr_passed (check_gpu m ev verified vm)" and "rp_required_gpu_measurement (m_release_policy m) = Some req"
  shows "\<exists>g. ev_gpu ev = Some g \<and> gr_nonce_echo g = cq_nonce_echo (ev_cpu ev) \<and>
    (if verified then vm = Some (gm_rim_pin req) else gr_measurement g = gm_rim_pin req) \<and>
    (gm_require_cc_mode req = Some False \<or> verified \<and> gr_cc_mode g \<noteq> Some False)"
  using assms by (auto simp: check_gpu_def Let_def split: option.split_asm if_split_asm)

lemma memory_fingerprint_passed:
  assumes "check_memory_fingerprint env k m ev n = Inr c" and "cr_passed c"
    and "rp_memory_fingerprint_challenge (m_release_policy m) = required_for_hostile_owner_posture"
  shows "\<exists>f. ev_memory_fingerprint ev = Some f \<and> mf_challenge_nonce f = n \<and> \<not> mf_aliasing_detected f \<and>
    (case kb_memory_fingerprint_public_key k of
       None \<Rightarrow> kb_allow_legacy_memory_fingerprint k
     | Some key \<Rightarrow> \<exists>t. verify_memory_sweep env f key = Inr (True, t))"
  using assms
  by (auto simp: check_memory_fingerprint_def Let_def rbind_Inr_iff split: option.split_asm if_split_asm)

lemma attestation_revocation_passed:
  assumes "check_attestation_revocation lib io k m ev renewal = (Inr (c, na), k')" and "cr_passed c"
    and "rp_attestation_revocation_check (m_release_policy m) \<noteq> None"
  shows "cq_attestation_key_id (ev_cpu ev) \<notin> set (kb_revoked k) \<and>
    cq_attestation_key_cache_age_seconds (ev_cpu ev) \<le> kb_max_cache k \<and>
    (\<forall>client. kb_gpu_revocation k = Some client \<longrightarrow>
      (\<exists>g q chain r client'. ev_gpu ev = Some g \<and> gr_quote_b64 g = Some q \<and> chain_from_evidence lib q = Inr chain \<and>
        check_chain lib (io_net io) chain (io_revocation io) renewal client = (Inr r, client') \<and>
        rr_passed r \<and> na = rr_not_after r))"
proof -
  have age: "cq_attestation_key_id (ev_cpu ev) \<notin> set (kb_revoked k)"
    "cq_attestation_key_cache_age_seconds (ev_cpu ev) \<le> kb_max_cache k"
    using assms by (auto simp: check_attestation_revocation_def Let_def split: if_split_asm)
  have "\<exists>g q chain r client'. ev_gpu ev = Some g \<and> gr_quote_b64 g = Some q \<and> chain_from_evidence lib q = Inr chain \<and>
        check_chain lib (io_net io) chain (io_revocation io) renewal client = (Inr r, client') \<and>
        rr_passed r \<and> na = rr_not_after r" if c: "kb_gpu_revocation k = Some client" for client
  proof -
    obtain g q where q: "ev_gpu ev = Some g" "gr_quote_b64 g = Some q" "q \<noteq> []"
      using assms age c by (cases "Option.bind (ev_gpu ev) gr_quote_b64")
        (auto simp: check_attestation_revocation_def Let_def Option.bind_eq_Some_conv split: if_split_asm)
    obtain chain where ch: "chain_from_evidence lib q = Inr chain"
      using assms age c q by (cases "chain_from_evidence lib q")
        (auto simp: check_attestation_revocation_def Let_def split: if_split_asm)
    obtain res client' where cc: "check_chain lib (io_net io) chain (io_revocation io) renewal client = (res, client')"
      by fastforce
    with assms age c q ch show ?thesis
      by (cases res) (auto simp: check_attestation_revocation_def Let_def split: if_split_asm)
  qed
  with age show ?thesis by blast
qed

subsection \<open>Properties of the gate\<close>

lemma release_key_same_config:
  "release_key env io (k\<lparr>kb_challenges := s, kb_gpu_revocation := c\<rparr>) m ev mh cs na = release_key env io k m ev mh cs na"
  by (simp add: release_key_def Let_def split: option.split sum.split)

lemma released_policy:
  assumes "verify_and_release env lib io m ev renewal k = (Inr d, k')" and "dec_released d"
  shows "\<exists>mh key. manifest_identity env m = Inr mh \<and> mh \<in> set (kb_trusted_manifest_identities k) \<and>
    dec_manifest_hash d = Some mh \<and>
    fst (cs_consume (cq_nonce_echo (ev_cpu ev)) (io_consume io) (kb_challenges k)) = Inr () \<and>
    cq_platform (ev_cpu ev) \<in> set (rp_required_hw_platform (m_release_policy m)) \<and>
    cq_assurance_tier (ev_cpu ev) = assurance_tier_value (rp_required_assurance_tier (m_release_policy m)) \<and>
    (\<exists>a \<in> set (si_accepted_measurements (rp_required_serving_image (m_release_policy m))).
      am_measurement a = cq_serving_image_measurement (ev_cpu ev) \<and> am_status a \<noteq> image_revoked \<and>
      (am_status a = image_retiring \<longrightarrow>
        (\<forall>b \<in> set (si_accepted_measurements (rp_required_serving_image (m_release_policy m))). am_status b \<noteq> image_current) \<and>
        (\<forall>x. am_retire_after a = Some x \<longrightarrow> (\<exists>t. parse_retire_after env x = Some t \<and> io_image io \<le> t)))) \<and>
    map_of (kb_keystore k) (m_weights_hash m) = Some key"
proof -
  obtain s mh eh cs na where g: "manifest_identity env m = Inr mh"
    "cs_consume (cq_nonce_echo (ev_cpu ev)) (io_consume io) (kb_challenges k) = (Inr (), s)"
    "gate_checks env lib io (k\<lparr>kb_challenges := s\<rparr>) m ev mh renewal = (Inr (cs, na), k')"
    "d = release_key env io k' m ev mh cs na" "list_all cr_passed cs"
    by (rule released_gate [OF assms])
  from g(3) obtain gr vm mf cq vs rv where
    "cs = gate_list env io (k\<lparr>kb_challenges := s\<rparr>) m ev mh (gr, vm) mf (cq, vs) rv"
    by (rule gate_checks_cases)
  with g(5) have p: "cr_passed (check_authorized (k\<lparr>kb_challenges := s\<rparr>) mh)" "cr_passed (check_cpu_platform m ev)"
    "cr_passed (check_assurance_tier m ev)" "cr_passed (check_serving_image env (io_image io) m ev)"
    "cr_passed (check_key_available (k\<lparr>kb_challenges := s\<rparr>) m)" by (simp_all add: gate_list_passed)
  from p(1-3,5) have "mh \<in> set (kb_trusted_manifest_identities k)"
    "cq_platform (ev_cpu ev) \<in> set (rp_required_hw_platform (m_release_policy m))"
    "cq_assurance_tier (ev_cpu ev) = assurance_tier_value (rp_required_assurance_tier (m_release_policy m))"
    "\<exists>key. map_of (kb_keystore k) (m_weights_hash m) = Some key"
    by (simp_all add: check_authorized_def check_cpu_platform_def check_assurance_tier_def check_key_available_def Let_def)
  with g(1,2,4) serving_image_passed [OF p(4)] show ?thesis by (auto simp: release_key_fields(2))
qed

text \<open>
  C36 (release gate). A key is released only for a manifest whose exact identity the operator
  pinned, on a nonce of this service that was live, from a CPU platform and assurance tier the
  manifest accepts, and for a serving image the manifest lists: not revoked, and when it is
  retiring, before its deadline and with no current image available; and the service holds a
  key for exactly those weights.
\<close>

theorem release_requires_policy:
  assumes "verify_and_release env lib io m ev renewal k = (Inr d, k')" and "dec_released d"
  shows "\<exists>mh key. manifest_identity env m = Inr mh \<and> mh \<in> set (kb_trusted_manifest_identities k) \<and>
    dec_manifest_hash d = Some mh \<and>
    fst (cs_consume (cq_nonce_echo (ev_cpu ev)) (io_consume io) (kb_challenges k)) = Inr () \<and>
    cq_platform (ev_cpu ev) \<in> set (rp_required_hw_platform (m_release_policy m)) \<and>
    cq_assurance_tier (ev_cpu ev) = assurance_tier_value (rp_required_assurance_tier (m_release_policy m)) \<and>
    (\<exists>a \<in> set (si_accepted_measurements (rp_required_serving_image (m_release_policy m))).
      am_measurement a = cq_serving_image_measurement (ev_cpu ev) \<and> am_status a \<noteq> image_revoked \<and>
      (am_status a = image_retiring \<longrightarrow>
        (\<forall>b \<in> set (si_accepted_measurements (rp_required_serving_image (m_release_policy m))). am_status b \<noteq> image_current) \<and>
        (\<forall>x. am_retire_after a = Some x \<longrightarrow> (\<exists>t. parse_retire_after env x = Some t \<and> io_image io \<le> t)))) \<and>
    map_of (kb_keystore k) (m_weights_hash m) = Some key"
  by (rule released_policy [OF assms])

lemma released_hardware:
  assumes "verify_and_release env lib io m ev renewal k = (Inr d, k')" and "dec_released d"
    and "kb_cpu_quote_verifier k = Some verify" and "kb_require_channel_binding k"
  shows "\<exists>q v tpk raw. cq_quote_b64 (ev_cpu ev) = Some q \<and>
    cq_transport_public_key (ev_cpu ev) = Some tpk \<and> bytes_fromhex tpk = Some raw \<and> length raw = 32 \<and>
    verify q (cq_nonce_echo (ev_cpu ev)) raw (Some (cq_serving_image_measurement (ev_cpu ev))) (io_cpu io) = Inr v \<and>
    qv_verified v \<and>
    (\<forall>want. rp_platform_integrity (m_release_policy m) = Some want \<and> (need_alias want \<or> need_ciphertext_hiding want) \<longrightarrow>
      (\<exists>report r. qv_snp_report v = Some report \<and> parse_snp_report report = Inr r \<and>
        (need_alias want \<longrightarrow> 3 \<le> sr_version r \<and> bit (pf_raw (sr_platform_info r)) 5) \<and>
        (need_ciphertext_hiding want \<longrightarrow> bit (pf_raw (sr_platform_info r)) 4))) \<and>
    (\<forall>allowed. kb_allowed_platform_instances k = Some allowed \<longrightarrow>
      (\<exists>report r. qv_snp_report v = Some report \<and> parse_snp_report report = Inr r \<and>
        hex_of_bytes (sr_chip_id r) \<in> set allowed))"
proof -
  obtain s mh eh cs na where g:
    "gate_checks env lib io (k\<lparr>kb_challenges := s\<rparr>) m ev mh renewal = (Inr (cs, na), k')" "list_all cr_passed cs"
    by (rule released_gate [OF assms(1,2)])
  let ?k = "k\<lparr>kb_challenges := s\<rparr>"
  from g(1) obtain gr vm mf cq vs rv where
    cq: "check_cpu_quote (io_cpu io) ?k m ev (cq_nonce_echo (ev_cpu ev)) (snd (check_channel_binding ?k ev)) = Inr (cq, vs)"
    and cs: "cs = gate_list env io ?k m ev mh (gr, vm) mf (cq, vs) rv"
    by (rule gate_checks_cases)
  from g(2) cs have p: "cr_passed (fst (check_channel_binding ?k ev))" "cr_passed cq"
    "cr_passed (check_platform_integrity m ev vs)" "cr_passed (check_platform_instance ?k ev vs)" by (simp_all add: gate_list_passed)
  obtain tpk raw where t: "cq_transport_public_key (ev_cpu ev) = Some tpk" "bytes_fromhex tpk = Some raw" "length raw = 32"
    "snd (check_channel_binding ?k ev) = raw"
    using channel_binding_passed [OF p(1)] assms(4) by auto
  obtain q v where v: "cq_quote_b64 (ev_cpu ev) = Some q" "qv_verified v" "vs = qv_snp_report v"
    "verify q (cq_nonce_echo (ev_cpu ev)) raw (Some (cq_serving_image_measurement (ev_cpu ev))) (io_cpu io) = Inr v"
    using cpu_quote_passed [OF cq p(2)] assms(3) t(4) by auto
  have i: "\<forall>want. rp_platform_integrity (m_release_policy m) = Some want \<and> (need_alias want \<or> need_ciphertext_hiding want) \<longrightarrow>
      (\<exists>report r. qv_snp_report v = Some report \<and> parse_snp_report report = Inr r \<and>
        (need_alias want \<longrightarrow> 3 \<le> sr_version r \<and> bit (pf_raw (sr_platform_info r)) 5) \<and>
        (need_ciphertext_hiding want \<longrightarrow> bit (pf_raw (sr_platform_info r)) 4))"
    using platform_integrity_passed [OF p(3)] v(3) by blast
  have c: "\<forall>allowed. kb_allowed_platform_instances k = Some allowed \<longrightarrow>
      (\<exists>report r. qv_snp_report v = Some report \<and> parse_snp_report report = Inr r \<and>
        hex_of_bytes (sr_chip_id r) \<in> set allowed)"
    using platform_instance_passed [OF p(4)] v(3) by auto
  from t v i c show ?thesis by blast
qed

text \<open>
  With a CPU quote verifier configured and channel binding required, a key
  is released only when the verifier accepted this evidence's quote for this nonce, this
  transport key and this measurement; and whatever the manifest or the operator requires of
  the platform (alias check, ciphertext hiding, an allowed chip) is read from the report the
  verifier authenticated: the bits are set in its PLATFORM_INFO, in a report version that has
  them, and its CHIP_ID is on the operator's list.
\<close>

theorem release_requires_verified_hardware:
  assumes "verify_and_release env lib io m ev renewal k = (Inr d, k')" and "dec_released d"
    and "kb_cpu_quote_verifier k = Some verify" and "kb_require_channel_binding k"
  shows "\<exists>q v tpk raw. cq_quote_b64 (ev_cpu ev) = Some q \<and>
    cq_transport_public_key (ev_cpu ev) = Some tpk \<and> bytes_fromhex tpk = Some raw \<and> length raw = 32 \<and>
    verify q (cq_nonce_echo (ev_cpu ev)) raw (Some (cq_serving_image_measurement (ev_cpu ev))) (io_cpu io) = Inr v \<and>
    qv_verified v \<and>
    (\<forall>want. rp_platform_integrity (m_release_policy m) = Some want \<and> (need_alias want \<or> need_ciphertext_hiding want) \<longrightarrow>
      (\<exists>report r. qv_snp_report v = Some report \<and> parse_snp_report report = Inr r \<and>
        (need_alias want \<longrightarrow> 3 \<le> sr_version r \<and> bit (pf_raw (sr_platform_info r)) 5) \<and>
        (need_ciphertext_hiding want \<longrightarrow> bit (pf_raw (sr_platform_info r)) 4))) \<and>
    (\<forall>allowed. kb_allowed_platform_instances k = Some allowed \<longrightarrow>
      (\<exists>report r. qv_snp_report v = Some report \<and> parse_snp_report report = Inr r \<and>
        hex_of_bytes (sr_chip_id r) \<in> set allowed))"
  by (rule released_hardware [OF assms])

text \<open>
  C37 (release gate). The conditional requirements: a required GPU measurement was matched by a
  report bound to the same nonce, against the signed report whenever a verifier is configured,
  and confidential-compute mode was waived or rests on a verified report; a required memory
  fingerprint is bound to the nonce, reports no aliasing and is signed by the pinned sweep key
  (unless legacy mode is on); and where revocation is checked, the attestation key is not
  revoked, its status is recent, and a configured OCSP client vouched for the GPU's chain.
\<close>

theorem release_requires_conditional_gates:
  assumes "verify_and_release env lib io m ev renewal k = (Inr d, k')" and "dec_released d"
  shows "(\<forall>req. rp_required_gpu_measurement (m_release_policy m) = Some req \<longrightarrow>
      (\<exists>g. ev_gpu ev = Some g \<and> gr_nonce_echo g = cq_nonce_echo (ev_cpu ev) \<and>
        (case kb_gpu_report_verifier k of
           None \<Rightarrow> gr_measurement g = gm_rim_pin req \<and> gm_require_cc_mode req = Some False \<and>
             rp_require_evidence_verification (m_release_policy m) = Some False
         | Some verify \<Rightarrow> \<exists>q v. gr_quote_b64 g = Some q \<and> verify q (cq_nonce_echo (ev_cpu ev)) (io_gpu io) = Inr v \<and>
             qv_verified v \<and> qv_gpu_measurement v = Some (gm_rim_pin req)))) \<and>
    (rp_memory_fingerprint_challenge (m_release_policy m) = required_for_hostile_owner_posture \<longrightarrow>
      (\<exists>f. ev_memory_fingerprint ev = Some f \<and> mf_challenge_nonce f = cq_nonce_echo (ev_cpu ev) \<and>
        \<not> mf_aliasing_detected f \<and>
        (case kb_memory_fingerprint_public_key k of
           None \<Rightarrow> kb_allow_legacy_memory_fingerprint k
         | Some key \<Rightarrow> \<exists>t. verify_memory_sweep env f key = Inr (True, t)))) \<and>
    (rp_attestation_revocation_check (m_release_policy m) \<noteq> None \<longrightarrow>
      cq_attestation_key_id (ev_cpu ev) \<notin> set (kb_revoked k) \<and>
      cq_attestation_key_cache_age_seconds (ev_cpu ev) \<le> kb_max_cache k \<and>
      (\<forall>client. kb_gpu_revocation k = Some client \<longrightarrow>
        (\<exists>g q chain r client'. ev_gpu ev = Some g \<and> gr_quote_b64 g = Some q \<and> chain_from_evidence lib q = Inr chain \<and>
          check_chain lib (io_net io) chain (io_revocation io) renewal client = (Inr r, client') \<and>
          rr_passed r \<and> dec_evidence_not_after d = rr_not_after r)))"
proof -
  obtain s mh eh cs na where g:
    "gate_checks env lib io (k\<lparr>kb_challenges := s\<rparr>) m ev mh renewal = (Inr (cs, na), k')"
    "d = release_key env io k' m ev mh cs na" "list_all cr_passed cs"
    by (rule released_gate [OF assms(1,2)])
  let ?k = "k\<lparr>kb_challenges := s\<rparr>"
  from g(1) obtain gr vm mf cq vs rv where
    gr: "check_gpu_report (io_gpu io) ?k m ev (cq_nonce_echo (ev_cpu ev)) = Inr (gr, vm)"
    and mf: "check_memory_fingerprint env ?k m ev (cq_nonce_echo (ev_cpu ev)) = Inr mf"
    and rv: "check_attestation_revocation lib io ?k m ev renewal = (Inr (rv, na), k')"
    and cs: "cs = gate_list env io ?k m ev mh (gr, vm) mf (cq, vs) rv"
    by (rule gate_checks_cases)
  from g(3) cs have p: "cr_passed gr" "cr_passed mf" "cr_passed rv"
    "cr_passed (check_gpu m ev (kb_gpu_report_verifier ?k \<noteq> None \<and> ev_gpu ev \<noteq> None) vm)" by (simp_all add: gate_list_passed)
  have "\<exists>g. ev_gpu ev = Some g \<and> gr_nonce_echo g = cq_nonce_echo (ev_cpu ev) \<and>
        (case kb_gpu_report_verifier k of
           None \<Rightarrow> gr_measurement g = gm_rim_pin req \<and> gm_require_cc_mode req = Some False \<and>
             rp_require_evidence_verification (m_release_policy m) = Some False
         | Some verify \<Rightarrow> \<exists>q v. gr_quote_b64 g = Some q \<and> verify q (cq_nonce_echo (ev_cpu ev)) (io_gpu io) = Inr v \<and>
             qv_verified v \<and> qv_gpu_measurement v = Some (gm_rim_pin req))"
    if "rp_required_gpu_measurement (m_release_policy m) = Some req" for req
  proof -
    from gpu_passed [OF p(4) that] obtain g where gg: "ev_gpu ev = Some g" "gr_nonce_echo g = cq_nonce_echo (ev_cpu ev)"
      "if kb_gpu_report_verifier k \<noteq> None then vm = Some (gm_rim_pin req) else gr_measurement g = gm_rim_pin req"
      "gm_require_cc_mode req = Some False \<or> kb_gpu_report_verifier k \<noteq> None \<and> gr_cc_mode g \<noteq> Some False"
      using p(1) by auto
    with gpu_report_passed [OF gr p(1) gg(1)] show ?thesis by (auto split: option.splits)
  qed
  moreover have "rp_memory_fingerprint_challenge (m_release_policy m) = required_for_hostile_owner_posture \<longrightarrow>
      (\<exists>f. ev_memory_fingerprint ev = Some f \<and> mf_challenge_nonce f = cq_nonce_echo (ev_cpu ev) \<and>
        \<not> mf_aliasing_detected f \<and>
        (case kb_memory_fingerprint_public_key k of
           None \<Rightarrow> kb_allow_legacy_memory_fingerprint k
         | Some key \<Rightarrow> \<exists>t. verify_memory_sweep env f key = Inr (True, t)))"
    using memory_fingerprint_passed [OF mf p(2)] by (simp cong: option.case_cong)
  ultimately show ?thesis
    using attestation_revocation_passed [OF rv p(3)] by (simp add: g(2) release_key_fields(3))
qed

text \<open>The state a decision leaves behind differs in the challenge store and the OCSP client only.\<close>

lemma verify_and_release_frame:
  assumes "verify_and_release env lib io m ev renewal k = (r, k')"
  shows "\<exists>s c. k' = k\<lparr>kb_challenges := s, kb_gpu_revocation := c\<rparr>"
proof -
  have id: "\<exists>s c. k = k\<lparr>kb_challenges := s, kb_gpu_revocation := c\<rparr>"
    by (rule exI [of _ "kb_challenges k"], rule exI [of _ "kb_gpu_revocation k"]) simp
  have id': "\<exists>s' c. k\<lparr>kb_challenges := s\<rparr> = k\<lparr>kb_challenges := s', kb_gpu_revocation := c\<rparr>" for s
    by (rule exI [of _ s], rule exI [of _ "kb_gpu_revocation k"]) simp
  obtain mr where mr: "rbind (manifest_identity env m) (\<lambda>mh. rbind (evidence_identity env ev) (\<lambda>_. Inr mh)) = mr" by blast
  obtain cr s where con: "cs_consume (cq_nonce_echo (ev_cpu ev)) (io_consume io) (kb_challenges k) = (cr, s)" by fastforce
  show ?thesis
  proof (cases mr)
    case (Inl e)
    with assms mr id show ?thesis by (auto simp: verify_and_release_def split: if_split_asm)
  next
    case (Inr mh)
    obtain g k1 where g: "gate_checks env lib io (k\<lparr>kb_challenges := s\<rparr>) m ev mh renewal = (g, k1)" by fastforce
    from gate_checks_frame [OF g] assms mr Inr con g id' show ?thesis
      by (cases cr; cases g) (auto simp: verify_and_release_def split: prod.split_asm)
  qed
qed

lemma released_key:
  assumes "list_all cr_passed cs" and "map_of (kb_keystore k) (m_weights_hash m) = Some key"
    and "kb_require_channel_binding k" and "cq_transport_public_key (ev_cpu ev) = Some tpk"
  shows "release_key env io k m ev mh cs na =
    (case seal_to_public_key env (io_ephemeral io) (io_seal_nonce io) tpk key [] of
       Inr sealed \<Rightarrow>
         \<lparr>dec_released = True, dec_key = None, dec_checks = cs, dec_evidence_not_after = na,
          dec_sealed_key = Some sealed, dec_manifest_hash = Some mh,
          dec_renewal_public_key_b64url = Some (renewal_public_key env (kb_renewal_signing_key k))\<rparr>
     | Inl e \<Rightarrow>
         \<lparr>dec_released = False, dec_key = None, dec_checks = cs @ [check ''key_sealed'' False (Some (exn_text e))],
          dec_evidence_not_after = na, dec_sealed_key = None, dec_manifest_hash = Some mh,
          dec_renewal_public_key_b64url = Some (renewal_public_key env (kb_renewal_signing_key k))\<rparr>)"
  using assms by (simp add: release_key_def Let_def split: sum.split)

lemma release_key_refused:
  "\<not> list_all cr_passed cs \<Longrightarrow> dec_key (release_key env io k m ev mh cs na) = None \<and>
     dec_sealed_key (release_key env io k m ev mh cs na) = None \<and>
     \<not> dec_released (release_key env io k m ev mh cs na)"
  by (simp add: release_key_def Let_def)

lemma sealed_release:
  assumes "verify_and_release env lib io m ev renewal k = (Inr d, k')" and "kb_require_channel_binding k"
  shows "dec_key d = None \<and>
    (if dec_released d
     then (\<forall>c \<in> set (dec_checks d). cr_passed c) \<and>
       (\<exists>key tpk sealed. map_of (kb_keystore k) (m_weights_hash m) = Some key \<and>
          cq_transport_public_key (ev_cpu ev) = Some tpk \<and> dec_sealed_key d = Some sealed \<and>
          seal_to_public_key env (io_ephemeral io) (io_seal_nonce io) tpk key [] = Inr sealed)
     else dec_sealed_key d = None \<and> (\<exists>c \<in> set (dec_checks d). \<not> cr_passed c))"
  using assms(1)
proof (cases rule: verify_and_release_cases)
  case (gated s mh eh cs na)
  obtain c where k': "k' = k\<lparr>kb_challenges := s, kb_gpu_revocation := c\<rparr>" using gate_checks_frame [OF gated(4)] by auto
  have d: "d = release_key env io k m ev mh cs na" using gated(5) by (simp add: k' release_key_same_config)
  from gated(4) obtain gr vm mf cq vs rv where
    cs: "cs = gate_list env io (k\<lparr>kb_challenges := s\<rparr>) m ev mh (gr, vm) mf (cq, vs) rv" by (rule gate_checks_cases)
  show ?thesis
  proof (cases "list_all cr_passed cs")
    case False
    with d release_key_refused [OF False, of env io k m ev mh na] show ?thesis
      by (auto simp: release_key_def list_all_iff Let_def)
  next
    case True
    with cs have p: "cr_passed (fst (check_channel_binding (k\<lparr>kb_challenges := s\<rparr>) ev))"
      "cr_passed (check_key_available (k\<lparr>kb_challenges := s\<rparr>) m)" by (simp_all add: gate_list_passed)
    from channel_binding_passed [OF p(1)] assms(2) obtain tpk where t: "cq_transport_public_key (ev_cpu ev) = Some tpk" by auto
    from p(2) obtain key where key: "map_of (kb_keystore k) (m_weights_hash m) = Some key"
      by (auto simp: check_key_available_def Let_def)
    show ?thesis
      using released_key [OF True key assms(2) t, of env io mh na] True key t
      by (auto simp: d list_all_iff split: sum.split)
  qed
qed auto

text \<open>
  C38 (release gate). Whatever the inputs, a decision of a service that requires channel binding
  never carries the key in the clear; a refusal carries neither key nor sealed key; and a
  release carries exactly the key held for the manifest's weights, sealed to the transport key
  of the evidence, with every check in its list passed.
\<close>

theorem key_leaves_only_sealed:
  assumes "verify_and_release env lib io m ev renewal k = (Inr d, k')" and "kb_require_channel_binding k"
  shows "dec_key d = None \<and>
    (if dec_released d
     then (\<forall>c \<in> set (dec_checks d). cr_passed c) \<and>
       (\<exists>key tpk sealed. map_of (kb_keystore k) (m_weights_hash m) = Some key \<and>
          cq_transport_public_key (ev_cpu ev) = Some tpk \<and> dec_sealed_key d = Some sealed \<and>
          seal_to_public_key env (io_ephemeral io) (io_seal_nonce io) tpk key [] = Inr sealed)
     else dec_sealed_key d = None \<and> (\<exists>c \<in> set (dec_checks d). \<not> cr_passed c))"
  by (rule sealed_release [OF assms])

subsection \<open>Sequences of requests\<close>

datatype kbs_op =
    Challenge_Op time pystr
  | Release_Op kbs_io manifest composite_evidence
  | Renew_Op kbs_io manifest composite_evidence

text \<open>One request, and whether it released a key or signed a positive renewal.\<close>

fun kbs_step :: "('x) env_scheme \<Rightarrow> 'c ocsp_lib \<Rightarrow> kbs_op \<Rightarrow> kbs \<Rightarrow> bool \<times> kbs" where
  "kbs_step env lib (Challenge_Op t n) k = (False, snd (issue_challenge t n k))"
| "kbs_step env lib (Release_Op io m ev) k =
     (case verify_and_release env lib io m ev False k of
        (Inl e, k') \<Rightarrow> (False, k') | (Inr d, k') \<Rightarrow> (dec_released d, k'))"
| "kbs_step env lib (Renew_Op io m ev) k =
     (case verify_for_renewal env lib io m ev k of
        (Inl e, k') \<Rightarrow> (False, k') | (Inr d, k') \<Rightarrow> (rd_renewed d, k'))"

fun op_nonce :: "kbs_op \<Rightarrow> pystr" where
  "op_nonce (Challenge_Op t n) = n"
| "op_nonce (Release_Op io m ev) = cq_nonce_echo (ev_cpu ev)"
| "op_nonce (Renew_Op io m ev) = cq_nonce_echo (ev_cpu ev)"

text \<open>How often a nonce was issued, and how often it bought a release or a renewal.\<close>

fun issued_count :: "pystr \<Rightarrow> kbs_op list \<Rightarrow> nat" where
  "issued_count n [] = 0"
| "issued_count n (x # xs) = (case x of Challenge_Op t m \<Rightarrow> if m = n then 1 else 0 | _ \<Rightarrow> 0) + issued_count n xs"

fun granted_count :: "('x) env_scheme \<Rightarrow> 'c ocsp_lib \<Rightarrow> pystr \<Rightarrow> kbs_op list \<Rightarrow> kbs \<Rightarrow> nat" where
  "granted_count env lib n [] k = 0"
| "granted_count env lib n (x # xs) k =
     (if op_nonce x = n \<and> fst (kbs_step env lib x k) then 1 else 0) +
     granted_count env lib n xs (snd (kbs_step env lib x k))"

text \<open>What a request does to the challenge store.\<close>

definition spends :: "pystr \<Rightarrow> time \<Rightarrow> bool \<Rightarrow> kbs \<Rightarrow> kbs \<Rightarrow> bool" where
  "spends n t granted k k' \<longleftrightarrow>
     (granted \<longrightarrow> fst (cs_consume_op n t (kb_challenges k))) \<and>
     (kb_challenges k' = snd (cs_consume_op n t (kb_challenges k)) \<or>
      kb_challenges k' = kb_challenges k \<and> \<not> granted)"

lemma verify_and_release_spends:
  assumes "verify_and_release env lib io m ev renewal k = (r, k')"
  shows "spends (cq_nonce_echo (ev_cpu ev)) (io_consume io) (case r of Inl e \<Rightarrow> False | Inr d \<Rightarrow> dec_released d) k k'"
proof -
  let ?n = "cq_nonce_echo (ev_cpu ev)"
  obtain cr s where con: "cs_consume ?n (io_consume io) (kb_challenges k) = (cr, s)" by fastforce
  then have op: "cs_consume_op ?n (io_consume io) (kb_challenges k) = (cr = Inr (), s)" by (simp add: cs_consume_op_def)
  show ?thesis
  proof (cases "rbind (manifest_identity env m) (\<lambda>mh. rbind (evidence_identity env ev) (\<lambda>_. Inr mh))")
    case (Inl e)
    with assms show ?thesis by (auto simp: verify_and_release_def spends_def split: if_split_asm)
  next
    case (Inr mh)
    obtain g k1 where g: "gate_checks env lib io (k\<lparr>kb_challenges := s\<rparr>) m ev mh renewal = (g, k1)" by fastforce
    from gate_checks_frame [OF g] assms Inr con g op show ?thesis
      by (cases cr; cases g) (auto simp: verify_and_release_def spends_def split: prod.split_asm)
  qed
qed

lemma verify_for_renewal_gate:
  assumes "verify_for_renewal env lib io m ev k = (r, k')"
  shows "\<exists>q. verify_and_release env lib io m ev True k = (q, k') \<and>
    (\<forall>rd. r = Inr rd \<longrightarrow> (\<exists>d. q = Inr d \<and> rd_renewed rd = dec_released d))"
proof -
  obtain q k1 where q: "verify_and_release env lib io m ev True k = (q, k1)" by fastforce
  have "k1 = k' \<and> (\<forall>rd. r = Inr rd \<longrightarrow> (\<exists>d. q = Inr d \<and> rd_renewed rd = dec_released d))"
    using assms q
    by (cases q) (auto simp: verify_for_renewal_def rbind_Inr_iff Let_def sign_renewal_decision_def split: if_split_asm)
  with q show ?thesis by auto
qed

lemma verify_for_renewal_spends:
  assumes "verify_for_renewal env lib io m ev k = (r, k')"
  shows "spends (cq_nonce_echo (ev_cpu ev)) (io_consume io) (case r of Inl e \<Rightarrow> False | Inr d \<Rightarrow> rd_renewed d) k k'"
proof -
  obtain q where q: "verify_and_release env lib io m ev True k = (q, k')"
    "\<forall>rd. r = Inr rd \<longrightarrow> (\<exists>d. q = Inr d \<and> rd_renewed rd = dec_released d)"
    using verify_for_renewal_gate [OF assms] by (elim exE conjE)
  show ?thesis
    using verify_and_release_spends [OF q(1)] q(2) by (cases r) (fastforce simp: spends_def)+
qed

lemma spends_bound:
  assumes "spends m t granted k k'"
    and "\<And>s. c \<le> i + (if n \<in> cs_live (kb_challenges k') then 1 else 0)"
  shows "(if m = n \<and> granted then 1 else 0) + c \<le> i + (if n \<in> cs_live (kb_challenges k) then 1 else (0 :: nat))"
  using assms cs.con_ok [of m t "kb_challenges k"] cs.con_spent [of m t "kb_challenges k"]
    cs.con_frame [of m t "kb_challenges k"]
  by (auto simp: spends_def split: if_splits)

lemma granted_le: "granted_count env lib n xs k \<le> issued_count n xs + (if n \<in> cs_live (kb_challenges k) then 1 else 0)"
proof (induction xs arbitrary: k)
  case (Cons x xs)
  show ?case
  proof (cases x)
    case (Challenge_Op t m)
    have "kb_challenges (snd (issue_challenge t m k)) = cs_issue_op t m (kb_challenges k)"
      by (simp add: issue_challenge_def cs_issue_op_def split: prod.split)
    with Challenge_Op Cons [of "snd (issue_challenge t m k)"] cs.iss_frame [of t m "kb_challenges k"] show ?thesis
      by (auto split: if_splits)
  next
    case (Release_Op io m ev)
    obtain r k' where r: "verify_and_release env lib io m ev False k = (r, k')" by fastforce
    show ?thesis
      using spends_bound [OF verify_and_release_spends [OF r] Cons [of k']] by (cases r) (simp_all add: Release_Op r)
  next
    case (Renew_Op io m ev)
    obtain r k' where r: "verify_for_renewal env lib io m ev k = (r, k')" by fastforce
    show ?thesis
      using spends_bound [OF verify_for_renewal_spends [OF r] Cons [of k']] by (cases r) (simp_all add: Renew_Op r)
  qed
qed simp

text \<open>
  Over any sequence of challenges, releases and renewals, with any clocks and
  any evidence, a nonce buys releases and positive renewals at most as often as this service
  issued it: no replay, and no nonce the service did not issue.
\<close>

theorem one_grant_per_challenge:
  assumes "new_kbs config ttl instances = Inr k"
  shows "granted_count env lib n requests k \<le> issued_count n requests"
proof -
  have "cs_live (kb_challenges k) = {}"
    using assms by (auto simp: new_kbs_def rbind_Inr_iff cs_live_def new_store_def split: if_splits)
  with granted_le [of env lib n requests k] show ?thesis by simp
qed

subsection \<open>What a renewal decision carries\<close>

text \<open>The stamps: what the service relies on of \<open>isoformat\<close> and \<open>fromisoformat\<close> at an instant.\<close>

definition iso_ok :: "('x) env_scheme \<Rightarrow> time \<Rightarrow> bool" where
  "iso_ok env t \<longleftrightarrow> (\<exists>p. iso_format env t = p @ us ''+00:00'' \<and> 43 \<notin> set p \<and> 90 \<notin> set p) \<and>
     from_iso env (iso_format env t) = Some (Aware t)"

lemma replace_utc_suffix: "43 \<notin> set p \<Longrightarrow> replace_utc (p @ us ''+00:00'') = p @ [90]"
  by (induction p) (auto simp: us_def)

lemma replace_Z_suffix: "90 \<notin> set p \<Longrightarrow> replace_Z (p @ [90]) = p @ us ''+00:00''"
  by (induction p) (auto simp: replace_Z_def)

lemma iso_Z_roundtrip:
  assumes "iso_ok env t"
  shows "from_iso env (replace_Z (iso_Z env t)) = Some (Aware t)" and "parse_stamp env (iso_Z env t) = Some t"
proof -
  obtain p where p: "iso_format env t = p @ us ''+00:00''" "43 \<notin> set p" "90 \<notin> set p"
    and f: "from_iso env (iso_format env t) = Some (Aware t)" using assms by (auto simp: iso_ok_def)
  have z: "iso_Z env t = p @ [90]" using p by (simp add: iso_Z_def replace_utc_suffix)
  then show r: "from_iso env (replace_Z (iso_Z env t)) = Some (Aware t)" using p f by (simp add: replace_Z_suffix)
  then show "parse_stamp env (iso_Z env t) = Some t" by (simp add: parse_stamp_def z)
qed

lemma check_names:
  "cr_name (check_authorized k mh) = us ''manifest_authorized''"
  "cr_name (fst (check_channel_binding k ev)) = us ''channel_binding''"
  "cr_name (check_cpu_platform m ev) = us ''cpu_platform_allowed''"
  "cr_name (check_assurance_tier m ev) = us ''assurance_tier''"
  "cr_name (check_serving_image env now m ev) = us ''serving_image''"
  "cr_name (check_gpu m ev b vm) = us ''gpu''"
  "cr_name (check_platform_integrity m ev vs) = us ''platform_integrity''"
  "cr_name (check_platform_instance k ev vs) = us ''platform_instance_allowed''"
  "cr_name (check_key_available k m) = us ''key_available''"
  by (auto simp: check_authorized_def check_channel_binding_def check_cpu_platform_def check_assurance_tier_def
      check_serving_image_def check_gpu_def check_platform_integrity_def check_platform_instance_def
      check_key_available_def Let_def split: option.split sum.split)

lemma check_names_fallible:
  "check_gpu_report now k m ev n = Inr (gr, vm) \<Longrightarrow> cr_name gr = us ''gpu_report_verified''"
  "check_memory_fingerprint env k m ev n = Inr mf \<Longrightarrow> cr_name mf = us ''memory_fingerprint''"
  "check_cpu_quote now k m ev n b = Inr (cq, vs) \<Longrightarrow> cr_name cq = us ''cpu_quote_verified''"
  by (auto simp: check_gpu_report_def check_memory_fingerprint_def check_cpu_quote_def Let_def rbind_Inr_iff
      split: option.split_asm sum.split_asm if_split_asm)

lemma check_name_revocation:
  "check_attestation_revocation lib io k m ev r = (Inr (rv, na), k') \<Longrightarrow> cr_name rv = us ''attestation_revocation''"
  by (auto simp: check_attestation_revocation_def Let_def
      split: option.split_asm sum.split_asm if_split_asm prod.split_asm)

lemma check_asdict_simps [simp]:
  "check_name (check_asdict c) = Some (cr_name c)" "check_passed (check_asdict c) = cr_passed c"
  by (simp_all add: check_asdict_def check_name_def check_passed_def)

lemma checks_complete_asdict:
  "checks_complete (map check_asdict cs) \<longleftrightarrow>
     distinct (map cr_name cs) \<and> (\<forall>n \<in> set REQUIRED_RENEWAL_CHECKS. n \<in> set (map cr_name cs))"
proof -
  have "map check_name (map check_asdict cs) = map Some (map cr_name cs)" by (simp add: comp_def)
  then show ?thesis
    by (simp only: checks_complete_def list_all_iff distinct_map) (auto simp: inj_on_def)
qed

text \<open>The gate's list has every check a renewal must report, once each.\<close>

lemma gate_checks_names:
  assumes "gate_checks env lib io k m ev mh renewal = (Inr (cs, na), k')"
  shows "map cr_name cs = map us
    [''nonce_fresh'', ''manifest_authorized'', ''channel_binding'', ''cpu_platform_allowed'', ''assurance_tier'',
     ''serving_image'', ''gpu'', ''memory_fingerprint'', ''platform_integrity'', ''platform_instance_allowed'',
     ''attestation_revocation'', ''cpu_quote_verified'', ''gpu_report_verified'', ''key_available'']"
proof -
  from assms obtain gr vm mf cq vs rv where
    "check_gpu_report (io_gpu io) k m ev (cq_nonce_echo (ev_cpu ev)) = Inr (gr, vm)"
    "check_memory_fingerprint env k m ev (cq_nonce_echo (ev_cpu ev)) = Inr mf"
    "check_cpu_quote (io_cpu io) k m ev (cq_nonce_echo (ev_cpu ev)) (snd (check_channel_binding k ev)) = Inr (cq, vs)"
    "check_attestation_revocation lib io k m ev renewal = (Inr (rv, na), k')"
    and cs: "cs = gate_list env io k m ev mh (gr, vm) mf (cq, vs) rv"
    by (rule gate_checks_cases)
  then show ?thesis by (simp add: gate_list_def check_names check_names_fallible check_name_revocation)
qed

lemma gate_checks_complete:
  "gate_checks env lib io k m ev mh renewal = (Inr (cs, na), k') \<Longrightarrow> checks_complete (map check_asdict cs)"
  unfolding checks_complete_asdict REQUIRED_RENEWAL_CHECKS_def by (drule gate_checks_names) simp

lemma released_checks_complete:
  assumes "verify_and_release env lib io m ev renewal k = (Inr d, k')" and "dec_released d"
  shows "checks_complete (map check_asdict (dec_checks d))" and "list_all check_passed (map check_asdict (dec_checks d))"
proof -
  obtain s mh eh cs na where g: "gate_checks env lib io (k\<lparr>kb_challenges := s\<rparr>) m ev mh renewal = (Inr (cs, na), k')"
    "d = release_key env io k' m ev mh cs na" "list_all cr_passed cs" by (rule released_gate [OF assms])
  have "dec_checks d = cs" using g(2) assms(2) by (auto simp: release_key_def Let_def split: if_split_asm option.splits sum.splits)
  with gate_checks_complete [OF g(1)] g(3)
  show "checks_complete (map check_asdict (dec_checks d))" "list_all check_passed (map check_asdict (dec_checks d))"
    by (simp_all add: list_all_iff)
qed

lemma verify_for_renewal_signed:
  assumes "verify_for_renewal env lib io m ev k = (Inr rd, k')"
  obtains d expires where "verify_and_release env lib io m ev True k = (Inr d, k')"
    "\<not> list_ex (\<lambda>c. cr_name c = us ''input_canonical'') (dec_checks d)"
    "expires = (case dec_evidence_not_after d of None \<Rightarrow> io_issued io + secs (kb_renewal_ttl k)
                | Some b \<Rightarrow> min (io_issued io + secs (kb_renewal_ttl k)) b)"
    "sign_renewal_decision env (kb_renewal_signing_key k) (dec_released d) m ev (iso_Z env (io_issued io)) (iso_Z env expires)
       (map check_asdict (dec_checks d)) (map_option (iso_Z env) (dec_evidence_not_after d)) = Inr rd"
proof -
  obtain q where q: "verify_and_release env lib io m ev True k = (q, k')"
    using verify_for_renewal_gate [OF assms] by (elim exE conjE)
  obtain d where d: "q = Inr d" using assms q by (cases q) (auto simp: verify_for_renewal_def)
  obtain s c where k': "k' = k\<lparr>kb_challenges := s, kb_gpu_revocation := c\<rparr>" using verify_and_release_frame [OF q] by blast
  have nc: "\<not> list_ex (\<lambda>c. cr_name c = us ''input_canonical'') (dec_checks d)"
    using assms q d by (auto simp: verify_for_renewal_def split: if_split_asm)
  then have "rbind (time_add (io_issued io) (kb_renewal_ttl k')) (\<lambda>expires.
       let expires = (case dec_evidence_not_after d of None \<Rightarrow> expires | Some b \<Rightarrow> min expires b)
       in sign_renewal_decision env (kb_renewal_signing_key k') (dec_released d) m ev
            (iso_Z env (io_issued io)) (iso_Z env expires)
            (map check_asdict (dec_checks d))
            (map_option (iso_Z env) (dec_evidence_not_after d))) = Inr rd"
    using assms q d by (simp add: verify_for_renewal_def)
  then show ?thesis
    using q d nc by (intro that) (auto simp: k' rbind_Inr_iff time_add_def Let_def split: if_split_asm)
qed

text \<open>
  A renewal decision reports the gate's own verdict and list of checks; it is
  positive only if every check a renewal must report is present and passed; its expiry is at
  most the configured lifetime after it was issued and never past the instant the revocation
  evidence behind it ends, which it states; and it is signed for exactly this manifest, nonce
  and evidence.
\<close>

theorem renewal_bounded_by_evidence:
  assumes "verify_for_renewal env lib io m ev k = (Inr rd, k')"
  shows "\<exists>d expires. verify_and_release env lib io m ev True k = (Inr d, k') \<and> rd_renewed rd = dec_released d \<and>
    rd_checks rd = map check_asdict (dec_checks d) \<and>
    (rd_renewed rd \<longrightarrow> checks_complete (rd_checks rd) \<and> list_all check_passed (rd_checks rd)) \<and>
    rd_issued_at rd = iso_Z env (io_issued io) \<and> rd_expires_at rd = iso_Z env expires \<and>
    expires \<le> io_issued io + secs (kb_renewal_ttl k) \<and>
    (\<forall>b. dec_evidence_not_after d = Some b \<longrightarrow> expires \<le> b) \<and>
    rd_evidence_expires_at rd = map_option (iso_Z env) (dec_evidence_not_after d) \<and>
    manifest_identity env m = Inr (rd_manifest_hash rd) \<and> evidence_identity env ev = Inr (rd_evidence_hash rd) \<and>
    nonce_hash env (cq_nonce_echo (ev_cpu ev)) = Inr (rd_challenge_nonce_hash rd)"
proof -
  obtain d expires where v: "verify_and_release env lib io m ev True k = (Inr d, k')"
    and x: "expires = (case dec_evidence_not_after d of None \<Rightarrow> io_issued io + secs (kb_renewal_ttl k)
                | Some b \<Rightarrow> min (io_issued io + secs (kb_renewal_ttl k)) b)"
    and sg: "sign_renewal_decision env (kb_renewal_signing_key k) (dec_released d) m ev (iso_Z env (io_issued io)) (iso_Z env expires)
       (map check_asdict (dec_checks d)) (map_option (iso_Z env) (dec_evidence_not_after d)) = Inr rd"
    by (rule verify_for_renewal_signed [OF assms])
  note f = sign_renewal_fields [OF sg]
  have c: "checks_complete (rd_checks rd) \<and> list_all check_passed (rd_checks rd)" if "rd_renewed rd"
    using released_checks_complete [OF v] that by (simp add: f(8,9))
  with v x f show ?thesis by (intro exI [of _ d] exI [of _ expires]) (auto split: option.splits)
qed

subsection \<open>A concrete service\<close>

definition demo_kbs_env :: env where
  "demo_kbs_env = demo_env\<lparr>x_public := (\<lambda>_. replicate 32 0), from_iso := (\<lambda>s. Some (Aware (int (length s) - 6)))\<rparr>"

lemma demo_kbs_env_simps [simp]:
  "nfc demo_kbs_env = nfc demo_crypto" "frepr demo_kbs_env = frepr demo_crypto" "hf demo_kbs_env = hf demo_crypto"
  "ed_public demo_kbs_env = (\<lambda>sk. sk)" "ed_sign demo_kbs_env = (\<lambda>sk m. replicate 64 1)" "ed_load demo_kbs_env pub"
  "ed_verify demo_kbs_env = (\<lambda>pk sg m. sg = replicate 64 1)"
  "from_iso demo_kbs_env = (\<lambda>s. Some (Aware (int (length s) - 6)))"
  "iso_format demo_kbs_env = (\<lambda>t. replicate (nat t) 48 @ us ''+00:00'')"
  "udecimal demo_kbs_env = udecimal demo_env"
  "x_public demo_kbs_env = (\<lambda>_. replicate 32 0)" "x_exchange demo_kbs_env = (\<lambda>_ _. Some [9])"
  "hkdf demo_kbs_env = (\<lambda>_ _. [8])" "aead_enc demo_kbs_env = (\<lambda>k n p a. p @ replicate 16 0)"
  "aead_dec demo_kbs_env = (\<lambda>k n c a. Some (take (length c - 16) c))"
  by (simp_all add: demo_kbs_env_def)

text \<open>A report of zero bytes: under the demonstration digest it binds the nonce \<open>00\<close> and a transport key
  of zero bytes.\<close>

definition demo_snp_quote :: pystr where
  "demo_snp_quote = concat (replicate 395 [65, 65, 65, 65])"

definition demo_request :: composite_evidence where
  "demo_request = demo_evidence\<lparr>ev_cpu := (ev_cpu demo_evidence)\<lparr>cq_serving_image_measurement := demo_hash 0,
     cq_nonce_echo := us ''00'', cq_quote_b64 := Some demo_snp_quote,
     cq_transport_public_key := Some (hex_of_bytes (replicate 32 0))\<rparr>\<rparr>"

text \<open>The concrete manifest, with attestation keys checked for revocation.\<close>

lemma no_surrogates_demo_quote [simp]: "no_surrogates demo_snp_quote"
  by (simp add: demo_snp_quote_def list_ex_iff surrogate_def)

definition demo_gated :: manifest where
  "demo_gated = demo_manifest\<lparr>m_release_policy := demo_policy\<lparr>rp_attestation_revocation_check := Some (us ''live''),
     rp_required_serving_image := (rp_required_serving_image demo_policy)\<lparr>si_accepted_measurements :=
       [\<lparr>am_measurement = demo_hash 0, am_status = image_current, am_retire_after = None\<rparr>]\<rparr>\<rparr>\<rparr>"

definition demo_mh :: pystr where
  "demo_mh = projr (manifest_identity demo_kbs_env demo_gated)"

text \<open>The broker's verifier: the quote verifier over the SNP parser, for a chain \<open>3\<close>, \<open>7\<close>.\<close>

definition demo_verifier :: cpu_verifier where
  "demo_verifier = quote_verify demo_kbs_env demo_pki \<lparr>ve_parse = snp_quote_parse demo_pki 3 [], ve_roots = [7],
     ve_require_launch_measurement = False\<rparr>"

definition demo_verdict :: quote_verification where
  "demo_verdict = \<lparr>qv_verified = True, qv_reason = None, qv_leaf_subject = Some [],
     qv_snp_report = Some (replicate 0x4A0 0), qv_gpu_measurement = None\<rparr>"

lemma demo_measurement: "prefixed_sha256 demo_kbs_env (replicate 48 0) = demo_hash 0"
proof -
  have "hex_of_bytes (replicate n 0) = replicate (2 * n) 48" for n
    by (induction n) (simp_all add: hex_of_bytes_def hex_byte_def hex_digit_def)
  then show ?thesis by (simp add: prefixed_sha256_def demo_hash_def take_replicate)
qed

lemma demo_verifier_accepts:
  "demo_verifier demo_snp_quote (us ''00'') (replicate 32 0) (Some (demo_hash 0)) 1 = Inr demo_verdict"
  by (simp add: demo_verifier_def demo_snp_quote_def demo_verdict_def quote_verify_def snp_quote_parse_def b64decode_zeros
      REPORT_LEN_def SIG_OFFSET_def verify_cert_chain_def chain_error_def valid_at_def signed_by_def
      pubkey_verify_def may_issue_def verify_report_signature_def launch_error_def demo_measurement
      demo_pki_def us_def hex_val_def ascii_space_def slice_def take_replicate drop_replicate)
    (simp add: replicate_Suc [symmetric] del: replicate_Suc)

definition demo_config :: kbs where
  "demo_config = \<lparr>kb_keystore = [(demo_hash 0, [7, 7])], kb_challenges = new_store 0, kb_revoked = [],
     kb_max_cache = 600, kb_gpu_revocation = None,
     kb_cpu_quote_verifier = Some demo_verifier, kb_gpu_report_verifier = None,
     kb_require_channel_binding = True, kb_require_cpu_quote_verification = False,
     kb_require_gpu_report_verification = False, kb_renewal_signing_key = [5], kb_renewal_ttl = 60,
     kb_memory_fingerprint_public_key = None, kb_allow_legacy_memory_fingerprint = False,
     kb_trusted_manifest_identities = [demo_mh], kb_allowed_platform_instances = None\<rparr>"

definition demo_kbs :: kbs where
  "demo_kbs = snd (issue_challenge 0 (us ''00'') (demo_config\<lparr>kb_challenges := new_store 300\<rparr>))"

definition demo_io :: kbs_io where
  "demo_io = \<lparr>io_consume = 1, io_image = 1, io_gpu = 1, io_cpu = 1, io_revocation = 1, io_issued = 2,
     io_net = (\<lambda>_. ([], \<lambda>_ _. Inl OverflowError)), io_ephemeral = [], io_seal_nonce = replicate 12 0\<rparr>"

lemma demo_request_identities:
  "manifest_identity demo_kbs_env demo_gated = Inr demo_mh"
  "\<exists>eh. evidence_identity demo_kbs_env demo_request = Inr eh"
proof -
  have "clean (nfc demo_crypto) 64 (JDict (unsigned_dict demo_gated))"
    by (simp add: demo_gated_def demo_manifest_def demo_policy_def dump_defs value_defs present_def map_filter_simps
        demo_crypto_def clean_str_def)
  from canonicalize_clean [OF this, of "frepr demo_crypto" True]
  show "manifest_identity demo_kbs_env demo_gated = Inr demo_mh"
    by (auto simp: manifest_identity_eq demo_mh_def)
  have "clean (nfc demo_crypto) 64 (dump_evidence demo_request)"
    by (simp add: demo_request_def demo_evidence_def dump_evidence_def dump_cpu_quote_def present_def map_filter_simps
      clean_str_def nat_str.simps)
  from canonicalize_clean [OF this, of "frepr demo_crypto" True]
  show "\<exists>eh. evidence_identity demo_kbs_env demo_request = Inr eh" by (auto simp: evidence_identity_eq)
qed

lemma demo_consume:
  "\<exists>s. cs_consume (us ''00'') 1 (kb_challenges demo_kbs) = (Inr (), s)"
  by (simp add: demo_kbs_def issue_challenge_def cs_issue_def cs_prune_def new_store_def cs_consume_def secs_def Let_def)

text \<open>Names and details the canonicalizer can encode.\<close>

definition printable :: "check_result \<Rightarrow> bool" where
  "printable c \<longleftrightarrow> no_surrogates (cr_name c) \<and> (case cr_detail c of None \<Rightarrow> True | Some d \<Rightarrow> no_surrogates d)"

lemma demo_gate:
  "\<exists>cs. gate_checks demo_kbs_env demo_ocsp demo_io (demo_kbs\<lparr>kb_challenges := s\<rparr>) demo_gated demo_request demo_mh r =
     (Inr (cs, None), demo_kbs\<lparr>kb_challenges := s\<rparr>) \<and> list_all cr_passed cs \<and> list_all printable cs"
proof -
  have k: "kb_keystore demo_kbs = [(demo_hash 0, [7, 7])]" "kb_cpu_quote_verifier demo_kbs = Some demo_verifier"
    "kb_require_channel_binding demo_kbs" "kb_trusted_manifest_identities demo_kbs = [demo_mh]"
    "kb_allowed_platform_instances demo_kbs = None" "kb_gpu_report_verifier demo_kbs = None"
    "kb_revoked demo_kbs = []" "kb_max_cache demo_kbs = 600" "kb_gpu_revocation demo_kbs = None"
    by (simp_all add: demo_kbs_def issue_challenge_def demo_config_def split: prod.split)
  have m: "m_weights_hash demo_gated = demo_hash 0" 
    "m_release_policy demo_gated = demo_policy\<lparr>rp_attestation_revocation_check := Some (us ''live''),
       rp_required_serving_image := (rp_required_serving_image demo_policy)\<lparr>si_accepted_measurements :=
         [\<lparr>am_measurement = demo_hash 0, am_status = image_current, am_retire_after = None\<rparr>]\<rparr>\<rparr>"
    by (simp_all add: demo_gated_def demo_manifest_def)
  have e: "cq_transport_public_key (ev_cpu demo_request) = Some (hex_of_bytes (replicate 32 0))"
    "hex_of_bytes (replicate 32 0) \<noteq> []" "cq_quote_b64 (ev_cpu demo_request) = Some demo_snp_quote" "ev_gpu demo_request = None"
    "cq_platform (ev_cpu demo_request) = us ''amd-sev-snp''" "cq_assurance_tier (ev_cpu demo_request) = us ''hardware-attested''"
    "cq_serving_image_measurement (ev_cpu demo_request) = demo_hash 0" "cq_nonce_echo (ev_cpu demo_request) = us ''00''"
    "cq_attestation_key_cache_age_seconds (ev_cpu demo_request) = 0"
    using length_hex_of_bytes [of "replicate 32 0"] by (auto simp: demo_request_def demo_evidence_def)
  show ?thesis
    unfolding gate_checks_def gate_list_def check_gpu_report_def check_memory_fingerprint_def check_cpu_quote_def
      check_attestation_revocation_def check_channel_binding_def check_authorized_def check_cpu_platform_def
      check_assurance_tier_def check_serving_image_def check_gpu_def check_platform_integrity_def
      check_platform_instance_def check_key_available_def
    by (simp add: printable_def k m e demo_policy_def demo_verifier_accepts demo_verdict_def bytes_fromhex_hex assurance_tier_value_def
        demo_io_def)
qed

lemma demo_release:
  "\<exists>d k'. verify_and_release demo_kbs_env demo_ocsp demo_io demo_gated demo_request r demo_kbs = (Inr d, k') \<and>
     dec_released d \<and> dec_evidence_not_after d = None \<and> list_all printable (dec_checks d)"
proof -
  obtain eh where eh: "evidence_identity demo_kbs_env demo_request = Inr eh" using demo_request_identities(2) by blast
  obtain s where s: "cs_consume (us ''00'') 1 (kb_challenges demo_kbs) = (Inr (), s)" using demo_consume by blast
  obtain cs where g: "gate_checks demo_kbs_env demo_ocsp demo_io (demo_kbs\<lparr>kb_challenges := s\<rparr>) demo_gated demo_request demo_mh r =
     (Inr (cs, None), demo_kbs\<lparr>kb_challenges := s\<rparr>)" "list_all cr_passed cs" "list_all printable cs"
    using demo_gate by blast
  let ?d = "release_key demo_kbs_env demo_io (demo_kbs\<lparr>kb_challenges := s\<rparr>) demo_gated demo_request demo_mh cs None"
  have "verify_and_release demo_kbs_env demo_ocsp demo_io demo_gated demo_request r demo_kbs =
      (Inr ?d, demo_kbs\<lparr>kb_challenges := s\<rparr>)"
    using s g(1) by (simp add: verify_and_release_def demo_request_identities(1) eh)
      (simp add: demo_request_def demo_evidence_def demo_io_def)
  moreover have "dec_released ?d \<and> dec_checks ?d = cs"
  proof -
    have "kb_keystore demo_kbs = [(demo_hash 0, [7, 7])]" "kb_require_channel_binding demo_kbs"
      by (simp_all add: demo_kbs_def issue_challenge_def demo_config_def split: prod.split)
    moreover have "cq_transport_public_key (ev_cpu demo_request) = Some (hex_of_bytes (replicate 32 0))"
      "m_weights_hash demo_gated = demo_hash 0"
      by (simp_all add: demo_request_def demo_gated_def demo_manifest_def)
    moreover obtain x where "seal_to_public_key demo_kbs_env (io_ephemeral demo_io) (io_seal_nonce demo_io)
        (hex_of_bytes (replicate 32 0)) [7, 7] [] = Inr x"
      by (simp add: seal_to_public_key_def bytes_fromhex_hex)
    ultimately show ?thesis using g(2) by (simp add: release_key_def Let_def)
  qed
  ultimately show ?thesis using release_key_fields(3) g(3) by auto
qed

theorem release_requires_policy_witness:
  "\<exists>mh key. manifest_identity demo_kbs_env demo_gated = Inr mh \<and> mh \<in> set (kb_trusted_manifest_identities demo_kbs) \<and>
     map_of (kb_keystore demo_kbs) (m_weights_hash demo_gated) = Some key"
proof -
  obtain d k' where "verify_and_release demo_kbs_env demo_ocsp demo_io demo_gated demo_request False demo_kbs = (Inr d, k')"
    "dec_released d" using demo_release by blast
  from release_requires_policy [OF this] show ?thesis by blast
qed

theorem release_requires_verified_hardware_witness:
  "\<exists>q tpk raw. cq_quote_b64 (ev_cpu demo_request) = Some q \<and> cq_transport_public_key (ev_cpu demo_request) = Some tpk \<and>
     bytes_fromhex tpk = Some raw \<and> length raw = 32"
proof -
  obtain d k' where d: "verify_and_release demo_kbs_env demo_ocsp demo_io demo_gated demo_request False demo_kbs = (Inr d, k')"
    "dec_released d" using demo_release by blast
  have "kb_cpu_quote_verifier demo_kbs = Some demo_verifier" "kb_require_channel_binding demo_kbs"
    by (simp_all add: demo_kbs_def issue_challenge_def demo_config_def split: prod.split)
  from release_requires_verified_hardware [OF d this] show ?thesis by blast
qed

theorem release_requires_conditional_gates_witness:
  "cq_attestation_key_id (ev_cpu demo_request) \<notin> set (kb_revoked demo_kbs) \<and>
   cq_attestation_key_cache_age_seconds (ev_cpu demo_request) \<le> kb_max_cache demo_kbs"
proof -
  obtain d k' where "verify_and_release demo_kbs_env demo_ocsp demo_io demo_gated demo_request False demo_kbs = (Inr d, k')"
    "dec_released d" using demo_release by blast
  from release_requires_conditional_gates [OF this] show ?thesis by (simp add: demo_gated_def)
qed

theorem key_leaves_only_sealed_witness:
  "\<exists>d k'. verify_and_release demo_kbs_env demo_ocsp demo_io demo_gated demo_request False demo_kbs = (Inr d, k') \<and>
     dec_released d \<and> dec_key d = None \<and> dec_sealed_key d \<noteq> None"
proof -
  obtain d k' where d: "verify_and_release demo_kbs_env demo_ocsp demo_io demo_gated demo_request False demo_kbs = (Inr d, k')"
    "dec_released d" using demo_release by blast
  have "kb_require_channel_binding demo_kbs"
    by (simp add: demo_kbs_def issue_challenge_def demo_config_def split: prod.split)
  from key_leaves_only_sealed [OF d(1) this] d show ?thesis by auto
qed

theorem one_grant_per_challenge_witness:
  "granted_count demo_kbs_env demo_ocsp (us ''00'')
     [Challenge_Op 0 (us ''00''), Release_Op demo_io demo_gated demo_request, Release_Op demo_io demo_gated demo_request]
     (demo_config\<lparr>kb_challenges := new_store 300\<rparr>) \<le> 1"
proof -
  have "new_kbs demo_config 300 None = Inr (demo_config\<lparr>kb_challenges := new_store 300\<rparr>)"
    by (simp add: new_kbs_def normalize_platform_instances_def demo_config_def)
  from one_grant_per_challenge [OF this, of demo_kbs_env demo_ocsp "us ''00''"
      "[Challenge_Op 0 (us ''00''), Release_Op demo_io demo_gated demo_request, Release_Op demo_io demo_gated demo_request]"]
  show ?thesis by simp
qed

lemma demo_renew:
  "\<exists>rd k'. verify_for_renewal demo_kbs_env demo_ocsp demo_io demo_gated demo_request demo_kbs = (Inr rd, k') \<and> rd_renewed rd"
proof -
  obtain d k' where d: "verify_and_release demo_kbs_env demo_ocsp demo_io demo_gated demo_request True demo_kbs = (Inr d, k')"
    "dec_released d" "dec_evidence_not_after d = None" "list_all printable (dec_checks d)" using demo_release by blast
  obtain s c where k': "k' = demo_kbs\<lparr>kb_challenges := s, kb_gpu_revocation := c\<rparr>" using verify_and_release_frame [OF d(1)] by blast
  have kk: "kb_renewal_signing_key k' = [5]" "kb_renewal_ttl k' = 60"
    by (simp_all add: k' demo_kbs_def issue_challenge_def demo_config_def split: prod.split)
  have nc: "\<not> list_ex (\<lambda>c. cr_name c = us ''input_canonical'') (dec_checks d)"
    using d(1)
  proof (cases rule: verify_and_release_cases)
    case (gated s mh eh cs na)
    from release_key_fields(1) [of demo_kbs_env demo_io k' demo_gated demo_request mh cs na] gated(5) d(2)
    have "dec_checks d = cs" by (auto simp: release_key_def Let_def split: if_split_asm option.splits sum.splits)
    moreover have "us ''input_canonical'' \<notin> set (map cr_name cs)" by (simp add: gate_checks_names [OF gated(4)])
    ultimately show ?thesis by (force simp: list_ex_iff)
  qed (use d(2) in auto)
  obtain eh where eh: "evidence_identity demo_kbs_env demo_request = Inr eh" using demo_request_identities(2) by blast
  obtain nh where nh: "nonce_hash demo_kbs_env (cq_nonce_echo (ev_cpu demo_request)) = Inr nh"
    by (auto simp: nonce_hash_def demo_request_def demo_evidence_def utf8_encode_def)
  have z: "no_surrogates (iso_Z demo_kbs_env t)" for t
    by (simp add: iso_Z_def replace_utc_suffix surrogate_def list_ex_iff)
  have cl: "clean (nfc demo_crypto) 62 (JDict (check_asdict c))" if "c \<in> set (dec_checks d)" for c
    using that d(4) by (auto simp: check_asdict_def printable_def list_all_iff clean_str_def split: option.splits)
  have "\<exists>rd. sign_renewal_decision demo_kbs_env [5] True demo_gated demo_request (iso_Z demo_kbs_env 2) (iso_Z demo_kbs_env 60000002)
      (map check_asdict (dec_checks d)) None = Inr rd"
    using identity_no_surrogates(1) [OF demo_request_identities(1)] identity_no_surrogates(2) [OF eh]
      identity_no_surrogates(3) [OF nh] z cl
    by (intro sign_renewal_total [OF demo_request_identities(1) nh eh])
       (simp add: rd_signing_payload_def present_def map_filter_simps clean_str_def
          renewal_public_key_def demo_gated_def demo_manifest_def)
  then obtain rd where rd: "sign_renewal_decision demo_kbs_env [5] True demo_gated demo_request (iso_Z demo_kbs_env 2)
      (iso_Z demo_kbs_env 60000002) (map check_asdict (dec_checks d)) None = Inr rd" ..
  then have "verify_for_renewal demo_kbs_env demo_ocsp demo_io demo_gated demo_request demo_kbs = (Inr rd, k')"
    using d nc kk by (simp add: verify_for_renewal_def time_add_def secs_def max_time_def demo_io_def)
  moreover have "rd_renewed rd" using rd by (auto simp: sign_renewal_decision_def rbind_Inr_iff Let_def)
  ultimately show ?thesis by blast
qed

theorem renewal_bounded_by_evidence_witness:
  "\<exists>(rd :: renewal_decision) expires. rd_renewed rd \<and> checks_complete (rd_checks rd) \<and> rd_expires_at rd = iso_Z demo_kbs_env expires \<and>
     expires \<le> io_issued demo_io + secs 60"
proof -
  obtain rd k' where rd: "verify_for_renewal demo_kbs_env demo_ocsp demo_io demo_gated demo_request demo_kbs = (Inr rd, k')"
    "rd_renewed rd" using demo_renew by blast
  have "kb_renewal_ttl demo_kbs = 60" by (simp add: demo_kbs_def issue_challenge_def demo_config_def split: prod.split)
  with renewal_bounded_by_evidence [OF rd(1)] rd(2) show ?thesis by (intro exI [of _ rd]) auto
qed

end
