(* ===== verification/EndToEnd.thy ===== *)
theory EndToEnd
  imports Kbs
begin

section \<open>From the hardware report to the enclave session\<close>

text \<open>
  Properties that span components: the key broker with the SEV-SNP quote verifier, the enclave
  that opens what the broker sealed, and the session that the broker's renewals extend.
\<close>

subsection \<open>A release under the SNP verifier\<close>

text \<open>The broker's verifier built from the quote verifier over the SNP parser.\<close>

definition snp_verifier ::
  "('x) crypto_scheme \<Rightarrow> ('c, 'y) pki_scheme \<Rightarrow> 'c \<Rightarrow> 'c list \<Rightarrow> 'c list \<Rightarrow> cpu_verifier" where
  "snp_verifier cr pki vcek intermediates roots =
     quote_verify cr pki \<lparr>ve_parse = snp_quote_parse pki vcek intermediates, ve_roots = roots,
       ve_require_launch_measurement = False\<rparr>"

lemma snp_verified_chain:
  assumes "snp_verifier cr pki vcek inters roots q n b e now = Inr v" and "qv_verified v"
  shows "trusted_path pki roots now 0 (vcek # inters)"
proof -
  obtain pq raw s where "snp_quote_parse pki vcek inters q = Inr pq"
    "verify_cert_chain pki (pq_leaf pq) (pq_intermediates pq) roots now = Inr None"
    using quote_verify_accepts [OF assms [unfolded snp_verifier_def]] by (metis quote_verifier.select_convs(1,2))
  moreover from this(1) have "pq_leaf pq = vcek" "pq_intermediates pq = inters"
    by (auto simp: snp_quote_parse_def split: sum.splits if_splits)
  ultimately show ?thesis using verify_cert_chain_sound by metis
qed

text \<open>
  C25 (end to end). When a broker that requires channel binding releases under the SNP verifier,
  there is a report whose signer chains to a trusted root and signed it; the report binds the
  challenge nonce together with the very transport key the released key is sealed to; its
  launch measurement is one the pinned manifest accepts and has not revoked; and the decision
  holds the weights' key only in that sealed form. A relayed or replayed quote therefore yields
  nothing its sender can open.
\<close>

theorem snp_release_is_bound:
  assumes "verify_and_release env lib io m ev renewal k = (Inr d, k')" and "dec_released d"
    and "kb_cpu_quote_verifier k = Some (snp_verifier env pki vcek inters roots)" and "kb_require_channel_binding k"
  shows "\<exists>report r n tpk raw key sealed a mh.
    trusted_path pki roots (io_cpu io) 0 (vcek # inters) \<and> parse_snp_report report = Inr r \<and>
    report_verify pki vcek ECDSA_SHA384 (snp_signature_der pki report) (sr_body r) = None \<and>
    bytes_fromhex (cq_nonce_echo (ev_cpu ev)) = Some n \<and>
    cq_transport_public_key (ev_cpu ev) = Some tpk \<and> bytes_fromhex tpk = Some raw \<and> length raw = 32 \<and>
    take 32 (sr_report_data r) = sha256 env (n @ raw) \<and>
    a \<in> set (si_accepted_measurements (rp_required_serving_image (m_release_policy m))) \<and>
    am_measurement a = prefixed_sha256 env (sr_measurement r) \<and> am_status a \<noteq> image_revoked \<and>
    manifest_identity env m = Inr mh \<and> mh \<in> set (kb_trusted_manifest_identities k) \<and>
    map_of (kb_keystore k) (m_weights_hash m) = Some key \<and> dec_key d = None \<and> dec_sealed_key d = Some sealed \<and>
    seal_to_public_key env (io_ephemeral io) (io_seal_nonce io) tpk key [] = Inr sealed"
proof -
  let ?n = "cq_nonce_echo (ev_cpu ev)" and ?meas = "cq_serving_image_measurement (ev_cpu ev)"
  obtain q v tpk raw where h: "cq_transport_public_key (ev_cpu ev) = Some tpk" "bytes_fromhex tpk = Some raw" "length raw = 32"
    "snp_verifier env pki vcek inters roots q ?n raw (Some ?meas) (io_cpu io) = Inr v" "qv_verified v"
    using released_hardware [OF assms] by blast
  obtain report r n where r: "parse_snp_report report = Inr r"
    "report_verify pki vcek ECDSA_SHA384 (snp_signature_der pki report) (sr_body r) = None"
    "bytes_fromhex ?n = Some n" "take 32 (sr_report_data r) = sha256 env (n @ raw)"
    "prefixed_sha256 env (sr_measurement r) = ?meas"
    using verified_snp_report [OF h(4) [unfolded snp_verifier_def] h(5)] by blast
  obtain mh key a where p: "manifest_identity env m = Inr mh" "mh \<in> set (kb_trusted_manifest_identities k)"
    "map_of (kb_keystore k) (m_weights_hash m) = Some key"
    "a \<in> set (si_accepted_measurements (rp_required_serving_image (m_release_policy m)))"
    "am_measurement a = ?meas" "am_status a \<noteq> image_revoked"
    using released_policy [OF assms(1,2)] by blast
  obtain sealed where s: "dec_key d = None" "dec_sealed_key d = Some sealed"
    "seal_to_public_key env (io_ephemeral io) (io_seal_nonce io) tpk key [] = Inr sealed"
    using sealed_release [OF assms(1,4)] assms(2) p(3) h(1) by auto
  show ?thesis
    using snp_verified_chain [OF h(4,5)] h r p s
    by (intro exI [of _ report] exI [of _ r] exI [of _ n] exI [of _ tpk] exI [of _ raw] exI [of _ key]
        exI [of _ sealed] exI [of _ a] exI [of _ mh]) simp
qed

subsection \<open>The enclave opens what was sealed to it\<close>

lemma released_decision:
  assumes "verify_and_release env lib io m ev renewal k = (Inr d, k')" and "dec_released d"
  shows "dec_renewal_public_key_b64url d = Some (renewal_public_key env (kb_renewal_signing_key k))"
    and "\<exists>mh. manifest_identity env m = Inr mh \<and> dec_manifest_hash d = Some mh"
proof -
  obtain s mh eh cs na where g: "manifest_identity env m = Inr mh"
    "gate_checks env lib io (k\<lparr>kb_challenges := s\<rparr>) m ev mh renewal = (Inr (cs, na), k')"
    "d = release_key env io k' m ev mh cs na" by (rule released_gate [OF assms])
  obtain c where k': "k' = k\<lparr>kb_challenges := s, kb_gpu_revocation := c\<rparr>" using gate_checks_frame [OF g(2)] by auto
  show "dec_renewal_public_key_b64url d = Some (renewal_public_key env (kb_renewal_signing_key k))"
    unfolding g(3) k' release_key_same_config
    by (simp add: release_key_def Let_def split: option.split sum.split)
  show "\<exists>mh. manifest_identity env m = Inr mh \<and> dec_manifest_hash d = Some mh"
    using g(1,3) release_key_fields(2) by blast
qed

lemma release_opens:
  assumes "verify_and_release env lib io m ev renewal k = (Inr d, k')" and "dec_released d"
    and "kb_require_channel_binding k" and "dh_correct env" and "aead_correct env" and "length (io_seal_nonce io) = 12"
    and "cq_transport_public_key (ev_cpu ev) = Some (hex_of_bytes (x_public env sk))"
    and "parse_cadence env (cu_attestation_cadence (m_custody m)) = Inr cadence"
    and "t + secs cadence \<le> max_time" and "case max_ops of None \<Rightarrow> True | Some n \<Rightarrow> 0 < n"
  shows "\<exists>s. from_release env m d max_ops t hook (Some sk) = Inr s \<and>
    map_of (kb_keystore k) (m_weights_hash m) = Some (ses_key s) \<and> ses_state s = holding \<and>
    ses_cadence s = cadence \<and> ses_deadline s = t + secs cadence \<and> ses_used_renewals s = {} \<and>
    ses_tts s = rp_trusted_time_source (m_release_policy m) \<and> ses_weights_hash s = Some (m_weights_hash m) \<and>
    manifest_identity env m = Inr (the (ses_manifest_hash s)) \<and> ses_manifest_hash s \<noteq> None \<and>
    ses_renewal_public_key s = Some (renewal_public_key env (kb_renewal_signing_key k))"
proof -
  obtain key sealed where k: "map_of (kb_keystore k) (m_weights_hash m) = Some key" "dec_key d = None"
    "dec_sealed_key d = Some sealed"
    "seal_to_public_key env (io_ephemeral io) (io_seal_nonce io) (hex_of_bytes (x_public env sk)) key [] = Inr sealed"
    using sealed_release [OF assms(1,3)] assms(2,7) by auto
  have open_key: "open_sealed env sealed sk [] = Inr key"
    by (rule seal_open [OF assms(4-6) bytes_fromhex_hex k(4)])
  note dec = released_decision [OF assms(1,2)]
  obtain mh where mh: "manifest_identity env m = Inr mh" "dec_manifest_hash d = Some mh" using dec(2) by blast
  have "0 < cadence" by (rule parse_cadence_pos [OF assms(8)])
  with assms(2,8-10) k(1-3) open_key mh dec(1) show ?thesis
    by (simp add: from_release_def new_session_def time_add_def split: option.splits)
qed

text \<open>
  C26 (end to end). What a channel-bound broker releases for the holder of a transport key starts
  custody there: the sealed key opens, the session holds exactly the key stored for the
  manifest's weights, its first window is one cadence of that manifest, and it pins the
  manifest's identity and the broker's renewal key.
\<close>

theorem sealed_release_starts_custody:
  assumes "verify_and_release env lib io m ev renewal k = (Inr d, k')" and "dec_released d"
    and "kb_require_channel_binding k" and "dh_correct env" and "aead_correct env" and "length (io_seal_nonce io) = 12"
    and "cq_transport_public_key (ev_cpu ev) = Some (hex_of_bytes (x_public env sk))"
    and "parse_cadence env (cu_attestation_cadence (m_custody m)) = Inr cadence"
    and "t + secs cadence \<le> max_time" and "case max_ops of None \<Rightarrow> True | Some n \<Rightarrow> 0 < n"
  shows "\<exists>s. from_release env m d max_ops t hook (Some sk) = Inr s \<and>
    map_of (kb_keystore k) (m_weights_hash m) = Some (ses_key s) \<and> ses_state s = holding \<and>
    ses_cadence s = cadence \<and> ses_deadline s = t + secs cadence \<and>
    manifest_identity env m = Inr (the (ses_manifest_hash s)) \<and>
    ses_renewal_public_key s = Some (renewal_public_key env (kb_renewal_signing_key k))"
  using release_opens [OF assms] by blast

subsection \<open>The session accepts the broker's renewals\<close>

lemma signed_renewal_applies:
  assumes "ses_state s = holding" and "t < ses_deadline s" and "t + secs (ses_cadence s) \<le> max_time"
    and "ses_manifest_hash s = Some mh" and "manifest_identity env m = Inr mh"
    and "ses_renewal_public_key s = Some (renewal_public_key env sk)"
    and "ses_weights_hash s = Some (m_weights_hash m)" and "ses_tts s = rp_trusted_time_source (m_release_policy m)"
    and "parse_cadence env (cu_attestation_cadence (m_custody m)) = Inr (ses_cadence s)"
    and "ed_correct env" and "ed_load env (ed_public env sk)" and "ed_public env sk \<noteq> []"
    and "sign_renewal_decision env sk True m ev (iso_Z env issued) (iso_Z env expires) cs (map_option (iso_Z env) bound) = Inr rd"
    and "checks_complete cs" and "list_all check_passed cs"
    and "iso_ok env issued" and "iso_ok env expires" and "\<forall>b. bound = Some b \<longrightarrow> iso_ok env b"
    and "issued \<le> t" and "t \<le> expires" and "issued < expires"
    and "\<forall>rid. renewal_id env rd = Inr rid \<longrightarrow> rid \<notin> ses_used_renewals s"
  shows "\<exists>s'. apply_renewal env m rd t ev s w = (Inr (), s', w) \<and> ses_key s' = ses_key s \<and>
    ses_deadline s' = (case bound of None \<Rightarrow> t + secs (ses_cadence s) | Some b \<Rightarrow> min (t + secs (ses_cadence s)) b)"
proof -
  note f = sign_renewal_fields [OF assms(13)]
  have verified: "rd_verify env rd (renewal_public_key env sk) = Inr True"
    by (simp add: sign_renewal_verifies [OF assms(10-13)])
  have mh: "rd_manifest_hash rd = mh" using f(5) assms(5) by simp
  have gate: "renewal_gate env m rd t ev s = Inr ()"
    unfolding renewal_gate_iff f(8-13) iso_Z_roundtrip(2) [OF assms(16)] iso_Z_roundtrip(2) [OF assms(17)]
    using assms(4-9,14,15,19-21) verified mh f(6,7) by simp
  obtain rid where rid: "renewal_id env rd = Inr rid" "rid \<notin> ses_used_renewals s"
    using f(1) assms(22) by (auto simp: renewal_id_def canonical_hash_def)
  have "bounded_deadline env rd x = Inr (case bound of None \<Rightarrow> x | Some b \<Rightarrow> min x b)" for x
    using assms(18) by (cases bound) (simp_all add: bounded_deadline_def f(13) iso_Z_roundtrip(1))
  with assms(1-3) gate rid show ?thesis by (simp add: apply_renewal_def obind_tick time_add_def Let_def)
qed

text \<open>
  C27 (end to end). A session started from a release of a broker accepts a positive renewal of
  the same broker for its manifest, presented before the session's deadline and inside the
  renewal's validity: the window then ends one cadence after the presentation or at the end of
  the revocation evidence, whichever is earlier.
\<close>

theorem broker_renewal_extends_custody:
  assumes "verify_and_release env lib io m ev renewal k = (Inr d, k')" and "dec_released d"
    and "kb_require_channel_binding k" and "dh_correct env" and "aead_correct env" and "length (io_seal_nonce io) = 12"
    and "cq_transport_public_key (ev_cpu ev) = Some (hex_of_bytes (x_public env sk))"
    and "parse_cadence env (cu_attestation_cadence (m_custody m)) = Inr cadence"
    and "t0 + secs cadence \<le> max_time" and "case max_ops of None \<Rightarrow> True | Some n \<Rightarrow> 0 < n"
    and "verify_for_renewal env lib io2 m ev2 k2 = (Inr rd, k3)" and "rd_renewed rd"
    and "verify_and_release env lib io2 m ev2 True k2 = (Inr d2, k3)"
    and "kb_renewal_signing_key k2 = kb_renewal_signing_key k" and "ed_correct env"
    and "ed_load env (ed_public env (kb_renewal_signing_key k))" and "ed_public env (kb_renewal_signing_key k) \<noteq> []"
    and "\<forall>x. x = io_issued io2 \<or> x = io_issued io2 + secs (kb_renewal_ttl k2) \<or> Some x = dec_evidence_not_after d2 \<longrightarrow> iso_ok env x"
    and "\<forall>b. dec_evidence_not_after d2 = Some b \<longrightarrow> io_issued io2 < b \<and> t \<le> b" and "0 < kb_renewal_ttl k2"
    and "io_issued io2 \<le> t" and "t \<le> io_issued io2 + secs (kb_renewal_ttl k2)"
    and "t < t0 + secs cadence" and "t + secs cadence \<le> max_time"
  shows "\<exists>s s'. from_release env m d max_ops t0 hook (Some sk) = Inr s \<and>
    apply_renewal env m rd t ev2 s w = (Inr (), s', w) \<and> ses_key s' = ses_key s \<and>
    ses_deadline s' = (case dec_evidence_not_after d2 of None \<Rightarrow> t + secs cadence | Some b \<Rightarrow> min (t + secs cadence) b)"
proof -
  obtain s where s: "from_release env m d max_ops t0 hook (Some sk) = Inr s" "ses_state s = holding" "ses_cadence s = cadence"
    "ses_deadline s = t0 + secs cadence" "ses_used_renewals s = {}" "ses_tts s = rp_trusted_time_source (m_release_policy m)"
    "ses_weights_hash s = Some (m_weights_hash m)" "manifest_identity env m = Inr (the (ses_manifest_hash s))"
    "ses_manifest_hash s \<noteq> None" "ses_renewal_public_key s = Some (renewal_public_key env (kb_renewal_signing_key k))"
    using release_opens [OF assms(1-10), of hook] by blast
  then obtain mh where mh: "ses_manifest_hash s = Some mh" "manifest_identity env m = Inr mh" by auto
  obtain expires where
    x: "expires = (case dec_evidence_not_after d2 of None \<Rightarrow> io_issued io2 + secs (kb_renewal_ttl k2)
                | Some b \<Rightarrow> min (io_issued io2 + secs (kb_renewal_ttl k2)) b)"
    and sg: "sign_renewal_decision env (kb_renewal_signing_key k2) (dec_released d2) m ev2 (iso_Z env (io_issued io2)) (iso_Z env expires)
       (map check_asdict (dec_checks d2)) (map_option (iso_Z env) (dec_evidence_not_after d2)) = Inr rd"
    using verify_for_renewal_signed [OF assms(11)] assms(13) by (metis Pair_inject sum.inject(2))
  have released: "dec_released d2" using sign_renewal_fields(8) [OF sg] assms(12) by simp
  have times: "io_issued io2 < expires" "t \<le> expires" "iso_ok env expires"
    using assms(18-20,22) x by (auto simp: secs_def min_def split: option.splits)
  have "\<exists>s'. apply_renewal env m rd t ev2 s w = (Inr (), s', w) \<and> ses_key s' = ses_key s \<and>
    ses_deadline s' = (case dec_evidence_not_after d2 of None \<Rightarrow> t + secs (ses_cadence s) | Some b \<Rightarrow> min (t + secs (ses_cadence s)) b)"
    using s mh assms(8,18,21,23,24) times sg released assms(14-17) released_checks_complete [OF assms(13) released]
    by (intro signed_renewal_applies [where mh = mh and sk = "kb_renewal_signing_key k" and issued = "io_issued io2"
          and expires = expires and cs = "map check_asdict (dec_checks d2)"]) simp_all
  with s(1,3) show ?thesis by auto
qed

subsection \<open>One run\<close>

lemma demo_kbs_fields:
  "kb_cpu_quote_verifier demo_kbs = Some (snp_verifier demo_kbs_env demo_pki 3 [] [7])" "kb_require_channel_binding demo_kbs"
  "kb_keystore demo_kbs = [(demo_hash 0, [7, 7])]" "kb_renewal_signing_key demo_kbs = [5]" "kb_renewal_ttl demo_kbs = 60"
  by (simp_all add: demo_kbs_def issue_challenge_def demo_config_def demo_verifier_def snp_verifier_def split: prod.split)

lemma demo_kbs_laws:
  "dh_correct demo_kbs_env" "aead_correct demo_kbs_env" "ed_correct demo_kbs_env" "length (io_seal_nonce demo_io) = 12"
  "cq_transport_public_key (ev_cpu demo_request) = Some (hex_of_bytes (x_public demo_kbs_env [1]))"
  "parse_cadence demo_kbs_env (cu_attestation_cadence (m_custody demo_gated)) = Inr 86400"
  "0 \<le> t \<Longrightarrow> iso_ok demo_kbs_env t"
proof -
  show "parse_cadence demo_kbs_env (cu_attestation_cadence (m_custody demo_gated)) = Inr 86400"
    by (simp add: demo_gated_def demo_manifest_def parse_cadence_def us_def re_space_def CADENCE_UNITS_def digits_value_def)
qed (simp_all add: dh_correct_def aead_correct_def ed_correct_def demo_io_def demo_request_def iso_ok_def, simp add: us_def)

theorem snp_release_is_bound_witness:
  "\<exists>report r. trusted_path demo_pki [7] 1 0 [3] \<and> parse_snp_report report = Inr r \<and>
     take 32 (sr_report_data r) = sha256 demo_kbs_env ([0] @ replicate 32 0)"
proof -
  obtain d k' where d: "verify_and_release demo_kbs_env demo_ocsp demo_io demo_gated demo_request False demo_kbs = (Inr d, k')"
    "dec_released d" using demo_release by blast
  have n: "bytes_fromhex (cq_nonce_echo (ev_cpu demo_request)) = Some [0]"
    by (simp add: demo_request_def us_def hex_val_def ascii_space_def)
  have "io_cpu demo_io = 1" by (simp add: demo_io_def)
  with snp_release_is_bound [OF d demo_kbs_fields(1,2)] n demo_kbs_laws(5) show ?thesis by (auto simp: bytes_fromhex_hex)
qed

theorem sealed_release_starts_custody_witness:
  "\<exists>d k' (s :: unit session). verify_and_release demo_kbs_env demo_ocsp demo_io demo_gated demo_request False demo_kbs = (Inr d, k') \<and>
     from_release demo_kbs_env demo_gated d None 3 None (Some [1]) = Inr s \<and> ses_key s = [7, 7] \<and>
     ses_deadline s = 3 + secs 86400"
proof -
  obtain d k' where d: "verify_and_release demo_kbs_env demo_ocsp demo_io demo_gated demo_request False demo_kbs = (Inr d, k')"
    "dec_released d" using demo_release by blast
  have "m_weights_hash demo_gated = demo_hash 0" by (simp add: demo_gated_def demo_manifest_def)
  with sealed_release_starts_custody [OF d demo_kbs_fields(2) demo_kbs_laws(1,2,4-6), of 3 None "None :: unit hook option"] d
  show ?thesis by (auto simp: demo_kbs_fields(3) max_time_def secs_def)
qed

theorem broker_renewal_extends_custody_witness:
  "\<exists>d (rd :: renewal_decision) k' (s :: unit session) s'.
     from_release demo_kbs_env demo_gated d None 1 None (Some [1]) = Inr s \<and>
     verify_for_renewal demo_kbs_env demo_ocsp demo_io demo_gated demo_request demo_kbs = (Inr rd, k') \<and>
     apply_renewal demo_kbs_env demo_gated rd 7 demo_request s () = (Inr (), s', ()) \<and> ses_deadline s' = 7 + secs 86400"
proof -
  obtain d k' where d: "verify_and_release demo_kbs_env demo_ocsp demo_io demo_gated demo_request False demo_kbs = (Inr d, k')"
    "dec_released d" using demo_release by blast
  obtain rd k3 where rd: "verify_for_renewal demo_kbs_env demo_ocsp demo_io demo_gated demo_request demo_kbs = (Inr rd, k3)"
    "rd_renewed rd" using demo_renew by blast
  obtain d2 where d2: "verify_and_release demo_kbs_env demo_ocsp demo_io demo_gated demo_request True demo_kbs = (Inr d2, k3)"
    using verify_for_renewal_signed [OF rd(1)] by metis
  then have na: "dec_evidence_not_after d2 = None" using demo_release [of True] by auto
  have "io_issued demo_io = 2" by (simp add: demo_io_def)
  with broker_renewal_extends_custody [OF d demo_kbs_fields(2) demo_kbs_laws(1,2,4-6) _ _ rd d2, of 1 None 7 "None :: unit hook option" "()"]
    rd na demo_kbs_laws(3,7)
  show ?thesis by (auto simp: demo_kbs_fields(4,5) max_time_def secs_def)
qed

end
