(* ===== verification/Interpolation.thy ===== *)
theory Interpolation
  imports Prelude
begin

section \<open>Polynomials over a field, by their values\<close>

text \<open>
  The algebra behind secret sharing, for any field: a polynomial function with as many roots as
  coefficients vanishes, so two of them that agree on enough points are equal, and the value at
  zero is the Lagrange combination of the values at distinct points.
\<close>

subsection \<open>Polynomial functions\<close>

text \<open>Functions given by \<open>n\<close> coefficients, lowest first.\<close>

definition is_poly :: "nat \<Rightarrow> ('a :: field \<Rightarrow> 'a) \<Rightarrow> bool" where
  "is_poly n f \<longleftrightarrow> (\<exists>c. \<forall>x. f x = (\<Sum>i<n. c i * x ^ i))"

lemma is_poly_add: "is_poly n f \<Longrightarrow> is_poly n g \<Longrightarrow> is_poly n (\<lambda>x. f x + g x)"
proof -
  assume "is_poly n f" "is_poly n g"
  then obtain c d where "\<forall>x. f x = (\<Sum>i<n. c i * x ^ i)" "\<forall>x. g x = (\<Sum>i<n. d i * x ^ i)"
    by (auto simp: is_poly_def)
  then have "\<forall>x. f x + g x = (\<Sum>i<n. (c i + d i) * x ^ i)" by (simp add: sum.distrib distrib_right)
  then show ?thesis by (force simp: is_poly_def)
qed

lemma is_poly_scale: "is_poly n f \<Longrightarrow> is_poly n (\<lambda>x. k * f x)"
proof -
  assume "is_poly n f"
  then obtain c where "\<forall>x. f x = (\<Sum>i<n. c i * x ^ i)" by (auto simp: is_poly_def)
  then have "\<forall>x. k * f x = (\<Sum>i<n. (k * c i) * x ^ i)" by (simp add: sum_distrib_left mult.assoc)
  then show ?thesis by (force simp: is_poly_def)
qed

lemma is_poly_zero: "is_poly n (\<lambda>x. 0)"
  unfolding is_poly_def by (intro exI [of _ "\<lambda>_. 0"]) simp

lemma is_poly_const: "0 < n \<Longrightarrow> is_poly n (\<lambda>x. k)"
  unfolding is_poly_def
  by (intro exI [of _ "\<lambda>i. if i = 0 then k else 0"]) (simp add: if_distrib [of "\<lambda>a. a * _"] sum.delta cong: if_cong)

lemma is_poly_sum: "finite S \<Longrightarrow> (\<And>s. s \<in> S \<Longrightarrow> is_poly n (f s)) \<Longrightarrow> is_poly n (\<lambda>x. \<Sum>s\<in>S. f s x)"
  by (induction S rule: finite_induct) (simp_all add: is_poly_zero is_poly_add)

lemma is_poly_diff: "is_poly n f \<Longrightarrow> is_poly n g \<Longrightarrow> is_poly n (\<lambda>x. f x - g x)"
  using is_poly_add [of n f "\<lambda>x. - 1 * g x"] is_poly_scale [of n g "- 1"] by simp

lemma is_poly_shift: "is_poly n f \<Longrightarrow> is_poly (Suc n) (\<lambda>x. x * f x)"
proof -
  assume "is_poly n f"
  then obtain c where c: "\<forall>x. f x = (\<Sum>i<n. c i * x ^ i)" by (auto simp: is_poly_def)
  have "x * f x = (\<Sum>i<Suc n. (case i of 0 \<Rightarrow> 0 | Suc j \<Rightarrow> c j) * x ^ i)" for x
    by (simp only: sum.lessThan_Suc_shift) (simp add: c sum_distrib_left mult_ac)
  then show ?thesis by (force simp: is_poly_def)
qed

lemma is_poly_mono: "is_poly n f \<Longrightarrow> is_poly (Suc n) f"
proof -
  assume "is_poly n f"
  then obtain c where "\<forall>x. f x = (\<Sum>i<n. c i * x ^ i)" by (auto simp: is_poly_def)
  then have "\<forall>x. f x = (\<Sum>i<Suc n. (c(n := 0)) i * x ^ i)" by simp
  then show ?thesis unfolding is_poly_def by blast
qed

lemma is_poly_le: "m \<le> n \<Longrightarrow> is_poly m f \<Longrightarrow> is_poly n f"
  by (induction n rule: dec_induct) (simp_all add: is_poly_mono)

lemma is_poly_factor: "is_poly n f \<Longrightarrow> is_poly (Suc n) (\<lambda>x. (x - a) * f x)"
  using is_poly_diff [OF is_poly_shift [of n f] is_poly_mono [OF is_poly_scale [of n f a]]]
  by (simp add: left_diff_distrib)

lemma is_poly_prod: "finite S \<Longrightarrow> is_poly (Suc (card S)) (\<lambda>x. \<Prod>j\<in>S. x - j)"
proof (induction S rule: finite_induct)
  case empty
  show ?case using is_poly_const [of 1 1] by simp
next
  case (insert a S)
  then show ?case using is_poly_factor [of "Suc (card S)" _ a] by simp
qed

subsection \<open>Roots\<close>

text \<open>Dividing out a root.\<close>

lemma is_poly_root:
  assumes "is_poly (Suc n) f" and "f a = 0"
  shows "\<exists>g. is_poly n g \<and> (\<forall>x. f x = (x - a) * g x)"
proof -
  obtain c where c: "\<And>x. f x = (\<Sum>i<Suc n. c i * x ^ i)" using assms(1) by (auto simp: is_poly_def)
  have pow: "\<exists>h. is_poly i h \<and> (\<forall>x. x ^ i - a ^ i = (x - a) * h x)" for i
  proof (induction i)
    case 0
    then show ?case using is_poly_zero [of 0] by force
  next
    case (Suc i)
    then obtain h where h: "is_poly i h" "\<forall>x. x ^ i - a ^ i = (x - a) * h x" by blast
    have "x ^ Suc i - a ^ Suc i = (x - a) * (x * h x + a ^ i)" for x
    proof -
      have "x ^ Suc i - a ^ Suc i = x * (x ^ i - a ^ i) + (x - a) * a ^ i" by (simp add: algebra_simps)
      also have "\<dots> = x * ((x - a) * h x) + (x - a) * a ^ i" by (simp only: h(2))
      finally show ?thesis by (simp only: distrib_left mult.left_commute)
    qed
    moreover have "is_poly (Suc i) (\<lambda>x. x * h x + a ^ i)"
      by (intro is_poly_add is_poly_shift h is_poly_const) simp
    ultimately show ?case by blast
  qed
  then obtain h where h: "\<And>i. is_poly i (h i)" "\<And>i x. x ^ i - a ^ i = (x - a) * h i x" by metis
  have "f x = (x - a) * (\<Sum>i<Suc n. c i * h i x)" for x
  proof -
    have "f x = f x - f a" using assms(2) by simp
    also have "\<dots> = (\<Sum>i<Suc n. c i * (x ^ i - a ^ i))"
      unfolding c by (simp add: sum_subtractf right_diff_distrib)
    finally show ?thesis by (simp only: h(2) sum_distrib_left mult.left_commute)
  qed
  moreover have "is_poly n (\<lambda>x. \<Sum>i<Suc n. c i * h i x)"
    by (intro is_poly_sum is_poly_scale is_poly_le [OF _ h(1)]) auto
  ultimately show ?thesis by blast
qed

lemma is_poly_zeros:
  "is_poly n f \<Longrightarrow> finite S \<Longrightarrow> n \<le> card S \<Longrightarrow> (\<And>x. x \<in> S \<Longrightarrow> f x = 0) \<Longrightarrow> f y = 0"
proof (induction n arbitrary: f S y)
  case 0
  then show ?case by (auto simp: is_poly_def)
next
  case (Suc n)
  then obtain a where a: "a \<in> S" by fastforce
  obtain g where g: "is_poly n g" "\<And>x. f x = (x - a) * g x"
    using is_poly_root [OF Suc.prems(1), of a] Suc.prems(4) [OF a] by metis
  have "g x = 0" if "x \<in> S - {a}" for x using Suc.prems(4) [of x] that g(2) [of x] by simp
  then have "g y = 0" using Suc.IH [OF g(1), of "S - {a}" y] Suc.prems(2,3) a by (simp add: card_Diff_singleton)
  then show ?case by (simp add: g(2))
qed

lemma is_poly_eq:
  assumes "is_poly n f" "is_poly n g" "finite S" "n \<le> card S" "\<And>x. x \<in> S \<Longrightarrow> f x = g x"
  shows "f y = g y"
  using is_poly_zeros [OF is_poly_diff [OF assms(1,2)] assms(3,4), of y] assms(5) by simp

subsection \<open>Lagrange's formula at zero\<close>

lemma lagrange_at_zero:
  assumes "is_poly n f" and "finite S" and "n \<le> card S"
  shows "(\<Sum>i\<in>S. f i * ((\<Prod>j\<in>S - {i}. - j) / (\<Prod>j\<in>S - {i}. i - j))) = f 0"
proof -
  let ?L = "\<lambda>x. \<Sum>i\<in>S. (f i / (\<Prod>j\<in>S - {i}. i - j)) * (\<Prod>j\<in>S - {i}. x - j)"
  have "is_poly (card S) (\<lambda>x. \<Prod>j\<in>S - {i}. x - j)" if "i \<in> S" for i
  proof -
    have "Suc (card (S - {i})) = card S" using assms(2) that by (rule card_Suc_Diff1)
    with is_poly_prod [of "S - {i}"] assms(2) show ?thesis by simp
  qed
  then have L: "is_poly (card S) ?L" by (intro is_poly_sum is_poly_scale assms(2))
  note f = is_poly_le [OF assms(3,1)]
  have "?L x = f x" if x: "x \<in> S" for x
  proof -
    have "(f i / (\<Prod>j\<in>S - {i}. i - j)) * (\<Prod>j\<in>S - {i}. x - j) = (if i = x then f x else 0)" for i
    proof (cases "i = x")
      case True
      have "(\<Prod>j\<in>S - {x}. x - j) \<noteq> 0" using assms(2) by (auto simp: prod_zero_iff)
      with True show ?thesis by simp
    next
      case False
      then have "(\<Prod>j\<in>S - {i}. x - j) = 0" using assms(2) x by (intro prod_zero) auto
      with False show ?thesis by simp
    qed
    then have "?L x = (\<Sum>i\<in>S. if i = x then f x else 0)" by (simp only:)
    also have "\<dots> = f x" using x assms(2) by simp
    finally show ?thesis .
  qed
  then have "?L 0 = f 0" by (rule is_poly_eq [OF L f assms(2) order.refl])
  moreover have "?L 0 = (\<Sum>i\<in>S. f i * ((\<Prod>j\<in>S - {i}. - j) / (\<Prod>j\<in>S - {i}. i - j)))"
    unfolding diff_0 times_divide_eq_left times_divide_eq_right ..
  ultimately show ?thesis by (simp only:)
qed

end
