(* ===== verification/Gf256.thy ===== *)
theory Gf256
  imports Interpolation
begin

section \<open>The field of the sharing scheme (\<open>threshold.py\<close>)\<close>

text \<open>
  GF(256) as \<open>threshold.py\<close> computes in it: the logarithm tables as the module fills them, and
  multiplication and division through the tables. The loop is shown to enumerate every nonzero
  byte exactly once, multiplication to be bilinear over exclusive or, and the table arithmetic
  to be a field: the type \<open>gf\<close> of bytes is an instance of class \<open>field\<close>.
\<close>

subsection \<open>The tables\<close>

definition xtime :: "byte \<Rightarrow> byte" where
  "xtime a =
     (let a1 = push_bit 1 (unat a);
          a2 = (if a1 AND 0x100 \<noteq> 0 then a1 XOR 0x11B else a1)
      in of_nat (a2 AND 0xFF))"

text \<open>\<open>_init_tables\<close>: the loop over the powers of the generator, then the copy of the exponentials.\<close>

definition table_step :: "nat \<Rightarrow> byte list \<times> nat list \<times> byte \<Rightarrow> byte list \<times> nat list \<times> byte" where
  "table_step i = (\<lambda>(ex, lg, x). (ex[i := x], lg[unat x := i], x XOR xtime x))"

definition init_tables :: "byte list \<times> nat list" where
  "init_tables =
     (let (ex, lg, x) = fold table_step [0..<255] (replicate 512 0, replicate 256 0, 1)
      in (fold (\<lambda>i ex. ex[i := ex ! (i - 255)]) [255..<512] ex, lg))"

definition GF_EXP :: "byte list" where
  "GF_EXP = fst init_tables"

definition GF_LOG :: "nat list" where
  "GF_LOG = snd init_tables"

definition gf_mul :: "byte \<Rightarrow> byte \<Rightarrow> byte" where
  "gf_mul a b = (if a = 0 \<or> b = 0 then 0 else GF_EXP ! (GF_LOG ! unat a + GF_LOG ! unat b))"

definition gf_div :: "byte \<Rightarrow> byte \<Rightarrow> byte result" where
  "gf_div a b =
     (if b = 0 then Inl ZeroDivisionError
      else if a = 0 then Inr 0
      else Inr (GF_EXP ! nat ((int (GF_LOG ! unat a) - int (GF_LOG ! unat b)) mod 255)))"

subsection \<open>Powers of the generator\<close>

text \<open>Multiplication by the generator \<open>0x03\<close> and its powers.\<close>

definition gen :: "byte \<Rightarrow> byte" where
  "gen x = x XOR xtime x"

definition pw :: "nat \<Rightarrow> byte" where
  "pw n = (gen ^^ n) 1"

lemma xtime_word: "xtime a = push_bit 1 a XOR (if bit a 7 then 0x1B else 0)"
proof -
  have ff: "n AND 0xFF = take_bit 8 n" for n :: nat by (simp add: take_bit_eq_mask mask_eq_exp_minus_1)
  have "(push_bit 1 (unat a) AND 2 ^ 8 = 0) = (\<not> bit a 7)"
    unfolding and_exp_eq_0_iff_not_bit bit_push_bit_iff by (simp add: bit_unsigned_iff)
  then have c: "(push_bit 1 (unat a) AND 0x100 = 0) = (\<not> bit a 7)" by (simp del: push_bit_Suc)
  have x: "bit (0x11B :: nat) n \<longleftrightarrow> n = 8 \<or> bit (0x1B :: byte) n" if "n < 9" for n
  proof -
    have "n \<in> {0, 1, 2, 3, 4, 5, 6, 7, 8}" using that by auto
    then show ?thesis by (elim insertE emptyE) (simp_all add: bit_0)
  qed
  show ?thesis
    unfolding xtime_def Let_def ff c
    by (rule bit_word_eqI) (auto simp: bit_simps x simp del: push_bit_Suc)
qed

lemma xtime_xor: "xtime (a XOR b) = xtime a XOR xtime b"
  by (rule bit_word_eqI) (auto simp: xtime_word bit_simps)

lemma gen_xor: "gen (a XOR b) = gen a XOR gen b"
  by (simp add: gen_def xtime_xor ac_simps)

lemma gen_zero [simp]: "gen 0 = 0"
  by (simp add: gen_def xtime_word)

text \<open>The same step on integers, which evaluates.\<close>

definition gint :: "int \<Rightarrow> int" where
  "gint n = n XOR ((if 128 \<le> n then 2 * n XOR 0x11B else 2 * n) AND 0xFF)"

fun orbit :: "nat \<Rightarrow> int \<Rightarrow> int list" where
  "orbit 0 x = []"
| "orbit (Suc n) x = x # orbit n (gint x)"

lemma uint_gen: "uint (gen x) = gint (uint x)"
proof -
  have ff: "n AND 0xFF = take_bit 8 n" for n :: int by (simp add: take_bit_eq_mask mask_eq_exp_minus_1)
  have "bit (uint x) 7 \<longleftrightarrow> 128 \<le> uint x"
  proof -
    have "0 \<le> uint x" "uint x < 256" using uint_lt2p [of x] by simp_all
    then have "uint x div 128 = of_bool (128 \<le> uint x)"
      by (cases "128 \<le> uint x") (simp_all add: div_pos_geq)
    then show ?thesis by (simp add: bit_iff_odd)
  qed
  then have b: "bit x 7 \<longleftrightarrow> 128 \<le> uint x" by (simp add: bit_unsigned_iff)
  have "take_bit 8 (uint x * 2) = uint x * 2" if "\<not> 128 \<le> uint x"
    using that by (intro take_bit_int_eq_self) simp_all
  then show ?thesis
    by (simp add: gen_def xtime_word gint_def ff b unsigned_xor_eq uint_word_ariths)
      (simp add: take_bit_eq_mod mult.commute)
qed

lemma orbit_eval: "1 \<notin> set (orbit 254 3)" "last (orbit 255 3) = 1"
  by (simp_all add: gint_def numeral_eq_Suc)

lemma orbit_nth: "i < n \<Longrightarrow> orbit n x ! i = (gint ^^ i) x"
  by (induction n x arbitrary: i rule: orbit.induct) (auto simp: nth_Cons funpow_swap1 split: nat.split)

lemma length_orbit [simp]: "length (orbit n x) = n"
  by (induction n x rule: orbit.induct) simp_all

lemma uint_pw: "uint (pw n) = (gint ^^ n) 1"
  by (induction n) (simp_all add: pw_def uint_gen)

lemma pw_Suc: "pw (Suc n) = gen (pw n)"
  by (simp add: pw_def)

lemma gen_power_zero [simp]: "(gen ^^ n) 0 = 0"
  by (induction n) simp_all

lemma pw_add: "pw (m + n) = (gen ^^ m) (pw n)"
  by (simp add: pw_def funpow_add)

lemma pw_period: "pw 255 = 1"
proof -
  have "gint 1 = 3" by (simp add: gint_def)
  moreover have "orbit 255 3 \<noteq> []" using length_orbit [of 255 3] by force
  ultimately have "(gint ^^ 254) (gint 1) = 1"
    using orbit_eval(2) orbit_nth [of 254 255 3] by (simp add: last_conv_nth del: orbit.simps)
  moreover have "uint (pw 255) = (gint ^^ 254) (gint 1)"
  proof -
    have "(gint ^^ Suc 254) 1 = (gint ^^ 254) (gint 1)" unfolding funpow_Suc_right o_apply ..
    then show ?thesis by (simp add: uint_pw)
  qed
  ultimately show ?thesis by (simp add: word_uint_eq_iff)
qed

lemma pw_not_one: "0 < d \<Longrightarrow> d < 255 \<Longrightarrow> pw d \<noteq> 1"
proof
  assume d: "0 < d" "d < 255" "pw d = 1"
  then obtain i where i: "d = Suc i" "i < 254" by (cases d) auto
  have "gint 1 = 3" by (simp add: gint_def)
  then have "(gint ^^ d) 1 = orbit 254 3 ! i" using i by (simp add: orbit_nth funpow_swap1)
  with d(3) have "orbit 254 3 ! i = 1" using uint_pw [of d] by simp
  with i(2) orbit_eval(1) show False by (metis length_orbit nth_mem)
qed

lemma pw_inj: "inj_on pw {..<255}"
proof -
  have False if "i < j" "j < 255" "pw i = pw j" for i j
  proof -
    have "pw (j - i) = pw (j - i + 255)" by (simp add: pw_add pw_period) (simp add: pw_def)
    also have "\<dots> = pw ((255 - i) + j)" using that by (simp add: algebra_simps)
    also have "\<dots> = pw ((255 - i) + i)" by (simp only: pw_add that(3))
    also have "\<dots> = 1" using that pw_period by simp
    finally show False using pw_not_one [of "j - i"] that by simp
  qed
  then show ?thesis by (auto simp: inj_on_def) (metis linorder_neqE_nat)
qed

lemma pw_range: "pw ` {..<255} = - {0}"
proof (rule card_subset_eq)
  have "pw n \<noteq> 0" if "n < 255" for n
  proof
    assume "pw n = 0"
    then have "pw (255 - n + n) = 0" by (simp only: pw_add gen_power_zero)
    with that pw_period show False by simp
  qed
  then show "pw ` {..<255} \<subseteq> - {0}" by auto
  show "card (pw ` {..<255}) = card (- {0 :: byte})"
    by (simp add: card_image [OF pw_inj] Compl_eq_Diff_UNIV card_Diff_singleton card_word)
qed simp

subsection \<open>The tables hold the powers\<close>

lemma table_step_apply: "table_step i (ex, lg, x) = (ex[i := x], lg[unat x := i], gen x)"
  by (simp add: table_step_def gen_def)

lemma table_loop:
  "n \<le> 255 \<Longrightarrow> fold table_step [0..<n] (replicate 512 0, replicate 256 0, 1) = (ex, lg, x) \<Longrightarrow>
   length ex = 512 \<and> length lg = 256 \<and> x = pw n \<and> (\<forall>i<n. ex ! i = pw i \<and> lg ! unat (pw i) = i)"
proof (induction n arbitrary: ex lg x)
  case 0
  then show ?case by (auto simp: pw_def)
next
  case (Suc n)
  obtain ex0 lg0 x0 where s: "fold table_step [0..<n] (replicate 512 0, replicate 256 0, 1) = (ex0, lg0, x0)"
    by (metis prod_cases3)
  have IH: "length ex0 = 512" "length lg0 = 256" "x0 = pw n" "\<And>i. i < n \<Longrightarrow> ex0 ! i = pw i \<and> lg0 ! unat (pw i) = i"
    using Suc.IH [OF _ s] Suc.prems(1) by auto
  have e: "ex = ex0[n := pw n]" "lg = lg0[unat (pw n) := n]" "x = pw (Suc n)"
    using Suc.prems(2) s IH(3) by (simp_all add: table_step_apply pw_Suc)
  have u: "unat (pw i) < 256" for i using unsigned_less [of "pw i"] by simp
  have "unat (pw n) \<noteq> unat (pw i)" if "i < n" for i
    using inj_onD [OF pw_inj, of n i] that Suc.prems(1) by (auto simp: word_unat_eq_iff [symmetric])
  with e IH u Suc.prems(1) show ?case by (auto simp: less_Suc_eq nth_list_update)
qed

lemma copy_loop:
  "255 \<le> n \<Longrightarrow> n \<le> 512 \<Longrightarrow> length ex = 512 \<Longrightarrow> (\<And>i. i < 255 \<Longrightarrow> ex ! i = pw i) \<Longrightarrow>
   length (fold (\<lambda>i ex. ex[i := ex ! (i - 255)]) [255..<n] ex) = 512 \<and>
   (\<forall>i<n. fold (\<lambda>i ex. ex[i := ex ! (i - 255)]) [255..<n] ex ! i = pw i)"
proof (induction n rule: dec_induct)
  case base
  then show ?case by simp
next
  case (step n)
  have "pw n = pw (n - 255 + 255)" using step.hyps by simp
  also have "\<dots> = pw (n - 255)" by (simp only: pw_add pw_period) (simp add: pw_def)
  finally have "pw n = pw (n - 255)" .
  with step show ?case by (auto simp: less_Suc_eq nth_list_update)
qed

lemma tables:
  "length GF_EXP = 512" "length GF_LOG = 256" "i < 512 \<Longrightarrow> GF_EXP ! i = pw i" "i < 255 \<Longrightarrow> GF_LOG ! unat (pw i) = i"
proof -
  obtain ex lg x where f: "fold table_step [0..<255] (replicate 512 0, replicate 256 0, 1) = (ex, lg, x)"
    by (metis prod_cases3)
  note t = table_loop [OF order.refl f]
  have c: "GF_EXP = fold (\<lambda>i ex. ex[i := ex ! (i - 255)]) [255..<512] ex" "GF_LOG = lg"
    by (simp_all only: GF_EXP_def GF_LOG_def init_tables_def f Let_def case_prod_conv fst_conv snd_conv)
  have "length GF_EXP = 512 \<and> (\<forall>i<512. GF_EXP ! i = pw i)"
    unfolding c by (rule copy_loop) (use t in auto)
  then show "length GF_EXP = 512" "i < 512 \<Longrightarrow> GF_EXP ! i = pw i" by blast+
  show "length GF_LOG = 256" "i < 255 \<Longrightarrow> GF_LOG ! unat (pw i) = i"
    unfolding c using t by auto
qed

lemma log_exists: "a \<noteq> 0 \<Longrightarrow> \<exists>i<255. a = pw i \<and> GF_LOG ! unat a = i"
proof -
  assume "a \<noteq> 0"
  then have "a \<in> pw ` {..<255}" unfolding pw_range by simp
  then obtain i where "i < 255" "a = pw i" by auto
  then show ?thesis using tables(4) [of i] by auto
qed

lemma pw_mod: "pw (n mod 255) = pw n"
proof (induction n rule: less_induct)
  case (less n)
  show ?case
  proof (cases "n < 255")
    case False
    have "pw n = pw (n - 255 + 255)" using False by simp
    also have "\<dots> = pw (n - 255)" by (simp only: pw_add pw_period) (simp add: pw_def)
    finally show ?thesis using less [of "n - 255"] False by (simp add: mod_if [of n])
  qed simp
qed

subsection \<open>The field\<close>

text \<open>Multiplication by \<open>pw i\<close> is \<open>i\<close> steps of the generator, hence linear.\<close>

lemma pw_mult: "gf_mul (pw i) (pw j) = pw (i + j)"
proof -
  have nz: "pw n \<noteq> 0" for n using pw_range pw_mod [of n] by (metis ComplD imageI insertI1 lessThan_iff mod_less_divisor zero_less_numeral)
  obtain i' j' where i: "i' < 255" "pw i = pw i'" "GF_LOG ! unat (pw i) = i'"
    and j: "j' < 255" "pw j = pw j'" "GF_LOG ! unat (pw j) = j'" using log_exists nz by metis
  have "gf_mul (pw i) (pw j) = pw (i' + j')" using nz i j tables(3) [of "i' + j'"] by (simp add: gf_mul_def)
  also have "\<dots> = (gen ^^ i') (pw j)" by (simp add: pw_add j(2))
  also have "\<dots> = pw (j + i')" by (simp only: pw_add [symmetric] add.commute)
  also have "\<dots> = pw (j + i)" by (simp only: pw_add i(2))
  finally show ?thesis by (simp add: add.commute)
qed

lemma gf_mul_zero [simp]: "gf_mul 0 b = 0" "gf_mul a 0 = 0"
  by (simp_all add: gf_mul_def)

lemma gen_power_xor: "(gen ^^ n) (a XOR b) = (gen ^^ n) a XOR (gen ^^ n) b"
  by (induction n) (simp_all add: gen_xor)

lemma gf_mul_gen: "gf_mul a (pw j) = (gen ^^ j) a"
proof (cases "a = 0")
  case False
  then obtain i where "a = pw i" using log_exists by blast
  then show ?thesis by (simp add: pw_mult pw_add [symmetric] add.commute)
qed simp

lemma gf_mul_commute: "gf_mul a b = gf_mul b a"
  by (simp add: gf_mul_def add.commute)

lemma gf_mul_xor: "gf_mul (a XOR b) c = gf_mul a c XOR gf_mul b c"
proof (cases "c = 0")
  case False
  then obtain j where "c = pw j" using log_exists by blast
  then show ?thesis by (simp add: gf_mul_gen gen_power_xor)
qed simp

lemma gf_mul_assoc: "gf_mul (gf_mul a b) c = gf_mul a (gf_mul b c)"
proof (cases "a = 0 \<or> b = 0 \<or> c = 0")
  case False
  then obtain i j k where "a = pw i" "b = pw j" "c = pw k" using log_exists by meson
  then show ?thesis by (simp add: pw_mult add.assoc)
qed auto

lemma gf_mul_one: "gf_mul 1 a = a"
  using gf_mul_gen [of a 0] by (simp add: pw_def gf_mul_commute)

definition gf_inv :: "byte \<Rightarrow> byte" where
  "gf_inv a = (if a = 0 then 0 else pw (255 - GF_LOG ! unat a))"

lemma gf_inv: "a \<noteq> 0 \<Longrightarrow> gf_mul (gf_inv a) a = 1"
proof -
  assume "a \<noteq> 0"
  then obtain i where i: "i < 255" "a = pw i" "GF_LOG ! unat a = i" using log_exists by blast
  then show ?thesis using \<open>a \<noteq> 0\<close> by (simp add: gf_inv_def pw_mult pw_period)
qed

lemma gf_div_eq: "gf_div a b = (if b = 0 then Inl ZeroDivisionError else Inr (gf_mul a (gf_inv b)))"
proof (cases "a = 0 \<or> b = 0")
  case False
  then obtain i j where i: "i < 255" "a = pw i" "GF_LOG ! unat a = i" and j: "j < 255" "b = pw j" "GF_LOG ! unat b = j"
    using log_exists [of a] log_exists [of b] by blast
  have "(int i - int j) mod 255 = int ((i + (255 - j)) mod 255)"
  proof -
    have "int (i + (255 - j)) = (int i - int j) + 255" using j(1) by simp
    then show ?thesis by (simp only: zmod_int of_nat_numeral mod_add_self2)
  qed
  then have "GF_EXP ! nat ((int i - int j) mod 255) = pw ((i + (255 - j)) mod 255)"
    using tables(3) [of "(i + (255 - j)) mod 255"] by (simp add: less_trans [OF mod_less_divisor])
  with False i j show ?thesis by (simp add: gf_div_def gf_inv_def pw_mod) (simp add: pw_mult)
qed (auto simp: gf_div_def gf_inv_def)

typedef gf = "UNIV :: byte set" morphisms of_gf to_gf ..

setup_lifting type_definition_gf

instantiation gf :: field
begin
lift_definition zero_gf :: gf is 0 .
lift_definition one_gf :: gf is 1 .
lift_definition plus_gf :: "gf \<Rightarrow> gf \<Rightarrow> gf" is "(XOR)" .
lift_definition minus_gf :: "gf \<Rightarrow> gf \<Rightarrow> gf" is "(XOR)" .
lift_definition uminus_gf :: "gf \<Rightarrow> gf" is "\<lambda>a. a" .
lift_definition times_gf :: "gf \<Rightarrow> gf \<Rightarrow> gf" is gf_mul .
lift_definition inverse_gf :: "gf \<Rightarrow> gf" is gf_inv .
lift_definition divide_gf :: "gf \<Rightarrow> gf \<Rightarrow> gf" is "\<lambda>a b. gf_mul a (gf_inv b)" .
instance
proof
  fix a b c :: gf
  show "a + b + c = a + (b + c)" by transfer (rule xor.assoc)
  show "a + b = b + a" by transfer (rule xor.commute)
  show "0 + a = a" by transfer simp
  show "- a + a = 0" by transfer simp
  show "a - b = a + - b" by transfer simp
  show "a * b * c = a * (b * c)" by transfer (rule gf_mul_assoc)
  show "a * b = b * a" by transfer (rule gf_mul_commute)
  show "1 * a = a" by transfer (rule gf_mul_one)
  show "(a + b) * c = a * c + b * c" by transfer (rule gf_mul_xor)
  show "(0 :: gf) \<noteq> 1" by transfer simp
  show "a \<noteq> 0 \<Longrightarrow> inverse a * a = 1" by transfer (rule gf_inv)
  show "a div b = a * inverse b" by transfer simp
  show "inverse (0 :: gf) = 0" by transfer (simp add: gf_inv_def)
qed
end

end
