(* ===== verification/Threshold.thy ===== *)
theory Threshold
  imports Gf256
begin

section \<open>Threshold split-key release (\<open>threshold.py\<close>)\<close>

text \<open>
  Shamir's scheme over GF(256), byte by byte: \<open>split_secret\<close> and \<open>combine_shares\<close>. The
  random source is a function of the number of the call and the length asked for. The main
  results: any list of distinct shares that is at least as long as the threshold recovers the
  secret, and fewer shares fit every secret of the same length equally often.
\<close>

subsection \<open>Splitting and combining\<close>

record share =
  sh_x :: int
  sh_y :: bytes

text \<open>The inner loop of \<open>split_secret\<close>: Horner evaluation.\<close>

definition horner :: "bytes \<Rightarrow> byte \<Rightarrow> byte" where
  "horner coeffs x = fold (\<lambda>c acc. gf_mul acc x XOR c) (rev coeffs) 0"

fun split_loop :: "(nat \<Rightarrow> int \<Rightarrow> bytes) \<Rightarrow> int \<Rightarrow> int list \<Rightarrow> nat \<Rightarrow> bytes \<Rightarrow> bytes list \<Rightarrow> bytes list" where
  "split_loop rng t xs k [] ys = ys"
| "split_loop rng t xs k (b # secret) ys =
     (let coeffs = b # rng k (t - 1)
      in split_loop rng t xs (Suc k) secret (map2 (\<lambda>y x. y @ [horner coeffs (word_of_int x)]) ys xs))"

definition split_secret :: "bytes \<Rightarrow> int \<Rightarrow> int \<Rightarrow> (nat \<Rightarrow> int \<Rightarrow> bytes) \<Rightarrow> share list result" where
  "split_secret secret threshold shares rng =
     (if secret = [] then Inl (ValueError (us ''secret must be non-empty''))
      else if \<not> (2 \<le> threshold \<and> threshold \<le> shares \<and> shares \<le> 255)
      then Inl (ValueError (us ''require 2 <= threshold <= shares <= 255''))
      else let xs = [1..shares];
               ys = split_loop rng threshold xs 0 secret (replicate (length xs) [])
           in Inr (map2 (\<lambda>x y. \<lparr>sh_x = x, sh_y = y\<rparr>) xs ys))"

text \<open>The numerator and the denominator of the Lagrange factor of share \<open>i\<close>.\<close>

definition lagrange_pair :: "share list \<Rightarrow> nat \<Rightarrow> share \<Rightarrow> byte \<times> byte" where
  "lagrange_pair shares i si =
     fold (\<lambda>(j, sj) (num, den). if i = j then (num, den)
        else (gf_mul num (word_of_int (sh_x sj)), gf_mul den (word_of_int (sh_x si XOR sh_x sj))))
       (enumerate 0 shares) (1, 1)"

fun combine_acc :: "share list \<Rightarrow> nat \<Rightarrow> byte \<Rightarrow> (nat \<times> share) list \<Rightarrow> byte result" where
  "combine_acc shares pos acc [] = Inr acc"
| "combine_acc shares pos acc ((i, si) # rest) =
     (let (num, den) = lagrange_pair shares i si
      in rbind (gf_div num den) (\<lambda>q. combine_acc shares pos (acc XOR gf_mul (sh_y si ! pos) q) rest))"

fun combine_loop :: "share list \<Rightarrow> nat list \<Rightarrow> bytes \<Rightarrow> bytes result" where
  "combine_loop shares [] secret = Inr secret"
| "combine_loop shares (pos # rest) secret =
     rbind (combine_acc shares pos 0 (enumerate 0 shares)) (\<lambda>acc. combine_loop shares rest (secret @ [acc]))"

definition combine_shares :: "share list \<Rightarrow> bytes result" where
  "combine_shares shares =
     (if shares = [] then Inl (ValueError (us ''need at least one share''))
      else if list_ex (\<lambda>s. \<not> (1 \<le> sh_x s \<and> sh_x s \<le> 255)) shares
      then Inl (ValueError (us ''share x-coordinates must be integers in 1..255''))
      else if \<not> distinct (map sh_x shares)
      then Inl (ValueError (us ''shares must have distinct x-coordinates''))
      else if list_ex (\<lambda>s. length (sh_y s) \<noteq> length (sh_y (hd shares))) shares
      then Inl (ValueError (us ''all shares must have the same length''))
      else combine_loop shares [0..<length (sh_y (hd shares))] [])"

subsection \<open>The shares in closed form\<close>

lemma split_loop_eq:
  "length ys = length xs \<Longrightarrow> split_loop rng t xs k secret ys =
     map2 (\<lambda>y x. y @ map (\<lambda>i. horner (secret ! i # rng (k + i) (t - 1)) (word_of_int x)) [0..<length secret]) ys xs"
proof (induction secret arbitrary: k ys)
  case Nil
  then show ?case by (intro nth_equalityI) simp_all
next
  case (Cons b secret)
  have u: "[0..<Suc (length secret)] = 0 # map Suc [0..<length secret]" by (simp add: upt_conv_Cons map_Suc_upt del: upt_Suc)
  show ?case
    using Cons.prems by (subst split_loop.simps, unfold Let_def, subst Cons.IH, simp)
      (rule nth_equalityI, simp_all add: u del: upt_Suc)
qed

lemma split_secret_eq:
  assumes "secret \<noteq> []" "2 \<le> t" "t \<le> n" "n \<le> 255"
  shows "split_secret secret t n rng = Inr (map (\<lambda>x. \<lparr>sh_x = x,
     sh_y = map (\<lambda>i. horner (secret ! i # rng i (t - 1)) (word_of_int x)) [0..<length secret]\<rparr>) [1..n])"
proof -
  have "map2 (\<lambda>x y. \<lparr>sh_x = x, sh_y = y\<rparr>) xs (map2 (\<lambda>y x. y @ f x) (replicate (length xs) []) xs) =
     map (\<lambda>x. \<lparr>sh_x = x, sh_y = f x\<rparr>) xs" for f :: "int \<Rightarrow> bytes" and xs
    by (rule nth_equalityI) simp_all
  with assms show ?thesis by (simp add: split_secret_def split_loop_eq Let_def)
qed

subsection \<open>Arithmetic of shares in the field\<close>

lemma to_gf_simps: "to_gf (gf_mul a b) = to_gf a * to_gf b" "to_gf (a XOR b) = to_gf a + to_gf b"
  "to_gf (a XOR b) = to_gf a - to_gf b" "to_gf 0 = 0" "to_gf 1 = 1"
  by (simp_all add: times_gf.abs_eq plus_gf.abs_eq minus_gf.abs_eq zero_gf.abs_eq one_gf.abs_eq eq_onp_same_args)

lemma to_gf_eq [simp]: "to_gf a = to_gf b \<longleftrightarrow> a = b"
  by (simp add: to_gf_inject)

lemma gf_neg: "- (a :: gf) = a"
  by transfer simp

lemma gf_div_to_gf: "b \<noteq> 0 \<Longrightarrow> \<exists>q. gf_div a b = Inr q \<and> to_gf q = to_gf a / to_gf b"
  by (simp add: gf_div_eq divide_gf.abs_eq eq_onp_same_args)

lemma horner_poly: "to_gf (horner cs x) = (\<Sum>i<length cs. to_gf (cs ! i) * to_gf x ^ i)"
proof (induction cs)
  case Nil
  then show ?case by (simp add: horner_def to_gf_simps)
next
  case (Cons c cs)
  have "horner (c # cs) x = gf_mul (horner cs x) x XOR c" by (simp add: horner_def)
  then show ?case
    by (simp only: to_gf_simps(1,2) Cons.IH length_Cons sum.lessThan_Suc_shift)
       (simp add: sum_distrib_right sum_distrib_left mult_ac add.commute)
qed

text \<open>The coordinate of a share in the field.\<close>

definition coord :: "int \<Rightarrow> gf" where
  "coord x = to_gf (word_of_int x)"

definition in_range :: "int \<Rightarrow> bool" where
  "in_range x \<longleftrightarrow> 1 \<le> x \<and> x \<le> 255"

lemma coord_inj: "in_range x \<Longrightarrow> in_range y \<Longrightarrow> coord x = coord y \<longleftrightarrow> x = y"
  by (auto simp: coord_def in_range_def word_of_int_eq_iff take_bit_int_eq_self)

lemma coord_nonzero: "in_range x \<Longrightarrow> coord x \<noteq> 0"
  unfolding coord_def to_gf_simps(4) [symmetric] to_gf_eq using word_of_int_eq_iff [of x 0, where 'a = 8]
  by (auto simp: in_range_def take_bit_int_eq_self)

lemma coord_xor: "coord (x XOR y) = coord x - coord y"
proof -
  have "(word_of_int (x XOR y) :: byte) = word_of_int x XOR word_of_int y" by (rule bit_word_eqI) (simp add: bit_simps)
  then show ?thesis by (simp add: coord_def to_gf_simps(3))
qed

lemma lagrange_pair_eq:
  assumes "lagrange_pair shares i (shares ! i) = (num, den)" and "i < length shares"
  shows "to_gf num = (\<Prod>j\<in>{..<length shares} - {i}. coord (sh_x (shares ! j)))"
    and "to_gf den = (\<Prod>j\<in>{..<length shares} - {i}. coord (sh_x (shares ! i)) - coord (sh_x (shares ! j)))"
proof -
  let ?f = "\<lambda>(j, sj) (num, den). if i = j then (num, den)
        else (gf_mul num (word_of_int (sh_x sj)), gf_mul den (word_of_int (sh_x (shares ! i) XOR sh_x sj)))"
  have step: "to_gf (fst (fold ?f (map (\<lambda>j. (j, shares ! j)) [0..<n]) (1, 1))) = (\<Prod>j\<in>{..<n} - {i}. coord (sh_x (shares ! j))) \<and>
    to_gf (snd (fold ?f (map (\<lambda>j. (j, shares ! j)) [0..<n]) (1, 1))) =
      (\<Prod>j\<in>{..<n} - {i}. coord (sh_x (shares ! i)) - coord (sh_x (shares ! j)))" for n
  proof (induction n)
    case (Suc n)
    have "{..<Suc n} - {i} = (if i = n then {..<n} - {i} else insert n ({..<n} - {i}))" by auto
    moreover obtain a b where "fold ?f (map (\<lambda>j. (j, shares ! j)) [0..<n]) (1, 1) = (a, b)" by fastforce
    ultimately show ?case
      using Suc by (simp add: to_gf_simps(1) mult.commute coord_def [symmetric] coord_xor)
  qed (simp add: to_gf_simps)
  have "enumerate 0 shares = map (\<lambda>j. (j, shares ! j)) [0..<length shares]"
    by (rule nth_equalityI) (simp_all add: nth_enumerate_eq)
  with assms step [of "length shares"] show
    "to_gf num = (\<Prod>j\<in>{..<length shares} - {i}. coord (sh_x (shares ! j)))"
    "to_gf den = (\<Prod>j\<in>{..<length shares} - {i}. coord (sh_x (shares ! i)) - coord (sh_x (shares ! j)))"
    by (simp_all add: lagrange_pair_def)
qed

subsection \<open>Enough shares recover the secret\<close>

definition ok_shares :: "share list \<Rightarrow> bool" where
  "ok_shares shares \<longleftrightarrow> distinct (map sh_x shares) \<and> (\<forall>s\<in>set shares. in_range (sh_x s))"

text \<open>The field elements the shares sit at, by position.\<close>

abbreviation node :: "share list \<Rightarrow> nat \<Rightarrow> gf" where
  "node shares i \<equiv> coord (sh_x (shares ! i))"

lemma node_inj: "ok_shares shares \<Longrightarrow> inj_on (node shares) {..<length shares}"
  by (auto simp: ok_shares_def inj_on_def coord_inj distinct_conv_nth)

lemma combine_acc_eq:
  assumes "ok_shares shares" and "\<forall>i\<in>set is. i < length shares"
  shows "\<exists>r. combine_acc shares pos acc (map (\<lambda>i. (i, shares ! i)) is) = Inr r \<and>
    to_gf r = to_gf acc + (\<Sum>i\<leftarrow>is. to_gf (sh_y (shares ! i) ! pos) *
      ((\<Prod>j\<in>{..<length shares} - {i}. node shares j) / (\<Prod>j\<in>{..<length shares} - {i}. node shares i - node shares j)))"
  using assms(2)
proof (induction "is" arbitrary: acc)
  case (Cons i rest)
  obtain num den where l: "lagrange_pair shares i (shares ! i) = (num, den)" by fastforce
  note e = lagrange_pair_eq [OF l]
  have "node shares i - node shares j \<noteq> 0" if "j \<in> {..<length shares} - {i}" for j
    using inj_onD [OF node_inj [OF assms(1)], of i j] that Cons.prems by auto
  then have "to_gf den \<noteq> to_gf 0" using e(2) Cons.prems by (simp add: to_gf_simps(4))
  then obtain q where q: "gf_div num den = Inr q" "to_gf q = to_gf num / to_gf den" using gf_div_to_gf by fastforce
  show ?case
    using Cons.IH [of "acc XOR gf_mul (sh_y (shares ! i) ! pos) q"] Cons.prems q e
    by (auto simp: l to_gf_simps(1,2) add.assoc)
qed simp

lemma combine_byte:
  assumes "ok_shares shares" and "is_poly n f" and "n \<le> length shares"
    and "\<And>i. i < length shares \<Longrightarrow> to_gf (sh_y (shares ! i) ! pos) = f (node shares i)"
  shows "\<exists>r. combine_acc shares pos 0 (enumerate 0 shares) = Inr r \<and> to_gf r = f 0"
proof -
  let ?I = "{..<length shares}" and ?x = "node shares"
  note inj = node_inj [OF assms(1)]
  have e: "enumerate 0 shares = map (\<lambda>j. (j, shares ! j)) [0..<length shares]"
    by (rule nth_equalityI) (simp_all add: nth_enumerate_eq)
  obtain r where r: "combine_acc shares pos 0 (enumerate 0 shares) = Inr r"
    "to_gf r = (\<Sum>i\<in>?I. f (?x i) * ((\<Prod>j\<in>?I - {i}. ?x j) / (\<Prod>j\<in>?I - {i}. ?x i - ?x j)))"
    using combine_acc_eq [OF assms(1), of "[0..<length shares]" pos 0] assms(4)
    by (auto simp: e to_gf_simps(4) interv_sum_list_conv_sum_set_nat atLeast0LessThan)
  have p: "(\<Prod>j\<in>?x ` ?I - {?x i}. h j) = (\<Prod>j\<in>?I - {i}. h (?x j))" if "i \<in> ?I" for i h
  proof -
    have "?x ` ?I - {?x i} = ?x ` (?I - {i})" using inj that by (auto dest: inj_onD)
    then show ?thesis using prod.reindex [of ?x "?I - {i}" h] inj_on_diff [OF inj] by simp
  qed
  have "f 0 = (\<Sum>a\<in>?x ` ?I. f a * ((\<Prod>j\<in>?x ` ?I - {a}. - j) / (\<Prod>j\<in>?x ` ?I - {a}. a - j)))"
    by (rule lagrange_at_zero [OF assms(2), symmetric]) (simp_all add: card_image [OF inj] assms(3))
  also have "\<dots> = (\<Sum>i\<in>?I. f (?x i) * ((\<Prod>j\<in>?I - {i}. ?x j) / (\<Prod>j\<in>?I - {i}. ?x i - ?x j)))"
    by (simp add: sum.reindex [OF inj] gf_neg p)
  finally show ?thesis using r by auto
qed

lemma combine_loop_eq:
  assumes "\<And>pos. pos \<in> set ps \<Longrightarrow> combine_acc shares pos 0 (enumerate 0 shares) = Inr (g pos)"
  shows "combine_loop shares ps secret = Inr (secret @ map g ps)"
  using assms by (induction ps arbitrary: secret) simp_all

lemma horner_is_poly: "is_poly (length cs) (\<lambda>x. to_gf (horner cs (of_gf x)))"
  unfolding is_poly_def by (intro exI [of _ "\<lambda>i. to_gf (cs ! i)"]) (simp add: horner_poly of_gf_inverse)

lemma horner_zero: "horner (c # cs) 0 = c"
  by (simp add: horner_def)

text \<open>
  C28 (threshold release). Any shares that \<open>split_secret\<close> dealt, in any order, recover the
  secret when they are distinct and at least as many as the threshold.
\<close>

theorem threshold_shares_recover:
  assumes "split_secret secret t n rng = Inr ss" and "\<forall>k. length (rng k (t - 1)) = nat (t - 1)"
    and "set subs \<subseteq> set ss" and "distinct (map sh_x subs)" and "t \<le> int (length subs)"
  shows "combine_shares subs = Inr secret"
proof -
  have tn: "secret \<noteq> []" "2 \<le> t" "t \<le> n" "n \<le> 255"
    using assms(1) by (auto simp: split_secret_def split: if_split_asm)
  have ss: "ss = map (\<lambda>x. \<lparr>sh_x = x,
     sh_y = map (\<lambda>i. horner (secret ! i # rng i (t - 1)) (word_of_int x)) [0..<length secret]\<rparr>) [1..n]"
    using assms(1) split_secret_eq [OF tn, of rng] by simp
  have mem: "in_range (sh_x s)" "sh_y s = map (\<lambda>i. horner (secret ! i # rng i (t - 1)) (word_of_int (sh_x s))) [0..<length secret]"
    if "s \<in> set subs" for s using that assms(3) tn(4) by (auto simp: ss in_range_def)
  have ok: "ok_shares subs" using assms(4) mem(1) by (simp add: ok_shares_def)
  have ne: "subs \<noteq> []" using assms(5) tn(2) by auto
  have len: "length (sh_y s) = length secret" if "s \<in> set subs" for s using mem(2) [OF that] by simp
  have "combine_acc subs pos 0 (enumerate 0 subs) = Inr (secret ! pos)" if pos: "pos < length secret" for pos
  proof -
    let ?cs = "secret ! pos # rng pos (t - 1)"
    have y: "to_gf (sh_y (subs ! i) ! pos) = to_gf (horner ?cs (of_gf (node subs i)))" if "i < length subs" for i
      using mem(2) [of "subs ! i"] pos that by (simp add: coord_def to_gf_inverse)
    have "length ?cs \<le> length subs" using assms(2,5) tn(2) by simp
    from combine_byte [OF ok horner_is_poly this y] show ?thesis
      by (auto simp: zero_gf.rep_eq horner_zero)
  qed
  then have "combine_loop subs [0..<length secret] [] = Inr ([] @ map (\<lambda>pos. secret ! pos) [0..<length secret])"
    by (intro combine_loop_eq) simp
  moreover have "hd subs \<in> set subs" using ne by simp
  ultimately show ?thesis
    using ne mem(1) assms(4) len by (auto simp: combine_shares_def list_ex_iff in_range_def map_nth)
qed

subsection \<open>Fewer shares reveal nothing\<close>

text \<open>All choices of the random coefficients, one string per byte of the secret.\<close>

definition choices :: "nat \<Rightarrow> int \<Rightarrow> bytes list set" where
  "choices len t = {rs. length rs = len \<and> (\<forall>r\<in>set rs. length r = nat (t - 1))}"

text \<open>What the holders of the shares with coordinates in \<open>X\<close> see.\<close>

definition seen :: "int set \<Rightarrow> share list result \<Rightarrow> share list result" where
  "seen X r = rbind r (\<lambda>ss. Inr (filter (\<lambda>s. sh_x s \<in> X) ss))"

text \<open>A change of the coefficients that turns one secret byte into another and is invisible on \<open>X\<close>.\<close>

lemma masking_coefficients:
  assumes "finite X" and "\<forall>x\<in>X. in_range x" and "card X \<le> m"
  shows "\<exists>ds. length ds = m \<and> (\<forall>x\<in>X. horner (d # ds) (word_of_int x) = 0)"
proof -
  let ?P = "\<lambda>z. \<Prod>j\<in>coord ` X. z - j"
  have "card (coord ` X) \<le> m" using card_image_le [OF assms(1)] assms(3) le_trans by blast
  then have "is_poly (Suc m) (\<lambda>z. (to_gf d / ?P 0) * ?P z)"
    using assms(1) by (intro is_poly_scale is_poly_le [OF _ is_poly_prod]) simp_all
  then obtain c where c: "\<And>z. (to_gf d / ?P 0) * ?P z = (\<Sum>i<Suc m. c i * z ^ i)" unfolding is_poly_def by blast
  have "?P 0 \<noteq> 0" using assms(1,2) coord_nonzero by (auto simp: gf_neg)
  moreover have "(\<Sum>i<Suc m. c i * 0 ^ i) = c 0" by (simp only: sum.lessThan_Suc_shift) simp
  ultimately have c0: "c 0 = to_gf d" using c [of 0] by simp
  let ?ds = "map (\<lambda>i. of_gf (c (Suc i))) [0..<m]"
  have "to_gf (horner (d # ?ds) (word_of_int x)) = to_gf 0" if "x \<in> X" for x
  proof -
    have "to_gf (horner (d # ?ds) (word_of_int x)) = (\<Sum>i<Suc m. c i * coord x ^ i)"
      by (simp only: horner_poly length_Cons sum.lessThan_Suc_shift)
         (simp add: c0 coord_def of_gf_inverse)
    also have "\<dots> = (to_gf d / ?P 0) * ?P (coord x)" by (simp only: c)
    also have "?P (coord x) = 0" using that assms(1) by (intro prod_zero) auto
    finally show ?thesis by (simp add: to_gf_simps(4))
  qed
  then show ?thesis by (intro exI [of _ ?ds]) simp
qed

definition xor_bytes :: "bytes \<Rightarrow> bytes \<Rightarrow> bytes" where
  "xor_bytes a b = map2 (XOR) a b"

lemma horner_xor:
  "length a = length b \<Longrightarrow> horner (xor_bytes a b) x = horner a x XOR horner b x"
proof (induction a b rule: list_induct2)
  case (Cons c a d b)
  have "horner (k # ks) x = gf_mul (horner ks x) x XOR k" for k ks by (simp add: horner_def)
  with Cons show ?case by (simp add: xor_bytes_def gf_mul_xor ac_simps)
qed (simp add: xor_bytes_def horner_def)

lemma xor_bytes_twice: "length a = length b \<Longrightarrow> xor_bytes (xor_bytes a b) b = a"
  by (simp add: xor_bytes_def) (rule nth_equalityI, simp_all add: xor.assoc)

text \<open>
  C29 (threshold release). Fewer shares than the threshold reveal nothing: for every secret of
  the same length the same shares are seen for equally many of the random choices.
\<close>

theorem fewer_shares_reveal_nothing:
  assumes "length secret' = length secret" and "card (X \<inter> {1..n}) < nat t"
  shows "card {rs \<in> choices (length secret) t. seen X (split_secret secret t n (\<lambda>k _. rs ! k)) = v} =
    card {rs \<in> choices (length secret) t. seen X (split_secret secret' t n (\<lambda>k _. rs ! k)) = v}"
proof (cases "secret \<noteq> [] \<and> 2 \<le> t \<and> t \<le> n \<and> n \<le> 255")
  case True
  then have tn: "secret \<noteq> []" "secret' \<noteq> []" "2 \<le> t" "t \<le> n" "n \<le> 255" using assms(1) by auto
  let ?V = "X \<inter> {1..n}"
  have "\<exists>ds. length ds = nat (t - 1) \<and> (\<forall>x\<in>?V. horner ((secret ! k XOR secret' ! k) # ds) (word_of_int x) = 0)" for k
    using assms(2) tn by (intro masking_coefficients) (auto simp: in_range_def)
  then obtain ds where ds: "\<And>k. length (ds k) = nat (t - 1)"
    "\<And>k x. x \<in> ?V \<Longrightarrow> horner ((secret ! k XOR secret' ! k) # ds k) (word_of_int x) = 0" by metis
  define mask where "mask rs = map2 (\<lambda>r k. xor_bytes r (ds k)) rs [0..<length secret]" for rs
  have choice: "mask rs \<in> choices (length secret) t" if "rs \<in> choices (length secret) t" for rs
    using that ds(1) by (auto simp: choices_def mask_def xor_bytes_def set_zip)
  have twice: "mask (mask rs) = rs" if "rs \<in> choices (length secret) t" for rs
    using that ds(1) by (intro nth_equalityI) (auto simp: choices_def mask_def xor_bytes_twice)
  have same: "seen X (split_secret secret' t n (\<lambda>k _. mask rs ! k)) = seen X (split_secret secret t n (\<lambda>k _. rs ! k))"
    if "rs \<in> choices (length secret) t" for rs
  proof -
    have "horner (secret' ! i # mask rs ! i) (word_of_int x) = horner (secret ! i # rs ! i) (word_of_int x)"
      if x: "x \<in> ?V" and i: "i < length secret" for x i
    proof -
      have l: "length (rs ! i) = nat (t - 1)" "length rs = length secret"
        using \<open>rs \<in> _\<close> i by (auto simp: choices_def)
      have "secret' ! i # mask rs ! i = xor_bytes (secret ! i # rs ! i) ((secret ! i XOR secret' ! i) # ds i)"
        using i l by (simp add: mask_def xor_bytes_def xor.assoc [symmetric])
      then show ?thesis using l ds(1) ds(2) [OF x] by (simp add: horner_xor)
    qed
    then show ?thesis
      using assms(1) by (auto simp: seen_def split_secret_eq tn filter_map o_def)
  qed
  show ?thesis
  proof (rule bij_betw_same_card)
    show "bij_betw mask {rs \<in> choices (length secret) t. seen X (split_secret secret t n (\<lambda>k _. rs ! k)) = v}
       {rs \<in> choices (length secret) t. seen X (split_secret secret' t n (\<lambda>k _. rs ! k)) = v}"
      by (rule bij_betw_byWitness [where f' = mask]) (use choice twice same in \<open>auto, metis\<close>)
  qed
next
  case False
  then have "split_secret secret t n rng = split_secret secret' t n rng" for rng
    using assms(1) by (auto simp: split_secret_def)
  then show ?thesis by simp
qed

subsection \<open>A concrete dealing\<close>

lemma demo_split:
  "\<exists>a b c. split_secret [42, 7] 2 3 (\<lambda>k m. replicate (nat m) (of_nat k)) =
     Inr [\<lparr>sh_x = 1, sh_y = a\<rparr>, \<lparr>sh_x = 2, sh_y = b\<rparr>, \<lparr>sh_x = 3, sh_y = c\<rparr>]"
proof -
  have "[1..3] = [1, 2, 3 :: int]" by (simp add: upto_rec1)
  then show ?thesis by (simp add: split_secret_eq)
qed

theorem threshold_shares_recover_witness:
  "\<exists>a b c. split_secret [42, 7] 2 3 (\<lambda>k m. replicate (nat m) (of_nat k)) =
     Inr [\<lparr>sh_x = 1, sh_y = a\<rparr>, \<lparr>sh_x = 2, sh_y = b\<rparr>, \<lparr>sh_x = 3, sh_y = c\<rparr>] \<and>
     combine_shares [\<lparr>sh_x = 3, sh_y = c\<rparr>, \<lparr>sh_x = 1, sh_y = a\<rparr>] = Inr [42, 7]"
proof -
  obtain a b c where s: "split_secret [42, 7] 2 3 (\<lambda>k m. replicate (nat m) (of_nat k)) =
     Inr [\<lparr>sh_x = 1, sh_y = a\<rparr>, \<lparr>sh_x = 2, sh_y = b\<rparr>, \<lparr>sh_x = 3, sh_y = c\<rparr>]" using demo_split by blast
  from threshold_shares_recover [OF this, of "[\<lparr>sh_x = 3, sh_y = c\<rparr>, \<lparr>sh_x = 1, sh_y = a\<rparr>]"] s show ?thesis by simp
qed

theorem fewer_shares_reveal_nothing_witness:
  "card {rs \<in> choices 1 2. seen {3} (split_secret [42] 2 3 (\<lambda>k _. rs ! k)) = Inr [\<lparr>sh_x = 3, sh_y = [5]\<rparr>]} =
   card {rs \<in> choices 1 2. seen {3} (split_secret [7] 2 3 (\<lambda>k _. rs ! k)) = Inr [\<lparr>sh_x = 3, sh_y = [5]\<rparr>]}"
  using fewer_shares_reveal_nothing [of "[7]" "[42]" "{3}" 3 2 "Inr [\<lparr>sh_x = 3, sh_y = [5]\<rparr>]"] by simp

end
