(* ===== verification/Lineage.thy ===== *)
theory Lineage
  imports Models
begin

section \<open>Derivative lineage (\<open>lineage.py\<close>)\<close>

text \<open>
  Resolution of a manifest's chain of parents and its policy checks. The manifest set is an
  association list keyed by weights hash; a violation and a note are values that carry what the
  message of the source interpolates. The main result: the verdict is positive exactly when the
  leaf has a cycle-free chain to a root in which every step is granted by its parent, nothing is
  revoked and everything is logged; then the chain reported is that chain.
\<close>

subsection \<open>Results\<close>

datatype violation =
    Leaf_not_in_set pystr
  | Cycle_detected pystr
  | Parent_not_in_set pystr pystr \<comment> \<open>parent, current\<close>
  | Forbids_derivatives pystr pystr \<comment> \<open>parent, current\<close>
  | Widens_derivatives pystr derivative_policy pystr derivative_policy \<comment> \<open>child, its policy, parent, its policy\<close>
  | Adds_environments pystr pystr "pystr list" \<comment> \<open>child, parent, the environments in order\<close>
  | Revoked_in_lineage pystr pystr \<comment> \<open>hash, leaf\<close>
  | Not_in_log pystr

datatype lineage_note = Policy_unspecified pystr

record lineage_result =
  lr_ok :: bool
  lr_chain :: "pystr list"
  lr_violations :: "violation list"
  lr_notes :: "lineage_note list"

definition lr_root :: "lineage_result \<Rightarrow> pystr option" where
  "lr_root r = (if lr_chain r = [] then None else Some (last (lr_chain r)))"

definition lr_depth :: "lineage_result \<Rightarrow> nat" where
  "lr_depth r = length (lr_chain r) - 1"

definition is_root :: "manifest \<Rightarrow> bool" where
  "is_root m \<longleftrightarrow> m_derived_from m = None"

subsection \<open>The checks\<close>

fun DERIV_RANK :: "derivative_policy \<Rightarrow> int" where
  "DERIV_RANK dp_none = 0"
| "DERIV_RANK fine_tune_only = 1"
| "DERIV_RANK unrestricted = 2"

text \<open>\<open>_check_monotone_rights\<close>: the violations it appends.\<close>

definition widened :: "pystr \<Rightarrow> release_terms \<Rightarrow> pystr \<Rightarrow> release_terms \<Rightarrow> violation list" where
  "widened child_hash child parent_hash parent =
     (case (rt_derivatives parent, rt_derivatives child) of
        (Some p, Some c) \<Rightarrow>
          if p \<noteq> dp_none \<and> DERIV_RANK c > DERIV_RANK p then [Widens_derivatives child_hash c parent_hash p] else []
      | _ \<Rightarrow> [])"

definition extra_environments :: "release_terms \<Rightarrow> release_terms \<Rightarrow> pystr list" where
  "extra_environments child parent =
     sort (remdups (filter (\<lambda>e. e \<notin> set (rt_permitted_environments parent)) (rt_permitted_environments child)))"

definition check_monotone_rights :: "pystr \<Rightarrow> release_terms \<Rightarrow> pystr \<Rightarrow> release_terms \<Rightarrow> violation list" where
  "check_monotone_rights child_hash child parent_hash parent =
     widened child_hash child parent_hash parent @
     (let extra = extra_environments child parent
      in if extra \<noteq> [] then [Adds_environments child_hash parent_hash extra] else [])"

text \<open>The policy verdict on one step to a parent: violations and notes.\<close>

definition check_policy :: "pystr \<Rightarrow> pystr \<Rightarrow> release_terms \<Rightarrow> violation list \<times> lineage_note list" where
  "check_policy parent_hash current parent =
     (case rt_derivatives parent of
        Some dp_none \<Rightarrow> ([Forbids_derivatives parent_hash current], [])
      | None \<Rightarrow> ([], [Policy_unspecified parent_hash])
      | _ \<Rightarrow> ([], []))"

text \<open>The \<open>while\<close> loop. A pass adds \<open>current\<close> to \<open>seen\<close>, so it ends after at most as many passes as
  there are manifests; \<open>manifests[current]\<close> raises \<open>KeyError\<close> outside the set.\<close>

type_synonym walk_result = "(pystr list \<times> violation list \<times> lineage_note list) result"

function walk ::
  "(pystr \<times> manifest) list \<Rightarrow> pystr \<Rightarrow> pystr set \<Rightarrow> pystr list \<Rightarrow> violation list \<Rightarrow> lineage_note list \<Rightarrow> walk_result" where
  "walk manifests current seen chain violations notes =
     (if current \<in> seen then Inr (chain, violations @ [Cycle_detected current], notes)
      else case map_of manifests current of
        None \<Rightarrow> Inl (KeyError current)
      | Some manifest \<Rightarrow>
          let chain' = chain @ [current] in
          (case m_derived_from manifest of
             None \<Rightarrow> Inr (chain', violations, notes)
           | Some parent_hash \<Rightarrow>
               (case map_of manifests parent_hash of
                  None \<Rightarrow> Inr (chain', violations @ [Parent_not_in_set parent_hash current], notes)
                | Some parent_manifest \<Rightarrow>
                    let (vs, ns) = check_policy parent_hash current (m_release_terms parent_manifest);
                        rights = check_monotone_rights current (m_release_terms manifest) parent_hash (m_release_terms parent_manifest)
                    in walk manifests parent_hash (insert current seen) chain' (violations @ vs @ rights) (notes @ ns))))"
  by pat_completeness auto

termination walk
proof (relation "measure (\<lambda>(manifests, current, seen, _). card (fst ` set manifests - seen))", goal_cases)
  case (2 manifests current seen)
  have "current \<in> fst ` set manifests - seen" using 2(1,2) by (auto dest: map_of_SomeD intro: rev_image_eqI)
  then have "card (fst ` set manifests - insert current seen) < card (fst ` set manifests - seen)"
    by (intro psubset_card_mono) auto
  then show ?case by simp
qed simp

definition verify_lineage ::
  "(pystr \<times> manifest) list \<Rightarrow> pystr \<Rightarrow> pystr list option \<Rightarrow> pystr list option \<Rightarrow> lineage_result result" where
  "verify_lineage manifests leaf_hash logged revoked =
     (if map_of manifests leaf_hash = None
      then Inr \<lparr>lr_ok = False, lr_chain = [], lr_violations = [Leaf_not_in_set leaf_hash], lr_notes = []\<rparr>
      else rbind (walk manifests leaf_hash {} [] [] []) (\<lambda>(chain, violations, notes).
        let revoked_list = (case revoked of None \<Rightarrow> [] | Some hs \<Rightarrow> hs);
            vs1 = map (\<lambda>h. Revoked_in_lineage h leaf_hash) (filter (\<lambda>h. h \<in> set revoked_list) chain);
            vs2 = (case logged of None \<Rightarrow> [] | Some hs \<Rightarrow> map Not_in_log (filter (\<lambda>h. h \<notin> set hs) chain));
            all = violations @ vs1 @ vs2
        in Inr \<lparr>lr_ok = (all = []), lr_chain = chain, lr_violations = all, lr_notes = notes\<rparr>))"

declare walk.simps [simp del]

subsection \<open>What a lineage is\<close>

text \<open>A parent grants a child: it does not forbid derivatives, and the child widens neither the
  derivative policy nor the environments.\<close>

definition grants :: "manifest \<Rightarrow> manifest \<Rightarrow> bool" where
  "grants parent child \<longleftrightarrow>
     rt_derivatives (m_release_terms parent) \<noteq> Some dp_none \<and>
     (\<forall>p c. rt_derivatives (m_release_terms parent) = Some p \<and> rt_derivatives (m_release_terms child) = Some c \<longrightarrow>
        DERIV_RANK c \<le> DERIV_RANK p) \<and>
     set (rt_permitted_environments (m_release_terms child)) \<subseteq> set (rt_permitted_environments (m_release_terms parent))"

text \<open>The chains from a manifest to a root with every step granted.\<close>

inductive lineage :: "(pystr \<times> manifest) list \<Rightarrow> pystr list \<Rightarrow> bool" for ms where
  root: "map_of ms h = Some m \<Longrightarrow> m_derived_from m = None \<Longrightarrow> lineage ms [h]"
| derived: "map_of ms h = Some m \<Longrightarrow> m_derived_from m = Some p \<Longrightarrow> map_of ms p = Some pm \<Longrightarrow> grants pm m \<Longrightarrow>
    lineage ms (p # rest) \<Longrightarrow> lineage ms (h # p # rest)"

inductive_cases lineage_NilE: "lineage ms []"

lemma lineage_hd:
  assumes "lineage ms q" and "hd q = h" and "map_of ms h = Some m"
  shows "m_derived_from m = None \<Longrightarrow> q = [h]"
    and "m_derived_from m = Some p \<Longrightarrow>
      \<exists>rest pm. q = h # p # rest \<and> lineage ms (p # rest) \<and> map_of ms p = Some pm \<and> grants pm m"
  using assms by (cases rule: lineage.cases; simp)+

lemma step_violations:
  "fst (check_policy p h (m_release_terms pm)) @ check_monotone_rights h (m_release_terms m) p (m_release_terms pm) = [] \<longleftrightarrow>
   grants pm m"
proof -
  have "extra_environments (m_release_terms m) (m_release_terms pm) = [] \<longleftrightarrow>
    set (rt_permitted_environments (m_release_terms m)) \<subseteq> set (rt_permitted_environments (m_release_terms pm))"
    unfolding set_empty [symmetric, of "extra_environments _ _"] by (auto simp: extra_environments_def)
  then show ?thesis
    by (auto simp: check_policy_def check_monotone_rights_def widened_def grants_def Let_def
        split: option.splits derivative_policy.splits)
qed

lemma walk_seen: "current \<in> seen \<Longrightarrow> walk ms current seen chain vs ns = Inr (chain, vs @ [Cycle_detected current], ns)"
  by (subst walk.simps) simp

lemma walk_root:
  "current \<notin> seen \<Longrightarrow> map_of ms current = Some m \<Longrightarrow> m_derived_from m = None \<Longrightarrow>
   walk ms current seen chain vs ns = Inr (chain @ [current], vs, ns)"
  by (subst walk.simps) simp

lemma walk_orphan:
  "current \<notin> seen \<Longrightarrow> map_of ms current = Some m \<Longrightarrow> m_derived_from m = Some p \<Longrightarrow> map_of ms p = None \<Longrightarrow>
   walk ms current seen chain vs ns = Inr (chain @ [current], vs @ [Parent_not_in_set p current], ns)"
  by (subst walk.simps) simp

lemma walk_parent:
  "current \<notin> seen \<Longrightarrow> map_of ms current = Some m \<Longrightarrow> m_derived_from m = Some p \<Longrightarrow> map_of ms p = Some pm \<Longrightarrow>
   walk ms current seen chain vs ns = walk ms p (insert current seen) (chain @ [current])
     (vs @ fst (check_policy p current (m_release_terms pm)) @
        check_monotone_rights current (m_release_terms m) p (m_release_terms pm))
     (ns @ snd (check_policy p current (m_release_terms pm)))"
  by (subst walk.simps) (simp add: split_def Let_def)

text \<open>What a walk from \<open>current\<close> finds beyond what it was given.\<close>

definition walks :: "(pystr \<times> manifest) list \<Rightarrow> pystr \<Rightarrow> pystr set \<Rightarrow> pystr list \<Rightarrow> violation list \<Rightarrow> bool" where
  "walks ms current seen path extra \<longleftrightarrow>
     (extra = [] \<longrightarrow> lineage ms path \<and> hd path = current \<and> distinct path \<and> set path \<inter> seen = {}) \<and>
     (\<forall>q. lineage ms q \<and> hd q = current \<and> distinct q \<and> set q \<inter> seen = {} \<longrightarrow> path = q \<and> extra = [])"

lemma walks_step:
  assumes "current \<notin> seen" "map_of ms current = Some m" "m_derived_from m = Some p" "map_of ms p = Some pm"
    and "walks ms p (insert current seen) path extra" and "bad = [] \<longleftrightarrow> grants pm m"
  shows "walks ms current seen (current # path) (bad @ extra)"
  unfolding walks_def
proof (intro conjI impI allI)
  assume "bad @ extra = []"
  then have p: "lineage ms path" "hd path = p" "distinct path" "set path \<inter> insert current seen = {}" "grants pm m"
    using assms(5,6) by (auto simp: walks_def)
  then obtain rest where "path = p # rest" using lineage_NilE [of ms] by (cases path) auto
  with p lineage.derived [OF assms(2-4)] assms(1)
  show "lineage ms (current # path)" "hd (current # path) = current" "distinct (current # path)" "set (current # path) \<inter> seen = {}"
    by auto
next
  fix q assume q: "lineage ms q \<and> hd q = current \<and> distinct q \<and> set q \<inter> seen = {}"
  then obtain rest where r: "q = current # p # rest" "lineage ms (p # rest)" "grants pm m"
    using lineage_hd(2) [OF _ _ assms(2), of q p] assms(3,4) by auto
  with q have "distinct (p # rest) \<and> set (p # rest) \<inter> insert current seen = {}" by auto
  with r(2) have "path = p # rest \<and> extra = []" using assms(5) unfolding walks_def by (metis list.sel(1))
  with r assms(6) show "current # path = q" "bad @ extra = []" by auto
qed

lemma walk_spec:
  assumes "map_of ms current \<noteq> None"
  shows "\<exists>path extra more. walk ms current seen chain vs ns = Inr (chain @ path, vs @ extra, ns @ more) \<and>
    walks ms current seen path extra"
  using assms
proof (induction "card (fst ` set ms - seen)" arbitrary: current seen chain vs ns rule: less_induct)
  case less
  obtain m where m: "map_of ms current = Some m" using less(2) by blast
  consider "current \<in> seen" | "current \<notin> seen" "m_derived_from m = None"
    | p where "current \<notin> seen" "m_derived_from m = Some p" "map_of ms p = None"
    | p pm where "current \<notin> seen" "m_derived_from m = Some p" "map_of ms p = Some pm"
    by (cases "current \<in> seen"; cases "m_derived_from m"; cases "map_of ms (the (m_derived_from m))") simp_all
  then show ?case
  proof cases
    case 1
    have "q \<noteq> [] \<and> hd q \<in> set q" if "lineage ms q" for q using that by (cases q) (auto elim: lineage_NilE)
    then have "walks ms current seen [] [Cycle_detected current]" using 1 by (auto simp: walks_def)
    with walk_seen [OF 1, of ms chain vs ns] show ?thesis
      by - (rule exI [of _ "[]"], rule exI [of _ "[Cycle_detected current]"], rule exI [of _ "[]"], simp)
  next
    case 2
    have "walks ms current seen [current] []"
      unfolding walks_def
    proof (intro conjI impI allI)
      fix q assume "lineage ms q \<and> hd q = current \<and> distinct q \<and> set q \<inter> seen = {}"
      then show "[current] = q" using lineage_hd(1) [OF _ _ m 2(2), of q] by simp
    qed (use lineage.root [OF m 2(2)] 2(1) in simp_all)
    with walk_root [OF 2(1) m 2(2), of chain vs ns] show ?thesis
      by - (rule exI [of _ "[current]"], rule exI [of _ "[]"], rule exI [of _ "[]"], simp)
  next
    case (3 p)
    have "\<not> (lineage ms q \<and> hd q = current)" for q using lineage_hd(2) [OF _ _ m 3(2), of q] 3(3) by auto
    then have "walks ms current seen [current] [Parent_not_in_set p current]" unfolding walks_def by blast
    with walk_orphan [OF 3(1) m 3(2,3), of chain vs ns] show ?thesis
      by - (rule exI [of _ "[current]"], rule exI [of _ "[Parent_not_in_set p current]"], rule exI [of _ "[]"], simp)
  next
    case (4 p pm)
    have "current \<in> fst ` set ms - seen" using m 4(1) by (auto dest: map_of_SomeD intro: rev_image_eqI)
    then have "card (fst ` set ms - insert current seen) < card (fst ` set ms - seen)"
      by (intro psubset_card_mono) auto
    then have IH: "\<exists>path extra more. walk ms p (insert current seen) c v n = Inr (c @ path, v @ extra, n @ more) \<and>
        walks ms p (insert current seen) path extra" for c v n
      by (rule less(1)) (simp add: 4(3))
    let ?bad = "fst (check_policy p current (m_release_terms pm)) @
        check_monotone_rights current (m_release_terms m) p (m_release_terms pm)"
    let ?notes = "snd (check_policy p current (m_release_terms pm))"
    obtain path extra more where
      w: "walk ms p (insert current seen) (chain @ [current]) (vs @ ?bad) (ns @ ?notes) =
          Inr ((chain @ [current]) @ path, (vs @ ?bad) @ extra, (ns @ ?notes) @ more)"
      and p: "walks ms p (insert current seen) path extra" using IH by blast
    have "walk ms current seen chain vs ns = Inr (chain @ (current # path), vs @ (?bad @ extra), ns @ (?notes @ more))"
      unfolding walk_parent [OF 4(1) m 4(2,3)] w by simp
    with walks_step [OF 4(1) m 4(2,3) p step_violations] show ?thesis by blast
  qed
qed

lemma lineage_environments:
  assumes "lineage ms q" and "h \<in> set q" and "map_of ms (hd q) = Some m" and "map_of ms h = Some a"
  shows "set (rt_permitted_environments (m_release_terms m)) \<subseteq> set (rt_permitted_environments (m_release_terms a))"
  using assms
proof (induction arbitrary: m rule: lineage.induct)
  case (derived h' m' p pm rest)
  then show ?case
  proof (cases "h = h'")
    case False
    with derived.prems(1) have "h \<in> set (p # rest)" by simp
    from derived.IH [OF this _ derived.prems(3), of pm] derived show ?thesis by (auto simp: grants_def)
  qed auto
qed auto

text \<open>
  C30 (lineage). The verifier always answers. Its verdict is positive exactly when the leaf has a
  chain of parents to a root that repeats no manifest, in which every parent grants its child,
  none of whose members is revoked and all of which are logged when a log is given; the chain it
  reports is then that one, and the leaf is permitted no environment that any ancestor is not.
\<close>

theorem lineage_ok_iff:
  "\<exists>r. verify_lineage ms leaf logged revoked = Inr r \<and>
    (lr_ok r \<longleftrightarrow> (\<exists>chain. lineage ms chain \<and> hd chain = leaf \<and> distinct chain \<and>
       (\<forall>hs. revoked = Some hs \<longrightarrow> set chain \<inter> set hs = {}) \<and> (\<forall>hs. logged = Some hs \<longrightarrow> set chain \<subseteq> set hs))) \<and>
    (lr_ok r \<longrightarrow> lineage ms (lr_chain r) \<and> hd (lr_chain r) = leaf \<and>
       (\<forall>h m a. h \<in> set (lr_chain r) \<and> map_of ms leaf = Some m \<and> map_of ms h = Some a \<longrightarrow>
          set (rt_permitted_environments (m_release_terms m)) \<subseteq> set (rt_permitted_environments (m_release_terms a))))"
proof (cases "map_of ms leaf")
  case None
  then have "\<not> (lineage ms chain \<and> hd chain = leaf)" for chain by (auto elim: lineage.cases)
  then have "\<not> (\<exists>chain. lineage ms chain \<and> hd chain = leaf \<and> P chain)" for P by blast
  with None show ?thesis by (simp add: verify_lineage_def) blast
next
  case (Some m)
  obtain path extra more where w: "walk ms leaf {} [] [] [] = Inr (path, extra, more)" "walks ms leaf {} path extra"
    using walk_spec [of ms leaf "{}" "[]" "[]" "[]"] Some by auto
  define vs1 where "vs1 = map (\<lambda>h. Revoked_in_lineage h leaf) (filter (\<lambda>h. h \<in> set (case revoked of None \<Rightarrow> [] | Some hs \<Rightarrow> hs)) path)"
  define vs2 where "vs2 = (case logged of None \<Rightarrow> [] | Some hs \<Rightarrow> map Not_in_log (filter (\<lambda>h. h \<notin> set hs) path))"
  have r: "verify_lineage ms leaf logged revoked = Inr \<lparr>lr_ok = (extra @ vs1 @ vs2 = []), lr_chain = path,
      lr_violations = extra @ vs1 @ vs2, lr_notes = more\<rparr>"
    by (simp add: verify_lineage_def Some w(1) vs1_def vs2_def Let_def)
  have v1: "vs1 = [] \<longleftrightarrow> (\<forall>hs. revoked = Some hs \<longrightarrow> set path \<inter> set hs = {})"
    by (auto simp: vs1_def filter_empty_conv split: option.splits)
  have v2: "vs2 = [] \<longleftrightarrow> (\<forall>hs. logged = Some hs \<longrightarrow> set path \<subseteq> set hs)"
    by (auto simp: vs2_def filter_empty_conv split: option.splits)
  have ok: "extra @ vs1 @ vs2 = [] \<longleftrightarrow> (\<exists>chain. lineage ms chain \<and> hd chain = leaf \<and> distinct chain \<and>
       (\<forall>hs. revoked = Some hs \<longrightarrow> set chain \<inter> set hs = {}) \<and> (\<forall>hs. logged = Some hs \<longrightarrow> set chain \<subseteq> set hs))"
    using w(2) v1 v2 unfolding walks_def append_is_Nil_conv by (metis inf_bot_right)
  have lin: "lineage ms path \<and> hd path = leaf \<and> (\<forall>h m a. h \<in> set path \<and> map_of ms leaf = Some m \<and> map_of ms h = Some a \<longrightarrow>
      set (rt_permitted_environments (m_release_terms m)) \<subseteq> set (rt_permitted_environments (m_release_terms a)))"
    if "extra @ vs1 @ vs2 = []"
  proof -
    have "lineage ms path" "hd path = leaf" using w(2) that by (simp_all add: walks_def)
    with lineage_environments [OF this(1)] show ?thesis by blast
  qed
  show ?thesis unfolding r by (intro exI [of _ "\<lparr>lr_ok = _, lr_chain = _, lr_violations = _, lr_notes = _\<rparr>"] conjI, rule refl)
    (simp_all only: lineage_result.simps ok [symmetric] lin simp_thms, use lin in blast)
qed

subsection \<open>A concrete chain\<close>

text \<open>
  The order of derivative policies is compared step by step, so a step through a manifest with no
  stated policy loses it: the leaf below allows unrestricted derivatives of a root that allows
  fine-tuning only, and the verdict is positive with one note.
\<close>

definition demo_terms :: "derivative_policy option \<Rightarrow> release_terms" where
  "demo_terms p = (m_release_terms demo_manifest)\<lparr>rt_derivatives := p\<rparr>"

definition demo_node :: "nat \<Rightarrow> derivative_policy option \<Rightarrow> pystr option \<Rightarrow> manifest" where
  "demo_node d p parent = demo_manifest\<lparr>m_weights_hash := demo_hash d, m_release_terms := demo_terms p, m_derived_from := parent\<rparr>"

definition demo_lineage :: "(pystr \<times> manifest) list" where
  "demo_lineage = [(demo_hash 0, demo_node 0 (Some unrestricted) (Some (demo_hash 1))),
     (demo_hash 1, demo_node 1 None (Some (demo_hash 2))), (demo_hash 2, demo_node 2 (Some fine_tune_only) None)]"

lemma demo_hash_inj [simp]: "demo_hash a = demo_hash b \<longleftrightarrow> a = b"
  by (simp add: demo_hash_def)

lemma demo_node_fields [simp]:
  "m_derived_from (demo_node d p parent) = parent" "m_release_terms (demo_node d p parent) = demo_terms p"
  by (simp_all add: demo_node_def)

lemma lineage_unspecified_policy_widens:
  "verify_lineage demo_lineage (demo_hash 0) None None = Inr \<lparr>lr_ok = True, lr_chain = [demo_hash 0, demo_hash 1, demo_hash 2],
     lr_violations = [], lr_notes = [Policy_unspecified (demo_hash 1)]\<rparr>"
proof -
  have n: "map_of demo_lineage (demo_hash 0) = Some (demo_node 0 (Some unrestricted) (Some (demo_hash 1)))"
    "map_of demo_lineage (demo_hash 1) = Some (demo_node 1 None (Some (demo_hash 2)))"
    "map_of demo_lineage (demo_hash 2) = Some (demo_node 2 (Some fine_tune_only) None)"
    by (simp_all add: demo_lineage_def)
  have t: "extra_environments (demo_terms p) (demo_terms q) = []" "rt_derivatives (demo_terms p) = p" for p q
    by (simp_all add: extra_environments_def demo_terms_def)
  have 1: "walk demo_lineage (demo_hash 0) {} [] [] [] =
      walk demo_lineage (demo_hash 1) {demo_hash 0} [demo_hash 0] [] [Policy_unspecified (demo_hash 1)]"
    using walk_parent [OF _ n(1) _ n(2), of "{}"] by (simp add: check_policy_def check_monotone_rights_def widened_def t)
  have 2: "walk demo_lineage (demo_hash 1) {demo_hash 0} [demo_hash 0] [] [Policy_unspecified (demo_hash 1)] =
      walk demo_lineage (demo_hash 2) {demo_hash 1, demo_hash 0} [demo_hash 0, demo_hash 1] [] [Policy_unspecified (demo_hash 1)]"
    using walk_parent [OF _ n(2) _ n(3), of "{demo_hash 0}"] by (simp add: check_policy_def check_monotone_rights_def widened_def t)
  have 3: "walk demo_lineage (demo_hash 2) {demo_hash 1, demo_hash 0} [demo_hash 0, demo_hash 1] [] [Policy_unspecified (demo_hash 1)] =
      Inr ([demo_hash 0, demo_hash 1, demo_hash 2], [], [Policy_unspecified (demo_hash 1)])"
    by (subst walk_root [OF _ n(3)]) simp_all
  show ?thesis unfolding verify_lineage_def 1 2 3 by (simp add: n)
qed

theorem lineage_ok_iff_witness:
  "lineage demo_lineage [demo_hash 0, demo_hash 1, demo_hash 2]"
  using lineage_ok_iff [of demo_lineage "demo_hash 0" None None] lineage_unspecified_policy_widens by auto

end
