(* ===== verification/Verify.thy ===== *)
theory Verify
  imports Models
begin

section \<open>Joint signatures (\<open>_verify.py\<close>)\<close>

text \<open>
  The verification context (trusted keys and role bindings), the verification of each signature
  block, the search for distinct keys over the required roles, the advisory notes and
  \<open>verify_manifest\<close>. A trusted key carries its algorithm, as the pair in the source's table
  does. The main result: a manifest is accepted exactly when every signature block verifies under
  a trusted key authorized for its role and distinct keys cover the required roles, the builder
  and the custodian sharing one only in declared self-custody.
\<close>

subsection \<open>The verification context\<close>

datatype trusted_key =
    Ed25519_key bytes
  | Ml_dsa65_key bytes
  | Hybrid_key bytes bytes

fun tk_algorithm :: "trusted_key \<Rightarrow> signature_algorithm" where
  "tk_algorithm (Ed25519_key b) = ed25519"
| "tk_algorithm (Ml_dsa65_key b) = ml_dsa_65"
| "tk_algorithm (Hybrid_key a b) = hybrid"

record verification_context =
  vc_keys :: "(pystr \<times> trusted_key) list"
  vc_bindings :: "(pystr \<times> signature_role \<times> pystr) set"

definition new_context :: verification_context where
  "new_context = \<lparr>vc_keys = [], vc_bindings = {}\<rparr>"

definition bind_key :: "pystr \<Rightarrow> signature_role \<Rightarrow> pystr \<Rightarrow> verification_context \<Rightarrow> verification_context result" where
  "bind_key kid role signer ctx =
     (if map_of (vc_keys ctx) kid = None then Inl (ValueError (us ''cannot bind an untrusted key_id''))
      else if list_all re_space signer then Inl (ValueError (us ''signer binding must be a nonempty identity''))
      else Inr (ctx\<lparr>vc_bindings := insert (kid, role, signer) (vc_bindings ctx)\<rparr>))"

definition required_roles :: "manifest \<Rightarrow> signature_role list" where
  "required_roles m =
     [role_builder, role_custodian] @
     (if sp_enabled (rp_sovereign_profile (m_release_policy m)) then [role_sovereign] else [])"

text \<open>The identity a required role must sign as.\<close>

definition role_identity :: "manifest \<Rightarrow> signature_role \<Rightarrow> pystr option" where
  "role_identity m role =
     (case role of role_builder \<Rightarrow> Some (b_identity (m_builder m))
      | role_custodian \<Rightarrow> Some (cu_custodian (m_custody m))
      | role_sovereign \<Rightarrow> sp_sovereign_signer (rp_sovereign_profile (m_release_policy m))
      | role_additional \<Rightarrow> None)"

definition role_authorized ::
  "verification_context \<Rightarrow> pystr \<Rightarrow> signature_role \<Rightarrow> pystr \<Rightarrow> manifest \<Rightarrow> bool" where
  "role_authorized ctx kid role signer m \<longleftrightarrow>
     (if vc_bindings ctx = {} \<or> role \<notin> set (required_roles m) then True
      else Some signer = role_identity m role \<and> (kid, role, signer) \<in> vc_bindings ctx)"

definition add_key :: "('x) crypto_scheme \<Rightarrow> bytes \<Rightarrow> verification_context \<Rightarrow> (pystr \<times> verification_context) result" where
  "add_key cr public_key_bytes ctx =
     rbind (ed25519_verifier cr public_key_bytes) (\<lambda>pub.
       let kid = key_id cr pub
       in Inr (kid, ctx\<lparr>vc_keys := AList.update kid (Ed25519_key public_key_bytes) (vc_keys ctx)\<rparr>))"

definition add_key_b64url :: "('x) crypto_scheme \<Rightarrow> pystr \<Rightarrow> verification_context \<Rightarrow> (pystr \<times> verification_context) result" where
  "add_key_b64url cr s ctx = rbind (b64url_decode s) (\<lambda>b. add_key cr b ctx)"

definition add_ml_dsa65_key :: "('x) crypto_scheme \<Rightarrow> bytes \<Rightarrow> verification_context \<Rightarrow> (pystr \<times> verification_context) result" where
  "add_ml_dsa65_key cr public_key_bytes ctx =
     rbind (ml_dsa65_verifier cr public_key_bytes) (\<lambda>pub.
       let kid = key_id cr pub
       in Inr (kid, ctx\<lparr>vc_keys := AList.update kid (Ml_dsa65_key public_key_bytes) (vc_keys ctx)\<rparr>))"

definition add_hybrid_key :: "('x) crypto_scheme \<Rightarrow> bytes \<Rightarrow> bytes \<Rightarrow> verification_context \<Rightarrow> pystr \<times> verification_context" where
  "add_hybrid_key cr ed_bytes ml_bytes ctx =
     (let kid = hex_of_bytes (sha256 cr (ed_bytes @ ml_bytes))
      in (kid, ctx\<lparr>vc_keys := AList.update kid (Hybrid_key ed_bytes ml_bytes) (vc_keys ctx)\<rparr>))"

definition ctx_get :: "verification_context \<Rightarrow> pystr \<Rightarrow> bytes option" where
  "ctx_get ctx kid = (case map_of (vc_keys ctx) kid of Some (Ed25519_key b) \<Rightarrow> Some b | _ \<Rightarrow> None)"

subsection \<open>One signature\<close>

definition verify_one ::
  "('x) crypto_scheme \<Rightarrow> trusted_key \<Rightarrow> (pystr \<times> json) list \<Rightarrow> manifest_signature \<Rightarrow> unit result" where
  "verify_one cr key body sig =
     (case key of
        Ed25519_key b \<Rightarrow> rbind (ed25519_verifier cr b) (\<lambda>pub. ed25519_verify cr pub body (sg_signature_value sig))
      | Ml_dsa65_key b \<Rightarrow> rbind (ml_dsa65_verifier cr b) (\<lambda>pub. ml_dsa65_verify cr pub body (sg_signature_value sig))
      | Hybrid_key a b \<Rightarrow>
          (case (sg_classical_signature sig, sg_pq_signature sig) of
             (Some c, Some p) \<Rightarrow>
               if c = [] \<or> p = [] then Inl (InvalidSignature (us ''hybrid signature is missing a component''))
               else rbind (hybrid_verifier cr a b) (\<lambda>v. hybrid_verify cr v body c p)
           | _ \<Rightarrow> Inl (InvalidSignature (us ''hybrid signature is missing a component''))))"

record signature_result =
  sr_role :: signature_role
  sr_signer :: pystr
  sr_key_id :: pystr
  sr_valid :: bool
  sr_reason :: "pystr option"

definition signature_result_of :: "manifest_signature \<Rightarrow> bool \<Rightarrow> pystr option \<Rightarrow> signature_result" where
  "signature_result_of sig valid reason =
     \<lparr>sr_role = sg_role sig, sr_signer = sg_signer sig, sr_key_id = sg_key_id sig, sr_valid = valid, sr_reason = reason\<rparr>"

text \<open>The body of the loop over the signatures.\<close>

definition check_signature ::
  "('x) crypto_scheme \<Rightarrow> verification_context \<Rightarrow> manifest \<Rightarrow> manifest_signature \<Rightarrow> signature_result result" where
  "check_signature cr ctx m sig =
     (case map_of (vc_keys ctx) (sg_key_id sig) of
        None \<Rightarrow> Inr (signature_result_of sig False (Some (us ''untrusted key_id (not in verification context)'')))
      | Some key \<Rightarrow>
          if tk_algorithm key \<noteq> sg_algorithm sig
          then Inr (signature_result_of sig False (Some (us ''algorithm mismatch: key trusted for '' @
                 signature_algorithm_value (tk_algorithm key) @ us '', signature is '' @ signature_algorithm_value (sg_algorithm sig))))
          else (case verify_one cr key (unsigned_dict m) sig of
                  Inr _ \<Rightarrow>
                    if \<not> role_authorized ctx (sg_key_id sig) (sg_role sig) (sg_signer sig) m
                    then Inr (signature_result_of sig False (Some (us ''key is not bound to required role and manifest signer identity'')))
                    else Inr (signature_result_of sig True None)
                | Inl e \<Rightarrow>
                    if is_InvalidSignature e \<or> is_ValueError e
                    then Inr (signature_result_of sig False (Some (us ''signature verification failed: '' @ exn_text e)))
                    else Inl e))"

subsection \<open>Distinct keys for the required roles\<close>

definition candidate_keys :: "manifest \<Rightarrow> signature_result list \<Rightarrow> signature_role \<Rightarrow> pystr option list" where
  "candidate_keys m results role =
     map Some (sort (remdups (map sr_key_id (filter (\<lambda>r. sr_valid r \<and> sr_role r = role \<and>
       (role \<noteq> role_sovereign \<or> Some (sr_signer r) = sp_sovereign_signer (rp_sovereign_profile (m_release_policy m)))) results))))
     @ [None]"

definition shared_ok :: "manifest \<Rightarrow> bool" where
  "shared_ok m \<longleftrightarrow> m_deployment_model m = byom_symmetric \<and> b_identity (m_builder m) = cu_custodian (m_custody m)"

fun pairs :: "'a list \<Rightarrow> ('a \<times> 'a) list" where
  "pairs [] = []"
| "pairs (x # xs) = map (Pair x) xs @ pairs xs"

definition clash :: "manifest \<Rightarrow> (signature_role \<times> pystr) list \<Rightarrow> bool" where
  "clash m chosen \<longleftrightarrow> list_ex (\<lambda>((r1, k1), (r2, k2)). k1 = k2 \<and>
     \<not> (shared_ok m \<and> {r1, r2} = {role_builder, role_custodian})) (pairs chosen)"

definition chosen_of :: "signature_role list \<Rightarrow> pystr option list \<Rightarrow> (signature_role \<times> pystr) list" where
  "chosen_of roles combo = List.map_filter (\<lambda>(r, k). map_option (Pair r) k) (zip roles combo)"

definition roles_with_distinct_keys ::
  "manifest \<Rightarrow> signature_result list \<Rightarrow> signature_role list \<Rightarrow> signature_role set" where
  "roles_with_distinct_keys m results roles =
     fold (\<lambda>combo best.
         let chosen = chosen_of roles combo
         in if length chosen \<le> card best \<or> clash m chosen then best else fst ` set chosen)
       (product_lists (map (candidate_keys m results) roles)) {}"

subsection \<open>Advisory notes\<close>

text \<open>\<open>", ".join\<close>; an apostrophe in a message is the code point 39.\<close>

fun join_comma :: "pystr list \<Rightarrow> pystr" where
  "join_comma [] = []"
| "join_comma [x] = x"
| "join_comma (x # xs) = x @ us '', '' @ join_comma xs"

definition secrecy_controls :: "release_policy \<Rightarrow> pystr list" where
  "secrecy_controls rp =
     (if rp_memory_fingerprint_challenge rp = required_for_hostile_owner_posture then [us ''memory_fingerprint_challenge''] else []) @
     (if rp_physical_hardening rp = tamper_evident then [us ''physical_hardening''] else []) @
     (if rp_tenancy rp = tenancy_dedicated then [us ''tenancy=dedicated''] else [])"

definition consistency_notes :: "manifest \<Rightarrow> pystr list" where
  "consistency_notes m =
     (case m_base_confidentiality m of
        open_weights \<Rightarrow>
          [us ''base_confidentiality '' @ [39] @ us ''open'' @ [39] @ us '': attestation-gated release here protects the integrity and provenance of the served stack and enforces the license, derivative, and revocation terms. It does NOT protect the secrecy of the base weights, which are public.''] @
          (let controls = secrecy_controls (m_release_policy m)
           in if controls \<noteq> [] then [us ''these controls defend base-weight secrecy and add little for an open base (consider dropping the cost): '' @ join_comma controls] else [])
      | gated_open \<Rightarrow> [us ''base_confidentiality '' @ [39] @ us ''gated-open'' @ [39] @ us '': the base'' @ [39] @ us ''s secrecy is license-gated, not cryptographic; key release adds integrity and provenance and enforces the gate'' @ [39] @ us ''s terms.'']
      | confidential \<Rightarrow> []) @
     (if m_deployment_model m = byom_symmetric
      then if b_identity (m_builder m) = cu_custodian (m_custody m)
           then [us ''deployment_model '' @ [39] @ us ''byom-symmetric'' @ [39] @ us '': builder and custodian are one identity ('' @ [39] @ b_identity (m_builder m) @ [39] @ us '') holding both roles (self-custody).'']
           else [us ''deployment_model '' @ [39] @ us ''byom-symmetric'' @ [39] @ us '' declared, but builder ('' @ [39] @ b_identity (m_builder m) @ [39] @ us '') and custodian ('' @ [39] @ cu_custodian (m_custody m) @ [39] @ us '') differ; confirm both belong to the same governing org.'']
      else []) @
     (case Option.bind (m_provenance m) pv_model_signing of
        None \<Rightarrow> []
      | Some ms \<Rightarrow>
          let loc = (case ms_transparency ms of None \<Rightarrow> [] | Some t \<Rightarrow> if t = [] then [] else us '', transparency='' @ t)
          in [us ''provenance: references an OpenSSF model-signing signature (method '' @ [39] @ us ''openssf-model-signing'' @ [39] @ us '', signed_digest '' @ ms_signed_digest ms @ loc @ us ''). The reference is under the joint signature; call verify_provenance to cryptographically check that model-signing signature against the model files.''])"

subsection \<open>The verdict\<close>

record verification_result =
  vr_ok :: bool
  vr_signatures :: "signature_result list"
  vr_missing_roles :: "signature_role list"
  vr_errors :: "pystr list"
  vr_notes :: "pystr list"

definition sovereign_missing :: "manifest \<Rightarrow> signature_result list \<Rightarrow> bool" where
  "sovereign_missing m results \<longleftrightarrow>
     (let sp = rp_sovereign_profile (m_release_policy m)
      in sp_enabled sp \<and>
         \<not> list_ex (\<lambda>r. sr_valid r \<and> sr_role r = role_sovereign \<and> Some (sr_signer r) = sp_sovereign_signer sp) results)"

definition sovereign_error :: "manifest \<Rightarrow> pystr" where
  "sovereign_error m =
     (let sp = rp_sovereign_profile (m_release_policy m)
      in us ''sovereign_profile.enabled but no valid signature from sovereign_signer '' @ [39] @ (case sp_sovereign_signer sp of None \<Rightarrow> us ''None'' | Some x \<Rightarrow> x) @ [39])"

definition shared_key_error :: "signature_role \<Rightarrow> pystr" where
  "shared_key_error role = us ''required role '' @ [39] @ signature_role_value role @ [39] @ us '' is signed only by a key that already signs as another required role; each required role needs its own key''"

fun check_all ::
  "('x) crypto_scheme \<Rightarrow> verification_context \<Rightarrow> manifest \<Rightarrow> manifest_signature list \<Rightarrow> signature_result list result" where
  "check_all cr ctx m [] = Inr []"
| "check_all cr ctx m (sig # sigs) =
     rbind (check_signature cr ctx m sig) (\<lambda>r. rbind (check_all cr ctx m sigs) (\<lambda>rs. Inr (r # rs)))"

text \<open>What \<open>verify_manifest\<close> does after its loop.\<close>

definition judge :: "manifest \<Rightarrow> signature_result list \<Rightarrow> verification_result" where
  "judge m results =
     (let valid0 = sr_role ` set (filter sr_valid results);
          valid1 = (if sovereign_missing m results then valid0 - {role_sovereign} else valid0);
          errors1 = (if sovereign_missing m results then [sovereign_error m] else []);
          required = required_roles m;
          covered = roles_with_distinct_keys m results (filter (\<lambda>r. r \<in> valid1) required);
          shared = filter (\<lambda>r. r \<in> valid1 \<and> r \<notin> covered) required;
          valid2 = valid1 - set shared;
          missing = filter (\<lambda>r. r \<notin> valid2) required
      in \<lparr>vr_ok = (missing = [] \<and> list_all sr_valid results), vr_signatures = results, vr_missing_roles = missing,
          vr_errors = errors1 @ map shared_key_error shared, vr_notes = consistency_notes m\<rparr>)"

definition verify_manifest :: "('x) crypto_scheme \<Rightarrow> manifest \<Rightarrow> verification_context \<Rightarrow> verification_result result" where
  "verify_manifest cr m ctx = rbind (check_all cr ctx m (m_signatures m)) (\<lambda>results. Inr (judge m results))"

subsection \<open>The search finds a full assignment when there is one\<close>

text \<open>Distinct keys cover \<open>roles\<close>: every role has a candidate key and no two clash.\<close>

definition covers :: "manifest \<Rightarrow> (signature_role \<Rightarrow> pystr set) \<Rightarrow> signature_role list \<Rightarrow> (signature_role \<Rightarrow> pystr) \<Rightarrow> bool" where
  "covers m cands roles assign \<longleftrightarrow>
     (\<forall>r\<in>set roles. assign r \<in> cands r) \<and>
     (\<forall>r1\<in>set roles. \<forall>r2\<in>set roles. r1 \<noteq> r2 \<and> assign r1 = assign r2 \<longrightarrow>
        shared_ok m \<and> {r1, r2} = {role_builder, role_custodian})"

lemma chosen_of_length: "length (chosen_of roles combo) \<le> length roles"
  unfolding chosen_of_def map_filter_def length_map by (rule le_trans [OF length_filter_le]) simp

lemma chosen_of_Nil [simp]: "chosen_of [] combo = []"
  by (simp add: chosen_of_def map_filter_simps)

lemma chosen_of_Cons [simp]:
  "chosen_of (r # roles) (k # combo) = (case k of None \<Rightarrow> [] | Some x \<Rightarrow> [(r, x)]) @ chosen_of roles combo"
  by (cases k) (simp_all add: chosen_of_def map_filter_simps)

lemma chosen_of_roles: "fst ` set (chosen_of roles combo) \<subseteq> set roles"
  by (auto simp: chosen_of_def map_filter_def dest: set_zip_leftD)

lemma chosen_of_full:
  "length combo = length roles \<Longrightarrow> length (chosen_of roles combo) = length roles \<Longrightarrow>
   \<exists>ks. combo = map Some ks \<and> length ks = length roles \<and> chosen_of roles combo = zip roles ks"
proof (induction combo roles rule: list_induct2)
  case (Cons k combo r roles)
  with chosen_of_length [of roles combo] obtain x where x: "k = Some x" "length (chosen_of roles combo) = length roles"
    by (cases k) auto
  with Cons.IH obtain ks where "combo = map Some ks" "length ks = length roles" "chosen_of roles combo = zip roles ks" by auto
  with x show ?case by (intro exI [of _ "x # ks"]) simp
qed simp

lemma chosen_of_Some: "length ks = length roles \<Longrightarrow> chosen_of roles (map Some ks) = zip roles ks"
  by (induction ks roles rule: list_induct2) simp_all

text \<open>A search that keeps the best so far reaches the full set exactly if some candidate is full.\<close>

lemma search_full:
  fixes sel :: "'c \<Rightarrow> ('r \<times> 'k) list"
  assumes "distinct roles" "\<And>c. distinct (map fst (sel c))" "\<And>c. fst ` set (sel c) \<subseteq> set roles"
    and "best \<subseteq> set roles"
  shows "fold (\<lambda>c best. if length (sel c) \<le> card best \<or> bad (sel c) then best else fst ` set (sel c)) cs best = set roles \<longleftrightarrow>
     best = set roles \<or> (\<exists>c\<in>set cs. \<not> bad (sel c) \<and> length (sel c) = length roles)"
  using assms(4)
proof (induction cs arbitrary: best)
  case (Cons c cs)
  let ?b = "if length (sel c) \<le> card best \<or> bad (sel c) then best else fst ` set (sel c)"
  have card: "card (fst ` set (sel c)) = length (sel c)" using assms(2) [of c] by (metis distinct_card length_map set_map)
  have full: "b = set roles \<longleftrightarrow> card b = length roles" if "b \<subseteq> set roles" for b
    using that assms(1) by (metis List.finite_set card_subset_eq distinct_card)
  have le: "card b \<le> length roles" if "b \<subseteq> set roles" for b
    using that assms(1) by (metis List.finite_set card_mono distinct_card)
  have "?b \<subseteq> set roles" using Cons.prems assms(3) by simp
  from Cons.IH [OF this] have "fold (\<lambda>c best. if length (sel c) \<le> card best \<or> bad (sel c) then best else fst ` set (sel c)) (c # cs) best = set roles \<longleftrightarrow>
      ?b = set roles \<or> (\<exists>c\<in>set cs. \<not> bad (sel c) \<and> length (sel c) = length roles)" by simp
  moreover have "?b = set roles \<longleftrightarrow> best = set roles \<or> \<not> bad (sel c) \<and> length (sel c) = length roles"
    using full [OF Cons.prems] full [OF assms(3) [of c]] le [OF assms(3) [of c]] le [OF Cons.prems] card by auto
  ultimately show ?case by auto
qed simp

lemma set_pairs: "set (pairs xs) = {(xs ! i, xs ! j) |i j. i < j \<and> j < length xs}"
proof (induction xs)
  case (Cons x xs)
  have "(\<exists>i j. p = ((x # xs) ! i, (x # xs) ! j) \<and> i < j \<and> j < length (x # xs)) \<longleftrightarrow>
      (\<exists>j<length xs. p = (x, xs ! j)) \<or> (\<exists>i j. p = (xs ! i, xs ! j) \<and> i < j \<and> j < length xs)" (is "?L \<longleftrightarrow> ?R") for p
  proof
    assume ?L
    then obtain i j where ij: "p = ((x # xs) ! i, (x # xs) ! j)" "i < j" "j < length (x # xs)" by blast
    then obtain j' where "j = Suc j'" by (cases j) auto
    with ij show ?R by (cases i) auto
  next
    assume ?R
    then show ?L
    proof (elim disjE exE conjE)
      fix j assume "j < length xs" "p = (x, xs ! j)"
      then show ?L by (intro exI [of _ 0] exI [of _ "Suc j"]) simp
    next
      fix i j assume "p = (xs ! i, xs ! j)" "i < j" "j < length xs"
      then show ?L by (intro exI [of _ "Suc i"] exI [of _ "Suc j"]) simp
    qed
  qed
  moreover have "p \<in> Pair x ` set xs \<longleftrightarrow> (\<exists>j<length xs. p = (x, xs ! j))" for p by (auto simp: in_set_conv_nth image_iff)
  ultimately show ?case by (intro set_eqI) (simp only: pairs.simps set_append set_map Un_iff Cons.IH mem_Collect_eq)
qed simp

lemma clash_zip:
  assumes "length ks = length roles"
  shows "clash m (zip roles ks) \<longleftrightarrow> (\<exists>i j. i < j \<and> j < length roles \<and> ks ! i = ks ! j \<and>
     \<not> (shared_ok m \<and> {roles ! i, roles ! j} = {role_builder, role_custodian}))"
proof -
  have "list_ex Q (pairs xs) \<longleftrightarrow> (\<exists>i j. i < j \<and> j < length xs \<and> Q (xs ! i, xs ! j))" for Q and xs :: "(signature_role \<times> pystr) list"
    unfolding list_ex_iff set_pairs by blast
  from this [of "\<lambda>((r1, k1), (r2, k2)). k1 = k2 \<and> \<not> (shared_ok m \<and> {r1, r2} = {role_builder, role_custodian})" "zip roles ks"]
  show ?thesis unfolding clash_def using assms by (simp cong: conj_cong)
qed

lemma distinct_chosen_of: "distinct roles \<Longrightarrow> distinct (map fst (chosen_of roles combo))"
proof (induction roles arbitrary: combo)
  case (Cons r roles)
  show ?case
  proof (cases combo)
    case Nil
    then show ?thesis by (simp add: chosen_of_def map_filter_simps)
  next
    case (Cons k rest)
    with Cons.IH [of rest] Cons.prems chosen_of_roles [of roles rest] show ?thesis by (cases k) auto
  qed
qed simp

text \<open>The combinations the search tries, as one condition per position.\<close>

lemma in_combos:
  "c \<in> set (product_lists (map f roles)) \<longleftrightarrow> length c = length roles \<and> (\<forall>i<length roles. c ! i \<in> set (f (roles ! i)))"
  unfolding product_lists_set list_all2_conv_all_nth by auto

lemma full_combo_covers:
  assumes "distinct roles" "length ks = length roles" "\<not> clash m (zip roles ks)"
    and "\<And>i. i < length roles \<Longrightarrow> ks ! i \<in> cands (roles ! i)"
  shows "covers m cands roles (\<lambda>r. the (map_of (zip roles ks) r))"
proof -
  let ?a = "\<lambda>r. the (map_of (zip roles ks) r)"
  have a: "?a (roles ! i) = ks ! i" if "i < length roles" for i using assms(1,2) that by (simp add: map_of_zip_nth)
  have P: "shared_ok m \<and> {roles ! i, roles ! j} = {role_builder, role_custodian}"
    if "i < j" "j < length roles" "ks ! i = ks ! j" for i j
    using assms(3) that unfolding clash_zip [OF assms(2)] by blast
  show ?thesis unfolding covers_def
  proof (intro conjI ballI impI)
    fix r assume "r \<in> set roles"
    then obtain i where "i < length roles" "roles ! i = r" by (auto simp: in_set_conv_nth)
    then show "?a r \<in> cands r" using a assms(4) by force
  next
    fix r1 r2 assume r: "r1 \<in> set roles" "r2 \<in> set roles" "r1 \<noteq> r2 \<and> ?a r1 = ?a r2"
    obtain i where i: "i < length roles" "roles ! i = r1" using r(1) by (auto simp: in_set_conv_nth)
    obtain j where j: "j < length roles" "roles ! j = r2" using r(2) by (auto simp: in_set_conv_nth)
    have k: "ks ! i = ks ! j" using r(3) a [OF i(1)] a [OF j(1)] i(2) j(2) by simp
    consider "i < j" | "j < i" using i(2) j(2) r(3) by (cases i j rule: linorder_cases) auto
    then have "shared_ok m \<and> {r1, r2} = {role_builder, role_custodian}"
    proof cases
      case 1
      from P [OF this j(1) k] show ?thesis by (simp add: i(2) j(2))
    next
      case 2
      from P [OF this i(1) k [symmetric]] show ?thesis by (simp add: i(2) j(2) insert_commute)
    qed
    then show "shared_ok m" "{r1, r2} = {role_builder, role_custodian}" by auto
  qed
qed

lemma covers_full_combo:
  assumes "distinct roles" "covers m cands roles assign"
  shows "\<not> clash m (zip roles (map assign roles))"
proof
  assume "clash m (zip roles (map assign roles))"
  then obtain i j where ij: "i < j" "j < length roles" "map assign roles ! i = map assign roles ! j"
    "\<not> (shared_ok m \<and> {roles ! i, roles ! j} = {role_builder, role_custodian})"
    unfolding clash_zip [of "map assign roles" roles, OF length_map] by (elim exE conjE)
  then have "assign (roles ! i) = assign (roles ! j)" "roles ! i \<noteq> roles ! j" "roles ! i \<in> set roles" "roles ! j \<in> set roles"
    using assms(1) by (simp_all add: nth_eq_iff_index_eq)
  with assms(2) ij(4) show False unfolding covers_def by blast
qed

lemma roles_with_distinct_keys_full:
  assumes "distinct roles" and "roles \<noteq> []"
  shows "roles_with_distinct_keys m results roles = set roles \<longleftrightarrow>
    (\<exists>assign. covers m (\<lambda>r. {k. Some k \<in> set (candidate_keys m results r)}) roles assign)"
proof -
  let ?combos = "product_lists (map (candidate_keys m results) roles)"
  let ?cands = "\<lambda>r. {k. Some k \<in> set (candidate_keys m results r)}"
  have "roles_with_distinct_keys m results roles = set roles \<longleftrightarrow> {} = set roles \<or>
     (\<exists>c\<in>set ?combos. \<not> clash m (chosen_of roles c) \<and> length (chosen_of roles c) = length roles)"
    unfolding roles_with_distinct_keys_def Let_def
    by (rule search_full [where sel = "chosen_of roles" and bad = "clash m", OF assms(1) distinct_chosen_of [OF assms(1)] chosen_of_roles]) simp
  also have "\<dots> \<longleftrightarrow> (\<exists>assign. covers m ?cands roles assign)"
  proof
    assume "{} = set roles \<or> (\<exists>c\<in>set ?combos. \<not> clash m (chosen_of roles c) \<and> length (chosen_of roles c) = length roles)"
    then obtain c where c: "c \<in> set ?combos" "\<not> clash m (chosen_of roles c)" "length (chosen_of roles c) = length roles"
      using assms(2) by auto
    then obtain ks where "c = map Some ks" "length ks = length roles" "chosen_of roles c = zip roles ks"
      using chosen_of_full [of c roles] unfolding in_combos by blast
    with c full_combo_covers [OF assms(1), of ks m ?cands] show "\<exists>assign. covers m ?cands roles assign"
      unfolding in_combos by auto
  next
    assume "\<exists>assign. covers m ?cands roles assign"
    then obtain assign where a: "covers m ?cands roles assign" ..
    let ?c = "map Some (map assign roles)"
    have z: "chosen_of roles ?c = zip roles (map assign roles)" by (rule chosen_of_Some) simp
    have "?c \<in> set ?combos" unfolding in_combos using a by (simp add: covers_def)
    with covers_full_combo [OF assms(1) a] z
    show "{} = set roles \<or> (\<exists>c\<in>set ?combos. \<not> clash m (chosen_of roles c) \<and> length (chosen_of roles c) = length roles)"
      by (intro disjI2 bexI [of _ ?c]) simp_all
  qed
  finally show ?thesis .
qed

subsection \<open>When a manifest is accepted\<close>

text \<open>A signature block that counts: a trusted key of the same algorithm verifies it over the
  manifest's signed fields and is authorized for its role.\<close>

definition block_ok :: "('x) crypto_scheme \<Rightarrow> verification_context \<Rightarrow> manifest \<Rightarrow> manifest_signature \<Rightarrow> bool" where
  "block_ok cr ctx m sig \<longleftrightarrow> (\<exists>key. map_of (vc_keys ctx) (sg_key_id sig) = Some key \<and> tk_algorithm key = sg_algorithm sig \<and>
     verify_one cr key (unsigned_dict m) sig = Inr () \<and> role_authorized ctx (sg_key_id sig) (sg_role sig) (sg_signer sig) m)"

text \<open>The keys that sign for a role; a sovereign block must name the declared sovereign.\<close>

definition signing_keys :: "('x) crypto_scheme \<Rightarrow> verification_context \<Rightarrow> manifest \<Rightarrow> signature_role \<Rightarrow> pystr set" where
  "signing_keys cr ctx m role = {sg_key_id sig |sig. sig \<in> set (m_signatures m) \<and> block_ok cr ctx m sig \<and> sg_role sig = role \<and>
     (role = role_sovereign \<longrightarrow> Some (sg_signer sig) = sp_sovereign_signer (rp_sovereign_profile (m_release_policy m)))}"

lemma check_signature_fields:
  assumes "check_signature cr ctx m sig = Inr r"
  shows "sr_role r = sg_role sig \<and> sr_signer r = sg_signer sig \<and> sr_key_id r = sg_key_id sig \<and> (sr_valid r \<longleftrightarrow> block_ok cr ctx m sig)"
  using assms
  by (auto simp: check_signature_def signature_result_of_def block_ok_def split: option.splits if_splits sum.splits)

lemma check_all_nth:
  "check_all cr ctx m sigs = Inr rs \<Longrightarrow> list_all2 (\<lambda>sig r. check_signature cr ctx m sig = Inr r) sigs rs"
  by (induction sigs arbitrary: rs) (auto simp: rbind_Inr_iff)

lemma candidates_eq:
  assumes "check_all cr ctx m (m_signatures m) = Inr rs"
  shows "{k. Some k \<in> set (candidate_keys m rs role)} = signing_keys cr ctx m role"
proof -
  note l = check_all_nth [OF assms]
  have "(\<exists>r\<in>set rs. sr_key_id r = k \<and> sr_valid r \<and> sr_role r = role \<and> P (sr_signer r)) \<longleftrightarrow>
    (\<exists>sig\<in>set (m_signatures m). sg_key_id sig = k \<and> block_ok cr ctx m sig \<and> sg_role sig = role \<and> P (sg_signer sig))" for k P
    using l by (induction rule: list_all2_induct) (auto dest!: check_signature_fields)
  note eq = this [of _ "\<lambda>s. role = role_sovereign \<longrightarrow> Some s = sp_sovereign_signer (rp_sovereign_profile (m_release_policy m))"]
  have "Some k \<in> set (candidate_keys m rs role) \<longleftrightarrow> (\<exists>r\<in>set rs. sr_key_id r = k \<and> sr_valid r \<and> sr_role r = role \<and>
      (role = role_sovereign \<longrightarrow> Some (sr_signer r) = sp_sovereign_signer (rp_sovereign_profile (m_release_policy m))))" for k
    by (auto simp: candidate_keys_def image_iff)
  moreover have "k \<in> signing_keys cr ctx m role \<longleftrightarrow> (\<exists>sig\<in>set (m_signatures m). sg_key_id sig = k \<and> block_ok cr ctx m sig \<and> sg_role sig = role \<and>
      (role = role_sovereign \<longrightarrow> Some (sg_signer sig) = sp_sovereign_signer (rp_sovereign_profile (m_release_policy m))))" for k
    by (auto simp: signing_keys_def)
  ultimately show ?thesis by (intro set_eqI) (simp only: mem_Collect_eq eq)
qed

lemma candidates_role:
  assumes "covers m (\<lambda>r. {k. Some k \<in> set (candidate_keys m results r)}) roles assign" and "r \<in> set roles"
  shows "r \<in> sr_role ` set (filter sr_valid results)"
    and "r = role_sovereign \<Longrightarrow> \<exists>x\<in>set results. sr_valid x \<and> sr_role x = role_sovereign \<and>
       Some (sr_signer x) = sp_sovereign_signer (rp_sovereign_profile (m_release_policy m))"
proof -
  have "Some (assign r) \<in> set (candidate_keys m results r)" using assms by (simp add: covers_def)
  then obtain x where "x \<in> set results" "sr_valid x" "sr_role x = r"
    "r = role_sovereign \<longrightarrow> Some (sr_signer x) = sp_sovereign_signer (rp_sovereign_profile (m_release_policy m))"
    by (auto simp: candidate_keys_def)
  then show "r \<in> sr_role ` set (filter sr_valid results)"
    "r = role_sovereign \<Longrightarrow> \<exists>x\<in>set results. sr_valid x \<and> sr_role x = role_sovereign \<and>
       Some (sr_signer x) = sp_sovereign_signer (rp_sovereign_profile (m_release_policy m))" by auto
qed

lemma judge_ok_iff:
  "vr_ok (judge m results) \<longleftrightarrow> list_all sr_valid results \<and>
     (\<exists>assign. covers m (\<lambda>r. {k. Some k \<in> set (candidate_keys m results r)}) (required_roles m) assign)"
proof -
  let ?req = "required_roles m"
  define valid1 where "valid1 = (if sovereign_missing m results then sr_role ` set (filter sr_valid results) - {role_sovereign}
     else sr_role ` set (filter sr_valid results))"
  let ?cov = "roles_with_distinct_keys m results (filter (\<lambda>r. r \<in> valid1) ?req)"
  have d: "distinct ?req" "?req \<noteq> []" by (simp_all add: required_roles_def)
  have "vr_ok (judge m results) \<longleftrightarrow> list_all sr_valid results \<and> (\<forall>r\<in>set ?req. r \<in> valid1 \<and> r \<in> ?cov)"
    by (auto simp: judge_def Let_def valid1_def filter_empty_conv)
  moreover have "(\<forall>r\<in>set ?req. r \<in> valid1 \<and> r \<in> ?cov) \<longleftrightarrow>
     (\<exists>assign. covers m (\<lambda>r. {k. Some k \<in> set (candidate_keys m results r)}) ?req assign)"
  proof
    assume all: "\<forall>r\<in>set ?req. r \<in> valid1 \<and> r \<in> ?cov"
    then have f: "filter (\<lambda>r. r \<in> valid1) ?req = ?req" by (simp add: filter_id_conv)
    have "?cov \<subseteq> set ?req"
    proof -
      have "fold (\<lambda>combo best. let chosen = chosen_of roles combo
         in if length chosen \<le> card best \<or> clash m chosen then best else fst ` set chosen) combos best \<subseteq> set roles"
        if "best \<subseteq> set roles" for combos best and roles :: "signature_role list"
        using that chosen_of_roles by (induction combos arbitrary: best) (simp_all add: Let_def)
      then show ?thesis unfolding roles_with_distinct_keys_def f by simp
    qed
    with all have "?cov = set ?req" by blast
    then show "\<exists>assign. covers m (\<lambda>r. {k. Some k \<in> set (candidate_keys m results r)}) ?req assign"
      using roles_with_distinct_keys_full [OF d] unfolding f by blast
  next
    assume "\<exists>assign. covers m (\<lambda>r. {k. Some k \<in> set (candidate_keys m results r)}) ?req assign"
    then obtain assign where a: "covers m (\<lambda>r. {k. Some k \<in> set (candidate_keys m results r)}) ?req assign" ..
    have "\<not> sovereign_missing m results"
      using candidates_role(2) [OF a] by (auto simp: sovereign_missing_def Let_def list_ex_iff required_roles_def)
    then have v: "\<forall>r\<in>set ?req. r \<in> valid1" using candidates_role(1) [OF a] by (simp add: valid1_def)
    then have f: "filter (\<lambda>r. r \<in> valid1) ?req = ?req" by (simp add: filter_id_conv)
    have "?cov = set ?req" unfolding f using roles_with_distinct_keys_full [OF d] a by blast
    with v show "\<forall>r\<in>set ?req. r \<in> valid1 \<and> r \<in> ?cov" by simp
  qed
  ultimately show ?thesis by simp
qed

text \<open>
  C23 (joint signature). A manifest is accepted exactly when every one of its signature blocks
  verifies over its signed fields under a trusted key of the block's algorithm that is authorized
  for the role, and keys can be assigned to the builder, the custodian and, when enabled, the
  sovereign such that no key serves two of them, except for the builder and the custodian of a
  declared self-custody; a sovereign block must name the declared sovereign.
\<close>

theorem joint_signature_iff:
  assumes "verify_manifest cr m ctx = Inr r"
  shows "vr_ok r \<longleftrightarrow> (\<forall>sig\<in>set (m_signatures m). block_ok cr ctx m sig) \<and>
    (\<exists>assign. covers m (signing_keys cr ctx m) (required_roles m) assign)"
proof -
  obtain rs where rs: "check_all cr ctx m (m_signatures m) = Inr rs" "r = judge m rs"
    using assms by (auto simp: verify_manifest_def rbind_Inr_iff)
  have "list_all sr_valid rs \<longleftrightarrow> (\<forall>sig\<in>set (m_signatures m). block_ok cr ctx m sig)"
    using check_all_nth [OF rs(1)] by (induction rule: list_all2_induct) (auto dest!: check_signature_fields)
  then show ?thesis unfolding rs(2) judge_ok_iff candidates_eq [OF rs(1)] by simp
qed

subsection \<open>A concrete manifest\<close>

lemma pre_image_unsigned: "signing_pre_image cr (unsigned_dict m) = canon_bytes cr (JDict (unsigned_dict m))"
proof -
  let ?fs = "unsigned_members m"
  have "map_of (unsigned_dict m) (us (fst f)) = snd f" if "f \<in> set ?fs" for f
    using that by (simp add: unsigned_dict_def map_of_present distinct_unsigned_members)
  then have "signed_subset (unsigned_dict m) = List.map_filter (\<lambda>f. map_option (Pair (us (fst f))) (snd f)) ?fs"
    unfolding signed_subset_def signed_fields_keys [of m] map_filter_map_comp by (intro map_filter_cong') simp
  then show ?thesis by (simp add: signing_pre_image_def unsigned_dict_def present_def case_prod_unfold)
qed

definition demo_signature :: "signature_role \<Rightarrow> string \<Rightarrow> manifest_signature" where
  "demo_signature role kid = \<lparr>sg_role = role, sg_signer = us ''s'', sg_algorithm = ml_dsa_65, sg_key_id = us kid,
     sg_key_type = software, sg_signed_at = None, sg_signature_value = b64url_encode [2],
     sg_classical_signature = None, sg_pq_signature = None, sg_signed_fields = None\<rparr>"

definition demo_signed :: manifest where
  "demo_signed = demo_manifest\<lparr>m_signatures := [demo_signature role_builder ''a'', demo_signature role_custodian ''b'']\<rparr>"

definition demo_context :: verification_context where
  "demo_context = \<lparr>vc_keys = [(us ''a'', Ml_dsa65_key [5]), (us ''b'', Ml_dsa65_key [6])], vc_bindings = {}\<rparr>"

lemma demo_block_ok:
  "block_ok demo_crypto demo_context demo_signed (demo_signature role_builder ''a'')"
  "block_ok demo_crypto demo_context demo_signed (demo_signature role_custodian ''b'')"
proof -
  have "unsigned_dict demo_signed = unsigned_dict demo_manifest"
    by (simp add: demo_signed_def unsigned_dict_def unsigned_members_def)
  then obtain p where p: "signing_pre_image demo_crypto (unsigned_dict demo_signed) = Inr p"
    using canonicalize_clean [OF demo_manifest_clean, of "frepr demo_crypto" True] by (auto simp: pre_image_unsigned)
  have k: "ml_dsa65_verifier demo_crypto b = Inr b" for b
    by (simp add: ml_dsa65_verifier_def mldsa_module_def demo_crypto_def)
  have "ml_dsa65_verify demo_crypto pub (unsigned_dict demo_signed) (b64url_encode [2]) = Inr ()" for pub
    by (simp add: ml_dsa65_verify_def p b64url_decode_encode) (simp add: demo_crypto_def)
  with k show "block_ok demo_crypto demo_context demo_signed (demo_signature role_builder ''a'')"
    "block_ok demo_crypto demo_context demo_signed (demo_signature role_custodian ''b'')"
    by (simp_all add: block_ok_def demo_context_def demo_signature_def verify_one_def role_authorized_def)
qed

lemma block_ok_check: "block_ok cr ctx m sig \<Longrightarrow> check_signature cr ctx m sig = Inr (signature_result_of sig True None)"
  by (auto simp: block_ok_def check_signature_def)

theorem joint_signature_iff_witness:
  "\<exists>r. verify_manifest demo_crypto demo_signed demo_context = Inr r \<and> vr_ok r"
proof -
  have s: "m_signatures demo_signed = [demo_signature role_builder ''a'', demo_signature role_custodian ''b'']"
    by (simp add: demo_signed_def)
  obtain r where r: "verify_manifest demo_crypto demo_signed demo_context = Inr r"
    by (simp add: verify_manifest_def s demo_block_ok block_ok_check)
  have "us ''a'' \<in> signing_keys demo_crypto demo_context demo_signed role_builder"
    "us ''b'' \<in> signing_keys demo_crypto demo_context demo_signed role_custodian"
    using demo_block_ok unfolding signing_keys_def s by (force simp: demo_signature_def)+
  moreover have "required_roles demo_signed = [role_builder, role_custodian]"
    by (simp add: required_roles_def demo_signed_def demo_manifest_def demo_policy_def)
  ultimately have "covers demo_signed (signing_keys demo_crypto demo_context demo_signed) (required_roles demo_signed)
      (\<lambda>r. if r = role_builder then us ''a'' else us ''b'')" by (simp add: covers_def)
  with joint_signature_iff [OF r] demo_block_ok s r show ?thesis by auto
qed

end
