(* ===== verification/Transparency.thy ===== *)
theory Transparency
  imports Merkle Signing
begin

section \<open>The transparency log (\<open>transparency.py\<close>)\<close>

text \<open>
  The operator's log over the Merkle tree and the monitor's verification of heads, inclusion and
  consistency. Sizes in a head are integers, so the consistency verifier is given here on
  integers, negative ones included, and shown to agree with the one of theory \<open>Merkle\<close> on
  sizes. The main results: what the log hands out verifies; an accepted inclusion proof against
  a head of the log means that the statement is logged at that index; and a log only grows
  between two heads with an accepted consistency proof.
\<close>

subsection \<open>Consistency on integer sizes\<close>

text \<open>\<open>while fn & 1\<close>: the loop does not end on \<open>-1\<close>, which is reached from size 0 only.\<close>

function shift_odd_int :: "int \<Rightarrow> int \<Rightarrow> int \<times> int" where
  "shift_odd_int fn sn = (if odd fn \<and> fn \<noteq> - 1 then shift_odd_int (fn div 2) (sn div 2) else (fn, sn))"
  by pat_completeness auto

termination shift_odd_int
  by (relation "measure (\<lambda>(fn, sn). nat (abs fn))") (auto elim!: oddE simp: abs_if)

function shift_even_int :: "int \<Rightarrow> int \<Rightarrow> int \<times> int" where
  "shift_even_int fn sn = (if even fn \<and> fn \<noteq> 0 then shift_even_int (fn div 2) (sn div 2) else (fn, sn))"
  by pat_completeness auto

termination shift_even_int
  by (relation "measure (\<lambda>(fn, sn). nat (abs fn))") auto

declare shift_odd_int.simps [simp del] shift_even_int.simps [simp del]

fun fold_terms_int ::
  "(bytes \<Rightarrow> bytes) \<Rightarrow> int \<Rightarrow> int \<Rightarrow> bytes \<Rightarrow> bytes \<Rightarrow> bytes list \<Rightarrow> (bytes \<times> bytes \<times> int) option" where
  "fold_terms_int h fn sn fr sr [] = Some (fr, sr, sn)"
| "fold_terms_int h fn sn fr sr (c # cs) =
     (if sn = 0 then None
      else if odd fn \<or> fn = sn
      then (case shift_even_int fn sn of
              (fn, sn) \<Rightarrow> fold_terms_int h (fn div 2) (sn div 2) (h (1 # c @ fr)) (h (1 # c @ sr)) cs)
      else fold_terms_int h (fn div 2) (sn div 2) fr (h (1 # sr @ c)) cs)"

definition verify_consistency_int ::
  "(bytes \<Rightarrow> bytes) \<Rightarrow> bytes \<Rightarrow> bytes \<Rightarrow> int \<Rightarrow> int \<Rightarrow> bytes list \<Rightarrow> bool" where
  "verify_consistency_int h first_root second_root first_size second_size prf =
     (if first_size > second_size then False
      else if first_size = second_size then prf = [] \<and> first_root = second_root
      else if first_size = 0 then prf = []
      else let terms = (if first_size AND (first_size - 1) = 0 then first_root # prf else prf)
           in if terms = [] then False
              else case shift_odd_int (first_size - 1) (second_size - 1) of
                (fn, sn) \<Rightarrow>
                  (case fold_terms_int h fn sn (hd terms) (hd terms) (tl terms) of
                     None \<Rightarrow> False
                   | Some (fr, sr, sn) \<Rightarrow> fr = first_root \<and> sr = second_root \<and> sn = 0))"

subsection \<open>Statements and heads\<close>

datatype entry_type = et_manifest | et_revocation | et_measurement_set_change

definition entry_type_value :: "entry_type \<Rightarrow> pystr" where
  "entry_type_value t = (case t of et_manifest \<Rightarrow> us ''manifest'' | et_revocation \<Rightarrow> us ''revocation''
     | et_measurement_set_change \<Rightarrow> us ''measurement-set-change'')"

definition make_leaf_preimage :: "('x) crypto_scheme \<Rightarrow> (pystr \<times> json) list \<Rightarrow> entry_type \<Rightarrow> bytes result" where
  "make_leaf_preimage cr statement entry_type =
     canon_bytes cr (JDict [(us ''type'', JStr (entry_type_value entry_type)), (us ''statement'', JDict statement)])"

record signed_tree_head =
  sth_tree_size :: int
  sth_root :: pystr
  sth_signed_at :: pystr
  sth_key_id :: pystr
  sth_signature_b64 :: pystr

text \<open>\<open>root.split(":", 1)[1]\<close> raises \<open>IndexError\<close> without a colon.\<close>

definition root_bytes :: "signed_tree_head \<Rightarrow> bytes result" where
  "root_bytes sth =
     (case dropWhile (\<lambda>c. c \<noteq> 58) (sth_root sth) of
        [] \<Rightarrow> Inl IndexError
      | c # rest \<Rightarrow> (case bytes_fromhex rest of
            None \<Rightarrow> Inl (ValueError (us ''non-hexadecimal number found in fromhex() arg'')) | Some b \<Rightarrow> Inr b))"

definition sth_preimage :: "('x) crypto_scheme \<Rightarrow> int \<Rightarrow> pystr \<Rightarrow> pystr \<Rightarrow> bytes result" where
  "sth_preimage cr tree_size root_text signed_at =
     canon_bytes cr (JDict [(us ''tree_size'', JInt tree_size), (us ''root'', JStr root_text), (us ''signed_at'', JStr signed_at)])"

subsection \<open>The log\<close>

record transparency_log =
  tl_kp :: key_pair
  tl_tree :: merkle_tree
  tl_preimages :: "bytes list"

definition new_log :: "('x) crypto_scheme \<Rightarrow> key_pair \<Rightarrow> transparency_log result" where
  "new_log cr kp = rbind (new_tree (hf cr) (us ''sha256'')) (\<lambda>t. Inr \<lparr>tl_kp = kp, tl_tree = t, tl_preimages = []\<rparr>)"

definition tl_size :: "transparency_log \<Rightarrow> int" where
  "tl_size l = int (length (tl_preimages l))"

definition tl_append ::
  "('x) crypto_scheme \<Rightarrow> (pystr \<times> json) list \<Rightarrow> entry_type \<Rightarrow> transparency_log \<Rightarrow> int result \<times> transparency_log" where
  "tl_append cr statement entry_type l =
     (case make_leaf_preimage cr statement entry_type of
        Inl e \<Rightarrow> (Inl e, l)
      | Inr preimage \<Rightarrow>
          let l' = l\<lparr>tl_tree := snd (add_leaf preimage (tl_tree l)), tl_preimages := tl_preimages l @ [preimage]\<rparr>
          in (Inr (int (length (tl_preimages l')) - 1), l'))"

text \<open>\<open>isof\<close> is \<open>isoformat(timespec="seconds")\<close> of the reading of the clock.\<close>

definition signed_tree_head_of ::
  "('x) crypto_scheme \<Rightarrow> (time \<Rightarrow> pystr) \<Rightarrow> time \<Rightarrow> transparency_log \<Rightarrow> signed_tree_head result" where
  "signed_tree_head_of cr isof now l =
     (let root_text = mt_root_hex (tl_tree l);
          signed_at = replace_utc (isof now);
          size = int (length (mt_leaf_hashes (tl_tree l)))
      in rbind (sth_preimage cr size root_text signed_at) (\<lambda>preimage.
         Inr \<lparr>sth_tree_size = size, sth_root = root_text, sth_signed_at = signed_at,
              sth_key_id = kp_key_id cr (tl_kp l),
              sth_signature_b64 = b64url_encode (ed_sign cr (kp_private (tl_kp l)) preimage)\<rparr>))"

definition tl_inclusion_proof :: "transparency_log \<Rightarrow> int \<Rightarrow> inclusion_proof result" where
  "tl_inclusion_proof l index = mt_inclusion_proof (tl_tree l) index"

definition tl_consistency_proof :: "transparency_log \<Rightarrow> int \<Rightarrow> bytes list result" where
  "tl_consistency_proof l first_size = mt_consistency_proof (tl_tree l) first_size"

fun find_index_from :: "nat \<Rightarrow> 'a \<Rightarrow> 'a list \<Rightarrow> nat option" where
  "find_index_from i x [] = None"
| "find_index_from i x (y # ys) = (if y = x then Some i else find_index_from (Suc i) x ys)"

definition tl_find ::
  "('x) crypto_scheme \<Rightarrow> (pystr \<times> json) list \<Rightarrow> entry_type \<Rightarrow> transparency_log \<Rightarrow> nat option result" where
  "tl_find cr statement entry_type l =
     rbind (make_leaf_preimage cr statement entry_type) (\<lambda>preimage. Inr (find_index_from 0 preimage (tl_preimages l)))"

subsection \<open>The monitor\<close>

definition verify_sth :: "('x) crypto_scheme \<Rightarrow> signed_tree_head \<Rightarrow> bytes \<Rightarrow> bool result" where
  "verify_sth cr sth log_public_key =
     rbind (sth_preimage cr (sth_tree_size sth) (sth_root sth) (sth_signed_at sth)) (\<lambda>preimage.
       case rbind (raise_if (\<not> ed_load cr log_public_key) (ValueError (us ''invalid public key''))) (\<lambda>_.
            rbind (b64url_decode (sth_signature_b64 sth)) (\<lambda>sig.
            raise_if (\<not> ed_verify cr log_public_key sig preimage) (InvalidSignature []))) of
         Inr _ \<Rightarrow> Inr True
       | Inl e \<Rightarrow> if is_InvalidSignature e \<or> is_ValueError e then Inr False else Inl e)"

definition verify_inclusion ::
  "('x) crypto_scheme \<Rightarrow> (pystr \<times> json) list \<Rightarrow> entry_type \<Rightarrow> inclusion_proof \<Rightarrow> signed_tree_head \<Rightarrow> bool result" where
  "verify_inclusion cr statement entry_type prf sth =
     rbind (make_leaf_preimage cr statement entry_type) (\<lambda>preimage.
       let leaf_hash = sha256 cr (0 # preimage)
       in if ip_leaf_hash prf \<noteq> leaf_hash then Inr False
          else if ip_tree_size prf \<noteq> sth_tree_size sth then Inr False
          else case root_bytes sth of
              Inl e \<Rightarrow> if e = IndexError \<or> is_ValueError e then Inr False else Inl e
            | Inr expected_root \<Rightarrow>
                Inr (compute_root_from_proof leaf_hash (ip_leaf_index prf) (ip_tree_size prf) (ip_audit_path prf) (sha256 cr)
                     = expected_root))"

definition verify_log_consistency ::
  "('x) crypto_scheme \<Rightarrow> signed_tree_head \<Rightarrow> signed_tree_head \<Rightarrow> bytes list \<Rightarrow> bytes option \<Rightarrow> bool result" where
  "verify_log_consistency cr old new prf log_public_key =
     rbind (case log_public_key of
              None \<Rightarrow> Inr True
            | Some pk \<Rightarrow> rbind (verify_sth cr old pk) (\<lambda>ok. if ok then verify_sth cr new pk else Inr False)) (\<lambda>signed.
       if \<not> signed then Inr False
       else case rbind (root_bytes old) (\<lambda>a. rbind (root_bytes new) (\<lambda>b. Inr (a, b))) of
           Inl e \<Rightarrow> if e = IndexError \<or> is_ValueError e then Inr False else Inl e
         | Inr (old_root, new_root) \<Rightarrow>
             Inr (verify_consistency_int (sha256 cr) old_root new_root (sth_tree_size old) (sth_tree_size new) prf))"

subsection \<open>Agreement on sizes\<close>

lemma shift_odd_int_nat: "shift_odd_int (int fn) (int sn) = map_prod int int (shift_odd fn sn)"
proof (induction fn sn rule: shift_odd.induct)
  case (1 fn sn)
  have "int fn \<noteq> - 1" by linarith
  with 1 show ?case
    by (subst shift_odd_int.simps, subst shift_odd.simps) (simp add: zdiv_int [of _ 2, simplified, symmetric])
qed

lemma shift_even_int_nat: "shift_even_int (int fn) (int sn) = map_prod int int (shift_even fn sn)"
proof (induction fn sn rule: shift_even.induct)
  case (1 fn sn)
  then show ?case
    by (subst shift_even_int.simps, subst shift_even.simps) (simp add: zdiv_int [of _ 2, simplified, symmetric])
qed

lemma fold_terms_int_nat:
  "fold_terms_int h (int fn) (int sn) fr sr cs = map_option (\<lambda>(a, b, n). (a, b, int n)) (fold_loop h fn sn fr sr cs)"
proof (induction h fn sn fr sr cs rule: fold_loop.induct)
  case (2 h fn sn fr sr c cs)
  obtain f g where fg: "shift_even fn sn = (f, g)" by fastforce
  with 2 show ?case
    by (simp add: shift_even_int_nat zdiv_int [of _ 2, simplified, symmetric])
qed simp

lemma and_pred_int: "0 < n \<Longrightarrow> (int n AND (int n - 1) = 0) = (n AND (n - 1) = 0)"
proof -
  assume "0 < n"
  then have "int n - 1 = int (n - 1)" by simp
  then show ?thesis by (simp only: of_nat_and_eq [symmetric] of_nat_eq_0_iff)
qed

lemma verify_consistency_int_nat:
  "verify_consistency_int h a b (int m) (int n) prf = verify_consistency h a b m n prf"
proof (cases "0 < m \<and> m < n")
  case True
  then have e: "int m - 1 = int (m - 1)" "int n - 1 = int (n - 1)" by auto
  obtain fn sn where sh: "shift_odd (m - 1) (n - 1) = (fn, sn)" by fastforce
  have terms: "(int m AND int (m - 1) = 0) = (m AND (m - 1) = 0)" using and_pred_int [of m] True unfolding e by blast
  let ?t = "if m AND (m - 1) = 0 then a # prf else prf"
  have "verify_consistency_int h a b (int m) (int n) prf =
      (?t \<noteq> [] \<and> (case fold_loop h fn sn (hd ?t) (hd ?t) (tl ?t) of None \<Rightarrow> False | Some (fr, sr, k) \<Rightarrow> fr = a \<and> sr = b \<and> k = 0))"
    using True unfolding verify_consistency_int_def e terms shift_odd_int_nat sh Let_def
    by (cases "fold_loop h fn sn (hd ?t) (hd ?t) (tl ?t)") (simp_all add: fold_terms_int_nat split_def)
  moreover have "verify_consistency h a b m n prf =
      (?t \<noteq> [] \<and> (case fold_loop h fn sn (hd ?t) (hd ?t) (tl ?t) of None \<Rightarrow> False | Some (fr, sr, k) \<Rightarrow> fr = a \<and> sr = b \<and> k = 0))"
    using True unfolding verify_consistency_def sh Let_def fold_consistency_terms_def by (simp add: split_def)
  ultimately show ?thesis by simp
qed (auto simp: verify_consistency_int_def verify_consistency_def)

text \<open>A negative size is no size of a tree, and the verifier accepts it: the proof that repeats the
  root relates a tree of \<open>-1\<close> leaves to any tree of one leaf.\<close>

lemma verify_consistency_negative: "verify_consistency_int h r r (- 1) 1 [r]"
  by (simp add: verify_consistency_int_def shift_odd_int.simps)

subsection \<open>Logs and their heads\<close>

text \<open>The tree holds the leaf hashes of the statements, in order; an invariant of the log.\<close>

definition log_inv :: "('x) crypto_scheme \<Rightarrow> transparency_log \<Rightarrow> bool" where
  "log_inv cr l \<longleftrightarrow> mt_h (tl_tree l) = sha256 cr \<and> mt_algorithm (tl_tree l) = us ''sha256'' \<and>
     mt_leaf_hashes (tl_tree l) = map (\<lambda>p. sha256 cr (0 # p)) (tl_preimages l)"

lemma log_inv_new: "new_log cr kp = Inr l \<Longrightarrow> log_inv cr l"
  by (auto simp: new_log_def new_tree_def hash_fn_def log_inv_def)

lemma log_inv_append: "log_inv cr l \<Longrightarrow> tl_append cr st et l = (r, l') \<Longrightarrow> log_inv cr l'"
  by (auto simp: tl_append_def log_inv_def add_leaf_def Let_def split: sum.splits)

text \<open>The logs an operator can reach, with the statements it registered.\<close>

inductive logs :: "('x) crypto_scheme \<Rightarrow> key_pair \<Rightarrow> transparency_log \<Rightarrow> bool" for cr kp where
  created: "new_log cr kp = Inr l \<Longrightarrow> logs cr kp l"
| appended: "logs cr kp l \<Longrightarrow> tl_append cr st et l = (r, l') \<Longrightarrow> logs cr kp l'"

lemma logs_inv: "logs cr kp l \<Longrightarrow> log_inv cr l \<and> tl_kp l = kp"
proof (induction rule: logs.induct)
  case (created l)
  then show ?case using log_inv_new by (auto simp: new_log_def new_tree_def hash_fn_def)
next
  case (appended l st et r l')
  then have "log_inv cr l'" using log_inv_append by blast
  with appended show ?case by (auto simp: tl_append_def Let_def split: sum.splits)
qed

text \<open>A head that commits to the first entries of a list of statements.\<close>

definition commits :: "('x) crypto_scheme \<Rightarrow> bytes list \<Rightarrow> signed_tree_head \<Rightarrow> bool" where
  "commits cr ps sth \<longleftrightarrow> sth_tree_size sth = int (length ps) \<and>
     root_bytes sth = Inr (if ps = [] then sha256 cr [] else mth (sha256 cr) (map (\<lambda>p. sha256 cr (0 # p)) ps))"

lemma root_bytes_hex: "root_bytes \<lparr>sth_tree_size = n, sth_root = us ''sha256'' @ us '':'' @ hex_of_bytes b,
    sth_signed_at = s, sth_key_id = k, sth_signature_b64 = g\<rparr> = Inr b"
  by (simp add: root_bytes_def us_def bytes_fromhex_hex)

lemma head_commits:
  assumes "log_inv cr l" and "signed_tree_head_of cr isof now l = Inr sth"
  shows "commits cr (tl_preimages l) sth"
  using assms root_bytes_hex
  by (auto simp: signed_tree_head_of_def log_inv_def commits_def mt_root_hex_def mt_root_def rbind_Inr_iff Let_def)

lemma head_verifies:
  assumes "ed_correct cr" and "ed_load cr (kp_public (tl_kp l))"
    and "kp_public (tl_kp l) = ed_public cr (kp_private (tl_kp l))"
    and "signed_tree_head_of cr isof now l = Inr sth"
  shows "verify_sth cr sth (kp_public (tl_kp l)) = Inr True"
  using assms by (auto simp: signed_tree_head_of_def verify_sth_def rbind_Inr_iff Let_def b64url_decode_encode ed_correct_def)

lemma inclusion_verifies:
  assumes "log_inv cr l" and "tl_inclusion_proof l i = Inr prf" and "commits cr (tl_preimages l) sth"
    and "make_leaf_preimage cr st et = Inr (tl_preimages l ! nat i)"
  shows "verify_inclusion cr st et prf sth = Inr True"
proof -
  have i: "0 \<le> i" "nat i < length (tl_preimages l)"
    "prf = \<lparr>ip_leaf_index = i, ip_tree_size = int (length (tl_preimages l)), ip_leaf_hash = sha256 cr (0 # tl_preimages l ! nat i),
        ip_audit_path = ip_audit_path prf\<rparr>"
    using assms(1,2) by (auto simp: tl_inclusion_proof_def mt_inclusion_proof_def log_inv_def Let_def split: if_splits)
  have "compute_root_from_proof (ip_leaf_hash prf) (ip_leaf_index prf) (ip_tree_size prf) (ip_audit_path prf) (sha256 cr) =
      mth (sha256 cr) (map (\<lambda>p. sha256 cr (0 # p)) (tl_preimages l))"
    using mt_inclusion_proof_ok [OF assms(2) [unfolded tl_inclusion_proof_def]] assms(1) i(2)
    by (auto simp: mt_verify_inclusion_def mt_root_def log_inv_def)
  moreover have "ip_leaf_index prf = i" "ip_tree_size prf = int (length (tl_preimages l))"
    "ip_leaf_hash prf = sha256 cr (0 # tl_preimages l ! nat i)" by (subst i(3), simp)+
  ultimately show ?thesis using i(2) assms(3,4) by (auto simp: verify_inclusion_def commits_def)
qed

lemma tl_append_ok:
  assumes "tl_append cr st et l = (Inr i, l')"
  shows "make_leaf_preimage cr st et = Inr (tl_preimages l' ! nat i)" "0 \<le> i" "nat i = length (tl_preimages l)"
    "tl_preimages l' = tl_preimages l @ [tl_preimages l' ! nat i]" "tl_kp l' = tl_kp l"
  using assms by (auto simp: tl_append_def Let_def split: sum.splits)

text \<open>
  Whatever was registered before: a statement that is appended gets an
  index; the head signed then verifies under the log's key, and the inclusion proof the log hands
  out for that index verifies for the statement against that head.
\<close>

theorem logged_statement_verifies:
  assumes "logs cr kp l" and "tl_append cr st et l = (Inr i, l')" and "signed_tree_head_of cr isof now l' = Inr sth"
    and "ed_correct cr" and "ed_load cr (kp_public kp)" and "kp_public kp = ed_public cr (kp_private kp)"
  shows "verify_sth cr sth (kp_public kp) = Inr True \<and>
    (\<exists>prf. tl_inclusion_proof l' i = Inr prf \<and> verify_inclusion cr st et prf sth = Inr True)"
proof -
  have inv: "log_inv cr l'" "tl_kp l' = kp" using logs_inv [OF logs.appended [OF assms(1,2)]] by simp_all
  note a = tl_append_ok [OF assms(2)]
  have len: "length (tl_preimages l') = Suc (length (tl_preimages l))" using arg_cong [OF a(4), of length] by simp
  have "i = int (length (tl_preimages l))" using a(2,3) by linarith
  then obtain pr where "tl_inclusion_proof l' i = Inr pr"
    using inv(1) len by (simp add: tl_inclusion_proof_def mt_inclusion_proof_def log_inv_def Let_def)
  with inclusion_verifies [OF inv(1) this head_commits [OF inv(1) assms(3)] a(1)] head_verifies [OF assms(4) _ _ assms(3)] inv(2) assms(5,6)
  show ?thesis by auto
qed

subsection \<open>What a monitor learns\<close>

text \<open>The strings hashed for a list of statements, leaves and inner nodes.\<close>

definition log_hashed :: "('x) crypto_scheme \<Rightarrow> bytes list \<Rightarrow> bytes set" where
  "log_hashed cr ps = (Cons 0) ` set ps \<union> mth_hashed (sha256 cr) (map (\<lambda>p. sha256 cr (0 # p)) ps)"

text \<open>The strings hashed to check an inclusion proof for a leaf.\<close>

definition inclusion_hashed :: "('x) crypto_scheme \<Rightarrow> bytes \<Rightarrow> inclusion_proof \<Rightarrow> bytes set" where
  "inclusion_hashed cr p prf = insert (0 # p)
     (proof_hashed (sha256 cr) (sha256 cr (0 # p)) (nat (ip_leaf_index prf)) (nat (ip_tree_size prf)) (ip_audit_path prf))"

lemma accepted_inclusion:
  assumes "commits cr ps sth" and "verify_inclusion cr st et prf sth = Inr True" and "digest32 (sha256 cr)"
    and "make_leaf_preimage cr st et = Inr p" and "inj_on (sha256 cr) (log_hashed cr ps \<union> inclusion_hashed cr p prf)"
  shows "\<exists>i<length ps. ip_leaf_index prf = int i \<and> ps ! i = p"
proof -
  let ?h = "sha256 cr" let ?hs = "map (\<lambda>p. sha256 cr (0 # p)) ps"
  have v: "ip_tree_size prf = int (length ps)"
    "compute_root_from_proof (?h (0 # p)) (ip_leaf_index prf) (int (length ps)) (ip_audit_path prf) ?h =
       (if ps = [] then ?h [] else mth ?h ?hs)"
    using assms(1,2,4) by (auto simp: verify_inclusion_def commits_def Let_def split: if_split_asm)
  have len: "length (?h x) = 32" for x using assms(3) by (simp add: digest32_def)
  have ne: "ps \<noteq> []"
  proof
    assume "ps = []"
    with v(2) have "?h [] = []" by (simp add: compute_root_from_proof_def split: if_split_asm)
    with len [of "[]"] show False by simp
  qed
  have "inj_on ?h (mth_hashed ?h ?hs \<union> proof_hashed ?h (?h (0 # p)) (nat (ip_leaf_index prf)) (length ?hs) (ip_audit_path prf))"
    by (rule inj_on_subset [OF assms(5)]) (auto simp: log_hashed_def inclusion_hashed_def v(1))
  from inclusion_proof_binds [OF assms(3) _ _ len _ this] v(2) ne len
  have i: "0 \<le> ip_leaf_index prf" "ip_leaf_index prf < int (length ps)" "?h (0 # p) = ?hs ! nat (ip_leaf_index prf)" by auto
  then have lt: "nat (ip_leaf_index prf) < length ps" by linarith
  then have "0 # p = 0 # ps ! nat (ip_leaf_index prf)"
    by - (rule inj_onD [OF assms(5)], use i(3) in \<open>simp_all add: log_hashed_def inclusion_hashed_def\<close>)
  with i lt show ?thesis by (intro exI [of _ "nat (ip_leaf_index prf)"]) auto
qed

lemma find_index_from_None: "find_index_from i x ys = None \<longleftrightarrow> x \<notin> set ys"
  by (induction i x ys rule: find_index_from.induct) auto

text \<open>
  C24 (transparency log). Barring a collision, an inclusion proof that a monitor accepts against a
  head of the log means that exactly this statement is registered at the index the proof names;
  so a statement that was never registered, say a suppressed revocation, has no acceptable proof.
\<close>

theorem accepted_statement_is_logged:
  assumes "logs cr kp l" and "signed_tree_head_of cr isof now l = Inr sth" and "digest32 (sha256 cr)"
    and "verify_inclusion cr st et prf sth = Inr True"
    and "\<forall>p. make_leaf_preimage cr st et = Inr p \<longrightarrow>
      inj_on (sha256 cr) (log_hashed cr (tl_preimages l) \<union> inclusion_hashed cr p prf)"
  shows "(\<exists>i<length (tl_preimages l). ip_leaf_index prf = int i \<and> make_leaf_preimage cr st et = Inr (tl_preimages l ! i)) \<and>
    tl_find cr st et l \<noteq> Inr None"
proof -
  obtain p where p: "make_leaf_preimage cr st et = Inr p" using assms(4) by (auto simp: verify_inclusion_def rbind_Inr_iff)
  have "commits cr (tl_preimages l) sth" using head_commits logs_inv [OF assms(1)] assms(2) by blast
  then obtain i where i: "i < length (tl_preimages l)" "ip_leaf_index prf = int i" "tl_preimages l ! i = p"
    using accepted_inclusion [OF _ assms(4,3) p] assms(5) p by blast
  then have "p \<in> set (tl_preimages l)" by (metis nth_mem)
  with i p show ?thesis by (auto simp: tl_find_def find_index_from_None)
qed

lemma map_leaf_inj:
  assumes "inj_on h (Cons 0 ` set ps \<union> Cons 0 ` set qs)" and "map (\<lambda>p. h (0 # p)) ps = map (\<lambda>p. h (0 # p)) qs"
  shows "ps = (qs :: bytes list)"
proof (rule nth_equalityI)
  show len: "length ps = length qs" using map_eq_imp_length_eq [OF assms(2)] .
  fix i assume i: "i < length ps"
  have "h (0 # ps ! i) = h (0 # qs ! i)" using arg_cong [OF assms(2), of "\<lambda>xs. xs ! i"] i len by simp
  then have "0 # ps ! i = 0 # qs ! i" by - (rule inj_onD [OF assms(1)], use i len in auto)
  then show "ps ! i = qs ! i" by simp
qed

text \<open>
  Barring a collision, a consistency proof that a monitor accepts between
  two heads of the log, the first over a nonempty log, means that the log only grew: the earlier
  statements are the first ones of the later log, in order.
\<close>

theorem consistent_heads_only_grow:
  assumes "logs cr kp l" and "signed_tree_head_of cr isof now l = Inr old" and "tl_preimages l \<noteq> []"
    and "logs cr kp l'" and "signed_tree_head_of cr isof now' l' = Inr new" and "digest32 (sha256 cr)"
    and "verify_log_consistency cr old new prf pk = Inr True"
    and "inj_on (sha256 cr) (log_hashed cr (tl_preimages l) \<union> log_hashed cr (tl_preimages l') \<union>
      cons_hashed (sha256 cr) (mth (sha256 cr) (map (\<lambda>p. sha256 cr (0 # p)) (tl_preimages l)))
        (length (tl_preimages l)) (length (tl_preimages l')) prf)"
  shows "take (length (tl_preimages l)) (tl_preimages l') = tl_preimages l"
proof -
  let ?h = "sha256 cr" let ?f = "map (\<lambda>p. sha256 cr (0 # p))" let ?ps = "tl_preimages l" let ?qs = "tl_preimages l'"
  have c: "commits cr ?ps old" "commits cr ?qs new"
    using head_commits logs_inv [OF assms(1)] logs_inv [OF assms(4)] assms(2,5) by blast+
  have v: "verify_consistency_int ?h (mth ?h (?f ?ps)) (if ?qs = [] then ?h [] else mth ?h (?f ?qs)) (int (length ?ps)) (int (length ?qs)) prf"
    using assms(7) c assms(3) by (auto simp: verify_log_consistency_def commits_def rbind_Inr_iff split: option.splits if_split_asm)
  then have "?qs \<noteq> []" using assms(3) by (auto simp: verify_consistency_int_def)
  with v have v: "verify_consistency ?h (mth ?h (?f ?ps)) (mth ?h (?f ?qs)) (length (?f ?ps)) (length (?f ?qs)) prf"
    by (simp add: verify_consistency_int_nat)
  have len: "\<forall>x\<in>set (?f xs). length x = 32" for xs using assms(6) by (simp add: digest32_def)
  have "inj_on ?h (mth_hashed ?h (?f ?qs) \<union> mth_hashed ?h (?f ?ps) \<union> cons_hashed ?h (mth ?h (?f ?ps)) (length (?f ?ps)) (length (?f ?qs)) prf)"
    by (rule inj_on_subset [OF assms(8)]) (auto simp: log_hashed_def)
  from consistency_proof_binds [OF assms(6) len len _ v this] assms(3)
  have "?f (take (length ?ps) ?qs) = ?f ?ps" by (simp add: take_map)
  moreover have "inj_on ?h (Cons 0 ` set (take (length ?ps) ?qs) \<union> Cons 0 ` set ?ps)"
    by (rule inj_on_subset [OF assms(8)]) (auto simp: log_hashed_def dest: in_set_takeD)
  ultimately show ?thesis by (intro map_leaf_inj)
qed

subsection \<open>A log of two statements\<close>

definition demo_log_key :: key_pair where
  "demo_log_key = \<lparr>kp_private = [7], kp_public = [7]\<rparr>"

definition demo_log :: "bytes list \<Rightarrow> transparency_log" where
  "demo_log ps = \<lparr>tl_kp = demo_log_key,
     tl_tree = \<lparr>mt_algorithm = us ''sha256'', mt_h = sha256 demo_crypto, mt_leaf_hashes = map (\<lambda>p. sha256 demo_crypto (0 # p)) ps\<rparr>,
     tl_preimages = ps\<rparr>"

definition demo_leaf :: "entry_type \<Rightarrow> bytes" where
  "demo_leaf et = [123, 34, 115, 116, 97, 116, 101, 109, 101, 110, 116, 34, 58, 123, 125, 44, 34, 116, 121, 112, 101, 34, 58, 34] @
     map of_nat (entry_type_value et) @ [34, 125]"

lemma demo_leaf_preimage: "make_leaf_preimage demo_crypto [] et = Inr (demo_leaf et)"
  by (cases et) (simp_all add: make_leaf_preimage_def demo_leaf_def entry_type_value_def demo_crypto_def canon_eval)

lemma demo_log_append:
  "tl_append demo_crypto [] et (demo_log ps) = (Inr (int (length ps)), demo_log (ps @ [demo_leaf et]))"
  by (simp add: demo_log_def tl_append_def add_leaf_def demo_leaf_preimage Let_def)

lemma demo_log_new: "new_log demo_crypto demo_log_key = Inr (demo_log [])"
  by (simp add: demo_log_def new_log_def new_tree_def hash_fn_def)

lemma demo_log_logs:
  "logs demo_crypto demo_log_key (demo_log [])"
  "logs demo_crypto demo_log_key (demo_log [demo_leaf a])"
  "logs demo_crypto demo_log_key (demo_log [demo_leaf a, demo_leaf b])"
proof -
  show 0: "logs demo_crypto demo_log_key (demo_log [])" by (rule logs.created [OF demo_log_new])
  show 1: "logs demo_crypto demo_log_key (demo_log [demo_leaf a])" for a
    using logs.appended [OF 0 demo_log_append [of a]] by simp
  show "logs demo_crypto demo_log_key (demo_log [demo_leaf a, demo_leaf b])"
    using logs.appended [OF 1 [of a] demo_log_append [of b]] by simp
qed

lemma demo_head: "\<exists>sth. signed_tree_head_of demo_crypto (\<lambda>_. us ''t'') 0 (demo_log ps) = Inr sth"
  if "length ps < 10"
proof -
  have n: "length (nat_str (length ps)) = 1" using that by (simp add: nat_str.simps)
  have "clean (nfc demo_crypto) 64 (JDict [(us ''tree_size'', JInt (int (length ps))),
      (us ''root'', JStr (mt_root_hex (tl_tree (demo_log ps)))), (us ''signed_at'', JStr (us ''t''))])"
    using n by (simp add: demo_log_def mt_root_hex_def clean_str_def demo_crypto_def)
  from canonicalize_clean [OF this, of "frepr demo_crypto" True]
  show ?thesis
    by (auto simp: signed_tree_head_of_def sth_preimage_def demo_log_def Let_def us_def)
qed

theorem logged_statement_verifies_witness:
  "\<exists>sth prf. signed_tree_head_of demo_crypto (\<lambda>_. us ''t'') 0 (demo_log [demo_leaf et_manifest, demo_leaf et_revocation]) = Inr sth \<and>
     verify_sth demo_crypto sth [7] = Inr True \<and> verify_inclusion demo_crypto [] et_revocation prf sth = Inr True"
proof -
  obtain sth where s: "signed_tree_head_of demo_crypto (\<lambda>_. us ''t'') 0 (demo_log [demo_leaf et_manifest, demo_leaf et_revocation]) = Inr sth"
    using demo_head [of "[demo_leaf et_manifest, demo_leaf et_revocation]"] by auto
  have a: "tl_append demo_crypto [] et_revocation (demo_log [demo_leaf et_manifest]) =
      (Inr 1, demo_log [demo_leaf et_manifest, demo_leaf et_revocation])"
    by (simp add: demo_log_append)
  have c: "ed_correct demo_crypto" "ed_load demo_crypto (kp_public demo_log_key)"
    "kp_public demo_log_key = ed_public demo_crypto (kp_private demo_log_key)" "kp_public demo_log_key = [7]"
    by (simp_all add: ed_correct_def demo_crypto_def demo_log_key_def)
  show ?thesis using logged_statement_verifies [OF demo_log_logs(2) a s c(1-3)] s c(4) by auto
qed

lemma demo_log_hashed:
  "log_hashed demo_crypto [demo_leaf et_manifest] = {0 # demo_leaf et_manifest}"
  "log_hashed demo_crypto [demo_leaf et_manifest, demo_leaf et_revocation] =
     {0 # demo_leaf et_manifest, 0 # demo_leaf et_revocation,
      1 # sha256 demo_crypto (0 # demo_leaf et_manifest) @ sha256 demo_crypto (0 # demo_leaf et_revocation)}"
  by (simp_all add: log_hashed_def mth_hashed.simps split_point_2 [unfolded numeral_2_eq_2] mth.simps insert_commute)

lemma demo_digest: "digest32 (sha256 demo_crypto)"
  by (auto simp: digest32_def demo_crypto_def)

lemma demo_inj: "inj_on (sha256 demo_crypto) (log_hashed demo_crypto [demo_leaf et_manifest, demo_leaf et_revocation])"
  unfolding demo_log_hashed by (simp add: demo_leaf_def entry_type_value_def demo_crypto_def us_def)

theorem accepted_statement_is_logged_witness:
  "\<exists>sth prf. signed_tree_head_of demo_crypto (\<lambda>_. us ''t'') 0 (demo_log [demo_leaf et_manifest]) = Inr sth \<and>
     verify_inclusion demo_crypto [] et_manifest prf sth = Inr True \<and> ip_leaf_index prf = 0 \<and>
     tl_find demo_crypto [] et_manifest (demo_log [demo_leaf et_manifest]) \<noteq> Inr None"
proof -
  let ?l = "demo_log [demo_leaf et_manifest]"
  let ?p = "\<lparr>ip_leaf_index = 0, ip_tree_size = 1, ip_leaf_hash = sha256 demo_crypto (0 # demo_leaf et_manifest), ip_audit_path = []\<rparr>"
  obtain sth where s: "signed_tree_head_of demo_crypto (\<lambda>_. us ''t'') 0 ?l = Inr sth"
    using demo_head [of "[demo_leaf et_manifest]"] by auto
  have inv: "log_inv demo_crypto ?l" using logs_inv [OF demo_log_logs(2)] by simp
  have p: "tl_inclusion_proof ?l 0 = Inr ?p"
    by (simp add: tl_inclusion_proof_def mt_inclusion_proof_def demo_log_def audit_path.simps)
  have v: "verify_inclusion demo_crypto [] et_manifest ?p sth = Inr True"
    using inclusion_verifies [OF inv p head_commits [OF inv s]] by (simp add: demo_leaf_preimage demo_log_def)
  have i: "inj_on (sha256 demo_crypto) (log_hashed demo_crypto (tl_preimages ?l) \<union> inclusion_hashed demo_crypto (demo_leaf et_manifest) ?p)"
    by (simp add: demo_log_hashed inclusion_hashed_def proof_hashed_def proof_root_def tree_climb.simps demo_log_def [of "[demo_leaf et_manifest]"])
  show ?thesis
    using accepted_statement_is_logged [OF demo_log_logs(2) s demo_digest v] i s v demo_leaf_preimage by auto
qed

theorem consistent_heads_only_grow_witness:
  "take 1 (tl_preimages (demo_log [demo_leaf et_manifest, demo_leaf et_revocation])) =
     tl_preimages (demo_log [demo_leaf et_manifest])"
proof -
  let ?h = "sha256 demo_crypto"
  let ?a = "demo_leaf et_manifest" let ?b = "demo_leaf et_revocation"
  let ?l = "demo_log [?a]" let ?k = "demo_log [?a, ?b]"
  obtain old new where s: "signed_tree_head_of demo_crypto (\<lambda>_. us ''t'') 0 ?l = Inr old"
    "signed_tree_head_of demo_crypto (\<lambda>_. us ''t'') 0 ?k = Inr new"
    using demo_head [of "[?a]"] demo_head [of "[?a, ?b]"] by auto
  have pre: "tl_preimages ?l = [?a]" "tl_preimages ?k = [?a, ?b]" by (simp_all add: demo_log_def)
  have c: "commits demo_crypto [?a] old" "commits demo_crypto [?a, ?b] new"
    using head_commits logs_inv [OF demo_log_logs(2)] logs_inv [OF demo_log_logs(3)] s pre by metis+
  have k: "cons_roots ?h 1 2 (cons_terms (?h (0 # ?a)) 1 [?h (0 # ?b)]) =
      Some (?h (0 # ?a), ?h (1 # ?h (0 # ?a) @ ?h (0 # ?b)), [1 # ?h (0 # ?a) @ ?h (0 # ?b)])"
    by (simp add: cons_roots_def cons_terms_def cons_climb.simps split_point_2 cons_L_def)
  have m: "mth ?h [?h (0 # ?a)] = ?h (0 # ?a)" "mth ?h [?h (0 # ?a), ?h (0 # ?b)] = ?h (1 # ?h (0 # ?a) @ ?h (0 # ?b))"
    by (simp_all add: mth.simps split_point_2 [unfolded numeral_2_eq_2])
  have "verify_consistency ?h (?h (0 # ?a)) (?h (1 # ?h (0 # ?a) @ ?h (0 # ?b))) 1 2 [?h (0 # ?b)]"
    using k by (subst verify_consistency_eq) (simp_all add: cons_terms_def)
  then have v: "verify_log_consistency demo_crypto old new [?h (0 # ?b)] None = Inr True"
    using c m verify_consistency_int_nat [of ?h _ _ 1 2] by (simp add: verify_log_consistency_def commits_def)
  have "cons_hashed ?h (?h (0 # ?a)) 1 2 [?h (0 # ?b)] = {1 # ?h (0 # ?a) @ ?h (0 # ?b)}"
    unfolding cons_hashed_def k by simp
  then have i: "inj_on ?h (log_hashed demo_crypto (tl_preimages ?l) \<union> log_hashed demo_crypto (tl_preimages ?k) \<union>
      cons_hashed ?h (mth ?h (map (\<lambda>p. ?h (0 # p)) (tl_preimages ?l))) (length (tl_preimages ?l)) (length (tl_preimages ?k)) [?h (0 # ?b)])"
    using demo_inj unfolding pre by (simp add: m demo_log_hashed numeral_2_eq_2 insert_commute)
  show ?thesis
    using consistent_heads_only_grow [OF demo_log_logs(2) s(1) _ demo_log_logs(3) s(2) demo_digest v i] pre by simp
qed

end
