(* ===== verification/RuntimeRecords.thy ===== *)
theory RuntimeRecords
  imports Renewal
begin

section \<open>Runtime records (\<open>runtime_records.py\<close>)\<close>

text \<open>
  The signed, hash-chained records a protected controller leaves of a lease: signing of one
  record after its predecessor and verification of a whole chain. The main results: a terminal
  chain is accepted exactly when it tells the one story of a lease that ends in a wipe, records
  signed one after another are accepted, and the hash of the last record fixes the whole history.
\<close>

subsection \<open>Records\<close>

datatype runtime_event = lease_started | renewal_succeeded | lapse_detected | revocation_detected
  | wipe_requested | wipe_completed | process_terminated

definition event_value :: "runtime_event \<Rightarrow> pystr" where
  "event_value e = us (case e of lease_started \<Rightarrow> ''lease_started'' | renewal_succeeded \<Rightarrow> ''renewal_succeeded''
     | lapse_detected \<Rightarrow> ''lapse_detected'' | revocation_detected \<Rightarrow> ''revocation_detected''
     | wipe_requested \<Rightarrow> ''wipe_requested'' | wipe_completed \<Rightarrow> ''wipe_completed''
     | process_terminated \<Rightarrow> ''process_terminated'')"

record runtime_record =
  rr_kind :: pystr
  rr_algorithm :: pystr
  rr_sequence :: int
  rr_event :: pystr
  rr_occurred_at :: pystr
  rr_weights_hash :: pystr
  rr_manifest_hash :: pystr
  rr_lease_id :: pystr
  rr_previous_record_hash :: "pystr option"
  rr_detail :: "(pystr \<times> json) list"
  rr_public_key_b64url :: pystr
  rr_signature_b64url :: pystr

definition rr_members :: "runtime_record \<Rightarrow> (string \<times> json option) list" where
  "rr_members r =
     [(''kind'', Some (JStr (rr_kind r))), (''algorithm'', Some (JStr (rr_algorithm r))),
      (''sequence'', Some (JInt (rr_sequence r))), (''event'', Some (JStr (rr_event r))),
      (''occurred_at'', Some (JStr (rr_occurred_at r))), (''weights_hash'', Some (JStr (rr_weights_hash r))),
      (''manifest_hash'', Some (JStr (rr_manifest_hash r))), (''lease_id'', Some (JStr (rr_lease_id r))),
      (''previous_record_hash'', map_option JStr (rr_previous_record_hash r)),
      (''detail'', Some (JDict (rr_detail r))), (''public_key_b64url'', Some (JStr (rr_public_key_b64url r)))]"

text \<open>\<open>asdict\<close> without and with the signature; a \<open>None\<close> member is dropped by the canonicalizer.\<close>

definition rr_signing_payload :: "runtime_record \<Rightarrow> json" where
  "rr_signing_payload r = JDict (present (rr_members r))"

definition rr_asdict :: "runtime_record \<Rightarrow> json" where
  "rr_asdict r = JDict (present (rr_members r @ [(''signature_b64url'', Some (JStr (rr_signature_b64url r)))]))"

definition record_hash :: "('x) crypto_scheme \<Rightarrow> runtime_record \<Rightarrow> pystr result" where
  "record_hash cr r = canon_hash cr (rr_asdict r)"

definition runtime_public_key :: "('x) crypto_scheme \<Rightarrow> bytes \<Rightarrow> pystr" where
  "runtime_public_key cr signing_key = b64url_encode (ed_public cr signing_key)"

definition rr_verify :: "('x) crypto_scheme \<Rightarrow> runtime_record \<Rightarrow> pystr \<Rightarrow> bool result" where
  "rr_verify cr r expected_public_key_b64url =
     (if rr_kind r \<noteq> us ''wcm-runtime-record/v1'' \<or> rr_algorithm r \<noteq> us ''Ed25519'' \<or> rr_sequence r < 0 \<or>
         rr_public_key_b64url r \<noteq> expected_public_key_b64url
      then Inr False
      else
        (case rbind (unb64url (rr_public_key_b64url r)) (\<lambda>pub.
              rbind (raise_if (\<not> ed_load cr pub) (ValueError (us ''invalid public key''))) (\<lambda>_.
              rbind (unb64url (rr_signature_b64url r)) (\<lambda>sig.
              rbind (canon_bytes cr (rr_signing_payload r)) (\<lambda>msg.
              raise_if (\<not> ed_verify cr pub sig msg) (InvalidSignature []))))) of
           Inr _ \<Rightarrow> Inr True
         | Inl e \<Rightarrow> if is_ValueError e \<or> is_InvalidSignature e then Inr False else Inl e))"

subsection \<open>Signing\<close>

definition sign_runtime_record ::
  "('x) crypto_scheme \<Rightarrow> bytes \<Rightarrow> int \<Rightarrow> runtime_event \<Rightarrow> pystr \<Rightarrow> pystr \<Rightarrow> pystr \<Rightarrow> pystr
     \<Rightarrow> runtime_record option \<Rightarrow> (pystr \<times> json) list option \<Rightarrow> runtime_record result" where
  "sign_runtime_record cr signing_key sequence event occurred_at weights_hash manifest_hash lease_id previous detail =
     (if sequence < 0 \<or> (previous = None) \<noteq> (sequence = 0)
      then Inl (ValueError (us ''sequence 0 must be the first record; later records require previous''))
      else if (case previous of None \<Rightarrow> False | Some p \<Rightarrow> rr_sequence p + 1 \<noteq> sequence)
      then Inl (ValueError (us ''runtime record sequence is not contiguous''))
      else if occurred_at = [] \<or> last occurred_at \<noteq> 90
      then Inl (ValueError (us ''runtime record timestamp must be UTC with a Z suffix''))
      else
        rbind (case previous of None \<Rightarrow> Inr None | Some p \<Rightarrow> rbind (record_hash cr p) (\<lambda>h. Inr (Some h))) (\<lambda>prev_hash.
        let unsigned =
          \<lparr>rr_kind = us ''wcm-runtime-record/v1'', rr_algorithm = us ''Ed25519'', rr_sequence = sequence,
           rr_event = event_value event, rr_occurred_at = occurred_at, rr_weights_hash = weights_hash,
           rr_manifest_hash = manifest_hash, rr_lease_id = lease_id, rr_previous_record_hash = prev_hash,
           rr_detail = (case detail of None \<Rightarrow> [] | Some d \<Rightarrow> d),
           rr_public_key_b64url = runtime_public_key cr signing_key, rr_signature_b64url = []\<rparr>
        in rbind (canon_bytes cr (rr_signing_payload unsigned)) (\<lambda>msg.
           Inr (unsigned\<lparr>rr_signature_b64url := b64url_encode (ed_sign cr signing_key msg)\<rparr>))))"

subsection \<open>Verifying a chain\<close>

definition rr_identity :: "runtime_record \<Rightarrow> pystr \<times> pystr \<times> pystr" where
  "rr_identity r = (rr_weights_hash r, rr_manifest_hash r, rr_lease_id r)"

text \<open>The loop over the records: \<open>None\<close> when every record passes, otherwise why one does not.\<close>

fun chain_loop ::
  "('x) crypto_scheme \<Rightarrow> pystr \<Rightarrow> pystr \<times> pystr \<times> pystr \<Rightarrow> nat \<Rightarrow> runtime_record option \<Rightarrow> runtime_record list
     \<Rightarrow> pystr option result" where
  "chain_loop cr key identity index previous [] = Inr None"
| "chain_loop cr key identity index previous (r # rs) =
     (if rr_sequence r \<noteq> int index then Inr (Some (us ''runtime record sequence is not contiguous''))
      else rbind (rr_verify cr r key) (\<lambda>ok.
        if \<not> ok then Inr (Some (us ''runtime record '' @ nat_str index @ us '' signature or format is invalid''))
        else if rr_identity r \<noteq> identity then Inr (Some (us ''runtime record identity changed within the chain''))
        else rbind (case previous of None \<Rightarrow> Inr None | Some p \<Rightarrow> rbind (record_hash cr p) (\<lambda>h. Inr (Some h))) (\<lambda>expected.
          if rr_previous_record_hash r \<noteq> expected then Inr (Some (us ''runtime record previous hash does not match''))
          else chain_loop cr key identity (Suc index) (Some r) rs)))"

definition boundaries :: "pystr list" where
  "boundaries = [event_value lapse_detected, event_value revocation_detected]"

definition terminal_events :: "pystr list" where
  "terminal_events = map event_value [wipe_requested, wipe_completed, process_terminated]"

definition terminal_verdict :: "pystr list \<Rightarrow> bool \<times> pystr" where
  "terminal_verdict events =
     (let boundary_positions = filter (\<lambda>i. events ! i \<in> set boundaries) [0..<length events]
      in if hd events \<noteq> event_value lease_started \<or> length boundary_positions \<noteq> 1
         then (False, us ''chain requires one lease start and one lapse or revocation boundary'')
         else let boundary = hd boundary_positions
           in if drop (boundary + 1) events \<noteq> terminal_events
              then (False, us ''boundary must be followed by wipe requested, wipe completed, and termination'')
              else if list_ex (\<lambda>e. e \<noteq> event_value renewal_succeeded) (drop 1 (take boundary events))
              then (False, us ''only successful renewals may occur before the terminal boundary'')
              else (True, us ''valid terminal runtime record chain''))"

definition verify_runtime_record_chain ::
  "('x) crypto_scheme \<Rightarrow> runtime_record list \<Rightarrow> pystr \<Rightarrow> bool \<Rightarrow> (bool \<times> pystr) result" where
  "verify_runtime_record_chain cr records key require_terminal_sequence =
     (case records of
        [] \<Rightarrow> Inr (False, us ''runtime record chain is empty'')
      | r # _ \<Rightarrow>
          rbind (chain_loop cr key (rr_identity r) 0 None records) (\<lambda>bad.
            case bad of
              Some msg \<Rightarrow> Inr (False, msg)
            | None \<Rightarrow>
                if \<not> require_terminal_sequence then Inr (True, us ''valid partial runtime record chain'')
                else Inr (terminal_verdict (map rr_event records))))"

subsection \<open>What the loop checks\<close>

definition links :: "('x) crypto_scheme \<Rightarrow> runtime_record option \<Rightarrow> runtime_record \<Rightarrow> bool" where
  "links cr previous r =
     (case previous of None \<Rightarrow> rr_previous_record_hash r = None
      | Some p \<Rightarrow> (\<exists>h. record_hash cr p = Inr h \<and> rr_previous_record_hash r = Some h))"

fun chain_ok ::
  "('x) crypto_scheme \<Rightarrow> pystr \<Rightarrow> pystr \<times> pystr \<times> pystr \<Rightarrow> nat \<Rightarrow> runtime_record option \<Rightarrow> runtime_record list \<Rightarrow> bool" where
  "chain_ok cr key idy n previous [] = True"
| "chain_ok cr key idy n previous (r # rs) \<longleftrightarrow> rr_sequence r = int n \<and> rr_verify cr r key = Inr True \<and>
     rr_identity r = idy \<and> links cr previous r \<and> chain_ok cr key idy (Suc n) (Some r) rs"

lemma chain_loop_ok: "chain_loop cr key idy n previous rs = Inr None \<longleftrightarrow> chain_ok cr key idy n previous rs"
proof (induction rs arbitrary: n previous)
  case (Cons r rs)
  show ?case
  proof (cases "rr_sequence r = int n \<and> rr_verify cr r key = Inr True \<and> rr_identity r = idy")
    case True
    then show ?thesis by (auto simp: Cons.IH links_def rbind_Inr_iff split: option.splits)
  next
    case False
    then have "chain_loop cr key idy n previous (r # rs) \<noteq> Inr None"
      by (cases "rr_verify cr r key") auto
    with False show ?thesis by (auto simp del: chain_loop.simps)
  qed
qed simp

lemma chain_ok_append:
  "chain_ok cr key idy n previous (rs @ [r]) \<longleftrightarrow> chain_ok cr key idy n previous rs \<and>
     rr_sequence r = int (n + length rs) \<and> rr_verify cr r key = Inr True \<and> rr_identity r = idy \<and>
     links cr (if rs = [] then previous else Some (last rs)) r"
  by (induction rs arbitrary: n previous) auto

definition chained :: "('x) crypto_scheme \<Rightarrow> pystr \<Rightarrow> runtime_record list \<Rightarrow> bool" where
  "chained cr key rs \<longleftrightarrow> rs \<noteq> [] \<and> chain_ok cr key (rr_identity (hd rs)) 0 None rs"

lemma verify_chain_partial_iff:
  "(\<exists>msg. verify_runtime_record_chain cr rs key False = Inr (True, msg)) \<longleftrightarrow> chained cr key rs"
  by (cases rs) (auto simp: verify_runtime_record_chain_def chained_def chain_loop_ok [symmetric] rbind_Inr_iff
      simp del: chain_loop.simps split: option.splits)

lemma verify_chain_terminal_iff:
  "verify_runtime_record_chain cr rs key True = Inr (True, msg) \<longleftrightarrow>
     chained cr key rs \<and> terminal_verdict (map rr_event rs) = (True, msg)"
  by (cases rs) (auto simp: verify_runtime_record_chain_def chained_def chain_loop_ok [symmetric] rbind_Inr_iff
      simp del: chain_loop.simps split: option.splits)

subsection \<open>The story a terminal chain tells\<close>

lemma filter_index_once:
  assumes "\<forall>x \<in> set a. \<not> P x" and "P b" and "\<forall>x \<in> set c. \<not> P x" and "xs = a @ b # c"
  shows "filter (\<lambda>i. P (xs ! i)) [0..<length xs] = [length a]"
proof -
  let ?n = "length a"
  have idx: "[0..<length xs] = [0..<?n] @ ?n # [Suc ?n..<length xs]"
    unfolding assms(4) length_append using upt_add_eq_append [of 0 ?n "length (b # c)"]
    by (simp del: upt_Suc add: upt_conv_Cons)
  have "\<not> P (xs ! i)" if "i \<in> set [0..<?n]" for i using that assms(1,4) by (simp add: nth_append)
  moreover have "\<not> P (xs ! i)" if "i \<in> set [Suc ?n..<length xs]" for i
  proof -
    have "xs ! i = c ! (i - Suc ?n)" "i - Suc ?n < length c" using that assms(4) by (auto simp: nth_append nth_Cons')
    with assms(3) show ?thesis by simp
  qed
  moreover have "P (xs ! ?n)" using assms(2,4) by simp
  ultimately show ?thesis by (simp only: idx filter_append filter.simps filter_False if_True) simp
qed

definition lease_story :: "pystr list \<Rightarrow> bool" where
  "lease_story events \<longleftrightarrow> (\<exists>n. \<exists>b \<in> set boundaries.
     events = event_value lease_started # replicate n (event_value renewal_succeeded) @ b # terminal_events)"

lemma event_value_inj [simp]: "event_value a = event_value b \<longleftrightarrow> a = b"
  by (cases a; cases b) (simp_all add: event_value_def)

lemma boundary_values: "event_value e \<in> set boundaries \<longleftrightarrow> e = lapse_detected \<or> e = revocation_detected"
  by (simp add: boundaries_def)

lemma terminal_verdict_iff:
  assumes "events \<noteq> []"
  shows "terminal_verdict events = (True, msg) \<longleftrightarrow> lease_story events \<and> msg = us ''valid terminal runtime record chain''"
proof
  assume v: "terminal_verdict events = (True, msg)"
  let ?pos = "filter (\<lambda>i. events ! i \<in> set boundaries) [0..<length events]"
  have hd: "hd events = event_value lease_started" and one: "length ?pos = 1"
    and tail: "drop (hd ?pos + 1) events = terminal_events"
    and ren: "\<not> list_ex (\<lambda>e. e \<noteq> event_value renewal_succeeded) (drop 1 (take (hd ?pos) events))"
    and msg: "msg = us ''valid terminal runtime record chain''"
    using v by (auto simp: terminal_verdict_def Let_def split: if_splits)
  obtain p where p: "?pos = [p]" using one by (cases ?pos) auto
  then have "p \<in> set ?pos" by simp
  then have pb: "p < length events" "events ! p \<in> set boundaries" by simp_all
  have "p \<noteq> 0"
  proof
    assume "p = 0"
    then have "events ! p = event_value lease_started" using hd assms by (simp add: hd_conv_nth)
    with pb(2) show False by (simp add: boundary_values)
  qed
  then have t: "take p events = event_value lease_started # drop 1 (take p events)"
    using hd assms by (cases events; cases p) auto
  have r: "drop 1 (take p events) = replicate (p - 1) (event_value renewal_succeeded)"
  proof (rule replicate_eqI)
    show "length (drop 1 (take p events)) = p - 1" using pb(1) by simp
  qed (use ren in \<open>auto simp: p list_ex_iff\<close>)
  have "events = take p events @ events ! p # terminal_events" using id_take_nth_drop [OF pb(1)] tail by (simp add: p)
  then have "events = event_value lease_started # replicate (p - 1) (event_value renewal_succeeded) @ events ! p # terminal_events"
    using t r by (metis append_Cons)
  with pb(2) msg show "lease_story events \<and> msg = us ''valid terminal runtime record chain''"
    by (auto simp: lease_story_def)
next
  assume s: "lease_story events \<and> msg = us ''valid terminal runtime record chain''"
  then obtain n b where b: "b \<in> set boundaries"
    and ev: "events = event_value lease_started # replicate n (event_value renewal_succeeded) @ b # terminal_events"
    by (auto simp: lease_story_def)
  have "filter (\<lambda>i. events ! i \<in> set boundaries) [0..<length events] =
      [length (event_value lease_started # replicate n (event_value renewal_succeeded))]"
    using b by (intro filter_index_once [where b = b and c = terminal_events])
      (auto simp: boundary_values terminal_events_def ev)
  then show "terminal_verdict events = (True, msg)"
    using s by (simp add: terminal_verdict_def ev list_ex_iff)
qed

text \<open>
  C20 (runtime records). A chain is accepted as the complete record of a lease exactly when every
  record verifies under the expected key, carries its position, names the same weights, manifest
  and lease as the first and holds the hash of its predecessor, and the events are: the start of
  the lease, any number of renewals, one lapse or revocation, and then the request of the wipe,
  its completion and the end of the process.
\<close>

theorem terminal_chain_iff:
  "(\<exists>msg. verify_runtime_record_chain cr rs key True = Inr (True, msg)) \<longleftrightarrow>
     rs \<noteq> [] \<and> chain_ok cr key (rr_identity (hd rs)) 0 None rs \<and> lease_story (map rr_event rs)"
  by (cases "rs = []")
    (auto simp: verify_chain_terminal_iff terminal_verdict_iff chained_def)

subsection \<open>The last record fixes the history\<close>

text \<open>Two records are the same up to the order of their details and details that are \<open>None\<close>.\<close>

definition same_record :: "runtime_record \<Rightarrow> runtime_record \<Rightarrow> bool" where
  "same_record r s \<longleftrightarrow> r\<lparr>rr_detail := []\<rparr> = s\<lparr>rr_detail := []\<rparr> \<and>
     canon True (JDict (rr_detail r)) = canon True (JDict (rr_detail s))"

lemma rr_asdict_inj:
  assumes "canon True (rr_asdict r) = canon True (rr_asdict s)"
  shows "same_record r s"
  using present_inj [OF assms [unfolded rr_asdict_def rr_members_def]]
  by (simp add: same_record_def)

text \<open>The string hashed for a record.\<close>

definition record_hashed :: "('x) crypto_scheme \<Rightarrow> runtime_record \<Rightarrow> bytes set" where
  "record_hashed cr r = (case canon_bytes cr (rr_asdict r) of Inr p \<Rightarrow> {p} | Inl e \<Rightarrow> {})"

lemma record_hash_eqD:
  assumes "exact (rr_asdict r)" and "exact (rr_asdict s)"
    and "record_hash cr r = Inr h" and "record_hash cr s = Inr h"
    and "inj_on (sha256 cr) (record_hashed cr r \<union> record_hashed cr s)"
  shows "same_record r s"
proof -
  obtain p q where p: "canon_bytes cr (rr_asdict r) = Inr p" and q: "canon_bytes cr (rr_asdict s) = Inr q"
    and eq: "sha256 cr p = sha256 cr q"
    using assms(3,4) by (auto simp: record_hash_def canonical_hash_def rbind_Inr_iff hex_of_bytes_inj)
  from eq have "p = q" by - (rule inj_onD [OF assms(5)], simp_all add: record_hashed_def p q)
  with p q show ?thesis using canonicalize_inj [OF assms(1,2)] by (intro rr_asdict_inj) auto
qed

lemma same_record_fields:
  "same_record r s \<Longrightarrow> rr_sequence r = rr_sequence s \<and> rr_previous_record_hash r = rr_previous_record_hash s"
  by (cases r; cases s) (simp add: same_record_def)

lemma chain_history:
  assumes "chain_ok cr k i 0 None (rs @ [r])" and "chain_ok cr k' i' 0 None (qs @ [q])"
    and "record_hash cr r = Inr h" and "record_hash cr q = Inr h"
    and "\<forall>x \<in> set (rs @ [r]) \<union> set (qs @ [q]). exact (rr_asdict x)"
    and "inj_on (sha256 cr) (\<Union>x \<in> set (rs @ [r]) \<union> set (qs @ [q]). record_hashed cr x)"
  shows "list_all2 same_record (rs @ [r]) (qs @ [q])"
  using assms
proof (induction rs arbitrary: r qs q h rule: rev_induct)
  case Nil
  have "same_record r q" by (rule record_hash_eqD [OF _ _ Nil.prems(3,4) inj_on_subset [OF Nil.prems(6)]]) (use Nil.prems(5) in auto)
  moreover from this have "qs = []" using same_record_fields Nil.prems(1,2) by (fastforce simp: chain_ok_append)
  ultimately show ?case by simp
next
  case (snoc x xs)
  have same: "same_record r q"
    by (rule record_hash_eqD [OF _ _ snoc.prems(3,4) inj_on_subset [OF snoc.prems(6)]]) (use snoc.prems(5) in auto)
  note f = same_record_fields [OF same]
  note p = iffD1 [OF chain_ok_append snoc.prems(1)] and pq = iffD1 [OF chain_ok_append snoc.prems(2)]
  have n: "length qs = length (xs @ [x])" using f p pq by simp
  then obtain ys y where qs: "qs = ys @ [y]" by (metis rev_exhaust append_is_Nil_conv length_0_conv list.distinct(1))
  obtain g where g: "record_hash cr x = Inr g" "record_hash cr y = Inr g"
    using f p pq unfolding qs by (auto simp: links_def)
  have "list_all2 same_record (xs @ [x]) (ys @ [y])"
    by (rule snoc.IH [OF _ _ g _ inj_on_subset [OF snoc.prems(6)]]) (use p pq snoc.prems(5) in \<open>auto simp: qs\<close>)
  then have "list_all2 same_record ((xs @ [x]) @ [r]) ((ys @ [y]) @ [q])" by (rule list_all2_appendI) (simp add: same)
  then show ?case unfolding qs .
qed

text \<open>
  C21 (runtime records). Barring a collision, the hash of the last record fixes the whole history:
  two accepted chains of float-free records, complete or partial and under whatever keys, whose
  last records have the same hash have the same length and tell the same record by record. So a
  controller cannot later drop, insert, reorder or reword a record.
\<close>

theorem last_record_fixes_history:
  assumes "verify_runtime_record_chain cr rs k terminal = Inr (True, m)"
    and "verify_runtime_record_chain cr qs k' terminal' = Inr (True, m')"
    and "record_hash cr (last rs) = Inr h" and "record_hash cr (last qs) = Inr h"
    and "\<forall>x \<in> set rs \<union> set qs. exact (rr_asdict x)"
    and "inj_on (sha256 cr) (\<Union>x \<in> set rs \<union> set qs. record_hashed cr x)"
  shows "list_all2 same_record rs qs"
proof -
  have "chained cr k rs" "chained cr k' qs"
    using assms(1,2) verify_chain_partial_iff verify_chain_terminal_iff by (metis (full_types))+
  then show ?thesis
    using chain_history [of cr k "rr_identity (hd rs)" "butlast rs" "last rs" k' "rr_identity (hd qs)" "butlast qs" "last qs" h]
      assms(3-6) by (simp add: chained_def)
qed

subsection \<open>Records signed one after another\<close>

text \<open>The histories a controller signs: each record after the last one, for one lease.\<close>

inductive signed_history ::
  "('x) crypto_scheme \<Rightarrow> bytes \<Rightarrow> pystr \<Rightarrow> pystr \<Rightarrow> pystr \<Rightarrow> runtime_record list \<Rightarrow> bool" for cr sk wh mh lid where
  first: "sign_runtime_record cr sk 0 ev tm wh mh lid None detail = Inr r \<Longrightarrow> signed_history cr sk wh mh lid [r]"
| later: "signed_history cr sk wh mh lid rs \<Longrightarrow>
    sign_runtime_record cr sk (int (length rs)) ev tm wh mh lid (Some (last rs)) detail = Inr r \<Longrightarrow>
    signed_history cr sk wh mh lid (rs @ [r])"

lemma sign_runtime_record_fields:
  assumes "sign_runtime_record cr sk n ev tm wh mh lid previous detail = Inr r"
  shows "\<exists>msg. canon_bytes cr (rr_signing_payload r) = Inr msg \<and> rr_signature_b64url r = b64url_encode (ed_sign cr sk msg)"
    and "rr_kind r = us ''wcm-runtime-record/v1''" "rr_algorithm r = us ''Ed25519''" "rr_sequence r = n" "0 \<le> n"
      "rr_public_key_b64url r = runtime_public_key cr sk" "rr_identity r = (wh, mh, lid)" "rr_event r = event_value ev"
    and "links cr previous r"
  using assms by (auto simp: sign_runtime_record_def rbind_Inr_iff Let_def rr_signing_payload_def rr_members_def rr_identity_def
      links_def split: if_split_asm option.splits)

lemma signed_record_verifies:
  assumes "ed_correct cr" and "ed_load cr (ed_public cr sk)" and "ed_public cr sk \<noteq> []"
    and "sign_runtime_record cr sk n ev tm wh mh lid previous detail = Inr r"
  shows "rr_verify cr r (runtime_public_key cr sk) = Inr True"
proof -
  note f = sign_runtime_record_fields [OF assms(4)]
  from f(1) obtain msg where msg: "canon_bytes cr (rr_signing_payload r) = Inr msg"
    and sg: "rr_signature_b64url r = b64url_encode (ed_sign cr sk msg)" by blast
  have "length (ed_sign cr sk msg) = 64" using assms(1) by (simp add: ed_correct_def)
  then have "ed_sign cr sk msg \<noteq> []" by force
  then have "unb64url (rr_signature_b64url r) = Inr (ed_sign cr sk msg)" by (simp add: sg unb64url_encode)
  with f(2-6) msg assms(1-3) show ?thesis
    by (simp add: rr_verify_def runtime_public_key_def unb64url_encode ed_correct_def)
qed

lemma signed_history_chain:
  assumes "signed_history cr sk wh mh lid rs" and "ed_correct cr" and "ed_load cr (ed_public cr sk)" and "ed_public cr sk \<noteq> []"
  shows "rs \<noteq> [] \<and> chain_ok cr (runtime_public_key cr sk) (wh, mh, lid) 0 None rs"
  using assms(1)
proof (induction rule: signed_history.induct)
  case (first ev tm detail r)
  then show ?case using sign_runtime_record_fields [OF first] signed_record_verifies [OF assms(2-4) first] by simp
next
  case (later rs ev tm detail r)
  then show ?case
    using sign_runtime_record_fields [OF later(2)] signed_record_verifies [OF assms(2-4) later(2)] by (simp add: chain_ok_append)
qed

text \<open>
  What a controller signs record after record verifies as a partial chain
  under its public key at every moment, and as a complete one exactly when the events it recorded
  are the story of a lease that ended in a wipe.
\<close>

theorem signed_history_verifies:
  assumes "signed_history cr sk wh mh lid rs" and "ed_correct cr" and "ed_load cr (ed_public cr sk)" and "ed_public cr sk \<noteq> []"
  shows "(\<exists>msg. verify_runtime_record_chain cr rs (runtime_public_key cr sk) False = Inr (True, msg)) \<and>
    ((\<exists>msg. verify_runtime_record_chain cr rs (runtime_public_key cr sk) True = Inr (True, msg)) \<longleftrightarrow> lease_story (map rr_event rs))"
proof -
  note c = signed_history_chain [OF assms]
  then have "rr_identity (hd rs) = (wh, mh, lid)" by (cases rs) auto
  with c have "chained cr (runtime_public_key cr sk) rs" by (simp add: chained_def)
  with c show ?thesis
    by (auto simp: verify_chain_partial_iff verify_chain_terminal_iff terminal_verdict_iff)
qed

subsection \<open>A short history\<close>

definition demo_record ::
  "int \<Rightarrow> runtime_event \<Rightarrow> pystr option \<Rightarrow> (pystr \<times> json) list \<Rightarrow> runtime_record" where
  "demo_record n ev prev detail =
     \<lparr>rr_kind = us ''wcm-runtime-record/v1'', rr_algorithm = us ''Ed25519'', rr_sequence = n,
      rr_event = event_value ev, rr_occurred_at = us ''2026-01-01T00:00:00Z'', rr_weights_hash = us ''w'',
      rr_manifest_hash = us ''m'', rr_lease_id = us ''l'', rr_previous_record_hash = prev, rr_detail = detail,
      rr_public_key_b64url = runtime_public_key demo_crypto [5], rr_signature_b64url = b64url_encode (replicate 64 1)\<rparr>"

lemma no_surrogates_event [simp]: "no_surrogates (event_value e)"
  by (cases e) (simp_all add: event_value_def us_def surrogate_def)

lemma demo_record_clean:
  assumes "n = 0 \<or> n = 1" and "detail = []" and "no_surrogates (case prev of None \<Rightarrow> [] | Some h \<Rightarrow> h)"
  shows "clean (nfc demo_crypto) 64 (rr_signing_payload (demo_record n ev prev detail))"
    and "clean (nfc demo_crypto) 64 (rr_asdict (demo_record n ev prev detail))"
  using assms
  by (cases prev; simp add: rr_signing_payload_def rr_asdict_def rr_members_def demo_record_def present_def map_filter_simps
      clean_str_def runtime_public_key_def nfc_demo; elim disjE; simp add: clean_str_def nat_str.simps)+

lemma demo_zulu: "us ''2026-01-01T00:00:00Z'' \<noteq> []" "last (us ''2026-01-01T00:00:00Z'') = 90"
  by (simp_all add: us_def)

lemma ed_sign_demo: "ed_sign demo_crypto sk m = replicate 64 1"
  by (simp add: demo_crypto_def)

lemma demo_record_signed:
  assumes "n = 0 \<or> n = 1" and "d = []" and "(previous = None) = (n = 0)"
    and "case previous of None \<Rightarrow> prev = None | Some p \<Rightarrow> rr_sequence p + 1 = n \<and> (\<exists>h. record_hash demo_crypto p = Inr h \<and> prev = Some h \<and> no_surrogates h)"
  shows "sign_runtime_record demo_crypto [5] n ev (us ''2026-01-01T00:00:00Z'') (us ''w'') (us ''m'') (us ''l'') previous (Some d) =
    Inr (demo_record n ev prev d)"
proof -
  have c: "clean (nfc demo_crypto) 64 (rr_signing_payload (demo_record n ev prev d))"
    by (rule demo_record_clean) (use assms in \<open>auto split: option.splits\<close>)
  have "rr_signing_payload ((demo_record n ev prev d)\<lparr>rr_signature_b64url := []\<rparr>) = rr_signing_payload (demo_record n ev prev d)"
    by (simp add: rr_signing_payload_def rr_members_def)
  with canonicalize_clean [OF c, of "frepr demo_crypto" True] assms show ?thesis
    by (cases previous) (auto simp: sign_runtime_record_def Let_def demo_record_def demo_zulu ed_sign_demo)
qed

lemma demo_ed: "ed_correct demo_crypto" "ed_load demo_crypto (ed_public demo_crypto [5])" "ed_public demo_crypto [5] \<noteq> []"
  by (simp_all add: demo_crypto_def ed_correct_def)

lemma demo_record_hash:
  assumes "d = []"
  shows "\<exists>h. record_hash demo_crypto (demo_record 0 ev None d) = Inr h \<and> no_surrogates h"
proof -
  have c: "clean (nfc demo_crypto) 64 (rr_asdict (demo_record 0 ev None d))" by (rule demo_record_clean) (use assms in auto)
  from canonicalize_clean [OF this, of "frepr demo_crypto" True]
  show ?thesis by (auto simp: record_hash_def canonical_hash_def)
qed

theorem signed_history_verifies_witness:
  "\<exists>r s msg. sign_runtime_record demo_crypto [5] 0 lease_started (us ''2026-01-01T00:00:00Z'') (us ''w'') (us ''m'') (us ''l'') None (Some []) = Inr r \<and>
     sign_runtime_record demo_crypto [5] 1 lapse_detected (us ''2026-01-01T00:00:00Z'') (us ''w'') (us ''m'') (us ''l'') (Some r) (Some []) = Inr s \<and>
     verify_runtime_record_chain demo_crypto [r, s] (runtime_public_key demo_crypto [5]) False = Inr (True, msg)"
proof -
  let ?r = "demo_record 0 lease_started None []"
  obtain h where h: "record_hash demo_crypto ?r = Inr h" "no_surrogates h" using demo_record_hash by blast
  let ?s = "demo_record 1 lapse_detected (Some h) []"
  have q: "rr_sequence ?r = 0" by (simp add: demo_record_def)
  have r: "sign_runtime_record demo_crypto [5] 0 lease_started (us ''2026-01-01T00:00:00Z'') (us ''w'') (us ''m'') (us ''l'') None (Some []) = Inr ?r"
    by (rule demo_record_signed) simp_all
  have s: "sign_runtime_record demo_crypto [5] 1 lapse_detected (us ''2026-01-01T00:00:00Z'') (us ''w'') (us ''m'') (us ''l'') (Some ?r) (Some []) = Inr ?s"
    by (rule demo_record_signed) (use h q in simp_all)
  have "signed_history demo_crypto [5] (us ''w'') (us ''m'') (us ''l'') [?r, ?s]"
    using signed_history.later [OF signed_history.first [OF r]] s by simp
  from signed_history_verifies [OF this demo_ed] r s show ?thesis by blast
qed

theorem last_record_fixes_history_witness:
  "list_all2 same_record [demo_record 0 lease_started None []] [demo_record 0 lease_started None []]"
proof -
  let ?r = "demo_record 0 lease_started None []" let ?k = "runtime_public_key demo_crypto [5]"
  have r: "sign_runtime_record demo_crypto [5] 0 lease_started (us ''2026-01-01T00:00:00Z'') (us ''w'') (us ''m'') (us ''l'') None (Some []) = Inr ?r"
    by (rule demo_record_signed) simp_all
  have "\<exists>m. verify_runtime_record_chain demo_crypto [?r] ?k False = Inr (True, m)"
    using signed_history_chain [OF signed_history.first [OF r] demo_ed] sign_runtime_record_fields(7) [OF r]
    unfolding verify_chain_partial_iff chained_def by simp
  then obtain m where m: "verify_runtime_record_chain demo_crypto [?r] ?k False = Inr (True, m)" by blast
  obtain h where h: "record_hash demo_crypto (last [?r]) = Inr h" using demo_record_hash [of "[]" lease_started] by auto
  have e: "\<forall>x \<in> set [?r] \<union> set [?r]. exact (rr_asdict x)"
    by (simp add: rr_asdict_def rr_members_def present_def map_filter_simps demo_record_def runtime_public_key_def
        event_value_def)
  have i: "inj_on (sha256 demo_crypto) (\<Union>x \<in> set [?r] \<union> set [?r]. record_hashed demo_crypto x)"
    by (simp add: record_hashed_def split: sum.splits)
  show ?thesis by (rule last_record_fixes_history [OF m m h h e i])
qed

end
