(* ===== verification/PyJson.thy ===== *)
theory PyJson
  imports Quote
begin

section \<open>Standard library encodings of the provisioning modules\<close>

text \<open>
  \<open>base64.b64encode\<close>, the strict \<open>base64.b64decode(validate=True)\<close> and
  \<open>json.dumps(value, sort_keys=True, separators=(",", ":"))\<close> with its ASCII escapes, as the
  provisioning modules use them. The results are that the lenient and the strict decoder both read
  back what the encoder writes, and that the text of \<open>json.dumps\<close> determines the value up to the order of
  its members.
\<close>

subsection \<open>Base64\<close>

definition std64_char :: "nat \<Rightarrow> nat" where
  "std64_char n = (if n < 26 then 65 + n else if n < 52 then 71 + n else if n < 62 then n - 4
                   else if n = 62 then 43 else 47)"

fun b64_padded :: "nat list \<Rightarrow> pystr" where
  "b64_padded [] = []"
| "b64_padded [a] = map std64_char [a div 4, a mod 4 * 16] @ [61, 61]"
| "b64_padded [a, b] = map std64_char [a div 4, a mod 4 * 16 + b div 16, b mod 16 * 4] @ [61]"
| "b64_padded (a # b # c # r) =
     map std64_char [a div 4, a mod 4 * 16 + b div 16, b mod 16 * 4 + c div 64, c mod 64] @ b64_padded r"

definition b64encode :: "bytes \<Rightarrow> pystr" where
  "b64encode data = b64_padded (map unat data)"

text \<open>
  The strict decoder: no character outside the alphabet, no padding but the one that completes
  the last group, nothing after it.
\<close>

fun a2b_strict :: "pystr \<Rightarrow> nat list option" where
  "a2b_strict [] = Some []"
| "a2b_strict (p # q # r # s # t) =
     (case (std64_val p, std64_val q) of
        (Some u, Some v) \<Rightarrow>
          if r = 61 then if s = 61 \<and> t = [] then Some [u * 4 + v div 16] else None
          else (case std64_val r of
              None \<Rightarrow> None
            | Some w \<Rightarrow>
                if s = 61 then if t = [] then Some [u * 4 + v div 16, v mod 16 * 16 + w div 4] else None
                else (case std64_val s of
                    None \<Rightarrow> None
                  | Some x \<Rightarrow> map_option (\<lambda>l. [u * 4 + v div 16, v mod 16 * 16 + w div 4, w mod 4 * 64 + x] @ l) (a2b_strict t)))
      | _ \<Rightarrow> None)"
| "a2b_strict _ = None"

definition b64decode_validate :: "pystr \<Rightarrow> bytes result" where
  "b64decode_validate s =
     (if list_ex (\<lambda>c. c \<ge> 128) s
      then Inl (ValueError (us ''string argument should contain only ASCII characters''))
      else case a2b_strict s of
        None \<Rightarrow> Inl (BinasciiError (us ''Only base64 data is allowed''))
      | Some bs \<Rightarrow> Inr (map of_nat bs))"

lemma std64_val_char: "n < 64 \<Longrightarrow> std64_val (std64_char n) = Some n"
  by (auto simp: std64_val_def std64_char_def)

lemma std64_char_ascii: "n < 64 \<Longrightarrow> std64_char n < 128 \<and> std64_char n \<noteq> 61"
  by (auto simp: std64_char_def)

lemma b64_range:
  fixes a b c :: nat
  assumes "a < 256" "b < 256" "c < 256"
  shows "a div 4 < 64" "a mod 4 * 16 + b div 16 < 64" "b mod 16 * 4 + c div 64 < 64" "c mod 64 < 64" "a mod 4 * 16 < 64" "b mod 16 * 4 < 64"
  using assms by auto

lemma b64_regroup:
  fixes a b c :: nat
  assumes "a < 256" "b < 256" "c < 256"
  shows "a div 4 * 4 + (a mod 4 * 16 + b div 16) div 16 = a" "(a mod 4 * 16 + b div 16) mod 16 * 16 + (b mod 16 * 4 + c div 64) div 4 = b"
    "(b mod 16 * 4 + c div 64) mod 4 * 64 + c mod 64 = c" "a div 4 * 4 + (a mod 4 * 16) div 16 = a"
    "(a mod 4 * 16 + b div 16) mod 16 * 16 + (b mod 16 * 4) div 4 = b"
  using assms by auto

lemma b64_padded_ascii: "\<forall>b \<in> set bs. b < 256 \<Longrightarrow> \<forall>c \<in> set (b64_padded bs). c < 128"
proof (induction bs rule: b64_padded.induct)
  case (4 a b c r)
  then show ?case using b64_range [of a b c] by (simp add: std64_char_ascii)
qed (simp_all add: std64_char_ascii b64_range [of _ _ 0] b64_range [of _ 0 0])

lemma b64_padded_decodes:
  "\<forall>b \<in> set bs. b < 256 \<Longrightarrow> a2b_base64 0 0 0 (b64_padded bs) = Some bs \<and> a2b_strict (b64_padded bs) = Some bs"
proof (induction bs rule: b64_padded.induct)
  case (4 a b c r)
  then have "a < 256" "b < 256" "c < 256" by auto
  note v = b64_range [OF this] and g = b64_regroup [OF this]
  note w = v [THEN std64_val_char] v [THEN std64_char_ascii]
  show ?case using 4 g(1-3) by (simp add: w)
next
  case (3 a b)
  then have "a < 256" "b < 256" "0 < (256 :: nat)" by auto
  note v = b64_range [OF this] and g = b64_regroup [OF this]
  note w = v [THEN std64_val_char] v [THEN std64_char_ascii]
  show ?case using g(1,5) by (simp add: w)
next
  case (2 a)
  then have "a < 256" "0 < (256 :: nat)" "0 < (256 :: nat)" by auto
  note v = b64_range [OF this] and g = b64_regroup [OF this]
  note w = v [THEN std64_val_char] v [THEN std64_char_ascii]
  show ?case using g(4) by (simp add: w)
qed simp

lemma b64decode_b64encode: "b64decode (b64encode data) = Inr data" "b64decode_validate (b64encode data) = Inr data"
proof -
  have "\<not> list_ex (\<lambda>c. c \<ge> 128) (b64encode data)"
    using b64_padded_ascii [OF unat_bytes_range] by (fastforce simp: b64encode_def list_ex_iff)
  moreover have "map of_nat (map unat data) = data" by (simp add: map_idI)
  ultimately show "b64decode (b64encode data) = Inr data" "b64decode_validate (b64encode data) = Inr data"
    using b64_padded_decodes [OF unat_bytes_range, of data]
    by (simp_all add: b64decode_def b64decode_validate_def b64encode_def)
qed

subsection \<open>\<open>json.dumps\<close>\<close>

definition u_escape :: "nat \<Rightarrow> pystr" where
  "u_escape n = [92, 117, hex_digit (n div 4096), hex_digit (n div 256 mod 16), hex_digit (n div 16 mod 16), hex_digit (n mod 16)]"

definition ascii_escape :: "nat \<Rightarrow> pystr" where
  "ascii_escape c =
     (if c = 34 then [92, 34] else if c = 92 then [92, 92] else if c = 10 then [92, 110] else if c = 13 then [92, 114]
      else if c = 9 then [92, 116] else if c = 12 then [92, 102] else if c = 8 then [92, 98]
      else if 32 \<le> c \<and> c \<le> 126 then [c]
      else if c < 0x10000 then u_escape c
      else let v = c - 0x10000 in u_escape (0xD800 + v div 1024) @ u_escape (0xDC00 + v mod 1024))"

definition dumps_str :: "pystr \<Rightarrow> pystr" where
  "dumps_str s = [34] @ concat (map ascii_escape s) @ [34]"

text \<open>\<open>fr\<close> is the interpreter's text of a finite float.\<close>

definition dumps_float :: "(rat \<Rightarrow> pystr) \<Rightarrow> pyfloat \<Rightarrow> pystr" where
  "dumps_float fr f =
     (case f of Finite q \<Rightarrow> fr q | NaN \<Rightarrow> us ''NaN''
      | Infinity neg \<Rightarrow> if neg then us ''-Infinity'' else us ''Infinity'')"

function (sequential) dumps :: "(rat \<Rightarrow> pystr) \<Rightarrow> json \<Rightarrow> pystr result" where
  "dumps fr JNull = Inr (us ''null'')"
| "dumps fr (JBool b) = Inr (if b then us ''true'' else us ''false'')"
| "dumps fr (JInt n) = py_int_str n"
| "dumps fr (JFloat f) = Inr (dumps_float fr f)"
| "dumps fr (JStr s) = Inr (dumps_str s)"
| "dumps fr (JList vs) =
     rbind (rmap (dumps fr) vs) (\<lambda>parts. Inr (us ''['' @ join (us '','') parts @ us '']''))"
| "dumps fr (JDict d) =
     rbind (rmap (\<lambda>(k, v). rbind (dumps fr v) (\<lambda>s. Inr (dumps_str k @ us '':'' @ s))) (sort_key fst d))
       (\<lambda>parts. Inr (us ''{'' @ join (us '','') parts @ us ''}''))"
| "dumps fr (JOther t) = Inl (TypeError (us ''Object is not JSON serializable''))"
  by pat_completeness auto

termination
  by (relation "measure (size \<circ> snd)") (auto simp: size_member_list intro: size_member_dict [where P = "\<lambda>_. True" and f = fst])

declare dumps.simps [simp del]

text \<open>\<open>.encode("ascii")\<close> of such a text.\<close>

definition dumps_bytes :: "(rat \<Rightarrow> pystr) \<Rightarrow> json \<Rightarrow> bytes result" where
  "dumps_bytes fr v = rbind (dumps fr v) (\<lambda>s. Inr (map of_nat s))"

subsection \<open>When \<open>json.dumps\<close> succeeds\<close>

fun dumpable :: "json \<Rightarrow> bool" where
  "dumpable (JOther t) = False"
| "dumpable (JInt n) = (length (nat_str (nat \<bar>n\<bar>)) \<le> 4300)"
| "dumpable (JList vs) = (\<forall>v \<in> set vs. dumpable v)"
| "dumpable (JDict d) = (\<forall>(k, v) \<in> set d. dumpable v)"
| "dumpable _ = True"

lemma dumps_total: "dumpable v \<Longrightarrow> \<exists>s. dumps fr v = Inr s"
proof (induction fr v rule: dumps.induct)
  case (6 fr vs)
  then have "\<exists>ps. rmap (dumps fr) vs = Inr ps \<and> (\<forall>p \<in> set ps. True)" by (intro rmap_total) auto
  then show ?case by (auto simp: dumps.simps)
next
  case (7 fr d)
  have "\<exists>ps. rmap (\<lambda>(k, v). rbind (dumps fr v) (\<lambda>s. Inr (dumps_str k @ us '':'' @ s))) (sort_key fst d) = Inr ps \<and> (\<forall>p \<in> set ps. True)"
  proof (rule rmap_total)
    fix x assume x: "x \<in> set (sort_key fst d)"
    obtain k v where kv: "x = (k, v)" by force
    with x 7(2) have "dumpable v" by auto
    with 7(1) [OF x kv [symmetric]] kv show "\<exists>y. (case x of (k, v) \<Rightarrow> rbind (dumps fr v) (\<lambda>s. Inr (dumps_str k @ us '':'' @ s))) = Inr y \<and> True"
      by auto
  qed
  then show ?case by (auto simp: dumps.simps)
qed (simp_all add: dumps.simps py_int_str_def)

subsection \<open>The text of \<open>json.dumps\<close> can be read back\<close>

text \<open>Strings of Unicode scalar values: a lone surrogate would be confused with half of a pair.\<close>

definition scalar_text :: "pystr \<Rightarrow> bool" where
  "scalar_text s \<longleftrightarrow> code_points s \<and> no_surrogates s"

definition ascii_unescape :: "pystr \<Rightarrow> nat \<times> pystr" where
  "ascii_unescape s =
     (if hd s \<noteq> 92 then (hd s, tl s)
      else let d = s ! 1; t = drop 2 s in
        if d = 98 then (8, t) else if d = 102 then (12, t) else if d = 110 then (10, t)
        else if d = 114 then (13, t) else if d = 116 then (9, t)
        else if d = 117
        then let v = hex4_val (take 4 t)
          in if 0xD800 \<le> v \<and> v \<le> 0xDBFF
             then (0x10000 + (v - 0xD800) * 1024 + (hex4_val (take 4 (drop 6 t)) - 0xDC00), drop 10 t)
             else (v, drop 4 t)
        else (d, t))"

lemma u_escape_hex4: "n < 0x10000 \<Longrightarrow> u_escape n = 92 # 117 # hex4 n"
  by (simp add: u_escape_def hex4_def)

lemma hex4_length [simp]: "length (hex4 n) = 4"
  by (simp add: hex4_def)

lemma ascii_unescape_escape:
  assumes "c < 0x110000" and "\<not> surrogate c"
  shows "ascii_unescape (ascii_escape c @ x) = (c, x)"
proof -
  consider (short) "c \<in> {34, 92, 10, 13, 9, 12, 8}" | (plain) "c \<notin> {34, 92, 10, 13, 9, 12, 8}" "32 \<le> c" "c \<le> 126"
    | (bmp) "c \<notin> {34, 92, 10, 13, 9, 12, 8}" "\<not> (32 \<le> c \<and> c \<le> 126)" "c < 0x10000" | (pair) "0x10000 \<le> c"
    by (metis not_less)
  then show ?thesis
  proof cases
    case short
    then show ?thesis by (elim insertE) (simp_all add: ascii_escape_def ascii_unescape_def)
  next
    case plain
    then show ?thesis by (simp add: ascii_escape_def ascii_unescape_def)
  next
    case bmp
    then have "ascii_escape c = 92 # 117 # hex4 c" by (simp add: ascii_escape_def u_escape_hex4)
    moreover have "\<not> (0xD800 \<le> c \<and> c \<le> 0xDBFF)" using assms(2) by (auto simp: surrogate_def)
    ultimately show ?thesis using bmp(3) by (simp add: ascii_unescape_def Let_def hex4_val_hex4)
  next
    case pair
    let ?v = "c - 0x10000"
    have v: "?v div 1024 < 1024" "?v mod 1024 < 1024" using assms(1) by auto
    have e: "ascii_escape c = u_escape (0xD800 + ?v div 1024) @ u_escape (0xDC00 + ?v mod 1024)"
      using pair by (simp add: ascii_escape_def Let_def)
    have h: "hex4_val (hex4 (0xD800 + ?v div 1024)) = 0xD800 + ?v div 1024" "hex4_val (hex4 (0xDC00 + ?v mod 1024)) = 0xDC00 + ?v mod 1024"
      using v by (intro hex4_val_hex4, linarith)+
    have u: "u_escape (0xD800 + ?v div 1024) = 92 # 117 # hex4 (0xD800 + ?v div 1024)" "u_escape (0xDC00 + ?v mod 1024) = 92 # 117 # hex4 (0xDC00 + ?v mod 1024)"
      using v by (intro u_escape_hex4, linarith)+
    define hi where "hi = 0xD800 + ?v div 1024"
    define lo where "lo = 0xDC00 + ?v mod 1024"
    have dr: "drop 6 (hex4 hi @ 92 # 117 # hex4 lo @ x) = hex4 lo @ x" "drop 10 (hex4 hi @ 92 # 117 # hex4 lo @ x) = x"
      by (simp_all add: hex4_def)
    have r: "0xD800 \<le> hi" "hi \<le> 0xDBFF" using v(1) by (simp_all add: hi_def)
    have "ascii_unescape (92 # 117 # hex4 hi @ 92 # 117 # hex4 lo @ x) = (0x10000 + (hi - 0xD800) * 1024 + (lo - 0xDC00), x)"
      using r h by (simp add: ascii_unescape_def Let_def dr hi_def [symmetric] lo_def [symmetric])
    moreover have "0x10000 + (hi - 0xD800) * 1024 + (lo - 0xDC00) = c"
      using pair div_mult_mod_eq [of ?v 1024] by (simp add: hi_def lo_def)
    ultimately show ?thesis by (simp add: e [folded hi_def lo_def] u [folded hi_def lo_def])
  qed
qed

lemma ascii_escape_not_quote: "ascii_escape c @ x \<noteq> 34 # y"
  by (simp add: ascii_escape_def u_escape_def Let_def)

lemma dumps_str_prefix:
  assumes "concat (map ascii_escape s) @ 34 # r = concat (map ascii_escape t) @ 34 # r'" and "scalar_text s" and "scalar_text t"
  shows "s = t \<and> r = r'"
  using assms
proof (induction s arbitrary: t)
  case Nil
  then show ?case by (cases t) (simp_all add: ascii_escape_not_quote [symmetric])
next
  case (Cons c s)
  show ?case
  proof (cases t)
    case Nil
    with Cons.prems show ?thesis by (simp add: ascii_escape_not_quote)
  next
    case t: (Cons d u)
    have c: "c < 0x110000" "\<not> surrogate c" "d < 0x110000" "\<not> surrogate d" using Cons.prems(2,3) t by (simp_all add: scalar_text_def)
    have "ascii_escape c @ concat (map ascii_escape s) @ 34 # r = ascii_escape d @ concat (map ascii_escape u) @ 34 # r'"
      using Cons.prems(1) t by simp
    then have "c = d \<and> concat (map ascii_escape s) @ 34 # r = concat (map ascii_escape u) @ 34 # r'"
      using ascii_unescape_escape [OF c(1,2)] ascii_unescape_escape [OF c(3,4)] by (metis prod.inject)
    with Cons.IH [of u] Cons.prems(2,3) t show ?thesis by (simp add: scalar_text_def)
  qed
qed

interpretation dumped: text_coder dumps_str scalar_text
proof
  show "s = t \<and> r = r'" if "scalar_text s" "scalar_text t" "dumps_str s @ r = dumps_str t @ r'" for s t r r'
    using that by (intro dumps_str_prefix) (simp_all add: dumps_str_def)
qed (simp add: dumps_str_def)

text \<open>The value with the members of its objects in key order, as \<open>sort_keys=True\<close> prints it.\<close>

function pysort :: "json \<Rightarrow> json" where
  "pysort v =
     (case v of
        JList vs \<Rightarrow> JList (map pysort vs)
      | JDict d \<Rightarrow> JDict (map (\<lambda>(k, v). (k, pysort v)) (sort_key fst d))
      | _ \<Rightarrow> v)"
  by pat_completeness auto
termination
  by (relation "measure size") (auto simp: size_member_list intro: size_member_dict [where P = "\<lambda>_. True" and f = fst])

declare pysort.simps [simp del]

lemma pysort_simps [simp]:
  "pysort JNull = JNull" "pysort (JBool b) = JBool b" "pysort (JInt n) = JInt n" "pysort (JFloat f) = JFloat f" "pysort (JStr s) = JStr s"
  "pysort (JList vs) = JList (map pysort vs)" "pysort (JDict d) = JDict (map (\<lambda>(k, v). (k, pysort v)) (sort_key fst d))"
  "pysort (JOther t) = JOther t"
  by (simp_all add: pysort.simps)

lemma pysort_kept:
  "exact v \<Longrightarrow> exact (pysort v)" "texts ok v \<Longrightarrow> texts ok (pysort v)"
  by (induction v rule: pysort.induct; case_tac v; fastforce)+

lemma dumps_render: "exact v \<Longrightarrow> dumps fr v = Inr s \<Longrightarrow> s = render_with dumps_str (pysort v)"
proof (induction fr v arbitrary: s rule: dumps.induct)
  case (6 fr vs)
  then obtain ps where ps: "rmap (dumps fr) vs = Inr ps" "s = us ''['' @ join (us '','') ps @ us '']''" by (auto simp: dumps.simps rbind_Inr_iff)
  have "ps = map (\<lambda>v. render_with dumps_str (pysort v)) vs"
  proof (rule list_all2_map_eq [where P = exact])
    show "list_all2 (\<lambda>x y. exact x \<longrightarrow> y = render_with dumps_str (pysort x)) vs ps"
      using ps(1) 6(1) unfolding rmap_Inr_iff by (auto elim!: list.rel_mono_strong)
  qed (use 6(2) in auto)
  with ps(2) show ?case by (simp add: comp_def)
next
  case (7 fr d)
  let ?f = "\<lambda>(k, v). rbind (dumps fr v) (\<lambda>s. Inr (dumps_str k @ us '':'' @ s))"
  obtain ps where ps: "rmap ?f (sort_key fst d) = Inr ps" "s = us ''{'' @ join (us '','') ps @ us ''}''" using 7(3) by (auto simp: dumps.simps rbind_Inr_iff)
  have "ps = map (\<lambda>(k, v). dumps_str k @ us '':'' @ render_with dumps_str (pysort v)) (sort_key fst d)"
  proof (rule list_all2_map_eq [where P = "\<lambda>(k, v). exact v"])
    show "list_all2 (\<lambda>x y. (case x of (k, v) \<Rightarrow> exact v) \<longrightarrow> y = (case x of (k, v) \<Rightarrow> dumps_str k @ us '':'' @ render_with dumps_str (pysort v))) (sort_key fst d) ps"
      using ps(1) unfolding rmap_Inr_iff
      by (rule list.rel_mono_strong) (use 7(1) in \<open>fastforce simp: rbind_Inr_iff\<close>)
  qed (use 7(2) in auto)
  with ps(2) show ?case by (simp add: comp_def case_prod_unfold)
qed (auto simp: dumps.simps py_int_str_def split: if_split_asm)

lemma hex4_ascii: "x \<in> set (hex4 n) \<Longrightarrow> x < 128"
proof -
  have "hex_digit (m mod 16) < 128" for m by (simp add: hex_digit_def) linarith
  then show "x \<in> set (hex4 n) \<Longrightarrow> x < 128" by (auto simp: hex4_def)
qed

lemma u_escape_ascii: "n < 0x10000 \<Longrightarrow> x \<in> set (u_escape n) \<Longrightarrow> x < 128"
  by (auto simp: u_escape_hex4 dest: hex4_ascii)

lemma ascii_escape_ascii:
  assumes "c < 0x110000" and "x \<in> set (ascii_escape c)"
  shows "x < 128"
proof (cases "c < 0x10000")
  case True
  with assms(2) u_escape_ascii [OF True] show ?thesis by (auto simp: ascii_escape_def split: if_split_asm)
next
  case False
  let ?v = "c - 0x10000"
  have v: "0xD800 + ?v div 1024 < 0x10000" "0xDC00 + ?v mod 1024 < 0x10000" using assms(1) mod_less_divisor [of 1024 ?v] by auto
  have "ascii_escape c = u_escape (0xD800 + ?v div 1024) @ u_escape (0xDC00 + ?v mod 1024)" using False by (simp add: ascii_escape_def Let_def)
  with assms(2) u_escape_ascii [OF v(1)] u_escape_ascii [OF v(2)] show ?thesis by auto
qed

lemma ascii_join: "\<forall>p \<in> set ps. \<forall>x \<in> set p. x < 128 \<Longrightarrow> x \<in> set (join (us '','') ps) \<Longrightarrow> x < (128 :: nat)"
  by (induction "us '',''" ps rule: join.induct) (auto simp: us_def)

lemma ascii_dumps_str: "code_points s \<Longrightarrow> x \<in> set (dumps_str s) \<Longrightarrow> x < 128"
  using ascii_escape_ascii by (fastforce simp: dumps_str_def code_points_def)

lemma ascii_render: "exact v \<Longrightarrow> x \<in> set (render_with dumps_str v) \<Longrightarrow> x < 128"
proof (induction v arbitrary: x)
  case (JInt n)
  then show ?case using nat_str_digits by (fastforce simp: int_str_def us_def split: if_split_asm)
next
  case (JStr s)
  then show ?case using ascii_dumps_str by simp
next
  case (JList vs)
  then have "\<forall>p \<in> set (map (render_with dumps_str) vs). \<forall>x \<in> set p. x < 128" by auto
  from JList.prems(2) ascii_join [OF this] show ?case by (auto simp: us_def [of "''[''"] us_def [of "'']''"])
next
  case (JDict d)
  have "\<forall>p \<in> set (map (\<lambda>(k, v). dumps_str k @ us '':'' @ render_with dumps_str v) d). \<forall>x \<in> set p. x < 128"
    using JDict ascii_dumps_str by (fastforce simp: us_def)
  from JDict.prems(2) ascii_join [OF this] show ?case by (auto simp: us_def [of "''{''"] us_def [of "''}''"])
qed (auto simp: us_def split: if_split_asm)

text \<open>What the bytes of a value determine.\<close>

lemma dumps_bytes_inj:
  assumes "dumps_bytes fr a = Inr x" and "dumps_bytes fr b = Inr x" and "exact a" and "exact b" and "texts scalar_text a" and "texts scalar_text b"
  shows "pysort a = pysort b"
proof -
  obtain s t where s: "dumps fr a = Inr s" "dumps fr b = Inr t" "map of_nat s = x" "map of_nat t = x"
    using assms(1,2) by (auto simp: dumps_bytes_def rbind_Inr_iff)
  note r = dumps_render [OF assms(3) s(1)] dumps_render [OF assms(4) s(2)]
  note e = pysort_kept(1) [OF assms(3)] pysort_kept(1) [OF assms(4)]
  have b: "\<forall>y \<in> set s. y < 256" "\<forall>y \<in> set t. y < 256" using ascii_render [OF e(1)] ascii_render [OF e(2)] unfolding r by fastforce+
  have "(map of_nat s :: bytes) = map of_nat t" using s(3,4) by simp
  then have "s = t" by (intro byte_map_inj [OF _ _ \<open>map of_nat s = map of_nat t\<close>]) (use b in auto)
  then show ?thesis using dumped.render_inj [OF e] pysort_kept(2) assms(5,6) r by simp
qed

lemma pysort_members:
  assumes "pysort (JDict d) = pysort (JDict e)" and "distinct (map fst d)" and "distinct (map fst e)"
  shows "map_option pysort (map_of d k) = map_option pysort (map_of e k)"
proof -
  have "map_of (map (\<lambda>(k, v). (k, pysort v)) (sort_key fst d)) k = map_of (map (\<lambda>(k, v). (k, pysort v)) (sort_key fst e)) k"
    using assms(1) by simp
  then show ?thesis by (simp add: map_of_map map_of_sort_key(1) assms(2,3))
qed

lemma scalar_us [simp]: "scalar_text (us s)"
  by (simp add: scalar_text_def)

lemma scalar_ascii: "list_all (\<lambda>c. c < 128) s \<Longrightarrow> scalar_text s"
  by (fastforce simp: scalar_text_def code_points_def list_all_iff list_ex_iff surrogate_def)

lemma scalar_points: "scalar_text s \<Longrightarrow> code_points s"
  by (simp add: scalar_text_def)

end
