(* ===== verification/BrokerPolicy.thy ===== *)
theory BrokerPolicy
  imports PyJson Seal Snp
begin

section \<open>Broker provisioning policies and envelopes (\<open>provisioning.py\<close>)\<close>

text \<open>
  What an owner approves of a broker, the bytes a hardware report must bind, and the sealed and
  signed envelope with its decoder. The main lemma is that an envelope made for a transport key
  opens under the same policy to the key that was put in.
\<close>

definition prov_DOMAIN :: bytes where
  "prov_DOMAIN = ascii ''wcm/broker-provisioning/v1'' @ [0]"

record broker_policy =
  bp_measurement_hex :: pystr
  bp_configuration_sha256 :: pystr
  bp_weights_hash :: pystr
  bp_epoch :: int
  bp_guest_policy :: int
  bp_minimum_tcb_le_hex :: pystr
  bp_required_platform_fields :: "pystr set"
  bp_forbidden_platform_fields :: "pystr set"

definition SNP_FIELDS :: "pystr list" where
  "SNP_FIELDS = map us [''smt_en'', ''tsme_en'', ''ecc_en'', ''rapl_dis'', ''ciphertext_hiding_en'',
     ''alias_check_complete'', ''sev_tio_en'']"

definition canonical_hex :: "nat \<Rightarrow> pystr \<Rightarrow> bool" where
  "canonical_hex n value \<longleftrightarrow> length value = n * 2 \<and>
     (case bytes_fromhex value of None \<Rightarrow> False | Some b \<Rightarrow> hex_of_bytes b = value)"

text \<open>The checks of \<open>__post_init__\<close>; the types of the fields are those of the record.\<close>

definition new_policy :: "broker_policy \<Rightarrow> broker_policy result" where
  "new_policy p =
     rbind (raise_if (\<not> canonical_hex 48 (bp_measurement_hex p)) (ValueError (us ''measurement_hex must be 48-byte lowercase hex''))) (\<lambda>_.
     rbind (raise_if (\<not> canonical_hex 32 (bp_configuration_sha256 p)) (ValueError (us ''configuration_sha256 must be 32-byte lowercase hex''))) (\<lambda>_.
     rbind (raise_if (\<not> canonical_hex 8 (bp_minimum_tcb_le_hex p)) (ValueError (us ''minimum_tcb_le_hex must be 8-byte lowercase hex''))) (\<lambda>_.
     rbind (raise_if (bp_weights_hash p = []) (ValueError (us ''weights_hash must be nonempty''))) (\<lambda>_.
     rbind (raise_if (bp_epoch p < 0) (ValueError (us ''epoch must be a nonnegative integer''))) (\<lambda>_.
     rbind (raise_if (\<not> (0 \<le> bp_guest_policy p \<and> bp_guest_policy p < 2 ^ 64)) (ValueError (us ''guest_policy must be an unsigned 64-bit word''))) (\<lambda>_.
     rbind (raise_if (bit (bp_guest_policy p) 19) (ValueError (us ''debug-enabled broker policy is forbidden''))) (\<lambda>_.
     rbind (raise_if (\<not> bp_required_platform_fields p \<subseteq> set SNP_FIELDS) (ValueError (us ''required_platform_fields must contain known SNP platform fields''))) (\<lambda>_.
     rbind (raise_if (\<not> bp_forbidden_platform_fields p \<subseteq> set SNP_FIELDS) (ValueError (us ''forbidden_platform_fields must contain known SNP platform fields''))) (\<lambda>_.
     rbind (raise_if (bp_required_platform_fields p \<inter> bp_forbidden_platform_fields p \<noteq> {}) (ValueError (us ''contradictory platform requirements''))) (\<lambda>_.
     Inr p))))))))))"

definition bp_asdict :: "broker_policy \<Rightarrow> json" where
  "bp_asdict p = JDict
     [(us ''measurement_hex'', JStr (bp_measurement_hex p)),
      (us ''configuration_sha256'', JStr (bp_configuration_sha256 p)),
      (us ''weights_hash'', JStr (bp_weights_hash p)),
      (us ''epoch'', JInt (bp_epoch p)),
      (us ''guest_policy'', JInt (bp_guest_policy p)),
      (us ''minimum_tcb_le_hex'', JStr (bp_minimum_tcb_le_hex p)),
      (us ''required_platform_fields'', JList (map JStr (sorted_list_of_set (bp_required_platform_fields p)))),
      (us ''forbidden_platform_fields'', JList (map JStr (sorted_list_of_set (bp_forbidden_platform_fields p))))]"

definition bp_context :: "('x) crypto_scheme \<Rightarrow> broker_policy \<Rightarrow> bytes result" where
  "bp_context cr p = rbind (dumps_bytes (frepr cr) (bp_asdict p)) (\<lambda>b. Inr (prov_DOMAIN @ b))"

definition fromhex :: "pystr \<Rightarrow> bytes result" where
  "fromhex s = (case bytes_fromhex s of
     None \<Rightarrow> Inl (ValueError (us ''non-hexadecimal number found in fromhex() arg'')) | Some b \<Rightarrow> Inr b)"

definition provisioning_binding :: "('x) crypto_scheme \<Rightarrow> broker_policy \<Rightarrow> pystr \<Rightarrow> bytes result" where
  "provisioning_binding cr policy public_key_hex =
     rbind (fromhex public_key_hex) (\<lambda>public_key.
       if length public_key \<noteq> 32 \<or> hex_of_bytes public_key \<noteq> public_key_hex
       then Inl (ValueError (us ''transport public key must be canonical 32-byte lowercase hex''))
       else rbind (bp_context cr policy) (\<lambda>ctx. Inr (prov_DOMAIN @ public_key @ sha256 cr ctx)))"

record provisioning_envelope =
  pe_nonce :: pystr
  pe_ciphertext :: bytes
  pe_owner_signature :: bytes

definition prov_aad :: "('x) crypto_scheme \<Rightarrow> broker_policy \<Rightarrow> pystr \<Rightarrow> pystr \<Rightarrow> bytes result" where
  "prov_aad cr policy nonce public_key_hex =
     rbind (bp_context cr policy) (\<lambda>ctx. rbind (fromhex nonce) (\<lambda>n. rbind (fromhex public_key_hex) (\<lambda>pk. Inr (ctx @ n @ pk))))"

definition open_provisioned_key ::
  "('x) env_scheme \<Rightarrow> provisioning_envelope \<Rightarrow> broker_policy \<Rightarrow> bytes \<Rightarrow> bytes \<Rightarrow> bytes result" where
  "open_provisioned_key env envelope policy transport_private_key trusted_owner =
     (let public_key = hex_of_bytes (x_public env transport_private_key)
      in rbind (prov_aad env policy (pe_nonce envelope) public_key) (\<lambda>aad.
         rbind (raise_if (\<not> ed_verify env trusted_owner (pe_owner_signature envelope) (aad @ pe_ciphertext envelope)) (InvalidSignature [])) (\<lambda>_.
         open_sealed env (pe_ciphertext envelope) transport_private_key aad)))"

subsection \<open>Properties\<close>

lemma new_policy_iff:
  "new_policy p = Inr q \<longleftrightarrow> q = p \<and> canonical_hex 48 (bp_measurement_hex p) \<and> canonical_hex 32 (bp_configuration_sha256 p) \<and>
     canonical_hex 8 (bp_minimum_tcb_le_hex p) \<and> bp_weights_hash p \<noteq> [] \<and> 0 \<le> bp_epoch p \<and>
     0 \<le> bp_guest_policy p \<and> bp_guest_policy p < 2 ^ 64 \<and> \<not> bit (bp_guest_policy p) 19 \<and>
     bp_required_platform_fields p \<subseteq> set SNP_FIELDS \<and> bp_forbidden_platform_fields p \<subseteq> set SNP_FIELDS \<and>
     bp_required_platform_fields p \<inter> bp_forbidden_platform_fields p = {}"
  by (auto simp: new_policy_def rbind_Inr_iff)

lemma fromhex_hex [simp]: "fromhex (hex_of_bytes b) = Inr b"
  by (simp add: fromhex_def bytes_fromhex_hex)

lemma provisioning_binding_iff:
  "provisioning_binding cr p k = Inr b \<longleftrightarrow>
     (\<exists>pk ctx. length pk = 32 \<and> k = hex_of_bytes pk \<and> bp_context cr p = Inr ctx \<and> b = prov_DOMAIN @ pk @ sha256 cr ctx)"
  by (auto simp: provisioning_binding_def rbind_Inr_iff fromhex_def bytes_fromhex_hex split: option.splits if_splits)

lemma envelope_opens:
  assumes "dh_correct env" and "aead_correct env" and "ed_correct env" and "length seal_nonce = 12"
    and "prov_aad env p nonce (hex_of_bytes (x_public env sk)) = Inr aad"
    and "seal_to_public_key env eph seal_nonce (hex_of_bytes (x_public env sk)) key aad = Inr ct"
  shows "open_provisioned_key env \<lparr>pe_nonce = nonce, pe_ciphertext = ct, pe_owner_signature = ed_sign env osk (aad @ ct)\<rparr>
    p sk (ed_public env osk) = Inr key"
  using seal_open [OF assms(1,2,4) bytes_fromhex_hex assms(6)] assms(3,5)
  by (simp add: open_provisioned_key_def ed_correct_def)

lemma bp_context_total:
  assumes "length (nat_str (nat \<bar>bp_epoch p\<bar>)) \<le> 4300" and "length (nat_str (nat \<bar>bp_guest_policy p\<bar>)) \<le> 4300"
  shows "\<exists>ctx. bp_context cr p = Inr ctx"
  using dumps_total [of "bp_asdict p" "frepr cr"] assms by (auto simp: bp_context_def dumps_bytes_def bp_asdict_def)

end
