(* ===== verification/Deployment.thy ===== *)
theory Deployment
  imports BrokerPolicy
begin

section \<open>Deployment approvals (\<open>deployment_identity.py\<close>)\<close>

text \<open>
  The owner's immutable record of the artifacts, launch parameters and provisioning policy of a
  deployment. Files are the bytes read from them, or the error the read raised. The main results:
  an approval derived from files and a policy accepts them, its identity fixes the whole record with
  the launch parameters, and it fixes the content of every artifact and the policy, all up to a
  collision of the digest.
\<close>

subsection \<open>Data\<close>

datatype role = application | command_line | configuration | firmware | initrd | kernel | measurement_tool

definition ROLES :: "role list" where
  "ROLES = [application, command_line, configuration, firmware, initrd, kernel, measurement_tool]"

definition role_value :: "role \<Rightarrow> pystr" where
  "role_value r = us (case r of application \<Rightarrow> ''application'' | command_line \<Rightarrow> ''command_line''
     | configuration \<Rightarrow> ''configuration'' | firmware \<Rightarrow> ''firmware'' | initrd \<Rightarrow> ''initrd''
     | kernel \<Rightarrow> ''kernel'' | measurement_tool \<Rightarrow> ''measurement_tool'')"

definition deploy_DOMAIN :: bytes where
  "deploy_DOMAIN = ascii ''wcm/deployment-approval/v1'' @ [0]"

record artifact_identity =
  ai_role :: role
  ai_sha256 :: pystr
  ai_size :: int

record launch_parameters =
  lp_vmm_type :: pystr
  lp_vcpus :: int
  lp_vcpu_type :: pystr
  lp_guest_features :: pystr

record deployment_approval =
  da_profile :: pystr
  da_artifacts :: "artifact_identity list"
  da_launch :: launch_parameters
  da_expected_measurement_hex :: pystr
  da_effective_configuration_sha256 :: pystr
  da_provisioning_policy_sha256 :: pystr

text \<open>The patterns of the fields: \<open>^[0-9a-f]{n}$\<close>, \<open>^[A-Za-z0-9_.-]{1,64}$\<close> and
  \<open>^0x(?:0|[1-9a-f][0-9a-f]{0,15})$\<close>.\<close>

definition lowhex :: "nat \<Rightarrow> bool" where
  "lowhex c \<longleftrightarrow> (48 \<le> c \<and> c \<le> 57) \<or> (97 \<le> c \<and> c \<le> 102)"

definition hex_pattern :: "nat \<Rightarrow> pystr \<Rightarrow> bool" where
  "hex_pattern n s \<longleftrightarrow> length s = n \<and> list_all lowhex s"

definition vcpu_type_pattern :: "pystr \<Rightarrow> bool" where
  "vcpu_type_pattern s \<longleftrightarrow> 1 \<le> length s \<and> length s \<le> 64 \<and>
     list_all (\<lambda>c. (65 \<le> c \<and> c \<le> 90) \<or> (97 \<le> c \<and> c \<le> 122) \<or> (48 \<le> c \<and> c \<le> 57) \<or> c = 95 \<or> c = 46 \<or> c = 45) s"

definition guest_features_pattern :: "pystr \<Rightarrow> bool" where
  "guest_features_pattern s \<longleftrightarrow> take 2 s = us ''0x'' \<and>
     (drop 2 s = us ''0'' \<or>
      (drop 2 s \<noteq> [] \<and> hd (drop 2 s) \<noteq> 48 \<and> length (drop 2 s) \<le> 16 \<and> list_all lowhex (drop 2 s)))"

text \<open>Construction validates; pydantic's \<open>ValidationError\<close> is a \<open>ValueError\<close>.\<close>

definition new_artifact :: "role \<Rightarrow> pystr \<Rightarrow> int \<Rightarrow> artifact_identity result" where
  "new_artifact r digest n =
     (if hex_pattern 64 digest \<and> n > 0 then Inr \<lparr>ai_role = r, ai_sha256 = digest, ai_size = n\<rparr>
      else Inl (ValueError (us ''validation error for ArtifactIdentity'')))"

definition new_launch :: "launch_parameters \<Rightarrow> launch_parameters result" where
  "new_launch p =
     (if lp_vmm_type p = us ''QEMU'' \<and> 1 \<le> lp_vcpus p \<and> lp_vcpus p \<le> 1024 \<and> vcpu_type_pattern (lp_vcpu_type p) \<and>
         guest_features_pattern (lp_guest_features p)
      then Inr p else Inl (ValueError (us ''validation error for SnpLaunchParameters'')))"

definition new_approval :: "deployment_approval \<Rightarrow> deployment_approval result" where
  "new_approval a =
     (if da_profile a \<noteq> us ''wcm/snp-direct-boot-initrd/v1'' \<or> \<not> hex_pattern 96 (da_expected_measurement_hex a) \<or>
         \<not> hex_pattern 64 (da_effective_configuration_sha256 a) \<or> \<not> hex_pattern 64 (da_provisioning_policy_sha256 a)
      then Inl (ValueError (us ''validation error for DeploymentApproval''))
      else if map ai_role (da_artifacts a) \<noteq> ROLES
      then Inl (ValueError (us ''exact artifact roles in canonical order required''))
      else Inr a)"

subsection \<open>Identity\<close>

definition dump_approval :: "deployment_approval \<Rightarrow> json" where
  "dump_approval a = JDict
     [(us ''profile'', JStr (da_profile a)),
      (us ''artifacts'', JList (map (\<lambda>i. JDict [(us ''role'', JStr (role_value (ai_role i))), (us ''sha256'', JStr (ai_sha256 i)),
         (us ''size'', JInt (ai_size i))]) (da_artifacts a))),
      (us ''launch'', JDict [(us ''vmm_type'', JStr (lp_vmm_type (da_launch a))), (us ''vcpus'', JInt (lp_vcpus (da_launch a))),
         (us ''vcpu_type'', JStr (lp_vcpu_type (da_launch a))), (us ''guest_features'', JStr (lp_guest_features (da_launch a)))]),
      (us ''expected_measurement_hex'', JStr (da_expected_measurement_hex a)),
      (us ''effective_configuration_sha256'', JStr (da_effective_configuration_sha256 a)),
      (us ''provisioning_policy_sha256'', JStr (da_provisioning_policy_sha256 a))]"

definition canonical_bytes :: "('x) crypto_scheme \<Rightarrow> deployment_approval \<Rightarrow> bytes result" where
  "canonical_bytes cr a = dumps_bytes (frepr cr) (dump_approval a)"

definition approval_identity :: "('x) crypto_scheme \<Rightarrow> deployment_approval \<Rightarrow> pystr result" where
  "approval_identity cr a = rbind (canonical_bytes cr a) (\<lambda>b. Inr (prefixed_sha256 cr (deploy_DOMAIN @ b)))"

subsection \<open>Checks\<close>

definition require_policy :: "('x) crypto_scheme \<Rightarrow> deployment_approval \<Rightarrow> broker_policy \<Rightarrow> unit result" where
  "require_policy cr a policy =
     (let bad = Inl (ValueError (us ''provisioning policy does not match deployment approval''))
      in if bp_measurement_hex policy \<noteq> da_expected_measurement_hex a \<or>
            bp_configuration_sha256 policy \<noteq> da_effective_configuration_sha256 a
         then bad
         else rbind (bp_context cr policy) (\<lambda>ctx.
           if hex_of_bytes (sha256 cr ctx) \<noteq> da_provisioning_policy_sha256 a then bad else Inr ()))"

type_synonym file_read = "bytes result"

text \<open>The digest of the blocks of a file in order is the digest of its content.\<close>

definition artifact_of :: "('x) crypto_scheme \<Rightarrow> role \<Rightarrow> file_read \<Rightarrow> artifact_identity result" where
  "artifact_of cr r path = rbind path (\<lambda>content. new_artifact r (hex_of_bytes (sha256 cr content)) (int (length content)))"

definition role_file :: "(pystr \<times> file_read) list \<Rightarrow> role \<Rightarrow> file_read" where
  "role_file artifacts r = (case map_of artifacts (role_value r) of None \<Rightarrow> Inl (KeyError (role_value r)) | Some f \<Rightarrow> f)"

fun match_artifacts :: "('x) crypto_scheme \<Rightarrow> (pystr \<times> file_read) list \<Rightarrow> artifact_identity list \<Rightarrow> unit result" where
  "match_artifacts cr files [] = Inr ()"
| "match_artifacts cr files (expected # rest) =
     rbind (artifact_of cr (ai_role expected) (role_file files (ai_role expected))) (\<lambda>found.
       if found \<noteq> expected then Inl (ValueError (us ''deployment artifact substitution rejected''))
       else match_artifacts cr files rest)"

definition require_artifacts :: "('x) crypto_scheme \<Rightarrow> deployment_approval \<Rightarrow> (pystr \<times> file_read) list \<Rightarrow> unit result" where
  "require_artifacts cr a artifacts =
     (if fst ` set artifacts \<noteq> role_value ` set ROLES then Inl (ValueError (us ''exact deployment artifact set required''))
      else match_artifacts cr artifacts (da_artifacts a))"

definition derive_approval ::
  "('x) crypto_scheme \<Rightarrow> (pystr \<times> file_read) list \<Rightarrow> launch_parameters \<Rightarrow> pystr \<Rightarrow> broker_policy \<Rightarrow> deployment_approval result" where
  "derive_approval cr artifacts launch expected_measurement_hex policy =
     (if fst ` set artifacts \<noteq> role_value ` set ROLES then Inl (ValueError (us ''exact deployment artifact set required''))
      else rbind (rmap (\<lambda>r. artifact_of cr r (role_file artifacts r)) ROLES) (\<lambda>ids.
        rbind (bp_context cr policy) (\<lambda>ctx.
        rbind (new_approval \<lparr>da_profile = us ''wcm/snp-direct-boot-initrd/v1'', da_artifacts = ids, da_launch = launch,
            da_expected_measurement_hex = expected_measurement_hex,
            da_effective_configuration_sha256 = bp_configuration_sha256 policy,
            da_provisioning_policy_sha256 = hex_of_bytes (sha256 cr ctx)\<rparr>) (\<lambda>approval.
        rbind (require_policy cr approval policy) (\<lambda>_. Inr approval)))))"

text \<open>
  \<open>load_approval\<close> after the parse of the file: the pin is compared with the identity of the record.
\<close>

definition check_pin :: "('x) crypto_scheme \<Rightarrow> deployment_approval \<Rightarrow> pystr \<Rightarrow> deployment_approval result" where
  "check_pin cr approval expected_identity =
     rbind (approval_identity cr approval) (\<lambda>idy.
       if idy \<noteq> expected_identity then Inl (ValueError (us ''deployment approval identity does not match owner pin''))
       else Inr approval)"

subsection \<open>Properties\<close>

lemma match_artifacts_iff:
  "match_artifacts cr files as = Inr () \<longleftrightarrow> (\<forall>a \<in> set as. artifact_of cr (ai_role a) (role_file files (ai_role a)) = Inr a)"
  by (induction as) (auto simp: rbind_Inr_iff)

lemma artifact_of_fields:
  "artifact_of cr r f = Inr a \<longleftrightarrow>
     (\<exists>content. f = Inr content \<and> content \<noteq> [] \<and> a = \<lparr>ai_role = r, ai_sha256 = hex_of_bytes (sha256 cr content), ai_size = int (length content)\<rparr> \<and>
        hex_pattern 64 (hex_of_bytes (sha256 cr content)))"
  by (auto simp: artifact_of_def new_artifact_def rbind_Inr_iff)

text \<open>The approval derived from a set of files and a policy accepts both.\<close>

lemma derive_approval_accepts:
  assumes "derive_approval cr artifacts launch m policy = Inr a"
  shows "require_policy cr a policy = Inr ()" "require_artifacts cr a artifacts = Inr ()" "map ai_role (da_artifacts a) = ROLES"
proof -
  obtain ids ctx where r: "rmap (\<lambda>r. artifact_of cr r (role_file artifacts r)) ROLES = Inr ids"
    and a: "da_artifacts a = ids" "require_policy cr a policy = Inr ()" "map ai_role ids = ROLES"
      "fst ` set artifacts = role_value ` set ROLES"
    using assms by (auto simp: derive_approval_def rbind_Inr_iff new_approval_def split: if_split_asm)
  then show "require_policy cr a policy = Inr ()" "map ai_role (da_artifacts a) = ROLES" by simp_all
  have "list_all2 (\<lambda>r i. artifact_of cr r (role_file artifacts r) = Inr i) ROLES ids" using r by (simp add: rmap_Inr_iff)
  then have "\<forall>i \<in> set ids. artifact_of cr (ai_role i) (role_file artifacts (ai_role i)) = Inr i"
    by (induction rule: list_all2_induct) (auto simp: artifact_of_fields)
  with a show "require_artifacts cr a artifacts = Inr ()" by (simp add: require_artifacts_def match_artifacts_iff)
qed

text \<open>The strings hashed for a set of files.\<close>

definition files_hashed :: "(pystr \<times> file_read) list \<Rightarrow> bytes set" where
  "files_hashed files = {c. \<exists>r. role_file files r = Inr c}"

lemma same_artifact_iff:
  assumes "artifact_of cr r (role_file artifacts r) = Inr i" and "inj_on (sha256 cr) (files_hashed artifacts \<union> files_hashed others)"
  shows "artifact_of cr r (role_file others r) = Inr i \<longleftrightarrow> role_file others r = role_file artifacts r"
proof
  assume o: "artifact_of cr r (role_file others r) = Inr i"
  obtain c where c: "role_file artifacts r = Inr c" "ai_sha256 i = hex_of_bytes (sha256 cr c)"
    using assms(1) unfolding artifact_of_fields by auto
  obtain c' where c': "role_file others r = Inr c'" "ai_sha256 i = hex_of_bytes (sha256 cr c')"
    using o unfolding artifact_of_fields by auto
  have "sha256 cr c' = sha256 cr c" using c(2) c'(2) by (simp add: hex_of_bytes_inj)
  then have "c' = c" by - (rule inj_onD [OF assms(2)], use c(1) c'(1) in \<open>auto simp: files_hashed_def\<close>)
  with c(1) c'(1) show "role_file others r = role_file artifacts r" by simp
next
  assume "role_file others r = role_file artifacts r"
  with assms(1) show "artifact_of cr r (role_file others r) = Inr i" by simp
qed

lemma role_value_inj [simp]: "role_value r = role_value s \<longleftrightarrow> r = s"
  by (cases r; cases s) (simp_all add: role_value_def)

subsection \<open>The identity fixes the record\<close>

text \<open>A record whose parts passed their validation, as those that are built or loaded have.\<close>

definition approval_ok :: "deployment_approval \<Rightarrow> bool" where
  "approval_ok a \<longleftrightarrow> new_approval a = Inr a \<and> new_launch (da_launch a) = Inr (da_launch a) \<and>
     list_all (\<lambda>i. new_artifact (ai_role i) (ai_sha256 i) (ai_size i) = Inr i) (da_artifacts a)"

lemma pattern_scalar:
  "hex_pattern n t \<Longrightarrow> scalar_text t" "vcpu_type_pattern t \<Longrightarrow> scalar_text t" "guest_features_pattern t \<Longrightarrow> scalar_text t"
proof -
  have h: "list_all lowhex u \<Longrightarrow> list_all (\<lambda>c. c < 128) u" for u by (auto simp: list_all_iff lowhex_def)
  show "hex_pattern n t \<Longrightarrow> scalar_text t" by (simp add: hex_pattern_def h scalar_ascii)
  show "vcpu_type_pattern t \<Longrightarrow> scalar_text t" by (rule scalar_ascii) (auto simp: vcpu_type_pattern_def list_all_iff)
  show "scalar_text t" if "guest_features_pattern t"
  proof (rule scalar_ascii)
    have "list_all (\<lambda>c. c < 128) (take 2 t)" "list_all (\<lambda>c. c < 128) (drop 2 t)"
      using that h [of "drop 2 t"] by (auto simp: guest_features_pattern_def us_def)
    then show "list_all (\<lambda>c. c < 128) t" by (metis append_take_drop_id list_all_append)
  qed
qed

lemma role_scalar [simp]: "scalar_text (role_value r)"
  by (simp add: role_value_def)

lemma approval_scalar:
  assumes "approval_ok a"
  shows "exact (dump_approval a)" and "texts scalar_text (dump_approval a)"
proof -
  have f: "hex_pattern 96 (da_expected_measurement_hex a)" "hex_pattern 64 (da_effective_configuration_sha256 a)"
      "hex_pattern 64 (da_provisioning_policy_sha256 a)" "da_profile a = us ''wcm/snp-direct-boot-initrd/v1''"
      "lp_vmm_type (da_launch a) = us ''QEMU''" "vcpu_type_pattern (lp_vcpu_type (da_launch a))" "guest_features_pattern (lp_guest_features (da_launch a))"
    and i: "\<forall>i \<in> set (da_artifacts a). hex_pattern 64 (ai_sha256 i)"
    using assms by (auto simp: approval_ok_def new_approval_def new_launch_def new_artifact_def list_all_iff split: if_split_asm)
  have "scalar_text (da_expected_measurement_hex a)" "scalar_text (da_effective_configuration_sha256 a)" "scalar_text (da_provisioning_policy_sha256 a)"
    "scalar_text (da_profile a)" "scalar_text (lp_vmm_type (da_launch a))" "scalar_text (lp_vcpu_type (da_launch a))"
    "scalar_text (lp_guest_features (da_launch a))" "\<forall>i \<in> set (da_artifacts a). scalar_text (ai_sha256 i)"
    using f(1-3) [THEN pattern_scalar(1)] f(4,5) pattern_scalar(2) [OF f(6)] pattern_scalar(3) [OF f(7)] i pattern_scalar(1) by (simp, simp, simp, simp, simp, simp, simp, blast)
  then show "texts scalar_text (dump_approval a)" "exact (dump_approval a)"
    by (simp_all add: dump_approval_def scalar_points)
qed

lemma artifact_dump_inj:
  fixes i j :: artifact_identity
  assumes "pysort (JDict [(us ''role'', JStr (role_value (ai_role i))), (us ''sha256'', JStr (ai_sha256 i)), (us ''size'', JInt (ai_size i))]) =
    pysort (JDict [(us ''role'', JStr (role_value (ai_role j))), (us ''sha256'', JStr (ai_sha256 j)), (us ''size'', JInt (ai_size j))])"
  shows "i = j"
proof -
  note m = pysort_members [OF assms]
  show ?thesis using m [of "us ''role''"] m [of "us ''sha256''"] m [of "us ''size''"] by (cases i, cases j) simp
qed

lemma launch_dump_inj:
  fixes p q :: launch_parameters
  assumes "pysort (JDict [(us ''vmm_type'', JStr (lp_vmm_type p)), (us ''vcpus'', JInt (lp_vcpus p)),
      (us ''vcpu_type'', JStr (lp_vcpu_type p)), (us ''guest_features'', JStr (lp_guest_features p))]) =
    pysort (JDict [(us ''vmm_type'', JStr (lp_vmm_type q)), (us ''vcpus'', JInt (lp_vcpus q)),
      (us ''vcpu_type'', JStr (lp_vcpu_type q)), (us ''guest_features'', JStr (lp_guest_features q))])"
  shows "p = q"
proof -
  note m = pysort_members [OF assms]
  show ?thesis using m [of "us ''vmm_type''"] m [of "us ''vcpus''"] m [of "us ''vcpu_type''"] m [of "us ''guest_features''"]
    by (cases p, cases q) simp
qed

lemma dump_approval_inj:
  assumes "pysort (dump_approval a) = pysort (dump_approval b)"
  shows "a = b"
proof -
  note m = pysort_members [OF assms [unfolded dump_approval_def]]
  have l: "da_launch a = da_launch b" by (rule launch_dump_inj) (use m [of "us ''launch''"] in \<open>simp del: pysort_simps(7)\<close>)
  let ?f = "\<lambda>i. pysort (JDict [(us ''role'', JStr (role_value (ai_role i))), (us ''sha256'', JStr (ai_sha256 i)), (us ''size'', JInt (ai_size i))])"
  have "map ?f (da_artifacts a) = map ?f (da_artifacts b)" using m [of "us ''artifacts''"] by (simp add: comp_def del: pysort_simps(7))
  then have "da_artifacts a = da_artifacts b" by (rule list.inj_map_strong [rotated]) (rule artifact_dump_inj)
  with l show ?thesis
    using m [of "us ''profile''"] m [of "us ''expected_measurement_hex''"] m [of "us ''effective_configuration_sha256''"] m [of "us ''provisioning_policy_sha256''"]
    by (cases a, cases b) simp
qed

lemma canonical_bytes_inj:
  assumes "canonical_bytes cr a = Inr x" and "canonical_bytes cr b = Inr x" and "approval_ok a" and "approval_ok b"
  shows "a = b"
  by (rule dump_approval_inj, rule dumps_bytes_inj [OF assms(1,2) [unfolded canonical_bytes_def]]) (simp_all add: approval_scalar assms(3,4))

text \<open>The strings hashed for the identities of two records.\<close>

definition records_hashed :: "('x) crypto_scheme \<Rightarrow> deployment_approval list \<Rightarrow> bytes set" where
  "records_hashed cr as = {deploy_DOMAIN @ x | x a. a \<in> set as \<and> canonical_bytes cr a = Inr x}"

lemma check_pin_iff:
  assumes "approval_identity cr a = Inr pin" and "approval_ok a" and "approval_ok b" and "inj_on (sha256 cr) (records_hashed cr [a, b])"
  shows "check_pin cr b pin = Inr b \<longleftrightarrow> b = a"
proof
  assume "check_pin cr b pin = Inr b"
  then obtain x y where x: "canonical_bytes cr a = Inr x" "canonical_bytes cr b = Inr y"
    "prefixed_sha256 cr (deploy_DOMAIN @ y) = prefixed_sha256 cr (deploy_DOMAIN @ x)"
    using assms(1) by (auto simp: check_pin_def approval_identity_def rbind_Inr_iff split: if_split_asm)
  have "sha256 cr (deploy_DOMAIN @ y) = sha256 cr (deploy_DOMAIN @ x)" using x(3) by (simp add: prefixed_sha256_def hex_of_bytes_inj)
  then have "deploy_DOMAIN @ y = deploy_DOMAIN @ x"
    by - (rule inj_onD [OF assms(4)], use x(1,2) in \<open>auto simp: records_hashed_def\<close>)
  then have "y = x" by simp
  with canonical_bytes_inj [OF x(2) _ assms(3,2)] x(1) show "b = a" by simp
qed (use assms(1) in \<open>simp add: check_pin_def\<close>)

subsection \<open>The digest of a policy fixes it\<close>

text \<open>A policy that passed its checks and names its weights with Unicode text.\<close>

definition policy_ok :: "broker_policy \<Rightarrow> bool" where
  "policy_ok p \<longleftrightarrow> new_policy p = Inr p \<and> scalar_text (bp_weights_hash p)"

lemma lowhex_hex: "list_all lowhex (hex_of_bytes bs)"
proof -
  have "lowhex (hex_digit d)" if "d < 16" for d using that by (auto simp: hex_digit_def lowhex_def)
  then show ?thesis by (induction bs) (simp_all add: hex_of_bytes_def hex_byte_def)
qed

lemma canonical_hex_scalar: "canonical_hex n t \<Longrightarrow> scalar_text t"
proof (rule scalar_ascii)
  assume "canonical_hex n t"
  then obtain b where b: "t = hex_of_bytes b" by (auto simp: canonical_hex_def split: option.split_asm)
  show "list_all (\<lambda>c. c < 128) t" unfolding b using lowhex_hex [of b] by (auto simp: list_all_iff lowhex_def)
qed

lemma policy_scalar:
  assumes "policy_ok p"
  shows "exact (bp_asdict p)" "texts scalar_text (bp_asdict p)" "finite (bp_required_platform_fields p)" "finite (bp_forbidden_platform_fields p)"
proof -
  have f: "canonical_hex 48 (bp_measurement_hex p)" "canonical_hex 32 (bp_configuration_sha256 p)" "canonical_hex 8 (bp_minimum_tcb_le_hex p)"
    "scalar_text (bp_weights_hash p)" "bp_required_platform_fields p \<subseteq> set SNP_FIELDS" "bp_forbidden_platform_fields p \<subseteq> set SNP_FIELDS"
    using assms by (simp_all add: policy_ok_def new_policy_iff)
  show fin: "finite (bp_required_platform_fields p)" "finite (bp_forbidden_platform_fields p)" using f(5,6) finite_subset by auto
  have "\<forall>t \<in> set SNP_FIELDS. scalar_text t" by (simp add: SNP_FIELDS_def)
  then have "\<forall>t \<in> bp_required_platform_fields p. scalar_text t" "\<forall>t \<in> bp_forbidden_platform_fields p. scalar_text t" using f(5,6) by blast+
  then show "texts scalar_text (bp_asdict p)" "exact (bp_asdict p)"
    using f(1-3) [THEN canonical_hex_scalar] f(4) fin by (simp_all add: bp_asdict_def scalar_points)
qed

lemma asdict_inj:
  assumes "pysort (bp_asdict p) = pysort (bp_asdict q)" and "policy_ok p" and "policy_ok q"
  shows "p = q"
proof -
  note m = pysort_members [OF assms(1) [unfolded bp_asdict_def]]
  have l: "S = T" if "map_option pysort (Some (JList (map JStr (sorted_list_of_set S)))) = map_option pysort (Some (JList (map JStr (sorted_list_of_set T))))"
      "finite S" "finite T" for S T :: "pystr set"
  proof -
    have "map JStr (sorted_list_of_set S) = map JStr (sorted_list_of_set T)" using that(1) by (simp add: comp_def)
    then have "sorted_list_of_set S = sorted_list_of_set T" by (rule list.inj_map_strong [rotated]) simp
    then show ?thesis using that(2,3) by (metis set_sorted_list_of_set)
  qed
  have "bp_required_platform_fields p = bp_required_platform_fields q"
    by (rule l) (use m [of "us ''required_platform_fields''"] in \<open>simp_all add: policy_scalar assms(2,3)\<close>)
  moreover have "bp_forbidden_platform_fields p = bp_forbidden_platform_fields q"
    by (rule l) (use m [of "us ''forbidden_platform_fields''"] in \<open>simp_all add: policy_scalar assms(2,3)\<close>)
  ultimately show ?thesis
    using m [of "us ''measurement_hex''"] m [of "us ''configuration_sha256''"] m [of "us ''weights_hash''"] m [of "us ''epoch''"]
      m [of "us ''guest_policy''"] m [of "us ''minimum_tcb_le_hex''"]
    by (cases p, cases q) simp
qed

lemma bp_context_inj:
  assumes "bp_context cr p = Inr c" and "bp_context cr q = Inr c" and "policy_ok p" and "policy_ok q"
  shows "p = q"
proof -
  obtain x where "dumps_bytes (frepr cr) (bp_asdict p) = Inr x" "dumps_bytes (frepr cr) (bp_asdict q) = Inr x"
    using assms(1,2) by (auto simp: bp_context_def rbind_Inr_iff)
  from dumps_bytes_inj [OF this] show ?thesis using asdict_inj [OF _ assms(3,4)] by (simp add: policy_scalar assms(3,4))
qed

definition policies_hashed :: "('x) crypto_scheme \<Rightarrow> broker_policy list \<Rightarrow> bytes set" where
  "policies_hashed cr ps = {c. \<exists>p \<in> set ps. bp_context cr p = Inr c}"

lemma require_policy_iff:
  assumes "require_policy cr a p = Inr ()" and "policy_ok p" and "policy_ok q" and "inj_on (sha256 cr) (policies_hashed cr [p, q])"
  shows "require_policy cr a q = Inr () \<longleftrightarrow> q = p"
proof
  assume q: "require_policy cr a q = Inr ()"
  obtain c where c: "bp_context cr p = Inr c" "hex_of_bytes (sha256 cr c) = da_provisioning_policy_sha256 a"
    using assms(1) by (auto simp: require_policy_def Let_def rbind_Inr_iff split: if_split_asm)
  obtain d where d: "bp_context cr q = Inr d" "hex_of_bytes (sha256 cr d) = da_provisioning_policy_sha256 a"
    using q by (auto simp: require_policy_def Let_def rbind_Inr_iff split: if_split_asm)
  have "sha256 cr d = sha256 cr c" using c(2) d(2) hex_of_bytes_inj by metis
  then have "d = c" by - (rule inj_onD [OF assms(4)], use c(1) d(1) in \<open>auto simp: policies_hashed_def\<close>)
  with bp_context_inj [OF d(1) _ assms(3,2)] c(1) show "q = p" by simp
qed (use assms(1) in simp)

subsection \<open>What an approval pins\<close>

lemma artifact_of_valid: "artifact_of cr r f = Inr i \<Longrightarrow> new_artifact (ai_role i) (ai_sha256 i) (ai_size i) = Inr i"
  unfolding artifact_of_fields by (auto simp: new_artifact_def)

lemma derive_approval_fields:
  assumes "derive_approval cr artifacts launch m policy = Inr a"
  shows "da_launch a = launch" "new_approval a = Inr a" "list_all (\<lambda>i. new_artifact (ai_role i) (ai_sha256 i) (ai_size i) = Inr i) (da_artifacts a)"
proof -
  obtain ids ctx where "new_approval \<lparr>da_profile = us ''wcm/snp-direct-boot-initrd/v1'', da_artifacts = ids, da_launch = launch,
      da_expected_measurement_hex = m, da_effective_configuration_sha256 = bp_configuration_sha256 policy,
      da_provisioning_policy_sha256 = hex_of_bytes (sha256 cr ctx)\<rparr> = Inr a"
    using assms unfolding derive_approval_def by (auto simp: rbind_Inr_iff split: if_split_asm)
  moreover have "b = a" if "new_approval b = Inr a" for b using that by (simp add: new_approval_def split: if_split_asm)
  ultimately show "da_launch a = launch" "new_approval a = Inr a" by fastforce+
  have "\<forall>i \<in> set (da_artifacts a). artifact_of cr (ai_role i) (role_file artifacts (ai_role i)) = Inr i"
    using derive_approval_accepts(2) [OF assms] by (simp add: require_artifacts_def match_artifacts_iff split: if_split_asm)
  then show "list_all (\<lambda>i. new_artifact (ai_role i) (ai_sha256 i) (ai_size i) = Inr i) (da_artifacts a)"
    unfolding list_all_iff by (blast intro: artifact_of_valid)
qed

lemma require_artifacts_iff:
  assumes "derive_approval cr artifacts launch m policy = Inr a" and "inj_on (sha256 cr) (files_hashed artifacts \<union> files_hashed others)"
  shows "require_artifacts cr a others = Inr () \<longleftrightarrow>
       fst ` set others = role_value ` set ROLES \<and> (\<forall>r \<in> set ROLES. role_file others r = role_file artifacts r)"
proof -
  note d = derive_approval_accepts [OF assms(1)]
  have ok: "\<forall>i \<in> set (da_artifacts a). artifact_of cr (ai_role i) (role_file artifacts (ai_role i)) = Inr i"
    using d(2) by (simp add: require_artifacts_def match_artifacts_iff split: if_split_asm)
  have roles: "set ROLES = ai_role ` set (da_artifacts a)" using arg_cong [OF d(3), of set] by simp
  have "match_artifacts cr others (da_artifacts a) = Inr () \<longleftrightarrow> (\<forall>r \<in> set ROLES. role_file others r = role_file artifacts r)"
    unfolding match_artifacts_iff roles ball_simps(9) using same_artifact_iff [OF _ assms(2)] ok by blast
  then show ?thesis
    unfolding require_artifacts_def by (cases "fst ` set others = role_value ` set ROLES") simp_all
qed

text \<open>
  C7 (deployment approval). Let an owner derive an approval from local files, launch parameters and a
  policy and pin its identity. A record loaded against the pin is accepted exactly when it is that
  approval, field by field, the launch parameters included; the approval's launch parameters are the
  given ones; a policy passes \<open>require_policy\<close> exactly when it is the given policy; and a set of files
  passes \<open>require_artifacts\<close> exactly when it has every role and no other and each file has the content of
  the given one. The records and policies have passed their own validation, the weights hashes are
  Unicode text, and SHA-256 does not collide on the strings hashed for the files, records and
  policies compared.
\<close>

theorem approval_pins_deployment:
  assumes "derive_approval cr artifacts launch m policy = Inr a" and "approval_identity cr a = Inr pin"
    and "new_launch launch = Inr launch" and "policy_ok policy" and "approval_ok loaded" and "policy_ok policy'"
    and "inj_on (sha256 cr) (files_hashed artifacts \<union> files_hashed others \<union> records_hashed cr [a, loaded] \<union> policies_hashed cr [policy, policy'])"
  shows "(check_pin cr loaded pin = Inr loaded \<longleftrightarrow> loaded = a) \<and> da_launch a = launch \<and>
    (require_policy cr a policy' = Inr () \<longleftrightarrow> policy' = policy) \<and>
    (require_artifacts cr a others = Inr () \<longleftrightarrow>
       fst ` set others = role_value ` set ROLES \<and> (\<forall>r \<in> set ROLES. role_file others r = role_file artifacts r))"
proof (intro conjI)
  note f = derive_approval_fields [OF assms(1)]
  have a: "approval_ok a" using f assms(3) by (simp add: approval_ok_def)
  note inj = inj_on_subset [OF assms(7)]
  show "check_pin cr loaded pin = Inr loaded \<longleftrightarrow> loaded = a" by (rule check_pin_iff [OF assms(2) a assms(5)]) (rule inj, blast)
  show "da_launch a = launch" by (rule f(1))
  show "require_policy cr a policy' = Inr () \<longleftrightarrow> policy' = policy"
    by (rule require_policy_iff [OF derive_approval_accepts(1) [OF assms(1)] assms(4,6)]) (rule inj, blast)
  show "require_artifacts cr a others = Inr () \<longleftrightarrow>
       fst ` set others = role_value ` set ROLES \<and> (\<forall>r \<in> set ROLES. role_file others r = role_file artifacts r)"
    by (rule require_artifacts_iff [OF assms(1)]) (rule inj, blast)
qed

subsection \<open>A deployment\<close>

definition demo_policy :: broker_policy where
  "demo_policy = \<lparr>bp_measurement_hex = replicate 96 48, bp_configuration_sha256 = replicate 64 48, bp_weights_hash = us ''sha256:'' @ replicate 64 48,
     bp_epoch = 3, bp_guest_policy = 0, bp_minimum_tcb_le_hex = replicate 16 48,
     bp_required_platform_fields = {}, bp_forbidden_platform_fields = {us ''smt_en''}\<rparr>"

definition demo_launch :: launch_parameters where
  "demo_launch = \<lparr>lp_vmm_type = us ''QEMU'', lp_vcpus = 4, lp_vcpu_type = us ''EPYC-v4'', lp_guest_features = us ''0x1''\<rparr>"

definition demo_files :: "bytes \<Rightarrow> (pystr \<times> file_read) list" where
  "demo_files content = map (\<lambda>r. (role_value r, Inr (if r = kernel then content else [1]))) ROLES"

lemma set_ROLES: "set ROLES = UNIV"
proof -
  have "r \<in> set ROLES" for r by (cases r) (simp_all add: ROLES_def)
  then show ?thesis by blast
qed

lemma demo_role_file: "role_file (demo_files c) r = Inr (if r = kernel then c else [1])"
proof -
  have "map_of (map (\<lambda>r. (role_value r, f r)) rs) (role_value r) = (if r \<in> set rs then Some (f r) else None)" for f :: "role \<Rightarrow> file_read" and rs
    by (induction rs) auto
  then show ?thesis by (simp add: role_file_def demo_files_def set_ROLES)
qed

lemma demo_hex: "hex_pattern 64 (hex_of_bytes (sha256 demo_crypto c))"
  by (simp add: hex_pattern_def lowhex_hex length_hex_of_bytes demo_crypto_def)

lemma demo_policy_context: "\<exists>ctx. bp_context demo_crypto demo_policy = Inr ctx"
  by (rule bp_context_total) (simp_all add: demo_policy_def nat_str.simps)

lemma demo_approval: "\<exists>a. derive_approval demo_crypto (demo_files [2]) demo_launch (replicate 96 48) demo_policy = Inr a"
proof -
  let ?id = "\<lambda>r. \<lparr>ai_role = r, ai_sha256 = hex_of_bytes (sha256 demo_crypto (if r = kernel then [2] else [1])), ai_size = 1\<rparr>"
  obtain ctx where ctx: "bp_context demo_crypto demo_policy = Inr ctx" using demo_policy_context by blast
  have "artifact_of demo_crypto r (role_file (demo_files [2]) r) = Inr (?id r)" for r
    unfolding artifact_of_fields demo_role_file using demo_hex by auto
  then have "rmap (\<lambda>r. artifact_of demo_crypto r (role_file (demo_files [2]) r)) ROLES = Inr (map ?id ROLES)"
    by (simp add: rmap_Inr_iff list_all2_map2 list.rel_refl)
  moreover have "fst ` set (demo_files [2]) = role_value ` set ROLES" by (simp add: demo_files_def image_image)
  moreover have "hex_pattern 96 (replicate 96 48)" "hex_pattern 64 (replicate 64 48)" by (simp_all add: hex_pattern_def lowhex_def list_all_iff)
  ultimately show ?thesis
    using ctx demo_hex [of ctx]
    by (simp add: derive_approval_def new_approval_def require_policy_def Let_def comp_def demo_policy_def [THEN arg_cong, of bp_measurement_hex]
        demo_policy_def [THEN arg_cong, of bp_configuration_sha256])
qed

lemma demo_launch_ok: "new_launch demo_launch = Inr demo_launch"
  by (simp add: new_launch_def demo_launch_def vcpu_type_pattern_def guest_features_pattern_def us_def lowhex_def)

lemma demo_policy_valid: "policy_ok demo_policy"
proof -
  have h: "canonical_hex n (replicate (n * 2) 48)" for n
  proof -
    have "hex_of_bytes (replicate n 0) = replicate (n * 2) 48" by (induction n) (simp_all add: hex_of_bytes_def hex_byte_def hex_digit_def)
    then have "replicate (n * 2) 48 = hex_of_bytes (replicate n 0)" by simp
    then show ?thesis using bytes_fromhex_hex [of "replicate n 0"] by (simp add: canonical_hex_def length_hex_of_bytes)
  qed
  have "scalar_text (us ''sha256:'' @ replicate 64 48)" by (rule scalar_ascii) (simp add: us_def list_all_iff)
  with h [of 48] h [of 32] h [of 8] show ?thesis by (simp add: policy_ok_def new_policy_iff demo_policy_def SNP_FIELDS_def)
qed

lemma demo_identity:
  assumes "derive_approval demo_crypto (demo_files [2]) demo_launch (replicate 96 48) demo_policy = Inr a"
  shows "\<exists>pin. approval_identity demo_crypto a = Inr pin"
proof -
  have "\<forall>i \<in> set (da_artifacts a). ai_size i = 1"
    using derive_approval_accepts(2) [OF assms]
    by (auto simp: require_artifacts_def match_artifacts_iff artifact_of_fields demo_role_file split: if_split_asm)
       (metis (no_types, lifting) artifact_identity.select_convs(3) list.size One_nat_def add_0 of_nat_1 plus_1_eq_Suc)
  then have "dumpable (dump_approval a)" using derive_approval_fields(1) [OF assms] by (simp add: dump_approval_def demo_launch_def nat_str.simps)
  from dumps_total [OF this, of "frepr demo_crypto"] show ?thesis by (auto simp: approval_identity_def canonical_bytes_def dumps_bytes_def)
qed

lemma demo_hashes_distinct:
  "inj_on (sha256 demo_crypto) (files_hashed (demo_files [2]) \<union> files_hashed (demo_files [3]) \<union> records_hashed demo_crypto [a, a] \<union>
     policies_hashed demo_crypto [demo_policy, demo_policy])"
proof -
  have f: "files_hashed (demo_files [2]) \<union> files_hashed (demo_files [3]) = {[1], [2], [3]}" by (auto simp: files_hashed_def demo_role_file)
  have s: "sha256 demo_crypto x ! 0 = x ! 0" "4 < length x \<Longrightarrow> sha256 demo_crypto x ! 4 = x ! 4" if "x \<noteq> []" for x
    using that by (simp_all add: demo_crypto_def nth_append)
  have r: "x ! 0 = 119 \<and> x ! 4 = 100 \<and> 4 < length x" if "x \<in> records_hashed demo_crypto [a, a]" for x
    using that by (auto simp: records_hashed_def deploy_DOMAIN_def ascii_def nth_append)
  have p: "x ! 0 = 119 \<and> x ! 4 = 98 \<and> 4 < length x" if "x \<in> policies_hashed demo_crypto [demo_policy, demo_policy]" for x
    using that by (auto simp: policies_hashed_def bp_context_def rbind_Inr_iff prov_DOMAIN_def ascii_def nth_append)
  have one: "x = y" if "x \<in> records_hashed demo_crypto [a, a] \<and> y \<in> records_hashed demo_crypto [a, a] \<or>
      x \<in> policies_hashed demo_crypto [demo_policy, demo_policy] \<and> y \<in> policies_hashed demo_crypto [demo_policy, demo_policy]" for x y
    using that by (auto simp: records_hashed_def policies_hashed_def)
  show ?thesis
    unfolding f
  proof (rule inj_onI)
    fix x y
    assume x: "x \<in> {[1], [2], [3]} \<union> records_hashed demo_crypto [a, a] \<union> policies_hashed demo_crypto [demo_policy, demo_policy]"
      and y: "y \<in> {[1], [2], [3]} \<union> records_hashed demo_crypto [a, a] \<union> policies_hashed demo_crypto [demo_policy, demo_policy]"
      and e: "sha256 demo_crypto x = sha256 demo_crypto y"
    have n: "x \<noteq> []" "y \<noteq> []" using x y r p by fastforce+
    have "x ! 0 = y ! 0" using s(1) n e by metis
    moreover have "x ! 4 = y ! 4" if "4 < length x" "4 < length y" using s(2) n e that by metis
    ultimately show "x = y" using x y r [of x] r [of y] p [of x] p [of y] one [of x y] by auto
  qed
qed

theorem approval_pins_deployment_witness:
  "\<exists>a pin. approval_identity demo_crypto a = Inr pin \<and> check_pin demo_crypto a pin = Inr a \<and> da_launch a = demo_launch \<and>
     require_policy demo_crypto a demo_policy = Inr () \<and> require_artifacts demo_crypto a (demo_files [3]) \<noteq> Inr ()"
proof -
  obtain a where a: "derive_approval demo_crypto (demo_files [2]) demo_launch (replicate 96 48) demo_policy = Inr a"
    using demo_approval by blast
  obtain pin where pin: "approval_identity demo_crypto a = Inr pin" using demo_identity [OF a] by blast
  have ok: "approval_ok a" using derive_approval_fields [OF a] demo_launch_ok by (simp add: approval_ok_def)
  note t = approval_pins_deployment [OF a pin demo_launch_ok demo_policy_valid ok demo_policy_valid demo_hashes_distinct]
  have "role_file (demo_files [3]) kernel \<noteq> role_file (demo_files [2]) kernel" by (simp add: demo_role_file)
  with t have "check_pin demo_crypto a pin = Inr a \<and> da_launch a = demo_launch \<and> require_policy demo_crypto a demo_policy = Inr () \<and>
      require_artifacts demo_crypto a (demo_files [3]) \<noteq> Inr ()" by (auto simp: set_ROLES)
  with pin show ?thesis by blast
qed

end
