(* ===== verification/Provisioning.thy ===== *)
theory Provisioning
  imports Challenge Deployment
begin

section \<open>Owner-side provisioning (\<open>provisioning.py\<close>, \<open>provisioning_state.py\<close>)\<close>

text \<open>
  The owner's provisioner with its challenges, its policy updates and the durable epoch floor that
  several owner processes share. The database is a map from namespaces to the admitted epoch and
  policy digest; a guard is one transaction on it, undone when the guarded operation raises. Clock
  readings, fresh tokens and the random values of sealing are arguments. The main results: a key
  is provisioned only to an attested broker that meets the owner's policy, the broker opens the
  envelope to exactly that key, no interleaving of owner processes goes back to an older policy,
  and an update voids every outstanding challenge.
\<close>

subsection \<open>The epoch floor\<close>

type_synonym floor_db = "pystr \<Rightarrow> (int \<times> pystr) option"

definition new_epoch_store :: "pystr \<Rightarrow> pystr \<Rightarrow> pystr result" where
  "new_epoch_store path namespace =
     (if namespace = [] \<or> path = us '':memory:'' then Inl (ValueError (us ''persistent path and nonempty namespace required''))
      else Inr namespace)"

text \<open>
  Entering the guard: the new content of the database, or why the operation is refused. The epoch
  is stored as its decimal text, which must be printable.
\<close>

definition guard_enter :: "bool \<Rightarrow> pystr \<Rightarrow> int \<Rightarrow> pystr \<Rightarrow> floor_db \<Rightarrow> floor_db result" where
  "guard_enter admit namespace epoch digest db =
     (case db namespace of
        None \<Rightarrow>
          if \<not> admit then Inl (ValueError (us ''owner policy floor missing''))
          else rbind (py_int_str epoch) (\<lambda>_. Inr (db(namespace \<mapsto> (epoch, digest))))
      | Some (low, d) \<Rightarrow>
          if epoch < low \<or> (epoch = low \<and> digest \<noteq> d)
          then Inl (ValueError (us ''owner policy rollback or same-epoch substitution''))
          else if epoch > low
          then if \<not> admit then Inl (ValueError (us ''owner policy epoch not admitted''))
               else rbind (py_int_str epoch) (\<lambda>_. Inr (db(namespace \<mapsto> (epoch, digest))))
          else Inr db)"

definition policy_digest :: "('x) crypto_scheme \<Rightarrow> broker_policy \<Rightarrow> pystr result" where
  "policy_digest cr policy = rbind (bp_context cr policy) (\<lambda>ctx. Inr (hex_of_bytes (sha256 cr ctx)))"

definition epoch_guard :: "('x) crypto_scheme \<Rightarrow> pystr option \<Rightarrow> broker_policy \<Rightarrow> bool \<Rightarrow> floor_db \<Rightarrow> floor_db result" where
  "epoch_guard cr store policy admit db =
     (case store of None \<Rightarrow> Inr db
      | Some namespace \<Rightarrow> rbind (policy_digest cr policy) (\<lambda>digest. guard_enter admit namespace (bp_epoch policy) digest db))"

text \<open>\<open>with self._epoch_guard(...): body\<close>: the transaction is committed when the body returns.\<close>

definition guarded ::
  "('x) crypto_scheme \<Rightarrow> pystr option \<Rightarrow> broker_policy \<Rightarrow> bool \<Rightarrow> ('s \<Rightarrow> 'a result \<times> 's) \<Rightarrow> 's \<Rightarrow> floor_db \<Rightarrow> 'a result \<times> 's \<times> floor_db" where
  "guarded cr store policy admit body s db =
     (case epoch_guard cr store policy admit db of
        Inl e \<Rightarrow> (Inl e, s, db)
      | Inr db' \<Rightarrow> (case body s of (Inl e, s') \<Rightarrow> (Inl e, s', db) | (Inr x, s') \<Rightarrow> (Inr x, s', db')))"

subsection \<open>The provisioner\<close>

record 'c owner =
  ow_policy :: broker_policy
  ow_signing_key :: bytes
  ow_root :: 'c
  ow_ttl :: int
  ow_challenges :: challenge_store
  ow_epoch_store :: "pystr option"
  ow_approval :: "deployment_approval option"

definition require_approval :: "('x) crypto_scheme \<Rightarrow> deployment_approval option \<Rightarrow> broker_policy \<Rightarrow> unit result" where
  "require_approval cr approval policy = (case approval of None \<Rightarrow> Inr () | Some a \<Rightarrow> require_policy cr a policy)"

definition new_owner ::
  "('x) crypto_scheme \<Rightarrow> broker_policy \<Rightarrow> bytes \<Rightarrow> 'c \<Rightarrow> int \<Rightarrow> pystr option \<Rightarrow> deployment_approval option \<Rightarrow> floor_db
     \<Rightarrow> 'c owner result \<times> floor_db" where
  "new_owner cr policy signing_key trusted_root challenge_ttl_seconds epoch_store approval db =
     (if challenge_ttl_seconds \<le> 0 then (Inl (ValueError (us ''challenge TTL must be a positive integer'')), db)
      else case require_approval cr approval policy of
        Inl e \<Rightarrow> (Inl e, db)
      | Inr _ \<Rightarrow>
          (case guarded cr epoch_store policy True (\<lambda>s. (Inr (), s)) () db of
             (Inl e, _, db') \<Rightarrow> (Inl e, db')
           | (Inr _, _, db') \<Rightarrow>
               (Inr \<lparr>ow_policy = policy, ow_signing_key = signing_key, ow_root = trusted_root, ow_ttl = challenge_ttl_seconds,
                     ow_challenges = new_store challenge_ttl_seconds, ow_epoch_store = epoch_store, ow_approval = approval\<rparr>, db')))"

definition owner_issue_challenge ::
  "('x) crypto_scheme \<Rightarrow> time \<Rightarrow> pystr \<Rightarrow> 'c owner \<Rightarrow> floor_db \<Rightarrow> challenge result \<times> 'c owner \<times> floor_db" where
  "owner_issue_challenge cr now token ow db =
     guarded cr (ow_epoch_store ow) (ow_policy ow) False
       (\<lambda>ow. case cs_issue now token (ow_challenges ow) of (c, cs) \<Rightarrow> (Inr c, ow\<lparr>ow_challenges := cs\<rparr>)) ow db"

definition update_policy ::
  "('x) crypto_scheme \<Rightarrow> broker_policy \<Rightarrow> 'c owner \<Rightarrow> floor_db \<Rightarrow> unit result \<times> 'c owner \<times> floor_db" where
  "update_policy cr policy ow db =
     (if bp_epoch policy \<le> bp_epoch (ow_policy ow) then (Inl (ValueError (us ''policy update must advance epoch'')), ow, db)
      else case require_approval cr (ow_approval ow) policy of
        Inl e \<Rightarrow> (Inl e, ow, db)
      | Inr _ \<Rightarrow>
          guarded cr (ow_epoch_store ow) policy True
            (\<lambda>ow. (Inr (), ow\<lparr>ow_policy := policy, ow_challenges := new_store (ow_ttl ow)\<rparr>)) ow db)"

text \<open>\<open>getattr(parsed.platform_info, field)\<close> for the known fields.\<close>

definition platform_field :: "platform_info \<Rightarrow> pystr \<Rightarrow> bool option" where
  "platform_field info f =
     (if f = us ''smt_en'' then Some (pf_smt_en info) else if f = us ''tsme_en'' then Some (pf_tsme_en info)
      else if f = us ''ecc_en'' then Some (pf_ecc_en info) else if f = us ''rapl_dis'' then Some (pf_rapl_dis info)
      else if f = us ''ciphertext_hiding_en'' then Some (pf_ciphertext_hiding_en info)
      else if f = us ''alias_check_complete'' then pf_alias_check_complete info
      else if f = us ''sev_tio_en'' then pf_sev_tio_en info else None)"

text \<open>
  The appraisal of the parsed report. A set of fields is walked in the order of their names; the
  order of a Python set is unspecified and decides only which field a message names.
\<close>

definition appraise_report :: "broker_policy \<Rightarrow> snp_report \<Rightarrow> unit result" where
  "appraise_report policy parsed =
     (if sr_version parsed < 2 \<or> hex_of_bytes (sr_measurement parsed) \<noteq> bp_measurement_hex policy
      then Inl (ValueError (us ''broker image measurement rejected''))
      else if sr_policy parsed \<noteq> bp_guest_policy policy \<or> bit (sr_policy parsed) 19
      then Inl (ValueError (us ''broker guest policy rejected''))
      else if sr_vmpl parsed \<noteq> 0 then Inl (ValueError (us ''broker must run at VMPL 0''))
      else rbind (fromhex (bp_minimum_tcb_le_hex policy)) (\<lambda>floor_bytes.
        if list_ex (\<lambda>(actual, low). actual < low) (zip (int_le 8 (sr_reported_tcb parsed)) floor_bytes)
        then Inl (ValueError (us ''broker reported TCB below owner floor''))
        else case find (\<lambda>f. platform_field (sr_platform_info parsed) f \<noteq> Some True) (sorted_list_of_set (bp_required_platform_fields policy)) of
          Some f \<Rightarrow> Inl (ValueError (us ''broker platform requires '' @ f))
        | None \<Rightarrow>
            (case find (\<lambda>f. platform_field (sr_platform_info parsed) f \<noteq> Some False) (sorted_list_of_set (bp_forbidden_platform_fields policy)) of
               Some f \<Rightarrow> Inl (ValueError (us ''broker platform forbids '' @ f))
             | None \<Rightarrow> Inr ())))"

record prov_io =
  pv_consume :: time \<comment> \<open>the clock as the nonce is consumed\<close>
  pv_now :: time \<comment> \<open>the clock as the quote is verified\<close>
  pv_ephemeral :: bytes
  pv_seal_nonce :: bytes

record 'c broker_request =
  br_nonce :: pystr
  br_report :: bytes
  br_vcek :: 'c
  br_intermediates :: "'c list"
  br_transport_public_key :: pystr

text \<open>The part of \<open>provision\<close> after the challenge is consumed.\<close>

definition provision_body ::
  "('x) env_scheme \<Rightarrow> ('c, 'y) pki_scheme \<Rightarrow> prov_io \<Rightarrow> 'c broker_request \<Rightarrow> bytes \<Rightarrow> 'c owner \<Rightarrow> provisioning_envelope result" where
  "provision_body env pki io rq model_key ow =
     (let policy = ow_policy ow in
      rbind (raise_if (length model_key \<notin> {16, 24, 32}) (ValueError (us ''model key must be a 16, 24 or 32-byte AES key''))) (\<lambda>_.
      rbind (require_approval env (ow_approval ow) policy) (\<lambda>_.
      rbind (provisioning_binding env policy (br_transport_public_key rq)) (\<lambda>binding.
      rbind (quote_verify env pki \<lparr>ve_parse = snp_quote_parse pki (br_vcek rq) (br_intermediates rq), ve_roots = [ow_root ow],
               ve_require_launch_measurement = False\<rparr> (b64encode (br_report rq)) (br_nonce rq) binding None (pv_now io)) (\<lambda>result.
      if \<not> qv_verified result
      then Inl (ValueError (us ''broker attestation rejected: '' @ (case qv_reason result of None \<Rightarrow> us ''None'' | Some r \<Rightarrow> r)))
      else
        rbind (parse_snp_report (br_report rq)) (\<lambda>parsed.
        rbind (appraise_report policy parsed) (\<lambda>_.
        rbind (prov_aad env policy (br_nonce rq) (br_transport_public_key rq)) (\<lambda>aad.
        rbind (seal_to_public_key env (pv_ephemeral io) (pv_seal_nonce io) (br_transport_public_key rq) model_key aad) (\<lambda>ciphertext.
        Inr \<lparr>pe_nonce = br_nonce rq, pe_ciphertext = ciphertext,
             pe_owner_signature = ed_sign env (ow_signing_key ow) (aad @ ciphertext)\<rparr>)))))))))"

definition provision ::
  "('x) env_scheme \<Rightarrow> ('c, 'y) pki_scheme \<Rightarrow> prov_io \<Rightarrow> 'c broker_request \<Rightarrow> bytes \<Rightarrow> 'c owner \<Rightarrow> floor_db
     \<Rightarrow> provisioning_envelope result \<times> 'c owner \<times> floor_db" where
  "provision env pki io rq model_key ow db =
     guarded env (ow_epoch_store ow) (ow_policy ow) False
       (\<lambda>ow. case cs_consume (br_nonce rq) (pv_consume io) (ow_challenges ow) of
          (Inl e, cs) \<Rightarrow> (Inl e, ow\<lparr>ow_challenges := cs\<rparr>)
        | (Inr _, cs) \<Rightarrow> (provision_body env pki io rq model_key ow, ow\<lparr>ow_challenges := cs\<rparr>)) ow db"

subsection \<open>What a provisioned key implies\<close>

lemma guarded_cases:
  assumes "guarded cr store policy admit body s db = (r, s', db')"
  obtains (refused) e where "epoch_guard cr store policy admit db = Inl e" "r = Inl e" "s' = s" "db' = db"
  | (raised) e d where "epoch_guard cr store policy admit db = Inr d" "body s = (Inl e, s')" "r = Inl e" "db' = db"
  | (ran) x where "epoch_guard cr store policy admit db = Inr db'" "body s = (Inr x, s')" "r = Inr x"
  using assms by (auto simp: guarded_def split: sum.splits prod.splits)

text \<open>The SNP adapter hands on exactly the bytes that were encoded for it.\<close>

lemma verified_report_bytes:
  assumes "quote_verify cr pki \<lparr>ve_parse = snp_quote_parse pki vcek inters, ve_roots = roots,
      ve_require_launch_measurement = req\<rparr> (b64encode report) nonce binding expected now = Inr v" and "qv_verified v"
  shows "\<exists>r n. parse_snp_report report = Inr r \<and> trusted_path pki roots now 0 (vcek # inters) \<and>
    report_verify pki vcek ECDSA_SHA384 (snp_signature_der pki report) (take SIG_OFFSET report) = None \<and>
    bytes_fromhex nonce = Some n \<and> take 32 (sr_report_data r) = sha256 cr (n @ binding)"
proof (rule quote_verify_accepts [OF assms], goal_cases)
  case (1 q n s)
  have q: "q = \<lparr>pq_report_body = take SIG_OFFSET report, pq_signature = snp_signature_der pki report, pq_leaf = vcek,
      pq_intermediates = inters, pq_report_data_offset = 0x50, pq_report_signature_algorithm = us ''ecdsa-p384-sha384'',
      pq_launch_measurement = Some (slice 0x90 (0x90 + 48) report), pq_snp_report = Some (take REPORT_LEN report)\<rparr>"
    "\<not> length report < REPORT_LEN"
    using 1(1) by (auto simp: snp_quote_parse_def b64decode_b64encode split: if_splits)
  have "report_verify pki vcek ECDSA_SHA384 (snp_signature_der pki report) (take SIG_OFFSET report) = None"
    using 1(3) by (auto simp: verify_report_signature_def q(1) rbind_Inr_iff Let_def split: if_splits option.splits)
  moreover have "slice 0x50 (0x50 + 32) report = sha256 cr (n @ binding)"
    using 1(5) by (simp add: q(1) slice_take SIG_OFFSET_def)
  ultimately show ?case
    using 1(2,4) q verify_cert_chain_sound [of pki vcek inters roots now]
    by (auto simp: parse_snp_report_def Let_def slice_def)
qed

lemma find_raise:
  "(case find P xs of None \<Rightarrow> k | Some f \<Rightarrow> Inl (g f)) = Inr y \<longleftrightarrow> (\<forall>x \<in> set xs. \<not> P x) \<and> k = Inr y"
  by (induction xs) auto

lemma below_floor: "list_ex (\<lambda>(a, l). a < l) xs \<longleftrightarrow> \<not> (\<forall>(a, l) \<in> set xs. l \<le> (a :: byte))"
  by (induction xs) (auto simp: not_le)

lemma appraise_report_iff:
  "appraise_report p r = Inr () \<longleftrightarrow> 2 \<le> sr_version r \<and> hex_of_bytes (sr_measurement r) = bp_measurement_hex p \<and>
     sr_policy r = bp_guest_policy p \<and> \<not> bit (sr_policy r) 19 \<and> sr_vmpl r = 0 \<and>
     (\<exists>low. bytes_fromhex (bp_minimum_tcb_le_hex p) = Some low \<and> (\<forall>(a, l) \<in> set (zip (int_le 8 (sr_reported_tcb r)) low). l \<le> a)) \<and>
     (\<forall>f \<in> set (sorted_list_of_set (bp_required_platform_fields p)). platform_field (sr_platform_info r) f = Some True) \<and>
     (\<forall>f \<in> set (sorted_list_of_set (bp_forbidden_platform_fields p)). platform_field (sr_platform_info r) f = Some False)"
proof (cases "bytes_fromhex (bp_minimum_tcb_le_hex p)")
  case (Some low)
  then show ?thesis by (simp add: appraise_report_def fromhex_def find_raise below_floor not_less)
qed (simp add: appraise_report_def fromhex_def)

lemma provision_ok:
  assumes "provision env pki io rq key ow db = (Inr e, ow', db')"
  obtains cs where "epoch_guard env (ow_epoch_store ow) (ow_policy ow) False db = Inr db'"
    "cs_consume (br_nonce rq) (pv_consume io) (ow_challenges ow) = (Inr (), cs)" "ow' = ow\<lparr>ow_challenges := cs\<rparr>"
    "provision_body env pki io rq key ow = Inr e"
  using assms [unfolded provision_def]
  by (rule guarded_cases) (auto split: prod.splits sum.splits)

lemma provision_body_ok:
  assumes "provision_body env pki io rq key ow = Inr e"
  obtains binding v r aad ct where "length key \<in> {16, 24, 32}" "require_approval env (ow_approval ow) (ow_policy ow) = Inr ()"
    "provisioning_binding env (ow_policy ow) (br_transport_public_key rq) = Inr binding"
    "quote_verify env pki \<lparr>ve_parse = snp_quote_parse pki (br_vcek rq) (br_intermediates rq), ve_roots = [ow_root ow],
       ve_require_launch_measurement = False\<rparr> (b64encode (br_report rq)) (br_nonce rq) binding None (pv_now io) = Inr v" "qv_verified v"
    "parse_snp_report (br_report rq) = Inr r" "appraise_report (ow_policy ow) r = Inr ()"
    "prov_aad env (ow_policy ow) (br_nonce rq) (br_transport_public_key rq) = Inr aad"
    "seal_to_public_key env (pv_ephemeral io) (pv_seal_nonce io) (br_transport_public_key rq) key aad = Inr ct"
    "e = \<lparr>pe_nonce = br_nonce rq, pe_ciphertext = ct, pe_owner_signature = ed_sign env (ow_signing_key ow) (aad @ ct)\<rparr>"
  using assms unfolding provision_body_def Let_def rbind_Inr_iff raise_if_iff
  by (elim exE conjE) (auto simp: rbind_Inr_iff split: if_split_asm)

lemma epoch_guard_exact:
  assumes "epoch_guard cr (Some ns) p False db = Inr db'"
  shows "db' = db \<and> (\<exists>d. policy_digest cr p = Inr d \<and> db ns = Some (bp_epoch p, d))"
  using assms by (auto simp: epoch_guard_def guard_enter_def rbind_Inr_iff split: option.splits prod.splits if_split_asm)

text \<open>
  C5 (provisioning). A key leaves the owner only if: its challenge was issued by this provisioner
  and is unused and unexpired; the report is signed by a VCEK with a path to the owner's root,
  and binds the nonce, the transport key and the digest of the exact policy; the report shows the
  approved image, the approved guest policy without debugging, VMPL 0, every component of the TCB
  at or above its floor and the platform fields the policy asks for; the policy is the approved
  one; and, where an epoch store is configured, the policy is the one the database admits now.
\<close>

theorem provisioning_requires_attested_broker:
  assumes "provision env pki io rq key ow db = (Inr e, ow', db')" and "new_policy (ow_policy ow) = Inr p"
  shows "(\<exists>c. map_of (cs_consumed (ow_challenges ow)) (br_nonce rq) = None \<and>
      map_of (cs_issued (ow_challenges ow)) (br_nonce rq) = Some c \<and> pv_consume io \<le> ch_expires_at c) \<and>
    trusted_path pki [ow_root ow] (pv_now io) 0 (br_vcek rq # br_intermediates rq) \<and>
    report_verify pki (br_vcek rq) ECDSA_SHA384 (snp_signature_der pki (br_report rq)) (take SIG_OFFSET (br_report rq)) = None \<and>
    (\<exists>r n pk ctx. parse_snp_report (br_report rq) = Inr r \<and> bytes_fromhex (br_nonce rq) = Some n \<and>
       br_transport_public_key rq = hex_of_bytes pk \<and> bp_context env p = Inr ctx \<and>
       take 32 (sr_report_data r) = sha256 env (n @ prov_DOMAIN @ pk @ sha256 env ctx) \<and>
       2 \<le> sr_version r \<and> hex_of_bytes (sr_measurement r) = bp_measurement_hex p \<and>
       sr_policy r = bp_guest_policy p \<and> \<not> bit (sr_policy r) 19 \<and> sr_vmpl r = 0 \<and>
       (\<exists>low. bytes_fromhex (bp_minimum_tcb_le_hex p) = Some low \<and> (\<forall>(a, l) \<in> set (zip (int_le 8 (sr_reported_tcb r)) low). l \<le> a)) \<and>
       (\<forall>f \<in> bp_required_platform_fields p. platform_field (sr_platform_info r) f = Some True) \<and>
       (\<forall>f \<in> bp_forbidden_platform_fields p. platform_field (sr_platform_info r) f = Some False)) \<and>
    (\<forall>a. ow_approval ow = Some a \<longrightarrow> require_policy env a p = Inr ()) \<and>
    (\<forall>ns. ow_epoch_store ow = Some ns \<longrightarrow> (\<exists>d. policy_digest env p = Inr d \<and> db ns = Some (bp_epoch p, d)))"
proof -
  have p: "ow_policy ow = p" "finite (bp_required_platform_fields p)" "finite (bp_forbidden_platform_fields p)"
    using assms(2) finite_subset [of _ "set SNP_FIELDS"] by (auto simp: new_policy_iff)
  obtain cs where g: "epoch_guard env (ow_epoch_store ow) p False db = Inr db'"
    and c: "cs_consume (br_nonce rq) (pv_consume io) (ow_challenges ow) = (Inr (), cs)"
    and b: "provision_body env pki io rq key ow = Inr e"
    using provision_ok [OF assms(1)] unfolding p(1) by blast
  have live: "\<exists>c. map_of (cs_consumed (ow_challenges ow)) (br_nonce rq) = None \<and>
      map_of (cs_issued (ow_challenges ow)) (br_nonce rq) = Some c \<and> pv_consume io \<le> ch_expires_at c"
    using c cs_consume_ok_iff [of "br_nonce rq" "pv_consume io" "ow_challenges ow"] by auto
  have epoch: "\<forall>ns. ow_epoch_store ow = Some ns \<longrightarrow> (\<exists>d. policy_digest env p = Inr d \<and> db ns = Some (bp_epoch p, d))"
    using g epoch_guard_exact by metis
  from b show ?thesis
  proof (rule provision_body_ok, unfold p(1), goal_cases)
    case (1 binding v r aad ct)
    obtain pk ctx where bd: "br_transport_public_key rq = hex_of_bytes pk" "bp_context env p = Inr ctx"
      "binding = prov_DOMAIN @ pk @ sha256 env ctx"
      using 1(3) by (auto simp: provisioning_binding_iff)
    note v = verified_report_bytes [OF 1(4,5)]
    note a = 1(7) [unfolded appraise_report_iff set_sorted_list_of_set [OF p(2)] set_sorted_list_of_set [OF p(3)]]
    have ap: "\<forall>a. ow_approval ow = Some a \<longrightarrow> require_policy env a p = Inr ()" using 1(2) by (auto simp: require_approval_def)
    from v obtain n where n: "trusted_path pki [ow_root ow] (pv_now io) 0 (br_vcek rq # br_intermediates rq)"
      "report_verify pki (br_vcek rq) ECDSA_SHA384 (snp_signature_der pki (br_report rq)) (take SIG_OFFSET (br_report rq)) = None"
      "bytes_fromhex (br_nonce rq) = Some n" "take 32 (sr_report_data r) = sha256 env (n @ binding)"
      using 1(6) by auto
    show ?case using live epoch ap n(1,2) 1(6) n(3) bd(1,2) n(4) [unfolded bd(3)] a by blast
  qed
qed

subsection \<open>The broker opens what the owner sealed\<close>

text \<open>
  An envelope the owner returns opens, in the broker that holds the transport
  key the request named and enforces the same policy, to exactly the key that was provisioned.
\<close>

theorem provisioned_key_opens:
  assumes "provision env pki io rq key ow db = (Inr e, ow', db')"
    and "br_transport_public_key rq = hex_of_bytes (x_public env sk)"
    and "dh_correct env" and "aead_correct env" and "ed_correct env" and "length (pv_seal_nonce io) = 12"
  shows "open_provisioned_key env e (ow_policy ow) sk (ed_public env (ow_signing_key ow)) = Inr key \<and> pe_nonce e = br_nonce rq"
proof -
  from provision_ok [OF assms(1)] have "provision_body env pki io rq key ow = Inr e" by blast
  then show ?thesis
    by (rule provision_body_ok) (use envelope_opens [OF assms(3-6)] assms(2) in auto)
qed

subsection \<open>Several owner processes on one database\<close>

text \<open>
  Owner processes, numbered, over one database. An event records the namespace, epoch and digest
  under which a policy was admitted or a key provisioned.
\<close>

datatype owner_event = Admitted pystr int pystr | Provisioned pystr int pystr

definition mark :: "('x) crypto_scheme \<Rightarrow> (pystr \<Rightarrow> int \<Rightarrow> pystr \<Rightarrow> owner_event) \<Rightarrow> pystr option \<Rightarrow> broker_policy \<Rightarrow> owner_event list" where
  "mark cr f store p = (case (store, policy_digest cr p) of (Some ns, Inr d) \<Rightarrow> [f ns (bp_epoch p) d] | _ \<Rightarrow> [])"

inductive owner_run ::
  "('x) env_scheme \<Rightarrow> ('c, 'y) pki_scheme \<Rightarrow> floor_db \<Rightarrow> owner_event list \<Rightarrow> (nat \<Rightarrow> 'c owner option) \<Rightarrow> floor_db \<Rightarrow> bool"
  for env :: "('x) env_scheme" and pki :: "('c, 'y) pki_scheme" and db0 where
  initial: "owner_run env pki db0 [] (\<lambda>_. None) db0"
| start: "owner_run env pki db0 tr ows db \<Longrightarrow> new_owner env p sk rt ttl st ap db = (Inr ow, db') \<Longrightarrow>
    owner_run env pki db0 (tr @ mark env Admitted st p) (ows(i \<mapsto> ow)) db'"
| failed_start: "owner_run env pki db0 tr ows db \<Longrightarrow> new_owner env p sk (rt :: 'c) ttl st ap db = (Inl e, db') \<Longrightarrow>
    owner_run env pki db0 tr ows db'"
| issue: "owner_run env pki db0 tr ows db \<Longrightarrow> ows i = Some ow \<Longrightarrow> owner_issue_challenge env now tok ow db = (r, ow', db') \<Longrightarrow>
    owner_run env pki db0 tr (ows(i \<mapsto> ow')) db'"
| update: "owner_run env pki db0 tr ows db \<Longrightarrow> ows i = Some ow \<Longrightarrow> update_policy env p ow db = (r, ow', db') \<Longrightarrow>
    owner_run env pki db0 (tr @ (if r = Inr () then mark env Admitted (ow_epoch_store ow) p else [])) (ows(i \<mapsto> ow')) db'"
| provide: "owner_run env pki db0 tr ows db \<Longrightarrow> ows i = Some ow \<Longrightarrow> provision env pki io rq key ow db = (r, ow', db') \<Longrightarrow>
    owner_run env pki db0 (tr @ (case r of Inr e \<Rightarrow> mark env Provisioned (ow_epoch_store ow) (ow_policy ow) | Inl _ \<Rightarrow> [])) (ows(i \<mapsto> ow')) db'"
| crash: "owner_run env pki db0 tr ows db \<Longrightarrow> owner_run env pki db0 tr (ows(i := None)) db"

fun event_at :: "owner_event \<Rightarrow> pystr \<times> int \<times> pystr" where
  "event_at (Admitted ns e d) = (ns, e, d)"
| "event_at (Provisioned ns e d) = (ns, e, d)"

text \<open>One admitted state is at or before another: a lower epoch, or the same policy.\<close>

fun not_after :: "int \<times> pystr \<Rightarrow> int \<times> pystr \<Rightarrow> bool" where
  "not_after (e, d) (e', d') \<longleftrightarrow> e < e' \<or> (e = e' \<and> d = d')"

lemma not_after_trans: "not_after a b \<Longrightarrow> not_after b c \<Longrightarrow> not_after a c"
  by (cases a; cases b; cases c) auto

lemma not_after_refl: "not_after a a"
  by (cases a) auto

definition db_above :: "floor_db \<Rightarrow> floor_db \<Rightarrow> bool" where
  "db_above db db' \<longleftrightarrow> (\<forall>ns low. db ns = Some low \<longrightarrow> (\<exists>low'. db' ns = Some low' \<and> not_after low low'))"

lemma db_above_refl [simp]: "db_above db db"
  by (auto simp: db_above_def not_after_refl)

lemma guard_enter_floor:
  assumes "guard_enter admit ns e d db = Inr db'"
  shows "db' = db(ns \<mapsto> (e, d))" "db ns = Some low \<Longrightarrow> not_after low (e, d)"
proof -
  have "db' = db(ns \<mapsto> (e, d)) \<and> (\<forall>low. db ns = Some low \<longrightarrow> not_after low (e, d))"
  proof (cases "db ns")
    case None
    with assms show ?thesis by (auto simp: guard_enter_def rbind_Inr_iff split: if_split_asm)
  next
    case (Some l)
    obtain a b where l: "l = (a, b)" by force
    consider "e < a" | "e = a" "d \<noteq> b" | "e = a" "d = b" | "e > a" by linarith
    then show ?thesis using assms Some l by cases (auto simp: guard_enter_def rbind_Inr_iff split: if_split_asm)
  qed
  then show "db' = db(ns \<mapsto> (e, d))" "db ns = Some low \<Longrightarrow> not_after low (e, d)" by simp_all
qed

lemma epoch_guard_above:
  assumes "epoch_guard cr st p admit db = Inr db'"
  shows "db_above db db'" "st = Some ns \<Longrightarrow> \<exists>d. policy_digest cr p = Inr d \<and> db' ns = Some (bp_epoch p, d)"
proof -
  have "db_above db db' \<and> (st = Some ns \<longrightarrow> (\<exists>d. policy_digest cr p = Inr d \<and> db' ns = Some (bp_epoch p, d)))" for ns
  proof (cases st)
    case (Some m)
    with assms obtain d where d: "policy_digest cr p = Inr d" "guard_enter admit m (bp_epoch p) d db = Inr db'"
      by (auto simp: epoch_guard_def rbind_Inr_iff)
    note g = guard_enter_floor [OF d(2)]
    have "db_above db db'" unfolding db_above_def g(1) using g(2) by (auto simp: not_after_refl)
    with d(1) Some show ?thesis by (auto simp: g(1))
  qed (use assms in \<open>simp add: epoch_guard_def\<close>)
  then show "db_above db db'" "st = Some ns \<Longrightarrow> \<exists>d. policy_digest cr p = Inr d \<and> db' ns = Some (bp_epoch p, d)" by blast+
qed

lemma guarded_above:
  assumes "guarded cr st p admit body s db = (r, s', db')"
  shows "db_above db db'" "st = Some ns \<Longrightarrow> r = Inr x \<Longrightarrow> \<exists>d. policy_digest cr p = Inr d \<and> db' ns = Some (bp_epoch p, d)"
  using assms by (auto elim!: guarded_cases dest: epoch_guard_above)

text \<open>Every recorded state is at or before the one the database admits now, in the order of the trace.\<close>

definition trace_ok :: "owner_event list \<Rightarrow> floor_db \<Rightarrow> bool" where
  "trace_ok tr db \<longleftrightarrow> (\<forall>ev \<in> set tr. \<exists>low. db (fst (event_at ev)) = Some low \<and> not_after (snd (event_at ev)) low) \<and>
     sorted_wrt (\<lambda>a b. fst (event_at a) = fst (event_at b) \<longrightarrow> not_after (snd (event_at a)) (snd (event_at b))) tr"

lemma trace_ok_above: "trace_ok tr db \<Longrightarrow> db_above db db' \<Longrightarrow> trace_ok tr db'"
  unfolding trace_ok_def db_above_def using not_after_trans by metis

lemma trace_ok_snoc:
  assumes "trace_ok tr db" and "db_above db db'" and "\<And>ns. st = Some ns \<Longrightarrow> \<exists>d. policy_digest cr p = Inr d \<and> db' ns = Some (bp_epoch p, d)"
    and "f = Admitted \<or> f = Provisioned"
  shows "trace_ok (tr @ mark cr f st p) db'"
proof (cases "\<exists>ns. st = Some ns")
  case True
  then obtain ns d where ns: "st = Some ns" "policy_digest cr p = Inr d" "db' ns = Some (bp_epoch p, d)" using assms(3) by blast
  then have m: "mark cr f st p = [f ns (bp_epoch p) d]" and e: "event_at (f ns (bp_epoch p) d) = (ns, bp_epoch p, d)"
    using assms(4) by (auto simp: mark_def)
  have t: "trace_ok tr db'" by (rule trace_ok_above [OF assms(1,2)])
  then have "\<forall>a \<in> set tr. fst (event_at a) = ns \<longrightarrow> not_after (snd (event_at a)) (bp_epoch p, d)"
    using ns(3) by (auto simp: trace_ok_def)
  with t show ?thesis unfolding m by (simp add: trace_ok_def sorted_wrt_append e ns(3))
next
  case False
  with trace_ok_above [OF assms(1,2)] show ?thesis by (simp add: mark_def split: option.splits)
qed

lemma new_owner_above:
  assumes "new_owner cr p sk rt ttl st ap db = (r, db')"
  shows "db_above db db'" "r = Inr ow \<Longrightarrow> st = Some ns \<Longrightarrow> \<exists>d. policy_digest cr p = Inr d \<and> db' ns = Some (bp_epoch p, d)"
  using assms guarded_above [of cr st p True "\<lambda>s. (Inr (), s)" "()" db]
  by (auto simp: new_owner_def split: if_split_asm sum.split_asm prod.split_asm)

lemma update_policy_above:
  assumes "update_policy cr p ow db = (r, ow', db')"
  shows "db_above db db'" "r = Inr () \<Longrightarrow> ow_epoch_store ow = Some ns \<Longrightarrow> \<exists>d. policy_digest cr p = Inr d \<and> db' ns = Some (bp_epoch p, d)"
  using assms guarded_above [of cr "ow_epoch_store ow" p True]
  by (fastforce simp: update_policy_def split: if_split_asm sum.split_asm)+

lemma owner_run_trace: "owner_run env pki db0 tr ows db \<Longrightarrow> trace_ok tr db"
proof (induction rule: owner_run.induct)
  case initial
  show ?case by (simp add: trace_ok_def)
next
  case (start tr ows db p sk rt ttl st ap ow db' i)
  show ?case by (rule trace_ok_snoc [OF start(3)]) (use new_owner_above [OF start(2)] in auto)
next
  case (failed_start tr ows db p sk rt ttl st ap e db')
  show ?case by (rule trace_ok_above [OF failed_start(3) new_owner_above(1) [OF failed_start(2)]])
next
  case (issue tr ows db i ow now tok r ow' db')
  show ?case by (rule trace_ok_above [OF issue(4) guarded_above(1) [OF issue(3) [unfolded owner_issue_challenge_def]]])
next
  case (update tr ows db i ow p r ow' db')
  note a = update_policy_above [OF update(3)]
  show ?case
  proof (cases "r = Inr ()")
    case True
    show ?thesis unfolding if_P [OF True] by (rule trace_ok_snoc [OF update(4) a(1)]) (use a(2) True in auto)
  qed (use trace_ok_above [OF update(4) a(1)] in simp)
next
  case (provide tr ows db i ow io rq key r ow' db')
  note a = guarded_above [OF provide(3) [unfolded provision_def]]
  show ?case
  proof (cases r)
    case (Inr e)
    show ?thesis unfolding Inr sum.case by (rule trace_ok_snoc [OF provide(4) a(1)]) (use a(2) Inr in auto)
  qed (use trace_ok_above [OF provide(4) a(1)] in simp)
qed simp

text \<open>
  C6 (provisioning). However many owner processes share an epoch database and however their
  operations interleave, with processes crashing and restarting from old policies: once a policy
  has been admitted or used in a namespace, no key is provisioned there under a lower epoch, nor
  under a different policy of the same epoch.
\<close>

theorem provisioning_never_rolls_back:
  assumes "owner_run env pki db0 tr ows db" and "i < j" and "j < length tr"
    and "event_at (tr ! i) = (ns, e, d)" and "event_at (tr ! j) = (ns, e', d')"
  shows "e \<le> e' \<and> (e = e' \<longrightarrow> d = d')"
proof -
  have "sorted_wrt (\<lambda>a b. fst (event_at a) = fst (event_at b) \<longrightarrow> not_after (snd (event_at a)) (snd (event_at b))) tr"
    using owner_run_trace [OF assms(1)] by (simp add: trace_ok_def)
  from sorted_wrt_nth_less [OF this assms(2,3)] assms(4,5) show ?thesis by auto
qed

subsection \<open>Updates void challenges\<close>

text \<open>
  A policy update that succeeds voids every challenge issued before it: a
  request with such a nonce is refused as unknown whatever it presents, the nonce is not even
  consumed, and the update itself never lowers the epoch.
\<close>

theorem update_voids_challenges:
  assumes "update_policy env p ow db = (Inr (), ow', db')"
  shows "bp_epoch (ow_policy ow) < bp_epoch (ow_policy ow') \<and> ow_policy ow' = p \<and>
    (\<forall>io rq key e ow'' db''. provision env pki io rq key ow' db' \<noteq> (Inr e, ow'', db'')) \<and>
    (\<forall>io rq key. ow_epoch_store ow = None \<longrightarrow>
       provision env pki io rq key ow' db' = (Inl (ChallengeError (us ''unknown nonce (not issued by this KBS)'')), ow', db'))"
proof -
  have gt: "bp_epoch (ow_policy ow) < bp_epoch p"
    and g: "guarded env (ow_epoch_store ow) p True (\<lambda>ow. (Inr (), ow\<lparr>ow_policy := p, ow_challenges := new_store (ow_ttl ow)\<rparr>)) ow db = (Inr (), ow', db')"
    using assms by (auto simp: update_policy_def split: if_split_asm sum.split_asm)
  from g have ow': "ow' = ow\<lparr>ow_policy := p, ow_challenges := new_store (ow_ttl ow)\<rparr>" by (auto elim: guarded_cases)
  have c: "cs_consume n t (ow_challenges ow') = (Inl (ChallengeError (us ''unknown nonce (not issued by this KBS)'')), ow_challenges ow')" for n t
    by (simp add: ow' cs_consume_def new_store_def)
  have "provision env pki io rq key ow' db' \<noteq> (Inr e, ow'', db'')" for io rq key e ow'' db''
    using c by (auto elim: provision_ok)
  moreover have "provision env pki io rq key ow' db' = (Inl (ChallengeError (us ''unknown nonce (not issued by this KBS)'')), ow', db')"
    if "ow_epoch_store ow = None" for io rq key
    using that c by (simp add: provision_def guarded_def epoch_guard_def ow' new_store_def cs_consume_def)
  ultimately show ?thesis using gt ow' by auto
qed

subsection \<open>A provisioning run\<close>

definition prov_env :: env where
  "prov_env = crypto.extend (demo_crypto\<lparr>hf := \<lparr>hf_sha256 = (\<lambda>_. replicate 32 0), hf_shake256 = (\<lambda>_. replicate 32 0)\<rparr>\<rparr>)
     (env.fields (\<lambda>_. replicate 32 0) (\<lambda>_ _. Some []) (\<lambda>_ _. []) (\<lambda>k n p aad. p @ replicate 16 0)
        (\<lambda>k n c aad. Some (take (length c - 16) c)) (\<lambda>_. None) (\<lambda>_. []) (\<lambda>_. None))"

lemma prov_env_simps [simp]:
  "sha256 prov_env x = replicate 32 0" "x_public prov_env sk = replicate 32 0" "x_exchange prov_env a b = Some []"
  "aead_enc prov_env k n p aad = p @ replicate 16 0" "aead_dec prov_env k n c aad = Some (take (length c - 16) c)"
  "ed_sign prov_env sk m = replicate 64 1" "ed_public prov_env sk = sk" "ed_verify prov_env pk s m = (s = replicate 64 1)"
  by (simp_all add: prov_env_def crypto.defs env.defs demo_crypto_def)

lemma prov_env_laws: "dh_correct prov_env" "aead_correct prov_env" "ed_correct prov_env"
  by (simp_all add: dh_correct_def aead_correct_def ed_correct_def)

definition prov_report :: bytes where
  "prov_report = 2 # replicate 1183 0"

lemma slice_prov_report: "0 < a \<Longrightarrow> a \<le> b \<Longrightarrow> b \<le> 1184 \<Longrightarrow> slice a b prov_report = replicate (b - a) 0"
  by (cases a) (simp_all add: slice_def prov_report_def)

lemma le_int_zeros: "le_int (replicate n 0) = 0"
  by (induction n) simp_all

lemma prov_report_parsed:
  "\<exists>r. parse_snp_report prov_report = Inr r \<and> sr_version r = 2 \<and> sr_policy r = 0 \<and> sr_vmpl r = 0 \<and>
     sr_measurement r = replicate 48 0 \<and> sr_reported_tcb r = 0 \<and> \<not> pf_smt_en (sr_platform_info r)"
proof -
  have "length prov_report = 1184" by (simp add: prov_report_def)
  moreover have "slice 0 4 prov_report = 2 # replicate 3 0" by (simp add: slice_def prov_report_def numeral_eq_Suc)
  ultimately show ?thesis
    by (simp add: parse_snp_report_def REPORT_LEN_def le_field_def slice_prov_report le_int_zeros parse_platform_info_def)
qed

definition prov_nonce :: pystr where
  "prov_nonce = hex_of_bytes (replicate 32 0)"

lemma prov_nonce_bytes [simp]: "bytes_fromhex prov_nonce = Some (replicate 32 0)" "fromhex prov_nonce = Inr (replicate 32 0)"
  by (simp_all add: prov_nonce_def fromhex_def bytes_fromhex_hex)

definition prov_request :: "nat broker_request" where
  "prov_request = \<lparr>br_nonce = prov_nonce, br_report = prov_report, br_vcek = 3, br_intermediates = [],
     br_transport_public_key = hex_of_bytes (replicate 32 0)\<rparr>"

definition prov_inputs :: prov_io where
  "prov_inputs = \<lparr>pv_consume = 5, pv_now = 5, pv_ephemeral = [], pv_seal_nonce = replicate 12 0\<rparr>"

definition prov_owner :: "nat owner" where
  "prov_owner = \<lparr>ow_policy = demo_policy, ow_signing_key = [9], ow_root = 7, ow_ttl = 60,
     ow_challenges = snd (cs_issue 0 prov_nonce (new_store 60)), ow_epoch_store = Some (us ''ns''), ow_approval = None\<rparr>"

lemma demo_policy_ok: "new_policy demo_policy = Inr demo_policy"
proof -
  have h: "replicate (2 * n) 48 = hex_of_bytes (replicate n 0)" for n
    by (induction n) (simp_all add: hex_of_bytes_def hex_byte_def hex_digit_def)
  have "canonical_hex n (replicate (2 * n) 48)" for n
    by (simp add: canonical_hex_def h bytes_fromhex_hex length_hex_of_bytes)
  from this [of 48] this [of 32] this [of 8] show ?thesis
    by (simp add: new_policy_iff demo_policy_def SNP_FIELDS_def us_def [of "''sha256:''"])
qed

lemma demo_prov_digest: "policy_digest prov_env demo_policy = Inr (hex_of_bytes (replicate 32 0))"
proof -
  have "\<exists>ctx. bp_context prov_env demo_policy = Inr ctx"
    by (rule bp_context_total) (simp_all add: demo_policy_def nat_str.simps)
  then show ?thesis by (auto simp: policy_digest_def)
qed

definition prov_db :: floor_db where
  "prov_db = [us ''ns'' \<mapsto> (3, hex_of_bytes (replicate 32 0))]"

lemma prov_appraised: "\<exists>r. parse_snp_report prov_report = Inr r \<and> appraise_report demo_policy r = Inr ()"
proof -
  obtain r where r: "parse_snp_report prov_report = Inr r" "sr_version r = 2" "sr_policy r = 0" "sr_vmpl r = 0"
     "sr_measurement r = replicate 48 0" "sr_reported_tcb r = 0" "\<not> pf_smt_en (sr_platform_info r)"
    using prov_report_parsed by blast
  have h: "hex_of_bytes (replicate n 0) = replicate (2 * n) 48" for n
    by (induction n) (simp_all add: hex_of_bytes_def hex_byte_def hex_digit_def)
  have f: "bytes_fromhex (replicate 16 48) = Some (replicate 8 0)"
    using bytes_fromhex_hex [of "replicate 8 0"] by (simp add: h)
  have z: "int_le n 0 = replicate n 0" for n by (induction n) simp_all
  have "appraise_report demo_policy r = Inr ()"
    unfolding appraise_report_iff using r(2-7) by (simp add: demo_policy_def h f z platform_field_def zip_replicate)
  with r(1) show ?thesis by blast
qed

lemma prov_quote:
  "\<exists>v. quote_verify prov_env demo_pki \<lparr>ve_parse = snp_quote_parse demo_pki 3 [], ve_roots = [7], ve_require_launch_measurement = False\<rparr>
     (b64encode prov_report) prov_nonce binding None 5 = Inr v \<and> qv_verified v"
proof -
  have "snp_quote_parse demo_pki 3 [] (b64encode prov_report) =
      Inr \<lparr>pq_report_body = take SIG_OFFSET prov_report, pq_signature = snp_signature_der demo_pki prov_report, pq_leaf = 3,
        pq_intermediates = [], pq_report_data_offset = 0x50, pq_report_signature_algorithm = us ''ecdsa-p384-sha384'',
        pq_launch_measurement = Some (slice 0x90 (0x90 + 48) prov_report), pq_snp_report = Some (take REPORT_LEN prov_report)\<rparr>"
    by (simp add: snp_quote_parse_def b64decode_b64encode REPORT_LEN_def prov_report_def)
  moreover have "slice 0x50 (0x50 + 32) (take SIG_OFFSET prov_report) = replicate 32 0"
    by (simp add: slice_take SIG_OFFSET_def slice_prov_report)
  moreover have "verify_cert_chain demo_pki 3 [] [7] 5 = Inr None"
    by (simp add: verify_cert_chain_def chain_error_def valid_at_def signed_by_def pubkey_verify_def may_issue_def demo_pki_def Let_def)
  ultimately show ?thesis
    by (simp add: quote_verify_def verify_report_signature_def launch_error_def demo_pki_def Let_def)
qed

lemma prov_binding: "\<exists>b ctx. provisioning_binding prov_env demo_policy (hex_of_bytes (replicate 32 0)) = Inr b \<and>
    prov_aad prov_env demo_policy prov_nonce (hex_of_bytes (replicate 32 0)) = Inr (ctx @ replicate 32 0 @ replicate 32 0)"
proof -
  obtain ctx where "bp_context prov_env demo_policy = Inr ctx" using demo_prov_digest by (auto simp: policy_digest_def rbind_Inr_iff)
  then show ?thesis by (simp add: provisioning_binding_def prov_aad_def)
qed

lemma prov_succeeds:
  "\<exists>e ow. provision prov_env demo_pki prov_inputs prov_request (replicate 16 1) prov_owner prov_db = (Inr e, ow, prov_db)"
proof -
  obtain b ctx where b: "provisioning_binding prov_env demo_policy (hex_of_bytes (replicate 32 0)) = Inr b"
    "prov_aad prov_env demo_policy prov_nonce (hex_of_bytes (replicate 32 0)) = Inr (ctx @ replicate 32 0 @ replicate 32 0)"
    using prov_binding by blast
  obtain v where v: "quote_verify prov_env demo_pki \<lparr>ve_parse = snp_quote_parse demo_pki 3 [], ve_roots = [7],
      ve_require_launch_measurement = False\<rparr> (b64encode prov_report) prov_nonce b None 5 = Inr v" "qv_verified v"
    using prov_quote by blast
  obtain r where r: "parse_snp_report prov_report = Inr r" "appraise_report demo_policy r = Inr ()" using prov_appraised by blast
  have "\<exists>e. provision_body prov_env demo_pki prov_inputs prov_request (replicate 16 1) prov_owner = Inr e"
    using b v r by (simp add: provision_body_def prov_owner_def prov_request_def prov_inputs_def require_approval_def
        seal_to_public_key_def bytes_fromhex_hex Let_def)
  moreover have "\<exists>cs. cs_consume prov_nonce 5 (ow_challenges prov_owner) = (Inr (), cs)"
    by (simp add: prov_owner_def cs_issue_def cs_consume_def new_store_def cs_prune_def secs_def Let_def)
  moreover have "epoch_guard prov_env (Some (us ''ns'')) demo_policy False prov_db = Inr prov_db"
    by (simp add: epoch_guard_def demo_prov_digest guard_enter_def prov_db_def demo_policy_def [THEN arg_cong, of bp_epoch])
  ultimately show ?thesis
    by (auto simp: provision_def guarded_def prov_request_def prov_inputs_def prov_owner_def)
qed

theorem provisioning_requires_attested_broker_witness:
  "\<exists>r. parse_snp_report prov_report = Inr r \<and> sr_vmpl r = 0 \<and> platform_field (sr_platform_info r) (us ''smt_en'') = Some False \<and>
     report_verify demo_pki 3 ECDSA_SHA384 (snp_signature_der demo_pki prov_report) (take SIG_OFFSET prov_report) = None"
proof -
  obtain e ow where "provision prov_env demo_pki prov_inputs prov_request (replicate 16 1) prov_owner prov_db = (Inr e, ow, prov_db)"
    using prov_succeeds by blast
  moreover have "new_policy (ow_policy prov_owner) = Inr demo_policy" by (simp add: prov_owner_def demo_policy_ok)
  ultimately have "\<exists>r. parse_snp_report (br_report prov_request) = Inr r \<and> sr_vmpl r = 0 \<and>
      (\<forall>f \<in> bp_forbidden_platform_fields demo_policy. platform_field (sr_platform_info r) f = Some False) \<and>
      report_verify demo_pki (br_vcek prov_request) ECDSA_SHA384 (snp_signature_der demo_pki (br_report prov_request))
        (take SIG_OFFSET (br_report prov_request)) = None"
    using provisioning_requires_attested_broker [of prov_env demo_pki] by blast
  then show ?thesis by (simp add: prov_request_def demo_policy_def)
qed

theorem provisioned_key_opens_witness:
  "\<exists>e. open_provisioned_key prov_env e demo_policy [] [9] = Inr (replicate 16 1) \<and> pe_nonce e = prov_nonce"
proof -
  obtain e ow where "provision prov_env demo_pki prov_inputs prov_request (replicate 16 1) prov_owner prov_db = (Inr e, ow, prov_db)"
    using prov_succeeds by blast
  from provisioned_key_opens [OF this _ prov_env_laws, of "[]"]
  show ?thesis by (auto simp: prov_request_def prov_inputs_def prov_owner_def)
qed

theorem provisioning_never_rolls_back_witness:
  "\<exists>db. owner_run prov_env demo_pki (\<lambda>_. None) [Admitted (us ''ns'') 3 (hex_of_bytes (replicate 32 0)),
      Admitted (us ''ns'') 4 (hex_of_bytes (replicate 32 0))] (\<lambda>_. None) db \<and> (3 :: int) \<le> 4"
proof -
  let ?d = "hex_of_bytes (replicate 32 0)" let ?p = "demo_policy\<lparr>bp_epoch := 4\<rparr>"
  have dg: "policy_digest prov_env ?p = Inr ?d"
    using bp_context_total [of ?p prov_env] by (auto simp: policy_digest_def demo_policy_def nat_str.simps)
  have e: "bp_epoch demo_policy = 3" "bp_epoch ?p = 4" by (simp_all add: demo_policy_def)
  have i: "py_int_str 3 = Inr (us ''3'')" "py_int_str 4 = Inr (us ''4'')" by (simp_all add: py_int_str_def int_str_def nat_str.simps us_def)
  obtain o1 where o1: "new_owner prov_env demo_policy [9] (7 :: nat) 60 (Some (us ''ns'')) None (\<lambda>_. None) = (Inr o1, [us ''ns'' \<mapsto> (3, ?d)])"
    by (simp add: new_owner_def require_approval_def guarded_def epoch_guard_def demo_prov_digest guard_enter_def i e)
  obtain o2 where o2: "new_owner prov_env ?p [9] (7 :: nat) 60 (Some (us ''ns'')) None [us ''ns'' \<mapsto> (3, ?d)] = (Inr o2, [us ''ns'' \<mapsto> (4, ?d)])"
    by (simp add: new_owner_def require_approval_def guarded_def epoch_guard_def dg guard_enter_def i e)
  have m: "mark prov_env Admitted (Some (us ''ns'')) demo_policy = [Admitted (us ''ns'') 3 ?d]"
    "mark prov_env Admitted (Some (us ''ns'')) ?p = [Admitted (us ''ns'') 4 ?d]"
    by (simp_all add: mark_def dg demo_prov_digest e)
  have r: "owner_run prov_env demo_pki (\<lambda>_. None) [Admitted (us ''ns'') 3 ?d, Admitted (us ''ns'') 4 ?d]
      ((\<lambda>_. None)(0 \<mapsto> o1, 1 \<mapsto> o2)) [us ''ns'' \<mapsto> (4, ?d)]"
    using owner_run.start [OF owner_run.start [OF owner_run.initial o1, of demo_pki 0] o2, of 1] m by simp
  from provisioning_never_rolls_back [OF r, of 0 1] have "(3 :: int) \<le> 4" by simp
  moreover have "owner_run prov_env demo_pki (\<lambda>_. None) [Admitted (us ''ns'') 3 ?d, Admitted (us ''ns'') 4 ?d] (\<lambda>_. None) [us ''ns'' \<mapsto> (4, ?d)]"
    using owner_run.crash [OF owner_run.crash [OF r, of 0], of 1] by (simp add: fun_upd_twist)
  ultimately show ?thesis by blast
qed

theorem update_voids_challenges_witness:
  "\<exists>ow' db'. update_policy prov_env (demo_policy\<lparr>bp_epoch := 4\<rparr>) (prov_owner\<lparr>ow_epoch_store := None\<rparr>) (\<lambda>_. None) = (Inr (), ow', db') \<and>
     provision prov_env demo_pki prov_inputs prov_request (replicate 16 1) ow' db' =
       (Inl (ChallengeError (us ''unknown nonce (not issued by this KBS)'')), ow', db')"
proof -
  obtain ow' db' where u: "update_policy prov_env (demo_policy\<lparr>bp_epoch := 4\<rparr>) (prov_owner\<lparr>ow_epoch_store := None\<rparr>) (\<lambda>_. None) = (Inr (), ow', db')"
    by (simp add: update_policy_def prov_owner_def demo_policy_def require_approval_def guarded_def epoch_guard_def)
  from update_voids_challenges [OF u, of demo_pki] u show ?thesis by auto
qed

end
