(* ===== verification/Nvidia.thy ===== *)
theory Nvidia
  imports Quote
begin

section \<open>NVIDIA GPU attestation (\<open>nvidia.py\<close>)\<close>

text \<open>
  The GPU report with its raw nonce and trailing signature, the SPDM opaque fields inside the
  signed bytes, the identity read from them and the verifier. Loading a PEM bundle and the common
  names of a certificate are further fields of the certificate parameter. The main results: a
  verified report is signed by a leaf with a path to the device root, echoes the challenge nonce,
  and its measurement depends on nothing outside the signed bytes; and the field parser reads back
  every well-formed transcript.
\<close>

subsection \<open>Reports\<close>

record 'c gpu_pki = "'c pki" +
  load_pems :: "bytes \<Rightarrow> 'c list result"
  common_names :: "'c \<Rightarrow> pystr list result"

definition NVIDIA_NONCE_OFFSET :: nat where "NVIDIA_NONCE_OFFSET = 4"
definition GPU_NONCE_LEN :: nat where "GPU_NONCE_LEN = 32"
definition GPU_SIG_LEN :: nat where "GPU_SIG_LEN = 96"
definition SPDM_REQUEST_LEN :: nat where "SPDM_REQUEST_LEN = 4 + GPU_NONCE_LEN + 1"

lemmas gpu_consts = NVIDIA_NONCE_OFFSET_def GPU_NONCE_LEN_def GPU_SIG_LEN_def SPDM_REQUEST_LEN_def

record gpu_attestation_report =
  ga_raw_nonce :: bytes
  ga_signed_body :: bytes
  ga_signature :: bytes
  ga_raw :: bytes

definition parse_gpu_report :: "bytes \<Rightarrow> gpu_attestation_report result" where
  "parse_gpu_report report =
     (if length report \<le> NVIDIA_NONCE_OFFSET + GPU_NONCE_LEN + GPU_SIG_LEN
      then Inl (GpuReportFormatError (us ''report is '' @ nat_str (length report) @ us '' bytes, too short to hold header + nonce + signature''))
      else Inr \<lparr>ga_raw_nonce = slice NVIDIA_NONCE_OFFSET (NVIDIA_NONCE_OFFSET + GPU_NONCE_LEN) report,
                ga_signed_body = take (length report - GPU_SIG_LEN) report,
                ga_signature = drop (length report - GPU_SIG_LEN) report, ga_raw = report\<rparr>)"

definition verify_gpu_report_signature :: "('c, 'x) pki_scheme \<Rightarrow> bytes \<Rightarrow> 'c \<Rightarrow> unit result" where
  "verify_gpu_report_signature pki report leaf_cert =
     rbind (parse_gpu_report report) (\<lambda>parsed.
       let r = be_int (take 48 (ga_signature parsed)); s = be_int (drop 48 (ga_signature parsed));
           der = encode_dss_signature pki r s
       in rbind (public_key pki leaf_cert) (\<lambda>pub.
          if \<not> is_EC pub then Inl (InvalidSignature (us ''leaf attestation key is not an elliptic-curve key''))
          else case report_verify pki leaf_cert ECDSA_SHA384 der (ga_signed_body parsed) of None \<Rightarrow> Inr () | Some e \<Rightarrow> Inl e))"

subsection \<open>The SPDM transcript\<close>

definition le_nat :: "bytes \<Rightarrow> nat" where
  "le_nat b = nat (le_int b)"

function opaque_loop :: "bytes \<Rightarrow> nat \<Rightarrow> nat \<Rightarrow> (nat \<times> bytes) list \<Rightarrow> (nat \<times> bytes) list result" where
  "opaque_loop report limit pos found =
     (if limit \<le> pos then Inr found
      else if limit < pos + 4 then Inl (GpuReportFormatError (us ''truncated SPDM opaque field header''))
      else let field_id = le_nat (slice pos (pos + 2) report); size = le_nat (slice (pos + 2) (pos + 4) report)
        in if limit < pos + 4 + size then Inl (GpuReportFormatError (us ''SPDM opaque field overruns the opaque data''))
           else if map_of found field_id \<noteq> None
           then Inl (GpuReportFormatError (us ''SPDM opaque field '' @ nat_str field_id @ us '' is repeated''))
           else opaque_loop report limit (pos + 4 + size) (AList.update field_id (slice (pos + 4) (pos + 4 + size) report) found))"
  by pat_completeness auto

termination opaque_loop
  by (relation "measure (\<lambda>(report, limit, pos, found). limit - pos)") auto

declare opaque_loop.simps [simp del]

definition parse_gpu_opaque_fields :: "bytes \<Rightarrow> (nat \<times> bytes) list result" where
  "parse_gpu_opaque_fields report =
     (if length report < GPU_SIG_LEN + SPDM_REQUEST_LEN + 8 \<or> report ! 1 \<noteq> 0xE0
      then Inl (GpuReportFormatError (us ''report is not an SPDM GET_MEASUREMENTS transcript''))
      else if report ! (SPDM_REQUEST_LEN + 1) \<noteq> 0x60
      then Inl (GpuReportFormatError (us ''report carries no SPDM MEASUREMENTS response''))
      else let limit = length report - GPU_SIG_LEN;
               record_len = le_nat (slice (SPDM_REQUEST_LEN + 5) (SPDM_REQUEST_LEN + 8) report);
               pos = SPDM_REQUEST_LEN + 8 + record_len + GPU_NONCE_LEN
        in if limit < pos + 2 then Inl (GpuReportFormatError (us ''SPDM measurement record overruns the report''))
           else let opaque_len = le_nat (slice pos (pos + 2) report)
             in if pos + 2 + opaque_len \<noteq> limit
                then Inl (GpuReportFormatError (us ''SPDM opaque data does not end at the signature''))
                else opaque_loop report limit (pos + 2) [])"

definition upper_hex :: "byte \<Rightarrow> pystr" where
  "upper_hex b = (let d = (\<lambda>n :: nat. if n < 10 then 48 + n else 55 + n) in [d (unat b div 16), d (unat b mod 16)])"

definition format_vbios :: "bytes \<Rightarrow> pystr result" where
  "format_vbios value =
     (if length value \<noteq> 8 then Inl (GpuReportFormatError (us ''VBIOS version field is not 8 bytes''))
      else Inr (join (us ''.'') (map upper_hex [value ! 3, value ! 2, value ! 1, value ! 0, value ! 4])))"

text \<open>Of the ASCII characters, \<open>isprintable\<close> accepts those from space to tilde.\<close>

definition format_driver :: "bytes \<Rightarrow> pystr result" where
  "format_driver value =
     (let txt = map unat (takeWhile (\<lambda>b. b \<noteq> 0) value)
      in if list_ex (\<lambda>c. c \<ge> 128) txt then Inl (GpuReportFormatError (us ''driver version field is not ASCII''))
         else if txt = [] \<or> list_ex (\<lambda>c. c < 32 \<or> 126 < c) txt \<or> 59 \<in> set txt \<or> 61 \<in> set txt
         then Inl (GpuReportFormatError (us ''driver version field is empty or malformed''))
         else Inr txt)"

definition arch_from_leaf :: "('c, 'x) gpu_pki_scheme \<Rightarrow> 'c \<Rightarrow> pystr result" where
  "arch_from_leaf pki leaf_cert =
     rbind (common_names pki leaf_cert) (\<lambda>names.
       let chip = (case names of [] \<Rightarrow> [] | n # _ \<Rightarrow> takeWhile (\<lambda>c. c \<noteq> 32) n)
       in if take 2 chip = us ''GH'' then Inr (us ''HOPPER'') else if take 2 chip = us ''GB'' then Inr (us ''BLACKWELL'')
          else Inl (GpuReportFormatError (us ''device certificate names a chip whose architecture is not known'')))"

definition opaque_field :: "(nat \<times> bytes) list \<Rightarrow> nat \<Rightarrow> bytes result" where
  "opaque_field found n =
     (case map_of found n of None \<Rightarrow> Inl (GpuReportFormatError (us ''signed report has no SPDM opaque field '' @ nat_str n)) | Some v \<Rightarrow> Inr v)"

definition gpu_measurement_from_report :: "('c, 'x) gpu_pki_scheme \<Rightarrow> bytes \<Rightarrow> 'c \<Rightarrow> pystr result" where
  "gpu_measurement_from_report pki report leaf_cert =
     rbind (parse_gpu_opaque_fields report) (\<lambda>found.
     rbind (rbind (opaque_field found 3) format_driver) (\<lambda>driver.
     rbind (rbind (opaque_field found 6) format_vbios) (\<lambda>vbios.
     rbind (arch_from_leaf pki leaf_cert) (\<lambda>arch.
     Inr (us ''nvidia-rim:arch='' @ arch @ us '';driver='' @ driver @ us '';vbios='' @ vbios)))))"

subsection \<open>The verifier\<close>

definition load_pem_certificates :: "('c, 'x) gpu_pki_scheme \<Rightarrow> bytes \<Rightarrow> 'c list result" where
  "load_pem_certificates pki data =
     (case load_pems pki data of
        Inl e \<Rightarrow> if is_ValueError e then Inl (ValueError (us ''provider certificate chain is not accepted X.509'')) else Inl e
      | Inr certificates \<Rightarrow>
          if list_ex (\<lambda>c. serial_number pki c \<le> 0) certificates
          then Inl (ValueError (us ''provider certificate serial number must be positive'')) else Inr certificates)"

text \<open>The evidence document: \<open>doc["report_b64"]\<close> and \<open>doc["cert_chain_pem"].encode()\<close>.\<close>

definition parse_gpu_evidence :: "('c, 'x) gpu_pki_scheme \<Rightarrow> pystr \<Rightarrow> (bytes \<times> 'c list) result" where
  "parse_gpu_evidence pki evidence_b64 =
     rbind (b64decode evidence_b64) (\<lambda>data.
     rbind (json_loads pki data) (\<lambda>doc.
     case doc of
       JDict d \<Rightarrow>
         rbind (case map_of d (us ''report_b64'') of
             None \<Rightarrow> Inl (KeyError (us ''report_b64''))
           | Some (JStr s) \<Rightarrow> b64decode s
           | Some _ \<Rightarrow> Inl (TypeError (us ''argument should be a bytes-like object or ASCII string''))) (\<lambda>report.
         rbind (case map_of d (us ''cert_chain_pem'') of
             None \<Rightarrow> Inl (KeyError (us ''cert_chain_pem''))
           | Some (JStr s) \<Rightarrow> utf8_encode s
           | Some _ \<Rightarrow> Inl (AttributeError (us ''encode''))) (\<lambda>pem.
         rbind (load_pem_certificates pki pem) (\<lambda>certs. Inr (report, certs))))
     | _ \<Rightarrow> Inl (TypeError (us ''indices must be integers''))))"

fun evidence_error :: "exn \<Rightarrow> bool" where
  "evidence_error (KeyError k) = True"
| "evidence_error (AttributeError a) = True"
| "evidence_error (OtherError n) = (n = us ''RecursionError'')"
| "evidence_error e = (is_ValueError e \<or> is_TypeError e)"

fun gpu_format_error :: "exn \<Rightarrow> bool" where
  "gpu_format_error (GpuReportFormatError m) = True"
| "gpu_format_error _ = False"

fun gpu_error_text :: "exn \<Rightarrow> pystr" where
  "gpu_error_text (GpuReportFormatError m) = m"
| "gpu_error_text _ = []"

definition gpu_verify ::
  "('c, 'x) gpu_pki_scheme \<Rightarrow> 'c list \<Rightarrow> pystr \<Rightarrow> pystr \<Rightarrow> time \<Rightarrow> quote_verification result" where
  "gpu_verify pki roots evidence_b64 expected_nonce now =
     (case parse_gpu_evidence pki evidence_b64 of
        Inl e \<Rightarrow> if evidence_error e then Inr (qv_fail (us ''unparseable GPU evidence: '' @ exn_text e)) else Inl e
      | Inr (report, []) \<Rightarrow> Inr (qv_fail (us ''GPU evidence carries no certificate chain''))
      | Inr (report, leaf # rest) \<Rightarrow>
     rbind (verify_cert_chain pki leaf rest roots now) (\<lambda>ce.
     case ce of Some msg \<Rightarrow> Inr (qv_fail msg) | None \<Rightarrow>
     (case verify_gpu_report_signature pki report leaf of
        Inl e \<Rightarrow>
          if gpu_format_error e then Inr (qv_fail (gpu_error_text e))
          else if is_InvalidSignature e then Inr (qv_fail (us ''GPU report signature does not verify under the leaf key''))
          else if is_ValueError e \<or> is_UnsupportedAlgorithm e then Inr (qv_fail (us ''GPU report signature verification failed: '' @
            (if is_ValueError e then us ''ValueError'' else us ''UnsupportedAlgorithm'')))
          else Inl e
      | Inr _ \<Rightarrow>
     (case bytes_fromhex expected_nonce of
        None \<Rightarrow> Inr (qv_fail (us ''expected_nonce is not valid hex''))
      | Some expected \<Rightarrow>
          if slice NVIDIA_NONCE_OFFSET (NVIDIA_NONCE_OFFSET + GPU_NONCE_LEN) report \<noteq> expected
          then Inr (qv_fail (us ''GPU report does not bind the challenge nonce (raw nonce mismatch)''))
          else
            rbind (case gpu_measurement_from_report pki report leaf of
                Inr m \<Rightarrow> Inr (Some m)
              | Inl e \<Rightarrow> if gpu_format_error e then Inr None else Inl e) (\<lambda>measurement.
            rbind (subject pki leaf) (\<lambda>s.
            Inr \<lparr>qv_verified = True, qv_reason = None, qv_leaf_subject = Some s, qv_snp_report = None,
                 qv_gpu_measurement = measurement\<rparr>))))))"

definition build_gpu_verifier ::
  "('c, 'x) gpu_pki_scheme \<Rightarrow> pystr \<Rightarrow> (pystr \<Rightarrow> pystr \<Rightarrow> time \<Rightarrow> quote_verification result) result" where
  "build_gpu_verifier pki device_root_pem =
     rbind (utf8_encode device_root_pem) (\<lambda>data.
     rbind (load_pem_certificate pki False data) (\<lambda>root_cert. Inr (gpu_verify pki [root_cert])))"

subsection \<open>Only signed bytes are read\<close>

lemma opaque_loop_take: "limit \<le> n \<Longrightarrow> opaque_loop (take n report) limit pos found = opaque_loop report limit pos found"
proof (induction report limit pos found rule: opaque_loop.induct)
  case (1 report limit pos found)
  let ?size = "le_nat (slice (pos + 2) (pos + 4) report)"
  show ?case
  proof (cases "pos + 4 \<le> limit \<and> pos + 4 + ?size \<le> limit \<and> map_of found (le_nat (slice pos (pos + 2) report)) = None")
    case True
    have "opaque_loop (take n report) limit (pos + 4 + ?size) (AList.update (le_nat (slice pos (pos + 2) report)) (slice (pos + 4) (pos + 4 + ?size) report) found) =
        opaque_loop report limit (pos + 4 + ?size) (AList.update (le_nat (slice pos (pos + 2) report)) (slice (pos + 4) (pos + 4 + ?size) report) found)"
      using True 1(2) by (intro 1(1) [OF _ _ refl refl]) auto
    then show ?thesis
      using True 1(2) by (subst (1 2) opaque_loop.simps) (simp add: slice_take Let_def)
  next
    case False
    then show ?thesis
      using 1(2) by (subst (1 2) opaque_loop.simps) (auto simp: slice_take Let_def)
  qed
qed

lemma gpu_fields_signed:
  assumes "GPU_SIG_LEN \<le> length report" and "length other = length report"
    and "take (length report - GPU_SIG_LEN) other = take (length report - GPU_SIG_LEN) report"
  shows "parse_gpu_opaque_fields other = parse_gpu_opaque_fields report"
proof -
  let ?n = "length report - GPU_SIG_LEN"
  have sl: "slice a b other = slice a b report" if "b \<le> ?n" for a b using slice_take [OF that, of a] assms(3) by metis
  have nt: "other ! i = report ! i" if "i < ?n" for i using that assms(3) by (metis nth_take)
  have lp: "opaque_loop other ?n pos f = opaque_loop report ?n pos f" for pos f
    using opaque_loop_take [of ?n ?n other pos f] opaque_loop_take [of ?n ?n report pos f] assms(3) by simp
  show ?thesis
  proof (cases "length report < GPU_SIG_LEN + SPDM_REQUEST_LEN + 8")
    case False
    then have "SPDM_REQUEST_LEN + 8 \<le> ?n" by simp
    then have "other ! 1 = report ! 1" "other ! (SPDM_REQUEST_LEN + 1) = report ! (SPDM_REQUEST_LEN + 1)"
      "slice (SPDM_REQUEST_LEN + 5) (SPDM_REQUEST_LEN + 8) other = slice (SPDM_REQUEST_LEN + 5) (SPDM_REQUEST_LEN + 8) report"
      by (auto intro!: nt sl simp: gpu_consts)
    then show ?thesis
      using sl lp assms(2) by (auto simp: parse_gpu_opaque_fields_def Let_def not_less)
  qed (simp add: parse_gpu_opaque_fields_def assms(2))
qed

lemma gpu_measurement_signed:
  assumes "parse_gpu_report report = Inr a" and "parse_gpu_report other = Inr b" and "ga_signed_body a = ga_signed_body b"
  shows "gpu_measurement_from_report pki other leaf = gpu_measurement_from_report pki report leaf"
proof -
  have l: "GPU_SIG_LEN < length report" "GPU_SIG_LEN < length other"
    and t: "take (length report - GPU_SIG_LEN) report = take (length other - GPU_SIG_LEN) other"
    using assms by (auto simp: parse_gpu_report_def gpu_consts split: if_split_asm)
  have "length other = length report" using arg_cong [OF t, of length] l by simp
  with t l show ?thesis using gpu_fields_signed [of report other] by (simp add: gpu_measurement_from_report_def)
qed

text \<open>
  C22 (GPU reports). When the verifier accepts GPU evidence, the evidence parsed to a report and a
  chain whose leaf has a path to a trusted device root at that time; the leaf's elliptic-curve key
  signs everything but the last 96 bytes; the challenge nonce stands raw at offset 4; and the
  measurement, if one is stated, is the one read from the report and the same for every report
  with the same signed bytes, so nothing outside the signature can change what the release gate
  compares with its pin.
\<close>

theorem verified_gpu_report_is_bound:
  assumes "gpu_verify pki roots evidence_b64 nonce now = Inr v" and "qv_verified v"
  shows "\<exists>report leaf rest a n. parse_gpu_evidence pki evidence_b64 = Inr (report, leaf # rest) \<and>
    trusted_path pki roots now 0 (leaf # rest) \<and>
    parse_gpu_report report = Inr a \<and> report = ga_signed_body a @ ga_signature a \<and> length (ga_signature a) = 96 \<and>
    report_verify pki leaf ECDSA_SHA384 (encode_dss_signature pki (be_int (take 48 (ga_signature a))) (be_int (drop 48 (ga_signature a))))
      (ga_signed_body a) = None \<and>
    bytes_fromhex nonce = Some n \<and> ga_raw_nonce a = n \<and> length n = 32 \<and>
    (\<forall>m. qv_gpu_measurement v = Some m \<longrightarrow> (\<forall>other b. parse_gpu_report other = Inr b \<and> ga_signed_body b = ga_signed_body a \<longrightarrow>
       gpu_measurement_from_report pki other leaf = Inr m))"
proof -
  obtain report leaf rest where e: "parse_gpu_evidence pki evidence_b64 = Inr (report, leaf # rest)"
    using assms by (auto simp: gpu_verify_def split: sum.split_asm list.split_asm if_split_asm)
  have c: "verify_cert_chain pki leaf rest roots now = Inr None"
    using assms e by (cases "verify_cert_chain pki leaf rest roots now") (auto simp: gpu_verify_def split: option.split_asm)
  have sg: "verify_gpu_report_signature pki report leaf = Inr ()"
    using assms e c by (cases "verify_gpu_report_signature pki report leaf") (auto simp: gpu_verify_def split: if_split_asm)
  obtain n where n: "bytes_fromhex nonce = Some n" using assms e c sg by (cases "bytes_fromhex nonce") (auto simp: gpu_verify_def)
  have nn: "slice NVIDIA_NONCE_OFFSET (NVIDIA_NONCE_OFFSET + GPU_NONCE_LEN) report = n"
    using assms e c sg n by (auto simp: gpu_verify_def split: if_split_asm)
  have m: "gpu_measurement_from_report pki report leaf = Inr m" if "qv_gpu_measurement v = Some m" for m
    using assms e c sg n nn that by (cases "gpu_measurement_from_report pki report leaf") (auto simp: gpu_verify_def rbind_Inr_iff split: if_split_asm)
  obtain a where a: "parse_gpu_report report = Inr a" using sg by (auto simp: verify_gpu_report_signature_def rbind_Inr_iff)
  then have f: "report = ga_signed_body a @ ga_signature a" "length (ga_signature a) = 96" "ga_raw_nonce a = n" "length n = 32"
    using nn by (auto simp: parse_gpu_report_def gpu_consts length_slice split: if_split_asm)
  have "report_verify pki leaf ECDSA_SHA384 (encode_dss_signature pki (be_int (take 48 (ga_signature a))) (be_int (drop 48 (ga_signature a))))
      (ga_signed_body a) = None"
    using sg a by (auto simp: verify_gpu_report_signature_def rbind_Inr_iff Let_def split: if_split_asm option.split_asm)
  moreover have "gpu_measurement_from_report pki other leaf = Inr m"
    if "qv_gpu_measurement v = Some m" "parse_gpu_report other = Inr b" "ga_signed_body b = ga_signed_body a" for m other b
    unfolding gpu_measurement_signed [OF a that(2) that(3) [symmetric]] by (rule m [OF that(1)])
  ultimately show ?thesis using e a f n verify_cert_chain_sound [OF c] by blast
qed

subsection \<open>The field parser reads back what is written\<close>

definition opaque_bytes :: "(nat \<times> bytes) list \<Rightarrow> bytes" where
  "opaque_bytes fs = concat (map (\<lambda>(n, v). int_le 2 (int n) @ int_le 2 (int (length v)) @ v) fs)"

lemma le_nat_int_le: "n < 256 ^ w \<Longrightarrow> le_nat (int_le w (int n)) = n"
  using le_int_int_le [of "int n" w] by (simp add: le_nat_def)

lemma slice_at: "xs = a @ b @ c \<Longrightarrow> length a = i \<Longrightarrow> length a + length b = j \<Longrightarrow> slice i j xs = b"
  by (auto simp: slice_def)

lemma opaque_loop_bytes:
  assumes "\<forall>(n, v) \<in> set fs. n < 65536 \<and> length v < 65536" and "distinct (map fst (found @ fs))"
    and "report = pre @ opaque_bytes fs @ post" and "limit = length pre + length (opaque_bytes fs)" and "pos = length pre"
  shows "opaque_loop report limit pos found = Inr (found @ fs)"
  using assms
proof (induction fs arbitrary: pre found pos)
  case Nil
  then show ?case by (simp add: opaque_loop.simps opaque_bytes_def)
next
  case (Cons f fs)
  obtain n v where f: "f = (n, v)" by force
  let ?i = "int_le 2 (int n)" and ?l = "int_le 2 (int (length v))"
  let ?r = "pre @ opaque_bytes (f # fs) @ post"
  have ob: "opaque_bytes (f # fs) = ?i @ ?l @ v @ opaque_bytes fs" by (simp add: opaque_bytes_def f)
  have s1: "slice (length pre) (length pre + 2) ?r = ?i" by (rule slice_at [of _ pre]) (simp_all add: ob)
  have s2: "slice (length pre + 2) (length pre + 4) ?r = ?l" by (rule slice_at [of _ "pre @ ?i"]) (simp_all add: ob)
  have s3: "slice (length pre + 4) (length pre + 4 + length v) ?r = v" by (rule slice_at [of _ "pre @ ?i @ ?l"]) (simp_all add: ob)
  have nat: "le_nat ?i = n" "le_nat ?l = length v" using Cons.prems(1) f by (auto intro!: le_nat_int_le)
  have fresh: "map_of found n = None" using Cons.prems(2) f by (auto simp: map_of_eq_None_iff)
  have "opaque_loop report limit pos found = opaque_loop report limit (pos + 4 + length v) (found @ [(n, v)])"
    using s1 s2 s3 nat fresh Cons.prems(3-5) by (subst opaque_loop.simps) (simp add: Let_def update_fresh ob)
  also have "\<dots> = Inr ((found @ [(n, v)]) @ fs)"
    by (rule Cons.IH [of _ "pre @ ?i @ ?l @ v"]) (use Cons.prems in \<open>simp_all add: f ob [unfolded f]\<close>)
  also have "\<dots> = Inr (found @ f # fs)" by (simp add: f)
  finally show ?case .
qed

text \<open>
  The parser of the SPDM transcript is complete: every transcript laid out as
  request header, nonce, slot, response header, measurement record, responder nonce, opaque data
  with distinct field numbers and signature is read back to exactly the fields that were written.
\<close>

theorem opaque_fields_roundtrip:
  assumes "length req = 35" and "length rsp = 3" and "length rec < 256 ^ 3" and "length rnonce = 32" and "length sig = 96"
    and "\<forall>(n, v) \<in> set fs. n < 65536 \<and> length v < 65536" and "distinct (map fst fs)" and "length (opaque_bytes fs) < 65536"
  shows "parse_gpu_opaque_fields ([version, 0xE0] @ req @ [rversion, 0x60] @ rsp @ int_le 3 (int (length rec)) @ rec @ rnonce @
    int_le 2 (int (length (opaque_bytes fs))) @ opaque_bytes fs @ sig) = Inr fs"
proof -
  let ?hd = "[version, 0xE0] @ req @ [rversion, 0x60] @ rsp"
  let ?n = "int_le 3 (int (length rec))" and ?o = "int_le 2 (int (length (opaque_bytes fs)))"
  define pre where "pre = ?hd @ ?n @ rec @ rnonce @ ?o"
  define r where "r = pre @ opaque_bytes fs @ sig"
  have len: "length ?hd = 42" "length pre = 79 + length rec" using assms(1,2,4) by (simp_all add: pre_def)
  have s1: "slice 42 45 r = ?n" by (rule slice_at [of _ ?hd]) (use len in \<open>simp_all add: r_def pre_def\<close>)
  have s2: "slice (77 + length rec) (79 + length rec) r = ?o"
    by (rule slice_at [of _ "?hd @ ?n @ rec @ rnonce"]) (use assms(1,2,4) in \<open>simp_all add: r_def pre_def\<close>)
  have v: "le_nat ?n = length rec" "le_nat ?o = length (opaque_bytes fs)" using assms(3,8) by (auto intro!: le_nat_int_le)
  have lr: "length r = 79 + length rec + length (opaque_bytes fs) + 96" using assms(5) len(2) by (simp add: r_def)
  have b: "r ! 1 = 0xE0" "r ! 38 = 0x60" using assms(1) by (simp_all add: r_def pre_def nth_append)
  have "opaque_loop r (79 + length rec + length (opaque_bytes fs)) (79 + length rec) [] = Inr ([] @ fs)"
    by (rule opaque_loop_bytes [OF assms(6) _ r_def]) (use assms(7) len(2) in simp_all)
  then have "parse_gpu_opaque_fields r = Inr fs"
    using s1 s2 v lr b by (simp add: parse_gpu_opaque_fields_def Let_def gpu_consts add.assoc)
  then show ?thesis by (simp add: r_def pre_def)
qed

subsection \<open>A GPU report\<close>

definition demo_gpu_fields :: "(nat \<times> bytes) list" where
  "demo_gpu_fields = [(3, [53, 53, 48]), (6, [1, 2, 3, 4, 5, 0, 0, 0])]"

lemma demo_opaque: "length (opaque_bytes demo_gpu_fields) = 19"
  by (simp add: opaque_bytes_def demo_gpu_fields_def)

definition demo_gpu_report :: bytes where
  "demo_gpu_report = [0x11, 0xE0] @ replicate 35 0 @ [0x11, 0x60] @ replicate 3 0 @ int_le 3 (int (length ([] :: bytes))) @ [] @ replicate 32 0 @
     int_le 2 (int (length (opaque_bytes demo_gpu_fields))) @ opaque_bytes demo_gpu_fields @ replicate 96 0"

theorem opaque_fields_roundtrip_witness:
  "parse_gpu_opaque_fields demo_gpu_report = Inr demo_gpu_fields"
  unfolding demo_gpu_report_def
  by (rule opaque_fields_roundtrip) (simp_all add: demo_opaque, simp_all add: demo_gpu_fields_def)

definition demo_gpu_pki :: "nat gpu_pki" where
  "demo_gpu_pki = pki.extend (demo_pki\<lparr>json_loads := (\<lambda>_. Inr (JDict [(us ''report_b64'', JStr (concat (replicate 50 (us ''AAAA'')))),
       (us ''cert_chain_pem'', JStr (us ''pem''))]))\<rparr>)
     \<lparr>load_pems = (\<lambda>_. Inr [1, 2]), common_names = (\<lambda>_. Inr [us ''GH100 A01 GSP FMC LF''])\<rparr>"

lemma demo_gpu_pki_simps [simp]:
  "validity demo_gpu_pki c = Inr (0, 100)" "public_key demo_gpu_pki c = Inr (EC True)" "cert_verify demo_gpu_pki a b = None"
  "report_verify demo_gpu_pki a p s m = None" "basic_constraints demo_gpu_pki c = Inr (Some (True, None))" "key_cert_sign demo_gpu_pki c = Inr None"
  "subject demo_gpu_pki c = Inr []" "serial_number demo_gpu_pki c = 1" "load_pems demo_gpu_pki d = Inr [1, 2]"
  "json_loads demo_gpu_pki d = Inr (JDict [(us ''report_b64'', JStr (concat (replicate 50 (us ''AAAA'')))), (us ''cert_chain_pem'', JStr (us ''pem''))])"
  by (simp_all add: demo_gpu_pki_def pki.defs demo_pki_def)

theorem verified_gpu_report_is_bound_witness:
  "\<exists>a. parse_gpu_report (replicate 150 0) = Inr a \<and> ga_raw_nonce a = replicate 32 0 \<and>
     report_verify demo_gpu_pki 1 ECDSA_SHA384 (encode_dss_signature demo_gpu_pki (be_int (take 48 (ga_signature a))) (be_int (drop 48 (ga_signature a))))
       (ga_signed_body a) = None"
proof -
  have z: "a2b_base64 0 0 0 (concat (replicate n (us ''AAAA''))) = Some (replicate (3 * n) 0)" for n
    by (induction n) (simp_all add: us_def std64_val_def numeral_3_eq_3)
  have "\<not> list_ex (\<lambda>c. c \<ge> 128) (concat (replicate n (us ''AAAA'')))" for n by (induction n) (simp_all add: us_def)
  then have d: "b64decode (concat (replicate 50 (us ''AAAA''))) = Inr (replicate 150 0)" by (simp add: b64decode_def z)
  have b64_nil: "b64decode [] = Inr []" by (simp add: b64decode_def)
  have h: "hex_of_bytes (replicate 32 0) = replicate 64 48"
  proof -
    have "hex_of_bytes (replicate n 0) = replicate (2 * n) 48" for n
      by (induction n) (simp_all add: hex_of_bytes_def hex_byte_def hex_digit_def)
    from this [of 32] show ?thesis by simp
  qed
  have e: "parse_gpu_evidence demo_gpu_pki [] = Inr (replicate 150 0, [1, 2])"
    using d by (simp add: parse_gpu_evidence_def load_pem_certificates_def utf8_encode_def b64_nil)
  have c: "verify_cert_chain demo_gpu_pki 1 [2] [7] 5 = Inr None"
    by (simp add: verify_cert_chain_def chain_error_def valid_at_def signed_by_def pubkey_verify_def may_issue_def Let_def)
  have s: "verify_gpu_report_signature demo_gpu_pki (replicate 150 0) 1 = Inr ()"
    by (simp add: verify_gpu_report_signature_def parse_gpu_report_def gpu_consts Let_def)
  have m: "gpu_measurement_from_report demo_gpu_pki (replicate 150 0) 1 =
      Inl (GpuReportFormatError (us ''report is not an SPDM GET_MEASUREMENTS transcript''))"
    by (simp add: gpu_measurement_from_report_def parse_gpu_opaque_fields_def gpu_consts)
  have "gpu_verify demo_gpu_pki [7] [] (replicate 64 48) 5 = Inr \<lparr>qv_verified = True, qv_reason = None, qv_leaf_subject = Some [],
      qv_snp_report = None, qv_gpu_measurement = None\<rparr>"
    using e c s m bytes_fromhex_hex [of "replicate 32 0", unfolded h]
    by (simp add: gpu_verify_def gpu_consts slice_def)
  from verified_gpu_report_is_bound [OF this] e bytes_fromhex_hex [of "replicate 32 0", unfolded h]
  show ?thesis by auto
qed

end
