(* ===== verification/Receiver.thy ===== *)
theory Receiver
  imports Provisioning Nvidia Kbs
begin

section \<open>The broker receiver (\<open>broker_receiver.py\<close>)\<close>

text \<open>
  The broker that is provisioned once inside its measured image: its effective configuration and
  the digest the owner approves, the verifier for native SNP workloads, and the life cycle from
  boot through the report request and the installation of the key to release and retirement.
  The transport key, the renewal key and the clock are arguments. The main results: a key is
  installed at most once and only from an envelope that the owner signed for this boot, this
  request and this policy; a released key is the owner's model key, sealed to an attested workload;
  and a retired receiver answers nothing.
\<close>

subsection \<open>Effective configuration\<close>

record 'c broker_pki = "'c gpu_pki" +
  load_der :: "bytes \<Rightarrow> 'c result"
  der_of :: "'c \<Rightarrow> bytes"
  pem_of :: "'c \<Rightarrow> pystr"

record effective_configuration =
  ec_cpu_root_der :: bytes
  ec_cpu_vcek_der :: bytes
  ec_cpu_intermediate_ders :: "bytes list"
  ec_trusted_manifest_identities :: "pystr set"
  ec_owner_public_key :: bytes
  ec_gpu_root_der :: "bytes option"

definition normal_der :: "('c, 'x) broker_pki_scheme \<Rightarrow> bytes \<Rightarrow> bytes result" where
  "normal_der pki value = rbind (load_der pki value) (\<lambda>cert. Inr (der_of pki cert))"

definition identity_pattern :: "pystr \<Rightarrow> bool" where
  "identity_pattern s \<longleftrightarrow> take 7 s = us ''sha256:'' \<and> hex_pattern 64 (drop 7 s)"

definition new_configuration ::
  "('x) crypto_scheme \<Rightarrow> ('c, 'y) broker_pki_scheme \<Rightarrow> effective_configuration \<Rightarrow> effective_configuration result" where
  "new_configuration cr pki c =
     rbind (normal_der pki (ec_cpu_root_der c)) (\<lambda>root_der.
     rbind (normal_der pki (ec_cpu_vcek_der c)) (\<lambda>vcek_der.
     rbind (case ec_gpu_root_der c of None \<Rightarrow> Inr None | Some d \<Rightarrow> rbind (normal_der pki d) (\<lambda>x. Inr (Some x))) (\<lambda>gpu_der.
     rbind (rmap (normal_der pki) (ec_cpu_intermediate_ders c)) (\<lambda>inters.
     if ec_trusted_manifest_identities c = {} \<or> (\<exists>v \<in> ec_trusted_manifest_identities c. \<not> identity_pattern v)
     then Inl (ValueError (us ''an exact nonempty manifest identity allowlist is required''))
     else rbind (raise_if (\<not> ed_load cr (ec_owner_public_key c)) (ValueError (us ''invalid public key''))) (\<lambda>_.
       Inr (c\<lparr>ec_cpu_root_der := root_der, ec_cpu_vcek_der := vcek_der, ec_gpu_root_der := gpu_der,
              ec_cpu_intermediate_ders := inters\<rparr>))))))"

definition configuration_value :: "effective_configuration \<Rightarrow> json" where
  "configuration_value c = JDict
     [(us ''profile'', JStr (us ''wcm/native-snp-broker-receiver/v1'')),
      (us ''cpu_verifier'', JStr (us ''native-snp-sha256-launch/v1'')),
      (us ''workload_vmpl'', JInt 0), (us ''workload_debug_allowed'', JBool False),
      (us ''cpu_root_der'', JStr (hex_of_bytes (ec_cpu_root_der c))),
      (us ''cpu_vcek_der'', JStr (hex_of_bytes (ec_cpu_vcek_der c))),
      (us ''cpu_intermediate_ders'', JList (map (JStr \<circ> hex_of_bytes) (ec_cpu_intermediate_ders c))),
      (us ''gpu_root_der'', case ec_gpu_root_der c of None \<Rightarrow> JNull | Some d \<Rightarrow> JStr (hex_of_bytes d)),
      (us ''trusted_manifest_identities'', JList (map JStr (sorted_list_of_set (ec_trusted_manifest_identities c)))),
      (us ''owner_public_key'', JStr (hex_of_bytes (ec_owner_public_key c))),
      (us ''require_channel_binding'', JBool True), (us ''require_cpu_quote_verification'', JBool True),
      (us ''require_gpu_report_verification'', JBool True), (us ''allow_legacy_memory_fingerprint'', JBool False),
      (us ''clock'', JStr (us ''system-utc'')), (us ''challenge_ttl_seconds'', JInt 300),
      (us ''max_attestation_cache_age_seconds'', JInt 600), (us ''renewal_decision_ttl_seconds'', JInt 60),
      (us ''provisioning_request_ttl_seconds'', JInt 60)]"

definition configuration_digest :: "('x) crypto_scheme \<Rightarrow> effective_configuration \<Rightarrow> pystr result" where
  "configuration_digest cr c = rbind (dumps_bytes (frepr cr) (configuration_value c)) (\<lambda>b. Inr (hex_of_bytes (sha256 cr b)))"

subsection \<open>The workload verifier\<close>

definition native_verify ::
  "('x) crypto_scheme \<Rightarrow> ('c, 'y) pki_scheme \<Rightarrow> 'c \<Rightarrow> 'c \<Rightarrow> 'c list \<Rightarrow> cpu_verifier" where
  "native_verify cr pki trusted_root vcek inters quote_b64 expected_nonce channel_binding expected_workload_measurement now =
     (case b64decode_validate quote_b64 of
        Inl e \<Rightarrow> if is_ValueError e then Inr (qv_fail (us ''invalid native SNP quote encoding'')) else Inl e
      | Inr raw \<Rightarrow>
          rbind (quote_verify cr pki \<lparr>ve_parse = snp_quote_parse pki vcek inters, ve_roots = [trusted_root],
                   ve_require_launch_measurement = False\<rparr> (b64encode raw) expected_nonce channel_binding None now) (\<lambda>result.
          if \<not> qv_verified result then Inr result
          else rbind (parse_snp_report raw) (\<lambda>report.
            if sr_version report < 2 \<or> Some (prefixed_sha256 cr (sr_measurement report)) \<noteq> expected_workload_measurement
            then Inr (qv_fail (us ''signed workload launch measurement mismatch''))
            else if bit (sr_policy report) 19 then Inr (qv_fail (us ''debug-enabled workload is forbidden''))
            else if sr_vmpl report \<noteq> 0 then Inr (qv_fail (us ''workload report must be at VMPL 0''))
            else Inr result)))"

subsection \<open>The life cycle\<close>

record receiver =
  rc_configuration :: effective_configuration
  rc_policy :: broker_policy
  rc_public :: pystr
  rc_private :: "bytes option"
  rc_pending :: "challenge option"
  rc_seen :: "pystr list"
  rc_kbs :: "kbs option"
  rc_retired :: bool

definition new_receiver ::
  "('x) env_scheme \<Rightarrow> bytes \<Rightarrow> effective_configuration \<Rightarrow> broker_policy \<Rightarrow> receiver result" where
  "new_receiver env priv config policy =
     rbind (configuration_digest env config) (\<lambda>digest.
       if digest \<noteq> bp_configuration_sha256 policy
       then Inl (ValueError (us ''effective broker configuration does not match owner policy''))
       else Inr \<lparr>rc_configuration = config, rc_policy = policy,
                 rc_public = snd (generate_transport_keypair env priv), rc_private = Some priv, rc_pending = None,
                 rc_seen = [], rc_kbs = None, rc_retired = False\<rparr>)"

definition provisioning_report_data ::
  "('x) env_scheme \<Rightarrow> time \<Rightarrow> challenge \<Rightarrow> receiver \<Rightarrow> bytes result \<times> receiver" where
  "provisioning_report_data env now c rc =
     (if rc_retired rc \<or> rc_kbs rc \<noteq> None then (Inl (RuntimeError (us ''broker is not awaiting provisioning'')), rc)
      else case bytes_fromhex (ch_nonce c) of
        None \<Rightarrow> (Inl (ValueError (us ''non-hexadecimal number found in fromhex() arg'')), rc)
      | Some n \<Rightarrow>
          if length n \<noteq> 32 \<or> hex_of_bytes n \<noteq> ch_nonce c
          then (Inl (ValueError (us ''owner challenge must be a 32-byte nonce'')), rc)
          else if now > ch_expires_at c then (Inl (ValueError (us ''owner challenge expired'')), rc)
          else if ch_nonce c \<in> set (rc_seen rc)
          then (Inl (ValueError (us ''owner challenge already requested during this boot'')), rc)
          else let rc = rc\<lparr>rc_seen := ch_nonce c # rc_seen rc\<rparr>
            in case time_add now 60 of
                 Inl e \<Rightarrow> (Inl e, rc)
               | Inr bound \<Rightarrow>
                   let rc = rc\<lparr>rc_pending := Some \<lparr>ch_nonce = ch_nonce c, ch_issued_at = now, ch_expires_at = min (ch_expires_at c) bound\<rparr>\<rparr>
                   in (rbind (provisioning_binding env (rc_policy rc) (rc_public rc)) (\<lambda>binding.
                         Inr (sha256 env (n @ binding) @ replicate 32 0)), rc))"

definition broker_kbs ::
  "('x) env_scheme \<Rightarrow> ('c, 'y) broker_pki_scheme \<Rightarrow> bytes \<Rightarrow> effective_configuration \<Rightarrow> broker_policy \<Rightarrow> bytes \<Rightarrow> kbs result" where
  "broker_kbs env pki renewal_key c policy key =
     rbind (load_der pki (ec_cpu_root_der c)) (\<lambda>root_cert.
     rbind (load_der pki (ec_cpu_vcek_der c)) (\<lambda>vcek.
     rbind (rmap (load_der pki) (ec_cpu_intermediate_ders c)) (\<lambda>inters.
     rbind (case ec_gpu_root_der c of
         None \<Rightarrow> Inr None
       | Some d \<Rightarrow> rbind (load_der pki d) (\<lambda>g. rbind (build_gpu_verifier pki (pem_of pki g)) (\<lambda>v. Inr (Some v)))) (\<lambda>gpu.
     new_kbs \<lparr>kb_keystore = [(bp_weights_hash policy, key)], kb_challenges = new_store 300, kb_revoked = [], kb_max_cache = 600,
       kb_gpu_revocation = None, kb_cpu_quote_verifier = Some (native_verify env pki root_cert vcek inters),
       kb_gpu_report_verifier = gpu, kb_require_channel_binding = True, kb_require_cpu_quote_verification = True,
       kb_require_gpu_report_verification = True, kb_renewal_signing_key = renewal_key, kb_renewal_ttl = 60,
       kb_memory_fingerprint_public_key = None, kb_allow_legacy_memory_fingerprint = False,
       kb_trusted_manifest_identities = sorted_list_of_set (ec_trusted_manifest_identities c),
       kb_allowed_platform_instances = None\<rparr> 300 None))))"

text \<open>The part of \<open>install\<close> between the checks of the request and the change of state.\<close>

definition install_kbs ::
  "('x) env_scheme \<Rightarrow> ('c, 'y) broker_pki_scheme \<Rightarrow> bytes \<Rightarrow> provisioning_envelope \<Rightarrow> effective_configuration \<Rightarrow> broker_policy \<Rightarrow> bytes \<Rightarrow> kbs result" where
  "install_kbs env pki renewal_key envelope config policy priv =
     rbind (raise_if (\<not> ed_load env (ec_owner_public_key config)) (ValueError (us ''invalid public key''))) (\<lambda>_.
     rbind (open_provisioned_key env envelope policy priv (ec_owner_public_key config)) (\<lambda>key.
     rbind (raise_if (length key \<notin> {16, 24, 32}) (ValueError (us ''provisioned key must have an AES key length''))) (\<lambda>_.
     broker_kbs env pki renewal_key config policy key)))"

definition install ::
  "('x) env_scheme \<Rightarrow> ('c, 'y) broker_pki_scheme \<Rightarrow> time \<Rightarrow> bytes \<Rightarrow> provisioning_envelope \<Rightarrow> receiver \<Rightarrow> unit result \<times> receiver" where
  "install env pki now renewal_key envelope rc =
     (case rc_pending rc of
        None \<Rightarrow> (Inl (RuntimeError (us ''broker is not awaiting a provisioning envelope'')), rc)
      | Some pending \<Rightarrow>
          if rc_retired rc \<or> rc_kbs rc \<noteq> None
          then (Inl (RuntimeError (us ''broker is not awaiting a provisioning envelope'')), rc)
          else let rc = rc\<lparr>rc_pending := None\<rparr>
            in if pe_nonce envelope \<noteq> ch_nonce pending \<or> now > ch_expires_at pending
               then (Inl (ValueError (us ''provisioning envelope is stale or for another request'')), rc)
               else case rc_private rc of
                 None \<Rightarrow> (Inl (RuntimeError (us ''broker provisioning key is unavailable'')), rc)
               | Some priv \<Rightarrow>
                   (case install_kbs env pki renewal_key envelope (rc_configuration rc) (rc_policy rc) priv of
                      Inl e \<Rightarrow> (Inl e, rc)
                    | Inr k \<Rightarrow> (Inr (), rc\<lparr>rc_kbs := Some k, rc_private := None\<rparr>)))"

definition not_ready :: exn where
  "not_ready = RuntimeError (us ''broker is not provisioned or has retired'')"

definition rc_issue_challenge :: "time \<Rightarrow> pystr \<Rightarrow> receiver \<Rightarrow> challenge result \<times> receiver" where
  "rc_issue_challenge now token rc =
     (if rc_retired rc then (Inl not_ready, rc)
      else case rc_kbs rc of
        None \<Rightarrow> (Inl not_ready, rc)
      | Some k \<Rightarrow> (case issue_challenge now token k of (c, k') \<Rightarrow> (Inr c, rc\<lparr>rc_kbs := Some k'\<rparr>)))"

definition rc_verify_and_release ::
  "('x) env_scheme \<Rightarrow> 'c ocsp_lib \<Rightarrow> kbs_io \<Rightarrow> manifest \<Rightarrow> composite_evidence \<Rightarrow> receiver \<Rightarrow> release_decision result \<times> receiver" where
  "rc_verify_and_release env lib io m ev rc =
     (if rc_retired rc then (Inl not_ready, rc)
      else case rc_kbs rc of
        None \<Rightarrow> (Inl not_ready, rc)
      | Some k \<Rightarrow> (case verify_and_release env lib io m ev False k of (r, k') \<Rightarrow> (r, rc\<lparr>rc_kbs := Some k'\<rparr>)))"

definition retire :: "receiver \<Rightarrow> receiver" where
  "retire rc = rc\<lparr>rc_retired := True, rc_pending := None, rc_private := None, rc_kbs := None\<rparr>"

subsection \<open>Sequences of calls\<close>

datatype rc_op =
    Report_Op time challenge
  | Install_Op time bytes provisioning_envelope
  | Nonce_Op time pystr
  | Serve_Op kbs_io manifest composite_evidence
  | Retire_Op

fun rc_step ::
  "('x) env_scheme \<Rightarrow> ('c, 'y) broker_pki_scheme \<Rightarrow> 'd ocsp_lib \<Rightarrow> rc_op \<Rightarrow> receiver \<Rightarrow> receiver" where
  "rc_step env pki lib (Report_Op now c) rc = snd (provisioning_report_data env now c rc)"
| "rc_step env pki lib (Install_Op now rk e) rc = snd (install env pki now rk e rc)"
| "rc_step env pki lib (Nonce_Op now tok) rc = snd (rc_issue_challenge now tok rc)"
| "rc_step env pki lib (Serve_Op io m ev) rc = snd (rc_verify_and_release env lib io m ev rc)"
| "rc_step env pki lib Retire_Op rc = retire rc"

text \<open>Whether a call is an installation that succeeds.\<close>

fun installs :: "('x) env_scheme \<Rightarrow> ('c, 'y) broker_pki_scheme \<Rightarrow> rc_op \<Rightarrow> receiver \<Rightarrow> bool" where
  "installs env pki (Install_Op now rk e) rc \<longleftrightarrow> fst (install env pki now rk e rc) = Inr ()"
| "installs env pki _ rc = False"

fun install_count :: "('x) env_scheme \<Rightarrow> ('c, 'y) broker_pki_scheme \<Rightarrow> 'd ocsp_lib \<Rightarrow> rc_op list \<Rightarrow> receiver \<Rightarrow> nat" where
  "install_count env pki lib [] rc = 0"
| "install_count env pki lib (x # xs) rc = (if installs env pki x rc then 1 else 0) + install_count env pki lib xs (rc_step env pki lib x rc)"

definition rc_run :: "('x) env_scheme \<Rightarrow> ('c, 'y) broker_pki_scheme \<Rightarrow> 'd ocsp_lib \<Rightarrow> rc_op list \<Rightarrow> receiver \<Rightarrow> receiver" where
  "rc_run env pki lib ops rc = fold (rc_step env pki lib) ops rc"

text \<open>The state invariant of the life cycle.\<close>

definition rc_inv :: "receiver \<Rightarrow> bool" where
  "rc_inv rc \<longleftrightarrow> (rc_retired rc \<longrightarrow> rc_kbs rc = None \<and> rc_pending rc = None \<and> rc_private rc = None) \<and>
     (rc_kbs rc \<noteq> None \<longrightarrow> rc_private rc = None \<and> rc_pending rc = None) \<and>
     (\<forall>c. rc_pending rc = Some c \<longrightarrow> ch_nonce c \<in> set (rc_seen rc) \<and> ch_expires_at c \<le> ch_issued_at c + secs 60)"

lemma install_idle:
  "rc_retired rc \<or> rc_kbs rc \<noteq> None \<or> rc_pending rc = None \<Longrightarrow>
   install env pki now rk e rc = (Inl (RuntimeError (us ''broker is not awaiting a provisioning envelope'')), rc)"
  by (cases "rc_pending rc") (simp_all add: install_def)

lemma install_pending:
  assumes "rc_pending rc = Some c" and "\<not> rc_retired rc" and "rc_kbs rc = None"
  shows "install env pki now rk e rc =
    (if pe_nonce e \<noteq> ch_nonce c \<or> now > ch_expires_at c
     then (Inl (ValueError (us ''provisioning envelope is stale or for another request'')), rc\<lparr>rc_pending := None\<rparr>)
     else case rc_private rc of
       None \<Rightarrow> (Inl (RuntimeError (us ''broker provisioning key is unavailable'')), rc\<lparr>rc_pending := None\<rparr>)
     | Some priv \<Rightarrow>
         (case install_kbs env pki rk e (rc_configuration rc) (rc_policy rc) priv of
            Inl x \<Rightarrow> (Inl x, rc\<lparr>rc_pending := None\<rparr>)
          | Inr k \<Rightarrow> (Inr (), rc\<lparr>rc_pending := None, rc_kbs := Some k, rc_private := None\<rparr>)))"
  using assms by (cases "rc_private rc") (simp_all add: install_def Let_def)

lemma install_cases:
  assumes "install env pki now rk e rc = (r, rc')"
  obtains (idle) x where "r = Inl x" "rc' = rc" "rc_retired rc \<or> rc_kbs rc \<noteq> None \<or> rc_pending rc = None"
  | (refused) x where "r = Inl x" "rc' = rc\<lparr>rc_pending := None\<rparr>" "\<not> rc_retired rc" "rc_kbs rc = None"
  | (installed) c priv k where "r = Inr ()" "rc' = rc\<lparr>rc_pending := None, rc_kbs := Some k, rc_private := None\<rparr>"
      "\<not> rc_retired rc" "rc_kbs rc = None" "rc_pending rc = Some c" "pe_nonce e = ch_nonce c" "now \<le> ch_expires_at c" "rc_private rc = Some priv"
      "install_kbs env pki rk e (rc_configuration rc) (rc_policy rc) priv = Inr k"
proof (cases "rc_retired rc \<or> rc_kbs rc \<noteq> None \<or> rc_pending rc = None")
  case True
  have "r = Inl (RuntimeError (us ''broker is not awaiting a provisioning envelope''))" "rc' = rc"
    using assms unfolding install_idle [OF True] by simp_all
  then show ?thesis using True by (rule idle)
next
  case False
  then obtain c where c: "rc_pending rc = Some c" "\<not> rc_retired rc" "rc_kbs rc = None" by auto
  note i = assms [unfolded install_pending [OF c]]
  show ?thesis
  proof (cases "pe_nonce e \<noteq> ch_nonce c \<or> now > ch_expires_at c")
    case True
    show ?thesis using i [unfolded if_P [OF True]] c(2,3) refused by blast
  next
    case nonce: False
    note i = i [unfolded if_not_P [OF nonce]]
    show ?thesis
    proof (cases "rc_private rc")
      case None
      show ?thesis using i [unfolded None option.case] c(2,3) refused by blast
    next
      case (Some priv)
      note i = i [unfolded Some option.case]
      show ?thesis
      proof (cases "install_kbs env pki rk e (rc_configuration rc) (rc_policy rc) priv")
        case (Inl x)
        show ?thesis using i [unfolded Inl sum.case] c(2,3) refused by blast
      next
        case (Inr k)
        show ?thesis by (rule installed [where c = c and priv = priv and k = k]) (use i Inr c Some nonce in auto)
      qed
    qed
  qed
qed

lemma report_data_effect:
  obtains (same) "snd (provisioning_report_data env now c rc) = rc"
  | (recorded) p where "snd (provisioning_report_data env now c rc) = rc\<lparr>rc_seen := ch_nonce c # rc_seen rc, rc_pending := p\<rparr>"
      "\<not> rc_retired rc" "rc_kbs rc = None" "ch_nonce c \<notin> set (rc_seen rc)"
      "p = rc_pending rc \<or> p = Some \<lparr>ch_nonce = ch_nonce c, ch_issued_at = now, ch_expires_at = min (ch_expires_at c) (now + secs 60)\<rparr>"
proof (cases "bytes_fromhex (ch_nonce c)")
  case None
  then show ?thesis by (intro same) (simp add: provisioning_report_data_def)
next
  case (Some n)
  show ?thesis
  proof (cases "rc_retired rc \<or> rc_kbs rc \<noteq> None \<or> length n \<noteq> 32 \<or> hex_of_bytes n \<noteq> ch_nonce c \<or> now > ch_expires_at c \<or> ch_nonce c \<in> set (rc_seen rc)")
    case True
    then show ?thesis by (intro same) (auto simp: provisioning_report_data_def Some)
  next
    case False
    note f = this [simplified]
    show ?thesis
    proof (cases "now + secs 60 \<le> max_time")
      case True
      show ?thesis by (rule recorded [OF _ _ _ _ disjI2 [OF refl]])
        (use f Some True in \<open>simp_all add: provisioning_report_data_def Let_def time_add_def\<close>)
    next
      case False
      show ?thesis by (rule recorded [OF _ _ _ _ disjI1 [OF refl]])
        (use f Some False in \<open>simp_all add: provisioning_report_data_def Let_def time_add_def\<close>)
    qed
  qed
qed

lemma rc_inv_new: "new_receiver env priv config p = Inr rc \<Longrightarrow> rc_inv rc"
  by (auto simp: new_receiver_def rbind_Inr_iff rc_inv_def split: if_split_asm)

lemma rc_serve_effect:
  "\<exists>k. snd (rc_issue_challenge now tok rc) = rc\<lparr>rc_kbs := k\<rparr> \<and> (k = None) = (rc_kbs rc = None)"
  "\<exists>k. snd (rc_verify_and_release env lib io m ev rc) = rc\<lparr>rc_kbs := k\<rparr> \<and> (k = None) = (rc_kbs rc = None)"
proof -
  have id: "\<exists>k. rc = rc\<lparr>rc_kbs := k\<rparr> \<and> (k = None) = (rc_kbs rc = None)" by (rule exI [of _ "rc_kbs rc"]) simp
  show "\<exists>k. snd (rc_issue_challenge now tok rc) = rc\<lparr>rc_kbs := k\<rparr> \<and> (k = None) = (rc_kbs rc = None)"
  proof (cases "rc_kbs rc")
    case (Some k)
    obtain c k' where "issue_challenge now tok k = (c, k')" by fastforce
    with Some id show ?thesis by (cases "rc_retired rc") (auto simp: rc_issue_challenge_def)
  qed (use id in \<open>simp add: rc_issue_challenge_def\<close>)
  show "\<exists>k. snd (rc_verify_and_release env lib io m ev rc) = rc\<lparr>rc_kbs := k\<rparr> \<and> (k = None) = (rc_kbs rc = None)"
  proof (cases "rc_kbs rc")
    case (Some k)
    obtain r k' where "verify_and_release env lib io m ev False k = (r, k')" by fastforce
    with Some id show ?thesis by (cases "rc_retired rc") (auto simp: rc_verify_and_release_def)
  qed (use id in \<open>simp add: rc_verify_and_release_def\<close>)
qed

lemma rc_inv_step:
  assumes "rc_inv rc"
  shows "rc_inv (rc_step env pki lib x rc)"
proof (cases x)
  case (Report_Op now c)
  show ?thesis by (rule report_data_effect [of env now c rc]) (use assms Report_Op in \<open>auto simp: rc_inv_def\<close>)
next
  case (Install_Op now rk e)
  obtain r rc' where i: "install env pki now rk e rc = (r, rc')" by fastforce
  then have "rc_inv rc'" using assms by (cases rule: install_cases) (auto simp: rc_inv_def)
  with i Install_Op show ?thesis by simp
next
  case (Nonce_Op now tok)
  with assms rc_serve_effect(1) [of now tok rc] show ?thesis by (auto simp: rc_inv_def)
next
  case (Serve_Op io m ev)
  with assms rc_serve_effect(2) [of env lib io m ev rc] show ?thesis by (auto simp: rc_inv_def)
qed (simp add: rc_inv_def retire_def)

text \<open>A receiver that was provisioned or retired stays so.\<close>

definition rc_closed :: "receiver \<Rightarrow> bool" where
  "rc_closed rc \<longleftrightarrow> rc_retired rc \<or> rc_kbs rc \<noteq> None"

lemma rc_closed_step:
  assumes "rc_closed rc"
  shows "rc_closed (rc_step env pki lib x rc)" "\<not> installs env pki x rc"
proof -
  have "\<not> installs env pki x rc \<and> rc_closed (rc_step env pki lib x rc)"
  proof (cases x)
    case (Report_Op now c)
    show ?thesis by (rule report_data_effect [of env now c rc]) (use assms Report_Op in \<open>auto simp: rc_closed_def\<close>)
  next
    case (Install_Op now rk e)
    with assms install_idle [of rc env pki now rk e] show ?thesis by (auto simp: rc_closed_def)
  next
    case (Nonce_Op now tok)
    with assms rc_serve_effect(1) [of now tok rc] show ?thesis by (auto simp: rc_closed_def)
  next
    case (Serve_Op io m ev)
    with assms rc_serve_effect(2) [of env lib io m ev rc] show ?thesis by (auto simp: rc_closed_def)
  qed (simp add: rc_closed_def retire_def)
  then show "rc_closed (rc_step env pki lib x rc)" "\<not> installs env pki x rc" by simp_all
qed

lemma install_closes:
  assumes "installs env pki x rc"
  shows "rc_closed (rc_step env pki lib x rc)"
proof -
  obtain now rk e where x: "x = Install_Op now rk e" using assms by (cases x) auto
  obtain r rc' where i: "install env pki now rk e rc = (r, rc')" by fastforce
  from i assms x have "r = Inr ()" by simp
  with i have "rc_closed rc'" by (cases rule: install_cases) (auto simp: rc_closed_def)
  with i x show ?thesis by simp
qed

lemma install_count_closed: "rc_closed rc \<Longrightarrow> install_count env pki lib ops rc = 0"
  by (induction ops arbitrary: rc) (simp_all add: rc_closed_step)

text \<open>
  C2 (broker receiver). Whatever calls a booted receiver gets, in whatever order and at whatever
  times, at most one of them installs a key; its state keeps the invariant that a retired receiver
  holds neither key nor request, a provisioned one has given up its transport key, and a pending
  request is one that was recorded and lasts at most a minute.
\<close>

theorem key_installed_at_most_once:
  assumes "new_receiver env priv config policy = Inr rc"
  shows "install_count env pki lib ops rc \<le> 1 \<and> rc_inv (rc_run env pki lib ops rc)"
proof -
  have "rc_inv (rc_run env pki lib ops rc)" if "rc_inv rc" for rc
    using that by (induction ops arbitrary: rc) (simp_all add: rc_run_def rc_inv_step)
  moreover have "install_count env pki lib ops rc \<le> 1" for rc
  proof (induction ops arbitrary: rc)
    case (Cons x ops)
    then show ?case using install_count_closed [OF install_closes [of env pki x rc lib], of env pki lib ops] by simp
  qed simp
  ultimately show ?thesis using rc_inv_new [OF assms] by blast
qed

subsection \<open>From the owner to the workload\<close>

lemma native_verified:
  assumes "native_verify cr pki trusted_root vcek inters q nonce binding expected now = Inr v" and "qv_verified v"
  shows "\<exists>raw r n. b64decode_validate q = Inr raw \<and> parse_snp_report raw = Inr r \<and> trusted_path pki [trusted_root] now 0 (vcek # inters) \<and>
    report_verify pki vcek ECDSA_SHA384 (snp_signature_der pki raw) (take SIG_OFFSET raw) = None \<and>
    bytes_fromhex nonce = Some n \<and> take 32 (sr_report_data r) = sha256 cr (n @ binding) \<and>
    expected = Some (prefixed_sha256 cr (sr_measurement r)) \<and> \<not> bit (sr_policy r) 19 \<and> sr_vmpl r = 0"
proof -
  obtain raw where raw: "b64decode_validate q = Inr raw"
  proof (cases "b64decode_validate q")
    case (Inl e)
    have False using assms unfolding native_verify_def Inl sum.case by (cases "is_ValueError e") (auto simp: qv_fail_def)
    then show ?thesis ..
  qed (rule that)
  define res where "res = quote_verify cr pki \<lparr>ve_parse = snp_quote_parse pki vcek inters, ve_roots = [trusted_root],
      ve_require_launch_measurement = False\<rparr> (b64encode raw) nonce binding None now"
  note nv = assms(1) [unfolded native_verify_def raw sum.case, folded res_def, unfolded rbind_Inr_iff]
  then obtain w where w: "res = Inr w" by blast
  have vw: "qv_verified w" using nv assms(2) unfolding w by (cases "qv_verified w") auto
  obtain r where r: "parse_snp_report raw = Inr r"
    using nv vw unfolding w by (auto simp: rbind_Inr_iff)
  have "expected = Some (prefixed_sha256 cr (sr_measurement r)) \<and> \<not> bit (sr_policy r) 19 \<and> sr_vmpl r = 0"
    using nv vw r assms(2) unfolding w by (auto simp: qv_fail_def rbind_Inr_iff split: if_split_asm)
  with verified_report_bytes [OF w [unfolded res_def] vw] raw r show ?thesis by auto
qed

definition serves :: "kbs \<Rightarrow> receiver \<Rightarrow> bool" where
  "serves k0 rc \<longleftrightarrow> rc_retired rc \<or> (\<exists>s c. rc_kbs rc = Some (k0\<lparr>kb_challenges := s, kb_gpu_revocation := c\<rparr>))"

lemma serves_step:
  assumes "serves k0 rc"
  shows "serves k0 (rc_step env pki lib x rc)"
proof (cases "rc_retired rc")
  case True
  then have "rc_retired (rc_step env pki lib x rc)"
  proof (cases x)
    case (Report_Op now c)
    show ?thesis by (rule report_data_effect [of env now c rc]) (use True Report_Op in auto)
  next
    case (Install_Op now rk e)
    with True install_idle [of rc env pki now rk e] show ?thesis by simp
  qed (use True in \<open>simp_all add: rc_issue_challenge_def rc_verify_and_release_def retire_def\<close>)
  then show ?thesis by (simp add: serves_def)
next
  case False
  then obtain s c where k: "rc_kbs rc = Some (k0\<lparr>kb_challenges := s, kb_gpu_revocation := c\<rparr>)" using assms by (auto simp: serves_def)
  let ?k = "k0\<lparr>kb_challenges := s, kb_gpu_revocation := c\<rparr>"
  show ?thesis
  proof (cases x)
    case (Report_Op now ch)
    show ?thesis by (rule report_data_effect [of env now ch rc]) (use k False Report_Op assms in auto)
  next
    case (Install_Op now rk e)
    with k assms install_idle [of rc env pki now rk e] show ?thesis by simp
  next
    case (Nonce_Op now tok)
    obtain ch s' where "cs_issue now tok s = (ch, s')" by fastforce
    then have "rc_kbs (rc_step env pki lib x rc) = Some (k0\<lparr>kb_challenges := s', kb_gpu_revocation := c\<rparr>)"
      using Nonce_Op k False by (simp add: rc_issue_challenge_def issue_challenge_def)
    then show ?thesis by (auto simp: serves_def)
  next
    case (Serve_Op io m ev)
    obtain r k' where v: "verify_and_release env lib io m ev False ?k = (r, k')" by fastforce
    obtain s' c' where "k' = k0\<lparr>kb_challenges := s', kb_gpu_revocation := c'\<rparr>" using verify_and_release_frame [OF v] by auto
    with v Serve_Op k False show ?thesis by (auto simp: rc_verify_and_release_def serves_def)
  qed (simp add: retire_def serves_def)
qed

lemma serves_run: "serves k0 rc \<Longrightarrow> serves k0 (rc_run env pki lib ops rc)"
  unfolding rc_run_def by (induction ops arbitrary: rc) (simp_all add: serves_step)

lemma rc_fixed_step:
  "rc_configuration (rc_step env pki lib x rc) = rc_configuration rc \<and> rc_policy (rc_step env pki lib x rc) = rc_policy rc \<and>
   rc_public (rc_step env pki lib x rc) = rc_public rc \<and> (rc_private (rc_step env pki lib x rc) = rc_private rc \<or> rc_private (rc_step env pki lib x rc) = None)"
proof (cases x)
  case (Report_Op now c)
  show ?thesis by (rule report_data_effect [of env now c rc]) (use Report_Op in auto)
next
  case (Install_Op now rk e)
  obtain r rc' where i: "install env pki now rk e rc = (r, rc')" by fastforce
  then have "rc_configuration rc' = rc_configuration rc \<and> rc_policy rc' = rc_policy rc \<and> rc_public rc' = rc_public rc \<and>
    (rc_private rc' = rc_private rc \<or> rc_private rc' = None)"
    by (cases rule: install_cases) auto
  with i Install_Op show ?thesis by simp
next
  case (Nonce_Op now tok)
  with rc_serve_effect(1) [of now tok rc] show ?thesis by auto
next
  case (Serve_Op io m ev)
  with rc_serve_effect(2) [of env lib io m ev rc] show ?thesis by auto
qed (simp add: retire_def)

lemma rc_fixed_run:
  "rc_configuration (rc_run env pki lib ops rc) = rc_configuration rc \<and> rc_policy (rc_run env pki lib ops rc) = rc_policy rc \<and>
   rc_public (rc_run env pki lib ops rc) = rc_public rc \<and>
   (rc_private (rc_run env pki lib ops rc) = rc_private rc \<or> rc_private (rc_run env pki lib ops rc) = None)"
proof (induction ops arbitrary: rc)
  case (Cons x ops)
  have "rc_run env pki lib (x # ops) rc = rc_run env pki lib ops (rc_step env pki lib x rc)" by (simp add: rc_run_def)
  with Cons.IH [of "rc_step env pki lib x rc"] rc_fixed_step [of env pki lib x rc] show ?case by auto
qed (simp add: rc_run_def)

lemma new_kbs_ok:
  "new_kbs c ttl None = Inr k \<Longrightarrow> k = c\<lparr>kb_challenges := new_store ttl, kb_allowed_platform_instances := None\<rparr>"
  by (simp add: new_kbs_def normalize_platform_instances_def split: if_split_asm)

lemma broker_kbs_fields:
  assumes "broker_kbs env pki rk c p key = Inr k"
  obtains root_cert vcek inters where "load_der pki (ec_cpu_root_der c) = Inr root_cert" "load_der pki (ec_cpu_vcek_der c) = Inr vcek"
    "rmap (load_der pki) (ec_cpu_intermediate_ders c) = Inr inters" "kb_cpu_quote_verifier k = Some (native_verify env pki root_cert vcek inters)"
    "kb_keystore k = [(bp_weights_hash p, key)]" "kb_require_channel_binding k"
    "kb_trusted_manifest_identities k = sorted_list_of_set (ec_trusted_manifest_identities c)"
proof -
  obtain root_cert vcek inters gpu where l: "load_der pki (ec_cpu_root_der c) = Inr root_cert" "load_der pki (ec_cpu_vcek_der c) = Inr vcek"
    "rmap (load_der pki) (ec_cpu_intermediate_ders c) = Inr inters"
    and k: "new_kbs \<lparr>kb_keystore = [(bp_weights_hash p, key)], kb_challenges = new_store 300, kb_revoked = [], kb_max_cache = 600,
       kb_gpu_revocation = None, kb_cpu_quote_verifier = Some (native_verify env pki root_cert vcek inters),
       kb_gpu_report_verifier = gpu, kb_require_channel_binding = True, kb_require_cpu_quote_verification = True,
       kb_require_gpu_report_verification = True, kb_renewal_signing_key = rk, kb_renewal_ttl = 60,
       kb_memory_fingerprint_public_key = None, kb_allow_legacy_memory_fingerprint = False,
       kb_trusted_manifest_identities = sorted_list_of_set (ec_trusted_manifest_identities c),
       kb_allowed_platform_instances = None\<rparr> 300 None = Inr k"
    using assms unfolding broker_kbs_def rbind_Inr_iff by blast
  note k' = new_kbs_ok [OF k]
  show ?thesis by (rule that [OF l]) (simp_all add: k')
qed

text \<open>
  C1 (end to end provisioning). A model key that the owner provisioned and a receiver installed
  under the same policy reaches a workload exactly: whatever calls the receiver served before the
  installation and after it, a release carries no key in the clear but one sealed so that the
  holder of the workload's transport key opens it to the owner's model key; the manifest is one
  the owner's configuration pins and is for the policy's weights; and the workload's report is
  signed under the configured VCEK and root, binds the challenge and that transport key, shows the
  serving image's measurement and neither debugging nor a VMPL other than 0.
\<close>

theorem owner_key_reaches_workload:
  assumes "provision env opki pio rq key ow db = (Inr e, ow', db')"
    and "new_receiver env priv config (ow_policy ow) = Inr rc0" and "br_transport_public_key rq = rc_public rc0"
    and "ec_owner_public_key config = ed_public env (ow_signing_key ow)" and "finite (ec_trusted_manifest_identities config)"
    and "install env pki now rk e (rc_run env pki lib before rc0) = (Inr (), rc1)"
    and "rc_verify_and_release env lib io m ev (rc_run env pki lib after rc1) = (Inr d, rc2)" and "dec_released d"
    and "cq_transport_public_key (ev_cpu ev) = Some (hex_of_bytes (x_public env wsk))"
    and "dh_correct env" and "aead_correct env" and "ed_correct env" and "length (pv_seal_nonce pio) = 12" and "length (io_seal_nonce io) = 12"
  shows "dec_key d = None \<and> (\<exists>blob. dec_sealed_key d = Some blob \<and> open_sealed env blob wsk [] = Inr key) \<and>
    m_weights_hash m = bp_weights_hash (ow_policy ow) \<and>
    (\<exists>mh \<in> ec_trusted_manifest_identities config. manifest_identity env m = Inr mh) \<and>
    (\<exists>root_cert vcek inters q raw r n. load_der pki (ec_cpu_root_der config) = Inr root_cert \<and>
       load_der pki (ec_cpu_vcek_der config) = Inr vcek \<and> cq_quote_b64 (ev_cpu ev) = Some q \<and> b64decode_validate q = Inr raw \<and>
       parse_snp_report raw = Inr r \<and> trusted_path pki [root_cert] (io_cpu io) 0 (vcek # inters) \<and>
       report_verify pki vcek ECDSA_SHA384 (snp_signature_der pki raw) (take SIG_OFFSET raw) = None \<and>
       bytes_fromhex (cq_nonce_echo (ev_cpu ev)) = Some n \<and> take 32 (sr_report_data r) = sha256 env (n @ x_public env wsk) \<and>
       cq_serving_image_measurement (ev_cpu ev) = prefixed_sha256 env (sr_measurement r) \<and> \<not> bit (sr_policy r) 19 \<and> sr_vmpl r = 0)"
proof -
  let ?p = "ow_policy ow"
  have rc0: "rc_configuration rc0 = config" "rc_policy rc0 = ?p" "rc_private rc0 = Some priv" "rc_public rc0 = hex_of_bytes (x_public env priv)"
    using assms(2) by (auto simp: new_receiver_def rbind_Inr_iff generate_transport_keypair_def split: if_split_asm)
  let ?rc = "rc_run env pki lib before rc0"
  note fx = rc_fixed_run [of env pki lib before rc0, unfolded rc0]
  have opened: "open_provisioned_key env e ?p priv (ed_public env (ow_signing_key ow)) = Inr key"
    using provision_ok [OF assms(1)]
    by (metis assms(3,10-13) envelope_opens provision_body_ok rc0(4))
  from assms(6) obtain k where rc1: "rc1 = ?rc\<lparr>rc_pending := None, rc_kbs := Some k, rc_private := None\<rparr>"
    and ik: "install_kbs env pki rk e config ?p priv = Inr k"
    by (cases rule: install_cases) (use fx in auto)
  have bk: "broker_kbs env pki rk config ?p key = Inr k" using ik opened by (auto simp: install_kbs_def rbind_Inr_iff assms(4))
  obtain root_cert vcek inters where b: "load_der pki (ec_cpu_root_der config) = Inr root_cert" "load_der pki (ec_cpu_vcek_der config) = Inr vcek"
    "kb_cpu_quote_verifier k = Some (native_verify env pki root_cert vcek inters)" "kb_keystore k = [(bp_weights_hash ?p, key)]"
    "kb_require_channel_binding k" "kb_trusted_manifest_identities k = sorted_list_of_set (ec_trusted_manifest_identities config)"
    by (rule broker_kbs_fields [OF bk])
  have "\<exists>s c. k = k\<lparr>kb_challenges := s, kb_gpu_revocation := c\<rparr>"
    by (rule exI [of _ "kb_challenges k"], rule exI [of _ "kb_gpu_revocation k"]) simp
  then have "serves k rc1" by (simp add: serves_def rc1)
  then have "serves k (rc_run env pki lib after rc1)" by (rule serves_run)
  then obtain s c k' where v: "verify_and_release env lib io m ev False (k\<lparr>kb_challenges := s, kb_gpu_revocation := c\<rparr>) = (Inr d, k')"
    using assms(7) by (auto simp: serves_def rc_verify_and_release_def split: if_split_asm prod.split_asm)
  let ?k = "k\<lparr>kb_challenges := s, kb_gpu_revocation := c\<rparr>"
  have cb: "kb_require_channel_binding ?k" "kb_cpu_quote_verifier ?k = Some (native_verify env pki root_cert vcek inters)" using b(3,5) by simp_all
  from sealed_release [OF v cb(1)] assms(8,9) b(4)
  obtain blob where s: "dec_key d = None" "dec_sealed_key d = Some blob" "m_weights_hash m = bp_weights_hash ?p"
    "seal_to_public_key env (io_ephemeral io) (io_seal_nonce io) (hex_of_bytes (x_public env wsk)) key [] = Inr blob"
    by (auto split: if_split_asm)
  have o: "open_sealed env blob wsk [] = Inr key" by (rule seal_open [OF assms(10,11,14) bytes_fromhex_hex s(4)])
  from released_policy [OF v assms(8)] obtain mh where "manifest_identity env m = Inr mh" "mh \<in> set (kb_trusted_manifest_identities ?k)" by blast
  then have mh: "\<exists>mh \<in> ec_trusted_manifest_identities config. manifest_identity env m = Inr mh" using b(6) assms(5) by auto
  from released_hardware [OF v assms(8) cb(2,1)] assms(9) bytes_fromhex_hex
  obtain q w where q: "cq_quote_b64 (ev_cpu ev) = Some q"
    "native_verify env pki root_cert vcek inters q (cq_nonce_echo (ev_cpu ev)) (x_public env wsk) (Some (cq_serving_image_measurement (ev_cpu ev))) (io_cpu io) = Inr w"
    "qv_verified w" by (metis option.inject)
  from native_verified [OF q(2,3)] s o mh b(1,2) q(1) show ?thesis by auto
qed

subsection \<open>A provisioned broker\<close>

definition rcv_pki :: "nat broker_pki" where
  "rcv_pki = gpu_pki.extend demo_gpu_pki (broker_pki.fields (\<lambda>d. Inr (length d)) (\<lambda>_. []) (\<lambda>_. []))"

lemma rcv_pki_simps [simp]:
  "load_der rcv_pki d = Inr (length d)" "validity rcv_pki c = Inr (0, 100)" "public_key rcv_pki c = Inr (EC True)"
  "cert_verify rcv_pki a b = None" "report_verify rcv_pki a p s m = None" "basic_constraints rcv_pki c = Inr (Some (True, None))"
  "key_cert_sign rcv_pki c = Inr None" "subject rcv_pki c = Inr []" "serial_number rcv_pki c = 1"
  by (simp_all add: rcv_pki_def gpu_pki.defs broker_pki.defs demo_gpu_pki_def pki.defs demo_pki_def)

definition rcv_mh :: pystr where
  "rcv_mh = projr (manifest_identity prov_env demo_gated)"

definition rcv_config :: effective_configuration where
  "rcv_config = \<lparr>ec_cpu_root_der = replicate 7 0, ec_cpu_vcek_der = replicate 3 0, ec_cpu_intermediate_ders = [],
     ec_trusted_manifest_identities = {rcv_mh}, ec_owner_public_key = [9], ec_gpu_root_der = None\<rparr>"

definition rcv_request :: composite_evidence where
  "rcv_request = demo_evidence\<lparr>ev_cpu := (ev_cpu demo_evidence)\<lparr>cq_serving_image_measurement := demo_hash 0,
     cq_nonce_echo := prov_nonce, cq_quote_b64 := Some (b64encode prov_report),
     cq_transport_public_key := Some (hex_of_bytes (replicate 32 0))\<rparr>\<rparr>"

definition rcv_boot :: receiver where
  "rcv_boot = \<lparr>rc_configuration = rcv_config, rc_policy = Deployment.demo_policy, rc_public = hex_of_bytes (replicate 32 0),
     rc_private = Some [], rc_pending = None, rc_seen = [], rc_kbs = None, rc_retired = False\<rparr>"

definition rcv_challenge :: challenge where
  "rcv_challenge = \<lparr>ch_nonce = prov_nonce, ch_issued_at = 0, ch_expires_at = 1000\<rparr>"

lemma prov_env_crypto [simp]: "nfc prov_env = nfc demo_crypto" "frepr prov_env = frepr demo_crypto" "ed_load prov_env pub"
  by (simp_all add: prov_env_def crypto.defs demo_crypto_def)

lemma rcv_mh_ok: "manifest_identity prov_env demo_gated = Inr rcv_mh"
proof -
  have "clean (nfc demo_crypto) 64 (JDict (unsigned_dict demo_gated))"
    by (simp add: demo_gated_def demo_manifest_def Models.demo_policy_def dump_defs value_defs present_def map_filter_simps
        demo_crypto_def clean_str_def)
  from canonicalize_clean [OF this, of "frepr demo_crypto" True] show ?thesis
    by (auto simp: manifest_identity_eq rcv_mh_def)
qed

lemma rcv_boots: "new_receiver prov_env [] rcv_config Deployment.demo_policy = Inr rcv_boot"
proof -
  have "dumpable (configuration_value rcv_config)"
    by (simp add: configuration_value_def rcv_config_def nat_str.simps)
  then obtain s where "dumps (frepr demo_crypto) (configuration_value rcv_config) = Inr s" using dumps_total by blast
  then have "configuration_digest prov_env rcv_config = Inr (hex_of_bytes (replicate 32 0))"
    by (auto simp: configuration_digest_def dumps_bytes_def)
  moreover have "hex_of_bytes (replicate n 0) = replicate (2 * n) 48" for n
    by (induction n) (simp_all add: hex_of_bytes_def hex_byte_def hex_digit_def)
  ultimately show ?thesis
    by (simp add: new_receiver_def Deployment.demo_policy_def rcv_boot_def generate_transport_keypair_def)
qed

lemma rcv_report_data:
  "snd (provisioning_report_data prov_env 1 rcv_challenge rcv_boot) =
     rcv_boot\<lparr>rc_seen := [prov_nonce], rc_pending := Some (rcv_challenge\<lparr>ch_issued_at := 1\<rparr>)\<rparr>"
  by (simp add: provisioning_report_data_def rcv_challenge_def rcv_boot_def time_add_def max_time_def secs_def Let_def prov_nonce_def bytes_fromhex_hex)

definition rcv_kbs :: kbs where
  "rcv_kbs = \<lparr>kb_keystore = [(demo_hash 0, replicate 16 1)], kb_challenges = new_store 300, kb_revoked = [], kb_max_cache = 600,
     kb_gpu_revocation = None, kb_cpu_quote_verifier = Some (native_verify prov_env rcv_pki 7 3 []), kb_gpu_report_verifier = None,
     kb_require_channel_binding = True, kb_require_cpu_quote_verification = True, kb_require_gpu_report_verification = True,
     kb_renewal_signing_key = [5], kb_renewal_ttl = 60, kb_memory_fingerprint_public_key = None,
     kb_allow_legacy_memory_fingerprint = False, kb_trusted_manifest_identities = [rcv_mh], kb_allowed_platform_instances = None\<rparr>"

definition rcv_installed :: receiver where
  "rcv_installed = rcv_boot\<lparr>rc_seen := [prov_nonce], rc_pending := None, rc_kbs := Some rcv_kbs, rc_private := None\<rparr>"

lemma rcv_broker_kbs: "broker_kbs prov_env rcv_pki [5] rcv_config Deployment.demo_policy (replicate 16 1) = Inr rcv_kbs"
  by (simp add: broker_kbs_def rcv_config_def new_kbs_def normalize_platform_instances_def rcv_kbs_def Deployment.demo_policy_def demo_hash_def)

lemma rcv_installs:
  "\<exists>e ow. provision prov_env demo_pki prov_inputs prov_request (replicate 16 1) prov_owner prov_db = (Inr e, ow, prov_db) \<and>
     install prov_env rcv_pki 6 [5] e (rc_run prov_env rcv_pki demo_ocsp [Report_Op 1 rcv_challenge] rcv_boot) = (Inr (), rcv_installed)"
proof -
  obtain e ow where p: "provision prov_env demo_pki prov_inputs prov_request (replicate 16 1) prov_owner prov_db = (Inr e, ow, prov_db)"
    using prov_succeeds by blast
  have o: "open_provisioned_key prov_env e Deployment.demo_policy [] [9] = Inr (replicate 16 1)" and n: "pe_nonce e = prov_nonce"
    using provisioned_key_opens [OF p _ prov_env_laws, of "[]"] by (simp_all add: prov_request_def prov_inputs_def prov_owner_def)
  have "install_kbs prov_env rcv_pki [5] e rcv_config Deployment.demo_policy [] = Inr rcv_kbs"
    by (simp add: install_kbs_def rcv_broker_kbs o raise_if_def) (simp add: rcv_config_def o rcv_broker_kbs [unfolded rcv_config_def])
  moreover have "rc_run prov_env rcv_pki demo_ocsp [Report_Op 1 rcv_challenge] rcv_boot =
      rcv_boot\<lparr>rc_seen := [prov_nonce], rc_pending := Some (rcv_challenge\<lparr>ch_issued_at := 1\<rparr>)\<rparr>"
    by (simp add: rc_run_def rcv_report_data)
  ultimately have "install prov_env rcv_pki 6 [5] e (rc_run prov_env rcv_pki demo_ocsp [Report_Op 1 rcv_challenge] rcv_boot) = (Inr (), rcv_installed)"
    by (simp add: install_def rcv_boot_def n rcv_challenge_def rcv_installed_def Let_def)
  with p show ?thesis by blast
qed

theorem key_installed_at_most_once_witness:
  "\<exists>e. installs prov_env rcv_pki (Install_Op 6 [5] e) (rc_run prov_env rcv_pki demo_ocsp [Report_Op 1 rcv_challenge] rcv_boot) \<and>
     install_count prov_env rcv_pki demo_ocsp [Report_Op 1 rcv_challenge, Install_Op 6 [5] e, Install_Op 7 [5] e] rcv_boot \<le> 1"
proof -
  obtain e where "install prov_env rcv_pki 6 [5] e (rc_run prov_env rcv_pki demo_ocsp [Report_Op 1 rcv_challenge] rcv_boot) = (Inr (), rcv_installed)"
    using rcv_installs by blast
  then have "installs prov_env rcv_pki (Install_Op 6 [5] e) (rc_run prov_env rcv_pki demo_ocsp [Report_Op 1 rcv_challenge] rcv_boot)"
    by simp
  moreover have "install_count prov_env rcv_pki demo_ocsp [Report_Op 1 rcv_challenge, Install_Op 6 [5] e, Install_Op 7 [5] e] rcv_boot \<le> 1"
    using key_installed_at_most_once [OF rcv_boots] by blast
  ultimately show ?thesis by blast
qed

lemma rcv_zero_hex: "hex_of_bytes (replicate n 0) = replicate (2 * n) 48"
  by (induction n) (simp_all add: hex_of_bytes_def hex_byte_def hex_digit_def)

lemma rcv_quote:
  "\<exists>v. native_verify prov_env rcv_pki 7 3 [] (b64encode prov_report) prov_nonce binding (Some (demo_hash 0)) 1 = Inr v \<and> qv_verified v"
proof -
  have "snp_quote_parse rcv_pki 3 [] (b64encode prov_report) =
      Inr \<lparr>pq_report_body = take SIG_OFFSET prov_report, pq_signature = snp_signature_der rcv_pki prov_report, pq_leaf = 3,
        pq_intermediates = [], pq_report_data_offset = 0x50, pq_report_signature_algorithm = us ''ecdsa-p384-sha384'',
        pq_launch_measurement = Some (slice 0x90 (0x90 + 48) prov_report), pq_snp_report = Some (take REPORT_LEN prov_report)\<rparr>"
    by (simp add: snp_quote_parse_def b64decode_b64encode REPORT_LEN_def prov_report_def)
  moreover have "slice 0x50 (0x50 + 32) (take SIG_OFFSET prov_report) = replicate 32 0"
    by (simp add: slice_take SIG_OFFSET_def slice_prov_report)
  moreover have "verify_cert_chain rcv_pki 3 [] [7] 1 = Inr None"
    by (simp add: verify_cert_chain_def chain_error_def valid_at_def signed_by_def pubkey_verify_def may_issue_def Let_def)
  ultimately obtain v where v: "quote_verify prov_env rcv_pki \<lparr>ve_parse = snp_quote_parse rcv_pki 3 [], ve_roots = [7],
      ve_require_launch_measurement = False\<rparr> (b64encode prov_report) prov_nonce binding None 1 = Inr v" "qv_verified v"
    by (simp add: quote_verify_def verify_report_signature_def launch_error_def Let_def)
  obtain r where "parse_snp_report prov_report = Inr r" "sr_version r = 2" "sr_policy r = 0" "sr_vmpl r = 0" using prov_report_parsed by blast
  with v show ?thesis by (simp add: native_verify_def b64decode_b64encode(2) prefixed_sha256_def demo_hash_def rcv_zero_hex)
qed

definition rcv_serving :: kbs where
  "rcv_serving = rcv_kbs\<lparr>kb_challenges := snd (cs_issue 0 prov_nonce (new_store 300))\<rparr>"

lemma rcv_serving_fields:
  "kb_keystore rcv_serving = [(demo_hash 0, replicate 16 1)]" "kb_cpu_quote_verifier rcv_serving = Some (native_verify prov_env rcv_pki 7 3 [])"
  "kb_require_channel_binding rcv_serving" "kb_trusted_manifest_identities rcv_serving = [rcv_mh]"
  "kb_allowed_platform_instances rcv_serving = None" "kb_gpu_report_verifier rcv_serving = None"
  "kb_revoked rcv_serving = []" "kb_max_cache rcv_serving = 600" "kb_gpu_revocation rcv_serving = None"
  by (simp_all add: rcv_serving_def rcv_kbs_def)

lemma rcv_request_fields:
  "cq_transport_public_key (ev_cpu rcv_request) = Some (hex_of_bytes (replicate 32 0))" "cq_nonce_echo (ev_cpu rcv_request) = prov_nonce"
  "cq_quote_b64 (ev_cpu rcv_request) = Some (b64encode prov_report)" "ev_gpu rcv_request = None"
  "cq_platform (ev_cpu rcv_request) = us ''amd-sev-snp''" "cq_assurance_tier (ev_cpu rcv_request) = us ''hardware-attested''"
  "cq_serving_image_measurement (ev_cpu rcv_request) = demo_hash 0" "cq_attestation_key_cache_age_seconds (ev_cpu rcv_request) = 0"
  by (simp_all add: rcv_request_def demo_evidence_def)

lemma rcv_gated_fields:
  "m_weights_hash demo_gated = demo_hash 0" 
  "m_release_policy demo_gated = Models.demo_policy\<lparr>rp_attestation_revocation_check := Some (us ''live''),
     rp_required_serving_image := (rp_required_serving_image Models.demo_policy)\<lparr>si_accepted_measurements :=
       [\<lparr>am_measurement = demo_hash 0, am_status = image_current, am_retire_after = None\<rparr>]\<rparr>\<rparr>"
  by (simp_all add: demo_gated_def demo_manifest_def)

lemma rcv_gate:
  "\<exists>cs. gate_checks prov_env demo_ocsp demo_io (rcv_serving\<lparr>kb_challenges := s\<rparr>) demo_gated rcv_request rcv_mh False =
     (Inr (cs, None), rcv_serving\<lparr>kb_challenges := s\<rparr>) \<and> list_all cr_passed cs"
proof -
  obtain v where v: "native_verify prov_env rcv_pki 7 3 [] (b64encode prov_report) prov_nonce (replicate 32 0) (Some (demo_hash 0)) 1 = Inr v"
    "qv_verified v" using rcv_quote by blast
  have ne: "hex_of_bytes (replicate 32 0) \<noteq> []" using length_hex_of_bytes [of "replicate 32 0"] by auto
  show ?thesis
    unfolding gate_checks_def gate_list_def check_gpu_report_def check_memory_fingerprint_def check_cpu_quote_def
      check_attestation_revocation_def check_channel_binding_def check_authorized_def check_cpu_platform_def
      check_assurance_tier_def check_serving_image_def check_gpu_def check_platform_integrity_def
      check_platform_instance_def check_key_available_def
    by (simp add: rcv_serving_fields rcv_request_fields rcv_gated_fields v ne Models.demo_policy_def bytes_fromhex_hex assurance_tier_value_def
        demo_io_def)
qed

lemma rcv_evidence: "\<exists>eh. evidence_identity prov_env rcv_request = Inr eh"
proof -
  have "no_surrogates (b64encode prov_report)" "code_points (b64encode prov_report)"
    using ascii_text b64_padded_ascii [OF unat_bytes_range] unfolding b64encode_def by blast+
  then have "clean (nfc demo_crypto) 64 (dump_evidence rcv_request)"
    by (simp add: rcv_request_def prov_nonce_def demo_evidence_def dump_evidence_def dump_cpu_quote_def present_def map_filter_simps
      clean_str_def demo_crypto_def nat_str.simps)
  from canonicalize_clean [OF this, of "frepr demo_crypto" True] show ?thesis by (auto simp: evidence_identity_eq)
qed

lemma rcv_releases:
  "\<exists>d rc. rc_verify_and_release prov_env demo_ocsp demo_io demo_gated rcv_request
      (rc_run prov_env rcv_pki demo_ocsp [Nonce_Op 0 prov_nonce] rcv_installed) = (Inr d, rc) \<and> dec_released d"
proof -
  obtain eh where eh: "evidence_identity prov_env rcv_request = Inr eh" using rcv_evidence by blast
  obtain s where s: "cs_consume prov_nonce 1 (kb_challenges rcv_serving) = (Inr (), s)"
    by (simp add: rcv_serving_def cs_issue_def cs_prune_def new_store_def cs_consume_def secs_def Let_def)
  obtain cs where g: "gate_checks prov_env demo_ocsp demo_io (rcv_serving\<lparr>kb_challenges := s\<rparr>) demo_gated rcv_request rcv_mh False =
     (Inr (cs, None), rcv_serving\<lparr>kb_challenges := s\<rparr>)" "list_all cr_passed cs" using rcv_gate by blast
  let ?d = "release_key prov_env demo_io (rcv_serving\<lparr>kb_challenges := s\<rparr>) demo_gated rcv_request rcv_mh cs None"
  have "verify_and_release prov_env demo_ocsp demo_io demo_gated rcv_request False rcv_serving = (Inr ?d, rcv_serving\<lparr>kb_challenges := s\<rparr>)"
    using s g(1) by (simp add: verify_and_release_def rcv_mh_ok eh rcv_request_fields) (simp add: demo_io_def)
  moreover have "dec_released ?d"
  proof -
    obtain x where "seal_to_public_key prov_env (io_ephemeral demo_io) (io_seal_nonce demo_io) (hex_of_bytes (replicate 32 0)) (replicate 16 1) [] = Inr x"
      by (simp add: seal_to_public_key_def bytes_fromhex_hex)
    with g(2) show ?thesis by (simp add: release_key_def Let_def rcv_serving_fields rcv_request_fields rcv_gated_fields)
  qed
  moreover have "rc_run prov_env rcv_pki demo_ocsp [Nonce_Op 0 prov_nonce] rcv_installed = rcv_installed\<lparr>rc_kbs := Some rcv_serving\<rparr>"
    by (simp add: rc_run_def rc_issue_challenge_def issue_challenge_def rcv_installed_def rcv_boot_def rcv_serving_def rcv_kbs_def split: prod.split)
  moreover have "\<not> rc_retired rcv_installed" by (simp add: rcv_installed_def rcv_boot_def)
  ultimately show ?thesis by (simp add: rc_verify_and_release_def)
qed

theorem owner_key_reaches_workload_witness:
  "\<exists>d rc blob. rc_verify_and_release prov_env demo_ocsp demo_io demo_gated rcv_request
      (rc_run prov_env rcv_pki demo_ocsp [Nonce_Op 0 prov_nonce] rcv_installed) = (Inr d, rc) \<and>
     dec_key d = None \<and> dec_sealed_key d = Some blob \<and> open_sealed prov_env blob [] [] = Inr (replicate 16 1)"
proof -
  obtain e ow where e: "provision prov_env demo_pki prov_inputs prov_request (replicate 16 1) prov_owner prov_db = (Inr e, ow, prov_db)"
    "install prov_env rcv_pki 6 [5] e (rc_run prov_env rcv_pki demo_ocsp [Report_Op 1 rcv_challenge] rcv_boot) = (Inr (), rcv_installed)"
    using rcv_installs by blast
  obtain d rc where d: "rc_verify_and_release prov_env demo_ocsp demo_io demo_gated rcv_request
      (rc_run prov_env rcv_pki demo_ocsp [Nonce_Op 0 prov_nonce] rcv_installed) = (Inr d, rc)" "dec_released d"
    using rcv_releases by blast
  have b: "new_receiver prov_env [] rcv_config (ow_policy prov_owner) = Inr rcv_boot" by (simp add: rcv_boots prov_owner_def)
  have "dec_key d = None \<and> (\<exists>blob. dec_sealed_key d = Some blob \<and> open_sealed prov_env blob [] [] = Inr (replicate 16 1))"
    using owner_key_reaches_workload [OF e(1) b _ _ _ e(2) d _ prov_env_laws, of "[]"]
    by (simp add: rcv_boot_def prov_request_def rcv_config_def prov_owner_def prov_inputs_def demo_io_def rcv_request_fields)
  with d show ?thesis by blast
qed

end
