(* ===== verification/Tdx.thy ===== *)
theory Tdx
  imports Nvidia
begin

section \<open>Intel TDX quotes and the platform floor (\<open>tdx.py\<close>, \<open>platform_floor.py\<close>)\<close>

text \<open>
  Parsing a DCAP quote with its nested certification data, the identity of the quoting enclave, the
  two-level signature check, and the appraisal of a report against an operator's floor. Arithmetic
  on the curve P-256, certificates and PEM are parameters. The main results: the parser accepts
  exactly the byte strings of one layout, with no byte unaccounted for, and whatever it is given it
  answers with a quote or a \<open>QuoteFormatError\<close>; a verified quote is signed through the attestation
  key and Intel's quoting enclave up to a trusted root; an appraisal is positive only if every check
  ran and passed.
\<close>

subsection \<open>Layout constants\<close>

definition TDX_HEADER_LEN :: nat where "TDX_HEADER_LEN = 48"
definition TD_REPORT_LEN :: nat where "TD_REPORT_LEN = 584"
definition SIGNED_LEN :: nat where "SIGNED_LEN = TDX_HEADER_LEN + TD_REPORT_LEN"
definition QE_REPORT_LEN :: nat where "QE_REPORT_LEN = 384"
definition ECDSA_SIG_LEN :: nat where "ECDSA_SIG_LEN = 64"
definition ECDSA_PUBKEY_LEN :: nat where "ECDSA_PUBKEY_LEN = 64"
definition SIG_FIXED_LEN :: nat where "SIG_FIXED_LEN = ECDSA_SIG_LEN + ECDSA_PUBKEY_LEN + 6"

lemmas tdx_consts = TDX_HEADER_LEN_def TD_REPORT_LEN_def SIGNED_LEN_def QE_REPORT_LEN_def ECDSA_SIG_LEN_def
  ECDSA_PUBKEY_LEN_def SIG_FIXED_LEN_def

definition INTEL_TD_QE_MRSIGNER :: bytes where
  "INTEL_TD_QE_MRSIGNER = [0xdc, 0x9e, 0x2a, 0x7c, 0x6f, 0x94, 0x8f, 0x17, 0x47, 0x4e, 0x34, 0xa7, 0xfc, 0x43, 0xed, 0x03,
     0x0f, 0x7c, 0x15, 0x63, 0xf1, 0xba, 0xbd, 0xdf, 0x63, 0x40, 0xc8, 0x2e, 0x0e, 0x54, 0xa8, 0xc5]"

definition INTEL_TD_QE_ATTRIBUTES :: bytes where
  "INTEL_TD_QE_ATTRIBUTES = 0x11 # replicate 15 0"

definition INTEL_TD_QE_ATTRIBUTES_MASK :: bytes where
  "INTEL_TD_QE_ATTRIBUTES_MASK = 0xfb # replicate 7 0xff @ replicate 8 0"

subsection \<open>Reports and quotes\<close>

record tdx_report =
  td_report_data :: bytes
  td_mrtd :: bytes
  td_tee_tcb_svn :: bytes
  td_attributes :: int
  td_raw :: bytes

text \<open>The properties \<open>seam_svn\<close> (indexing an empty field raises) and \<open>debug\<close>.\<close>

definition seam_svn :: "tdx_report \<Rightarrow> int result" where
  "seam_svn r = (case td_tee_tcb_svn r of [] \<Rightarrow> Inl IndexError | b # _ \<Rightarrow> Inr (uint b))"

definition td_debug :: "tdx_report \<Rightarrow> bool" where
  "td_debug r \<longleftrightarrow> td_attributes r AND 1 \<noteq> 0"

record 'c tdx_quote =
  tq_version :: nat
  tq_tee_type :: nat
  tq_signed_body :: bytes
  tq_report :: tdx_report
  tq_quote_signature :: bytes
  tq_attestation_pubkey :: bytes
  tq_qe_report :: bytes
  tq_qe_report_signature :: bytes
  tq_qe_auth_data :: bytes
  tq_pck_leaf :: 'c
  tq_pck_intermediates :: "'c list"

text \<open>\<open>struct.unpack_from\<close> raises \<open>struct.error\<close>, which is no \<open>ValueError\<close>, when it would read past the end.\<close>

definition struct_error :: exn where
  "struct_error = OtherError (us ''struct.error'')"

definition u16 :: "bytes \<Rightarrow> nat \<Rightarrow> nat result" where
  "u16 b off = (if length b < off + 2 then Inl struct_error else Inr (le_nat (slice off (off + 2) b)))"

definition u32 :: "bytes \<Rightarrow> nat \<Rightarrow> nat result" where
  "u32 b off = (if length b < off + 4 then Inl struct_error else Inr (le_nat (slice off (off + 4) b)))"

record 'c tdx_pki = "'c gpu_pki" +
  p256_verify :: "int \<Rightarrow> int \<Rightarrow> bytes \<Rightarrow> bytes \<Rightarrow> exn option" \<comment> \<open>public numbers, signature, message; SHA-256\<close>

definition raw_ecdsa_to_der :: "('c, 'x) pki_scheme \<Rightarrow> bytes \<Rightarrow> bytes" where
  "raw_ecdsa_to_der pki sig64 = encode_dss_signature pki (be_int (take 32 sig64)) (be_int (slice 32 64 sig64))"

subsection \<open>The parser\<close>

definition parse_td_report :: "bytes \<Rightarrow> tdx_report" where
  "parse_td_report td_body =
     \<lparr>td_report_data = slice 520 (520 + 64) td_body, td_mrtd = slice 136 (136 + 48) td_body,
      td_tee_tcb_svn = slice 0 16 td_body, td_attributes = le_int (slice 120 (120 + 8) td_body), td_raw = td_body\<rparr>"

definition quote_error :: "string \<Rightarrow> exn" where
  "quote_error msg = QuoteFormatError (us msg)"

definition parse_pck_chain :: "('c, 'x) gpu_pki_scheme \<Rightarrow> bytes \<Rightarrow> ('c \<times> 'c list) result" where
  "parse_pck_chain pki pck_blob =
     (case load_pem_certificates pki pck_blob of
        Inl e \<Rightarrow> if is_ValueError e then Inl (QuoteFormatError (us ''unparseable PCK cert chain: '' @ exn_text e)) else Inl e
      | Inr [] \<Rightarrow> Inl (quote_error ''empty PCK cert chain'')
      | Inr (leaf # rest) \<Rightarrow> Inr (leaf, rest))"

text \<open>The last part of \<open>parse_tdx_quote\<close>: the QE certification data \<open>cd\<close>.\<close>

definition parse_qe_certification ::
  "('c, 'x) gpu_pki_scheme \<Rightarrow> bytes \<Rightarrow> (bytes \<times> bytes \<times> bytes \<times> 'c \<times> 'c list) result" where
  "parse_qe_certification pki cd =
     rbind (raise_if (length cd < QE_REPORT_LEN + ECDSA_SIG_LEN + 2) (quote_error ''QE certification data truncated'')) (\<lambda>_.
     let qe_report = take QE_REPORT_LEN cd; qe_report_sig = slice QE_REPORT_LEN (QE_REPORT_LEN + ECDSA_SIG_LEN) cd;
         p = QE_REPORT_LEN + ECDSA_SIG_LEN in
     rbind (u16 cd p) (\<lambda>qe_auth_size.
     let p = p + 2 in
     rbind (raise_if (length cd < p + qe_auth_size + 6) (quote_error ''QE authentication data or PCK cert-data header truncated'')) (\<lambda>_.
     let qe_auth = slice p (p + qe_auth_size) cd; p = p + qe_auth_size in
     rbind (u16 cd p) (\<lambda>pck_type.
     rbind (u32 cd (p + 2)) (\<lambda>pck_size.
     let p = p + 6; pck_blob = slice p (p + pck_size) cd in
     rbind (raise_if (length pck_blob \<noteq> pck_size) (quote_error ''PCK cert chain truncated'')) (\<lambda>_.
     rbind (raise_if (pck_type \<noteq> 5) (QuoteFormatError (us ''unexpected PCK cert-data type '' @ nat_str pck_type @ us '' (want 5)''))) (\<lambda>_.
     rbind (raise_if (p + pck_size \<noteq> length cd) (quote_error ''unexpected bytes after the PCK cert chain in the QE certification data'')) (\<lambda>_.
     rbind (parse_pck_chain pki pck_blob) (\<lambda>(leaf, rest).
     Inr (qe_report, qe_report_sig, qe_auth, leaf, rest))))))))))"

definition parse_tdx_quote :: "('c, 'x) gpu_pki_scheme \<Rightarrow> bytes \<Rightarrow> 'c tdx_quote result" where
  "parse_tdx_quote pki qt =
     rbind (raise_if (length qt < SIGNED_LEN + 4) (quote_error ''TDX quote too short for header + TD report'')) (\<lambda>_.
     rbind (u16 qt 0) (\<lambda>version.
     rbind (u16 qt 2) (\<lambda>att_key_type.
     rbind (u32 qt 4) (\<lambda>tee_type.
     rbind (raise_if (tee_type \<noteq> 0x81) (quote_error ''not a TDX quote'')) (\<lambda>_.
     rbind (raise_if (att_key_type \<noteq> 2) (QuoteFormatError (us ''unsupported attestation key type '' @ nat_str att_key_type))) (\<lambda>_.
     rbind (u32 qt SIGNED_LEN) (\<lambda>sig_len.
     let sig_start = SIGNED_LEN + 4 in
     rbind (raise_if (length qt < sig_start + sig_len \<or> sig_len < SIG_FIXED_LEN) (quote_error ''TDX signature section truncated'')) (\<lambda>_.
     let sig = slice sig_start (sig_start + sig_len) qt in
     rbind (raise_if (list_ex (\<lambda>b. b \<noteq> 0) (drop (sig_start + sig_len) qt)) (quote_error ''nonzero bytes after the TDX signature section'')) (\<lambda>_.
     let off = ECDSA_SIG_LEN + ECDSA_PUBKEY_LEN in
     rbind (u16 sig off) (\<lambda>qe_cd_type.
     rbind (raise_if (qe_cd_type \<noteq> 6) (QuoteFormatError (us ''unexpected QE certification-data type '' @ nat_str qe_cd_type @ us '' (want 6)''))) (\<lambda>_.
     rbind (u32 sig (off + 2)) (\<lambda>qe_cd_size.
     let off = off + 6 in
     rbind (raise_if (off + qe_cd_size \<noteq> length sig) (quote_error ''QE certification data size does not match the signature section'')) (\<lambda>_.
     rbind (parse_qe_certification pki (drop off sig)) (\<lambda>(qe_report, qe_report_sig, qe_auth, leaf, rest).
     Inr \<lparr>tq_version = version, tq_tee_type = tee_type, tq_signed_body = take SIGNED_LEN qt,
          tq_report = parse_td_report (slice TDX_HEADER_LEN SIGNED_LEN qt),
          tq_quote_signature = take ECDSA_SIG_LEN sig,
          tq_attestation_pubkey = slice ECDSA_SIG_LEN (ECDSA_SIG_LEN + ECDSA_PUBKEY_LEN) sig,
          tq_qe_report = qe_report, tq_qe_report_signature = qe_report_sig, tq_qe_auth_data = qe_auth,
          tq_pck_leaf = leaf, tq_pck_intermediates = rest\<rparr>))))))))))))))"

subsection \<open>The verifier\<close>

definition qe_identity_error :: "bytes \<Rightarrow> pystr option result" where
  "qe_identity_error qe_report =
     (let mrsigner = slice 128 (128 + 32) qe_report in
      if mrsigner \<noteq> INTEL_TD_QE_MRSIGNER
      then Inr (Some (us ''QE report is not from Intel TD Quoting Enclave (MRSIGNER '' @ hex_of_bytes mrsigner @ us '')''))
      else rbind (u16 qe_report 256) (\<lambda>isvprodid.
        if isvprodid \<noteq> 2 then Inr (Some (us ''QE report product id is not Intel TD Quoting Enclave''))
        else if map2 (AND) (slice 48 (48 + 16) qe_report) INTEL_TD_QE_ATTRIBUTES_MASK \<noteq> INTEL_TD_QE_ATTRIBUTES
        then Inr (Some (us ''QE report attributes do not match Intel TD Quoting Enclave (debug or unexpected flags)''))
        else rbind (u32 qe_report 16) (\<lambda>miscselect.
          if miscselect AND 0xFFFFFFFF \<noteq> 0
          then Inr (Some (us ''QE report MISCSELECT does not match Intel TD Quoting Enclave'')) else Inr None)))"

definition sig_invalid :: "exn \<Rightarrow> bool" where
  "sig_invalid e \<longleftrightarrow> is_InvalidSignature e \<or> is_ValueError e"

definition tdx_signature :: "exn option \<Rightarrow> pystr \<Rightarrow> quote_verification result \<Rightarrow> quote_verification result" where
  "tdx_signature outcome msg cont =
     (case outcome of None \<Rightarrow> cont | Some e \<Rightarrow> if sig_invalid e then Inr (qv_fail msg) else Inl e)"

definition att_key_verify :: "('c, 'x) tdx_pki_scheme \<Rightarrow> 'c tdx_quote \<Rightarrow> exn option" where
  "att_key_verify pki q =
     p256_verify pki (be_int (take 32 (tq_attestation_pubkey q))) (be_int (slice 32 64 (tq_attestation_pubkey q)))
       (raw_ecdsa_to_der pki (tq_quote_signature q)) (tq_signed_body q)"

definition verify_tdx_quote ::
  "('y) crypto_scheme \<Rightarrow> ('c, 'x) tdx_pki_scheme \<Rightarrow> bytes \<Rightarrow> 'c list \<Rightarrow> pystr option \<Rightarrow> bytes \<Rightarrow> time \<Rightarrow> quote_verification result" where
  "verify_tdx_quote cr pki qt roots expected_nonce channel_binding now =
     (case parse_tdx_quote pki qt of
        Inl e \<Rightarrow> if is_QuoteFormatError e then Inr (qv_fail (exn_text e)) else Inl e
      | Inr q \<Rightarrow>
     tdx_signature (att_key_verify pki q) (us ''quote signature does not verify under the attestation key'')
     (let qe_report_data = slice 320 (320 + 64) (tq_qe_report q) in
      if take 32 qe_report_data \<noteq> sha256 cr (tq_attestation_pubkey q @ tq_qe_auth_data q) \<or> drop 32 qe_report_data \<noteq> replicate 32 0
      then Inr (qv_fail (us ''attestation key not bound in the QE report''))
      else case public_key pki (tq_pck_leaf q) of
        Inl e \<Rightarrow> if is_ValueError e \<or> is_UnsupportedAlgorithm e
                 then Inr (qv_fail (us ''PCK leaf public key does not parse'')) else Inl e
      | Inr pck_pub \<Rightarrow>
          if \<not> is_EC pck_pub then Inr (qv_fail (us ''PCK leaf is not an ECDSA certificate''))
          else tdx_signature
            (report_verify pki (tq_pck_leaf q) ECDSA_SHA256 (raw_ecdsa_to_der pki (tq_qe_report_signature q)) (tq_qe_report q))
            (us ''QE report signature does not verify under the PCK leaf'')
            (rbind (qe_identity_error (tq_qe_report q)) (\<lambda>ie.
             case ie of Some msg \<Rightarrow> Inr (qv_fail msg) | None \<Rightarrow>
             rbind (verify_cert_chain pki (tq_pck_leaf q) (tq_pck_intermediates q) roots now) (\<lambda>ce.
             case ce of Some msg \<Rightarrow> Inr (qv_fail msg) | None \<Rightarrow>
             rbind (case expected_nonce of
                 None \<Rightarrow> Inr True
               | Some n \<Rightarrow> (case bytes_fromhex n of
                    None \<Rightarrow> Inl (ValueError (us ''non-hexadecimal number found in fromhex() arg''))
                  | Some nonce \<Rightarrow> Inr (take 32 (td_report_data (tq_report q)) = sha256 cr (nonce @ channel_binding)))) (\<lambda>bound.
             if \<not> bound
             then Inr (qv_fail (if channel_binding \<noteq> []
                    then us ''REPORT_DATA does not bind the challenge nonce and transport key (possible relay)''
                    else us ''REPORT_DATA does not bind the challenge nonce (possible replay)''))
             else rbind (subject pki (tq_pck_leaf q)) (\<lambda>s.
               Inr \<lparr>qv_verified = True, qv_reason = None, qv_leaf_subject = Some s, qv_snp_report = None,
                    qv_gpu_measurement = None\<rparr>)))))))"

subsection \<open>Integers at an offset\<close>

lemma slice_split: "a \<le> b \<Longrightarrow> drop a xs = slice a b xs @ drop b xs"
  by (metis append_take_drop_id drop_drop le_add_diff_inverse2 slice_def)

lemma int_le_le_int: "int_le (length bs) (le_int bs) = bs"
proof (induction bs)
  case (Cons b bs)
  have "word_of_int ((uint b + 256 * le_int bs) mod 256) = b"
    using uint_byte_bounds [of b] by (simp add: mod_pos_pos_trivial)
  moreover have "(uint b + 256 * le_int bs) div 256 = le_int bs"
    using uint_byte_bounds [of b] by simp
  ultimately show ?case using Cons.IH by simp
qed simp

lemma int_le_le_nat: "length bs = w \<Longrightarrow> int_le w (int (le_nat bs)) = bs"
  using int_le_le_int [of bs] le_int_nonneg [of bs] by (auto simp: le_nat_def)

lemma le_nat_bound: "le_nat bs < 256 ^ length bs"
proof -
  have "int (le_nat bs) < 256 ^ length bs" using le_int_bound [of bs] le_int_nonneg [of bs] by (simp add: le_nat_def)
  then show ?thesis by (metis of_nat_less_iff of_nat_numeral of_nat_power)
qed

lemma u16_iff: "u16 b off = Inr n \<longleftrightarrow> off + 2 \<le> length b \<and> slice off (off + 2) b = int_le 2 (int n) \<and> n < 65536"
proof
  assume "u16 b off = Inr n"
  then have l: "off + 2 \<le> length b" and n: "n = le_nat (slice off (off + 2) b)" by (auto simp: u16_def split: if_split_asm)
  have len: "length (slice off (off + 2) b) = 2" using l by (simp add: length_slice)
  show "off + 2 \<le> length b \<and> slice off (off + 2) b = int_le 2 (int n) \<and> n < 65536"
    using l n int_le_le_nat [OF len] le_nat_bound [of "slice off (off + 2) b"] len by simp
qed (auto simp: u16_def le_nat_int_le)

lemma u32_iff: "u32 b off = Inr n \<longleftrightarrow> off + 4 \<le> length b \<and> slice off (off + 4) b = int_le 4 (int n) \<and> n < 2 ^ 32"
proof
  assume "u32 b off = Inr n"
  then have l: "off + 4 \<le> length b" and n: "n = le_nat (slice off (off + 4) b)" by (auto simp: u32_def split: if_split_asm)
  have len: "length (slice off (off + 4) b) = 4" using l by (simp add: length_slice)
  show "off + 4 \<le> length b \<and> slice off (off + 4) b = int_le 4 (int n) \<and> n < 2 ^ 32"
    using l n int_le_le_nat [OF len] le_nat_bound [of "slice off (off + 4) b"] len by simp
qed (auto simp: u32_def le_nat_int_le)

subsection \<open>The layout of a quote\<close>

definition qe_certification :: "bytes \<Rightarrow> bytes \<Rightarrow> bytes \<Rightarrow> bytes \<Rightarrow> bytes" where
  "qe_certification qe qe_sig auth pem =
     qe @ qe_sig @ int_le 2 (int (length auth)) @ auth @ int_le 2 5 @ int_le 4 (int (length pem)) @ pem"

definition tdx_layout :: "bytes \<Rightarrow> bytes \<Rightarrow> bytes \<Rightarrow> bytes \<Rightarrow> bytes \<Rightarrow> bytes" where
  "tdx_layout body qsig att_key cd pad =
     body @ int_le 4 (int (134 + length cd)) @ qsig @ att_key @ int_le 2 6 @ int_le 4 (int (length cd)) @ cd @ pad"

lemma parse_pck_chain_iff: "parse_pck_chain pki pem = Inr (leaf, rest) \<longleftrightarrow> load_pem_certificates pki pem = Inr (leaf # rest)"
  by (auto simp: parse_pck_chain_def split: sum.split list.split)

lemma parse_qe_certification_iff:
  "parse_qe_certification pki cd = Inr (qe, qe_sig, auth, leaf, rest) \<longleftrightarrow>
   (\<exists>pem. cd = qe_certification qe qe_sig auth pem \<and> length qe = 384 \<and> length qe_sig = 64 \<and> length auth < 65536 \<and>
      length pem < 2 ^ 32 \<and> load_pem_certificates pki pem = Inr (leaf # rest))"
  (is "?L \<longleftrightarrow> ?R")
proof
  assume ?L
  then obtain as psz where l: "450 \<le> length cd" and as: "u16 cd 448 = Inr as" "450 + as + 6 \<le> length cd"
    and ty: "u16 cd (450 + as) = Inr 5" and ps: "u32 cd (452 + as) = Inr psz"
    and pl: "length (slice (456 + as) (456 + as + psz) cd) = psz" and pe: "456 + as + psz = length cd"
    and pem: "load_pem_certificates pki (slice (456 + as) (456 + as + psz) cd) = Inr (leaf # rest)"
    and parts: "qe = take 384 cd" "qe_sig = slice 384 448 cd" "auth = slice 450 (450 + as) cd"
    by (auto simp: parse_qe_certification_def tdx_consts rbind_Inr_iff Let_def parse_pck_chain_iff add.commute add.left_commute)
  let ?pem = "slice (456 + as) (456 + as + psz) cd"
  have "cd = take 384 cd @ drop 384 cd" by simp
  also have "drop 384 cd = slice 384 448 cd @ slice 448 450 cd @ slice 450 (450 + as) cd @ slice (450 + as) (452 + as) cd @
      slice (452 + as) (456 + as) cd @ ?pem @ drop (456 + as + psz) cd"
    by (simp add: slice_split [symmetric])
  also have "drop (456 + as + psz) cd = []" using pe by simp
  finally have "cd = qe_certification qe qe_sig auth ?pem"
    using as ty ps pl parts l by (simp add: qe_certification_def u16_iff u32_iff length_slice add.commute)
  moreover have "length auth < 65536" "length ?pem < 2 ^ 32"
    using as ps pl parts by (auto simp: u16_iff u32_iff length_slice)
  ultimately show ?R using l parts pem by (intro exI [of _ ?pem]) (simp add: length_slice)
next
  assume ?R
  then obtain pem where cd: "cd = qe_certification qe qe_sig auth pem" and l: "length qe = 384" "length qe_sig = 64" "length auth < 65536"
    "length pem < 2 ^ 32" and pem: "load_pem_certificates pki pem = Inr (leaf # rest)" by blast
  have len: "length cd = 456 + length auth + length pem" using l by (simp add: cd qe_certification_def)
  have q: "take 384 cd = qe" "slice 384 448 cd = qe_sig" using l by (simp_all add: cd qe_certification_def slice_def)
  have a: "u16 cd 448 = Inr (length auth)" using l len
    by (simp add: u16_iff) (simp add: cd qe_certification_def slice_def)
  have a': "slice 450 (450 + length auth) cd = auth" using l by (simp add: cd qe_certification_def slice_def)
  have t: "u16 cd (450 + length auth) = Inr 5" using l len by (simp add: u16_iff) (simp add: cd qe_certification_def slice_def)
  have p: "u32 cd (452 + length auth) = Inr (length pem)" using l len by (simp add: u32_iff) (simp add: cd qe_certification_def slice_def)
  have p': "slice (456 + length auth) (456 + length auth + length pem) cd = pem" using l by (simp add: cd qe_certification_def slice_def)
  show ?L using len q a a' t p p' pem
    by (simp add: parse_qe_certification_def tdx_consts Let_def parse_pck_chain_iff [THEN iffD2, OF pem])
qed

lemma parse_tdx_quote_steps:
  assumes "parse_tdx_quote pki qt = Inr q"
  obtains version sl qe qe_sig auth leaf rest where "636 \<le> length qt"
    "u16 qt 0 = Inr version" "u16 qt 2 = Inr 2" "u32 qt 4 = Inr 0x81"
    "u32 qt 632 = Inr sl" "636 + sl \<le> length qt" "134 \<le> sl" "\<not> list_ex (\<lambda>b. b \<noteq> 0) (drop (636 + sl) qt)"
    "u16 (slice 636 (636 + sl) qt) 128 = Inr 6" "u32 (slice 636 (636 + sl) qt) 130 = Inr (sl - 134)"
    "parse_qe_certification pki (drop 134 (slice 636 (636 + sl) qt)) = Inr (qe, qe_sig, auth, leaf, rest)"
    "q = \<lparr>tq_version = version, tq_tee_type = 0x81, tq_signed_body = take 632 qt, tq_report = parse_td_report (slice 48 632 qt),
           tq_quote_signature = take 64 (slice 636 (636 + sl) qt), tq_attestation_pubkey = slice 64 128 (slice 636 (636 + sl) qt),
           tq_qe_report = qe, tq_qe_report_signature = qe_sig, tq_qe_auth_data = auth, tq_pck_leaf = leaf, tq_pck_intermediates = rest\<rparr>"
proof -
  note p = assms [unfolded parse_tdx_quote_def tdx_consts, simplified, unfolded Let_def rbind_Inr_iff raise_if_iff, simplified]
  then obtain version sl csz qe qe_sig auth leaf rest where s: "\<not> length qt < 636" "u16 qt 0 = Inr version" "u16 qt 2 = Inr 2" "u32 qt 4 = Inr 0x81"
    "u32 qt 632 = Inr sl" "\<not> length qt < 636 + sl" "\<not> sl < 134" "\<not> list_ex (\<lambda>b. b \<noteq> 0) (drop (636 + sl) qt)"
    "u16 (slice 636 (636 + sl) qt) 128 = Inr 6" "u32 (slice 636 (636 + sl) qt) 130 = Inr csz" "134 + csz = length (slice 636 (636 + sl) qt)"
    "parse_qe_certification pki (drop 134 (slice 636 (636 + sl) qt)) = Inr (qe, qe_sig, auth, leaf, rest)"
    "q = \<lparr>tq_version = version, tq_tee_type = 0x81, tq_signed_body = take 632 qt, tq_report = parse_td_report (slice 48 632 qt),
           tq_quote_signature = take 64 (slice 636 (636 + sl) qt), tq_attestation_pubkey = slice 64 128 (slice 636 (636 + sl) qt),
           tq_qe_report = qe, tq_qe_report_signature = qe_sig, tq_qe_auth_data = auth, tq_pck_leaf = leaf, tq_pck_intermediates = rest\<rparr>"
    by (elim exE conjE) auto
  have "csz = sl - 134" using s(6,7,11) by (simp add: length_slice)
  with s show ?thesis by (intro that) auto
qed

lemma parse_tdx_layout:
  assumes qt: "qt = tdx_layout body qsig att_key (qe_certification qe qe_sig auth pem) (replicate pad 0)"
    and b: "length body = 632" "u16 body 0 = Inr version" "u16 body 2 = Inr 2" "u32 body 4 = Inr 0x81"
    and l: "length qsig = 64" "length att_key = 64" "length qe = 384" "length qe_sig = 64" "length auth < 65536"
      "590 + length auth + length pem < 2 ^ 32"
    and pem: "load_pem_certificates pki pem = Inr (leaf # rest)"
    and q: "q = \<lparr>tq_version = version, tq_tee_type = 0x81, tq_signed_body = body, tq_report = parse_td_report (drop 48 body),
           tq_quote_signature = qsig, tq_attestation_pubkey = att_key, tq_qe_report = qe, tq_qe_report_signature = qe_sig,
           tq_qe_auth_data = auth, tq_pck_leaf = leaf, tq_pck_intermediates = rest\<rparr>"
  shows "parse_tdx_quote pki qt = Inr q"
proof -
  define cd where "cd = qe_certification qe qe_sig auth pem"
  define sig where "sig = qsig @ att_key @ int_le 2 6 @ int_le 4 (int (length cd)) @ cd"
  have lcd: "length cd = 456 + length auth + length pem" using l by (simp add: cd_def qe_certification_def)
  have c: "parse_qe_certification pki cd = Inr (qe, qe_sig, auth, leaf, rest)"
    unfolding cd_def parse_qe_certification_iff using l pem by (intro exI [of _ pem]) simp
  have lsig: "length sig = 134 + length cd" using l by (simp add: sig_def)
  have qs: "qt = body @ int_le 4 (int (length sig)) @ sig @ replicate pad 0" by (simp add: qt tdx_layout_def sig_def l cd_def [symmetric])
  have h: "u16 qt 0 = Inr version" "u16 qt 2 = Inr 2" "u32 qt 4 = Inr 0x81"
    using b unfolding qs by (auto simp: u16_iff u32_iff slice_def)
  have sl: "u32 qt 632 = Inr (length sig)" using b(1) l(6) lsig lcd unfolding qs by (simp add: u32_iff slice_def)
  have s: "slice 636 (636 + length sig) qt = sig" using b(1) unfolding qs by (simp add: slice_def)
  have z: "drop (636 + length sig) qt = replicate pad 0" using b(1) unfolding qs by simp
  have sg: "u16 sig 128 = Inr 6" "u32 sig 130 = Inr (length cd)" "drop 134 sig = cd" "take 64 sig = qsig" "slice 64 128 sig = att_key"
    using l lcd by (simp_all add: u16_iff u32_iff) (simp_all add: sig_def slice_def)
  have t: "take 632 qt = body" "slice 48 632 qt = drop 48 body" using b(1) unfolding qs by (simp_all add: slice_def)
  have lq: "\<not> length qt < 636" "\<not> length qt < 636 + length sig" "\<not> length sig < 134" using b(1) lsig unfolding qs by simp_all
  show ?thesis
    by (simp add: parse_tdx_quote_def tdx_consts Let_def h sl s z sg t lq c q list_ex_iff) (simp add: lsig)
qed

text \<open>
  C15 (TDX quotes). The parser accepts exactly one layout: a quote parses if and only if it is a
  header and TD report of 632 bytes with the TDX type and the ECDSA key type, the length of the
  signature section, the signature, the attestation key, one certification entry of type 6 that
  fills the section and holds the quoting enclave's report, its signature, the authentication data
  and one PEM chain of type 5, and then only zero bytes. The result carries exactly those parts, so
  no byte of an accepted quote is unaccounted for.
\<close>

theorem tdx_quote_layout:
  "parse_tdx_quote pki qt = Inr q \<longleftrightarrow>
   (\<exists>body qsig att_key qe qe_sig auth pem leaf rest version pad.
      qt = tdx_layout body qsig att_key (qe_certification qe qe_sig auth pem) (replicate pad 0) \<and>
      length body = 632 \<and> u16 body 0 = Inr version \<and> u16 body 2 = Inr 2 \<and> u32 body 4 = Inr 0x81 \<and>
      length qsig = 64 \<and> length att_key = 64 \<and> length qe = 384 \<and> length qe_sig = 64 \<and> length auth < 65536 \<and>
      590 + length auth + length pem < 2 ^ 32 \<and> load_pem_certificates pki pem = Inr (leaf # rest) \<and>
      q = \<lparr>tq_version = version, tq_tee_type = 0x81, tq_signed_body = body, tq_report = parse_td_report (drop 48 body),
           tq_quote_signature = qsig, tq_attestation_pubkey = att_key, tq_qe_report = qe, tq_qe_report_signature = qe_sig,
           tq_qe_auth_data = auth, tq_pck_leaf = leaf, tq_pck_intermediates = rest\<rparr>)"
  (is "?L \<longleftrightarrow> ?R")
proof
  assume ?L
  then obtain version sl qe qe_sig auth leaf rest where l: "636 \<le> length qt"
    and h: "u16 qt 0 = Inr version" "u16 qt 2 = Inr 2" "u32 qt 4 = Inr 0x81"
    and sl: "u32 qt 632 = Inr sl" "636 + sl \<le> length qt" "134 \<le> sl" and z: "\<not> list_ex (\<lambda>b. b \<noteq> 0) (drop (636 + sl) qt)"
    and ty: "u16 (slice 636 (636 + sl) qt) 128 = Inr 6"
    and cs: "u32 (slice 636 (636 + sl) qt) 130 = Inr (sl - 134)"
    and cd: "parse_qe_certification pki (drop 134 (slice 636 (636 + sl) qt)) = Inr (qe, qe_sig, auth, leaf, rest)"
    and q: "q = \<lparr>tq_version = version, tq_tee_type = 0x81, tq_signed_body = take 632 qt, tq_report = parse_td_report (slice 48 632 qt),
           tq_quote_signature = take 64 (slice 636 (636 + sl) qt), tq_attestation_pubkey = slice 64 128 (slice 636 (636 + sl) qt),
           tq_qe_report = qe, tq_qe_report_signature = qe_sig, tq_qe_auth_data = auth, tq_pck_leaf = leaf, tq_pck_intermediates = rest\<rparr>"
    by (rule parse_tdx_quote_steps)
  define sig where "sig = slice 636 (636 + sl) qt"
  define pad where "pad = length (drop (636 + sl) qt)"
  note f = ty cs cd q
  note f = f [folded sig_def]
  have lsig: "length sig = sl" using sl by (simp add: length_slice sig_def)
  obtain pem where pem: "drop 134 sig = qe_certification qe qe_sig auth pem" "length qe = 384" "length qe_sig = 64" "length auth < 65536"
    "load_pem_certificates pki pem = Inr (leaf # rest)" using f(3) by (auto simp: parse_qe_certification_iff)
  have lcd: "length (qe_certification qe qe_sig auth pem) = sl - 134" using arg_cong [OF pem(1), of length] lsig by simp
  have "sig = take 64 sig @ slice 64 128 sig @ slice 128 130 sig @ slice 130 134 sig @ drop 134 sig"
    by (simp add: slice_split [symmetric])
  then have s: "sig = take 64 sig @ slice 64 128 sig @ int_le 2 6 @ int_le 4 (int (sl - 134)) @ qe_certification qe qe_sig auth pem"
    using f(1,2) pem(1) by (simp add: u16_iff u32_iff)
  have zz: "drop (636 + sl) qt = replicate pad 0"
    unfolding pad_def by (rule replicate_length_same [symmetric]) (use z in \<open>simp add: list_ex_iff\<close>)
  have "qt = take 632 qt @ slice 632 636 qt @ sig @ drop (636 + sl) qt" by (simp add: slice_split [symmetric] sig_def)
  then have qt: "qt = take 632 qt @ int_le 4 (int sl) @ sig @ replicate pad 0"
    using sl(1) zz by (simp add: u32_iff)
  have sl': "sl = 134 + length (qe_certification qe qe_sig auth pem)" using lcd sl(3) by simp
  have lay: "qt = tdx_layout (take 632 qt) (take 64 sig) (slice 64 128 sig) (qe_certification qe qe_sig auth pem) (replicate pad 0)"
  proof -
    note e = arg_cong [OF s, of "\<lambda>x. take 632 qt @ int_le 4 (int sl) @ x @ replicate pad 0", folded qt]
    have "134 + (sl - 134) = sl" using sl(3) by simp
    then show ?thesis unfolding tdx_layout_def lcd by (simp only: append_assoc e [unfolded append_assoc, symmetric])
  qed
  have hd: "u16 (take 632 qt) 0 = Inr version" "u16 (take 632 qt) 2 = Inr 2" "u32 (take 632 qt) 4 = Inr 0x81"
    using h l by (simp_all add: u16_iff u32_iff slice_take)
  have "sl < 4294967296" using sl(1) by (simp add: u32_iff)
  then have bd: "590 + length auth + length pem < 2 ^ 32" using sl' pem(2,3) by (simp add: qe_certification_def)
  have "slice 48 632 qt = drop 48 (take 632 qt)" by (simp add: slice_def drop_take)
  with f(4) have q': "q = \<lparr>tq_version = version, tq_tee_type = 0x81, tq_signed_body = take 632 qt, tq_report = parse_td_report (drop 48 (take 632 qt)),
      tq_quote_signature = take 64 sig, tq_attestation_pubkey = slice 64 128 sig, tq_qe_report = qe, tq_qe_report_signature = qe_sig,
      tq_qe_auth_data = auth, tq_pck_leaf = leaf, tq_pck_intermediates = rest\<rparr>" by simp
  have "length (take 632 qt) = 632" "length (take 64 sig) = 64" "length (slice 64 128 sig) = 64"
    using l lsig sl(3) by (simp_all add: length_slice)
  with lay hd bd q' pem(2-5) show ?R by blast
next
  assume ?R
  then show ?L by (elim exE conjE) (rule parse_tdx_layout)
qed

subsection \<open>Malformed input\<close>

lemma u16_Inl: "u16 b off = Inl e \<longleftrightarrow> length b < off + 2 \<and> e = struct_error"
  by (auto simp: u16_def)

lemma u32_Inl: "u32 b off = Inl e \<longleftrightarrow> length b < off + 4 \<and> e = struct_error"
  by (auto simp: u32_def)

text \<open>An exception that is not a \<open>ValueError\<close>, raised by the X.509 package itself on some bytes of the input.\<close>

definition loader_escape :: "('c, 'x) gpu_pki_scheme \<Rightarrow> bytes \<Rightarrow> exn \<Rightarrow> bool" where
  "loader_escape pki qt e \<longleftrightarrow> \<not> is_ValueError e \<and> (\<exists>pre pem post. qt = pre @ pem @ post \<and> load_pems pki pem = Inl e)"

lemma loader_escape_within:
  assumes "loader_escape pki x e" and "qt = u @ x @ v"
  shows "loader_escape pki qt e"
proof -
  obtain pre pem post where p: "\<not> is_ValueError e" "x = pre @ pem @ post" "load_pems pki pem = Inl e"
    using assms(1) unfolding loader_escape_def by blast
  have "qt = (u @ pre) @ pem @ (post @ v)" using assms(2) p(2) by simp
  with p(1,3) show ?thesis unfolding loader_escape_def by blast
qed

lemma loader_escape_slice: "loader_escape pki (slice a b qt) e \<Longrightarrow> loader_escape pki qt e"
  by (erule loader_escape_within [of _ _ _ _ "take a qt" "drop (b - a) (drop a qt)"])
     (simp only: slice_def append_take_drop_id)

lemma loader_escape_drop: "loader_escape pki (drop a qt) e \<Longrightarrow> loader_escape pki qt e"
  by (erule loader_escape_within [of _ _ _ _ "take a qt" "[]"]) simp

lemma parse_pck_chain_Inl:
  assumes "parse_pck_chain pki blob = Inl e"
  shows "is_QuoteFormatError e \<or> loader_escape pki blob e"
proof (cases "load_pems pki blob")
  case (Inl e')
  have "loader_escape pki blob e'" if "\<not> is_ValueError e'"
    using that Inl unfolding loader_escape_def by (metis append_Nil append_Nil2)
  with Inl assms show ?thesis by (cases "is_ValueError e'") (auto simp: parse_pck_chain_def load_pem_certificates_def)
next
  case (Inr cs)
  with assms show ?thesis
    by (auto simp: parse_pck_chain_def quote_error_def load_pem_certificates_def split: list.split_asm if_split_asm)
qed

lemma parse_qe_certification_Inl: "parse_qe_certification pki cd = Inl e \<Longrightarrow> is_QuoteFormatError e \<or> loader_escape pki cd e"
  by (auto simp: parse_qe_certification_def tdx_consts Let_def rbind_Inl_iff u16_Inl u32_Inl quote_error_def
      dest!: parse_pck_chain_Inl intro: loader_escape_slice)

lemma parse_tdx_quote_Inl: "parse_tdx_quote pki qt = Inl e \<Longrightarrow> is_QuoteFormatError e \<or> loader_escape pki qt e"
  by (auto simp: parse_tdx_quote_def tdx_consts Let_def rbind_Inl_iff u16_Inl u32_Inl quote_error_def length_slice
      dest!: parse_qe_certification_Inl loader_escape_drop intro: loader_escape_slice)

text \<open>
  C17 (TDX quotes). Whatever bytes the parser is given, no read of a length or type field leaves the
  quote. It answers with a parsed quote; or with a \<open>QuoteFormatError\<close>, and then the verifier answers with
  a denial that carries the reason; or, the one way anything else escapes the parser and the
  verifier, with an exception other than a \<open>ValueError\<close> that the X.509 package itself raised on
  certificate bytes inside the quote. In particular a \<open>struct.error\<close> never comes out of the parser's own
  reads.
\<close>

theorem tdx_malformed_is_denied:
  "(\<exists>q. parse_tdx_quote pki qt = Inr q) \<or>
   (\<exists>m. parse_tdx_quote pki qt = Inl (QuoteFormatError m) \<and> verify_tdx_quote cr pki qt roots nonce binding now = Inr (qv_fail m)) \<or>
   (\<exists>e. parse_tdx_quote pki qt = Inl e \<and> verify_tdx_quote cr pki qt roots nonce binding now = Inl e \<and> loader_escape pki qt e)"
proof (cases "parse_tdx_quote pki qt")
  case (Inl e)
  show ?thesis
  proof (cases "is_QuoteFormatError e")
    case True
    with Inl show ?thesis by (cases e) (auto simp: verify_tdx_quote_def)
  next
    case False
    with Inl parse_tdx_quote_Inl [OF Inl] show ?thesis by (simp add: verify_tdx_quote_def)
  qed
qed simp

subsection \<open>What a verified quote guarantees\<close>

lemma tdx_signature_ok: "tdx_signature oc msg cont = Inr v \<Longrightarrow> qv_verified v \<Longrightarrow> oc = None \<and> cont = Inr v"
  by (auto simp: tdx_signature_def split: option.split_asm if_split_asm)

lemma qe_identity_ok:
  assumes "qe_identity_error qe = Inr None"
  shows "slice 128 160 qe = INTEL_TD_QE_MRSIGNER" "u16 qe 256 = Inr 2"
    "map2 (AND) (slice 48 64 qe) INTEL_TD_QE_ATTRIBUTES_MASK = INTEL_TD_QE_ATTRIBUTES"
  using assms by (auto simp: qe_identity_error_def Let_def rbind_Inr_iff split: if_split_asm)

lemma qe_not_debug:
  assumes "map2 (AND) (slice 48 64 qe) INTEL_TD_QE_ATTRIBUTES_MASK = INTEL_TD_QE_ATTRIBUTES" and "length qe = 384"
  shows "\<not> bit (qe ! 48) 1"
proof -
  have l: "length (slice 48 64 qe) = 16" using assms(2) by (simp add: length_slice)
  have "map2 (AND) (slice 48 64 qe) INTEL_TD_QE_ATTRIBUTES_MASK ! 0 = INTEL_TD_QE_ATTRIBUTES ! 0" using assms(1) by simp
  then have "(qe ! 48) AND 0xfb = (0x11 :: byte)"
    using l assms(2) by (simp add: INTEL_TD_QE_ATTRIBUTES_MASK_def INTEL_TD_QE_ATTRIBUTES_def slice_def)
  then have "bit ((qe ! 48) AND 0xfb) 1 = bit (0x11 :: byte) 1" by simp
  then show ?thesis by (simp add: bit_and_iff)
qed

lemma verify_tdx_accepts:
  assumes "verify_tdx_quote cr pki qt roots nonce binding now = Inr v" and "qv_verified v"
  obtains q where "parse_tdx_quote pki qt = Inr q" "att_key_verify pki q = None"
    "take 32 (slice 320 384 (tq_qe_report q)) = sha256 cr (tq_attestation_pubkey q @ tq_qe_auth_data q)"
    "drop 32 (slice 320 384 (tq_qe_report q)) = replicate 32 0" 
    "report_verify pki (tq_pck_leaf q) ECDSA_SHA256 (raw_ecdsa_to_der pki (tq_qe_report_signature q)) (tq_qe_report q) = None"
    "qe_identity_error (tq_qe_report q) = Inr None"
    "verify_cert_chain pki (tq_pck_leaf q) (tq_pck_intermediates q) roots now = Inr None"
    "\<And>n. nonce = Some n \<Longrightarrow> \<exists>raw. bytes_fromhex n = Some raw \<and> take 32 (td_report_data (tq_report q)) = sha256 cr (raw @ binding)"
proof -
  obtain q where q: "parse_tdx_quote pki qt = Inr q"
    using assms by (cases "parse_tdx_quote pki qt") (auto simp: verify_tdx_quote_def split: if_split_asm)
  note a = assms(1) [unfolded verify_tdx_quote_def q sum.case Let_def]
  note s1 = tdx_signature_ok [OF a assms(2)]
  let ?d = "slice 320 (320 + 64) (tq_qe_report q)"
  have b: "\<not> (take 32 ?d \<noteq> sha256 cr (tq_attestation_pubkey q @ tq_qe_auth_data q) \<or> drop 32 ?d \<noteq> replicate 32 0)"
    using s1 assms(2) by (auto split: if_split_asm)
  note a2 = conjunct2 [OF s1, unfolded if_not_P [OF b]]
  obtain pub where pub: "public_key pki (tq_pck_leaf q) = Inr pub"
    using a2 assms(2) by (cases "public_key pki (tq_pck_leaf q)") (auto split: if_split_asm)
  note a3 = a2 [unfolded pub sum.case]
  have ec: "\<not> \<not> is_EC pub" using a3 assms(2) by (auto split: if_split_asm)
  note s2 = tdx_signature_ok [OF a3 [unfolded if_not_P [OF ec]] assms(2)]
  obtain ie where ie: "qe_identity_error (tq_qe_report q) = Inr ie" using s2 unfolding rbind_Inr_iff by blast
  then have ie0: "ie = None" using s2 assms(2) by (cases ie) auto
  note a4 = conjunct2 [OF s2, unfolded ie ie0 rbind_simps option.case]
  obtain ce where ce: "verify_cert_chain pki (tq_pck_leaf q) (tq_pck_intermediates q) roots now = Inr ce" using a4 unfolding rbind_Inr_iff by blast
  then have ce0: "ce = None" using a4 assms(2) by (cases ce) auto
  note a5 = a4 [unfolded ce ce0 rbind_simps option.case]
  have "\<exists>raw. bytes_fromhex n = Some raw \<and> take 32 (td_report_data (tq_report q)) = sha256 cr (raw @ binding)" if "nonce = Some n" for n
    using a5 assms(2) that by (cases "bytes_fromhex n") (auto split: if_split_asm)
  then show ?thesis using q s1 s2 b ie ie0 ce ce0 by (intro that) auto
qed

text \<open>
  C16 (TDX quotes). A verified TDX quote parsed; its header and TD report are signed by an attestation
  key that Intel's TD quoting enclave, not in debug mode, vouches for in a report that carries the
  key's digest and is signed by the PCK leaf; the leaf has a path to a trusted root; and, when a
  nonce is expected, the TD report binds it together with the transport key.
\<close>

theorem verified_tdx_quote_is_bound:
  assumes "verify_tdx_quote cr pki qt roots nonce binding now = Inr v" and "qv_verified v"
  shows "\<exists>q. parse_tdx_quote pki qt = Inr q \<and> tq_signed_body q = take 632 qt \<and> tq_report q = parse_td_report (slice 48 632 qt) \<and>
    att_key_verify pki q = None \<and>
    take 32 (slice 320 384 (tq_qe_report q)) = sha256 cr (tq_attestation_pubkey q @ tq_qe_auth_data q) \<and>
    report_verify pki (tq_pck_leaf q) ECDSA_SHA256 (raw_ecdsa_to_der pki (tq_qe_report_signature q)) (tq_qe_report q) = None \<and>
    slice 128 160 (tq_qe_report q) = INTEL_TD_QE_MRSIGNER \<and> u16 (tq_qe_report q) 256 = Inr 2 \<and> \<not> bit (tq_qe_report q ! 48) 1 \<and>
    trusted_path pki roots now 0 (tq_pck_leaf q # tq_pck_intermediates q) \<and>
    (\<forall>n. nonce = Some n \<longrightarrow> (\<exists>raw. bytes_fromhex n = Some raw \<and> take 32 (td_report_data (tq_report q)) = sha256 cr (raw @ binding)))"
  using assms
proof (cases rule: verify_tdx_accepts)
  case (1 q)
  have "tq_signed_body q = take 632 qt" "tq_report q = parse_td_report (slice 48 632 qt)" "length (tq_qe_report q) = 384"
    by (rule parse_tdx_quote_steps [OF 1(1)]; use 1(1) in \<open>auto simp: parse_qe_certification_iff\<close>)+
  with 1 qe_identity_ok [OF 1(6)] qe_not_debug verify_cert_chain_sound [OF 1(7)] show ?thesis by blast
qed

subsection \<open>The platform floor\<close>

datatype floor_state = floor_passed | floor_failed | floor_not_evaluated

definition floor_state_value :: "floor_state \<Rightarrow> pystr" where
  "floor_state_value s = (case s of floor_passed \<Rightarrow> us ''passed'' | floor_failed \<Rightarrow> us ''failed'' | floor_not_evaluated \<Rightarrow> us ''not_evaluated'')"

record floor_check =
  fc_name :: pystr
  fc_state :: floor_state
  fc_reason :: pystr

definition fc_ok :: "floor_check \<Rightarrow> bool" where
  "fc_ok c \<longleftrightarrow> fc_state c = floor_passed"

definition fc_as_dict :: "floor_check \<Rightarrow> json" where
  "fc_as_dict c = JDict [(us ''name'', JStr (fc_name c)), (us ''state'', JStr (floor_state_value (fc_state c))), (us ''reason'', JStr (fc_reason c))]"

record platform_floor =
  fl_seam_svn :: "int option"
  fl_forbid_debug :: bool

text \<open>The constructor, on whatever values the operator's configuration holds.\<close>

definition new_floor :: "json \<Rightarrow> json \<Rightarrow> platform_floor result" where
  "new_floor seam_svn_value forbid_debug_value =
     rbind (case seam_svn_value of
         JNull \<Rightarrow> Inr None
       | JInt n \<Rightarrow> if 0 \<le> n \<and> n \<le> 255 then Inr (Some n)
                   else Inl (ValueError (us ''seam_svn must be None or a non-boolean integer from 0 through 255''))
       | _ \<Rightarrow> Inl (ValueError (us ''seam_svn must be None or a non-boolean integer from 0 through 255''))) (\<lambda>svn.
     case forbid_debug_value of
       JBool b \<Rightarrow> Inr \<lparr>fl_seam_svn = svn, fl_forbid_debug = b\<rparr>
     | _ \<Rightarrow> Inl (ValueError (us ''forbid_debug must be a boolean'')))"

record floor_appraisal =
  ap_platform :: pystr
  ap_checks :: "floor_check list"
  ap_staleness :: "(int \<times> int \<times> bool) option" \<comment> \<open>floor, reported, floor\_behind\<close>

definition ap_ok :: "floor_appraisal \<Rightarrow> bool" where
  "ap_ok a \<longleftrightarrow> ap_checks a \<noteq> [] \<and> list_all fc_ok (ap_checks a)"

definition ap_evaluated :: "floor_appraisal \<Rightarrow> floor_check list" where
  "ap_evaluated a = filter (\<lambda>c. fc_state c \<noteq> floor_not_evaluated) (ap_checks a)"

definition ap_as_dict :: "floor_appraisal \<Rightarrow> json" where
  "ap_as_dict a = JDict
     ([(us ''platform'', JStr (ap_platform a)), (us ''checks'', JList (map fc_as_dict (ap_checks a))), (us ''ok'', JBool (ap_ok a))] @
      (case ap_staleness a of
         None \<Rightarrow> []
       | Some (f, r, behind) \<Rightarrow>
           [(us ''staleness'', JDict [(us ''floor'', JInt f), (us ''reported'', JInt r), (us ''floor_behind'', JBool behind)])]))"

definition staleness :: "int \<Rightarrow> int \<Rightarrow> int \<times> int \<times> bool" where
  "staleness floor_value reported = (floor_value, reported, reported > floor_value)"

definition floor_check_of :: "string \<Rightarrow> floor_state \<Rightarrow> pystr \<Rightarrow> floor_check" where
  "floor_check_of name st reason = \<lparr>fc_name = us name, fc_state = st, fc_reason = reason\<rparr>"

definition appraise_tdx :: "tdx_report \<Rightarrow> platform_floor \<Rightarrow> floor_appraisal" where
  "appraise_tdx report fl =
     (let (svn_check, stale) =
        (case seam_svn report of
           Inl _ \<Rightarrow> (floor_check_of ''intel-tdx.seam_svn'' floor_failed
              (us ''TEE_TCB_SVN is '' @ nat_str (length (td_tee_tcb_svn report)) @ us '' bytes, so the SEAM module SVN cannot be read''), None)
         | Inr reported \<Rightarrow>
             (case fl_seam_svn fl of
                None \<Rightarrow> (floor_check_of ''intel-tdx.seam_svn'' floor_not_evaluated
                   (us ''no seam_svn floor supplied for intel-tdx; the platform reports '' @ int_str reported), None)
              | Some low \<Rightarrow>
                  let met = reported \<ge> low
                  in (floor_check_of ''intel-tdx.seam_svn'' (if met then floor_passed else floor_failed)
                        (us ''SEAM module SVN '' @ int_str reported @ (if met then us '' meets'' else us '' is below'') @ us '' the floor of '' @ int_str low),
                      Some (staleness low reported))));
          debug_check =
            (if fl_forbid_debug fl
             then if td_debug report
                  then floor_check_of ''intel-tdx.debug'' floor_failed (us ''TDATTRIBUTES sets DEBUG, so the TD memory is readable from outside it'')
                  else floor_check_of ''intel-tdx.debug'' floor_passed (us ''TDATTRIBUTES has DEBUG clear'')
             else floor_check_of ''intel-tdx.debug'' floor_not_evaluated
                    (us ''the floor does not forbid debug, so TDATTRIBUTES bit 0 was not appraised''))
      in \<lparr>ap_platform = us ''intel-tdx'', ap_checks = [svn_check, debug_check], ap_staleness = stale\<rparr>)"

definition appraise_tdx_quote :: "('c, 'x) gpu_pki_scheme \<Rightarrow> bytes \<Rightarrow> platform_floor \<Rightarrow> floor_appraisal result" where
  "appraise_tdx_quote pki qt fl =
     (case parse_tdx_quote pki qt of
        Inl e \<Rightarrow> if is_QuoteFormatError e
                 then Inr \<lparr>ap_platform = us ''intel-tdx'',
                           ap_checks = [floor_check_of ''intel-tdx.quote'' floor_failed (us ''quote does not parse: '' @ exn_text e)],
                           ap_staleness = None\<rparr>
                 else Inl e
      | Inr q \<Rightarrow> Inr (appraise_tdx (tq_report q) fl))"

lemma slice_slice: "c + b \<le> d \<Longrightarrow> slice a b (slice c d xs) = slice (c + a) (c + b) xs"
  by (simp add: slice_def drop_take min_def add.commute)

lemma slice_Cons: "a < b \<Longrightarrow> a < length xs \<Longrightarrow> slice a b xs = xs ! a # slice (Suc a) b xs"
  by (simp add: slice_def Cons_nth_drop_Suc [symmetric] take_Cons' Suc_diff_Suc)

text \<open>
  Appraising any bytes against any floor ends with an appraisal, unless the X.509 package itself raises
  something other than a \<open>ValueError\<close> on the certificates, and the verdict
  is positive exactly when the bytes parse as a quote, the operator set a floor for the SEAM module
  and the reported version meets it, and the operator forbids debugging and the report has the debug
  bit clear. In particular an appraisal in which a check was not run is never positive, and the
  staleness note never changes the verdict.
\<close>

theorem floor_ok_iff:
  "(\<exists>e. appraise_tdx_quote pki qt fl = Inl e \<and> loader_escape pki qt e) \<or>
   (\<exists>a. appraise_tdx_quote pki qt fl = Inr a \<and>
     (ap_ok a \<longleftrightarrow> (\<exists>q low. parse_tdx_quote pki qt = Inr q \<and> fl_seam_svn fl = Some low \<and>
        low \<le> uint (qt ! 48) \<and> fl_forbid_debug fl \<and> \<not> bit (qt ! 168) 0)) \<and>
     ap_ok (a\<lparr>ap_staleness := s\<rparr>) = ap_ok a)"
proof (cases "parse_tdx_quote pki qt")
  case (Inl e)
  from parse_tdx_quote_Inl [OF this] Inl show ?thesis
    by (cases "is_QuoteFormatError e") (simp_all add: appraise_tdx_quote_def ap_ok_def floor_check_of_def fc_ok_def)
next
  case (Inr q)
  have l: "636 \<le> length qt" and r: "tq_report q = parse_td_report (slice 48 632 qt)"
    using parse_tdx_quote_steps [OF Inr] tdx_quote.select_convs(4) by metis+
  have t: "td_tee_tcb_svn (tq_report q) = slice 48 64 qt" by (simp add: r parse_td_report_def slice_slice)
  then have t': "td_tee_tcb_svn (tq_report q) = qt ! 48 # slice 49 64 qt" using slice_Cons [of 48 64 qt] l by simp
  have "td_attributes (tq_report q) = le_int (slice 168 176 qt)" by (simp add: r parse_td_report_def slice_slice)
  also have "slice 168 176 qt = qt ! 168 # slice 169 176 qt" using slice_Cons [of 168 176 qt] l by simp
  finally have "td_debug (tq_report q) \<longleftrightarrow> odd (uint (qt ! 168))" by (simp add: td_debug_def and_one_eq odd_iff_mod_2_eq_one) presburger
  then have d: "td_debug (tq_report q) \<longleftrightarrow> bit (qt ! 168) 0" by (metis bit_0 bit_uint_iff len_gt_0)
  have a: "appraise_tdx_quote pki qt fl = Inr (appraise_tdx (tq_report q) fl)" by (simp add: appraise_tdx_quote_def Inr)
  show ?thesis
    unfolding a using Inr by (cases "fl_seam_svn fl")
      (simp_all add: appraise_tdx_def seam_svn_def t' d ap_ok_def ap_evaluated_def floor_check_of_def fc_ok_def Let_def)
qed

subsection \<open>A concrete quote\<close>

definition tdx_demo_crypto :: crypto where
  "tdx_demo_crypto = demo_crypto\<lparr>hf := \<lparr>hf_sha256 = (\<lambda>_. replicate 32 0), hf_shake256 = (\<lambda>_. replicate 32 0)\<rparr>\<rparr>"

definition tdx_demo_pki :: "nat tdx_pki" where
  "tdx_demo_pki = gpu_pki.extend demo_gpu_pki (tdx_pki.fields (\<lambda>_ _ _ _. None))"

lemma tdx_demo_simps [simp]:
  "sha256 tdx_demo_crypto x = replicate 32 0" "p256_verify tdx_demo_pki kx ky s m = None" "report_verify tdx_demo_pki a p s m = None"
  "public_key tdx_demo_pki c = Inr (EC True)" "subject tdx_demo_pki c = Inr []" "load_pems tdx_demo_pki d = Inr [1, 2]"
  "serial_number tdx_demo_pki c = 1" "validity tdx_demo_pki c = Inr (0, 100)" "cert_verify tdx_demo_pki a b = None"
  "basic_constraints tdx_demo_pki c = Inr (Some (True, None))" "key_cert_sign tdx_demo_pki c = Inr None"
  by (simp_all add: tdx_demo_crypto_def tdx_demo_pki_def gpu_pki.defs tdx_pki.defs demo_gpu_pki_def pki.defs demo_pki_def)

definition tdx_demo_body :: bytes where
  "tdx_demo_body = [4, 0, 2, 0, 0x81, 0, 0, 0] @ replicate 624 0"

definition tdx_demo_qe :: bytes where
  "tdx_demo_qe = replicate 48 0 @ (0x11 # replicate 15 0) @ replicate 64 0 @ INTEL_TD_QE_MRSIGNER @ replicate 96 0 @ [2, 0] @ replicate 126 0"

definition tdx_demo_quote :: bytes where
  "tdx_demo_quote = tdx_layout tdx_demo_body (replicate 64 0) (replicate 64 0) (qe_certification tdx_demo_qe (replicate 64 0) [] []) (replicate 70 0)"

lemma tdx_demo_identity: "qe_identity_error tdx_demo_qe = Inr None"
proof -
  have m: "slice 128 (128 + 32) tdx_demo_qe = INTEL_TD_QE_MRSIGNER"
    by (simp add: tdx_demo_qe_def slice_def INTEL_TD_QE_MRSIGNER_def)
  have p: "u16 tdx_demo_qe 256 = Inr 2"
    by (simp add: u16_def tdx_demo_qe_def slice_def INTEL_TD_QE_MRSIGNER_def le_nat_def)
  have a: "map2 (AND) (slice 48 (48 + 16) tdx_demo_qe) INTEL_TD_QE_ATTRIBUTES_MASK = INTEL_TD_QE_ATTRIBUTES"
    by (simp add: tdx_demo_qe_def slice_def INTEL_TD_QE_ATTRIBUTES_MASK_def INTEL_TD_QE_ATTRIBUTES_def numeral_eq_Suc)
  have s: "u32 tdx_demo_qe 16 = Inr 0"
    by (simp add: u32_def tdx_demo_qe_def slice_def INTEL_TD_QE_MRSIGNER_def le_nat_def numeral_eq_Suc)
  show ?thesis unfolding qe_identity_error_def Let_def m p a s by simp
qed

lemma tdx_demo_parses:
  "\<exists>q. parse_tdx_quote tdx_demo_pki tdx_demo_quote = Inr q \<and> tq_qe_report q = tdx_demo_qe \<and> tq_pck_leaf q = 1 \<and>
     tq_pck_intermediates q = [2] \<and> tq_report q = parse_td_report (replicate 584 0)"
proof -
  have b: "length tdx_demo_body = 632" "u16 tdx_demo_body 0 = Inr 4" "u16 tdx_demo_body 2 = Inr 2" "u32 tdx_demo_body 4 = Inr 0x81"
    "drop 48 tdx_demo_body = replicate 584 0"
    by (simp_all add: tdx_demo_body_def u16_def u32_def slice_def le_nat_def)
  have q: "length tdx_demo_qe = 384" by (simp add: tdx_demo_qe_def INTEL_TD_QE_MRSIGNER_def)
  have c: "load_pem_certificates tdx_demo_pki [] = Inr [1, 2]" by (simp add: load_pem_certificates_def)
  show ?thesis
    using parse_tdx_layout [OF tdx_demo_quote_def b(1-4) _ _ q _ _ _ c refl] b(5) by simp
qed

theorem verified_tdx_quote_is_bound_witness:
  "\<exists>q raw. parse_tdx_quote tdx_demo_pki tdx_demo_quote = Inr q \<and> \<not> bit (tq_qe_report q ! 48) 1 \<and>
     trusted_path tdx_demo_pki [7] 5 0 (tq_pck_leaf q # tq_pck_intermediates q) \<and> bytes_fromhex (us ''00'') = Some raw \<and>
     take 32 (td_report_data (tq_report q)) = sha256 tdx_demo_crypto (raw @ [])"
proof -
  obtain q where q: "parse_tdx_quote tdx_demo_pki tdx_demo_quote = Inr q" "tq_qe_report q = tdx_demo_qe" "tq_pck_leaf q = 1"
     "tq_pck_intermediates q = [2]" "tq_report q = parse_td_report (replicate 584 0)" using tdx_demo_parses by blast
  have d: "slice 320 384 tdx_demo_qe = replicate 64 0"
    by (simp add: tdx_demo_qe_def slice_def INTEL_TD_QE_MRSIGNER_def take_replicate)
  have c: "verify_cert_chain tdx_demo_pki (Suc 0) [2] [7] 5 = Inr None"
    by (simp add: verify_cert_chain_def chain_error_def valid_at_def signed_by_def pubkey_verify_def may_issue_def Let_def)
  have n: "bytes_fromhex (us ''00'') = Some [0]" by (simp add: us_def hex_val_def ascii_space_def)
  have "take 32 (td_report_data (parse_td_report (replicate 584 0))) = replicate 32 0"
    by (simp add: parse_td_report_def slice_def take_replicate)
  then have "\<exists>v. verify_tdx_quote tdx_demo_crypto tdx_demo_pki tdx_demo_quote [7] (Some (us ''00'')) [] 5 = Inr v \<and> qv_verified v"
    by (simp add: verify_tdx_quote_def q tdx_signature_def att_key_verify_def d take_replicate tdx_demo_identity c n Let_def)
  with verified_tdx_quote_is_bound [of tdx_demo_crypto tdx_demo_pki tdx_demo_quote "[7]" "Some (us ''00'')" "[]" 5] show ?thesis by blast
qed

end
