(* ===== verification/ArtifactDigest.thy ===== *)
theory ArtifactDigest
  imports Signing
begin

section \<open>The artifact digest (\<open>artifact_digest.py\<close>)\<close>

text \<open>
  The recipe that turns a model file or directory into the digest a manifest binds. What the file
  system shows is an input: the entries a recursive listing returns, in its order, whether each is a
  link or a file, and what opening and reading it gave. The main results: the digest fixes the list
  of covered files with their contents up to a collision of SHA-256, since the stream that is hashed
  is uniquely decodable; and it depends neither on the order of the listing nor on the excluded
  entries.
\<close>

subsection \<open>What the file system shows\<close>

text \<open>An open handle: whether \<open>fstat\<close> reports a regular file, the size it reports, and the bytes the
  buffered reader gives from the start of the file to its end, which need not agree with that size
  when the file changes meanwhile. A read of \<open>n\<close> bytes returns the next \<open>n\<close> of them, fewer only at the end.\<close>

record file_handle =
  fh_regular :: bool
  fh_size :: nat
  fh_data :: bytes

text \<open>An entry below the artifact: the parts of its relative path, \<open>is_symlink()\<close>, \<open>is_file()\<close>,
  and the outcome of opening it with and without following links (\<open>None\<close>: an \<open>OSError\<close>).\<close>

record fs_entry =
  fe_parts :: "pystr list"
  fe_symlink :: bool
  fe_file :: bool
  fe_open :: "bool \<Rightarrow> file_handle option"

datatype artifact_path =
    No_Path
  | File_Path fs_entry \<comment> \<open>its parts are its name\<close>
  | Dir_Path "fs_entry list" \<comment> \<open>\<open>rglob("*")\<close>\<close>
  | Special_Path

definition EXCLUDED_NAMES :: "pystr list" where
  "EXCLUDED_NAMES = map us [''.cache'', ''.git'', ''.gitattributes'', ''.huggingface'']"

definition CHUNK :: nat where "CHUNK = 2 ^ 20"

definition ad_error :: "string \<Rightarrow> 'a result" where
  "ad_error msg = Inl (ArtifactDigestError (us msg))"

text \<open>\<open>relative.as_posix()\<close>\<close>

definition as_posix :: "fs_entry \<Rightarrow> pystr" where
  "as_posix e = (case fe_parts e of [] \<Rightarrow> us ''.'' | p # ps \<Rightarrow> p @ concat (map (\<lambda>q. us ''/'' @ q) ps))"

definition excluded :: "fs_entry \<Rightarrow> bool" where
  "excluded e \<longleftrightarrow> list_ex (\<lambda>p. p \<in> set EXCLUDED_NAMES) (fe_parts e)"

subsection \<open>The inventory\<close>

fun list_files :: "bool \<Rightarrow> fs_entry list \<Rightarrow> fs_entry list \<Rightarrow> fs_entry list result" where
  "list_files follow_symlinks [] files = Inr files"
| "list_files follow_symlinks (candidate # rest) files =
     (if excluded candidate then list_files follow_symlinks rest files
      else if fe_symlink candidate \<and> \<not> follow_symlinks then ad_error ''a symbolic link''
      else list_files follow_symlinks rest (if fe_file candidate then files @ [candidate] else files))"

definition artifact_files :: "artifact_path \<Rightarrow> bool \<Rightarrow> fs_entry list result" where
  "artifact_files path follow_symlinks =
     (case path of
        No_Path \<Rightarrow> ad_error ''model artifact does not exist''
      | File_Path e \<Rightarrow> if fe_symlink e \<and> \<not> follow_symlinks then ad_error ''a symbolic link'' else Inr [e]
      | Special_Path \<Rightarrow> ad_error ''neither a file nor a directory''
      | Dir_Path entries \<Rightarrow>
          rbind (list_files follow_symlinks entries []) (\<lambda>files.
          if files = [] then ad_error ''model artifact contains no files'' else Inr (sort_key as_posix files)))"

subsection \<open>The digest\<close>

text \<open>The read loop and the read after it: \<open>rest\<close> is what the handle has not yet given, \<open>fed\<close> what the
  digest has been given.\<close>

function read_loop :: "nat \<Rightarrow> bytes \<Rightarrow> bytes \<Rightarrow> bytes result" where
  "read_loop remaining rest fed =
     (if remaining = 0
      then if take 1 rest \<noteq> [] then ad_error ''grew while it was being hashed'' else Inr fed
      else let n = min CHUNK remaining; chunk = take n rest
        in if chunk = [] then ad_error ''shrank while it was being hashed''
           else read_loop (remaining - length chunk) (drop n rest) (fed @ chunk))"
  by pat_completeness auto

termination read_loop
  by (relation "measure (\<lambda>(remaining, rest, fed). remaining)") (auto simp: CHUNK_def)

declare read_loop.simps [simp del]

definition be_bytes8 :: "nat \<Rightarrow> bytes result" where
  "be_bytes8 n = (if n < 2 ^ 64 then Inr (int_be 8 (int n)) else Inl OverflowError)"

definition hash_file :: "fs_entry \<Rightarrow> bool \<Rightarrow> bytes result" where
  "hash_file item follow_symlinks =
     (case fe_open item follow_symlinks of
        None \<Rightarrow> ad_error ''cannot open for hashing''
      | Some h \<Rightarrow>
          if \<not> fh_regular h then ad_error ''no longer a regular file''
          else rbind (be_bytes8 (fh_size h)) (\<lambda>sz. read_loop (fh_size h) (fh_data h) sz))"

definition feed_file :: "bool \<Rightarrow> fs_entry \<Rightarrow> bytes result" where
  "feed_file follow_symlinks item =
     rbind (utf8_encode (as_posix item)) (\<lambda>relative.
     rbind (be_bytes8 (length relative)) (\<lambda>n.
     rbind (hash_file item follow_symlinks) (\<lambda>body. Inr (n @ relative @ body))))"

definition select_files :: "pystr list option \<Rightarrow> fs_entry list \<Rightarrow> fs_entry list result" where
  "select_files include files =
     (case include of
        None \<Rightarrow> Inr files
      | Some names \<Rightarrow>
          let by_relative = foldl (\<lambda>d item. AList.update (as_posix item) item d) [] files;
              missing = sorted_list_of_set (set names - fst ` set by_relative)
          in if missing \<noteq> [] then ad_error ''named files are absent from the artifact''
             else Inr (map (\<lambda>name. the (map_of by_relative name)) (sorted_list_of_set (set names))))"

definition artifact_digest :: "('x) crypto_scheme \<Rightarrow> artifact_path \<Rightarrow> pystr list option \<Rightarrow> bool \<Rightarrow> pystr result" where
  "artifact_digest cr path include follow_symlinks =
     rbind (artifact_files path follow_symlinks) (\<lambda>files.
     rbind (select_files include files) (\<lambda>files.
     rbind (rmap (feed_file follow_symlinks) files) (\<lambda>parts.
     Inr (prefixed_sha256 cr (concat parts)))))"

subsection \<open>Reading a file\<close>

text \<open>The loop ends well exactly when the handle gives as many bytes as were announced, and it has then
  fed all of them and nothing else.\<close>

lemma read_loop_iff: "read_loop remaining rest fed = Inr out \<longleftrightarrow> length rest = remaining \<and> out = fed @ rest"
proof (induction remaining rest fed rule: read_loop.induct)
  case (1 remaining rest fed)
  let ?n = "min CHUNK remaining"
  show ?case
  proof (cases "remaining = 0 \<or> take ?n rest = []")
    case True
    then show ?thesis by (auto simp: read_loop.simps [of remaining] ad_error_def CHUNK_def min_def split: if_split_asm)
  next
    case False
    then have "read_loop remaining rest fed = read_loop (remaining - length (take ?n rest)) (drop ?n rest) (fed @ take ?n rest)"
      by (simp add: read_loop.simps [of remaining] Let_def)
    moreover have "length (drop ?n rest) = remaining - length (take ?n rest) \<longleftrightarrow> length rest = remaining"
      using False by (auto simp: min_def)
    ultimately show ?thesis using 1 [of ?n "take ?n rest"] False by simp
  qed
qed

lemma hash_file_iff:
  "hash_file item fl = Inr b \<longleftrightarrow>
     (\<exists>h. fe_open item fl = Some h \<and> fh_regular h \<and> fh_size h = length (fh_data h) \<and> length (fh_data h) < 2 ^ 64 \<and>
        b = int_be 8 (int (length (fh_data h))) @ fh_data h)"
  by (auto simp: hash_file_def ad_error_def be_bytes8_def rbind_Inr_iff read_loop_iff split: option.split)

subsection \<open>The stream is uniquely decodable\<close>

definition file_block :: "bytes \<times> bytes \<Rightarrow> bytes" where
  "file_block x = int_be 8 (int (length (fst x))) @ fst x @ int_be 8 (int (length (snd x))) @ snd x"

definition file_block_ok :: "bytes \<times> bytes \<Rightarrow> bool" where
  "file_block_ok x \<longleftrightarrow> length (fst x) < 2 ^ 64 \<and> length (snd x) < 2 ^ 64"

lemma int_be8_inj: "m < 2 ^ 64 \<Longrightarrow> n < 2 ^ 64 \<Longrightarrow> int_be 8 (int m) = int_be 8 (int n) \<Longrightarrow> m = n"
  using int_be_inj [of "int m" 8 "int n"] by simp

lemma prefixed_inj:
  assumes "int_be 8 (int (length a)) @ a @ x = int_be 8 (int (length b)) @ b @ y" and "length a < 2 ^ 64" and "length b < 2 ^ 64"
  shows "a = b \<and> x = y"
proof -
  have "int_be 8 (int (length a)) = int_be 8 (int (length b))" "a @ x = b @ y" using assms(1) by simp_all
  then show ?thesis using int_be8_inj [OF assms(2,3)] by simp
qed

lemma file_block_inj:
  assumes "file_block x @ u = file_block y @ v" and "file_block_ok x" and "file_block_ok y"
  shows "x = y \<and> u = v"
proof -
  let ?u = "int_be 8 (int (length (snd x))) @ snd x @ u" let ?v = "int_be 8 (int (length (snd y))) @ snd y @ v"
  have e: "int_be 8 (int (length (fst x))) @ fst x @ ?u = int_be 8 (int (length (fst y))) @ fst y @ ?v"
    using assms(1) by (simp only: file_block_def append_assoc)
  have f: "fst x = fst y \<and> ?u = ?v" by (rule prefixed_inj [OF e]) (use assms(2,3) in \<open>simp_all add: file_block_ok_def\<close>)
  have "snd x = snd y \<and> u = v" by (rule prefixed_inj [OF conjunct2 [OF f]]) (use assms(2,3) in \<open>simp_all add: file_block_ok_def\<close>)
  with f show ?thesis by (simp add: prod_eq_iff)
qed

lemma file_block_nonempty: "file_block x \<noteq> []"
proof -
  have "8 \<le> length (file_block x)" by (simp add: file_block_def)
  then show ?thesis by auto
qed

lemma stream_inj:
  "concat (map file_block xs) = concat (map file_block ys) \<Longrightarrow> list_all file_block_ok xs \<Longrightarrow> list_all file_block_ok ys \<Longrightarrow> xs = ys"
proof (induction xs arbitrary: ys)
  case Nil
  then show ?case by (cases ys) (auto simp: file_block_nonempty)
next
  case (Cons x xs)
  from Cons.prems obtain y ys' where y: "ys = y # ys'" by (cases ys) (auto simp: file_block_nonempty)
  with Cons.prems file_block_inj [of x "concat (map file_block xs)" y "concat (map file_block ys')"]
  have "x = y" "concat (map file_block xs) = concat (map file_block ys')" by simp_all
  with Cons.IH [of ys'] Cons.prems y show ?case by simp
qed

subsection \<open>The digest binds the covered files\<close>

text \<open>The stream that is hashed, and the files it covers: the path bytes of each and its content, all the
  bytes of the opened regular file, which are as many as its reported size.\<close>

definition artifact_stream :: "artifact_path \<Rightarrow> pystr list option \<Rightarrow> bool \<Rightarrow> bytes result" where
  "artifact_stream path include fl =
     rbind (artifact_files path fl) (\<lambda>files. rbind (select_files include files) (\<lambda>files.
     rbind (rmap (feed_file fl) files) (\<lambda>parts. Inr (concat parts))))"

definition file_content :: "bool \<Rightarrow> fs_entry \<Rightarrow> bytes \<times> bytes \<Rightarrow> bool" where
  "file_content fl item x \<longleftrightarrow> utf8_encode (as_posix item) = Inr (fst x) \<and>
     (\<exists>h. fe_open item fl = Some h \<and> fh_regular h \<and> fh_data h = snd x \<and> fh_size h = length (snd x)) \<and> file_block_ok x"

definition covers_files :: "artifact_path \<Rightarrow> pystr list option \<Rightarrow> bool \<Rightarrow> (bytes \<times> bytes) list \<Rightarrow> bool" where
  "covers_files path include fl fs \<longleftrightarrow> (\<exists>files sel. artifact_files path fl = Inr files \<and> select_files include files = Inr sel \<and>
     list_all2 (file_content fl) sel fs)"

lemma feed_file_block:
  assumes "feed_file fl item = Inr b"
  shows "\<exists>x. file_content fl item x \<and> b = file_block x"
proof -
  obtain rel body where r: "utf8_encode (as_posix item) = Inr rel" "length rel < 2 ^ 64" "hash_file item fl = Inr body"
    "b = int_be 8 (int (length rel)) @ rel @ body"
    using assms by (auto simp: feed_file_def rbind_Inr_iff be_bytes8_def split: if_split_asm)
  from r(3) obtain h where "fe_open item fl = Some h" "fh_regular h" "fh_size h = length (fh_data h)" "length (fh_data h) < 2 ^ 64"
    "body = int_be 8 (int (length (fh_data h))) @ fh_data h" by (auto simp: hash_file_iff)
  with r show ?thesis by (intro exI [of _ "(rel, fh_data h)"]) (simp add: file_content_def file_block_ok_def file_block_def)
qed

lemma feed_files_blocks:
  "rmap (feed_file fl) items = Inr parts \<Longrightarrow> \<exists>fs. list_all2 (file_content fl) items fs \<and> concat parts = concat (map file_block fs)"
proof (induction items arbitrary: parts)
  case (Cons item items)
  then obtain b ps where b: "feed_file fl item = Inr b" "rmap (feed_file fl) items = Inr ps" "parts = b # ps" by (auto simp: rbind_Inr_iff)
  from feed_file_block [OF b(1)] Cons.IH [OF b(2)] obtain x fs where "file_content fl item x" "b = file_block x"
    "list_all2 (file_content fl) items fs" "concat ps = concat (map file_block fs)" by blast
  with b(3) show ?case by (intro exI [of _ "x # fs"]) simp
qed simp

lemma stream_covers:
  assumes "artifact_stream path include fl = Inr s"
  shows "\<exists>fs. covers_files path include fl fs \<and> list_all file_block_ok fs \<and> s = concat (map file_block fs)"
proof -
  obtain files sel parts where f: "artifact_files path fl = Inr files" "select_files include files = Inr sel"
    "rmap (feed_file fl) sel = Inr parts" "s = concat parts" using assms by (auto simp: artifact_stream_def rbind_Inr_iff)
  from feed_files_blocks [OF f(3)] obtain fs where fs: "list_all2 (file_content fl) sel fs" "concat parts = concat (map file_block fs)" by blast
  from fs(1) have "list_all file_block_ok fs" by (auto simp: list_all2_conv_all_nth list_all_length file_content_def)
  with f fs show ?thesis by (auto simp: covers_files_def)
qed

lemma feed_file_content: "file_content fl item x \<Longrightarrow> feed_file fl item = Inr (file_block x)"
  by (auto simp: file_content_def feed_file_def hash_file_iff [THEN iffD2] be_bytes8_def file_block_ok_def file_block_def)

lemma covered_stream:
  assumes "covers_files path include fl fs"
  shows "artifact_stream path include fl = Inr (concat (map file_block fs))"
proof -
  have "rmap (feed_file fl) items = Inr (map file_block fs)" if "list_all2 (file_content fl) items fs" for items
    using that by (induction rule: list_all2_induct) (simp_all add: feed_file_content)
  then show ?thesis using assms by (auto simp: covers_files_def artifact_stream_def)
qed

lemma artifact_digest_stream:
  "artifact_digest cr path include fl = Inr h \<longleftrightarrow> (\<exists>s. artifact_stream path include fl = Inr s \<and> h = prefixed_sha256 cr s)"
  by (auto simp: artifact_digest_def artifact_stream_def rbind_Inr_iff)

text \<open>
  C18 (artifact digest). Two artifacts, whatever their kind and however the inventory was
  restricted, have the same digest exactly when they cover the same files: the same paths in the
  same order, each with the same bytes on disk, barring a collision of SHA-256 between the two
  hashed streams.
\<close>

theorem digest_binds_files:
  assumes "artifact_digest cr path include fl = Inr h" and "artifact_digest cr path' include' fl' = Inr h'"
    and "inj_on (sha256 cr) {s. artifact_stream path include fl = Inr s \<or> artifact_stream path' include' fl' = Inr s}"
  shows "h = h' \<longleftrightarrow> (\<exists>fs. covers_files path include fl fs \<and> covers_files path' include' fl' fs)"
proof
  assume "h = h'"
  then obtain s s' where s: "artifact_stream path include fl = Inr s" "artifact_stream path' include' fl' = Inr s'"
    "prefixed_sha256 cr s = prefixed_sha256 cr s'" using assms(1,2) by (auto simp: artifact_digest_stream)
  have "sha256 cr s = sha256 cr s'" using s(3) by (simp add: prefixed_sha256_def hex_of_bytes_inj)
  then have "s = s'" using inj_onD [OF assms(3)] s(1,2) by blast
  moreover obtain fs where "covers_files path include fl fs" "list_all file_block_ok fs" "s = concat (map file_block fs)" using stream_covers [OF s(1)] by blast
  moreover obtain fs' where "covers_files path' include' fl' fs'" "list_all file_block_ok fs'" "s' = concat (map file_block fs')" using stream_covers [OF s(2)] by blast
  ultimately show "\<exists>fs. covers_files path include fl fs \<and> covers_files path' include' fl' fs" using stream_inj by metis
next
  assume "\<exists>fs. covers_files path include fl fs \<and> covers_files path' include' fl' fs"
  then obtain fs where "covers_files path include fl fs" "covers_files path' include' fl' fs" by blast
  then show "h = h'" using assms(1,2) by (simp add: artifact_digest_stream covered_stream)
qed

subsection \<open>The listing does not matter\<close>

definition relevant :: "fs_entry list \<Rightarrow> fs_entry list" where
  "relevant es = filter (\<lambda>e. \<not> excluded e) es"

lemma list_files_eq:
  "list_files fl es acc = (if \<exists>e \<in> set (relevant es). fe_symlink e \<and> \<not> fl then ad_error ''a symbolic link'' else Inr (acc @ filter fe_file (relevant es)))"
  by (induction es arbitrary: acc) (auto simp: relevant_def)

text \<open>
  The digest of a directory depends only on its entries outside the excluded
  names: another listing of them, in any order and with any excluded entries, gives the same digest.
\<close>

theorem digest_ignores_listing:
  assumes "artifact_digest cr (Dir_Path es) include fl = Inr h" and "set (relevant es) = set (relevant es')"
    and "distinct (map as_posix (relevant es))" and "distinct (map as_posix (relevant es'))"
  shows "artifact_digest cr (Dir_Path es') include fl = Inr h"
proof -
  let ?f = "filter fe_file (relevant es)" let ?f' = "filter fe_file (relevant es')"
  have d: "distinct (map as_posix ?f)" "distinct (map as_posix ?f')" using assms(3,4) by (simp_all add: distinct_map_filter)
  have "mset ?f = mset ?f'"
    using assms(2) d by (subst set_eq_iff_mset_eq_distinct [symmetric]) (auto simp: distinct_map)
  then have "sort_key as_posix ?f = sort_key as_posix ?f'"
    using d(1) by (intro sort_key_inj_key_eq) (auto simp: distinct_map)
  moreover have "?f = [] \<longleftrightarrow> ?f' = []" using assms(2) by (simp add: filter_empty_conv)
  ultimately have "artifact_files (Dir_Path es') fl = artifact_files (Dir_Path es) fl"
    using assms(2) by (simp add: artifact_files_def list_files_eq ad_error_def)
  then show ?thesis using assms(1) by (simp add: artifact_digest_def)
qed

subsection \<open>A concrete artifact\<close>

definition demo_entry :: "string \<Rightarrow> bytes \<Rightarrow> fs_entry" where
  "demo_entry name c = \<lparr>fe_parts = [us name], fe_symlink = False, fe_file = True,
     fe_open = (\<lambda>_. Some \<lparr>fh_regular = True, fh_size = length c, fh_data = c\<rparr>)\<rparr>"

lemma demo_entry_posix [simp]: "as_posix (demo_entry n c) = us n" "fe_file (demo_entry n c)" "\<not> fe_symlink (demo_entry n c)"
  "fe_parts (demo_entry n c) = [us n]"
  by (simp_all add: demo_entry_def as_posix_def)

lemma demo_artifact:
  "\<exists>s. artifact_stream (Dir_Path [demo_entry ''b'' [1], demo_entry ''.git'' [9], demo_entry ''a'' [2, 3]]) None False = Inr s"
proof -
  have u: "utf8_encode (us ''a'') = Inr [97]" "utf8_encode (us ''b'') = Inr [98]" by (simp_all add: utf8_encode_def us_def utf8_cp_def surrogate_def)
  have h: "hash_file (demo_entry n [x]) False = Inr (int_be 8 1 @ [x])" "hash_file (demo_entry n [x, y]) False = Inr (int_be 8 2 @ [x, y])" for n x y
    by (simp_all add: hash_file_iff demo_entry_def)
  have "\<exists>b. feed_file False (demo_entry ''a'' [2, 3]) = Inr b" "\<exists>b. feed_file False (demo_entry ''b'' [1]) = Inr b"
    by (simp_all add: feed_file_def u h be_bytes8_def)
  then show ?thesis
    by (auto simp: artifact_stream_def artifact_files_def list_files_eq relevant_def excluded_def EXCLUDED_NAMES_def select_files_def
        sort_key_def us_def)
qed

theorem digest_binds_files_witness:
  "\<exists>fs. covers_files (Dir_Path [demo_entry ''b'' [1], demo_entry ''.git'' [9], demo_entry ''a'' [2, 3]]) None False fs"
proof -
  let ?p = "Dir_Path [demo_entry ''b'' [1], demo_entry ''.git'' [9], demo_entry ''a'' [2, 3]]"
  obtain s where s: "artifact_stream ?p None False = Inr s" using demo_artifact by blast
  then have d: "artifact_digest demo_crypto ?p None False = Inr (prefixed_sha256 demo_crypto s)" by (simp add: artifact_digest_stream)
  have "inj_on (sha256 demo_crypto) {x. artifact_stream ?p None False = Inr x \<or> artifact_stream ?p None False = Inr x}" by (simp add: s)
  from digest_binds_files [OF d d this] show ?thesis by blast
qed

theorem digest_ignores_listing_witness:
  "\<exists>h. artifact_digest demo_crypto (Dir_Path [demo_entry ''a'' [2, 3], demo_entry ''b'' [1]]) None False = Inr h"
proof -
  let ?es = "[demo_entry ''b'' [1], demo_entry ''.git'' [9], demo_entry ''a'' [2, 3]]"
  obtain s where "artifact_stream (Dir_Path ?es) None False = Inr s" using demo_artifact by blast
  then have d: "artifact_digest demo_crypto (Dir_Path ?es) None False = Inr (prefixed_sha256 demo_crypto s)" by (simp add: artifact_digest_stream)
  have r: "relevant ?es = [demo_entry ''b'' [1], demo_entry ''a'' [2, 3]]"
    "relevant [demo_entry ''a'' [2, 3], demo_entry ''b'' [1]] = [demo_entry ''a'' [2, 3], demo_entry ''b'' [1]]"
    by (simp_all add: relevant_def excluded_def EXCLUDED_NAMES_def)
  from digest_ignores_listing [OF d, of "[demo_entry ''a'' [2, 3], demo_entry ''b'' [1]]"] r show ?thesis by auto
qed

end
