(* ===== verification/ModelMemory.thy ===== *)
theory ModelMemory
  imports Challenge Models
begin

section \<open>Loaded-model checks (\<open>model_memory.py\<close>)\<close>

text \<open>
  Measuring the buffers a serving engine has loaded, the signed observation of them, its verifier
  with single-use challenges, and the guard that latches closed. What a buffer adapter returns is an
  input, since device adapters are supplied code; the reader of a CPU buffer is modelled. The main
  results: an honest observation is accepted exactly when the live bytes have the approved digests,
  and the guard lets an operation through exactly on the approved inventory with no failed check
  before it, and fires its teardown exactly at the first failed check.
\<close>

subsection \<open>Data\<close>

definition CHUNK_BYTES :: nat where "CHUNK_BYTES = 1024 * 1024"
definition MAX_BUFFERS :: nat where "MAX_BUFFERS = 4096"

definition alnum :: "nat \<Rightarrow> bool" where
  "alnum c \<longleftrightarrow> 65 \<le> c \<and> c \<le> 90 \<or> 97 \<le> c \<and> c \<le> 122 \<or> 48 \<le> c \<and> c \<le> 57"

text \<open>The annotated types \<open>Name\<close> (also \<open>_.:/-\<close> after the first character) and \<open>Hex32\<close>.\<close>

definition name_ok :: "pystr \<Rightarrow> bool" where
  "name_ok s \<longleftrightarrow> (case s of [] \<Rightarrow> False | c # cs \<Rightarrow> alnum c \<and> list_all (\<lambda>d. alnum d \<or> d \<in> {95, 46, 58, 47, 45}) cs) \<and> length s \<le> 160"

definition hex32_ok :: "pystr \<Rightarrow> bool" where
  "hex32_ok s \<longleftrightarrow> length s = 64 \<and> list_all lower_hex s"

record buffer_digest =
  bd_name :: pystr
  bd_nbytes :: int
  bd_sha256 :: pystr

definition validation_error :: exn where
  "validation_error = ValueError (us ''validation error'')"

definition buffer_ok :: "buffer_digest \<Rightarrow> bool" where
  "buffer_ok b \<longleftrightarrow> name_ok (bd_name b) \<and> 0 < bd_nbytes b \<and> bd_nbytes b \<le> 2 ^ 53 - 1 \<and> hex32_ok (bd_sha256 b)"

definition new_buffer :: "pystr \<Rightarrow> int \<Rightarrow> pystr \<Rightarrow> buffer_digest result" where
  "new_buffer name nbytes digest =
     (let b = \<lparr>bd_name = name, bd_nbytes = nbytes, bd_sha256 = digest\<rparr> in if buffer_ok b then Inr b else Inl validation_error)"

definition inventory_ok :: "buffer_digest list \<Rightarrow> bool" where
  "inventory_ok bs \<longleftrightarrow> 1 \<le> length bs \<and> length bs \<le> MAX_BUFFERS \<and> list_all buffer_ok bs \<and>
     map bd_name bs = sorted_list_of_set (set (map bd_name bs))"

record baseline =
  bl_buffers :: "buffer_digest list"
  bl_kind :: pystr
  bl_manifest_hash :: pystr
  bl_weights_hash :: pystr
  bl_serving_image_measurement :: pystr
  bl_layout_id :: pystr

record observation =
  ob_buffers :: "buffer_digest list"
  ob_kind :: pystr
  ob_baseline_hash :: pystr
  ob_challenge_nonce :: pystr
  ob_transport_public_key :: pystr
  ob_signature_b64url :: pystr

text \<open>\<open>_baseline_copy\<close>: a round trip through JSON, which validates again.\<close>

definition baseline_copy :: "baseline \<Rightarrow> baseline result" where
  "baseline_copy b =
     (if inventory_ok (bl_buffers b) \<and> bl_kind b = us ''wcm-model-memory-baseline-v1'' \<and> hash_value_ok (bl_manifest_hash b) \<and>
         hash_value_ok (bl_weights_hash b) \<and> hash_value_ok (bl_serving_image_measurement b) \<and> name_ok (bl_layout_id b)
      then Inr b else Inl validation_error)"

definition observation_ok :: "observation \<Rightarrow> bool" where
  "observation_ok ob \<longleftrightarrow> inventory_ok (ob_buffers ob) \<and> ob_kind ob = us ''wcm-model-memory-observation-v1'' \<and> hash_value_ok (ob_baseline_hash ob) \<and>
         hex32_ok (ob_challenge_nonce ob) \<and> hex32_ok (ob_transport_public_key ob) \<and> length (ob_signature_b64url ob) = 86"

definition new_observation :: "observation \<Rightarrow> observation result" where
  "new_observation ob = (if observation_ok ob then Inr ob else Inl validation_error)"

definition dump_buffer :: "buffer_digest \<Rightarrow> json" where
  "dump_buffer b = JDict [(us ''name'', JStr (bd_name b)), (us ''nbytes'', JInt (bd_nbytes b)), (us ''sha256'', JStr (bd_sha256 b))]"

definition dump_baseline :: "baseline \<Rightarrow> json" where
  "dump_baseline b = JDict
     [(us ''buffers'', JList (map dump_buffer (bl_buffers b))), (us ''kind'', JStr (bl_kind b)),
      (us ''manifest_hash'', JStr (bl_manifest_hash b)), (us ''weights_hash'', JStr (bl_weights_hash b)),
      (us ''serving_image_measurement'', JStr (bl_serving_image_measurement b)), (us ''layout_id'', JStr (bl_layout_id b))]"

definition ob_payload :: "observation \<Rightarrow> json" where
  "ob_payload ob = JDict
     [(us ''buffers'', JList (map dump_buffer (ob_buffers ob))), (us ''kind'', JStr (ob_kind ob)),
      (us ''baseline_hash'', JStr (ob_baseline_hash ob)), (us ''challenge_nonce'', JStr (ob_challenge_nonce ob)),
      (us ''transport_public_key'', JStr (ob_transport_public_key ob))]"

subsection \<open>Measuring buffers\<close>

text \<open>An adapter: its size before and after the scan, and what a read returns (\<open>None\<close>: no \<open>bytes\<close>).\<close>

record model_buffer =
  mb_nbytes :: "int result"
  mb_nbytes_after :: "int result"
  mb_read :: "nat \<Rightarrow> nat \<Rightarrow> bytes option result"

definition buffer_memory_reader :: "bytes \<Rightarrow> model_buffer" where
  "buffer_memory_reader buf =
     \<lparr>mb_nbytes = Inr (int (length buf)), mb_nbytes_after = Inr (int (length buf)),
      mb_read = (\<lambda>offset len. if offset + len > length buf then Inl (ValueError (us ''read outside buffer''))
                             else Inr (Some (slice offset (offset + len) buf)))\<rparr>"

function read_blocks :: "(nat \<Rightarrow> nat \<Rightarrow> bytes option result) \<Rightarrow> nat \<Rightarrow> nat \<Rightarrow> bytes result" where
  "read_blocks rd sz offset =
     (if sz \<le> offset then Inr []
      else let len = min CHUNK_BYTES (sz - offset) in
        rbind (rd offset len) (\<lambda>block.
        case block of
          None \<Rightarrow> Inl (ModelMemoryError (us ''reader did not return the requested bytes''))
        | Some data \<Rightarrow>
            if length data \<noteq> len then Inl (ModelMemoryError (us ''reader did not return the requested bytes''))
            else rbind (read_blocks rd sz (offset + CHUNK_BYTES)) (\<lambda>rest. Inr (data @ rest))))"
  by pat_completeness auto

termination read_blocks
  by (relation "measure (\<lambda>(rd, sz, offset). sz - offset)") (auto simp: CHUNK_BYTES_def)

declare read_blocks.simps [simp del]

definition measure_buffer :: "('x) crypto_scheme \<Rightarrow> pystr \<times> model_buffer \<Rightarrow> buffer_digest result" where
  "measure_buffer cr item =
     (case item of (name, reader) \<Rightarrow>
     rbind (mb_nbytes reader) (\<lambda>sz.
     rbind (new_buffer name sz (replicate 64 48)) (\<lambda>_.
     rbind (read_blocks (mb_read reader) (nat sz) 0) (\<lambda>data.
     rbind (mb_nbytes_after reader) (\<lambda>sz'.
     if sz' \<noteq> sz then Inl (ModelMemoryError (us ''buffer size changed while measuring''))
     else new_buffer name sz (hex_of_bytes (sha256 cr data)))))))"

definition measure_model_buffers :: "('x) crypto_scheme \<Rightarrow> (pystr \<times> model_buffer) list \<Rightarrow> buffer_digest list result" where
  "measure_model_buffers cr buffers =
     (if \<not> (1 \<le> length buffers \<and> length buffers \<le> MAX_BUFFERS) then Inl (ModelMemoryError (us ''invalid number of model buffers''))
      else rmap (measure_buffer cr) (sort_key fst buffers))"

subsection \<open>Observations\<close>

definition model_memory_baseline_hash :: "('x) crypto_scheme \<Rightarrow> baseline \<Rightarrow> pystr result" where
  "model_memory_baseline_hash cr b = rbind (baseline_copy b) (\<lambda>b. canon_hash cr (dump_baseline b))"

definition observe_model_memory ::
  "('x) crypto_scheme \<Rightarrow> (pystr \<times> model_buffer) list \<Rightarrow> baseline \<Rightarrow> pystr \<Rightarrow> pystr \<Rightarrow> bytes \<Rightarrow> observation result" where
  "observe_model_memory cr buffers bl challenge_nonce transport_public_key signing_key =
     rbind (model_memory_baseline_hash cr bl) (\<lambda>h.
     rbind (measure_model_buffers cr buffers) (\<lambda>bs.
     rbind (new_observation \<lparr>ob_buffers = bs, ob_kind = us ''wcm-model-memory-observation-v1'', ob_baseline_hash = h,
       ob_challenge_nonce = challenge_nonce, ob_transport_public_key = transport_public_key, ob_signature_b64url = replicate 86 65\<rparr>) (\<lambda>unsig.
     rbind (canon_bytes cr (ob_payload unsig)) (\<lambda>msg.
     new_observation (unsig\<lparr>ob_signature_b64url := b64url_encode (ed_sign cr signing_key msg)\<rparr>)))))"

record mm_verifier =
  mv_baseline :: baseline
  mv_baseline_hash :: pystr
  mv_key :: bytes
  mv_transport_key :: pystr
  mv_challenges :: challenge_store

definition new_mm_verifier ::
  "('x) crypto_scheme \<Rightarrow> baseline \<Rightarrow> pystr \<Rightarrow> pystr \<Rightarrow> challenge_store option \<Rightarrow> mm_verifier result" where
  "new_mm_verifier cr bl observer_public_key_b64url transport_public_key store =
     rbind (baseline_copy bl) (\<lambda>bl.
     rbind (model_memory_baseline_hash cr bl) (\<lambda>h.
     rbind (new_observation \<lparr>ob_buffers = bl_buffers bl, ob_kind = us ''wcm-model-memory-observation-v1'', ob_baseline_hash = h,
       ob_challenge_nonce = replicate 64 48, ob_transport_public_key = transport_public_key, ob_signature_b64url = replicate 86 65\<rparr>) (\<lambda>_.
     rbind (b64url_decode observer_public_key_b64url) (\<lambda>raw.
     rbind (raise_if (raw \<in> set SMALL_ORDER_POINTS \<or> \<not> ed_load cr raw) (ValueError (us ''invalid observer public key''))) (\<lambda>_.
     Inr \<lparr>mv_baseline = bl, mv_baseline_hash = h, mv_key = raw, mv_transport_key = transport_public_key,
          mv_challenges = (case store of None \<Rightarrow> new_store 30 | Some s \<Rightarrow> s)\<rparr>)))))"

definition mm_issue_challenge :: "time \<Rightarrow> pystr \<Rightarrow> mm_verifier \<Rightarrow> challenge \<times> mm_verifier" where
  "mm_issue_challenge now token v = (case cs_issue now token (mv_challenges v) of (c, s) \<Rightarrow> (c, v\<lparr>mv_challenges := s\<rparr>))"

text \<open>The body of \<open>verify\<close> after the challenge is consumed.\<close>

definition mm_appraise :: "('x) crypto_scheme \<Rightarrow> observation \<Rightarrow> pystr \<Rightarrow> mm_verifier \<Rightarrow> (bool \<times> pystr) result" where
  "mm_appraise cr ob challenge_nonce v =
     rbind (new_observation ob) (\<lambda>report.
     if ob_challenge_nonce report \<noteq> challenge_nonce then Inr (False, us ''model memory observation belongs to a different challenge'')
     else if ob_baseline_hash report \<noteq> mv_baseline_hash v then Inr (False, us ''model memory baseline binding mismatch'')
     else if ob_transport_public_key report \<noteq> mv_transport_key v then Inr (False, us ''model memory transport binding mismatch'')
     else rbind (b64url_decode (ob_signature_b64url report)) (\<lambda>sig.
       rbind (canon_bytes cr (ob_payload report)) (\<lambda>msg.
       rbind (raise_if (\<not> ed_verify cr (mv_key v) sig msg) (InvalidSignature [])) (\<lambda>_.
       if ob_buffers report \<noteq> bl_buffers (mv_baseline v)
       then Inr (False, us ''loaded model buffer inventory or bytes differ from baseline'')
       else Inr (True, us ''observer signature, bindings and model buffer measurements verified'')))))"

fun mm_denied :: "exn \<Rightarrow> bool" where
  "mm_denied (ChallengeError m) = True"
| "mm_denied (AttributeError m) = True"
| "mm_denied e = (is_ValueError e \<or> is_TypeError e \<or> is_InvalidSignature e)"

definition mm_verify :: "('x) crypto_scheme \<Rightarrow> time \<Rightarrow> observation \<Rightarrow> pystr \<Rightarrow> mm_verifier \<Rightarrow> (bool \<times> pystr) result \<times> mm_verifier" where
  "mm_verify cr now ob challenge_nonce v =
     (case cs_consume challenge_nonce now (mv_challenges v) of (c, s) \<Rightarrow>
        let v' = v\<lparr>mv_challenges := s\<rparr> in
        (case rbind c (\<lambda>_. mm_appraise cr ob challenge_nonce v) of
           Inl e \<Rightarrow> if mm_denied e
                    then Inr (False, us ''invalid, expired, replayed or unauthenticated model memory observation'') else Inl e
         | Inr r \<Rightarrow> Inr r, v'))"

subsection \<open>The guard\<close>

record mm_guard =
  gd_baseline :: baseline
  gd_failed :: bool

definition new_guard :: "baseline \<Rightarrow> mm_guard result" where
  "new_guard bl = rbind (baseline_copy bl) (\<lambda>b. Inr \<lparr>gd_baseline = b, gd_failed = False\<rparr>)"

text \<open>\<open>hook\<close> is what the teardown callback raises. The result, whether the callback fired, and the guard.\<close>

definition check_before_operation ::
  "('x) crypto_scheme \<Rightarrow> (pystr \<times> model_buffer) list \<Rightarrow> exn option \<Rightarrow> mm_guard \<Rightarrow> unit result \<times> bool \<times> mm_guard" where
  "check_before_operation cr buffers hook g =
     (if gd_failed g then (Inl (ModelMemoryError (us ''model memory guard is latched closed'')), False, g)
      else
        let closed =
          (case hook of
             None \<Rightarrow> Inl (ModelMemoryError (us ''model memory check failed; serving must remain disabled''))
           | Some e \<Rightarrow> if is_Exception e then Inl (ModelMemoryError (us ''integrity failed; teardown callback also failed'')) else Inl e)
        in case measure_model_buffers cr buffers of
             Inr bs \<Rightarrow> if bs = bl_buffers (gd_baseline g) then (Inr (), False, g) else (closed, True, g\<lparr>gd_failed := True\<rparr>)
           | Inl e \<Rightarrow> if is_Exception e then (closed, True, g\<lparr>gd_failed := True\<rparr>) else (Inl e, False, g))"

subsection \<open>Scanning a live buffer\<close>

definition live_digest :: "('x) crypto_scheme \<Rightarrow> pystr \<times> bytes \<Rightarrow> buffer_digest" where
  "live_digest cr x = \<lparr>bd_name = fst x, bd_nbytes = int (length (snd x)), bd_sha256 = hex_of_bytes (sha256 cr (snd x))\<rparr>"

definition live_readers :: "(pystr \<times> bytes) list \<Rightarrow> (pystr \<times> model_buffer) list" where
  "live_readers bufs = map (\<lambda>(n, b). (n, buffer_memory_reader b)) bufs"

lemma read_blocks_live: "read_blocks (mb_read (buffer_memory_reader buf)) (length buf) off = Inr (drop off buf)"
proof (induction "mb_read (buffer_memory_reader buf)" "length buf" off rule: read_blocks.induct)
  case (1 off)
  show ?case
  proof (cases "length buf \<le> off")
    case False
    let ?n = "min CHUNK_BYTES (length buf - off)"
    have r: "mb_read (buffer_memory_reader buf) off ?n = Inr (Some (slice off (off + ?n) buf))"
      using False by (simp add: buffer_memory_reader_def)
    have l: "length (slice off (off + ?n) buf) = ?n" using False by (simp add: length_slice)
    have ih: "read_blocks (mb_read (buffer_memory_reader buf)) (length buf) (off + CHUNK_BYTES) = Inr (drop (off + CHUNK_BYTES) buf)"
      by (rule 1 [OF False refl, of "slice off (off + ?n) buf"]) (use l in simp)
    have "slice off (off + ?n) buf @ drop (off + CHUNK_BYTES) buf = drop off buf"
      using False by (cases "CHUNK_BYTES \<le> length buf - off") (auto simp: slice_def add.commute drop_drop [symmetric] append_take_drop_id simp del: drop_drop)
    then show ?thesis using False r l ih by (subst read_blocks.simps) (simp add: Let_def)
  qed (simp add: read_blocks.simps)
qed

lemma measure_live_one:
  "measure_buffer cr (n, buffer_memory_reader b) = Inr d \<Longrightarrow> d = live_digest cr (n, b)"
  using read_blocks_live [of b 0]
  by (auto simp: measure_buffer_def buffer_memory_reader_def new_buffer_def live_digest_def Let_def rbind_Inr_iff split: if_split_asm)

lemma insort_readers: "insort_key fst (case x of (n, b) \<Rightarrow> (n, f b)) (map (\<lambda>(n, b). (n, f b)) xs) = map (\<lambda>(n, b). (n, f b)) (insort_key fst x xs)"
  by (induction xs) (auto split: prod.split)

lemma sort_readers: "sort_key fst (map (\<lambda>(n, b). (n, f b)) xs) = map (\<lambda>(n, b). (n, f b)) (sort_key fst xs)"
  by (induction xs) (simp_all add: insort_readers del: case_prod_unfold)

lemma measure_live:
  assumes "measure_model_buffers cr (live_readers bufs) = Inr ds"
  shows "ds = map (live_digest cr) (sort_key fst bufs)"
proof -
  have "list_all2 (\<lambda>x y. measure_buffer cr x = Inr y) (map (\<lambda>(n, b). (n, buffer_memory_reader b)) (sort_key fst bufs)) ds"
    using assms by (auto simp: measure_model_buffers_def live_readers_def sort_readers rmap_Inr_iff split: if_split_asm)
  then have "list_all2 (\<lambda>x y. y = live_digest cr x) (sort_key fst bufs) ds"
    unfolding list_all2_map1 by (rule list_all2_mono) (auto dest: measure_live_one)
  then show ?thesis by (auto simp: list_all2_conv_all_nth intro!: nth_equalityI)
qed

subsection \<open>The verdict on an honest observation\<close>

lemma observe_fields:
  assumes "observe_model_memory cr buffers bl nonce tk sk = Inr ob"
  obtains h msg where "model_memory_baseline_hash cr bl = Inr h" "measure_model_buffers cr buffers = Inr (ob_buffers ob)"
    "new_observation ob = Inr ob" "ob_baseline_hash ob = h" "ob_challenge_nonce ob = nonce" "ob_transport_public_key ob = tk"
    "canon_bytes cr (ob_payload ob) = Inr msg" "ob_signature_b64url ob = b64url_encode (ed_sign cr sk msg)"
proof -
  obtain h bs unsig msg where h: "model_memory_baseline_hash cr bl = Inr h" "measure_model_buffers cr buffers = Inr bs"
    and u: "new_observation \<lparr>ob_buffers = bs, ob_kind = us ''wcm-model-memory-observation-v1'', ob_baseline_hash = h,
       ob_challenge_nonce = nonce, ob_transport_public_key = tk, ob_signature_b64url = replicate 86 65\<rparr> = Inr unsig"
    and m: "canon_bytes cr (ob_payload unsig) = Inr msg"
    and o: "new_observation (unsig\<lparr>ob_signature_b64url := b64url_encode (ed_sign cr sk msg)\<rparr>) = Inr ob"
    using assms unfolding observe_model_memory_def rbind_Inr_iff by blast
  have ob: "ob = unsig\<lparr>ob_signature_b64url := b64url_encode (ed_sign cr sk msg)\<rparr>" "observation_ok ob"
    using o by (simp_all add: new_observation_def split: if_split_asm)
  have un: "unsig = \<lparr>ob_buffers = bs, ob_kind = us ''wcm-model-memory-observation-v1'', ob_baseline_hash = h,
       ob_challenge_nonce = nonce, ob_transport_public_key = tk, ob_signature_b64url = replicate 86 65\<rparr>"
    using u by (simp add: new_observation_def split: if_split_asm)
  have p: "ob_payload ob = ob_payload unsig" unfolding ob(1) ob_payload_def by simp
  show ?thesis
    by (rule that [OF h(1)]) (use h(2) m p in \<open>simp_all add: ob(1) un\<close>, use ob in \<open>simp_all add: new_observation_def un\<close>)
qed

lemma new_mm_verifier_fields:
  assumes "new_mm_verifier cr bl key tk store = Inr v"
  shows "mv_baseline v = bl" "model_memory_baseline_hash cr bl = Inr (mv_baseline_hash v)" "b64url_decode key = Inr (mv_key v)" "mv_transport_key v = tk"
  using assms by (auto simp: new_mm_verifier_def rbind_Inr_iff baseline_copy_def split: if_split_asm)

lemma spent_challenge: "fst (cs_consume n t s) = Inr () \<Longrightarrow> \<exists>m. fst (cs_consume n t' (snd (cs_consume n t s))) = Inl (ChallengeError m)"
  by (auto simp: cs_consume_def Let_def map_of_update_iff split: option.split_asm if_split_asm)

text \<open>
  An honest observation of live CPU buffers, made for this baseline, transport key
  and challenge, gets a verdict when it is presented in time, and the verdict is positive exactly when
  the live buffers, by name, have the sizes and digests of the approved baseline, no buffer missing
  and none added; presenting it again under the same challenge is denied.
\<close>

theorem observation_verdict:
  assumes "new_mm_verifier cr bl (b64url_encode (ed_public cr sk)) tk store = Inr v"
    and "observe_model_memory cr (live_readers bufs) bl nonce tk sk = Inr ob"
    and "fst (cs_consume nonce now (mv_challenges v)) = Inr ()" and "ed_correct cr"
  shows "\<exists>m v' m'. mm_verify cr now ob nonce v = (Inr (map (live_digest cr) (sort_key fst bufs) = bl_buffers bl, m), v') \<and>
    fst (mm_verify cr later ob nonce v') = Inr (False, m')"
proof -
  note f = new_mm_verifier_fields [OF assms(1)]
  obtain h msg where o: "model_memory_baseline_hash cr bl = Inr h" "measure_model_buffers cr (live_readers bufs) = Inr (ob_buffers ob)"
    "new_observation ob = Inr ob" "ob_baseline_hash ob = h" "ob_challenge_nonce ob = nonce" "ob_transport_public_key ob = tk"
    "canon_bytes cr (ob_payload ob) = Inr msg" "ob_signature_b64url ob = b64url_encode (ed_sign cr sk msg)"
    using assms(2) by (rule observe_fields)
  have k: "mv_key v = ed_public cr sk" using f(3) by (simp add: b64url_decode_encode)
  have b: "ob_buffers ob = map (live_digest cr) (sort_key fst bufs)" using measure_live [OF o(2)] .
  have a: "\<exists>m. mm_appraise cr ob nonce v = Inr (map (live_digest cr) (sort_key fst bufs) = bl_buffers bl, m)"
    using o f k assms(4) by (simp add: mm_appraise_def b64url_decode_encode ed_correct_def b [symmetric])
  obtain s where s: "cs_consume nonce now (mv_challenges v) = (Inr (), s)" using assms(3) by (cases "cs_consume nonce now (mv_challenges v)") simp
  obtain m where v: "mm_verify cr now ob nonce v = (Inr (map (live_digest cr) (sort_key fst bufs) = bl_buffers bl, m), v\<lparr>mv_challenges := s\<rparr>)"
    using a s by (auto simp: mm_verify_def Let_def)
  obtain c s' where c: "cs_consume nonce later s = (Inl (ChallengeError c), s')"
    using spent_challenge [OF assms(3), of later] s by (cases "cs_consume nonce later s") auto
  then have "\<exists>m'. fst (mm_verify cr later ob nonce (v\<lparr>mv_challenges := s\<rparr>)) = Inr (False, m')" by (simp add: mm_verify_def Let_def)
  with v show ?thesis by blast
qed

subsection \<open>The guard over time\<close>

text \<open>Successive checks: what each gave and whether it fired the teardown callback.\<close>

fun guard_trace :: "('x) crypto_scheme \<Rightarrow> ((pystr \<times> model_buffer) list \<times> exn option) list \<Rightarrow> mm_guard \<Rightarrow> (unit result \<times> bool) list" where
  "guard_trace cr [] g = []"
| "guard_trace cr ((buffers, hook) # ops) g =
     (case check_before_operation cr buffers hook g of (r, fired, g') \<Rightarrow> (r, fired) # guard_trace cr ops g')"

text \<open>A check that fails against a baseline: other buffers than the approved ones were measured, or
  measuring raised an ordinary exception (an interrupt passes through the guard).\<close>

definition integrity_fails :: "('x) crypto_scheme \<Rightarrow> baseline \<Rightarrow> (pystr \<times> model_buffer) list \<Rightarrow> bool" where
  "integrity_fails cr bl buffers \<longleftrightarrow>
     (case measure_model_buffers cr buffers of Inr bs \<Rightarrow> bs \<noteq> bl_buffers bl | Inl e \<Rightarrow> is_Exception e)"

lemma length_guard_trace: "length (guard_trace cr ops g) = length ops"
  by (induction cr ops g rule: guard_trace.induct) (auto split: prod.split)

lemma guard_closed: "gd_failed g \<Longrightarrow> i < length ops \<Longrightarrow> fst (guard_trace cr ops g ! i) \<noteq> Inr () \<and> \<not> snd (guard_trace cr ops g ! i)"
  by (induction cr ops g arbitrary: i rule: guard_trace.induct) (auto simp: check_before_operation_def nth_Cons split: nat.split)

lemma guard_step:
  assumes "check_before_operation cr buffers hook g = (r, fired, g')" and "\<not> gd_failed g"
  shows "gd_baseline g' = gd_baseline g" "gd_failed g' \<longleftrightarrow> integrity_fails cr (gd_baseline g) buffers" "fired = gd_failed g'"
    "r = Inr () \<longleftrightarrow> measure_model_buffers cr buffers = Inr (bl_buffers (gd_baseline g))"
  using assms
  by (auto simp: check_before_operation_def integrity_fails_def Let_def split: sum.splits if_split_asm option.split_asm)

lemma approved_not_failing: "measure_model_buffers cr buffers = Inr (bl_buffers bl) \<Longrightarrow> \<not> integrity_fails cr bl buffers"
  by (simp add: integrity_fails_def)

lemma guard_trace_nth:
  assumes "i < length ops" and "\<not> gd_failed g"
  shows "(fst (guard_trace cr ops g ! i) = Inr () \<longleftrightarrow>
      measure_model_buffers cr (fst (ops ! i)) = Inr (bl_buffers (gd_baseline g)) \<and>
      (\<forall>j < i. \<not> integrity_fails cr (gd_baseline g) (fst (ops ! j)))) \<and>
    (snd (guard_trace cr ops g ! i) \<longleftrightarrow> integrity_fails cr (gd_baseline g) (fst (ops ! i)) \<and>
      (\<forall>j < i. \<not> integrity_fails cr (gd_baseline g) (fst (ops ! j))))"
  using assms
proof (induction ops arbitrary: i g)
  case (Cons x ops)
  obtain buffers hook where x: "x = (buffers, hook)" by fastforce
  obtain r fired g' where c: "check_before_operation cr buffers hook g = (r, fired, g')" by (metis prod_cases3)
  note st = guard_step [OF c Cons.prems(2)]
  show ?case
  proof (cases i)
    case 0
    then show ?thesis using st(2-4) by (simp add: x c)
  next
    case (Suc k)
    show ?thesis
    proof (cases "gd_failed g'")
      case True
      then show ?thesis using guard_closed [OF True, of k ops cr] Suc Cons.prems(1) st(2) by (auto simp: x c All_less_Suc2)
    next
      case False
      then show ?thesis using Cons.IH [OF _ False, of k] Suc Cons.prems(1) st(1,2) by (auto simp: x c All_less_Suc2)
    qed
  qed
qed simp

text \<open>
  C19 (model memory). Over any sequence of checks with any adapters and any teardown callback: the
  operation that check \<open>i\<close> precedes goes ahead exactly when the approved inventory is measured there
  and no earlier check failed, so a failed check closes the guard for good, even if the bytes are
  restored; and the teardown callback fires at check \<open>i\<close> exactly when that is the first check to
  fail, where a check fails when anything but the approved inventory is measured or measuring raises.
\<close>

theorem guard_latches:
  assumes "new_guard bl = Inr g" and "i < length ops"
  shows "length (guard_trace cr ops g) = length ops \<and>
    (fst (guard_trace cr ops g ! i) = Inr () \<longleftrightarrow>
      measure_model_buffers cr (fst (ops ! i)) = Inr (bl_buffers bl) \<and> (\<forall>j < i. \<not> integrity_fails cr bl (fst (ops ! j)))) \<and>
    (snd (guard_trace cr ops g ! i) \<longleftrightarrow>
      integrity_fails cr bl (fst (ops ! i)) \<and> (\<forall>j < i. \<not> integrity_fails cr bl (fst (ops ! j))))"
proof -
  have g: "gd_baseline g = bl" "\<not> gd_failed g" using assms(1) by (auto simp: new_guard_def rbind_Inr_iff baseline_copy_def split: if_split_asm)
  then show ?thesis using guard_trace_nth [OF assms(2) g(2)] by (simp add: length_guard_trace)
qed

subsection \<open>A concrete model\<close>

definition demo_live :: "(pystr \<times> bytes) list" where
  "demo_live = [(us ''w'', [7])]"

definition demo_baseline :: baseline where
  "demo_baseline = \<lparr>bl_buffers = map (live_digest demo_crypto) demo_live, bl_kind = us ''wcm-model-memory-baseline-v1'',
     bl_manifest_hash = demo_hash 0, bl_weights_hash = demo_hash 1, bl_serving_image_measurement = demo_hash 2, bl_layout_id = us ''l''\<rparr>"

lemma demo_sha_length: "length (sha256 demo_crypto x) = 32"
  by (simp add: demo_crypto_def)

lemma demo_hash_ok: "d < 10 \<Longrightarrow> hash_value_ok (demo_hash d)"
  by (simp add: hash_value_ok_def demo_hash_def list_all_iff lower_hex_def)

lemma demo_inventory: "inventory_ok (map (live_digest demo_crypto) demo_live)"
  by (simp add: inventory_ok_def MAX_BUFFERS_def buffer_ok_def live_digest_def demo_live_def name_ok_def alnum_def hex32_ok_def us_def
      lower_hex_hex length_hex_of_bytes demo_sha_length)

lemma demo_baseline_ok: "baseline_copy demo_baseline = Inr demo_baseline"
  by (simp add: baseline_copy_def demo_baseline_def demo_inventory demo_hash_ok name_ok_def alnum_def us_def [of "''l''"])

lemma demo_measured: "measure_model_buffers demo_crypto (live_readers demo_live) = Inr (map (live_digest demo_crypto) demo_live)"
proof -
  have r: "read_blocks (mb_read (buffer_memory_reader [7])) (Suc 0) 0 = Inr [7]" using read_blocks_live [of "[7]" 0] by simp
  have ok: "buffer_ok \<lparr>bd_name = us ''w'', bd_nbytes = 1, bd_sha256 = s\<rparr>" if "hex32_ok s" for s
    using that by (simp add: buffer_ok_def name_ok_def alnum_def us_def)
  have h: "hex32_ok (replicate 64 48)" "hex32_ok (hex_of_bytes (sha256 demo_crypto [7]))"
    by (simp_all add: hex32_ok_def list_all_iff lower_hex_def lower_hex_hex [unfolded list_all_iff] length_hex_of_bytes demo_sha_length)
      (use lower_hex_hex in \<open>auto simp: list_all_iff lower_hex_def\<close>)
  have n: "mb_nbytes (buffer_memory_reader [7]) = Inr 1" "mb_nbytes_after (buffer_memory_reader [7]) = Inr 1"
    by (simp_all add: buffer_memory_reader_def)
  show ?thesis
    by (simp add: measure_model_buffers_def live_readers_def demo_live_def MAX_BUFFERS_def measure_buffer_def n r new_buffer_def Let_def ok h live_digest_def)
qed

theorem guard_latches_witness:
  "let tr = guard_trace demo_crypto [(live_readers demo_live, None), ([], None), (live_readers demo_live, None)]
     \<lparr>gd_baseline = demo_baseline, gd_failed = False\<rparr>
   in map snd tr = [False, True, False] \<and> map (\<lambda>x. fst x = Inr ()) tr = [True, False, False]"
proof -
  let ?ops = "[(live_readers demo_live, None), ([], None), (live_readers demo_live, None)]"
  let ?tr = "guard_trace demo_crypto ?ops \<lparr>gd_baseline = demo_baseline, gd_failed = False\<rparr>"
  have g: "new_guard demo_baseline = Inr \<lparr>gd_baseline = demo_baseline, gd_failed = False\<rparr>" by (simp add: new_guard_def demo_baseline_ok)
  have m: "measure_model_buffers demo_crypto (live_readers demo_live) = Inr (bl_buffers demo_baseline)" by (simp add: demo_measured demo_baseline_def)
  have e: "measure_model_buffers demo_crypto [] \<noteq> Inr bs" "integrity_fails demo_crypto demo_baseline []" for bs
    by (simp_all add: measure_model_buffers_def integrity_fails_def)
  note ok = approved_not_failing [OF m]
  have n: "length ?tr = 3" "fst (?tr ! 0) = Inr () \<and> \<not> snd (?tr ! 0)" "fst (?tr ! 1) \<noteq> Inr () \<and> snd (?tr ! 1)" "fst (?tr ! 2) \<noteq> Inr () \<and> \<not> snd (?tr ! 2)"
    using guard_latches [OF g, of 0 ?ops demo_crypto] guard_latches [OF g, of 1 ?ops demo_crypto] guard_latches [OF g, of 2 ?ops demo_crypto] m e ok
    by (simp_all only: list.size nth_Cons_0 less_numeral_extra) (auto simp: numeral_2_eq_2 less_Suc_eq)
  have three: "xs = [xs ! 0, xs ! 1, xs ! 2]" if "length xs = 3" for xs :: "(unit result \<times> bool) list"
    using that by (auto simp: numeral_3_eq_3 numeral_2_eq_2 length_Suc_conv)
  show ?thesis using n by (subst (1) three [OF n(1)]) simp
qed

lemma demo_baseline_hash: "\<exists>h. model_memory_baseline_hash demo_crypto demo_baseline = Inr h \<and> hash_value_ok h \<and> no_surrogates h"
proof -
  have "clean (nfc demo_crypto) 64 (dump_baseline demo_baseline)"
    by (simp add: dump_baseline_def demo_baseline_def dump_buffer_def live_digest_def demo_live_def clean_str_def demo_crypto_def nat_str.simps)
  from canonicalize_clean [OF this, of "frepr demo_crypto" True] obtain b where "canon_bytes demo_crypto (dump_baseline demo_baseline) = Inr b" by blast
  then have "model_memory_baseline_hash demo_crypto demo_baseline = Inr (prefixed_sha256 demo_crypto b)"
    by (simp add: model_memory_baseline_hash_def demo_baseline_ok canonical_hash_def prefixed_sha256_def us_def)
  moreover have "hash_value_ok (prefixed_sha256 demo_crypto b)"
    by (simp add: hash_value_ok_def prefixed_sha256_def length_hex_of_bytes demo_sha_length lower_hex_hex)
  ultimately show ?thesis by (simp add: prefixed_sha256_def)
qed

lemma b64_length: "length (b64_groups bs) = (4 * length bs + 2) div 3"
  by (induction bs rule: b64_groups.induct) auto

lemma demo_signature_length: "length (b64url_encode (ed_sign demo_crypto k m)) = 86"
  by (simp add: demo_crypto_def b64url_encode_def b64_length)

theorem observation_verdict_witness:
  "\<exists>ob v m v'. mm_verify demo_crypto 1 ob (replicate 64 48) v = (Inr (True, m), v')"
proof -
  let ?n = "replicate 64 (48 :: nat)"
  let ?s = "snd (cs_issue 0 ?n (new_store 30))"
  obtain h where h: "model_memory_baseline_hash demo_crypto demo_baseline = Inr h" "hash_value_ok h" "no_surrogates h" using demo_baseline_hash by blast
  have x: "hex32_ok ?n" by (simp add: hex32_ok_def list_all_iff lower_hex_def)
  have inv: "inventory_ok (bl_buffers demo_baseline)" by (simp add: demo_baseline_def demo_inventory)
  let ?k = "3 # replicate 31 (2 :: byte)"
  have k: "?k \<notin> set SMALL_ORDER_POINTS" by (simp add: SMALL_ORDER_POINTS_def us_def hex_val_def ascii_space_def map_filter_simps)
  have ld: "ed_load demo_crypto k" "ed_public demo_crypto k = k" for k by (simp_all add: demo_crypto_def)
  obtain v where v: "new_mm_verifier demo_crypto demo_baseline (b64url_encode (ed_public demo_crypto ?k)) ?n (Some ?s) = Inr v" "mv_challenges v = ?s"
    using h(1,2) x inv k by (simp add: new_mm_verifier_def demo_baseline_ok b64url_decode_encode ld new_observation_def observation_ok_def raise_if_def del: replicate_Suc)
  let ?u = "\<lparr>ob_buffers = bl_buffers demo_baseline, ob_kind = us ''wcm-model-memory-observation-v1'', ob_baseline_hash = h,
     ob_challenge_nonce = ?n, ob_transport_public_key = ?n, ob_signature_b64url = replicate 86 65\<rparr>"
  have ns: "no_surrogates ?n" by (simp add: list_ex_iff surrogate_def)
  have "clean (nfc demo_crypto) 64 (ob_payload ?u)"
    using h(3) by (simp add: ob_payload_def demo_baseline_def dump_buffer_def live_digest_def demo_live_def clean_str_def demo_crypto_def nat_str.simps ns)
  from canonicalize_clean [OF this, of "frepr demo_crypto" True] obtain msg where msg: "canon_bytes demo_crypto (ob_payload ?u) = Inr msg" by blast
  note sg = demo_signature_length
  have m: "measure_model_buffers demo_crypto (live_readers demo_live) = Inr (bl_buffers demo_baseline)" by (simp add: demo_measured demo_baseline_def)
  obtain ob where ob: "observe_model_memory demo_crypto (live_readers demo_live) demo_baseline ?n ?n ?k = Inr ob"
    using h(1,2) x inv msg m sg by (simp add: observe_model_memory_def new_observation_def observation_ok_def)
  have c: "fst (cs_consume ?n 1 (mv_challenges v)) = Inr ()"
    by (simp add: v(2) cs_issue_def cs_consume_def new_store_def cs_prune_def secs_def Let_def)
  have "ed_correct demo_crypto" by (simp add: ed_correct_def demo_crypto_def)
  from observation_verdict [OF v(1) ob c this, of 2]
  have "\<exists>m v'. mm_verify demo_crypto 1 ob ?n v = (Inr (True, m), v')" by (auto simp: demo_baseline_def demo_live_def)
  then show ?thesis by blast
qed

end
