(* ===== verification/AzureVtpm.thy ===== *)
theory AzureVtpm
  imports Tdx PyJson Snp
begin

section \<open>Azure SEV-SNP with a vTPM (\<open>azure_vtpm.py\<close>)\<close>

text \<open>
  The verifier of an Azure bundle: an SNP report of the paravisor, the HCL runtime data it binds, the
  attestation key named there, and a TPM quote signed by that key over the nonce, the transport key
  and PCR 23. JSON text, PEM keys, RSA and certificates are parameters. The main results: a verified
  bundle is a chain from a trusted root through an allowed paravisor and its attestation key to a
  quote of exactly one layout over this nonce and this workload; a quote vouches for one workload
  only; and a malformed bundle is denied, never raised.
\<close>

subsection \<open>Digests and integers\<close>

text \<open>\<open>measurement.partition(":")\<close>\<close>

definition partition_colon :: "pystr \<Rightarrow> pystr \<times> pystr \<times> pystr" where
  "partition_colon s =
     (let a = takeWhile (\<lambda>c. c \<noteq> 58) s in (a, if 58 \<in> set s then [58] else [], drop (length a + 1) s))"

text \<open>\<open>digest.lower() != digest\<close>; another cased letter than an ASCII one is refused by the next check,
  with a \<open>ValueError\<close> as well.\<close>

definition has_upper :: "pystr \<Rightarrow> bool" where
  "has_upper s \<longleftrightarrow> list_ex (\<lambda>c. 65 \<le> c \<and> c \<le> 90) s"

definition expected_pcr23_digest :: "('x) crypto_scheme \<Rightarrow> pystr \<Rightarrow> bytes result" where
  "expected_pcr23_digest cr measurement =
     (let (algorithm, separator, digest) = partition_colon measurement in
      if separator \<noteq> us '':'' \<or> algorithm \<noteq> us ''sha256'' \<or> length digest \<noteq> 64
      then Inl (ValueError (us ''workload measurement must be sha256:<64 lowercase hex digits>''))
      else if has_upper digest then Inl (ValueError (us ''workload measurement hex must be lowercase''))
      else case bytes_fromhex digest of
        None \<Rightarrow> Inl (ValueError (us ''workload measurement contains non-hex characters''))
      | Some event_digest \<Rightarrow> Inr (sha256 cr (sha256 cr (replicate 32 0 @ event_digest))))"

definition AK_EXPONENT :: int where "AK_EXPONENT = 65537"
definition AK_MIN_BITS :: nat where "AK_MIN_BITS = 2048"
definition MEASUREMENT_LEN :: nat where "MEASUREMENT_LEN = 48"

text \<open>\<open>_b64\<close> of a JSON value: anything but a text is a \<open>TypeError\<close>.\<close>

definition az_b64 :: "json \<Rightarrow> bytes result" where
  "az_b64 v = (case v of JStr s \<Rightarrow> b64decode_validate s
     | _ \<Rightarrow> Inl (TypeError (us ''argument should be a bytes-like object or ASCII string'')))"

definition b64url_uint :: "json \<Rightarrow> int result" where
  "b64url_uint value =
     (let bad = Inl (ValueError (us ''JWK integer must be an unpadded base64url string'')) in
      case value of
        JStr s \<Rightarrow>
          if s = [] \<or> list_ex (\<lambda>c. c \<in> {43, 47, 61}) s then bad
          else let std = map (\<lambda>c. if c = 45 then 43 else if c = 95 then 47 else c) s
               in rbind (b64decode_validate (std @ replicate ((4 - length std mod 4) mod 4) 61)) (\<lambda>b. Inr (be_int b))
      | _ \<Rightarrow> bad)"

text \<open>An allowed launch measurement is given as hex text or as raw bytes.\<close>

datatype paravisor_value = PHex pystr | PRaw bytes

definition paravisor_measurement :: "paravisor_value \<Rightarrow> bytes result" where
  "paravisor_measurement value =
     rbind (case value of
         PRaw raw \<Rightarrow> Inr raw
       | PHex s \<Rightarrow>
           if has_upper s then Inl (ValueError (us ''paravisor measurement hex must be lowercase''))
           else case bytes_fromhex s of
             None \<Rightarrow> Inl (ValueError (us ''paravisor measurement contains non-hex characters''))
           | Some raw \<Rightarrow> Inr raw) (\<lambda>raw.
     if length raw \<noteq> MEASUREMENT_LEN then Inl (ValueError (us ''paravisor measurement must be 48 bytes (SHA-384)'')) else Inr raw)"

definition take_u16 :: "bytes \<Rightarrow> nat \<Rightarrow> (bytes \<times> nat) result" where
  "take_u16 blob offset =
     (if offset + 2 > length blob then Inl (ValueError (us ''truncated TPM2B''))
      else let n = nat (be_int (slice offset (offset + 2) blob)); start = offset + 2; stop = start + n
           in if stop > length blob then Inl (ValueError (us ''truncated TPM2B payload''))
              else Inr (slice start stop blob, stop))"

subsection \<open>The verifier's configuration\<close>

record 'c azure_verifier =
  av_trust :: "'c list"
  av_paravisor_measurements :: "bytes set"

definition new_azure_verifier :: "'c list \<Rightarrow> paravisor_value list \<Rightarrow> 'c azure_verifier result" where
  "new_azure_verifier trust_store paravisor_measurements =
     rbind (rmap paravisor_measurement paravisor_measurements) (\<lambda>allowed.
     if allowed = [] then Inl (ValueError (us ''at least one Azure paravisor launch measurement is required''))
     else Inr \<lparr>av_trust = trust_store, av_paravisor_measurements = set allowed\<rparr>)"

text \<open>
  What the package does for keys: the RSA numbers \<open>(n, e)\<close> of a PEM key (\<open>None\<close> for another kind of
  key), the construction of a key from such numbers, and PKCS#1 v1.5 verification with SHA-256.
\<close>

record 'c azure_pki = "'c tdx_pki" +
  load_pem_public_key :: "bytes \<Rightarrow> (int \<times> int) option result"
  rsa_public_key :: "int \<times> int \<Rightarrow> unit result"
  rsa_verify :: "int \<times> int \<Rightarrow> bytes \<Rightarrow> bytes \<Rightarrow> exn option" \<comment> \<open>key, signature, message\<close>

subsection \<open>The bundle\<close>

definition json_get :: "json \<Rightarrow> string \<Rightarrow> json result" where
  "json_get v k =
     (case v of
        JDict d \<Rightarrow> (case map_of d (us k) of None \<Rightarrow> Inl (KeyError (us k)) | Some x \<Rightarrow> Inr x)
      | _ \<Rightarrow> Inl (TypeError (us ''indices must be integers'')))"

definition json_encode :: "json \<Rightarrow> bytes result" where
  "json_encode v = (case v of JStr s \<Rightarrow> utf8_encode s | _ \<Rightarrow> Inl (AttributeError (us ''encode'')))"

definition json_items :: "json \<Rightarrow> json list result" where
  "json_items v = (case json_iter v of None \<Rightarrow> Inl (TypeError (us ''object is not iterable'')) | Some vs \<Rightarrow> Inr vs)"

record 'c azure_bundle =
  ab_hcl :: bytes
  ab_quote :: bytes
  ab_signature_blob :: bytes
  ab_ak :: "(int \<times> int) option"
  ab_vcek :: 'c
  ab_intermediates :: "'c list"
  ab_report :: bytes
  ab_parsed :: snp_report

definition parse_azure_bundle :: "('c, 'x) azure_pki_scheme \<Rightarrow> pystr \<Rightarrow> 'c azure_bundle result" where
  "parse_azure_bundle pki quote_b64 =
     rbind (b64decode_validate quote_b64) (\<lambda>data.
     rbind (json_loads pki data) (\<lambda>doc.
     rbind (rbind (json_get doc ''hcl_b64'') az_b64) (\<lambda>hcl.
     rbind (rbind (json_get doc ''tpm_quote_b64'') az_b64) (\<lambda>qt.
     rbind (rbind (json_get doc ''tpm_signature_b64'') az_b64) (\<lambda>signature_blob.
     rbind (rbind (rbind (json_get doc ''ak_pem'') json_encode) (load_pem_public_key pki)) (\<lambda>ak.
     rbind (rbind (rbind (json_get doc ''vcek_pem'') json_encode) (load_pem_certificate pki True)) (\<lambda>vcek.
     rbind (rbind (json_get doc ''intermediates_pem'') json_items) (\<lambda>pems.
     rbind (rmap (\<lambda>p. rbind (json_encode p) (load_pem_certificate pki False)) pems) (\<lambda>intermediates.
     rbind (extract_snp_report_from_hcl hcl) (\<lambda>report.
     rbind (parse_snp_report report) (\<lambda>parsed.
     Inr \<lparr>ab_hcl = hcl, ab_quote = qt, ab_signature_blob = signature_blob, ab_ak = ak, ab_vcek = vcek,
          ab_intermediates = intermediates, ab_report = report, ab_parsed = parsed\<rparr>)))))))))))"

text \<open>What the first \<open>except\<close> clauses turn into a denial.\<close>

definition bundle_error :: "exn \<Rightarrow> bool" where
  "bundle_error e \<longleftrightarrow> evidence_error e \<or> is_UnsupportedAlgorithm e \<or> is_QuoteFormatError e"

subsection \<open>The paravisor's report and its attestation key\<close>

definition find_kid :: "json list \<Rightarrow> json result" where
  "find_kid ks = foldr (\<lambda>k r. rbind (json_get k ''kid'') (\<lambda>v. if v = JStr (us ''HCLAkPub'') then Inr k else r)) ks
     (Inl (OtherError (us ''StopIteration'')))"

definition hcl_ak :: "('c, 'x) azure_pki_scheme \<Rightarrow> bytes \<Rightarrow> (int \<times> int) result" where
  "hcl_ak pki runtime_json =
     rbind (json_loads pki runtime_json) (\<lambda>runtime_doc.
     rbind (rbind (json_get runtime_doc ''keys'') json_items) (\<lambda>ks.
     rbind (find_kid ks) (\<lambda>jwk.
     rbind (json_get jwk ''kty'') (\<lambda>kty.
     rbind (raise_if (kty \<noteq> JStr (us ''RSA'')) (ValueError (us ''kty is not RSA''))) (\<lambda>_.
     rbind (rbind (json_get jwk ''n'') b64url_uint) (\<lambda>modulus.
     rbind (rbind (json_get jwk ''e'') b64url_uint) (\<lambda>exponent.
     Inr (modulus, exponent))))))))"

definition jwk_error :: "exn \<Rightarrow> bool" where
  "jwk_error e \<longleftrightarrow> evidence_error e \<or> e = OtherError (us ''StopIteration'')"

text \<open>The runtime JSON behind the report: the part after the HCL header and the report, cut at its own
  length field.\<close>

definition hcl_runtime_json :: "bytes \<Rightarrow> pystr + bytes" where
  "hcl_runtime_json hcl =
     (let runtime = drop (32 + 1184) hcl in
      if length runtime < 20 then Inl (us ''HCL runtime data is truncated'')
      else let json_len = le_nat (slice 16 20 runtime); runtime_json = slice 20 (20 + json_len) runtime in
        if length runtime_json \<noteq> json_len then Inl (us ''HCL runtime JSON is truncated'') else Inr runtime_json)"

subsection \<open>The TPM quote\<close>

fun pcr_selections :: "bytes \<Rightarrow> nat \<Rightarrow> nat \<Rightarrow> bool \<Rightarrow> (bool \<times> nat) result" where
  "pcr_selections qt 0 offset selected = Inr (selected, offset)"
| "pcr_selections qt (Suc k) offset selected =
     (if offset + 3 > length qt then Inl (ValueError (us ''truncated TPM PCR selection''))
      else let algorithm = be_int (slice offset (offset + 2) qt);
               n = unat (qt ! (offset + 2));
               selection = slice (offset + 3) (offset + 3 + n) qt in
        if length selection \<noteq> n then Inl (ValueError (us ''truncated TPM PCR selection''))
        else pcr_selections qt k (offset + 3 + n)
               (selected \<or> (algorithm = 0x000B \<and> n \<ge> 3 \<and> selection ! 2 AND 0x80 \<noteq> 0)))"

text \<open>The end of the last \<open>try\<close>, from the comparison with the approved measurement on;
  \<open>Inr (Some reason)\<close> is an early denial.\<close>

definition tpm_claims_error ::
  "('y) crypto_scheme \<Rightarrow> ('c, 'x) azure_pki_scheme \<Rightarrow> int \<times> int \<Rightarrow> bytes \<Rightarrow> bytes \<Rightarrow> bytes \<Rightarrow> bytes \<Rightarrow> pystr \<Rightarrow> bytes \<Rightarrow> pystr option
     \<Rightarrow> pystr option result" where
  "tpm_claims_error cr pki ak qt extra_data pcr_digest signature_blob expected_nonce channel_binding expected_workload_measurement =
     (case expected_workload_measurement of
       None \<Rightarrow> Inr (Some (us ''expected workload measurement is required by release policy''))
     | Some expected \<Rightarrow>
     rbind (expected_pcr23_digest cr expected) (\<lambda>d.
     if pcr_digest \<noteq> d then Inr (Some (us ''TPM PCR digest does not match the approved workload measurement''))
     else case bytes_fromhex expected_nonce of
       None \<Rightarrow> Inl (ValueError (us ''non-hexadecimal number found in fromhex() arg''))
     | Some nonce \<Rightarrow>
     if extra_data \<noteq> sha256 cr (nonce @ channel_binding)
     then Inr (Some (us ''TPM qualifying data does not bind nonce and transport key''))
     else rbind (raise_if (take 4 signature_blob \<noteq> [0x00, 0x14, 0x00, 0x0b]) (ValueError (us ''TPM signature is not RSASSA/SHA-256''))) (\<lambda>_.
     rbind (take_u16 signature_blob 4) (\<lambda>(signature, stop).
     rbind (raise_if (stop \<noteq> length signature_blob) (ValueError (us ''trailing TPM signature bytes''))) (\<lambda>_.
     case rsa_verify pki ak signature qt of None \<Rightarrow> Inr None | Some e \<Rightarrow> Inl e)))))"

definition tpm_quote_error ::
  "('y) crypto_scheme \<Rightarrow> ('c, 'x) azure_pki_scheme \<Rightarrow> int \<times> int \<Rightarrow> bytes \<Rightarrow> bytes \<Rightarrow> pystr \<Rightarrow> bytes \<Rightarrow> pystr option
     \<Rightarrow> pystr option result" where
  "tpm_quote_error cr pki ak qt signature_blob expected_nonce channel_binding expected_workload_measurement =
     rbind (raise_if (take 4 qt \<noteq> 0xff # ascii ''TCG'' \<or> slice 4 6 qt \<noteq> [0x80, 0x18]) (ValueError (us ''not a TPM generated quote''))) (\<lambda>_.
     rbind (take_u16 qt 6) (\<lambda>(_, offset).
     rbind (take_u16 qt offset) (\<lambda>(extra_data, offset).
     let offset = offset + 25 in
     rbind (raise_if (offset + 4 > length qt) (ValueError (us ''truncated TPM PCR selection''))) (\<lambda>_.
     rbind (pcr_selections qt (nat (be_int (slice offset (offset + 4) qt))) (offset + 4) False) (\<lambda>(selected_pcr23, offset).
     if \<not> selected_pcr23 then Inr (Some (us ''TPM quote does not select SHA-256 PCR 23''))
     else rbind (take_u16 qt offset) (\<lambda>(pcr_digest, offset).
     rbind (raise_if (offset \<noteq> length qt) (ValueError (us ''trailing TPM quote bytes''))) (\<lambda>_.
     rbind (raise_if (length pcr_digest \<noteq> 32) (ValueError (us ''TPM PCR digest is not 32-byte SHA-256''))) (\<lambda>_.
     tpm_claims_error cr pki ak qt extra_data pcr_digest signature_blob expected_nonce channel_binding
       expected_workload_measurement))))))))"

subsection \<open>The verifier\<close>

definition az_denied :: "string \<Rightarrow> quote_verification result" where
  "az_denied reason = Inr (qv_fail (us reason))"

text \<open>The checks up to the attestation key, and those from it on.\<close>

definition azure_verify_key ::
  "('y) crypto_scheme \<Rightarrow> ('c, 'x) azure_pki_scheme \<Rightarrow> 'c azure_bundle \<Rightarrow> int \<times> int \<Rightarrow> pystr \<Rightarrow> bytes \<Rightarrow> pystr option
     \<Rightarrow> quote_verification result" where
  "azure_verify_key cr pki b supplied expected_nonce channel_binding expected_workload_measurement =
     (case hcl_runtime_json (ab_hcl b) of
        Inl msg \<Rightarrow> Inr (qv_fail msg)
      | Inr runtime_json \<Rightarrow>
     if take 32 (sr_report_data (ab_parsed b)) \<noteq> sha256 cr runtime_json
     then az_denied ''SNP REPORT_DATA does not bind HCL runtime JSON''
     else if drop 32 (sr_report_data (ab_parsed b)) \<noteq> replicate 32 0 then az_denied ''unexpected nonzero SNP REPORT_DATA tail''
     else case hcl_ak pki runtime_json of
        Inl e \<Rightarrow> if jwk_error e then Inr (qv_fail (us ''invalid HCLAkPub: '' @ exn_text e)) else Inl e
      | Inr (modulus, exponent) \<Rightarrow>
     if exponent \<noteq> AK_EXPONENT then az_denied ''HCLAkPub exponent is not 65537''
     else if modulus < 2 ^ (AK_MIN_BITS - 1) then az_denied ''HCLAkPub modulus is shorter than 2048 bits''
     else if supplied \<noteq> (modulus, exponent) then az_denied ''TPM quote key does not match HCL-authenticated AK''
     else rbind (rsa_public_key pki (modulus, exponent)) (\<lambda>_.
     case tpm_quote_error cr pki (modulus, exponent) (ab_quote b) (ab_signature_blob b) expected_nonce channel_binding
            expected_workload_measurement of
        Inl e \<Rightarrow> if sig_invalid e then Inr (qv_fail (us ''TPM quote verification failed: '' @ exn_text e)) else Inl e
      | Inr (Some msg) \<Rightarrow> Inr (qv_fail msg)
      | Inr None \<Rightarrow>
          rbind (subject pki (ab_vcek b)) (\<lambda>s.
          Inr \<lparr>qv_verified = True, qv_reason = None, qv_leaf_subject = Some s, qv_snp_report = Some (ab_report b),
               qv_gpu_measurement = None\<rparr>)))"

definition azure_verify ::
  "('y) crypto_scheme \<Rightarrow> ('c, 'x) azure_pki_scheme \<Rightarrow> 'c azure_verifier \<Rightarrow> pystr \<Rightarrow> pystr \<Rightarrow> bytes \<Rightarrow> pystr option \<Rightarrow> time
     \<Rightarrow> quote_verification result" where
  "azure_verify cr pki ver quote_b64 expected_nonce channel_binding expected_workload_measurement now =
     (case parse_azure_bundle pki quote_b64 of
        Inl e \<Rightarrow> if bundle_error e then Inr (qv_fail (us ''invalid Azure vTPM evidence: '' @ exn_text e)) else Inl e
      | Inr b \<Rightarrow>
     (case ab_ak b of
        None \<Rightarrow> az_denied ''HCL AK is not RSA''
      | Some supplied \<Rightarrow>
     rbind (verify_cert_chain pki (ab_vcek b) (ab_intermediates b) (av_trust ver) now) (\<lambda>ce.
     case ce of Some msg \<Rightarrow> Inr (qv_fail msg) | None \<Rightarrow>
     rbind (verify_snp_report_signature pki (ab_report b) (ab_vcek b)) (\<lambda>sig_ok.
     if \<not> sig_ok then az_denied ''SNP report signature does not verify''
     else if sr_measurement (ab_parsed b) \<notin> av_paravisor_measurements ver
     then az_denied ''SNP launch measurement is not an allowed Azure paravisor measurement''
     else if bit (sr_policy (ab_parsed b)) 19 then az_denied ''SNP guest policy allows debugging''
     else if sr_vmpl (ab_parsed b) \<noteq> 0
     then Inr (qv_fail (us ''SNP report is from VMPL '' @ int_str (sr_vmpl (ab_parsed b)) @ us '', not VMPL 0''))
     else azure_verify_key cr pki b supplied expected_nonce channel_binding expected_workload_measurement))))"

subsection \<open>The layout of TPM structures\<close>

definition tpm2b :: "bytes \<Rightarrow> bytes" where
  "tpm2b p = int_be 2 (int (length p)) @ p"

text \<open>A PCR selection is a hash algorithm with its bitmap of registers.\<close>

definition tpm_selection :: "bytes \<times> bytes \<Rightarrow> bytes" where
  "tpm_selection = (\<lambda>(alg, bitmap). alg @ of_nat (length bitmap) # bitmap)"

definition tpm_selections :: "(bytes \<times> bytes) list \<Rightarrow> bytes" where
  "tpm_selections sels = concat (map tpm_selection sels)"

definition tpm_quote :: "bytes \<Rightarrow> bytes \<Rightarrow> bytes \<Rightarrow> (bytes \<times> bytes) list \<Rightarrow> bytes \<Rightarrow> bytes" where
  "tpm_quote signer extra clock sels digest =
     0xff # ascii ''TCG'' @ [0x80, 0x18] @ tpm2b signer @ tpm2b extra @ clock @ int_be 4 (int (length sels)) @
     tpm_selections sels @ tpm2b digest"

definition selects_pcr23 :: "bytes \<times> bytes \<Rightarrow> bool" where
  "selects_pcr23 = (\<lambda>(alg, bitmap). alg = [0x00, 0x0B] \<and> 3 \<le> length bitmap \<and> bitmap ! 2 AND 0x80 \<noteq> 0)"

lemma be_int_nonneg: "0 \<le> be_int b"
  by (simp add: be_int_def le_int_nonneg)

lemma int_be_be_int: "int_be (length b) (be_int b) = b"
  using int_le_le_int [of "rev b"] by (simp add: int_be_def be_int_def)

lemma be_int_int_be: "0 \<le> n \<Longrightarrow> n < 256 ^ w \<Longrightarrow> be_int (int_be w n) = n"
  by (simp add: int_be_def be_int_def le_int_int_le)

lemma be_int_bound: "be_int b < 256 ^ length b"
  using le_int_bound [of "rev b"] by (simp add: be_int_def)

lemma be_nat_field:
  assumes "length b = w" and "n = nat (be_int b)"
  shows "b = int_be w (int n)" and "n < 256 ^ w"
proof -
  show "b = int_be w (int n)" using int_be_be_int [of b] be_int_nonneg [of b] assms by simp
  have "int n < 256 ^ w" using be_int_bound [of b] be_int_nonneg [of b] assms by simp
  then show "n < 256 ^ w" by (metis of_nat_less_iff of_nat_numeral of_nat_power)
qed

lemma take_u16_layout:
  assumes "take_u16 blob off = Inr (p, stop)"
  shows "drop off blob = tpm2b p @ drop stop blob" and "off \<le> stop" and "stop \<le> length blob"
proof -
  let ?n = "nat (be_int (slice off (off + 2) blob))"
  have a: "off + 2 \<le> length blob" and s: "stop = off + 2 + ?n" and l: "stop \<le> length blob"
    and p: "p = slice (off + 2) stop blob"
    using assms by (auto simp: take_u16_def Let_def split: if_split_asm)
  have "length (slice off (off + 2) blob) = 2" using a by (simp add: length_slice)
  note f = be_nat_field [OF this refl]
  have "length p = ?n" using a s l p by (simp add: length_slice)
  moreover have "drop off blob = slice off (off + 2) blob @ slice (off + 2) stop blob @ drop stop blob"
    using slice_split [of off "off + 2" blob] slice_split [of "off + 2" stop blob] s by simp
  ultimately show "drop off blob = tpm2b p @ drop stop blob" using f(1) p by (simp add: tpm2b_def)
  show "off \<le> stop" "stop \<le> length blob" using s l by simp_all
qed

lemma pcr_selections_layout:
  assumes "pcr_selections qt k off s = Inr (s', stop)" and "off \<le> length qt"
  shows "\<exists>sels. length sels = k \<and> drop off qt = tpm_selections sels @ drop stop qt \<and> off \<le> stop \<and> stop \<le> length qt \<and>
    (s' \<longleftrightarrow> s \<or> (\<exists>x \<in> set sels. selects_pcr23 x))"
  using assms
proof (induction k arbitrary: off s)
  case 0
  then show ?case by (auto simp: tpm_selections_def)
next
  case (Suc k)
  let ?n = "unat (qt ! (off + 2))" and ?alg = "slice off (off + 2) qt"
  let ?sel = "slice (off + 3) (off + 3 + ?n) qt"
  let ?hit = "be_int ?alg = 0x000B \<and> ?n \<ge> 3 \<and> ?sel ! 2 AND 0x80 \<noteq> 0"
  have a: "off + 3 \<le> length qt" and n: "length ?sel = ?n"
    and r: "pcr_selections qt k (off + 3 + ?n) (s \<or> ?hit) = Inr (s', stop)"
    using Suc.prems(1) by (auto simp: Let_def split: if_split_asm)
  from n a have "off + 3 + ?n \<le> length qt" by (cases "?n = 0") (simp_all add: length_slice)
  from Suc.IH [OF r this] obtain sels where sels: "length sels = k" "drop (off + 3 + ?n) qt = tpm_selections sels @ drop stop qt"
    "off + 3 + ?n \<le> stop" "stop \<le> length qt" and hit: "s' \<longleftrightarrow> (s \<or> ?hit) \<or> (\<exists>x \<in> set sels. selects_pcr23 x)" by blast
  have alg: "length ?alg = 2" using a by (simp add: length_slice)
  have "drop off qt = ?alg @ drop (off + 2) qt" by (rule slice_split) simp
  also have "drop (off + 2) qt = qt ! (off + 2) # drop (off + 3) qt"
    using a Cons_nth_drop_Suc [of "off + 2" qt] by (simp add: numeral_3_eq_3)
  also have "drop (off + 3) qt = ?sel @ drop (off + 3 + ?n) qt" by (rule slice_split) simp
  finally have "drop off qt = ?alg @ qt ! (off + 2) # ?sel @ tpm_selections sels @ drop stop qt" using sels(2) by simp
  moreover have "of_nat (length ?sel) = qt ! (off + 2)" by (simp only: n) simp
  ultimately have "drop off qt = tpm_selections ((?alg, ?sel) # sels) @ drop stop qt"
    by (simp add: tpm_selections_def tpm_selection_def)
  moreover have "selects_pcr23 (?alg, ?sel) \<longleftrightarrow> ?hit"
  proof -
    have "be_int ?alg = 11 \<longleftrightarrow> ?alg = [0, 11]"
      using int_be_be_int [of ?alg] alg be_int_int_be [of 11 2] by (auto simp: int_be_def numeral_2_eq_2 be_int_def)
    then show ?thesis by (simp only: selects_pcr23_def split_conv n numeral_eq_iff)
  qed
  ultimately show ?case using sels hit by (intro exI [of _ "(?alg, ?sel) # sels"]) auto
qed

subsection \<open>What a verified bundle states\<close>

text \<open>Everything the last part of the verifier establishes about the quote.\<close>

lemma tpm_quote_ok:
  assumes "tpm_quote_error cr pki ak qt blob nonce binding expected = Inr None"
  obtains m d raw signer clock sels sig where "expected = Some m" "expected_pcr23_digest cr m = Inr d" "bytes_fromhex nonce = Some raw"
    "length clock = 25" "qt = tpm_quote signer (sha256 cr (raw @ binding)) clock sels d" "\<exists>x \<in> set sels. selects_pcr23 x"
    "blob = [0x00, 0x14, 0x00, 0x0b] @ tpm2b sig" "rsa_verify pki ak sig qt = None"
proof -
  note e = assms [unfolded tpm_quote_error_def Let_def]
  obtain signer o1 where hd: "take 4 qt = 0xff # ascii ''TCG''" "slice 4 6 qt = [0x80, 0x18]"
    and t1: "take_u16 qt 6 = Inr (signer, o1)"
    using e unfolding rbind_Inr_iff raise_if_iff by auto
  note e1 = e [unfolded t1 hd, simplified]
  obtain extra o2 where t2: "take_u16 qt o1 = Inr (extra, o2)" using e1 unfolding rbind_Inr_iff by auto
  have l: "o2 + 25 + 4 \<le> length qt" using e1 by (auto simp: t2 rbind_Inr_iff)
  let ?k = "nat (be_int (slice (o2 + 25) (o2 + 25 + 4) qt))"
  obtain s o3 where ps: "pcr_selections qt ?k (o2 + 25 + 4) False = Inr (s, o3)"
    using e1 l by (cases "pcr_selections qt ?k (o2 + 25 + 4) False") (auto simp: t2 add.commute)
  have s: s using e1 l ps by (cases s) (auto simp: t2 add.commute)
  obtain dg where t3: "take_u16 qt o3 = Inr (dg, length qt)"
    and r: "tpm_claims_error cr pki ak qt extra dg blob nonce binding expected = Inr None"
    using e1 l ps s by (auto simp: t2 add.commute rbind_Inr_iff)
  obtain m d raw sig where m: "expected = Some m" "expected_pcr23_digest cr m = Inr d" "dg = d" "bytes_fromhex nonce = Some raw"
    "extra = sha256 cr (raw @ binding)" "take 4 blob = [0x00, 0x14, 0x00, 0x0b]" "take_u16 blob 4 = Inr (sig, length blob)"
    "rsa_verify pki ak sig qt = None"
    using r by (auto simp: tpm_claims_error_def rbind_Inr_iff split: option.split_asm if_split_asm)
  note L1 = take_u16_layout [OF t1] and L2 = take_u16_layout [OF t2] and L3 = take_u16_layout [OF t3]
  obtain sels where sels: "length sels = nat (be_int (slice (o2 + 25) (o2 + 25 + 4) qt))"
    "drop (o2 + 25 + 4) qt = tpm_selections sels @ drop o3 qt" "s \<longleftrightarrow> (\<exists>x \<in> set sels. selects_pcr23 x)"
    using pcr_selections_layout [OF ps l] by auto
  let ?clock = "slice o2 (o2 + 25) qt"
  have cnt: "slice (o2 + 25) (o2 + 25 + 4) qt = int_be 4 (int (length sels))"
    by (rule be_nat_field [OF _ sels(1)]) (use l in \<open>simp add: length_slice\<close>)
  have "qt = take 4 qt @ slice 4 6 qt @ drop 6 qt"
    by (metis append_take_drop_id slice_split order.refl numeral_le_iff semiring_norm(68) semiring_norm(69) semiring_norm(71) semiring_norm(72) semiring_norm(76))
  also have "drop o2 qt = ?clock @ slice (o2 + 25) (o2 + 25 + 4) qt @ drop (o2 + 25 + 4) qt"
    using slice_split [of o2 "o2 + 25" qt] slice_split [of "o2 + 25" "o2 + 25 + 4" qt] by simp
  then have "drop 6 qt = tpm2b signer @ tpm2b extra @ ?clock @ int_be 4 (int (length sels)) @ tpm_selections sels @ tpm2b dg"
    using L1(1) L2(1) L3(1) sels(2) cnt by simp
  finally have "qt = tpm_quote signer (sha256 cr (raw @ binding)) ?clock sels d"
    using hd m by (simp add: tpm_quote_def)
  moreover have "length ?clock = 25" using l by (simp add: length_slice)
  moreover have "blob = [0x00, 0x14, 0x00, 0x0b] @ tpm2b sig"
    using take_u16_layout(1) [OF m(7)] m(6) append_take_drop_id [of 4 blob] by simp
  ultimately show ?thesis using that m sels(3) s by blast
qed

lemma azure_verify_key_ok:
  assumes "azure_verify_key cr pki b supplied nonce binding expected = Inr v" and "qv_verified v"
  obtains rj n where "hcl_runtime_json (ab_hcl b) = Inr rj" "sr_report_data (ab_parsed b) = sha256 cr rj @ replicate 32 0"
    "hcl_ak pki rj = Inr (n, 65537)" "2 ^ 2047 \<le> n" "supplied = (n, 65537)"
    "tpm_quote_error cr pki (n, 65537) (ab_quote b) (ab_signature_blob b) nonce binding expected = Inr None"
    "qv_snp_report v = Some (ab_report b)"
proof -
  note a = assms(1) [unfolded azure_verify_key_def az_denied_def]
  have f: "\<not> qv_verified (qv_fail m)" for m by (simp add: qv_fail_def)
  obtain rj where rj: "hcl_runtime_json (ab_hcl b) = Inr rj" using a assms(2) f by (cases "hcl_runtime_json (ab_hcl b)") auto
  have d: "take 32 (sr_report_data (ab_parsed b)) = sha256 cr rj" "drop 32 (sr_report_data (ab_parsed b)) = replicate 32 0"
    using a assms(2) f by (auto simp: rj split: if_split_asm)
  note a1 = a [unfolded rj sum.case d, simplified]
  obtain n e where ne: "hcl_ak pki rj = Inr (n, e)" using a1 assms(2) f by (cases "hcl_ak pki rj") (auto split: if_split_asm)
  have c: "e = 65537" "2 ^ 2047 \<le> n" "supplied = (n, 65537)"
    using a1 assms(2) f by (auto simp: ne AK_EXPONENT_def AK_MIN_BITS_def split: if_split_asm)
  let ?t = "tpm_quote_error cr pki (n, 65537) (ab_quote b) (ab_signature_blob b) nonce binding expected"
  have t: "?t = Inr None" "qv_snp_report v = Some (ab_report b)"
    using a1 assms(2) f c by (auto simp: ne AK_EXPONENT_def AK_MIN_BITS_def rbind_Inr_iff split: sum.split_asm option.split_asm if_split_asm)
  have "sr_report_data (ab_parsed b) = sha256 cr rj @ replicate 32 0"
    using append_take_drop_id [of 32 "sr_report_data (ab_parsed b)"] d by simp
  with rj ne c t show ?thesis by (intro that) auto
qed

lemma azure_verify_ok:
  assumes "azure_verify cr pki ver quote_b64 nonce binding expected now = Inr v" and "qv_verified v"
  obtains b supplied where "parse_azure_bundle pki quote_b64 = Inr b" "ab_ak b = Some supplied"
    "trusted_path pki (av_trust ver) now 0 (ab_vcek b # ab_intermediates b)"
    "verify_snp_report_signature pki (ab_report b) (ab_vcek b) = Inr True"
    "sr_measurement (ab_parsed b) \<in> av_paravisor_measurements ver" "\<not> bit (sr_policy (ab_parsed b)) 19" "sr_vmpl (ab_parsed b) = 0"
    "azure_verify_key cr pki b supplied nonce binding expected = Inr v"
proof -
  note a = assms(1) [unfolded azure_verify_def az_denied_def]
  have f: "\<not> qv_verified (qv_fail m)" for m by (simp add: qv_fail_def)
  obtain b where b: "parse_azure_bundle pki quote_b64 = Inr b"
    using a assms(2) f by (cases "parse_azure_bundle pki quote_b64") (auto split: if_split_asm)
  obtain supplied where k: "ab_ak b = Some supplied" using a assms(2) f by (cases "ab_ak b") (auto simp: b)
  note a1 = a [unfolded b k sum.case option.case]
  obtain ce where ce: "verify_cert_chain pki (ab_vcek b) (ab_intermediates b) (av_trust ver) now = Inr ce"
    using a1 unfolding rbind_Inr_iff by blast
  have ce0: "ce = None" using a1 assms(2) f by (cases ce) (auto simp: ce)
  note a2 = a1 [unfolded ce ce0 rbind_simps option.case]
  obtain ok where ok: "verify_snp_report_signature pki (ab_report b) (ab_vcek b) = Inr ok" using a2 unfolding rbind_Inr_iff by blast
  have c: "ok" "sr_measurement (ab_parsed b) \<in> av_paravisor_measurements ver" "\<not> bit (sr_policy (ab_parsed b)) 19" "sr_vmpl (ab_parsed b) = 0"
    using a2 assms(2) f unfolding ok rbind_simps by (auto split: if_split_asm)
  with a2 ok have "azure_verify_key cr pki b supplied nonce binding expected = Inr v" by simp
  with b k ok c verify_cert_chain_sound [OF ce [unfolded ce0]] show ?thesis by (intro that) auto
qed

text \<open>
  C11 (Azure vTPM). When an Azure bundle verifies, its VCEK has a path to a trusted root and signs a report that an
  allowed paravisor requested at VMPL 0 under a policy without debugging; the report's data is the
  digest of the HCL runtime JSON and nothing else; the key that JSON names as the attestation key, with
  exponent 65537 and at least 2048 bits, verifies the signature of the TPM quote; and that quote has
  exactly one layout, whose qualifying data is the digest of the challenge nonce and the transport key,
  which selects the SHA-256 bank's PCR 23 and whose PCR digest is that of the approved workload.
\<close>

theorem verified_azure_bundle_is_bound:
  assumes "azure_verify cr pki ver quote_b64 nonce binding expected now = Inr v" and "qv_verified v"
  shows "\<exists>b rj n m d raw signer clock sels sig.
    parse_azure_bundle pki quote_b64 = Inr b \<and> qv_snp_report v = Some (ab_report b) \<and>
    trusted_path pki (av_trust ver) now 0 (ab_vcek b # ab_intermediates b) \<and>
    verify_snp_report_signature pki (ab_report b) (ab_vcek b) = Inr True \<and>
    sr_measurement (ab_parsed b) \<in> av_paravisor_measurements ver \<and> \<not> bit (sr_policy (ab_parsed b)) 19 \<and> sr_vmpl (ab_parsed b) = 0 \<and>
    hcl_runtime_json (ab_hcl b) = Inr rj \<and> sr_report_data (ab_parsed b) = sha256 cr rj @ replicate 32 0 \<and>
    hcl_ak pki rj = Inr (n, 65537) \<and> 2 ^ 2047 \<le> n \<and> ab_ak b = Some (n, 65537) \<and>
    expected = Some m \<and> expected_pcr23_digest cr m = Inr d \<and> bytes_fromhex nonce = Some raw \<and> length clock = 25 \<and>
    ab_quote b = tpm_quote signer (sha256 cr (raw @ binding)) clock sels d \<and> list_ex selects_pcr23 sels \<and>
    ab_signature_blob b = [0x00, 0x14, 0x00, 0x0b] @ tpm2b sig \<and> rsa_verify pki (n, 65537) sig (ab_quote b) = None"
proof -
  obtain b supplied where b: "parse_azure_bundle pki quote_b64 = Inr b" "ab_ak b = Some supplied"
    "trusted_path pki (av_trust ver) now 0 (ab_vcek b # ab_intermediates b)"
    "verify_snp_report_signature pki (ab_report b) (ab_vcek b) = Inr True"
    "sr_measurement (ab_parsed b) \<in> av_paravisor_measurements ver" "\<not> bit (sr_policy (ab_parsed b)) 19" "sr_vmpl (ab_parsed b) = 0"
    "azure_verify_key cr pki b supplied nonce binding expected = Inr v"
    by (rule azure_verify_ok [OF assms])
  obtain rj n where k: "hcl_runtime_json (ab_hcl b) = Inr rj" "sr_report_data (ab_parsed b) = sha256 cr rj @ replicate 32 0"
    "hcl_ak pki rj = Inr (n, 65537)" "2 ^ 2047 \<le> n" "supplied = (n, 65537)"
    "tpm_quote_error cr pki (n, 65537) (ab_quote b) (ab_signature_blob b) nonce binding expected = Inr None"
    "qv_snp_report v = Some (ab_report b)"
    by (rule azure_verify_key_ok [OF b(8) assms(2)])
  obtain m d raw signer clock sels sig where q: "expected = Some m" "expected_pcr23_digest cr m = Inr d" "bytes_fromhex nonce = Some raw"
    "length clock = 25" "ab_quote b = tpm_quote signer (sha256 cr (raw @ binding)) clock sels d" "\<exists>x \<in> set sels. selects_pcr23 x"
    "ab_signature_blob b = [0x00, 0x14, 0x00, 0x0b] @ tpm2b sig" "rsa_verify pki (n, 65537) sig (ab_quote b) = None"
    by (rule tpm_quote_ok [OF k(6)])
  from b k q show ?thesis unfolding list_ex_iff by blast
qed

subsection \<open>Malformed bundles\<close>

lemma new_azure_verifier_ok:
  "new_azure_verifier roots ps = Inr ver \<Longrightarrow>
     av_paravisor_measurements ver \<noteq> {} \<and> (\<forall>m \<in> av_paravisor_measurements ver. length m = 48)"
proof -
  assume "new_azure_verifier roots ps = Inr ver"
  then obtain ms where ms: "rmap paravisor_measurement ps = Inr ms" "ms \<noteq> []" "av_paravisor_measurements ver = set ms"
    by (auto simp: new_azure_verifier_def rbind_Inr_iff split: if_split_asm)
  have "length m = 48" if "m \<in> set ms" for m
    using ms(1) that unfolding rmap_Inr_iff
    by (auto simp: list_all2_conv_all_nth in_set_conv_nth paravisor_measurement_def rbind_Inr_iff MEASUREMENT_LEN_def split: if_split_asm)
  with ms show ?thesis by auto
qed

text \<open>What the package documents of the functions that read the bundle: bad JSON is a \<open>ValueError\<close> or a
  \<open>RecursionError\<close>, a bad key a \<open>ValueError\<close> or an \<open>UnsupportedAlgorithm\<close>.\<close>

definition documented_readers :: "('c, 'x) azure_pki_scheme \<Rightarrow> bool" where
  "documented_readers pki \<longleftrightarrow>
     (\<forall>d e. json_loads pki d = Inl e \<longrightarrow> (\<exists>m. e = ValueError m) \<or> e = OtherError (us ''RecursionError'')) \<and>
     (\<forall>d e. load_pem_public_key pki d = Inl e \<longrightarrow> (\<exists>m. e = ValueError m) \<or> (\<exists>m. e = UnsupportedAlgorithm m))"

lemma bundle_error_cases [simp]:
  "bundle_error (ValueError m)" "bundle_error (BinasciiError m)" "bundle_error (TypeError m)" "bundle_error (KeyError m)"
  "bundle_error (AttributeError m)" "bundle_error (QuoteFormatError m)" "bundle_error (UnsupportedAlgorithm m)"
  "bundle_error (OtherError (us ''RecursionError''))"
  by (simp_all add: bundle_error_def)

lemma bundle_reader_errors:
  "b64decode_validate s = Inl e \<Longrightarrow> bundle_error e" "az_b64 v = Inl e \<Longrightarrow> bundle_error e" "json_get v k = Inl e \<Longrightarrow> bundle_error e"
  "json_items v = Inl e \<Longrightarrow> bundle_error e" "load_pem_certificate pki f d = Inl e \<Longrightarrow> \<forall>d. load_x509 pki d \<noteq> Inl e \<Longrightarrow> bundle_error e"
  "extract_snp_report_from_hcl h = Inl e \<Longrightarrow> bundle_error e" "parse_snp_report h = Inl e \<Longrightarrow> bundle_error e"
  by (auto simp: b64decode_validate_def az_b64_def json_get_def json_items_def load_pem_certificate_def extract_snp_report_from_hcl_def
      parse_snp_report_def Let_def split: if_split_asm option.split_asm json.split_asm sum.split_asm)

lemma json_encode_error: "json_encode v = Inl e \<Longrightarrow> bundle_error e"
  by (auto simp: json_encode_def utf8_encode_def split: json.split_asm if_split_asm)

lemma rmap_Inl: "rmap f xs = Inl e \<Longrightarrow> (\<And>x. f x = Inl e \<Longrightarrow> P e) \<Longrightarrow> P e"
  by (induction xs) (auto simp: rbind_Inl_iff)

lemma bundle_bind: "rbind r f = Inl e \<Longrightarrow> (r = Inl e \<Longrightarrow> bundle_error e) \<Longrightarrow> (\<And>x. f x = Inl e \<Longrightarrow> bundle_error e) \<Longrightarrow> bundle_error e"
  by (auto simp: rbind_Inl_iff)

lemma parse_azure_bundle_error:
  assumes "documented_readers pki" and "parse_azure_bundle pki quote_b64 = Inl e" and x: "\<forall>d. load_x509 pki d \<noteq> Inl e"
  shows "bundle_error e"
proof -
  have j: "json_loads pki d = Inl e \<Longrightarrow> bundle_error e" and k: "load_pem_public_key pki d = Inl e \<Longrightarrow> bundle_error e" for d e
    using assms(1) unfolding documented_readers_def by (metis bundle_error_cases)+
  have m: "rmap (\<lambda>p. rbind (json_encode p) (load_pem_certificate pki False)) ps = Inl e \<Longrightarrow> bundle_error e" for ps
    by (erule rmap_Inl) (auto elim!: bundle_bind intro: json_encode_error bundle_reader_errors(5) [OF _ x])
  from assms(2) show ?thesis unfolding parse_azure_bundle_def
    by (elim bundle_bind) (auto elim!: bundle_bind intro: bundle_reader_errors(1-4,6-) bundle_reader_errors(5) [OF _ x] json_encode_error j k m)
qed

text \<open>
  Whatever bytes an attacker supplies, the bundle is read or the verifier answers with a denial, unless the
  X.509 loader itself raises an exception that the verifier does not expect, which is then all that
  escapes to the release path.
\<close>

theorem azure_malformed_is_denied:
  assumes "documented_readers pki"
  shows "(\<exists>b. parse_azure_bundle pki quote_b64 = Inr b) \<or>
    (\<exists>msg. azure_verify cr pki ver quote_b64 nonce binding expected now = Inr (qv_fail msg)) \<or>
    (\<exists>e d. azure_verify cr pki ver quote_b64 nonce binding expected now = Inl e \<and> load_x509 pki d = Inl e)"
proof (cases "parse_azure_bundle pki quote_b64")
  case (Inl e)
  then show ?thesis using parse_azure_bundle_error [OF assms, of quote_b64 e] by (cases "bundle_error e") (auto simp: azure_verify_def)
qed simp

text \<open>
  The measurement is documented as 64 lowercase hex digits, but \<open>bytes.fromhex\<close> skips white space, so 64
  blanks pass as the digest of an empty event.
\<close>

lemma expected_pcr23_digest_blanks:
  "expected_pcr23_digest cr (us ''sha256:'' @ replicate 64 32) = Inr (sha256 cr (sha256 cr (replicate 32 0)))"
proof -
  have b: "bytes_fromhex (replicate n 32) = Some []" for n
  proof (induction n)
    case (Suc n)
    then show ?case by (cases n) (simp_all add: ascii_space_def)
  qed simp
  have "takeWhile (\<lambda>c. c \<noteq> 58) (us ''sha256:'' @ replicate 64 32) = us ''sha256''" by (simp add: us_def)
  then have "partition_colon (us ''sha256:'' @ replicate 64 32) = (us ''sha256'', us '':'', replicate 64 32)"
    by (simp add: partition_colon_def) (simp add: us_def)
  moreover have "\<not> has_upper (replicate 64 32)" by (simp add: has_upper_def list_ex_iff)
  ultimately show ?thesis using b [of 64] by (simp add: expected_pcr23_digest_def)
qed

subsection \<open>A concrete bundle\<close>

definition az_crypto :: crypto where
  "az_crypto = demo_crypto\<lparr>hf := \<lparr>hf_sha256 = (\<lambda>_. replicate 32 0), hf_shake256 = (\<lambda>_. replicate 32 0)\<rparr>\<rparr>"

lemma az_sha [simp]: "sha256 az_crypto x = replicate 32 0"
  by (simp add: az_crypto_def)

definition az_hcl :: bytes where
  "az_hcl = ascii ''HCLA'' @ replicate 1232 0"

definition az_quote :: bytes where
  "az_quote = tpm_quote [] (replicate 32 0) (replicate 25 0) [([0, 11], [0, 0, 128])] (replicate 32 0)"

definition az_sig :: bytes where
  "az_sig = [0x00, 0x14, 0x00, 0x0b] @ tpm2b []"

definition az_modulus :: int where
  "az_modulus = 256 ^ 258 - 1"

definition az_runtime :: json where
  "az_runtime = JDict [(us ''keys'', JList [JDict [(us ''kid'', JStr (us ''HCLAkPub'')), (us ''kty'', JStr (us ''RSA'')),
     (us ''n'', JStr (concat (replicate 86 [95, 95, 95, 95]))), (us ''e'', JStr (us ''AQAB''))]])]"

definition az_doc :: json where
  "az_doc = JDict [(us ''hcl_b64'', JStr (b64encode az_hcl)), (us ''tpm_quote_b64'', JStr (b64encode az_quote)),
     (us ''tpm_signature_b64'', JStr (b64encode az_sig)), (us ''ak_pem'', JStr []), (us ''vcek_pem'', JStr []),
     (us ''intermediates_pem'', JList [])]"

definition az_pki :: "nat azure_pki" where
  "az_pki = tdx_pki.extend (tdx_demo_pki\<lparr>json_loads := (\<lambda>d. Inr (if d = [] then az_runtime else az_doc))\<rparr>)
     (azure_pki.fields (\<lambda>_. Inr (Some (az_modulus, 65537))) (\<lambda>_. Inr ()) (\<lambda>_ _ _. None))"

lemma az_pki_simps [simp]:
  "report_verify az_pki a p s m = None" "public_key az_pki c = Inr (EC True)" "subject az_pki c = Inr []" "load_x509 az_pki d = Inr 0"
  "serial_number az_pki c = 1" "validity az_pki c = Inr (0, 100)" "cert_verify az_pki a b = None"
  "basic_constraints az_pki c = Inr (Some (True, None))" "key_cert_sign az_pki c = Inr None"
  "json_loads az_pki d = Inr (if d = [] then az_runtime else az_doc)" "load_pem_public_key az_pki d = Inr (Some (az_modulus, 65537))"
  "rsa_public_key az_pki k = Inr ()" "rsa_verify az_pki k s m = None"
  by (simp_all add: az_pki_def tdx_demo_pki_def gpu_pki.defs tdx_pki.defs azure_pki.defs demo_gpu_pki_def pki.defs demo_pki_def)

lemma le_int_ones: "le_int (replicate n 255) = 256 ^ n - 1"
  by (induction n) simp_all

lemma az_ak: "hcl_ak az_pki [] = Inr (az_modulus, 65537)"
proof -
  have d: "a2b_strict (concat (replicate n [47, 47, 47, 47])) = Some (replicate (3 * n) 255)" for n
    by (induction n) (simp_all add: std64_val_def numeral_3_eq_3)
  have m: "map (\<lambda>c. if c = 45 then 43 else if c = 95 then 47 else c) (concat (replicate n [95, 95, 95, 95 :: nat])) = concat (replicate n [47, 47, 47, 47])" for n
    by (induction n) simp_all
  have x: "\<not> list_ex (\<lambda>c. c \<in> {43, 47, 61}) (concat (replicate n [95, 95, 95, 95 :: nat]))" "\<not> list_ex (\<lambda>c. c \<ge> 128) (concat (replicate n [47, 47, 47, 47 :: nat]))"
    "length (concat (replicate n [47, 47, 47, 47 :: nat])) = 4 * n" for n by (induction n) simp_all
  have "b64url_uint (JStr (concat (replicate 86 [95, 95, 95, 95]))) = Inr az_modulus"
    using d [of 86] x [of 86] by (simp add: b64url_uint_def b64decode_validate_def m Let_def be_int_def le_int_ones az_modulus_def)
  moreover have "b64url_uint (JStr (us ''AQAB'')) = Inr 65537"
    by (simp add: b64url_uint_def b64decode_validate_def us_def std64_val_def be_int_def)
  ultimately show ?thesis
    by (simp add: hcl_ak_def az_runtime_def json_get_def json_items_def json_iter_def find_kid_def)
qed

lemma take_u16_tpm2b:
  assumes "length p < 65536" and "length a = off"
  shows "take_u16 (a @ tpm2b p @ r) off = Inr (p, off + 2 + length p)"
proof -
  have "slice off (off + 2) (a @ tpm2b p @ r) = int_be 2 (int (length p))" using assms(2) by (simp add: tpm2b_def slice_def)
  moreover have "slice (off + 2) (off + 2 + length p) (a @ tpm2b p @ r) = p" using assms(2) by (simp add: tpm2b_def slice_def)
  ultimately show ?thesis using assms by (simp add: take_u16_def be_int_int_be Let_def) (simp add: tpm2b_def)
qed

lemma length_tpm2b [simp]: "length (tpm2b p) = 2 + length p"
  by (simp add: tpm2b_def)

lemma az_quote_ok: "tpm_quote_error az_crypto az_pki k az_quote az_sig (us ''00'') [] (Some (us ''sha256:'' @ replicate 64 32)) = Inr None"
proof -
  let ?Z = "replicate 32 (0 :: byte)" and ?h = "[0xff, 84, 67, 71, 0x80, 0x18] :: bytes" and ?sel = "[0, 11, 3, 0, 0, 128] :: bytes"
  have q: "az_quote = ?h @ tpm2b [] @ tpm2b ?Z @ replicate 25 0 @ int_be 4 1 @ ?sel @ tpm2b ?Z"
    by (simp add: az_quote_def tpm_quote_def tpm_selections_def tpm_selection_def ascii_def)
  have h: "take 4 az_quote = 0xff # ascii ''TCG''" "slice 4 6 az_quote = [0x80, 0x18]" by (simp_all add: q ascii_def slice_def)
  have l: "length az_quote = 111" by (simp add: q)
  have t1: "take_u16 az_quote 6 = Inr ([], 8)" unfolding q by (subst take_u16_tpm2b) simp_all
  have t2: "take_u16 az_quote 8 = Inr (?Z, 42)"
    using take_u16_tpm2b [of ?Z "?h @ tpm2b []" 8] by (simp add: q)
  have t3: "take_u16 az_quote 77 = Inr (?Z, 111)"
    using take_u16_tpm2b [of ?Z "?h @ tpm2b [] @ tpm2b ?Z @ replicate 25 0 @ int_be 4 1 @ ?sel" 77 "[]"] by (simp add: q)
  have c: "slice 67 71 az_quote = int_be 4 1" by (simp add: q slice_def)
  have d: "drop 71 az_quote = ?sel @ tpm2b ?Z" by (simp add: q)
  have d3: "drop 74 az_quote = [0, 0, 128] @ tpm2b ?Z"
  proof -
    have "drop 74 az_quote = drop 3 (drop 71 az_quote)" by simp
    then show ?thesis unfolding d by simp
  qed
  have "az_quote ! 73 = drop 71 az_quote ! 2" using l by simp
  then have "slice 71 73 az_quote = [0, 11]" "slice 74 77 az_quote = [0, 0, 128]" "az_quote ! 73 = 3"
    using d3 unfolding d by (simp_all add: slice_def d)
  then have s: "pcr_selections az_quote (Suc 0) 71 False = Inr (True, 77)"
    using l by (simp add: be_int_def)
  have "tpm_claims_error az_crypto az_pki k az_quote ?Z ?Z az_sig (us ''00'') [] (Some (us ''sha256:'' @ replicate 64 32)) = Inr None"
    using take_u16_tpm2b [of "[]" "[0, 20, 0, 11]" 4 "[]"]
    by (simp add: tpm_claims_error_def expected_pcr23_digest_blanks az_sig_def us_def [of "''00''"] hex_val_def ascii_space_def)
  with h l t1 t2 t3 s c show ?thesis by (simp add: tpm_quote_error_def be_int_int_be)
qed

lemma az_hcl_parsed:
  "\<exists>r. extract_snp_report_from_hcl az_hcl = Inr (replicate 1184 0) \<and> parse_snp_report (replicate 1184 0) = Inr r \<and>
     sr_measurement r = replicate 48 0 \<and> sr_policy r = 0 \<and> sr_vmpl r = 0 \<and> sr_report_data r = replicate 64 0"
  "hcl_runtime_json az_hcl = Inr []"
proof -
  have z: "le_int (replicate n 0) = 0" for n by (induction n) simp_all
  show "\<exists>r. extract_snp_report_from_hcl az_hcl = Inr (replicate 1184 0) \<and> parse_snp_report (replicate 1184 0) = Inr r \<and>
     sr_measurement r = replicate 48 0 \<and> sr_policy r = 0 \<and> sr_vmpl r = 0 \<and> sr_report_data r = replicate 64 0"
    by (simp add: extract_snp_report_from_hcl_def az_hcl_def ascii_def REPORT_LEN_def slice_def parse_snp_report_def Let_def le_field_def z)
  show "hcl_runtime_json az_hcl = Inr []"
    by (simp add: hcl_runtime_json_def az_hcl_def ascii_def slice_def le_nat_def z)
qed

theorem verified_azure_bundle_is_bound_witness:
  "\<exists>b. parse_azure_bundle az_pki (us ''AAAA'') = Inr b \<and> trusted_path az_pki [7] 5 0 (ab_vcek b # ab_intermediates b) \<and>
     sr_report_data (ab_parsed b) = replicate 64 0 \<and> ab_ak b = Some (az_modulus, 65537)"
proof -
  obtain r where r: "extract_snp_report_from_hcl az_hcl = Inr (replicate 1184 0)" "parse_snp_report (replicate 1184 0) = Inr r"
    "sr_measurement r = replicate 48 0" "sr_policy r = 0" "sr_vmpl r = 0" "sr_report_data r = replicate 64 0"
    using az_hcl_parsed(1) by blast
  let ?b = "\<lparr>ab_hcl = az_hcl, ab_quote = az_quote, ab_signature_blob = az_sig, ab_ak = Some (az_modulus, 65537), ab_vcek = 0 :: nat,
     ab_intermediates = [], ab_report = replicate 1184 0, ab_parsed = r\<rparr>"
  have "b64decode_validate (us ''AAAA'') = Inr [0, 0, 0]" by (simp add: b64decode_validate_def us_def std64_val_def)
  then have b: "parse_azure_bundle az_pki (us ''AAAA'') = Inr ?b"
    using r by (simp add: parse_azure_bundle_def az_doc_def json_get_def az_b64_def b64decode_b64encode json_encode_def utf8_encode_def
        load_pem_certificate_def json_items_def json_iter_def)
  have c: "verify_cert_chain az_pki 0 [] [7] 5 = Inr None"
    by (simp add: verify_cert_chain_def chain_error_def valid_at_def signed_by_def pubkey_verify_def may_issue_def)
  have g: "verify_snp_report_signature az_pki (replicate 1184 0) 0 = Inr True" by (simp add: verify_snp_report_signature_def)
  have m: "2 ^ 2047 \<le> az_modulus"
  proof -
    have "(2 :: int) ^ 2047 < 2 ^ 2064" by (rule power_strict_increasing) simp_all
    also have "(2 :: int) ^ 2064 = 256 ^ 258" by (simp flip: power_mult add: power_mult [of 2 8 258, simplified])
    finally show ?thesis by (simp only: az_modulus_def zle_diff1_eq)
  qed
  let ?m = "us ''sha256:'' @ replicate 64 32"
  have "azure_verify_key az_crypto az_pki ?b (az_modulus, 65537) (us ''00'') [] (Some ?m) =
      Inr \<lparr>qv_verified = True, qv_reason = None, qv_leaf_subject = Some [], qv_snp_report = Some (replicate 1184 0), qv_gpu_measurement = None\<rparr>"
    using az_hcl_parsed(2) az_ak az_quote_ok m r by (simp add: azure_verify_key_def AK_EXPONENT_def AK_MIN_BITS_def)
  then have v: "azure_verify az_crypto az_pki \<lparr>av_trust = [7], av_paravisor_measurements = {replicate 48 0}\<rparr> (us ''AAAA'') (us ''00'') [] (Some ?m) 5 =
      Inr \<lparr>qv_verified = True, qv_reason = None, qv_leaf_subject = Some [], qv_snp_report = Some (replicate 1184 0), qv_gpu_measurement = None\<rparr>"
    using b c g r by (simp add: azure_verify_def)
  from verified_azure_bundle_is_bound [OF v] b r show ?thesis by auto
qed

theorem azure_malformed_is_denied_witness:
  "\<exists>msg. azure_verify az_crypto az_pki \<lparr>av_trust = [7], av_paravisor_measurements = {}\<rparr> (us ''!'') [] [] None 5 = Inr (qv_fail msg)"
proof -
  have "documented_readers az_pki" by (simp add: documented_readers_def)
  moreover have "b64decode_validate (us ''!'') = Inl (BinasciiError (us ''Only base64 data is allowed''))"
    by (simp add: b64decode_validate_def us_def [of "''!''"])
  then have "\<nexists>b. parse_azure_bundle az_pki (us ''!'') = Inr b" by (simp add: parse_azure_bundle_def)
  moreover have "load_x509 az_pki d \<noteq> Inl e" for d e by simp
  ultimately show ?thesis using azure_malformed_is_denied by blast
qed

end
