(* ===== verification/BootBundle.thy ===== *)
theory BootBundle
  imports Tdx
begin

section \<open>Boot bundles (\<open>boot_bundle.py\<close>)\<close>

text \<open>
  The deterministic initramfs: the check of the static loader, the policy on the members of the
  runtime archive, the directories added for their parents and the \<open>newc\<close> archive. What
  \<open>tarfile\<close> reads from the archive is an input. The main results: an image holds only read-only
  regular files and directories under safe names, every parent is a directory, and its files are
  exactly the loader and the members of the archive; and the bytes of the image fix its loader and
  every file with its executable bit, so an approved image admits no other runtime.
\<close>

subsection \<open>The loader\<close>

definition MAX_BUNDLE :: nat where "MAX_BUNDLE = 512 * 1024 * 1024"
definition MAX_FILES :: nat where "MAX_FILES = 30000"

definition RESERVED :: "pystr list" where
  "RESERVED = map us [''dev'', ''run'', ''proc'', ''sys'', ''tmp'']"

text \<open>The little-endian field of \<open>struct.unpack_from\<close>; every read below is in range.\<close>

definition le_at :: "nat \<Rightarrow> nat \<Rightarrow> bytes \<Rightarrow> nat" where
  "le_at off n data = le_nat (slice off (off + n) data)"

definition static_loader :: "bytes \<Rightarrow> unit result" where
  "static_loader data =
     (if length data < 64 \<or> take 7 data \<noteq> 0x7f # ascii ''ELF'' @ [2, 1, 1] \<or> (le_at 16 2 data, le_at 18 2 data) \<noteq> (2, 62)
      then Inl (ValueError (us ''static x86-64 ELF loader required''))
      else let offset = le_at 32 8 data; width = le_at 54 2 data; n = le_at 56 2 data in
        if width \<noteq> 56 \<or> \<not> (1 \<le> n \<and> n \<le> 128) \<or> offset + width * n > length data
        then Inl (ValueError (us ''invalid loader program headers''))
        else let kinds = map (\<lambda>i. le_at (offset + width * i) 4 data) [0..<n] in
          if 1 \<notin> set kinds \<or> 2 \<in> set kinds \<or> 3 \<in> set kinds then Inl (ValueError (us ''dynamic loader rejected''))
          else Inr ())"

subsection \<open>The archive writer\<close>

text \<open>\<open>entries: dict[str, tuple[int, bytes]]\<close>: path, mode and content.\<close>

type_synonym entries = "(pystr \<times> nat \<times> bytes) list"

text \<open>\<open>f"{value:08x}"\<close>\<close>

fun hex_nat :: "nat \<Rightarrow> pystr" where
  "hex_nat n = (if n < 16 then [hex_digit n] else hex_nat (n div 16) @ [hex_digit (n mod 16)])"

declare hex_nat.simps [simp del]

definition hex8 :: "nat \<Rightarrow> pystr" where
  "hex8 value = (let h = hex_nat value in replicate (8 - length h) 48 @ h)"

definition ascii_encode :: "pystr \<Rightarrow> bytes result" where
  "ascii_encode s = (if list_ex (\<lambda>c. c \<ge> 128) s then Inl (ValueError (us ''ascii codec cannot encode character'')) else Inr (map of_nat s))"

text \<open>\<open>output.extend(bytes(-len(output) % 4))\<close>\<close>

definition pad4 :: "bytes \<Rightarrow> bytes" where
  "pad4 output = output @ replicate ((4 - length output mod 4) mod 4) 0"

definition cpio_header :: "nat \<Rightarrow> nat \<Rightarrow> nat \<Rightarrow> nat \<Rightarrow> bytes" where
  "cpio_header inode mode dlen nlen =
     ascii ''070701'' @ map of_nat (concat (map hex8 [inode, mode, 0, 0, 1, 0, dlen, 0, 0, 0, 0, nlen, 0]))"

fun cpio_loop :: "nat \<Rightarrow> bytes \<Rightarrow> entries \<Rightarrow> bytes result" where
  "cpio_loop inode output [] = Inr output"
| "cpio_loop inode output ((name, mode, data) # rest) =
     rbind (ascii_encode name) (\<lambda>enc.
     let encoded = enc @ [0];
         output = output @ cpio_header inode mode (length data) (length encoded);
         output = pad4 (output @ encoded);
         output = pad4 (output @ data)
     in cpio_loop (inode + 1) output rest)"

text \<open>Names are the distinct keys of a dictionary, so \<open>sorted(entries.items())\<close> is by name.\<close>

definition cpio :: "entries \<Rightarrow> bytes result" where
  "cpio es = cpio_loop 1 [] (sort_key fst es @ [(us ''TRAILER!!!'', 0, [])])"

subsection \<open>The image\<close>

definition DIR_MODE :: nat where "DIR_MODE = 0x4000 + 0x16D" \<comment> \<open>\<open>stat.S_IFDIR | 0o555\<close>\<close>
definition EXE_MODE :: nat where "EXE_MODE = 0x8000 + 0x16D" \<comment> \<open>\<open>stat.S_IFREG | 0o555\<close>\<close>
definition FILE_MODE :: nat where "FILE_MODE = 0x8000 + 0x124" \<comment> \<open>\<open>stat.S_IFREG | 0o444\<close>\<close>

definition s_isdir :: "nat \<Rightarrow> bool" where
  "s_isdir mode \<longleftrightarrow> mode AND 0xF000 = 0x4000"

text \<open>A member as \<open>tarfile\<close> shows it, with what extracting and reading it gave (\<open>None\<close>: \<open>extractfile\<close> returned none).\<close>

record tar_member =
  tm_name :: pystr
  tm_mode :: int
  tm_isdir :: bool
  tm_isreg :: bool
  tm_pax_headers :: bool
  tm_size :: int
  tm_data :: "bytes option result"

text \<open>Opening an archive, and iterating over it: the members it yields and the exception that ended it, if any.\<close>

type_synonym tar_open = "bytes \<Rightarrow> (tar_member list \<times> exn option) result"

definition path_char :: "nat \<Rightarrow> bool" where
  "path_char c \<longleftrightarrow> (65 \<le> c \<and> c \<le> 90) \<or> (97 \<le> c \<and> c \<le> 122) \<or> (48 \<le> c \<and> c \<le> 57) \<or> c \<in> {95, 43, 46, 44, 64, 47, 45}"

text \<open>\<open>name.split("/")\<close>\<close>

fun split_slash :: "pystr \<Rightarrow> pystr list" where
  "split_slash [] = [[]]"
| "split_slash (c # s) =
     (if c = 47 then [] # split_slash s else case split_slash s of [] \<Rightarrow> [[c]] | p # ps \<Rightarrow> (c # p) # ps)"

definition bad_path :: "pystr list \<Rightarrow> pystr \<Rightarrow> bool" where
  "bad_path seen name \<longleftrightarrow> name = [] \<or> \<not> list_all path_char name \<or>
     list_ex (\<lambda>part. part \<in> {[], us ''.'', us ''..''}) (split_slash name) \<or>
     hd (split_slash name) \<in> set RESERVED \<or> name \<in> set seen"

text \<open>One round of the loop over the archive, on the paths seen, the total size and the entries.\<close>

type_synonym bundle_state = "pystr list \<times> int \<times> entries"

definition add_member :: "tar_member \<Rightarrow> bundle_state \<Rightarrow> bundle_state result" where
  "add_member item = (\<lambda>(seen, total_size, es).
     rbind (raise_if (bad_path seen (tm_name item)) (ValueError (us ''unsafe, reserved or duplicate runtime path''))) (\<lambda>_.
     let seen = tm_name item # seen in
     rbind (raise_if (length seen > MAX_FILES \<or> tm_mode item AND 0xE12 \<noteq> 0) (ValueError (us ''runtime count or permission policy violated''))) (\<lambda>_.
     rbind (raise_if (\<not> (tm_isdir item \<or> tm_isreg item) \<or> tm_pax_headers item) (ValueError (us ''only plain regular files and directories allowed''))) (\<lambda>_.
     let total_size = total_size + tm_size item in
     rbind (raise_if (total_size > int MAX_BUNDLE \<or> tm_size item < 0 \<or> (tm_isdir item \<and> tm_size item \<noteq> 0)) (ValueError (us ''runtime size policy violated''))) (\<lambda>_.
     let path = us ''runtime/'' @ tm_name item in
     if tm_isdir item then Inr (seen, total_size, AList.update path (DIR_MODE, []) es)
     else rbind (tm_data item) (\<lambda>stream.
       case stream of
         None \<Rightarrow> Inl (ValueError (us ''missing runtime file''))
       | Some data \<Rightarrow>
           rbind (raise_if (int (length data) \<noteq> tm_size item) (ValueError (us ''truncated runtime file''))) (\<lambda>_.
           Inr (seen, total_size, AList.update path (if tm_mode item AND 0x49 \<noteq> 0 then EXE_MODE else FILE_MODE, data) es))))))))"

fun add_members :: "tar_member list \<Rightarrow> bundle_state \<Rightarrow> bundle_state result" where
  "add_members [] st = Inr st"
| "add_members (item # items) st = rbind (add_member item st) (add_members items)"

text \<open>The inner loop over the proper prefixes of a path, and the loop over the paths.\<close>

fun add_parents :: "pystr list \<Rightarrow> entries \<Rightarrow> entries result" where
  "add_parents [] es = Inr es"
| "add_parents (parent # parents) es =
     (case map_of es parent of
        Some (mode, data) \<Rightarrow>
          if \<not> s_isdir mode then Inl (ValueError (us ''runtime parent is not a directory'')) else add_parents parents es
      | None \<Rightarrow> add_parents parents (AList.update parent (DIR_MODE, []) es))"

definition parents_of :: "pystr \<Rightarrow> pystr list" where
  "parents_of path = (let parts = split_slash path in map (\<lambda>depth. join (us ''/'') (take depth parts)) [1..<length parts])"

fun close_parents :: "pystr list \<Rightarrow> entries \<Rightarrow> entries result" where
  "close_parents [] es = Inr es"
| "close_parents (path # paths) es = rbind (add_parents (parents_of path) es) (close_parents paths)"

definition base_entries :: "bytes \<Rightarrow> entries" where
  "base_entries loader =
     map (\<lambda>n. (us n, DIR_MODE, [])) [''dev'', ''sys'', ''runtime'', ''runtime/dev'', ''runtime/run''] @ [(us ''init'', EXE_MODE, loader)]"

definition PYTHON :: pystr where
  "PYTHON = us ''runtime/usr/local/bin/python3''"

definition interpreter_ok :: "entries \<Rightarrow> bool" where
  "interpreter_ok es \<longleftrightarrow> (case map_of es PYTHON of None \<Rightarrow> False | Some (mode, data) \<Rightarrow> mode AND 0x49 \<noteq> 0 \<and> data \<noteq> [])"

definition initramfs_entries :: "tar_open \<Rightarrow> bytes \<Rightarrow> bytes \<Rightarrow> entries result" where
  "initramfs_entries tar_open runtime_tar loader =
     rbind (raise_if (runtime_tar = [] \<or> length runtime_tar + length loader > MAX_BUNDLE) (ValueError (us ''boot inputs exceed size limit''))) (\<lambda>_.
     rbind (static_loader loader) (\<lambda>_.
     rbind (tar_open runtime_tar) (\<lambda>(items, failure).
     rbind (add_members items ([], int (length loader), base_entries loader)) (\<lambda>(seen, total_size, es).
     rbind (case failure of None \<Rightarrow> Inr () | Some e \<Rightarrow> Inl e) (\<lambda>_.
     rbind (close_parents (map fst es) es) (\<lambda>es.
     rbind (raise_if (\<not> interpreter_ok es) (ValueError (us ''fixed Python entry point missing''))) (\<lambda>_.
     Inr es)))))))"

definition build_initramfs :: "tar_open \<Rightarrow> bytes \<Rightarrow> bytes \<Rightarrow> bytes result" where
  "build_initramfs tar_open runtime_tar loader = rbind (initramfs_entries tar_open runtime_tar loader) cpio"

text \<open>\<open>--verify\<close> of the command: the approved image must be the one built from these inputs.\<close>

definition verify_bundle :: "tar_open \<Rightarrow> bytes \<Rightarrow> bytes \<Rightarrow> bytes \<Rightarrow> unit result" where
  "verify_bundle tar_open runtime_tar loader approved =
     rbind (build_initramfs tar_open runtime_tar loader) (\<lambda>bundle.
     raise_if (approved \<noteq> bundle) (ValueError (us ''initramfs differs from approved runtime and loader'')))"

subsection \<open>Paths\<close>

lemma split_slash_nonempty [simp]: "split_slash s \<noteq> []"
  by (induction s) (auto split: list.split)

lemma split_slash_no_slash: "p \<in> set (split_slash s) \<Longrightarrow> 47 \<notin> set p"
proof (induction s arbitrary: p)
  case (Cons c s)
  then show ?case by (auto split: if_split_asm list.split_asm)
qed simp

lemma us_slash: "us ''/'' = [47]"
  by (simp add: us_def)

lemma split_slash_append: "47 \<notin> set p \<Longrightarrow> split_slash (p @ 47 # s) = p # split_slash s" "47 \<notin> set p \<Longrightarrow> split_slash p = [p]"
  by (induction p) auto

lemma split_join: "ps \<noteq> [] \<Longrightarrow> \<forall>p \<in> set ps. 47 \<notin> set p \<Longrightarrow> split_slash (join (us ''/'') ps) = ps"
  by (induction "us ''/''" ps rule: join.induct) (simp_all add: us_slash split_slash_append)

lemma split_prefix:
  assumes "0 < k"
  shows "split_slash (join (us ''/'') (take k (split_slash s))) = take k (split_slash s)"
  using assms split_slash_no_slash [of _ s] by (intro split_join) (auto dest: in_set_takeD)

lemma parents_of_parent:
  assumes "q \<in> set (parents_of p)" shows "set (parents_of q) \<subseteq> set (parents_of p)"
proof -
  obtain k where k: "1 \<le> k" "k < length (split_slash p)" "q = join (us ''/'') (take k (split_slash p))"
    using assms by (auto simp: parents_of_def Let_def)
  have q: "split_slash q = take k (split_slash p)" unfolding k(3) using k(1) by (intro split_prefix) simp
  show ?thesis
  proof
    fix r assume "r \<in> set (parents_of q)"
    then obtain j where j: "1 \<le> j" "j < k" "r = join (us ''/'') (take j (take k (split_slash p)))"
      using k(2) by (auto simp: parents_of_def Let_def q)
    then show "r \<in> set (parents_of p)" using k(2) by (auto simp: parents_of_def Let_def min_def)
  qed
qed

definition safe_path :: "pystr \<Rightarrow> bool" where
  "safe_path p \<longleftrightarrow> list_all (\<lambda>part. part \<notin> {[], us ''.'', us ''..''}) (split_slash p)"

lemma safe_parent: "safe_path p \<Longrightarrow> q \<in> set (parents_of p) \<Longrightarrow> safe_path q"
  using split_prefix [of _ p] set_take_subset [of _ "split_slash p"]
  by (auto simp: safe_path_def parents_of_def Let_def list_all_iff Suc_le_eq subset_iff)

subsection \<open>The closure under parents\<close>

definition entry_ok :: "nat \<times> bytes \<Rightarrow> bool" where
  "entry_ok = (\<lambda>(mode, data). mode = DIR_MODE \<and> data = [] \<or> mode = EXE_MODE \<or> mode = FILE_MODE)"

definition typed :: "entries \<Rightarrow> bool" where
  "typed es \<longleftrightarrow> distinct (map fst es) \<and> list_all (\<lambda>(p, v). entry_ok v) es"

lemma entry_dir: "entry_ok (mode, data) \<Longrightarrow> s_isdir mode \<longleftrightarrow> (mode, data) = (DIR_MODE, [])"
  by (auto simp: entry_ok_def s_isdir_def DIR_MODE_def EXE_MODE_def FILE_MODE_def)

lemma typed_lookup: "typed es \<Longrightarrow> map_of es p = Some v \<Longrightarrow> entry_ok v"
  by (auto simp: typed_def list_all_iff dest: map_of_SomeD)

lemma set_update: "set (AList.update k v es) \<subseteq> insert (k, v) (set es)"
  by (induction es) auto

lemma typed_update: "typed es \<Longrightarrow> entry_ok v \<Longrightarrow> typed (AList.update p v es)"
  using set_update [of p v es] by (auto simp: typed_def list_all_iff distinct_update)

definition closes :: "pystr list \<Rightarrow> entries \<Rightarrow> entries \<Rightarrow> bool" where
  "closes ps es es' \<longleftrightarrow> typed es' \<and> (\<forall>p \<in> set ps. map_of es' p = Some (DIR_MODE, [])) \<and>
     (\<forall>p v. map_of es p = Some v \<longrightarrow> map_of es' p = Some v) \<and>
     (\<forall>p v. map_of es' p = Some v \<longrightarrow> map_of es p = Some v \<or> v = (DIR_MODE, []) \<and> p \<in> set ps)"

lemma closes_trans: "closes ps es es' \<Longrightarrow> closes qs es' es'' \<Longrightarrow> closes (ps @ qs) es es''"
  unfolding closes_def by auto blast+

lemma add_parents_ok: "typed es \<Longrightarrow> add_parents ps es = Inr es' \<Longrightarrow> closes ps es es'"
proof (induction ps es rule: add_parents.induct)
  case (1 es)
  then show ?case by (simp add: closes_def)
next
  case (2 parent parents es)
  show ?case
  proof (cases "map_of es parent")
    case None
    let ?es = "AList.update parent (DIR_MODE, []) es"
    have t: "typed ?es" using 2(3) by (intro typed_update) (simp_all add: entry_ok_def)
    with 2(1) [OF None] 2(4) None have c: "closes parents ?es es'" by simp
    have "closes [parent] es ?es" using t None by (auto simp: closes_def map_of_update_iff)
    from closes_trans [OF this c] show ?thesis by simp
  next
    case (Some v)
    then have v: "v = (DIR_MODE, [])" using 2(4) entry_dir [of "fst v" "snd v"] typed_lookup [OF 2(3) Some]
      by (cases v) (auto split: if_split_asm)
    with 2 Some have c: "closes parents es es'" by (auto simp: s_isdir_def DIR_MODE_def)
    have "closes [parent] es es" using 2(3) Some v by (simp add: closes_def)
    from closes_trans [OF this c] show ?thesis by simp
  qed
qed

lemma close_parents_ok: "typed es \<Longrightarrow> close_parents paths es = Inr es' \<Longrightarrow> closes (concat (map parents_of paths)) es es'"
proof (induction paths arbitrary: es)
  case Nil
  then show ?case by (simp add: closes_def)
next
  case (Cons path paths)
  then obtain es1 where "add_parents (parents_of path) es = Inr es1" "close_parents paths es1 = Inr es'" by (auto simp: rbind_Inr_iff)
  moreover from this have "closes (parents_of path) es es1" using Cons.prems by (intro add_parents_ok)
  moreover from this have "typed es1" by (simp add: closes_def)
  ultimately show ?case using Cons.IH closes_trans by fastforce
qed

text \<open>After the closure every parent of every path is a directory.\<close>

lemma closed_under_parents:
  assumes "closes (concat (map parents_of (map fst es))) es es'" and "map_of es' p = Some v" and "q \<in> set (parents_of p)"
  shows "map_of es' q = Some (DIR_MODE, [])"
proof -
  have "\<exists>r \<in> fst ` set es. q \<in> set (parents_of r)"
  proof (cases "map_of es p")
    case None
    have "map_of es p = Some v \<or> v = (DIR_MODE, []) \<and> p \<in> set (concat (map parents_of (map fst es)))"
      using assms(1,2) unfolding closes_def by blast
    with None have "p \<in> set (concat (map parents_of (map fst es)))" by simp
    then show ?thesis using parents_of_parent assms(3) by fastforce
  next
    case (Some w)
    then show ?thesis using assms(3) by (force dest: map_of_SomeD)
  qed
  then show ?thesis using assms(1) by (auto simp: closes_def)
qed

subsection \<open>The members of the archive\<close>

text \<open>The entry a member gives.\<close>

definition member_entry :: "tar_member \<Rightarrow> nat \<times> bytes \<Rightarrow> bool" where
  "member_entry item v \<longleftrightarrow>
     (if tm_isdir item then v = (DIR_MODE, [])
      else tm_isreg item \<and> (\<exists>data. tm_data item = Inr (Some data) \<and>
        v = (if tm_mode item AND 0x49 \<noteq> 0 then EXE_MODE else FILE_MODE, data)))"

definition member_path :: "tar_member \<Rightarrow> pystr" where
  "member_path item = us ''runtime/'' @ tm_name item"

lemma add_member_ok:
  assumes "add_member item (seen, n, es) = Inr (seen', n', es')"
  obtains v where "\<not> bad_path seen (tm_name item)" "seen' = tm_name item # seen" "member_entry item v" "entry_ok v"
    "es' = AList.update (member_path item) v es" "int (length (snd v)) \<le> tm_size item" "0 \<le> tm_size item" "n' = n + tm_size item" "n' \<le> int MAX_BUNDLE"
    "tm_mode item AND 0xE12 = 0" "\<not> tm_pax_headers item" "length seen' \<le> MAX_FILES"
  using assms unfolding add_member_def Let_def split_conv rbind_Inr_iff raise_if_iff
  by (auto simp: member_entry_def member_path_def entry_ok_def rbind_Inr_iff split: if_split_asm option.split_asm)

lemma parents_disjoint:
  "\<not> bad_path seen name \<Longrightarrow> us ''runtime/'' @ name \<notin> fst ` set (base_entries loader)"
  by (auto simp: base_entries_def us_def bad_path_def RESERVED_def)

text \<open>What the loop leaves: the base entries and one entry per member, under pairwise different paths.\<close>

lemma add_members_ok:
  assumes "add_members items (seen, n, es) = Inr (seen', n', es')" and "typed es"
  shows "typed es' \<and> distinct (map tm_name items) \<and>
    (\<forall>item \<in> set items. \<not> bad_path [] (tm_name item) \<and> tm_name item \<notin> set seen \<and>
      tm_mode item AND 0xE12 = 0 \<and> (\<exists>v. member_entry item v \<and> map_of es' (member_path item) = Some v)) \<and>
    (\<forall>p. p \<notin> member_path ` set items \<longrightarrow> map_of es' p = map_of es p)"
  using assms
proof (induction items arbitrary: seen n es)
  case (Cons item items)
  obtain seen1 n1 es1 where st: "add_member item (seen, n, es) = Inr (seen1, n1, es1)" "add_members items (seen1, n1, es1) = Inr (seen', n', es')"
    using Cons.prems(1) by (auto simp: rbind_Inr_iff)
  obtain v where v: "\<not> bad_path seen (tm_name item)" "seen1 = tm_name item # seen" "member_entry item v" "entry_ok v"
    "es1 = AList.update (member_path item) v es" "0 \<le> tm_size item" "n1 = n + tm_size item" "tm_mode item AND 0xE12 = 0"
    by (rule add_member_ok [OF st(1)])
  have "typed es1" using Cons.prems(2) v by (simp add: typed_update)
  note r = Cons.IH [OF st(2) this]
  have "member_path item \<notin> member_path ` set items" using r v by (auto simp: member_path_def)
  with r v have "map_of es' (member_path item) = Some v" by (simp add: map_of_update_iff)
  with r v show ?case by (cases v) (auto simp: bad_path_def map_of_update_iff)
qed simp

subsection \<open>What an image holds\<close>

lemma base_typed: "typed (base_entries loader)"
  by (auto simp: typed_def base_entries_def entry_ok_def us_def)

lemma base_lookup: "map_of (base_entries loader) (us ''init'') = Some (EXE_MODE, loader)"
  by (simp add: base_entries_def)

lemma split_runtime: "split_slash (us ''runtime/'' @ name) = us ''runtime'' # split_slash name"
  using split_slash_append(1) [of "us ''runtime''" name] by (simp add: us_def)

lemma base_paths_safe: "p \<in> fst ` set (base_entries loader) \<Longrightarrow> safe_path p"
  by (auto simp: base_entries_def safe_path_def us_def)

lemma initramfs_steps:
  assumes "initramfs_entries tar_open tar loader = Inr es"
  obtains items seen n es0 where "length loader \<le> MAX_BUNDLE" "static_loader loader = Inr ()" "tar_open tar = Inr (items, None)"
    "add_members items ([], int (length loader), base_entries loader) = Inr (seen, n, es0)"
    "close_parents (map fst es0) es0 = Inr es" "interpreter_ok es"
  using assms unfolding initramfs_entries_def rbind_Inr_iff raise_if_iff
  by (auto simp: rbind_Inr_iff split: option.split_asm)

text \<open>The files of an image: the loader and the regular members, each under its path.\<close>

definition image_file :: "tar_member list \<Rightarrow> bytes \<Rightarrow> pystr \<Rightarrow> nat \<times> bytes \<Rightarrow> bool" where
  "image_file items loader p v \<longleftrightarrow> p = us ''init'' \<and> v = (EXE_MODE, loader) \<or>
     (\<exists>item \<in> set items. \<not> tm_isdir item \<and> p = member_path item \<and> member_entry item v)"

definition well_formed_image :: "entries \<Rightarrow> bool" where
  "well_formed_image es \<longleftrightarrow> typed es \<and> list_all (\<lambda>(p, v). safe_path p) es \<and>
     list_all (\<lambda>(p, v). list_all (\<lambda>q. map_of es q = Some (DIR_MODE, [])) (parents_of p)) es"

lemma initramfs_ok:
  assumes "initramfs_entries tar_open tar loader = Inr es" and "tar_open tar = Inr (items, failure)"
  shows "failure = None" "static_loader loader = Inr ()" "interpreter_ok es" "well_formed_image es"
    and "\<forall>p v. fst v \<noteq> DIR_MODE \<longrightarrow> (map_of es p = Some v \<longleftrightarrow> image_file items loader p v)"
    and "\<forall>item \<in> set items. tm_isdir item \<longrightarrow> map_of es (member_path item) = Some (DIR_MODE, [])"
proof -
  obtain items' seen n es0 where s: "static_loader loader = Inr ()" and o: "tar_open tar = Inr (items', None)"
    and a': "add_members items' ([], int (length loader), base_entries loader) = Inr (seen, n, es0)"
    and c: "close_parents (map fst es0) es0 = Inr es" and i: "interpreter_ok es"
    by (rule initramfs_steps [OF assms(1)])
  have f: "failure = None" and a: "add_members items ([], int (length loader), base_entries loader) = Inr (seen, n, es0)"
    using o a' assms(2) by simp_all
  have m: "typed es0" "\<And>item. item \<in> set items \<Longrightarrow> \<not> bad_path [] (tm_name item)"
      "\<And>item. item \<in> set items \<Longrightarrow> \<exists>v. member_entry item v \<and> map_of es0 (member_path item) = Some v"
      "\<And>p. p \<notin> member_path ` set items \<Longrightarrow> map_of es0 p = map_of (base_entries loader) p"
    using add_members_ok [OF a base_typed] by auto
  have cl: "closes (concat (map parents_of (map fst es0))) es0 es" by (rule close_parents_ok [OF m(1) c])
  have t: "typed es" using cl by (simp add: closes_def)
  have look: "map_of es p = Some v" if "map_of es0 p = Some v" for p v using cl that unfolding closes_def by blast
  have orig: "map_of es0 p = Some v" if "map_of es p = Some v" "fst v \<noteq> DIR_MODE" for p v
    using cl that unfolding closes_def by (metis fst_conv)
  have keys0: "p \<in> fst ` set (base_entries loader) \<or> p \<in> member_path ` set items" if "p \<in> fst ` set es0" for p
    using m(4) [of p] that by (metis map_of_eq_None_iff)
  have safe0: "safe_path p" if "p \<in> fst ` set es0" for p
    using keys0 [OF that]
  proof
    assume "p \<in> member_path ` set items"
    then obtain item where "item \<in> set items" "p = us ''runtime/'' @ tm_name item" by (auto simp: member_path_def)
    with m(2) show ?thesis by (auto simp: safe_path_def split_runtime bad_path_def list_ex_iff list_all_iff) (auto simp: us_def)
  qed (rule base_paths_safe)
  have safe: "safe_path p" if "map_of es p = Some v" for p v
  proof (cases "map_of es0 p")
    case None
    have "map_of es0 p = Some v \<or> v = (DIR_MODE, []) \<and> p \<in> set (concat (map parents_of (map fst es0)))"
      using cl that unfolding closes_def by blast
    with None safe0 safe_parent show ?thesis by auto
  next
    case (Some w)
    then show ?thesis using safe0 by (force dest: map_of_SomeD)
  qed
  have "well_formed_image es"
    unfolding well_formed_image_def using t safe closed_under_parents [OF cl]
    by (auto simp: list_all_iff typed_def dest: map_of_is_SomeI)
  moreover have "map_of es p = Some v \<longleftrightarrow> image_file items loader p v" if d: "fst v \<noteq> DIR_MODE" for p v
  proof
    assume "map_of es p = Some v"
    then have e: "map_of es0 p = Some v" using orig d by blast
    show "image_file items loader p v"
    proof (cases "p \<in> member_path ` set items")
      case True
      with e m(3) d show ?thesis by (fastforce simp: image_file_def member_entry_def split: if_split_asm)
    next
      case False
      with e m(4) have "map_of (base_entries loader) p = Some v" by simp
      with d show ?thesis by (auto simp: image_file_def base_entries_def split: if_split_asm)
    qed
  next
    assume "image_file items loader p v"
    then consider "p = us ''init''" "v = (EXE_MODE, loader)" | item where "item \<in> set items" "\<not> tm_isdir item" "p = member_path item" "member_entry item v"
      by (auto simp: image_file_def)
    then show "map_of es p = Some v"
    proof cases
      case 1
      moreover have "us ''init'' \<notin> member_path ` set items" by (auto simp: member_path_def us_def)
      ultimately show ?thesis using m(4) base_lookup look by simp
    next
      case 2
      with m(3) obtain w where "member_entry item w" "map_of es0 p = Some w" by blast
      with 2 look show ?thesis by (auto simp: member_entry_def)
    qed
  qed
  moreover have "map_of es (member_path item) = Some (DIR_MODE, [])" if "item \<in> set items" "tm_isdir item" for item
    using m(3) [OF that(1)] look that(2) by (auto simp: member_entry_def)
  ultimately show "failure = None" "static_loader loader = Inr ()" "interpreter_ok es" "well_formed_image es"
    "\<forall>p v. fst v \<noteq> DIR_MODE \<longrightarrow> (map_of es p = Some v \<longleftrightarrow> image_file items loader p v)"
    "\<forall>item \<in> set items. tm_isdir item \<longrightarrow> map_of es (member_path item) = Some (DIR_MODE, [])"
    using f s i by blast+
qed

subsection \<open>The bytes of an image fix its entries\<close>

definition hex_value :: "pystr \<Rightarrow> nat" where
  "hex_value s = foldl (\<lambda>a c. 16 * a + the (hex_val c)) 0 s"

lemma hex_value_nat [simp]: "hex_value (hex_nat n) = n"
proof (induction n rule: hex_nat.induct)
  case (1 n)
  then show ?case by (cases "n < 16") (simp_all add: hex_nat.simps [of n] hex_value_def)
qed

lemma hex_value8 [simp]: "hex_value (hex8 n) = n"
proof -
  have "foldl (\<lambda>a c. 16 * a + the (hex_val c)) 0 (replicate k 48 @ s) = foldl (\<lambda>a c. 16 * a + the (hex_val c)) 0 s" for k s
    by (induction k) (simp_all add: hex_val_def)
  then show ?thesis using hex_value_nat [of n] by (simp add: hex8_def hex_value_def Let_def)
qed

lemma length_hex_nat: "n < 16 ^ Suc k \<Longrightarrow> length (hex_nat n) \<le> Suc k"
proof (induction n arbitrary: k rule: hex_nat.induct)
  case (1 n)
  show ?case
  proof (cases "n < 16")
    case False
    with 1(2) obtain j where j: "k = Suc j" by (cases k) auto
    have "n div 16 < 16 ^ Suc j" using 1(2) by (simp add: j less_mult_imp_div_less)
    with 1(1) False j show ?thesis by (simp add: hex_nat.simps [of n])
  qed (simp add: hex_nat.simps [of n])
qed

lemma length_hex8: "n < 2 ^ 32 \<Longrightarrow> length (hex8 n) = 8"
  using length_hex_nat [of n 7] by (simp add: hex8_def Let_def)

lemma hex_nat_ascii: "c \<in> set (hex_nat n) \<Longrightarrow> c < 128"
proof (induction n rule: hex_nat.induct)
  case (1 n)
  have "hex_digit k < 128" if "k < 16" for k using that by (simp add: hex_digit_def)
  with 1 show ?case by (cases "n < 16") (auto simp: hex_nat.simps [of n])
qed

lemma hex8_ascii: "c \<in> set (hex8 n) \<Longrightarrow> c < 128"
  using hex_nat_ascii by (auto simp: hex8_def Let_def)

lemma cpio_header_length: "inode < 2 ^ 32 \<Longrightarrow> mode < 2 ^ 32 \<Longrightarrow> d < 2 ^ 32 \<Longrightarrow> n < 2 ^ 32 \<Longrightarrow> length (cpio_header inode mode d n) = 110"
  by (simp add: cpio_header_def length_hex8 ascii_def)

lemma cpio_header_inj:
  assumes "cpio_header i m d n = cpio_header i m' d' n'" and "m < 2 ^ 32" "d < 2 ^ 32" "n < 2 ^ 32" "m' < 2 ^ 32" "d' < 2 ^ 32" "n' < 2 ^ 32"
  shows "m = m'" "d = d'" "n = n'"
proof -
  have "concat (map hex8 [i, m, 0, 0, 1, 0, d, 0, 0, 0, 0, n, 0]) = concat (map hex8 [i, m', 0, 0, 1, 0, d', 0, 0, 0, 0, n', 0])"
  proof (rule byte_map_inj)
    show "b < 256" if "b \<in> set (concat (map hex8 xs))" for b xs using that hex8_ascii by fastforce
    then show "b < 256" if "b \<in> set (concat (map hex8 xs))" for b xs using that .
    show "map (of_nat :: nat \<Rightarrow> byte) (concat (map hex8 [i, m, 0, 0, 1, 0, d, 0, 0, 0, 0, n, 0])) = map of_nat (concat (map hex8 [i, m', 0, 0, 1, 0, d', 0, 0, 0, 0, n', 0]))"
      using assms(1) by (simp only: cpio_header_def append_same_eq append_eq_append_conv same_append_eq)
  qed
  then have "hex8 m = hex8 m'" "hex8 d = hex8 d'" "hex8 n = hex8 n'" using assms(2-) by (simp_all add: length_hex8)
  then show "m = m'" "d = d'" "n = n'" by (metis hex_value8)+
qed

fun cpio_entry :: "nat \<Rightarrow> pystr \<times> nat \<times> bytes \<Rightarrow> bytes" where
  "cpio_entry inode (name, mode, data) =
     pad4 (pad4 (cpio_header inode mode (length data) (length name + 1) @ map of_nat name @ [0]) @ data)"

fun cpio_bytes :: "nat \<Rightarrow> entries \<Rightarrow> bytes" where
  "cpio_bytes inode [] = []"
| "cpio_bytes inode (e # es) = cpio_entry inode e @ cpio_bytes (inode + 1) es"

lemma length_pad4: "length (pad4 b) mod 4 = 0"
proof -
  have "(n + (4 - n mod 4) mod 4) mod 4 = 0" for n :: nat
  proof -
    have "n mod 4 < 4" by simp
    then consider "n mod 4 = 0" | "n mod 4 = 1" | "n mod 4 = 2" | "n mod 4 = 3" by linarith
    then show ?thesis by cases (simp_all, presburger+)
  qed
  then show ?thesis by (simp add: pad4_def)
qed

lemma pad4_append: "length a mod 4 = 0 \<Longrightarrow> pad4 (a @ b) = a @ pad4 b"
proof -
  assume "length a mod 4 = 0"
  then have "(length a + length b) mod 4 = length b mod 4" by presburger
  then show ?thesis by (simp add: pad4_def)
qed

lemma cpio_loop_bytes:
  "cpio_loop inode out es = Inr b \<Longrightarrow> length out mod 4 = 0 \<Longrightarrow> b = out @ cpio_bytes inode es \<and> list_all (\<lambda>(p, v). list_all (\<lambda>c. c < 128) p) es"
proof (induction inode out es rule: cpio_loop.induct)
  case (2 inode out name mode data rest)
  let ?h = "cpio_header inode mode (length data) (length name + 1) @ map of_nat name @ [0]"
  have a: "\<not> list_ex (\<lambda>c. c \<ge> 128) name" and r: "cpio_loop (inode + 1) (pad4 (pad4 (out @ ?h) @ data)) rest = Inr b"
    using 2(2) by (auto simp: rbind_Inr_iff ascii_encode_def Let_def split: if_split_asm)
  have o: "pad4 (pad4 (out @ ?h) @ data) = out @ cpio_entry inode (name, mode, data)"
    using 2(3) by (simp add: pad4_append)
  from 2(1) [of "map of_nat name @ [0]" "map of_nat name", OF refl refl refl refl] r have "b = pad4 (pad4 (out @ ?h) @ data) @ cpio_bytes (inode + 1) rest \<and> list_all (\<lambda>(p, v). list_all (\<lambda>c. c < 128) p) rest"
    using length_pad4 by simp
  with a o show ?case by (auto simp: list_ex_iff list_all_iff)
qed simp

definition fits :: "pystr \<times> nat \<times> bytes \<Rightarrow> bool" where
  "fits = (\<lambda>(name, mode, data). list_all (\<lambda>c. c < 128) name \<and> length name + 1 < 2 ^ 32 \<and> mode < 2 ^ 32 \<and> length data < 2 ^ 32)"

definition padding :: "nat \<Rightarrow> bytes" where
  "padding n = replicate ((4 - n mod 4) mod 4) 0"

lemma cpio_entry_shape:
  assumes "h = cpio_header i m (length d) (length p + 1)"
  shows "cpio_entry i (p, m, d) = h @ map of_nat p @ [0] @ padding (length h + length p + 1) @ d @
     padding (length h + length p + 1 + length (padding (length h + length p + 1)) + length d)"
  by (simp add: assms pad4_def padding_def ac_simps)

lemma cpio_entry_inj:
  assumes "cpio_entry i e @ r = cpio_entry i e' @ r'" and "fits e" and "fits e'"
  shows "e = e' \<and> r = r'"
proof -
  obtain p m d p' m' d' where e: "e = (p, m, d)" "e' = (p', m', d')" by (metis surj_pair)
  have f: "m < 2 ^ 32" "length d < 2 ^ 32" "length p + 1 < 2 ^ 32" "m' < 2 ^ 32" "length d' < 2 ^ 32" "length p' + 1 < 2 ^ 32"
    and a: "list_all (\<lambda>c. c < 128) p" "list_all (\<lambda>c. c < 128) p'" using assms(2,3) by (simp_all add: e fits_def)
  define h where h: "h = cpio_header i m (length d) (length p + 1)"
  define h' where h': "h' = cpio_header i m' (length d') (length p' + 1)"
  have l: "length h = length h'" using f by (simp add: h h' cpio_header_def length_hex8)
  note eq = assms(1) [unfolded e cpio_entry_shape [OF h] cpio_entry_shape [OF h'] append_assoc]
  have hh: "h = h'" using eq l append_eq_append_conv by blast
  have m: "m = m'" "length d = length d'" "length p = length p'"
    using cpio_header_inj [OF hh [unfolded h h'] f] by simp_all
  note eq' = eq [unfolded hh m, unfolded same_append_eq]
  have "map (of_nat :: nat \<Rightarrow> byte) p = map of_nat p' \<and> d = d' \<and> r = r'" using eq' m by simp
  moreover have "p = p'"
  proof (rule byte_map_inj)
    show "b < 256" if "b \<in> set p" for b using a(1) that by (fastforce simp: list_all_iff)
    show "b < 256" if "b \<in> set p'" for b using a(2) that by (fastforce simp: list_all_iff)
  qed (use calculation in simp)
  ultimately show ?thesis using m e by simp
qed

lemma cpio_entry_nonempty: "cpio_entry i e \<noteq> []"
  by (cases e) (simp add: pad4_def)

lemma cpio_bytes_inj:
  "cpio_bytes i es = cpio_bytes i es' \<Longrightarrow> list_all fits es \<Longrightarrow> list_all fits es' \<Longrightarrow> es = es'"
proof (induction es arbitrary: i es')
  case Nil
  then show ?case by (cases es') (simp_all add: cpio_entry_nonempty)
next
  case (Cons e es)
  then obtain e' es1 where es': "es' = e' # es1" by (cases es') (simp_all add: cpio_entry_nonempty)
  with Cons.prems cpio_entry_inj [of i e _ e'] have "e = e' \<and> cpio_bytes (i + 1) es = cpio_bytes (i + 1) es1" by simp
  with Cons.IH Cons.prems es' show ?case by simp
qed

lemma cpio_inj:
  assumes "cpio es = Inr b" and "cpio es' = Inr b" and "list_all (\<lambda>(p, m, d). length p + 1 < 2 ^ 32 \<and> m < 2 ^ 32 \<and> length d < 2 ^ 32) es"
    and "list_all (\<lambda>(p, m, d). length p + 1 < 2 ^ 32 \<and> m < 2 ^ 32 \<and> length d < 2 ^ 32) es'"
  shows "sort_key fst es = sort_key fst es'"
proof -
  have t: "list_all fits (sort_key fst x @ [(us ''TRAILER!!!'', 0, [])])"
    if "cpio x = Inr b" "list_all (\<lambda>(p, m, d). length p + 1 < 2 ^ 32 \<and> m < 2 ^ 32 \<and> length d < 2 ^ 32) x" for x
    using cpio_loop_bytes [OF that(1) [unfolded cpio_def]] that(2) by (auto simp: list_all_iff fits_def) (simp add: us_def)
  have "sort_key fst es @ [(us ''TRAILER!!!'', 0, [])] = sort_key fst es' @ [(us ''TRAILER!!!'', 0, [])]"
    using cpio_loop_bytes [OF assms(1) [unfolded cpio_def]] cpio_loop_bytes [OF assms(2) [unfolded cpio_def]] t assms
    by (intro cpio_bytes_inj [of 1]) simp_all
  then show ?thesis by simp
qed

subsection \<open>Bounds on an image\<close>

lemma join_split: "join (us ''/'') (split_slash s) = s"
proof (induction s)
  case (Cons c s)
  obtain p ps where ps: "split_slash s = p # ps" by (cases "split_slash s") auto
  with Cons show ?case by (cases ps) (auto simp: us_slash)
qed simp

lemma length_join_take: "length (join sep (take k xs)) \<le> length (join sep xs)"
proof (induction sep xs arbitrary: k rule: join.induct)
  case (2 sep x)
  then show ?case by (cases k) simp_all
next
  case (3 sep x y xs)
  show ?case
  proof (cases k)
    case (Suc j)
    then show ?thesis using 3 [of j] by (cases j) simp_all
  qed simp
qed simp

lemma length_parent: "q \<in> set (parents_of p) \<Longrightarrow> length q \<le> length p"
  using length_join_take [of "us ''/''" _ "split_slash p"] by (auto simp: parents_of_def Let_def join_split)

definition sized :: "nat \<Rightarrow> entries \<Rightarrow> bool" where
  "sized n es \<longleftrightarrow> list_all (\<lambda>(p, m, d). length p \<le> n \<and> length d \<le> MAX_BUNDLE) es"

lemma sized_update: "sized n es \<Longrightarrow> length p \<le> n \<Longrightarrow> length (snd v) \<le> MAX_BUNDLE \<Longrightarrow> sized n (AList.update p v es)"
  using set_update [of p v es] by (cases v) (auto simp: sized_def list_all_iff)

lemma add_members_sized:
  "add_members items (seen, n, es) = Inr (seen', n', es') \<Longrightarrow> 0 \<le> n \<Longrightarrow> sized k es \<Longrightarrow>
     \<forall>item \<in> set items. length (member_path item) \<le> k \<Longrightarrow> sized k es'"
proof (induction items arbitrary: seen n es)
  case (Cons item items)
  obtain seen1 n1 es1 where st: "add_member item (seen, n, es) = Inr (seen1, n1, es1)" "add_members items (seen1, n1, es1) = Inr (seen', n', es')"
    using Cons.prems(1) by (auto simp: rbind_Inr_iff)
  obtain v where v: "es1 = AList.update (member_path item) v es" "int (length (snd v)) \<le> tm_size item" "0 \<le> tm_size item"
    "n1 = n + tm_size item" "n1 \<le> int MAX_BUNDLE"
    by (rule add_member_ok [OF st(1)])
  then have "sized k es1" using Cons.prems by (auto intro: sized_update)
  with Cons st v show ?case by auto
qed simp

lemma add_parents_sized: "add_parents ps es = Inr es' \<Longrightarrow> sized k es \<Longrightarrow> \<forall>p \<in> set ps. length p \<le> k \<Longrightarrow> sized k es'"
proof (induction ps es rule: add_parents.induct)
  case (2 parent parents es)
  show ?case
  proof (cases "map_of es parent")
    case None
    have "sized k (AList.update parent (DIR_MODE, []) es)" using 2 by (intro sized_update) simp_all
    with 2 None show ?thesis by simp
  next
    case (Some v)
    with 2 show ?thesis by (cases v) (auto split: if_split_asm)
  qed
qed simp

lemma close_parents_sized: "close_parents paths es = Inr es' \<Longrightarrow> sized k es \<Longrightarrow> \<forall>p \<in> set paths. length p \<le> k \<Longrightarrow> sized k es'"
proof (induction paths arbitrary: es)
  case (Cons path paths)
  then obtain es1 where "add_parents (parents_of path) es = Inr es1" "close_parents paths es1 = Inr es'" by (auto simp: rbind_Inr_iff)
  moreover have "\<forall>p \<in> set (parents_of path). length p \<le> k" using Cons.prems(3) length_parent [of _ path] order_trans by auto
  ultimately show ?case using Cons.IH Cons.prems add_parents_sized by simp
qed simp

text \<open>What the archive's reader documents: a member's name is read from the archive, so it is no longer than it.\<close>

definition names_from_archive :: "tar_open \<Rightarrow> bytes \<Rightarrow> bool" where
  "names_from_archive tar_open tar \<longleftrightarrow>
     (case tar_open tar of Inl e \<Rightarrow> True | Inr (items, failure) \<Rightarrow> list_all (\<lambda>item. length (tm_name item) \<le> length tar) items)"

lemma initramfs_fits:
  assumes "initramfs_entries tar_open tar loader = Inr es" and "names_from_archive tar_open tar"
  shows "list_all (\<lambda>(p, m, d). length p + 1 < 2 ^ 32 \<and> m < 2 ^ 32 \<and> length d < 2 ^ 32) es"
proof -
  have tl: "length tar \<le> MAX_BUNDLE" using assms(1) by (auto simp: initramfs_entries_def rbind_Inr_iff)
  obtain items seen n es0 where s: "length loader \<le> MAX_BUNDLE" and o: "tar_open tar = Inr (items, None)"
    and a: "add_members items ([], int (length loader), base_entries loader) = Inr (seen, n, es0)"
    and c: "close_parents (map fst es0) es0 = Inr es"
    by (rule initramfs_steps [OF assms(1)])
  let ?k = "MAX_BUNDLE + 16"
  have "sized ?k (base_entries loader)" using s by (simp add: sized_def base_entries_def us_def)
  moreover have "\<forall>item \<in> set items. length (member_path item) \<le> ?k"
  proof
    fix item assume "item \<in> set items"
    then have "length (tm_name item) \<le> length tar" using assms(2) o by (simp add: names_from_archive_def list_all_iff)
    with tl show "length (member_path item) \<le> ?k" by (simp add: member_path_def us_def)
  qed
  ultimately have es0: "sized ?k es0" by (intro add_members_sized [OF a]) simp_all
  then have "sized ?k es" by (intro close_parents_sized [OF c]) (auto simp: sized_def list_all_iff)
  moreover have "typed es" using initramfs_ok(4) [OF assms(1) o] by (simp add: well_formed_image_def)
  ultimately show ?thesis
    by (fastforce simp: sized_def typed_def list_all_iff entry_ok_def MAX_BUNDLE_def DIR_MODE_def EXE_MODE_def FILE_MODE_def)
qed

subsection \<open>Approved images\<close>

lemma build_steps:
  assumes "build_initramfs tar_open tar loader = Inr b"
  obtains es where "initramfs_entries tar_open tar loader = Inr es" "cpio es = Inr b"
  using assms by (auto simp: build_initramfs_def rbind_Inr_iff)

text \<open>
  C12 (boot bundles). Every image that is built holds only directories and read-only regular files, under paths with no
  empty, dot or dot-dot component, and every parent of an entry is a directory of the image; its files
  are exactly the loader, executable at \<open>init\<close>, and the regular members of the archive below
  \<open>runtime\<close> with their bytes and their executable bit; the loader is a static ELF file and the Python
  entry point is there.
\<close>

theorem image_is_well_formed:
  assumes "build_initramfs tar_open tar loader = Inr b" and "tar_open tar = Inr (items, failure)"
  shows "\<exists>es. cpio es = Inr b \<and> well_formed_image es \<and> interpreter_ok es \<and> static_loader loader = Inr () \<and>
    (\<forall>p v. fst v \<noteq> DIR_MODE \<longrightarrow> (map_of es p = Some v \<longleftrightarrow> image_file items loader p v))"
proof -
  obtain es where e: "initramfs_entries tar_open tar loader = Inr es" "cpio es = Inr b" by (rule build_steps [OF assms(1)])
  with initramfs_ok [OF e(1) assms(2)] show ?thesis by blast
qed

lemma image_file_mode: "image_file items loader p v \<Longrightarrow> fst v \<noteq> DIR_MODE"
  by (auto simp: image_file_def member_entry_def DIR_MODE_def EXE_MODE_def FILE_MODE_def split: if_split_asm)

lemma same_image:
  assumes "build_initramfs tar_open tar loader = Inr b" and "build_initramfs tar_open' tar' loader' = Inr b"
    and "tar_open tar = Inr (items, failure)" and "tar_open' tar' = Inr (items', failure')"
    and "names_from_archive tar_open tar" and "names_from_archive tar_open' tar'"
  shows "image_file items loader p v \<longleftrightarrow> image_file items' loader' p v"
proof -
  obtain es where e: "initramfs_entries tar_open tar loader = Inr es" "cpio es = Inr b" by (rule build_steps [OF assms(1)])
  obtain es' where e': "initramfs_entries tar_open' tar' loader' = Inr es'" "cpio es' = Inr b" by (rule build_steps [OF assms(2)])
  have "sort_key fst es = sort_key fst es'"
    by (rule cpio_inj [OF e(2) e'(2) initramfs_fits [OF e(1) assms(5)] initramfs_fits [OF e'(1) assms(6)]])
  moreover have "distinct (map fst es)" "distinct (map fst es')"
    using initramfs_ok(4) [OF e(1) assms(3)] initramfs_ok(4) [OF e'(1) assms(4)] by (simp_all add: well_formed_image_def typed_def)
  ultimately have m: "map_of es = map_of es'" using map_of_sort_key(1) by metis
  show ?thesis
  proof (cases "fst v = DIR_MODE")
    case True
    then show ?thesis using image_file_mode by blast
  next
    case False
    then show ?thesis using initramfs_ok(5) [OF e(1) assms(3)] initramfs_ok(5) [OF e'(1) assms(4)] unfolding m by blast
  qed
qed

text \<open>
  C13 (boot bundles). An approved image admits one runtime only: when two pairs of archive and loader verify against the
  same approved bytes, the loaders are the same and so are all files, each with its content and its
  executable bit.
\<close>

theorem approved_image_fixes_runtime:
  assumes "verify_bundle tar_open tar loader approved = Inr ()" and "verify_bundle tar_open' tar' loader' approved = Inr ()"
    and "tar_open tar = Inr (items, failure)" and "tar_open' tar' = Inr (items', failure')"
    and "names_from_archive tar_open tar" and "names_from_archive tar_open' tar'"
  shows "loader = loader' \<and> (\<forall>p v. image_file items loader p v \<longleftrightarrow> image_file items' loader' p v)"
proof -
  have b: "build_initramfs tar_open tar loader = Inr approved" "build_initramfs tar_open' tar' loader' = Inr approved"
    using assms(1,2) by (auto simp: verify_bundle_def rbind_Inr_iff)
  note same = same_image [OF b assms(3-6)]
  have "image_file items loader (us ''init'') (EXE_MODE, loader)" by (simp add: image_file_def)
  then have "image_file items' loader' (us ''init'') (EXE_MODE, loader)" using same by blast
  then have "loader = loader'" by (auto simp: image_file_def member_path_def us_def)
  with same show ?thesis by blast
qed

subsection \<open>A concrete image\<close>

definition demo_loader :: bytes where
  "demo_loader = [127, 69, 76, 70, 2, 1, 1, 0, 0, 0, 0, 0, 0, 0, 0, 0, 2, 0, 62, 0, 0, 0, 0, 0, 0, 0, 0, 0, 0, 0, 0, 0, 64, 0,
     0, 0, 0, 0, 0, 0, 0, 0, 0, 0, 0, 0, 0, 0, 0, 0, 0, 0, 0, 0, 56, 0, 1, 0, 0, 0, 0, 0, 0, 0, 1, 0, 0, 0, 0, 0,
     0, 0, 0, 0, 0, 0, 0, 0, 0, 0, 0, 0, 0, 0, 0, 0, 0, 0, 0, 0, 0, 0, 0, 0, 0, 0, 0, 0, 0, 0, 0, 0, 0, 0, 0, 0, 0,
     0, 0, 0, 0, 0, 0, 0, 0, 0, 0, 0, 0, 0]"

definition demo_member :: tar_member where
  "demo_member = \<lparr>tm_name = us ''usr/local/bin/python3'', tm_mode = 0x1ED, tm_isdir = False, tm_isreg = True, tm_pax_headers = False,
     tm_size = 1, tm_data = Inr (Some [1])\<rparr>"

definition demo_tar :: tar_open where
  "demo_tar b = Inr ([demo_member], None)"

lemma demo_loader_static: "static_loader demo_loader = Inr ()" "length demo_loader = 120"
  by (simp_all add: static_loader_def demo_loader_def ascii_def le_at_def le_nat_def slice_def Let_def)

definition demo_entries :: entries where
  "demo_entries = base_entries demo_loader @ (PYTHON, EXE_MODE, [1]) #
     map (\<lambda>n. (us n, DIR_MODE, [])) [''runtime/usr'', ''runtime/usr/local'', ''runtime/usr/local/bin'']"

lemma demo_image: "initramfs_entries demo_tar (replicate 21 0) demo_loader = Inr demo_entries"
proof -
  have a: "add_members [demo_member] ([], 120, base_entries demo_loader) =
      Inr ([tm_name demo_member], 121, base_entries demo_loader @ [(PYTHON, EXE_MODE, [1])])"
    by (simp add: add_member_def demo_member_def bad_path_def us_def path_char_def RESERVED_def MAX_FILES_def MAX_BUNDLE_def base_entries_def
        PYTHON_def DIR_MODE_def)
  have c: "close_parents (map fst (base_entries demo_loader @ [(PYTHON, EXE_MODE, [1])])) (base_entries demo_loader @ [(PYTHON, EXE_MODE, [1])]) = Inr demo_entries"
    by (simp add: base_entries_def demo_entries_def PYTHON_def us_def parents_of_def upt_rec s_isdir_def DIR_MODE_def)
  have i: "interpreter_ok demo_entries"
    by (simp add: interpreter_ok_def demo_entries_def base_entries_def PYTHON_def us_def EXE_MODE_def)
  show ?thesis using a c i demo_loader_static
    by (simp add: initramfs_entries_def demo_tar_def MAX_BUNDLE_def)
qed

lemma cpio_loop_total: "list_all (\<lambda>(p, v). list_all (\<lambda>c. c < 128) p) es \<Longrightarrow> \<exists>b. cpio_loop inode out es = Inr b"
proof (induction es arbitrary: inode out)
  case (Cons e es)
  then have "\<not> list_ex (\<lambda>c. c \<ge> 128) (fst e)" by (auto simp: list_ex_iff list_all_iff not_le)
  with Cons show ?case by (cases e) (auto simp: ascii_encode_def Let_def)
qed simp

lemma demo_built: "\<exists>b. build_initramfs demo_tar (replicate 21 0) demo_loader = Inr b \<and> cpio demo_entries = Inr b"
proof -
  have "list_all (\<lambda>(p, v). list_all (\<lambda>c. c < 128) p) demo_entries"
    by (simp add: demo_entries_def base_entries_def PYTHON_def us_def)
  then have "list_all (\<lambda>(p, v). list_all (\<lambda>c. c < 128) p) (sort_key fst demo_entries @ [(us ''TRAILER!!!'', 0, [])])"
    by (simp add: list_all_iff) (simp add: us_def)
  from cpio_loop_total [OF this] show ?thesis using demo_image by (simp add: cpio_def build_initramfs_def)
qed

text \<open>A second archive names the directory \<open>usr\<close> as well; its image is the same.\<close>

definition usr_member :: tar_member where
  "usr_member = \<lparr>tm_name = us ''usr'', tm_mode = 0x1ED, tm_isdir = True, tm_isreg = False, tm_pax_headers = False, tm_size = 0,
     tm_data = Inr None\<rparr>"

definition demo_tar2 :: tar_open where
  "demo_tar2 b = Inr ([usr_member, demo_member], None)"

definition demo_entries2 :: entries where
  "demo_entries2 = base_entries demo_loader @ (us ''runtime/usr'', DIR_MODE, []) # (PYTHON, EXE_MODE, [1]) #
     map (\<lambda>n. (us n, DIR_MODE, [])) [''runtime/usr/local'', ''runtime/usr/local/bin'']"

lemma demo_image2: "initramfs_entries demo_tar2 (replicate 21 0) demo_loader = Inr demo_entries2"
proof -
  let ?es = "base_entries demo_loader @ [(us ''runtime/usr'', DIR_MODE, []), (PYTHON, EXE_MODE, [1])]"
  have a: "add_members [usr_member, demo_member] ([], 120, base_entries demo_loader) = Inr ([tm_name demo_member, us ''usr''], 121, ?es)"
    by (simp add: add_member_def demo_member_def usr_member_def bad_path_def us_def path_char_def RESERVED_def MAX_FILES_def MAX_BUNDLE_def
        base_entries_def PYTHON_def DIR_MODE_def)
  have c: "close_parents (map fst ?es) ?es = Inr demo_entries2"
    by (simp add: base_entries_def demo_entries2_def PYTHON_def us_def parents_of_def upt_rec s_isdir_def DIR_MODE_def)
  have i: "interpreter_ok demo_entries2"
    by (simp add: interpreter_ok_def demo_entries2_def base_entries_def PYTHON_def us_def EXE_MODE_def)
  show ?thesis using a c i demo_loader_static
    by (simp add: initramfs_entries_def demo_tar2_def MAX_BUNDLE_def)
qed

lemma demo_same_archive: "cpio demo_entries2 = cpio demo_entries"
proof -
  have "distinct (map fst demo_entries)" by (simp add: demo_entries_def base_entries_def PYTHON_def us_def)
  then have "inj_on fst (set demo_entries)" by (simp add: distinct_map)
  moreover have "mset demo_entries2 = mset demo_entries" by (simp add: demo_entries_def demo_entries2_def)
  ultimately have "sort_key fst demo_entries = sort_key fst demo_entries2"
    by (intro properties_for_sort_key sort_key_inj_key_eq) auto
  then show ?thesis by (simp add: cpio_def)
qed

lemma demo_names: "names_from_archive demo_tar (replicate 21 0)" "names_from_archive demo_tar2 (replicate 21 0)"
  by (simp_all add: names_from_archive_def demo_tar_def demo_tar2_def demo_member_def usr_member_def us_def)

theorem image_is_well_formed_witness:
  "\<exists>es. well_formed_image es \<and> map_of es PYTHON = Some (EXE_MODE, [1]) \<and> map_of es (us ''init'') = Some (EXE_MODE, demo_loader)"
proof -
  obtain b where b: "build_initramfs demo_tar (replicate 21 0) demo_loader = Inr b" using demo_built by auto
  have o: "demo_tar (replicate 21 0) = Inr ([demo_member], None)" by (simp add: demo_tar_def)
  have "image_file [demo_member] demo_loader PYTHON (EXE_MODE, [1])" "image_file [demo_member] demo_loader (us ''init'') (EXE_MODE, demo_loader)"
    by (simp_all add: image_file_def member_path_def demo_member_def member_entry_def PYTHON_def) (simp add: us_def)
  then show ?thesis using image_is_well_formed [OF b o] by (auto simp: EXE_MODE_def DIR_MODE_def)
qed

theorem approved_image_fixes_runtime_witness:
  "image_file [demo_member] demo_loader PYTHON (EXE_MODE, [1]) \<longleftrightarrow> image_file [usr_member, demo_member] demo_loader PYTHON (EXE_MODE, [1])"
proof -
  obtain b where b: "build_initramfs demo_tar (replicate 21 0) demo_loader = Inr b" "cpio demo_entries = Inr b" using demo_built by auto
  have v: "verify_bundle demo_tar (replicate 21 0) demo_loader b = Inr ()" "verify_bundle demo_tar2 (replicate 21 0) demo_loader b = Inr ()"
    using b demo_image2 demo_same_archive by (simp_all add: verify_bundle_def build_initramfs_def)
  have o: "demo_tar (replicate 21 0) = Inr ([demo_member], None)" "demo_tar2 (replicate 21 0) = Inr ([usr_member, demo_member], None)"
    by (simp_all add: demo_tar_def demo_tar2_def)
  show ?thesis using approved_image_fixes_runtime [OF v o demo_names] by simp
qed

end
