(* ===== verification/BrokerWire.thy ===== *)
theory BrokerWire
  imports Receiver
begin

section \<open>Operator input of the broker (\<open>provisioning_wire.py\<close>, \<open>guest_broker.py\<close>)\<close>

text \<open>
  The strict readers of configuration and policy objects and the two ways a broker gets its inputs: a
  configuration file with paths and the guest's configuration snapshot. JSON text is read by a
  parameter that returns objects as their pairs, so that the refusal of duplicate members is part of
  the model; files are functions from their path. The main results: a policy object is accepted
  exactly when it has the eight fields of a valid policy and nothing else, and reads back to that
  policy; and inputs a guest accepts always boot a receiver under the policy that names them.
\<close>

subsection \<open>JSON objects\<close>

record wire = env +
  json_pairs :: "bytes \<Rightarrow> json result" \<comment> \<open>objects as their pairs in order, duplicates included\<close>
  utc_offset :: "pystr \<Rightarrow> time option" \<comment> \<open>\<open>datetime.fromisoformat(s).utcoffset()\<close>\<close>

definition unique_object :: "(pystr \<times> json) list \<Rightarrow> json result" where
  "unique_object pairs = (if distinct (map fst pairs) then Inr (JDict pairs) else Inl (ValueError (us ''duplicate JSON member'')))"

text \<open>\<open>json.loads(data, object_pairs_hook=_unique_object)\<close>: the hook builds every object, the inner ones first.\<close>

function (sequential) build_json :: "json \<Rightarrow> json result" where
  "build_json (JList vs) = rbind (rmap build_json vs) (\<lambda>ws. Inr (JList ws))"
| "build_json (JDict d) =
     rbind (rmap (\<lambda>(k, v). rbind (build_json v) (\<lambda>w. Inr (k, w))) d) unique_object"
| "build_json v = Inr v"
  by pat_completeness auto

termination
  by (relation "measure size") (auto simp: size_member_list intro: size_member_dict [where P = "\<lambda>_. True" and f = fst])

declare build_json.simps [simp del]

definition json_object :: "('x) wire_scheme \<Rightarrow> bytes \<Rightarrow> (pystr \<times> json) list result" where
  "json_object w data =
     rbind (json_pairs w data) (\<lambda>raw. rbind (build_json raw) (\<lambda>value.
       case value of JDict d \<Rightarrow> Inr d | _ \<Rightarrow> Inl (ValueError (us ''JSON object required''))))"

definition exact_fields :: "(pystr \<times> json) list \<Rightarrow> string list \<Rightarrow> string list \<Rightarrow> unit result" where
  "exact_fields value required optional =
     raise_if (\<not> us ` set required \<subseteq> fst ` set value \<or> fst ` set value - us ` set required - us ` set optional \<noteq> {})
       (ValueError (us ''missing or unrecognized configuration fields''))"

text \<open>\<open>value[name]\<close> on an object that has the field.\<close>

definition field :: "(pystr \<times> json) list \<Rightarrow> string \<Rightarrow> json" where
  "field d name = (case map_of d (us name) of None \<Rightarrow> JNull | Some v \<Rightarrow> v)"

fun is_text :: "json \<Rightarrow> bool" where
  "is_text (JStr s) = True"
| "is_text _ = False"

fun text_of :: "json \<Rightarrow> pystr" where
  "text_of (JStr s) = s"
| "text_of _ = []"

fun int_of :: "json \<Rightarrow> int" where
  "int_of (JInt n) = n"
| "int_of _ = - 1"

definition strings :: "json \<Rightarrow> pystr list result" where
  "strings value =
     (case value of
        JList vs \<Rightarrow>
          if list_ex (\<lambda>v. \<not> is_text v \<or> text_of v = []) vs then Inl (ValueError (us ''JSON string array required''))
          else if \<not> distinct (map text_of vs) then Inl (ValueError (us ''duplicate array member''))
          else Inr (map text_of vs)
      | _ \<Rightarrow> Inl (ValueError (us ''JSON string array required'')))"

subsection \<open>Policies\<close>

definition POLICY_FIELDS :: "string list" where
  "POLICY_FIELDS = [''measurement_hex'', ''configuration_sha256'', ''weights_hash'', ''epoch'', ''guest_policy'',
     ''minimum_tcb_le_hex'', ''required_platform_fields'', ''forbidden_platform_fields'']"

text \<open>
  \<open>BrokerProvisioningPolicy(**values)\<close>: its constructor raises for a field of another type what it
  raises for an empty text or a negative number, which is what such a field is read as here.
\<close>

definition policy_from_object :: "json \<Rightarrow> broker_policy result" where
  "policy_from_object raw =
     (case raw of
        JDict d \<Rightarrow>
          rbind (exact_fields d POLICY_FIELDS []) (\<lambda>_.
          rbind (strings (field d ''required_platform_fields'')) (\<lambda>required.
          rbind (strings (field d ''forbidden_platform_fields'')) (\<lambda>forbidden.
          new_policy
            \<lparr>bp_measurement_hex = text_of (field d ''measurement_hex''),
             bp_configuration_sha256 = text_of (field d ''configuration_sha256''),
             bp_weights_hash = text_of (field d ''weights_hash''),
             bp_epoch = int_of (field d ''epoch''),
             bp_guest_policy = int_of (field d ''guest_policy''),
             bp_minimum_tcb_le_hex = text_of (field d ''minimum_tcb_le_hex''),
             bp_required_platform_fields = set required,
             bp_forbidden_platform_fields = set forbidden\<rparr>)))
      | _ \<Rightarrow> Inl (ValueError (us ''policy object required'')))"

subsection \<open>Configuration files\<close>

text \<open>Reading the file at a path given in a configuration, relative to it.\<close>

type_synonym files = "pystr \<Rightarrow> bytes result"

definition load_policy :: "('x) wire_scheme \<Rightarrow> files \<Rightarrow> pystr \<Rightarrow> broker_policy result" where
  "load_policy w fs path = rbind (fs path) (\<lambda>data. rbind (json_object w data) (\<lambda>d. policy_from_object (JDict d)))"

definition config_path :: "json \<Rightarrow> pystr result" where
  "config_path value = (if is_text value \<and> text_of value \<noteq> [] then Inr (text_of value) else Inl (ValueError (us ''nonempty file path required'')))"

definition config_file :: "files \<Rightarrow> json \<Rightarrow> bytes result" where
  "config_file fs value = rbind (config_path value) fs"

definition file_certificate :: "('c, 'x) broker_pki_scheme \<Rightarrow> files \<Rightarrow> json \<Rightarrow> bytes result" where
  "file_certificate pki fs value =
     rbind (config_file fs value) (\<lambda>data. rbind (load_pem_certificate pki False data) (\<lambda>c. Inr (der_of pki c)))"

definition optional_certificate :: "(json \<Rightarrow> bytes result) \<Rightarrow> (pystr \<times> json) list \<Rightarrow> string \<Rightarrow> bytes option result" where
  "optional_certificate certificate d name =
     (case map_of d (us name) of None \<Rightarrow> Inr None | Some v \<Rightarrow> rbind (certificate v) (\<lambda>der. Inr (Some der)))"

definition configuration_object :: "json \<Rightarrow> (pystr \<times> json) list result" where
  "configuration_object v = (case v of JDict d \<Rightarrow> Inr d | _ \<Rightarrow> Inl (ValueError (us ''configuration object required'')))"

definition load_broker_inputs ::
  "('x) wire_scheme \<Rightarrow> ('c, 'y) broker_pki_scheme \<Rightarrow> files \<Rightarrow> pystr \<Rightarrow> (effective_configuration \<times> broker_policy) result" where
  "load_broker_inputs w pki fs path =
     rbind (fs path) (\<lambda>data.
     rbind (json_object w data) (\<lambda>raw.
     rbind (exact_fields raw [''configuration'', ''policy''] []) (\<lambda>_.
     rbind (configuration_object (field raw ''configuration'')) (\<lambda>config.
     rbind (exact_fields config [''cpu_root_file'', ''cpu_vcek_file'', ''cpu_intermediate_files'', ''trusted_manifest_identities'',
         ''owner_public_key_file''] [''gpu_root_file'']) (\<lambda>_.
     rbind (file_certificate pki fs (field config ''cpu_root_file'')) (\<lambda>root_der.
     rbind (file_certificate pki fs (field config ''cpu_vcek_file'')) (\<lambda>vcek_der.
     rbind (strings (field config ''cpu_intermediate_files'')) (\<lambda>paths.
     rbind (rmap (\<lambda>item. file_certificate pki fs (JStr item)) paths) (\<lambda>inters.
     rbind (strings (field config ''trusted_manifest_identities'')) (\<lambda>identities.
     rbind (config_file fs (field config ''owner_public_key_file'')) (\<lambda>owner_key.
     rbind (optional_certificate (file_certificate pki fs) config ''gpu_root_file'') (\<lambda>gpu_der.
     rbind (new_configuration w pki \<lparr>ec_cpu_root_der = root_der, ec_cpu_vcek_der = vcek_der, ec_cpu_intermediate_ders = inters,
         ec_trusted_manifest_identities = set identities, ec_owner_public_key = owner_key, ec_gpu_root_der = gpu_der\<rparr>) (\<lambda>effective.
     rbind (policy_from_object (field raw ''policy'')) (\<lambda>policy.
     Inr (effective, policy)))))))))))))))"

subsection \<open>The guest's snapshot\<close>

definition MAX_CONFIGURATION :: nat where "MAX_CONFIGURATION = 1024 * 1024"

definition ascii_text :: "pystr \<Rightarrow> bytes result" where
  "ascii_text s = (if list_ex (\<lambda>c. c \<ge> 128) s then Inl (ValueError (us ''ascii codec cannot encode character'')) else Inr (map of_nat s))"

definition pem_certificate :: "('c, 'x) broker_pki_scheme \<Rightarrow> json \<Rightarrow> bytes result" where
  "pem_certificate pki value =
     (if \<not> is_text value then Inl (ValueError (us ''PEM string required''))
      else rbind (ascii_text (text_of value)) (\<lambda>data. rbind (load_pem_certificate pki False data) (\<lambda>c. Inr (der_of pki c))))"

definition owner_key_of :: "json \<Rightarrow> bytes result" where
  "owner_key_of value =
     (let bad = Inl (ValueError (us ''canonical owner public key required'')) in
      if \<not> is_text value \<or> length (text_of value) \<noteq> 64 then bad
      else rbind (fromhex (text_of value)) (\<lambda>b. if hex_of_bytes b \<noteq> text_of value then bad else Inr b))"

definition guest_inputs ::
  "('x) wire_scheme \<Rightarrow> ('c, 'y) broker_pki_scheme \<Rightarrow> bytes \<Rightarrow> (effective_configuration \<times> broker_policy) result" where
  "guest_inputs w pki data =
     rbind (raise_if (data = [] \<or> length data > MAX_CONFIGURATION) (ValueError (us ''guest configuration size rejected''))) (\<lambda>_.
     rbind (json_object w data) (\<lambda>raw.
     rbind (exact_fields raw [''configuration'', ''policy''] []) (\<lambda>_.
     rbind (configuration_object (field raw ''configuration'')) (\<lambda>config.
     rbind (exact_fields config [''cpu_root_pem'', ''cpu_vcek_pem'', ''cpu_intermediates_pem'', ''trusted_manifest_identities'',
         ''owner_public_key_hex''] [''gpu_root_pem'']) (\<lambda>_.
     rbind (owner_key_of (field config ''owner_public_key_hex'')) (\<lambda>owner_key.
     rbind (pem_certificate pki (field config ''cpu_root_pem'')) (\<lambda>root_der.
     rbind (pem_certificate pki (field config ''cpu_vcek_pem'')) (\<lambda>vcek_der.
     rbind (strings (field config ''cpu_intermediates_pem'')) (\<lambda>pems.
     rbind (rmap (\<lambda>item. pem_certificate pki (JStr item)) pems) (\<lambda>inters.
     rbind (strings (field config ''trusted_manifest_identities'')) (\<lambda>identities.
     rbind (optional_certificate (pem_certificate pki) config ''gpu_root_pem'') (\<lambda>gpu_der.
     rbind (new_configuration w pki \<lparr>ec_cpu_root_der = root_der, ec_cpu_vcek_der = vcek_der, ec_cpu_intermediate_ders = inters,
         ec_trusted_manifest_identities = set identities, ec_owner_public_key = owner_key, ec_gpu_root_der = gpu_der\<rparr>) (\<lambda>effective.
     rbind (policy_from_object (field raw ''policy'')) (\<lambda>policy.
     rbind (configuration_digest w effective) (\<lambda>digest.
     rbind (raise_if (digest \<noteq> bp_configuration_sha256 policy) (ValueError (us ''effective guest configuration differs from policy''))) (\<lambda>_.
     Inr (effective, policy)))))))))))))))))"

subsection \<open>Properties\<close>

lemma guest_inputs_boot:
  assumes "guest_inputs w pki data = Inr (config, policy)"
  shows "\<exists>rc. new_receiver w priv config policy = Inr rc \<and> rc_configuration rc = config \<and> rc_policy rc = policy \<and> rc_private rc = Some priv \<and> rc_inv rc"
proof -
  have d: "configuration_digest w config = Inr (bp_configuration_sha256 policy)"
    using assms unfolding guest_inputs_def by (auto simp: rbind_Inr_iff)
  then show ?thesis by (auto simp: new_receiver_def rc_inv_def)
qed

lemma strings_iff:
  "strings v = Inr ss \<longleftrightarrow> v = JList (map JStr ss) \<and> [] \<notin> set ss \<and> distinct ss"
proof (cases v)
  case (JList vs)
  have "(\<not> list_ex (\<lambda>v. \<not> is_text v \<or> text_of v = []) vs \<and> map text_of vs = ss) \<longleftrightarrow> vs = map JStr ss \<and> [] \<notin> set ss"
  proof (induction vs arbitrary: ss)
    case (Cons v vs)
    then show ?case by (cases v; cases ss) auto
  qed auto
  then show ?thesis using JList by (auto simp: strings_def)
qed (auto simp: strings_def)

lemma new_policy_self: "new_policy p = Inr q \<Longrightarrow> q = p"
  by (simp add: new_policy_iff)

lemma text_field: "text_of v = s \<Longrightarrow> s \<noteq> [] \<Longrightarrow> v = JStr s"
  by (cases v) auto

lemma int_field: "int_of v = n \<Longrightarrow> 0 \<le> n \<Longrightarrow> v = JInt n"
  by (cases v) auto

lemma canonical_hex_nonempty: "canonical_hex n s \<Longrightarrow> 0 < n \<Longrightarrow> s \<noteq> []"
  by (auto simp: canonical_hex_def)

lemma field_some: "us k \<in> fst ` set d \<Longrightarrow> map_of d (us k) = Some (field d k)"
  using map_of_eq_None_iff [of d "us k"] by (cases "map_of d (us k)") (auto simp: field_def)

definition policy_object :: "(pystr \<times> json) list \<Rightarrow> broker_policy \<Rightarrow> bool" where
  "policy_object d p \<longleftrightarrow> fst ` set d = us ` set POLICY_FIELDS \<and>
     map_of d (us ''measurement_hex'') = Some (JStr (bp_measurement_hex p)) \<and>
     map_of d (us ''configuration_sha256'') = Some (JStr (bp_configuration_sha256 p)) \<and>
     map_of d (us ''weights_hash'') = Some (JStr (bp_weights_hash p)) \<and>
     map_of d (us ''epoch'') = Some (JInt (bp_epoch p)) \<and>
     map_of d (us ''guest_policy'') = Some (JInt (bp_guest_policy p)) \<and>
     map_of d (us ''minimum_tcb_le_hex'') = Some (JStr (bp_minimum_tcb_le_hex p)) \<and>
     (\<exists>rs. map_of d (us ''required_platform_fields'') = Some (JList (map JStr rs)) \<and> distinct rs \<and> set rs = bp_required_platform_fields p) \<and>
     (\<exists>rs. map_of d (us ''forbidden_platform_fields'') = Some (JList (map JStr rs)) \<and> distinct rs \<and> set rs = bp_forbidden_platform_fields p)"

lemma exact_fields_iff:
  "exact_fields d req [] = Inr () \<longleftrightarrow> fst ` set d = us ` set req"
  by (auto simp: exact_fields_def)

lemma policy_values_iff:
  fixes rs fs :: "pystr list"
  assumes "q = \<lparr>bp_measurement_hex = text_of a, bp_configuration_sha256 = text_of b, bp_weights_hash = text_of c,
       bp_epoch = int_of e, bp_guest_policy = int_of g, bp_minimum_tcb_le_hex = text_of t,
       bp_required_platform_fields = set rs, bp_forbidden_platform_fields = set fs\<rparr>"
  shows "new_policy q = Inr p \<longleftrightarrow> new_policy p = Inr p \<and> a = JStr (bp_measurement_hex p) \<and> b = JStr (bp_configuration_sha256 p) \<and>
    c = JStr (bp_weights_hash p) \<and> e = JInt (bp_epoch p) \<and> g = JInt (bp_guest_policy p) \<and> t = JStr (bp_minimum_tcb_le_hex p) \<and>
    set rs = bp_required_platform_fields p \<and> set fs = bp_forbidden_platform_fields p"
proof
  assume n: "new_policy q = Inr p"
  then have q: "q = p" and ok: "new_policy p = Inr p" by (auto dest: new_policy_self)
  have v: "bp_measurement_hex p \<noteq> []" "bp_configuration_sha256 p \<noteq> []" "bp_weights_hash p \<noteq> []" "0 \<le> bp_epoch p" "0 \<le> bp_guest_policy p"
    "bp_minimum_tcb_le_hex p \<noteq> []"
    using ok by (auto simp: new_policy_iff dest: canonical_hex_nonempty)
  from q assms have "text_of a = bp_measurement_hex p" "text_of b = bp_configuration_sha256 p" "text_of c = bp_weights_hash p"
    "int_of e = bp_epoch p" "int_of g = bp_guest_policy p" "text_of t = bp_minimum_tcb_le_hex p"
    "set rs = bp_required_platform_fields p" "set fs = bp_forbidden_platform_fields p" by auto
  with v ok show "new_policy p = Inr p \<and> a = JStr (bp_measurement_hex p) \<and> b = JStr (bp_configuration_sha256 p) \<and>
    c = JStr (bp_weights_hash p) \<and> e = JInt (bp_epoch p) \<and> g = JInt (bp_guest_policy p) \<and> t = JStr (bp_minimum_tcb_le_hex p) \<and>
    set rs = bp_required_platform_fields p \<and> set fs = bp_forbidden_platform_fields p"
    by (auto intro!: text_field int_field)
next
  assume r: "new_policy p = Inr p \<and> a = JStr (bp_measurement_hex p) \<and> b = JStr (bp_configuration_sha256 p) \<and>
    c = JStr (bp_weights_hash p) \<and> e = JInt (bp_epoch p) \<and> g = JInt (bp_guest_policy p) \<and> t = JStr (bp_minimum_tcb_le_hex p) \<and>
    set rs = bp_required_platform_fields p \<and> set fs = bp_forbidden_platform_fields p"
  then have "q = p" using assms by simp
  with r show "new_policy q = Inr p" by simp
qed

lemma known_fields_nonempty: "bp_required_platform_fields p \<subseteq> set SNP_FIELDS \<Longrightarrow> [] \<notin> bp_required_platform_fields p"
  "bp_forbidden_platform_fields p \<subseteq> set SNP_FIELDS \<Longrightarrow> [] \<notin> bp_forbidden_platform_fields p"
  by (auto simp: SNP_FIELDS_def us_def)

lemma policy_from_object_iff:
  "policy_from_object (JDict d) = Inr p \<longleftrightarrow> new_policy p = Inr p \<and> policy_object d p"
proof
  assume "policy_from_object (JDict d) = Inr p"
  then obtain rs fs where x: "exact_fields d POLICY_FIELDS [] = Inr ()" and s: "strings (field d ''required_platform_fields'') = Inr rs"
      "strings (field d ''forbidden_platform_fields'') = Inr fs"
    and n: "new_policy \<lparr>bp_measurement_hex = text_of (field d ''measurement_hex''), bp_configuration_sha256 = text_of (field d ''configuration_sha256''),
       bp_weights_hash = text_of (field d ''weights_hash''), bp_epoch = int_of (field d ''epoch''), bp_guest_policy = int_of (field d ''guest_policy''),
       bp_minimum_tcb_le_hex = text_of (field d ''minimum_tcb_le_hex''), bp_required_platform_fields = set rs, bp_forbidden_platform_fields = set fs\<rparr> = Inr p"
    unfolding policy_from_object_def json.case rbind_Inr_iff by auto
  have k: "fst ` set d = us ` set POLICY_FIELDS" using x by (simp add: exact_fields_iff)
  then have m: "map_of d (us f) = Some (field d f)" if "f \<in> set POLICY_FIELDS" for f using that by (intro field_some) auto
  note v = n [unfolded policy_values_iff [OF refl]]
  show "new_policy p = Inr p \<and> policy_object d p"
    using v s k m by (auto simp: policy_object_def strings_iff POLICY_FIELDS_def)
next
  assume a: "new_policy p = Inr p \<and> policy_object d p"
  then obtain rs fs where r: "map_of d (us ''required_platform_fields'') = Some (JList (map JStr rs))" "distinct rs" "set rs = bp_required_platform_fields p"
    and f: "map_of d (us ''forbidden_platform_fields'') = Some (JList (map JStr fs))" "distinct fs" "set fs = bp_forbidden_platform_fields p"
    by (auto simp: policy_object_def)
  have ne: "[] \<notin> set rs" "[] \<notin> set fs" using a r f known_fields_nonempty by (auto simp: new_policy_iff)
  have s: "strings (field d ''required_platform_fields'') = Inr rs" "strings (field d ''forbidden_platform_fields'') = Inr fs"
    using r f ne by (simp_all add: strings_iff field_def)
  have x: "exact_fields d POLICY_FIELDS [] = Inr ()" using a by (simp add: exact_fields_iff policy_object_def)
  show "policy_from_object (JDict d) = Inr p"
    unfolding policy_from_object_def json.case x s rbind_simps policy_values_iff [OF refl]
    using a r(3) f(3) by (simp add: policy_object_def field_def)
qed

lemma bp_asdict_object:
  assumes "new_policy p = Inr p" obtains d where "bp_asdict p = JDict d" "policy_object d p"
proof
  have "finite (bp_required_platform_fields p)" "finite (bp_forbidden_platform_fields p)"
    using assms by (auto simp: new_policy_iff intro: finite_subset)
  then show "policy_object (case bp_asdict p of JDict d \<Rightarrow> d) p"
    by (simp add: bp_asdict_def policy_object_def POLICY_FIELDS_def insert_commute)
  show "bp_asdict p = JDict (case bp_asdict p of JDict d \<Rightarrow> d)" by (simp add: bp_asdict_def)
qed

text \<open>
  C14 (broker inputs). The object of a valid policy reads back to it, and an object reads to a policy exactly when the policy
  is valid, the object's members are the eight fields and no other, each has the policy's value with its
  type, and the two arrays hold the platform fields without repetition.
\<close>

theorem policy_object_roundtrip:
  assumes "new_policy p = Inr p"
  shows "policy_from_object (bp_asdict p) = Inr p \<and> (\<forall>d. policy_from_object (JDict d) = Inr p \<longleftrightarrow> policy_object d p)"
proof -
  obtain d where "bp_asdict p = JDict d" "policy_object d p" by (rule bp_asdict_object [OF assms])
  with assms show ?thesis by (simp add: policy_from_object_iff)
qed

theorem policy_object_roundtrip_witness:
  "policy_from_object (bp_asdict Deployment.demo_policy) = Inr Deployment.demo_policy"
  using policy_object_roundtrip [OF demo_policy_ok] by simp

end
