(* ===== verification/BrokerService.thy ===== *)
theory BrokerService
  imports BrokerWire
begin

section \<open>The broker's HTTP service and the owner's client (\<open>broker_server.py\<close>, \<open>owner_provision.py\<close>, \<open>_hw_providers.py\<close>)\<close>

text \<open>
  The two ends of provisioning: the handlers that a broker serves over its receiver and the owner's
  one-shot client. A request is the JSON value of its body; the device that makes SNP reports, the
  network and the clocks are inputs. The main results: between an honest broker and an owner the
  exchange ends with the owner's key installed; and whatever the network does, a client that reports
  success has provisioned an attested broker.
\<close>

subsection \<open>The report device\<close>

text \<open>\<open>AttestationUnavailableError\<close>, the one subclass of \<open>RuntimeError\<close> the handlers tell apart.\<close>

definition unavailable :: exn where
  "unavailable = OtherError (us ''AttestationUnavailableError'')"

text \<open>What the request to the device gave: the response buffer, or that the device could not be opened or
  refused the call.\<close>

type_synonym snp_device = "bytes \<Rightarrow> bytes option"

definition fetch_report :: "snp_device \<Rightarrow> bytes \<Rightarrow> bytes result" where
  "fetch_report dev report_data =
     (case dev report_data of
        None \<Rightarrow> Inl unavailable
      | Some response \<Rightarrow>
          let status = le_int (slice 0 4 response); report_size = le_int (slice 4 8 response) in
          if status \<noteq> 0 \<or> report_size \<noteq> 1184 then Inl unavailable else Inr (slice 32 (32 + 1184) response))"

definition provisioning_report :: "snp_device \<Rightarrow> bytes \<Rightarrow> bytes result" where
  "provisioning_report dev report_data =
     (if length report_data \<noteq> 64 then Inl (ValueError (us ''SNP provisioning REPORT_DATA must be exactly 64 bytes''))
      else fetch_report dev report_data)"

subsection \<open>Requests\<close>

datatype 'a http = Answer 'a | Refused nat string | Uncaught exn

text \<open>The body of a request model with \<open>extra="forbid", strict=True\<close>: exactly these members, all texts.\<close>

definition text_fields :: "json \<Rightarrow> string list \<Rightarrow> pystr list option" where
  "text_fields body names =
     (case body of
        JDict d \<Rightarrow> if fst ` set d = us ` set names \<and> list_all (\<lambda>n. is_text (field d n)) names then Some (map (\<lambda>n. text_of (field d n)) names) else None
      | _ \<Rightarrow> None)"

text \<open>The validator of the two time stamps.\<close>

definition utc_time :: "('x) wire_scheme \<Rightarrow> pystr \<Rightarrow> bool" where
  "utc_time w value \<longleftrightarrow> length value \<le> 40 \<and> from_iso w value \<noteq> None \<and> utc_offset w value = Some 0"

fun stamp_of :: "pydt option \<Rightarrow> time" where
  "stamp_of (Some (Aware t)) = t"
| "stamp_of (Some (Naive t)) = t"
| "stamp_of None = 0"

record report_request =
  rr_nonce :: pystr
  rr_issued_at :: pystr
  rr_expires_at :: pystr

definition parse_report_request :: "('x) wire_scheme \<Rightarrow> json \<Rightarrow> report_request option" where
  "parse_report_request w body =
     (case text_fields body [''nonce'', ''issued_at'', ''expires_at''] of
        Some [nonce, issued, expires] \<Rightarrow>
          if hex_pattern 64 nonce \<and> utc_time w issued \<and> utc_time w expires
          then Some \<lparr>rr_nonce = nonce, rr_issued_at = issued, rr_expires_at = expires\<rparr> else None
      | _ \<Rightarrow> None)"

definition request_challenge :: "('x) wire_scheme \<Rightarrow> report_request \<Rightarrow> challenge result" where
  "request_challenge w r =
     (let issued = stamp_of (from_iso w (rr_issued_at r)); expires = stamp_of (from_iso w (rr_expires_at r)) in
      if expires \<le> issued then Inl (ValueError (us ''challenge interval is invalid''))
      else Inr \<lparr>ch_nonce = rr_nonce r, ch_issued_at = issued, ch_expires_at = expires\<rparr>)"

record install_request =
  ir_nonce :: pystr
  ir_ciphertext_b64 :: pystr
  ir_owner_signature_b64 :: pystr

definition parse_install_request :: "json \<Rightarrow> install_request option" where
  "parse_install_request body =
     (case text_fields body [''nonce'', ''ciphertext_b64'', ''owner_signature_b64''] of
        Some [nonce, ct, sig] \<Rightarrow>
          if hex_pattern 64 nonce \<and> 104 \<le> length ct \<and> length ct \<le> 124 \<and> length sig = 88
          then Some \<lparr>ir_nonce = nonce, ir_ciphertext_b64 = ct, ir_owner_signature_b64 = sig\<rparr> else None
      | _ \<Rightarrow> None)"

definition canonical_b64 :: "pystr \<Rightarrow> bytes result" where
  "canonical_b64 value =
     rbind (b64decode_validate value) (\<lambda>raw.
       if b64encode raw \<noteq> value then Inl (ValueError (us ''canonical base64 required'')) else Inr raw)"

definition request_envelope :: "install_request \<Rightarrow> provisioning_envelope result" where
  "request_envelope r =
     rbind (canonical_b64 (ir_ciphertext_b64 r)) (\<lambda>ciphertext.
     rbind (canonical_b64 (ir_owner_signature_b64 r)) (\<lambda>signature.
     if length ciphertext \<notin> {77, 85, 93} \<or> length signature \<noteq> 64
     then Inl (ValueError (us ''invalid provisioning envelope lengths''))
     else Inr \<lparr>pe_nonce = ir_nonce r, pe_ciphertext = ciphertext, pe_owner_signature = signature\<rparr>))"

subsection \<open>Handlers\<close>

fun is_RuntimeError :: "exn \<Rightarrow> bool" where
  "is_RuntimeError (RuntimeError m) = True"
| "is_RuntimeError (GpuRevocationUnavailable m) = True"
| "is_RuntimeError e = (e = unavailable)"

fun is_SealError :: "exn \<Rightarrow> bool" where
  "is_SealError (SealError m) = True"
| "is_SealError _ = False"

definition handle_report ::
  "('x) wire_scheme \<Rightarrow> snp_device \<Rightarrow> time \<Rightarrow> json \<Rightarrow> receiver \<Rightarrow> json http \<times> receiver" where
  "handle_report w dev now body rc =
     (case parse_report_request w body of
        None \<Rightarrow> (Refused 422 ''invalid request'', rc)
      | Some r \<Rightarrow>
          (case (case request_challenge w r of
                   Inl e \<Rightarrow> (Inl e, rc)
                 | Inr c \<Rightarrow> (case provisioning_report_data w now c rc of
                     (Inl e, rc') \<Rightarrow> (Inl e, rc')
                   | (Inr report_data, rc') \<Rightarrow> (provisioning_report dev report_data, rc'))) of
             (Inl e, rc') \<Rightarrow>
               (if is_ValueError e then Refused 400 ''provisioning request rejected''
                else if e = unavailable then Refused 503 ''native SNP attestation unavailable''
                else if is_RuntimeError e then Refused 409 ''broker cannot be provisioned in its current state''
                else Uncaught e, rc')
           | (Inr raw, rc') \<Rightarrow>
               (Answer (JDict [(us ''report_b64'', JStr (b64encode raw)), (us ''transport_public_key'', JStr (rc_public rc'))]), rc')))"

definition handle_install ::
  "('x) wire_scheme \<Rightarrow> ('c, 'y) broker_pki_scheme \<Rightarrow> time \<Rightarrow> bytes \<Rightarrow> json \<Rightarrow> receiver \<Rightarrow> json http \<times> receiver" where
  "handle_install w pki now renewal_key body rc =
     (case parse_install_request body of
        None \<Rightarrow> (Refused 422 ''invalid request'', rc)
      | Some r \<Rightarrow>
          (case request_envelope r of
             Inl e \<Rightarrow> (if is_ValueError e then Refused 422 ''invalid provisioning envelope'' else Uncaught e, rc)
           | Inr envelope \<Rightarrow>
               (case install w pki now renewal_key envelope rc of
                  (Inl e, rc') \<Rightarrow>
                    (if is_ValueError e \<or> is_InvalidSignature e \<or> is_SealError e then Refused 400 ''provisioning envelope rejected''
                     else if is_RuntimeError e then Refused 409 ''broker cannot install in its current state''
                     else Uncaught e, rc')
                | (Inr _, rc') \<Rightarrow> (Answer (JDict [(us ''installed'', JBool True)]), rc'))))"

definition handle_challenge :: "('x) wire_scheme \<Rightarrow> time \<Rightarrow> pystr \<Rightarrow> receiver \<Rightarrow> json http \<times> receiver" where
  "handle_challenge w now token rc =
     (case rc_issue_challenge now token rc of
        (Inl e, rc') \<Rightarrow> (if is_RuntimeError e then Refused 409 ''broker is not ready for release'' else Uncaught e, rc')
      | (Inr c, rc') \<Rightarrow>
          (Answer (JDict [(us ''nonce'', JStr (ch_nonce c)), (us ''issued_at'', JStr (iso_format w (ch_issued_at c))),
             (us ''expires_at'', JStr (iso_format w (ch_expires_at c)))]), rc'))"

text \<open>The manifest and the evidence of a release request, as pydantic built them from the body.\<close>

definition decision_json :: "release_decision \<Rightarrow> json" where
  "decision_json d = JDict
     [(us ''released'', JBool (dec_released d)),
      (us ''sealed_key_b64'', case dec_sealed_key d of Some (x # xs) \<Rightarrow> JStr (b64encode (x # xs)) | _ \<Rightarrow> JNull),
      (us ''checks'', JList (map (\<lambda>c. JDict [(us ''name'', JStr (cr_name c)), (us ''passed'', JBool (cr_passed c)), (us ''detail'', case cr_detail c of None \<Rightarrow> JNull | Some t \<Rightarrow> JStr t)]) (dec_checks d)))]"

definition handle_release ::
  "('x) wire_scheme \<Rightarrow> 'd ocsp_lib \<Rightarrow> kbs_io \<Rightarrow> (manifest \<times> composite_evidence) option \<Rightarrow> receiver \<Rightarrow> json http \<times> receiver" where
  "handle_release w lib io body rc =
     (case body of
        None \<Rightarrow> (Refused 422 ''invalid manifest or evidence'', rc)
      | Some (m, ev) \<Rightarrow>
          (case rc_verify_and_release w lib io m ev rc of
             (Inl e, rc') \<Rightarrow> (if is_RuntimeError e then Refused 409 ''broker is not ready for release'' else Uncaught e, rc')
           | (Inr decision, rc') \<Rightarrow> (Answer (decision_json decision), rc')))"

subsection \<open>The owner's client\<close>

text \<open>What \<open>urlsplit\<close> and \<open>ipaddress\<close> say of a URL.\<close>

record url_parts =
  up_scheme :: pystr
  up_hostname :: "pystr option"
  up_loopback :: bool \<comment> \<open>a literal loopback address\<close>
  up_credentials :: bool \<comment> \<open>a user name or a password\<close>
  up_query :: bool
  up_fragment :: bool

definition validate_url :: "(pystr \<Rightarrow> url_parts result) \<Rightarrow> bool \<Rightarrow> json \<Rightarrow> pystr result" where
  "validate_url urlsplit allow_loopback_http url =
     (case url of
        JStr u \<Rightarrow>
          rbind (urlsplit u) (\<lambda>parsed.
          if (case up_hostname parsed of None \<Rightarrow> True | Some h \<Rightarrow> h = []) \<or> up_credentials parsed \<or> up_query parsed \<or> up_fragment parsed
          then Inl (ValueError (us ''broker URL must have a host and no credentials, query or fragment''))
          else let loopback = (up_hostname parsed = Some (us ''localhost'') \<or> up_loopback parsed) in
            if up_scheme parsed \<noteq> us ''https'' \<and> \<not> (up_scheme parsed = us ''http'' \<and> loopback \<and> allow_loopback_http)
            then Inl (ValueError (us ''HTTPS required; loopback HTTP needs explicit development opt-in''))
            else Inr (rev (dropWhile (\<lambda>c. c = 47) (rev u))))
      | _ \<Rightarrow> Inl (ValueError (us ''broker URL required'')))"

text \<open>A request over the network: what the other end answered, and the state it is left in.\<close>

type_synonym 'n net = "pystr \<Rightarrow> json \<Rightarrow> 'n \<Rightarrow> bytes result \<times> 'n"

definition post :: "('x) wire_scheme \<Rightarrow> 'n net \<Rightarrow> pystr \<Rightarrow> json \<Rightarrow> 'n \<Rightarrow> (pystr \<times> json) list result \<times> 'n" where
  "post w net url value n =
     (case net url value n of
        (Inl e, n') \<Rightarrow> (Inl e, n')
      | (Inr body, n') \<Rightarrow>
          (if length body > 131072 then Inl (ValueError (us ''broker response exceeds size limit'')) else json_object w body, n'))"

definition report_body :: "('x) wire_scheme \<Rightarrow> challenge \<Rightarrow> json" where
  "report_body w c = JDict [(us ''nonce'', JStr (ch_nonce c)), (us ''issued_at'', JStr (iso_format w (ch_issued_at c))),
     (us ''expires_at'', JStr (iso_format w (ch_expires_at c)))]"

definition install_body :: "provisioning_envelope \<Rightarrow> json" where
  "install_body e = JDict [(us ''nonce'', JStr (pe_nonce e)), (us ''ciphertext_b64'', JStr (b64encode (pe_ciphertext e))),
     (us ''owner_signature_b64'', JStr (b64encode (pe_owner_signature e)))]"

definition offered_report :: "(pystr \<times> json) list \<Rightarrow> (bytes \<times> pystr) result" where
  "offered_report offered =
     rbind (exact_fields offered [''report_b64'', ''transport_public_key''] []) (\<lambda>_.
     if \<not> is_text (field offered ''report_b64'') \<or> \<not> is_text (field offered ''transport_public_key'')
     then Inl (ValueError (us ''invalid broker report response''))
     else rbind (b64decode_validate (text_of (field offered ''report_b64''))) (\<lambda>report.
       if length report \<noteq> 1184 then Inl (ValueError (us ''native SNP report must be 1184 bytes''))
       else Inr (report, text_of (field offered ''transport_public_key''))))"

definition acknowledged :: "(pystr \<times> json) list \<Rightarrow> unit result" where
  "acknowledged d =
     rbind (exact_fields d [''installed''] []) (\<lambda>_.
     raise_if (field d ''installed'' \<noteq> JBool True) (ValueError (us ''broker did not acknowledge installation'')))"

definition receipt :: "('x) wire_scheme \<Rightarrow> 'c owner \<Rightarrow> bytes \<Rightarrow> json result" where
  "receipt w ow report =
     rbind (policy_digest w (ow_policy ow)) (\<lambda>policy_sha.
     rbind (case ow_approval ow of None \<Rightarrow> Inr JNull | Some a \<Rightarrow> rbind (approval_identity w a) (\<lambda>i. Inr (JStr i))) (\<lambda>approval.
     Inr (JDict
       [(us ''protocol'', JStr (us ''wcm/native-snp-owner-provision/v1'')), (us ''epoch'', JInt (bp_epoch (ow_policy ow))),
        (us ''policy_sha256'', JStr policy_sha), (us ''report_sha256'', JStr (hex_of_bytes (sha256 w report))),
        (us ''broker_acknowledged'', JBool True), (us ''installation_proven'', JBool False),
        (us ''deployment_approval_identity'', approval), (us ''application_identity_established'', JBool False)])))"

text \<open>The clock and the token of the challenge, and what \<open>provision\<close> takes.\<close>

record client_io =
  ci_issue :: time
  ci_token :: pystr
  ci_prov :: prov_io

text \<open>The exchange with the broker, once the inputs are loaded.\<close>

definition exchange ::
  "('x) wire_scheme \<Rightarrow> ('c, 'y) pki_scheme \<Rightarrow> client_io \<Rightarrow> 'n net \<Rightarrow> pystr \<Rightarrow> 'c \<Rightarrow> 'c list \<Rightarrow> bytes \<Rightarrow> 'c owner \<Rightarrow> floor_db \<Rightarrow> 'n
     \<Rightarrow> json result \<times> 'c owner \<times> floor_db \<times> 'n" where
  "exchange w pki io net url vcek chain model_key ow db n =
     (case owner_issue_challenge w (ci_issue io) (ci_token io) ow db of
        (Inl e, ow, db) \<Rightarrow> (Inl e, ow, db, n)
      | (Inr c, ow, db) \<Rightarrow>
     (case post w net (url @ us ''/provisioning/report'') (report_body w c) n of
        (Inl e, n) \<Rightarrow> (Inl e, ow, db, n)
      | (Inr offered, n) \<Rightarrow>
     (case offered_report offered of
        Inl e \<Rightarrow> (Inl e, ow, db, n)
      | Inr (report, transport_public_key) \<Rightarrow>
     (case provision w pki (ci_prov io) \<lparr>br_nonce = ch_nonce c, br_report = report, br_vcek = vcek, br_intermediates = chain,
              br_transport_public_key = transport_public_key\<rparr> model_key ow db of
        (Inl e, ow, db) \<Rightarrow> (Inl e, ow, db, n)
      | (Inr envelope, ow, db) \<Rightarrow>
     (case post w net (url @ us ''/provisioning/install'') (install_body envelope) n of
        (Inl e, n) \<Rightarrow> (Inl e, ow, db, n)
      | (Inr ack, n) \<Rightarrow> (rbind (acknowledged ack) (\<lambda>_. receipt w ow report), ow, db, n))))))"

text \<open>Loading the inputs, and the whole client. \<open>pydantic\<close>'s reading of an approval is a function.\<close>

definition load_approval :: "('x) wire_scheme \<Rightarrow> (json \<Rightarrow> deployment_approval result) \<Rightarrow> files \<Rightarrow> json \<Rightarrow> json \<Rightarrow> deployment_approval result" where
  "load_approval w parse fs path expected_identity =
     rbind (config_file fs path) (\<lambda>data.
     rbind (json_object w data) (\<lambda>value.
     rbind (parse (JDict value)) (\<lambda>approval.
     rbind (approval_identity w approval) (\<lambda>idy.
     if JStr idy \<noteq> expected_identity then Inl (ValueError (us ''deployment approval identity does not match owner pin''))
     else Inr approval))))"

definition client_approval ::
  "('x) wire_scheme \<Rightarrow> (json \<Rightarrow> deployment_approval result) \<Rightarrow> files \<Rightarrow> (pystr \<times> json) list \<Rightarrow> broker_policy \<Rightarrow> deployment_approval option result" where
  "client_approval w parse fs raw policy =
     (let has = (\<lambda>k. us k \<in> fst ` set raw) in
      if has ''deployment_approval_file'' \<or> has ''deployment_approval_identity''
      then if \<not> (has ''deployment_approval_file'' \<and> has ''deployment_approval_identity'')
           then Inl (ValueError (us ''deployment approval requires both file and owner identity pin''))
           else rbind (load_approval w parse fs (field raw ''deployment_approval_file'') (field raw ''deployment_approval_identity'')) (\<lambda>approval.
                rbind (require_policy w approval policy) (\<lambda>_. Inr (Some approval)))
      else Inr None)"

definition CLIENT_FIELDS :: "string list" where
  "CLIENT_FIELDS = [''policy_file'', ''owner_signing_key_file'', ''amd_root_file'', ''broker_vcek_file'', ''broker_intermediate_files'',
     ''model_key_file'', ''epoch_database'', ''epoch_namespace'', ''broker_url'']"

definition CLIENT_OPTIONAL :: "string list" where
  "CLIENT_OPTIONAL = [''deployment_approval_file'', ''deployment_approval_identity'']"

definition file_cert :: "('c, 'y) pki_scheme \<Rightarrow> files \<Rightarrow> json \<Rightarrow> 'c result" where
  "file_cert pki fs v = rbind (config_file fs v) (load_pem_certificate pki False)"

record client_inputs =
  in_url :: pystr
  in_intermediates :: "json list"
  in_policy :: broker_policy
  in_approval :: "deployment_approval option"
  in_signing_key :: bytes
  in_namespace :: pystr

definition client_inputs ::
  "('x) wire_scheme \<Rightarrow> (json \<Rightarrow> deployment_approval result) \<Rightarrow> (pystr \<Rightarrow> url_parts result) \<Rightarrow> bool \<Rightarrow> files \<Rightarrow> (pystr \<times> json) list \<Rightarrow> client_inputs result" where
  "client_inputs w parse urlsplit allow fs raw =
     rbind (exact_fields raw CLIENT_FIELDS CLIENT_OPTIONAL) (\<lambda>_.
     rbind (validate_url urlsplit allow (field raw ''broker_url'')) (\<lambda>url.
     rbind (raise_if (text_of (field raw ''epoch_namespace'') = []) (ValueError (us ''nonempty owner epoch namespace required''))) (\<lambda>_.
     rbind (case field raw ''broker_intermediate_files'' of JList vs \<Rightarrow> Inr vs
            | _ \<Rightarrow> Inl (ValueError (us ''intermediate certificate path array required''))) (\<lambda>inters.
     rbind (rbind (config_path (field raw ''policy_file'')) (load_policy w fs)) (\<lambda>policy.
     rbind (client_approval w parse fs raw policy) (\<lambda>approval.
     rbind (config_file fs (field raw ''owner_signing_key_file'')) (\<lambda>signing_key.
     rbind (raise_if (length signing_key \<noteq> 32) (ValueError (us ''An Ed25519 private key is 32 bytes long''))) (\<lambda>_.
     Inr \<lparr>in_url = url, in_intermediates = inters, in_policy = policy, in_approval = approval, in_signing_key = signing_key,
          in_namespace = text_of (field raw ''epoch_namespace'')\<rparr>))))))))"

definition provision_from_file ::
  "('x) wire_scheme \<Rightarrow> ('c, 'y) pki_scheme \<Rightarrow> (json \<Rightarrow> deployment_approval result) \<Rightarrow> (pystr \<Rightarrow> url_parts result) \<Rightarrow> bool \<Rightarrow> files \<Rightarrow> pystr
     \<Rightarrow> client_io \<Rightarrow> 'n net \<Rightarrow> floor_db \<Rightarrow> 'n \<Rightarrow> json result \<times> floor_db \<times> 'n" where
  "provision_from_file w pki parse urlsplit allow fs path io net db n =
     (case rbind (fs path) (\<lambda>data. rbind (json_object w data) (\<lambda>raw.
             rbind (client_inputs w parse urlsplit allow fs raw) (\<lambda>inp.
             rbind (file_cert pki fs (field raw ''amd_root_file'')) (\<lambda>trusted_root.
             rbind (config_path (field raw ''epoch_database'')) (\<lambda>database.
             rbind (new_epoch_store database (in_namespace inp)) (\<lambda>namespace. Inr (raw, inp, trusted_root, namespace))))))) of
        Inl e \<Rightarrow> (Inl e, db, n)
      | Inr (raw, inp, trusted_root, namespace) \<Rightarrow>
     (case new_owner w (in_policy inp) (in_signing_key inp) trusted_root 60 (Some namespace) (in_approval inp) db of
        (Inl e, db) \<Rightarrow> (Inl e, db, n)
      | (Inr ow, db) \<Rightarrow>
     (case rbind (file_cert pki fs (field raw ''broker_vcek_file'')) (\<lambda>vcek.
             rbind (rmap (file_cert pki fs) (in_intermediates inp)) (\<lambda>chain.
             rbind (config_file fs (field raw ''model_key_file'')) (\<lambda>model_key.
             rbind (raise_if (length model_key \<notin> {16, 24, 32}) (ValueError (us ''model key must have an AES key length''))) (\<lambda>_.
             Inr (vcek, chain, model_key))))) of
        Inl e \<Rightarrow> (Inl e, db, n)
      | Inr (vcek, chain, model_key) \<Rightarrow>
          (case exchange w pki io net (in_url inp) vcek chain model_key ow db n of (r, _, db, n) \<Rightarrow> (r, db, n)))))"

subsection \<open>A client's success\<close>

lemma exchange_steps:
  assumes "exchange w pki io net url vcek chain key ow db n = (Inr rcpt, ow', db', n')"
  obtains c ow1 db1 n1 offered report pk e where
    "owner_issue_challenge w (ci_issue io) (ci_token io) ow db = (Inr c, ow1, db1)"
    "post w net (url @ us ''/provisioning/report'') (report_body w c) n = (Inr offered, n1)"
    "offered_report offered = Inr (report, pk)"
    "provision w pki (ci_prov io) \<lparr>br_nonce = ch_nonce c, br_report = report, br_vcek = vcek, br_intermediates = chain,
       br_transport_public_key = pk\<rparr> key ow1 db1 = (Inr e, ow', db')"
    "receipt w ow' report = Inr rcpt"
proof -
  note a = assms [unfolded exchange_def]
  obtain r1 ow1 db1 where i: "owner_issue_challenge w (ci_issue io) (ci_token io) ow db = (r1, ow1, db1)" by (metis surj_pair)
  obtain c where c: "r1 = Inr c" using a i by (cases r1) simp_all
  note a1 = a [unfolded i c prod.case sum.case]
  obtain r2 n1 where p1: "post w net (url @ us ''/provisioning/report'') (report_body w c) n = (r2, n1)" by (metis surj_pair)
  obtain offered where o: "r2 = Inr offered" using a1 p1 by (cases r2) simp_all
  note a2 = a1 [unfolded p1 o prod.case sum.case]
  obtain report pk where f: "offered_report offered = Inr (report, pk)" using a2 by (cases "offered_report offered") auto
  note a3 = a2 [unfolded f prod.case sum.case]
  let ?rq = "\<lparr>br_nonce = ch_nonce c, br_report = report, br_vcek = vcek, br_intermediates = chain, br_transport_public_key = pk\<rparr>"
  obtain r3 ow2 db2 where v: "provision w pki (ci_prov io) ?rq key ow1 db1 = (r3, ow2, db2)" by (metis surj_pair)
  obtain e where e: "r3 = Inr e" using a3 v by (cases r3) simp_all
  note a4 = a3 [unfolded v e prod.case sum.case]
  obtain r4 n2 where p2: "post w net (url @ us ''/provisioning/install'') (install_body e) n1 = (r4, n2)" by (metis surj_pair)
  obtain ack where k: "r4 = Inr ack" using a4 p2 by (cases r4) simp_all
  note a5 = a4 [unfolded p2 k prod.case sum.case]
  then have "receipt w ow2 report = Inr rcpt" "ow2 = ow'" "db2 = db'" by (auto simp: rbind_Inr_iff)
  with i c p1 o f v e show ?thesis by (intro that) auto
qed

lemma owner_issue_ok:
  assumes "owner_issue_challenge w now token ow db = (Inr c, ow', db')"
  shows "c = fst (cs_issue now token (ow_challenges ow))" "ow' = ow\<lparr>ow_challenges := snd (cs_issue now token (ow_challenges ow))\<rparr>"
proof -
  from assms [unfolded owner_issue_challenge_def] show "c = fst (cs_issue now token (ow_challenges ow))"
    by (cases rule: guarded_cases) (auto split: prod.split_asm)
  from assms [unfolded owner_issue_challenge_def] show "ow' = ow\<lparr>ow_challenges := snd (cs_issue now token (ow_challenges ow))\<rparr>"
    by (cases rule: guarded_cases) (auto split: prod.split_asm)
qed

lemma cs_issue_nonce: "ch_nonce (fst (cs_issue now token s)) = token"
  by (simp add: cs_issue_def Let_def)

text \<open>
  C4 (broker service). Whatever the network answers, the client reports success only for a broker it attested: the report it
  was offered has 1184 bytes, is signed by the configured VCEK with a path to the owner's root, binds the
  challenge this client drew, the offered transport key and the owner's policy, and passes the appraisal
  of that policy; the receipt names that report and claims no installation.
\<close>

theorem client_success_is_attested:
  assumes "exchange w pki io net url vcek chain key ow db n = (Inr rcpt, ow', db', n')"
  shows "\<exists>report pk r raw binding. length report = 1184 \<and> trusted_path pki [ow_root ow] (pv_now (ci_prov io)) 0 (vcek # chain) \<and>
    report_verify pki vcek ECDSA_SHA384 (snp_signature_der pki report) (take SIG_OFFSET report) = None \<and>
    parse_snp_report report = Inr r \<and> bytes_fromhex (ci_token io) = Some raw \<and>
    provisioning_binding w (ow_policy ow) pk = Inr binding \<and> take 32 (sr_report_data r) = sha256 w (raw @ binding) \<and>
    appraise_report (ow_policy ow) r = Inr () \<and> require_approval w (ow_approval ow) (ow_policy ow) = Inr () \<and>
    receipt w ow report = Inr rcpt"
proof -
  obtain c ow1 db1 offered report pk e where i: "owner_issue_challenge w (ci_issue io) (ci_token io) ow db = (Inr c, ow1, db1)"
    and off: "offered_report offered = Inr (report, pk)"
    and p: "provision w pki (ci_prov io) \<lparr>br_nonce = ch_nonce c, br_report = report, br_vcek = vcek, br_intermediates = chain,
       br_transport_public_key = pk\<rparr> key ow1 db1 = (Inr e, ow', db')"
    and rc: "receipt w ow' report = Inr rcpt"
    by (rule exchange_steps [OF assms])
  note ow1 = owner_issue_ok [OF i]
  have nonce: "ch_nonce c = ci_token io" using ow1(1) cs_issue_nonce by simp
  have ow: "ow_policy ow1 = ow_policy ow" "ow_root ow1 = ow_root ow" "ow_approval ow1 = ow_approval ow" using ow1(2) by simp_all
  have len: "length report = 1184" using off by (auto simp: offered_report_def rbind_Inr_iff split: if_split_asm)
  obtain cs where ow': "ow' = ow1\<lparr>ow_challenges := cs\<rparr>" and b: "provision_body w pki (ci_prov io) \<lparr>br_nonce = ch_nonce c, br_report = report,
      br_vcek = vcek, br_intermediates = chain, br_transport_public_key = pk\<rparr> key ow1 = Inr e"
    by (rule provision_ok [OF p])
  have rc': "receipt w ow report = Inr rcpt" using rc ow' ow1(2) by (simp add: receipt_def)
  from b show ?thesis
  proof (rule provision_body_ok, goal_cases)
    case (1 binding v r aad ct)
    from verified_report_bytes [OF 1(4,5)] 1(6) nonce
    obtain raw where "trusted_path pki [ow_root ow] (pv_now (ci_prov io)) 0 (vcek # chain)"
      "report_verify pki vcek ECDSA_SHA384 (snp_signature_der pki report) (take SIG_OFFSET report) = None"
      "bytes_fromhex (ci_token io) = Some raw" "take 32 (sr_report_data r) = sha256 w (raw @ binding)"
      by (auto simp: ow)
    with len rc' 1(2,3,6,7) show ?case by (auto simp: ow)
  qed
qed

subsection \<open>An honest exchange\<close>

text \<open>The broker at the other end of the network: its routes over a receiver, with the encoder of the
  framework; an error status makes the client's call raise.\<close>

definition broker_net ::
  "('x) wire_scheme \<Rightarrow> ('c, 'y) broker_pki_scheme \<Rightarrow> snp_device \<Rightarrow> time \<Rightarrow> time \<Rightarrow> bytes \<Rightarrow> (json \<Rightarrow> bytes) \<Rightarrow> pystr \<Rightarrow> receiver net" where
  "broker_net w pki dev now1 now2 rk encode_body url path value rc =
     (case (if path = url @ us ''/provisioning/report'' then handle_report w dev now1 value rc
            else if path = url @ us ''/provisioning/install'' then handle_install w pki now2 rk value rc
            else (Refused 404 ''Not Found'', rc)) of
        (Answer v, rc') \<Rightarrow> (Inr (encode_body v), rc')
      | (_, rc') \<Rightarrow> (Inl (OtherError (us ''HTTPError'')), rc'))"

text \<open>What the exchange relies on of the texts: an instant written by the owner is read back by the
  broker as that instant in UTC, and the client reads back what the framework wrote.\<close>

definition stamp_ok :: "('x) wire_scheme \<Rightarrow> time \<Rightarrow> bool" where
  "stamp_ok w t \<longleftrightarrow> length (iso_format w t) \<le> 40 \<and> from_iso w (iso_format w t) = Some (Aware t) \<and> utc_offset w (iso_format w t) = Some 0"

definition codec_ok :: "('x) wire_scheme \<Rightarrow> (json \<Rightarrow> bytes) \<Rightarrow> json \<Rightarrow> bool" where
  "codec_ok w encode_body v \<longleftrightarrow> json_pairs w (encode_body v) = Inr v \<and> length (encode_body v) \<le> 131072"

lemma post_answer:
  assumes "net url value n = (Inr (encode_body (JDict d)), n')" and "codec_ok w encode_body (JDict d)" and "build_json (JDict d) = Inr (JDict d)"
  shows "post w net url value n = (Inr d, n')"
  using assms by (simp add: post_def codec_ok_def json_object_def)

lemma parse_report_body:
  assumes "hex_pattern 64 (ch_nonce c)" "stamp_ok w (ch_issued_at c)" "stamp_ok w (ch_expires_at c)"
  shows "parse_report_request w (report_body w c) = Some \<lparr>rr_nonce = ch_nonce c, rr_issued_at = iso_format w (ch_issued_at c),
    rr_expires_at = iso_format w (ch_expires_at c)\<rparr>"
  using assms by (simp add: parse_report_request_def report_body_def text_fields_def field_def utc_time_def stamp_ok_def)

lemma hex_pattern_hex: "hex_pattern (2 * length b) (hex_of_bytes b)"
  using lower_hex_hex [of b] by (simp add: hex_pattern_def length_hex_of_bytes list_all_iff lowhex_def lower_hex_def)

lemma handle_report_ok:
  assumes "\<not> rc_retired rc" "rc_kbs rc = None" "ch_nonce c = hex_of_bytes nonce" "length nonce = 32" "ch_nonce c \<notin> set (rc_seen rc)"
    and "stamp_ok w (ch_issued_at c)" "stamp_ok w (ch_expires_at c)" "ch_issued_at c < ch_expires_at c"
    and "now \<le> ch_expires_at c" "now + secs 60 \<le> max_time"
    and "provisioning_binding w (rc_policy rc) (rc_public rc) = Inr binding"
    and "provisioning_report dev (sha256 w (nonce @ binding) @ replicate 32 0) = Inr report"
  shows "handle_report w dev now (report_body w c) rc =
    (Answer (JDict [(us ''report_b64'', JStr (b64encode report)), (us ''transport_public_key'', JStr (rc_public rc))]),
     rc\<lparr>rc_seen := ch_nonce c # rc_seen rc,
        rc_pending := Some \<lparr>ch_nonce = ch_nonce c, ch_issued_at = now, ch_expires_at = min (ch_expires_at c) (now + secs 60)\<rparr>\<rparr>)"
proof -
  have "hex_pattern 64 (ch_nonce c)" using hex_pattern_hex [of nonce] assms(3,4) by simp
  note p = parse_report_body [OF this assms(6,7)]
  have "from_iso w (iso_format w (ch_issued_at c)) = Some (Aware (ch_issued_at c))"
    "from_iso w (iso_format w (ch_expires_at c)) = Some (Aware (ch_expires_at c))" using assms(6,7) by (simp_all add: stamp_ok_def)
  then have "request_challenge w \<lparr>rr_nonce = ch_nonce c, rr_issued_at = iso_format w (ch_issued_at c), rr_expires_at = iso_format w (ch_expires_at c)\<rparr> = Inr c"
    using assms(8) by (simp add: request_challenge_def)
  with p assms show ?thesis
    by (simp add: handle_report_def provisioning_report_data_def bytes_fromhex_hex time_add_def Let_def)
qed

lemma handle_install_ok:
  assumes "\<not> rc_retired rc" "rc_kbs rc = None" "rc_pending rc = Some c" "rc_private rc = Some priv" "pe_nonce e = ch_nonce c"
    and "now \<le> ch_expires_at c" "hex_pattern 64 (pe_nonce e)" "length (pe_ciphertext e) \<in> {77, 85, 93}" "length (pe_owner_signature e) = 64"
    and "install_kbs w pki rk e (rc_configuration rc) (rc_policy rc) priv = Inr k"
  shows "handle_install w pki now rk (install_body e) rc =
    (Answer (JDict [(us ''installed'', JBool True)]), rc\<lparr>rc_pending := None, rc_kbs := Some k, rc_private := None\<rparr>)"
proof -
  have l: "length (b64_padded bs) = 4 * ((length bs + 2) div 3)" for bs
  proof (induction bs rule: b64_padded.induct)
    case (4 a b c r)
    have "(5 + length r) div 3 = Suc ((2 + length r) div 3)" by presburger
    with 4 show ?case by simp
  qed simp_all
  then have lc: "104 \<le> length (b64encode (pe_ciphertext e))" "length (b64encode (pe_ciphertext e)) \<le> 124" "length (b64encode (pe_owner_signature e)) = 88"
    using assms(8,9) by (auto simp: b64encode_def)
  have p: "parse_install_request (install_body e) = Some \<lparr>ir_nonce = pe_nonce e, ir_ciphertext_b64 = b64encode (pe_ciphertext e),
      ir_owner_signature_b64 = b64encode (pe_owner_signature e)\<rparr>"
    using lc assms(7) by (simp add: parse_install_request_def install_body_def text_fields_def field_def)
  have "canonical_b64 (b64encode b) = Inr b" for b by (simp add: canonical_b64_def b64decode_b64encode)
  then have "request_envelope \<lparr>ir_nonce = pe_nonce e, ir_ciphertext_b64 = b64encode (pe_ciphertext e),
      ir_owner_signature_b64 = b64encode (pe_owner_signature e)\<rparr> = Inr e"
    using assms(8,9) by (simp add: request_envelope_def)
  with p assms(1-6,10) show ?thesis by (simp add: handle_install_def install_def Let_def)
qed

lemma build_flat: "list_all (\<lambda>(k, v). build_json v = Inr v) d \<Longrightarrow> distinct (map fst d) \<Longrightarrow> build_json (JDict d) = Inr (JDict d)"
proof -
  assume a: "list_all (\<lambda>(k, v). build_json v = Inr v) d" "distinct (map fst d)"
  have "rmap (\<lambda>(k, v). rbind (build_json v) (\<lambda>w. Inr (k, w))) d = Inr d" using a(1) by (induction d) auto
  with a(2) show ?thesis by (simp add: build_json.simps unique_object_def)
qed

lemma answers_flat:
  "build_json (JDict [(us ''report_b64'', JStr a), (us ''transport_public_key'', JStr b)]) =
     Inr (JDict [(us ''report_b64'', JStr a), (us ''transport_public_key'', JStr b)])"
  "build_json (JDict [(us ''installed'', JBool c)]) = Inr (JDict [(us ''installed'', JBool c)])"
  by (rule build_flat; simp add: build_json.simps)+

lemma offered_report_answer:
  "length report = 1184 \<Longrightarrow>
     offered_report [(us ''report_b64'', JStr (b64encode report)), (us ''transport_public_key'', JStr pk)] = Inr (report, pk)"
  by (simp add: offered_report_def exact_fields_def field_def b64decode_b64encode)

lemma ack_answer: "acknowledged [(us ''installed'', JBool True)] = Inr ()"
  by (simp add: acknowledged_def exact_fields_def field_def)

text \<open>A broker that waits for this owner, and a report of it that the owner accepts.\<close>

definition waiting_broker :: "('x) wire_scheme \<Rightarrow> 'c owner \<Rightarrow> bytes \<Rightarrow> pystr \<Rightarrow> receiver \<Rightarrow> bool" where
  "waiting_broker w ow priv token rc \<longleftrightarrow> \<not> rc_retired rc \<and> rc_kbs rc = None \<and> rc_private rc = Some priv \<and>
     rc_public rc = hex_of_bytes (x_public w priv) \<and> rc_policy rc = ow_policy ow \<and> token \<notin> set (rc_seen rc) \<and>
     ec_owner_public_key (rc_configuration rc) = ed_public w (ow_signing_key ow) \<and> ed_load w (ed_public w (ow_signing_key ow))"

definition accepted_report ::
  "('x) wire_scheme \<Rightarrow> ('c, 'y) pki_scheme \<Rightarrow> 'c owner \<Rightarrow> 'c \<Rightarrow> 'c list \<Rightarrow> pystr \<Rightarrow> bytes \<Rightarrow> time \<Rightarrow> bytes \<Rightarrow> bool" where
  "accepted_report w pki ow vcek chain token binding now report \<longleftrightarrow> length report = 1184 \<and>
     (\<exists>v r. quote_verify w pki \<lparr>ve_parse = snp_quote_parse pki vcek chain, ve_roots = [ow_root ow], ve_require_launch_measurement = False\<rparr>
          (b64encode report) token binding None now = Inr v \<and> qv_verified v \<and>
        parse_snp_report report = Inr r \<and> appraise_report (ow_policy ow) r = Inr ())"

definition laws :: "('x) wire_scheme \<Rightarrow> bool" where
  "laws w \<longleftrightarrow> dh_correct w \<and> aead_correct w \<and> ed_correct w \<and> (\<forall>x. length (sha256 w x) = 32)"

lemma provision_succeeds:
  assumes "laws w" and "epoch_guard w (ow_epoch_store ow) (ow_policy ow) False db = Inr db"
    and "cs_consume token (pv_consume io) (ow_challenges ow) = (Inr (), cs)" and "length key \<in> {16, 24, 32}"
    and "require_approval w (ow_approval ow) (ow_policy ow) = Inr ()"
    and "provisioning_binding w (ow_policy ow) (hex_of_bytes (x_public w priv)) = Inr binding"
    and "accepted_report w pki ow vcek chain token binding (pv_now io) report" and "bytes_fromhex token = Some nonce"
    and "x_exchange w (pv_ephemeral io) (x_public w priv) \<noteq> None" and "length (pv_seal_nonce io) = 12"
  shows "\<exists>e. provision w pki io \<lparr>br_nonce = token, br_report = report, br_vcek = vcek, br_intermediates = chain,
      br_transport_public_key = hex_of_bytes (x_public w priv)\<rparr> key ow db = (Inr e, ow\<lparr>ow_challenges := cs\<rparr>, db) \<and>
    pe_nonce e = token \<and> length (pe_ciphertext e) = 61 + length key \<and> length (pe_owner_signature e) = 64 \<and>
    open_provisioned_key w e (ow_policy ow) priv (ed_public w (ow_signing_key ow)) = Inr key"
proof -
  let ?pk = "hex_of_bytes (x_public w priv)"
  obtain v r where v: "quote_verify w pki \<lparr>ve_parse = snp_quote_parse pki vcek chain, ve_roots = [ow_root ow], ve_require_launch_measurement = False\<rparr>
      (b64encode report) token binding None (pv_now io) = Inr v" "qv_verified v" "parse_snp_report report = Inr r" "appraise_report (ow_policy ow) r = Inr ()"
    using assms(7) by (auto simp: accepted_report_def)
  obtain ctx where ctx: "bp_context w (ow_policy ow) = Inr ctx" using assms(6) by (auto simp: provisioning_binding_iff)
  have aad: "prov_aad w (ow_policy ow) token ?pk = Inr (ctx @ nonce @ x_public w priv)"
    using ctx assms(8) by (simp add: prov_aad_def fromhex_def bytes_fromhex_hex)
  have lx: "length (x_public w a) = 32" for a using assms(1) by (simp add: laws_def dh_correct_def)
  obtain shared where sh: "x_exchange w (pv_ephemeral io) (x_public w priv) = Some shared" using assms(9) by blast
  obtain ct where ct: "seal_to_public_key w (pv_ephemeral io) (pv_seal_nonce io) ?pk key (ctx @ nonce @ x_public w priv) = Inr ct"
    and cl: "length ct = 61 + length key"
    using sh lx assms(1,10) by (simp add: seal_to_public_key_def bytes_fromhex_hex Let_def laws_def aead_correct_def)
  let ?e = "\<lparr>pe_nonce = token, pe_ciphertext = ct, pe_owner_signature = ed_sign w (ow_signing_key ow) ((ctx @ nonce @ x_public w priv) @ ct)\<rparr>"
  let ?rq = "\<lparr>br_nonce = token, br_report = report, br_vcek = vcek, br_intermediates = chain, br_transport_public_key = ?pk\<rparr>"
  have "provision_body w pki io ?rq key ow = Inr ?e"
    using assms(4-6) v aad ct by (simp add: provision_body_def)
  then have "provision w pki io ?rq key ow db = (Inr ?e, ow\<lparr>ow_challenges := cs\<rparr>, db)"
    using assms(2,3) by (simp add: provision_def guarded_def)
  moreover have "open_provisioned_key w ?e (ow_policy ow) priv (ed_public w (ow_signing_key ow)) = Inr key"
    using assms(1) by (intro envelope_opens [OF _ _ _ assms(10) aad ct]) (simp_all add: laws_def)
  moreover have "length (ed_sign w k m) = 64" for k m using assms(1) by (simp add: laws_def ed_correct_def)
  ultimately show ?thesis using cl by (intro exI [of _ ?e]) simp
qed

lemma honest_exchange:
  assumes "laws w" and "waiting_broker w ow priv (ci_token io) rc"
    and "epoch_guard w (ow_epoch_store ow) (ow_policy ow) False db = Inr db" and "require_approval w (ow_approval ow) (ow_policy ow) = Inr ()"
    and "ci_token io = hex_of_bytes nonce" and "length nonce = 32" and "map_of (cs_consumed (ow_challenges ow)) (ci_token io) = None"
    and "t = ci_issue io + secs (cs_ttl (ow_challenges ow))" and "ci_issue io < t"
    and "stamp_ok w (ci_issue io)" and "stamp_ok w t" and "now1 \<le> t" and "now1 + secs 60 \<le> max_time"
    and "now2 \<le> min t (now1 + secs 60)" and "pv_consume (ci_prov io) \<le> t"
    and "provisioning_binding w (ow_policy ow) (rc_public rc) = Inr binding"
    and "provisioning_report dev (sha256 w (nonce @ binding) @ replicate 32 0) = Inr report"
    and "accepted_report w pki ow vcek chain (ci_token io) binding (pv_now (ci_prov io)) report"
    and "length key \<in> {16, 24, 32}" and "x_exchange w (pv_ephemeral (ci_prov io)) (x_public w priv) \<noteq> None"
    and "length (pv_seal_nonce (ci_prov io)) = 12" and "broker_kbs w bpki rk (rc_configuration rc) (ow_policy ow) key = Inr k"
    and "codec_ok w encode_body (JDict [(us ''report_b64'', JStr (b64encode report)), (us ''transport_public_key'', JStr (rc_public rc))])"
    and "codec_ok w encode_body (JDict [(us ''installed'', JBool True)])" and "receipt w ow report = Inr rcpt"
  shows "\<exists>ow'. exchange w pki io (broker_net w bpki dev now1 now2 rk encode_body url) url vcek chain key ow db rc =
      (Inr rcpt, ow', db, rc\<lparr>rc_seen := ci_token io # rc_seen rc, rc_pending := None, rc_kbs := Some k, rc_private := None\<rparr>) \<and>
    kb_keystore k = [(bp_weights_hash (ow_policy ow), key)]"
proof -
  let ?net = "broker_net w bpki dev now1 now2 rk encode_body url" and ?tok = "ci_token io"
  have b: "\<not> rc_retired rc" "rc_kbs rc = None" "rc_private rc = Some priv" "rc_public rc = hex_of_bytes (x_public w priv)"
    "rc_policy rc = ow_policy ow" "?tok \<notin> set (rc_seen rc)" "ec_owner_public_key (rc_configuration rc) = ed_public w (ow_signing_key ow)"
    "ed_load w (ed_public w (ow_signing_key ow))" using assms(2) by (simp_all add: waiting_broker_def)
  define c where "c = \<lparr>ch_nonce = ?tok, ch_issued_at = ci_issue io, ch_expires_at = t\<rparr>"
  obtain cs where iss: "cs_issue (ci_issue io) ?tok (ow_challenges ow) = (c, cs)" and live: "map_of (cs_issued cs) ?tok = Some c"
    and used: "map_of (cs_consumed cs) ?tok = None"
  proof (rule that)
    show "cs_issue (ci_issue io) ?tok (ow_challenges ow) = (c, snd (cs_issue (ci_issue io) ?tok (ow_challenges ow)))"
      by (simp add: cs_issue_def c_def assms(8) cs_prune_def Let_def)
    show "map_of (cs_issued (snd (cs_issue (ci_issue io) ?tok (ow_challenges ow)))) ?tok = Some c"
      by (simp add: cs_issue_def c_def assms(8) cs_prune_def Let_def map_of_update_iff)
    show "map_of (cs_consumed (snd (cs_issue (ci_issue io) ?tok (ow_challenges ow)))) ?tok = None"
      using assms(7) set_dropWhileD by (fastforce simp: cs_issue_def cs_prune_def Let_def map_of_eq_None_iff)
  qed
  let ?ow1 = "ow\<lparr>ow_challenges := cs\<rparr>"
  have s1: "owner_issue_challenge w (ci_issue io) ?tok ow db = (Inr c, ?ow1, db)"
    using assms(3) iss by (simp add: owner_issue_challenge_def guarded_def)
  let ?rc1 = "rc\<lparr>rc_seen := ?tok # rc_seen rc, rc_pending := Some \<lparr>ch_nonce = ?tok, ch_issued_at = now1, ch_expires_at = min t (now1 + secs 60)\<rparr>\<rparr>"
  let ?d1 = "[(us ''report_b64'', JStr (b64encode report)), (us ''transport_public_key'', JStr (rc_public rc))]"
  have "handle_report w dev now1 (report_body w c) rc = (Answer (JDict ?d1), ?rc1)"
    using handle_report_ok [of rc c nonce w now1 binding dev report] b assms(5,6,9-13,16,17) by (simp add: c_def)
  then have "?net (url @ us ''/provisioning/report'') (report_body w c) rc = (Inr (encode_body (JDict ?d1)), ?rc1)" by (simp add: broker_net_def)
  note s2 = post_answer [where net = ?net, OF this assms(23) answers_flat(1)]
  have len: "length report = 1184" using assms(18) by (simp add: accepted_report_def)
  note s3 = offered_report_answer [OF len, of "rc_public rc"]
  have "fst (cs_consume ?tok (pv_consume (ci_prov io)) cs) = Inr ()"
    unfolding cs_consume_ok_iff using live used assms(15) by (simp add: c_def)
  then obtain cs2 where cs2: "cs_consume ?tok (pv_consume (ci_prov io)) (ow_challenges ?ow1) = (Inr (), cs2)"
    by (cases "cs_consume ?tok (pv_consume (ci_prov io)) cs") simp
  obtain e where e: "provision w pki (ci_prov io) \<lparr>br_nonce = ?tok, br_report = report, br_vcek = vcek, br_intermediates = chain,
      br_transport_public_key = rc_public rc\<rparr> key ?ow1 db = (Inr e, ?ow1\<lparr>ow_challenges := cs2\<rparr>, db)" "pe_nonce e = ?tok"
    "length (pe_ciphertext e) = 61 + length key" "length (pe_owner_signature e) = 64"
    "open_provisioned_key w e (ow_policy ow) priv (ed_public w (ow_signing_key ow)) = Inr key"
    using provision_succeeds [OF assms(1), of ?ow1 db ?tok "ci_prov io" cs2 key priv binding pki vcek chain report nonce] cs2 assms b
    by (auto simp: accepted_report_def bytes_fromhex_hex)
  have ik: "install_kbs w bpki rk e (rc_configuration ?rc1) (rc_policy ?rc1) priv = Inr k"
    using e(5) assms(19,22) b by (auto simp: install_kbs_def)
  have hp: "hex_pattern 64 (pe_nonce e)" using hex_pattern_hex [of nonce] assms(5,6) e(2) by simp
  let ?rc2 = "rc\<lparr>rc_seen := ?tok # rc_seen rc, rc_pending := None, rc_kbs := Some k, rc_private := None\<rparr>"
  have "handle_install w bpki now2 rk (install_body e) ?rc1 = (Answer (JDict [(us ''installed'', JBool True)]), ?rc2)"
    using handle_install_ok [of ?rc1 "\<lparr>ch_nonce = ?tok, ch_issued_at = now1, ch_expires_at = min t (now1 + secs 60)\<rparr>" priv e now2 w bpki rk k]
      b e(2,3,4) ik hp assms(14,19) by auto
  then have "?net (url @ us ''/provisioning/install'') (install_body e) ?rc1 = (Inr (encode_body (JDict [(us ''installed'', JBool True)])), ?rc2)"
    by (simp add: broker_net_def us_def)
  note s5 = post_answer [where net = ?net, OF this assms(24) answers_flat(2)]
  have rt: "receipt w (?ow1\<lparr>ow_challenges := cs2\<rparr>) report = Inr rcpt" using assms(25) by (simp add: receipt_def)
  have "exchange w pki io ?net url vcek chain key ow db rc = (Inr rcpt, ?ow1\<lparr>ow_challenges := cs2\<rparr>, db, ?rc2)"
    using s1 s2 s3 e(1) s5 ack_answer rt by (simp add: exchange_def c_def)
  moreover have "kb_keystore k = [(bp_weights_hash (ow_policy ow), key)]" by (rule broker_kbs_fields [OF assms(22)])
  ultimately show ?thesis by blast
qed

text \<open>
  C3 (broker service). An owner's client and an honest broker that waits for it, over a network that delivers: when the
  owner's challenge reaches the broker in time, the device's report for it is one the owner accepts and
  the broker's certificates load, the exchange ends with a receipt, the database of epochs is unchanged,
  and the broker has installed exactly the owner's key under the policy's weights hash and has dropped
  its transport key.
\<close>

theorem honest_provisioning_installs_key:
  assumes "laws w" and "waiting_broker w ow priv (ci_token io) rc"
    and "epoch_guard w (ow_epoch_store ow) (ow_policy ow) False db = Inr db" and "require_approval w (ow_approval ow) (ow_policy ow) = Inr ()"
    and "ci_token io = hex_of_bytes nonce" and "length nonce = 32" and "map_of (cs_consumed (ow_challenges ow)) (ci_token io) = None"
    and "t = ci_issue io + secs (cs_ttl (ow_challenges ow))" and "ci_issue io < t"
    and "stamp_ok w (ci_issue io)" and "stamp_ok w t" and "now1 \<le> t" and "now1 + secs 60 \<le> max_time"
    and "now2 \<le> min t (now1 + secs 60)" and "pv_consume (ci_prov io) \<le> t"
    and "provisioning_binding w (ow_policy ow) (rc_public rc) = Inr binding"
    and "provisioning_report dev (sha256 w (nonce @ binding) @ replicate 32 0) = Inr report"
    and "accepted_report w pki ow vcek chain (ci_token io) binding (pv_now (ci_prov io)) report"
    and "length key \<in> {16, 24, 32}" and "x_exchange w (pv_ephemeral (ci_prov io)) (x_public w priv) \<noteq> None"
    and "length (pv_seal_nonce (ci_prov io)) = 12" and "broker_kbs w bpki rk (rc_configuration rc) (ow_policy ow) key = Inr k"
    and "codec_ok w encode_body (JDict [(us ''report_b64'', JStr (b64encode report)), (us ''transport_public_key'', JStr (rc_public rc))])"
    and "codec_ok w encode_body (JDict [(us ''installed'', JBool True)])" and "receipt w ow report = Inr rcpt"
  shows "\<exists>ow'. exchange w pki io (broker_net w bpki dev now1 now2 rk encode_body url) url vcek chain key ow db rc =
      (Inr rcpt, ow', db, rc\<lparr>rc_seen := ci_token io # rc_seen rc, rc_pending := None, rc_kbs := Some k, rc_private := None\<rparr>) \<and>
    kb_keystore k = [(bp_weights_hash (ow_policy ow), key)]"
  by (rule honest_exchange [OF assms])

subsection \<open>A concrete exchange\<close>

definition svc_wire :: wire where
  "svc_wire = env.extend (prov_env\<lparr>from_iso := (\<lambda>s. Some (Aware (int (hd s)))), iso_format := (\<lambda>t. [nat t])\<rparr>)
     (wire.fields (\<lambda>b. Inr (if b = [0]
          then JDict [(us ''report_b64'', JStr (b64encode prov_report)), (us ''transport_public_key'', JStr (hex_of_bytes (replicate 32 0)))]
          else JDict [(us ''installed'', JBool True)])) (\<lambda>_. Some 0))"

definition svc_encode :: "json \<Rightarrow> bytes" where
  "svc_encode v = (if v = JDict [(us ''installed'', JBool True)] then [] else [0])"

definition svc_device :: snp_device where
  "svc_device d = Some (replicate 4 0 @ int_le 4 1184 @ replicate 24 0 @ prov_report)"

lemma svc_wire_simps [simp]:
  "sha256 svc_wire x = replicate 32 0" "x_public svc_wire sk = replicate 32 0" "x_exchange svc_wire a b = Some []"
  "aead_enc svc_wire k n p aad = p @ replicate 16 0" "aead_dec svc_wire k n c aad = Some (take (length c - 16) c)"
  "ed_sign svc_wire sk m = replicate 64 1" "ed_public svc_wire sk = sk" "ed_verify svc_wire pk s m = (s = replicate 64 1)" "ed_load svc_wire pk"
  "frepr svc_wire = frepr demo_crypto" "hf svc_wire = hf prov_env"
  "from_iso svc_wire u = Some (Aware (int (hd u)))" "iso_format svc_wire t = [nat t]" "utc_offset svc_wire u = Some 0"
  "json_pairs svc_wire b = Inr (if b = [0]
     then JDict [(us ''report_b64'', JStr (b64encode prov_report)), (us ''transport_public_key'', JStr (hex_of_bytes (replicate 32 0)))]
     else JDict [(us ''installed'', JBool True)])"
  by (simp_all add: svc_wire_def prov_env_def crypto.defs env.defs wire.defs demo_crypto_def)

definition svc_owner :: "nat owner" where
  "svc_owner = prov_owner\<lparr>ow_challenges := new_store 60\<rparr>"

definition svc_io :: client_io where
  "svc_io = \<lparr>ci_issue = 0, ci_token = prov_nonce, ci_prov = prov_inputs\<rparr>"

lemma svc_owner_simps [simp]:
  "ow_policy svc_owner = Deployment.demo_policy" "ow_signing_key svc_owner = [9]" "ow_root svc_owner = 7" "ow_epoch_store svc_owner = Some (us ''ns'')"
  "ow_approval svc_owner = None" "ow_challenges svc_owner = new_store 60" "cs_ttl (ow_challenges svc_owner) = 60"
  by (simp_all add: svc_owner_def prov_owner_def new_store_def)

lemma svc_context: "bp_context svc_wire p = bp_context prov_env p"
  by (simp add: bp_context_def)

lemma svc_broker: "\<exists>k. broker_kbs svc_wire rcv_pki [5] rcv_config Deployment.demo_policy (replicate 16 1) = Inr k"
  by (simp add: broker_kbs_def rcv_config_def new_kbs_def normalize_platform_instances_def Deployment.demo_policy_def)

lemma svc_accepted: "accepted_report svc_wire demo_pki svc_owner 3 [] prov_nonce binding 5 prov_report"
proof -
  have "quote_verify svc_wire pki ver q n b x t = quote_verify prov_env pki ver q n b x t" for pki :: "nat pki" and ver q n b x t
    by (simp only: quote_verify_def launch_error_def prefixed_sha256_def svc_wire_simps(11))
  then show ?thesis using prov_quote [of binding] prov_appraised by (simp add: accepted_report_def prov_report_def)
qed

lemma svc_device_report: "length d = 64 \<Longrightarrow> provisioning_report svc_device d = Inr prov_report"
proof -
  assume "length d = 64"
  moreover have "le_int (int_le 4 1184) = 1184" by (intro le_int_int_le) simp_all
  moreover have "slice 4 8 (replicate 4 0 @ int_le 4 1184 @ replicate 24 0 @ prov_report) = int_le 4 1184" by (simp add: slice_def)
  moreover have "slice 0 4 (replicate 4 0 @ int_le 4 1184 @ replicate 24 0 @ prov_report) = replicate 4 0" by (simp add: slice_def)
  moreover have "slice 32 1216 (replicate 4 0 @ int_le 4 1184 @ replicate 24 0 @ prov_report) = prov_report" by (simp add: slice_def prov_report_def)
  ultimately show ?thesis by (simp add: provisioning_report_def fetch_report_def svc_device_def le_int_zeros)
qed

definition svc_binding :: bytes where
  "svc_binding = projr (provisioning_binding svc_wire Deployment.demo_policy (hex_of_bytes (replicate 32 0)))"

definition svc_kbs :: kbs where
  "svc_kbs = projr (broker_kbs svc_wire rcv_pki [5] rcv_config Deployment.demo_policy (replicate 16 1))"

definition svc_receipt :: json where
  "svc_receipt = projr (receipt svc_wire svc_owner prov_report)"

lemma svc_facts:
  "laws svc_wire" "waiting_broker svc_wire svc_owner [] (ci_token svc_io) rcv_boot"
  "epoch_guard svc_wire (ow_epoch_store svc_owner) (ow_policy svc_owner) False prov_db = Inr prov_db"
  "require_approval svc_wire (ow_approval svc_owner) (ow_policy svc_owner) = Inr ()"
  "ci_token svc_io = hex_of_bytes (replicate 32 0)" "length (replicate 32 (0 :: byte)) = 32"
  "map_of (cs_consumed (ow_challenges svc_owner)) (ci_token svc_io) = None"
  "secs 60 = ci_issue svc_io + secs (cs_ttl (ow_challenges svc_owner))" "ci_issue svc_io < secs 60"
  "stamp_ok svc_wire (ci_issue svc_io)" "stamp_ok svc_wire (secs 60)" "1 \<le> secs 60" "1 + secs 60 \<le> max_time"
  "6 \<le> min (secs 60) (1 + secs 60)" "pv_consume (ci_prov svc_io) \<le> secs 60"
  "provisioning_binding svc_wire (ow_policy svc_owner) (rc_public rcv_boot) = Inr svc_binding"
  "provisioning_report svc_device (sha256 svc_wire (replicate 32 0 @ svc_binding) @ replicate 32 0) = Inr prov_report"
  "accepted_report svc_wire demo_pki svc_owner 3 [] (ci_token svc_io) svc_binding (pv_now (ci_prov svc_io)) prov_report"
  "length (replicate 16 (1 :: byte)) \<in> {16, 24, 32}" "x_exchange svc_wire (pv_ephemeral (ci_prov svc_io)) (x_public svc_wire []) \<noteq> None"
  "length (pv_seal_nonce (ci_prov svc_io)) = 12"
  "broker_kbs svc_wire rcv_pki [5] (rc_configuration rcv_boot) (ow_policy svc_owner) (replicate 16 1) = Inr svc_kbs"
  "codec_ok svc_wire svc_encode (JDict [(us ''report_b64'', JStr (b64encode prov_report)), (us ''transport_public_key'', JStr (rc_public rcv_boot))])"
  "codec_ok svc_wire svc_encode (JDict [(us ''installed'', JBool True)])" "receipt svc_wire svc_owner prov_report = Inr svc_receipt"
proof -
  obtain ctx where ctx: "bp_context prov_env Deployment.demo_policy = Inr ctx" using demo_prov_digest by (auto simp: policy_digest_def rbind_Inr_iff)
  show "provisioning_binding svc_wire (ow_policy svc_owner) (rc_public rcv_boot) = Inr svc_binding"
    using ctx by (simp add: svc_binding_def provisioning_binding_def svc_context rcv_boot_def)
  show "receipt svc_wire svc_owner prov_report = Inr svc_receipt" using ctx by (simp add: svc_receipt_def receipt_def policy_digest_def svc_context)
  show "broker_kbs svc_wire rcv_pki [5] (rc_configuration rcv_boot) (ow_policy svc_owner) (replicate 16 1) = Inr svc_kbs"
    using svc_broker by (auto simp: svc_kbs_def rcv_boot_def)
  show "epoch_guard svc_wire (ow_epoch_store svc_owner) (ow_policy svc_owner) False prov_db = Inr prov_db"
    using demo_prov_digest
    by (simp add: epoch_guard_def guard_enter_def prov_db_def policy_digest_def svc_context Deployment.demo_policy_def [THEN arg_cong, of bp_epoch])
  show "accepted_report svc_wire demo_pki svc_owner 3 [] (ci_token svc_io) svc_binding (pv_now (ci_prov svc_io)) prov_report"
    using svc_accepted by (simp add: svc_io_def prov_inputs_def)
  show "provisioning_report svc_device (sha256 svc_wire (replicate 32 0 @ svc_binding) @ replicate 32 0) = Inr prov_report"
    by (rule svc_device_report) simp
qed (simp_all add: laws_def dh_correct_def aead_correct_def ed_correct_def waiting_broker_def rcv_boot_def rcv_config_def svc_io_def prov_inputs_def
    prov_nonce_def require_approval_def new_store_def secs_def max_time_def stamp_ok_def codec_ok_def svc_encode_def)

lemma svc_exchange:
  "\<exists>ow rc. exchange svc_wire demo_pki svc_io (broker_net svc_wire rcv_pki svc_device 1 6 [5] svc_encode []) [] 3 [] (replicate 16 1) svc_owner prov_db rcv_boot =
      (Inr svc_receipt, ow, prov_db, rc)"
  using honest_exchange [OF svc_facts, of "[]"] by blast

theorem honest_provisioning_installs_key_witness:
  "\<exists>ow. exchange svc_wire demo_pki svc_io (broker_net svc_wire rcv_pki svc_device 1 6 [5] svc_encode []) [] 3 [] (replicate 16 1) svc_owner prov_db rcv_boot =
      (Inr svc_receipt, ow, prov_db, rcv_boot\<lparr>rc_seen := [prov_nonce], rc_pending := None, rc_kbs := Some svc_kbs, rc_private := None\<rparr>) \<and>
    kb_keystore svc_kbs = [(bp_weights_hash Deployment.demo_policy, replicate 16 1)]"
  using honest_provisioning_installs_key [OF svc_facts, of "[]"] by (simp add: svc_io_def) (simp add: rcv_boot_def)

theorem client_success_is_attested_witness:
  "\<exists>report r. length report = 1184 \<and> parse_snp_report report = Inr r \<and> appraise_report Deployment.demo_policy r = Inr () \<and>
     trusted_path demo_pki [7] 5 0 [3]"
proof -
  obtain ow rc where x: "exchange svc_wire demo_pki svc_io (broker_net svc_wire rcv_pki svc_device 1 6 [5] svc_encode []) [] 3 [] (replicate 16 1)
      svc_owner prov_db rcv_boot = (Inr svc_receipt, ow, prov_db, rc)"
    using svc_exchange by blast
  from client_success_is_attested [OF x] show ?thesis by (auto simp: svc_io_def prov_inputs_def)
qed

end
