(* ===== verification/ReferenceServer.thy ===== *)
theory ReferenceServer
  imports BrokerService
begin

section \<open>The reference server (\<open>server.py\<close>, \<open>providers.py\<close>)\<close>

text \<open>
  The HTTP surface of the key broker as the container starts it, and the software provider that
  makes evidence without hardware. The environment, the files and what \<open>json.load\<close> reads from
  them are inputs, as are the manifest and the evidence that pydantic built from a request. The main
  results: a server built from its environment releases only on a report signed under the configured
  root, whose signed bytes carry the nonce, the transport key and an accepted launch measurement;
  without a root, and on any evidence of the software provider, it never releases; and with a list
  of platform instances configured it refuses every release, since its parser never yields an
  SEV-SNP report.
\<close>

subsection \<open>Integers and text of the standard library\<close>

text \<open>\<open>bytes.decode()\<close>: UTF-8 without surrogates and overlong forms.\<close>

definition continuation :: "nat \<Rightarrow> bool" where
  "continuation b \<longleftrightarrow> 0x80 \<le> b \<and> b \<le> 0xBF"

fun utf8_chars :: "nat list \<Rightarrow> pystr option" where
  "utf8_chars [] = Some []"
| "utf8_chars (a # s) =
     (if a < 0x80 then map_option (Cons a) (utf8_chars s)
      else if 0xC2 \<le> a \<and> a \<le> 0xDF
      then (case s of
              b # s' \<Rightarrow> if continuation b then map_option (Cons ((a - 0xC0) * 64 + (b - 0x80))) (utf8_chars s') else None
            | [] \<Rightarrow> None)
      else if 0xE0 \<le> a \<and> a \<le> 0xEF
      then (case s of
              b # c # s' \<Rightarrow>
                if continuation b \<and> continuation c \<and> (a = 0xE0 \<longrightarrow> 0xA0 \<le> b) \<and> (a = 0xED \<longrightarrow> b \<le> 0x9F)
                then map_option (Cons ((a - 0xE0) * 4096 + (b - 0x80) * 64 + (c - 0x80))) (utf8_chars s') else None
            | _ \<Rightarrow> None)
      else if 0xF0 \<le> a \<and> a \<le> 0xF4
      then (case s of
              b # c # d # s' \<Rightarrow>
                if continuation b \<and> continuation c \<and> continuation d \<and> (a = 0xF0 \<longrightarrow> 0x90 \<le> b) \<and> (a = 0xF4 \<longrightarrow> b \<le> 0x8F)
                then map_option (Cons ((a - 0xF0) * 262144 + (b - 0x80) * 4096 + (c - 0x80) * 64 + (d - 0x80))) (utf8_chars s') else None
            | _ \<Rightarrow> None)
      else None)"

definition utf8_decode :: "bytes \<Rightarrow> pystr result" where
  "utf8_decode b = (case utf8_chars (map unat b) of None \<Rightarrow> Inl (ValueError (us ''invalid start byte'')) | Some s \<Rightarrow> Inr s)"

text \<open>\<open>int(text, 0)\<close>. A digit outside ASCII counts by its decimal value, which is a parameter.\<close>

definition digit_value :: "nat \<Rightarrow> nat option" where
  "digit_value c = (if 48 \<le> c \<and> c \<le> 57 then Some (c - 48)
                    else if 97 \<le> c \<and> c \<le> 122 then Some (c - 87)
                    else if 65 \<le> c \<and> c \<le> 90 then Some (c - 55) else None)"

definition ascii_digit :: "(nat \<Rightarrow> nat option) \<Rightarrow> nat \<Rightarrow> nat" where
  "ascii_digit decimal c = (if c < 128 then c else if re_space c then 32 else case decimal c of None \<Rightarrow> 63 | Some d \<Rightarrow> 48 + d)"

text \<open>Digits with single underscores between them; the flag says that a digit must follow.\<close>

fun scan_digits :: "nat \<Rightarrow> bool \<Rightarrow> nat \<Rightarrow> pystr \<Rightarrow> nat option" where
  "scan_digits radix due acc [] = (if due then None else Some acc)"
| "scan_digits radix due acc (c # s) =
     (if c = 95 then if due then None else scan_digits radix True acc s
      else case digit_value c of
        None \<Rightarrow> None
      | Some d \<Rightarrow> if d < radix then scan_digits radix False (acc * radix + d) s else None)"

definition scan_decimal :: "pystr \<Rightarrow> nat option" where
  "scan_decimal s = (if length (filter (\<lambda>c. c \<noteq> 95) s) > 4300 then None else scan_digits 10 True 0 s)"

definition scan_prefixed :: "nat \<Rightarrow> pystr \<Rightarrow> nat option" where
  "scan_prefixed radix s = scan_digits radix True 0 (if s \<noteq> [] \<and> hd s = 95 then tl s else s)"

definition scan_unsigned :: "pystr \<Rightarrow> nat option" where
  "scan_unsigned s =
     (case s of
        [] \<Rightarrow> None
      | c # s' \<Rightarrow>
          if c \<noteq> 48 then scan_decimal s
          else if s' \<noteq> [] \<and> hd s' \<in> {120, 88} then scan_prefixed 16 (tl s')
          else if s' \<noteq> [] \<and> hd s' \<in> {111, 79} then scan_prefixed 8 (tl s')
          else if s' \<noteq> [] \<and> hd s' \<in> {98, 66} then scan_prefixed 2 (tl s')
          else if scan_decimal s = Some 0 then Some 0 else None)"

definition int_base0 :: "(nat \<Rightarrow> nat option) \<Rightarrow> pystr \<Rightarrow> int option" where
  "int_base0 decimal s =
     (case map (ascii_digit decimal) s of
        [] \<Rightarrow> None
      | c # s' \<Rightarrow>
          if c = 43 then map_option int (scan_unsigned s')
          else if c = 45 then map_option (\<lambda>n. - int n) (scan_unsigned s')
          else map_option int (scan_unsigned (c # s')))"

subsection \<open>Configuration from the environment\<close>

record host =
  getenv :: "string \<Rightarrow> pystr option"
  read_json :: "pystr \<Rightarrow> json result" \<comment> \<open>\<open>json.load\<close> of the file opened as text\<close>
  read_file :: "pystr \<Rightarrow> bytes result"
  decimal_of :: "nat \<Rightarrow> nat option"

definition launch_measurement_offset_from_env :: "host \<Rightarrow> nat result" where
  "launch_measurement_offset_from_env h =
     (case getenv h ''WCM_CPU_LAUNCH_MEASUREMENT_OFFSET'' of
        None \<Rightarrow> Inl (ValueError (us ''WCM_CPU_TRUST_ROOT_FILE is set but WCM_CPU_LAUNCH_MEASUREMENT_OFFSET is not''))
      | Some raw \<Rightarrow>
          if strip raw = []
          then Inl (ValueError (us ''WCM_CPU_TRUST_ROOT_FILE is set but WCM_CPU_LAUNCH_MEASUREMENT_OFFSET is not''))
          else case int_base0 (decimal_of h) (strip raw) of
            None \<Rightarrow> Inl (ValueError (us ''WCM_CPU_LAUNCH_MEASUREMENT_OFFSET must be a non-negative integer (decimal or 0x hex)''))
          | Some offset \<Rightarrow>
              if offset < 0 then Inl (ValueError (us ''WCM_CPU_LAUNCH_MEASUREMENT_OFFSET must be non-negative'')) else Inr (nat offset))"

text \<open>A path from the environment: unset and empty are the same.\<close>

definition configured :: "host \<Rightarrow> string \<Rightarrow> pystr option" where
  "configured h name = (case getenv h name of Some p \<Rightarrow> if p = [] then None else Some p | None \<Rightarrow> None)"

definition keystore_entry :: "pystr \<times> json \<Rightarrow> (pystr \<times> bytes) result" where
  "keystore_entry e = rbind (case snd e of JStr k \<Rightarrow> b64decode k | _ \<Rightarrow> Inl (TypeError (us ''argument should be a bytes-like object or ASCII string'')))
     (\<lambda>key. Inr (fst e, key))"

definition keystore_from_env :: "host \<Rightarrow> (pystr \<times> bytes) list result" where
  "keystore_from_env h =
     (case configured h ''WCM_KEYSTORE_FILE'' of
        None \<Rightarrow> Inr []
      | Some path \<Rightarrow>
          rbind (read_json h path) (\<lambda>raw.
          case raw of JDict d \<Rightarrow> rmap keystore_entry d | _ \<Rightarrow> Inl (AttributeError (us ''object has no attribute items''))))"

definition server_parser :: "nat \<Rightarrow> json_quote_parser" where
  "server_parser launch_offset =
     \<lparr>jp_algorithm = us ''ecdsa-sha256'', jp_report_data_offset = 0, jp_launch_offset = Some launch_offset, jp_launch_length = 48\<rparr>"

definition server_verifier :: "('x) crypto_scheme \<Rightarrow> ('c, 'y) pki_scheme \<Rightarrow> nat \<Rightarrow> 'c \<Rightarrow> cpu_verifier" where
  "server_verifier cr pki launch_offset root_cert =
     quote_verify cr pki \<lparr>ve_parse = json_quote_parse pki (server_parser launch_offset), ve_roots = [root_cert],
       ve_require_launch_measurement = True\<rparr>"

definition cpu_verifier_from_env :: "('x) crypto_scheme \<Rightarrow> ('c, 'y) pki_scheme \<Rightarrow> host \<Rightarrow> cpu_verifier option result" where
  "cpu_verifier_from_env cr pki h =
     (case configured h ''WCM_CPU_TRUST_ROOT_FILE'' of
        None \<Rightarrow> Inr None
      | Some root_path \<Rightarrow>
          rbind (launch_measurement_offset_from_env h) (\<lambda>launch_offset.
          rbind (read_file h root_path) (\<lambda>data.
          rbind (load_pem_certificate pki False data) (\<lambda>root_cert.
          Inr (Some (server_verifier cr pki launch_offset root_cert))))))"

definition gpu_verifier_from_env :: "('c, 'y) gpu_pki_scheme \<Rightarrow> host \<Rightarrow> gpu_verifier option result" where
  "gpu_verifier_from_env pki h =
     (case configured h ''WCM_GPU_TRUST_ROOT_FILE'' of
        None \<Rightarrow> Inr None
      | Some gpu_root_path \<Rightarrow>
          rbind (read_file h gpu_root_path) (\<lambda>data.
          rbind (utf8_decode data) (\<lambda>pem.
          rbind (build_gpu_verifier pki pem) (\<lambda>v. Inr (Some v)))))"

definition identities_from_env :: "host \<Rightarrow> pystr list result" where
  "identities_from_env h =
     (case configured h ''WCM_TRUSTED_MANIFEST_IDENTITIES_FILE'' of
        None \<Rightarrow> Inr []
      | Some path \<Rightarrow>
          rbind (read_json h path) (\<lambda>v.
          case v of
            JList vs \<Rightarrow>
              if list_all is_text vs then Inr (remdups (map text_of vs))
              else Inl (ValueError (us ''WCM_TRUSTED_MANIFEST_IDENTITIES_FILE must contain a JSON string array''))
          | _ \<Rightarrow> Inl (ValueError (us ''WCM_TRUSTED_MANIFEST_IDENTITIES_FILE must contain a JSON string array''))))"

definition instances_from_env :: "host \<Rightarrow> json list option result" where
  "instances_from_env h =
     (case configured h ''WCM_ALLOWED_PLATFORM_INSTANCES_FILE'' of
        None \<Rightarrow> Inr None
      | Some path \<Rightarrow>
          rbind (read_json h path) (\<lambda>v.
          case v of
            JList vs \<Rightarrow> Inr (Some vs)
          | _ \<Rightarrow> Inl (ValueError (us ''WCM_ALLOWED_PLATFORM_INSTANCES_FILE must contain a JSON string array''))))"

text \<open>The renewal key is the fresh one the service makes for itself.\<close>

definition build_kbs_from_env :: "('x) crypto_scheme \<Rightarrow> ('c, 'y) gpu_pki_scheme \<Rightarrow> bytes \<Rightarrow> host \<Rightarrow> kbs result" where
  "build_kbs_from_env cr pki renewal_key h =
     rbind (keystore_from_env h) (\<lambda>keystore.
     rbind (cpu_verifier_from_env cr pki h) (\<lambda>cpu.
     rbind (gpu_verifier_from_env pki h) (\<lambda>gpu.
     rbind (identities_from_env h) (\<lambda>identities.
     rbind (instances_from_env h) (\<lambda>instances.
     new_kbs \<lparr>kb_keystore = keystore, kb_challenges = new_store 300, kb_revoked = [], kb_max_cache = 600,
       kb_gpu_revocation = None, kb_cpu_quote_verifier = cpu, kb_gpu_report_verifier = gpu,
       kb_require_channel_binding = True, kb_require_cpu_quote_verification = True,
       kb_require_gpu_report_verification = True, kb_renewal_signing_key = renewal_key, kb_renewal_ttl = 60,
       kb_memory_fingerprint_public_key = None, kb_allow_legacy_memory_fingerprint = False,
       kb_trusted_manifest_identities = identities, kb_allowed_platform_instances = None\<rparr> 300 instances)))))"

subsection \<open>Handlers\<close>

definition server_health :: "json http" where
  "server_health = Answer (JDict [(us ''status'', JStr (us ''ok''))])"

definition server_challenge :: "('x) env_scheme \<Rightarrow> time \<Rightarrow> pystr \<Rightarrow> kbs \<Rightarrow> json http \<times> kbs" where
  "server_challenge env now token k =
     (case issue_challenge now token k of (c, k') \<Rightarrow>
        (Answer (JDict [(us ''nonce'', JStr (ch_nonce c)), (us ''issued_at'', JStr (iso_format env (ch_issued_at c))),
           (us ''expires_at'', JStr (iso_format env (ch_expires_at c)))]), k'))"

definition server_release ::
  "('x) env_scheme \<Rightarrow> 'd ocsp_lib \<Rightarrow> kbs_io \<Rightarrow> (manifest \<times> composite_evidence) option \<Rightarrow> kbs \<Rightarrow> json http \<times> kbs" where
  "server_release env lib io body k =
     (case body of
        None \<Rightarrow> (Refused 422 ''invalid manifest/evidence'', k)
      | Some (m, ev) \<Rightarrow>
          (case verify_and_release env lib io m ev False k of
             (Inl e, k') \<Rightarrow> (Uncaught e, k')
           | (Inr d, k') \<Rightarrow> (Answer (decision_json d), k')))"

datatype server_op = Get_Health | Post_Challenge time pystr | Post_Release kbs_io "(manifest \<times> composite_evidence) option"

fun server_step :: "('x) env_scheme \<Rightarrow> 'd ocsp_lib \<Rightarrow> server_op \<Rightarrow> kbs \<Rightarrow> json http \<times> kbs" where
  "server_step env lib Get_Health k = (server_health, k)"
| "server_step env lib (Post_Challenge now token) k = server_challenge env now token k"
| "server_step env lib (Post_Release io body) k = server_release env lib io body k"

definition server_run :: "('x) env_scheme \<Rightarrow> 'd ocsp_lib \<Rightarrow> server_op list \<Rightarrow> kbs \<Rightarrow> kbs" where
  "server_run env lib ops k = fold (\<lambda>op k. snd (server_step env lib op k)) ops k"

subsection \<open>The software provider\<close>

text \<open>The texts are ones pydantic accepts: no lone surrogates.\<close>

record provider_knobs =
  pk_platform :: pystr
  pk_assurance_tier :: pystr
  pk_gpu_platform :: pystr
  pk_gpu_measurement :: "pystr option"
  pk_include_gpu :: bool
  pk_break_gpu_binding :: bool
  pk_gpu_cc_mode :: "bool option"
  pk_include_memory_fingerprint :: bool
  pk_aliasing_detected :: bool
  pk_attestation_key_id :: pystr
  pk_cache_age_seconds :: int

definition software_produce ::
  "('x) crypto_scheme \<Rightarrow> provider_knobs \<Rightarrow> challenge \<Rightarrow> pystr \<Rightarrow> pystr option \<Rightarrow> composite_evidence result" where
  "software_produce cr p c serving_image_measurement transport_public_key =
     (let nonce = ch_nonce c in
      rbind (hash_value_validate serving_image_measurement) (\<lambda>measurement.
      let cpu = \<lparr>cq_platform = pk_platform p, cq_assurance_tier = pk_assurance_tier p,
            cq_serving_image_measurement = measurement, cq_nonce_echo = nonce,
            cq_attestation_key_id = pk_attestation_key_id p,
            cq_attestation_key_cache_age_seconds = pk_cache_age_seconds p,
            cq_quote_b64 = None, cq_transport_public_key = transport_public_key\<rparr>;
          gpu = (case pk_gpu_measurement p of
                   Some g \<Rightarrow>
                     if pk_include_gpu p
                     then Some \<lparr>gr_platform = pk_gpu_platform p, gr_measurement = g, gr_cc_mode = pk_gpu_cc_mode p,
                       gr_nonce_echo = (if pk_break_gpu_binding p then us ''tampered-'' @ nonce else nonce), gr_quote_b64 = None\<rparr>
                     else None
                 | None \<Rightarrow> None) in
      rbind (if pk_include_memory_fingerprint p
             then rbind (canon_hash cr (JDict [(us ''nonce'', JStr nonce)])) (\<lambda>h.
                  rbind (hash_value_validate h) (\<lambda>readback.
                  Inr (Some \<lparr>mf_challenge_nonce = nonce, mf_algorithm = us ''legacy-structural-v0'', mf_range_start = 0,
                    mf_range_length = 0, mf_page_size = 0, mf_pages_written = 0, mf_pages_read = 0,
                    mf_aliasing_detected = pk_aliasing_detected p, mf_readback_hash = readback,
                    mf_public_key_b64url = None, mf_signature_b64url = None\<rparr>)))
             else Inr None) (\<lambda>mf.
      Inr \<lparr>ev_cpu = cpu, ev_gpu = gpu, ev_memory_fingerprint = mf\<rparr>)))"

subsection \<open>What the environment fixes\<close>

lemma built_fields:
  assumes "build_kbs_from_env cr pki rk h = Inr k"
  obtains keystore cpu identities instances allowed where "keystore_from_env h = Inr keystore" "cpu_verifier_from_env cr pki h = Inr cpu"
    "identities_from_env h = Inr identities" "instances_from_env h = Inr instances" "normalize_platform_instances instances = Inr allowed"
    "kb_keystore k = keystore" "kb_cpu_quote_verifier k = cpu" "kb_require_channel_binding k" "kb_require_cpu_quote_verification k"
    "kb_trusted_manifest_identities k = identities" "kb_allowed_platform_instances k = allowed"
proof -
  obtain keystore cpu gpu identities instances where s: "keystore_from_env h = Inr keystore" "cpu_verifier_from_env cr pki h = Inr cpu"
    "gpu_verifier_from_env pki h = Inr gpu" "identities_from_env h = Inr identities" "instances_from_env h = Inr instances"
    using assms unfolding build_kbs_from_env_def rbind_Inr_iff by blast
  from assms s show ?thesis
    by (auto simp: build_kbs_from_env_def new_kbs_def rbind_Inr_iff intro: that)
qed

lemma cpu_verifier_configured:
  assumes "cpu_verifier_from_env cr pki h = Inr (Some v)"
  obtains root_path data root_cert launch_offset where "configured h ''WCM_CPU_TRUST_ROOT_FILE'' = Some root_path"
    "launch_measurement_offset_from_env h = Inr launch_offset" "read_file h root_path = Inr data"
    "load_pem_certificate pki False data = Inr root_cert" "v = server_verifier cr pki launch_offset root_cert"
  using assms by (auto simp: cpu_verifier_from_env_def rbind_Inr_iff split: option.split_asm)

text \<open>Requests change nothing but the challenges and the revocation client.\<close>

definition same_config :: "kbs \<Rightarrow> kbs \<Rightarrow> bool" where
  "same_config k0 k \<longleftrightarrow> (\<exists>s c. k = k0\<lparr>kb_challenges := s, kb_gpu_revocation := c\<rparr>)"

lemma same_config_refl [simp]: "same_config k k"
  unfolding same_config_def by (rule exI [of _ "kb_challenges k"], rule exI [of _ "kb_gpu_revocation k"]) simp

lemma same_config_trans: "same_config a b \<Longrightarrow> same_config b c \<Longrightarrow> same_config a c"
  unfolding same_config_def by (elim exE, hypsubst) (intro exI, simp)

lemma server_step_config: "same_config k (snd (server_step env lib op k))"
proof (cases op)
  case (Post_Challenge now token)
  have "same_config k (k\<lparr>kb_challenges := s\<rparr>)" for s
    unfolding same_config_def by (rule exI [of _ s], rule exI [of _ "kb_gpu_revocation k"]) simp
  then show ?thesis by (simp add: Post_Challenge server_challenge_def issue_challenge_def split: prod.split)
next
  case (Post_Release io body)
  show ?thesis
  proof (cases body)
    case (Some b)
    obtain r k' where v: "verify_and_release env lib io (fst b) (snd b) False k = (r, k')" by fastforce
    have "same_config k k'" using verify_and_release_frame [OF v] unfolding same_config_def .
    with v show ?thesis by (cases r; cases b) (simp_all add: Post_Release Some server_release_def)
  qed (simp add: Post_Release server_release_def)
qed simp

lemma server_run_config: "same_config k (server_run env lib ops k)"
proof (induction ops arbitrary: k)
  case (Cons op ops)
  then show ?case using same_config_trans server_step_config unfolding server_run_def by fastforce
qed (simp add: server_run_def)

lemma same_config_fields:
  assumes "same_config k0 k"
  shows "kb_keystore k = kb_keystore k0" "kb_cpu_quote_verifier k = kb_cpu_quote_verifier k0"
    "kb_require_channel_binding k = kb_require_channel_binding k0"
    "kb_require_cpu_quote_verification k = kb_require_cpu_quote_verification k0"
    "kb_trusted_manifest_identities k = kb_trusted_manifest_identities k0"
    "kb_allowed_platform_instances k = kb_allowed_platform_instances k0"
  using assms by (auto simp: same_config_def)

subsection \<open>What an answer says\<close>

definition says_released :: "json http \<Rightarrow> bool" where
  "says_released a = (case a of Answer (JDict d) \<Rightarrow> map_of d (us ''released'') = Some (JBool True) | _ \<Rightarrow> False)"

definition sealed_in :: "json http \<Rightarrow> pystr option" where
  "sealed_in a = (case a of Answer (JDict d) \<Rightarrow> (case map_of d (us ''sealed_key_b64'') of Some (JStr s) \<Rightarrow> Some s | _ \<Rightarrow> None) | _ \<Rightarrow> None)"

lemma says_released_decision: "says_released (Answer (decision_json d)) = dec_released d"
  by (simp add: says_released_def decision_json_def)

lemma sealed_in_decision:
  "sealed_in (Answer (decision_json d)) = (case dec_sealed_key d of Some (x # xs) \<Rightarrow> Some (b64encode (x # xs)) | _ \<Rightarrow> None)"
  by (simp add: sealed_in_def decision_json_def split: option.split list.split)

lemma sealed_not_empty: "seal_to_public_key env eph nonce pub payload aad = Inr blob \<Longrightarrow> blob \<noteq> []"
  by (auto simp: seal_to_public_key_def Let_def split: option.split_asm if_split_asm)

lemma server_release_steps:
  assumes "server_release env lib io body k = (a, k')" and "says_released a"
  obtains m ev d where "body = Some (m, ev)" "verify_and_release env lib io m ev False k = (Inr d, k')" "dec_released d"
    "a = Answer (decision_json d)"
proof (cases body)
  case None
  with assms show ?thesis by (auto simp: server_release_def says_released_def)
next
  case (Some b)
  obtain r k1 where v: "verify_and_release env lib io (fst b) (snd b) False k = (r, k1)" by fastforce
  with assms Some show ?thesis
    by (cases r; cases b) (auto simp: server_release_def says_released_decision says_released_def [of "Uncaught e" for e] intro: that)
qed

lemma released_on_verifier:
  assumes "build_kbs_from_env cr pki rk h = Inr k0" and "same_config k0 k"
    and "verify_and_release env lib io m ev False k = (Inr d, k')" and "dec_released d"
  obtains root_path data root_cert launch_offset where "configured h ''WCM_CPU_TRUST_ROOT_FILE'' = Some root_path"
    "launch_measurement_offset_from_env h = Inr launch_offset" "read_file h root_path = Inr data"
    "load_pem_certificate pki False data = Inr root_cert"
    "kb_cpu_quote_verifier k = Some (server_verifier cr pki launch_offset root_cert)"
proof -
  obtain cpu where c: "cpu_verifier_from_env cr pki h = Inr cpu" "kb_cpu_quote_verifier k0 = cpu" "kb_require_cpu_quote_verification k0"
    by (rule built_fields [OF assms(1)]) blast
  obtain s mh eh cs na where g: "gate_checks env lib io (k\<lparr>kb_challenges := s\<rparr>) m ev mh False = (Inr (cs, na), k')" "list_all cr_passed cs"
    by (rule released_gate [OF assms(3,4)])
  from g(1) obtain gr vm mf cq vs rv where
    cq: "check_cpu_quote (io_cpu io) (k\<lparr>kb_challenges := s\<rparr>) m ev (cq_nonce_echo (ev_cpu ev)) (snd (check_channel_binding (k\<lparr>kb_challenges := s\<rparr>) ev)) = Inr (cq, vs)"
    and cs: "cs = gate_list env io (k\<lparr>kb_challenges := s\<rparr>) m ev mh (gr, vm) mf (cq, vs) rv"
    by (rule gate_checks_cases)
  from g(2) cs have p: "cr_passed cq" by (simp add: gate_list_passed)
  have "cpu \<noteq> None" using cpu_quote_passed [OF cq p] c same_config_fields [OF assms(2)] by (auto split: option.split_asm)
  with c same_config_fields(2) [OF assms(2)] show ?thesis by (auto elim!: cpu_verifier_configured intro: that)
qed

subsection \<open>A release rests on the signed report\<close>

lemma json_quote_fields:
  assumes "json_quote_parse pki p q = Inr pq"
  shows "pq_report_data_offset pq = jp_report_data_offset p" "pq_snp_report pq = None"
    "pq_report_signature_algorithm pq = jp_algorithm p"
    "jp_launch_offset p = Some off \<Longrightarrow> off + jp_launch_length p \<le> length (pq_report_body pq) \<and>
       pq_launch_measurement pq = Some (slice off (off + jp_launch_length p) (pq_report_body pq))"
proof -
  obtain v where v: "(case v of JDict doc \<Rightarrow> json_quote_body pki p doc | _ \<Rightarrow> Inl (AttributeError (us ''get''))) = Inr pq"
    using assms unfolding json_quote_parse_def by (auto simp: rbind_Inr_iff split: sum.split_asm if_split_asm)
  then obtain doc where "json_quote_body pki p doc = Inr pq" by (cases v) auto
  then obtain leaf inters body launch sig where
    l: "(case jp_launch_offset p of
           None \<Rightarrow> Inr None
         | Some off \<Rightarrow>
             if length body < off + jp_launch_length p then Inl (ValueError (us ''report too short for the configured launch measurement''))
             else Inr (Some (slice off (off + jp_launch_length p) body))) = Inr launch"
    and pq: "pq = \<lparr>pq_report_body = body, pq_signature = sig, pq_leaf = leaf, pq_intermediates = inters,
      pq_report_data_offset = jp_report_data_offset p, pq_report_signature_algorithm = jp_algorithm p, pq_launch_measurement = launch,
      pq_snp_report = None\<rparr>"
    unfolding json_quote_body_def rbind_Inr_iff by blast
  show "pq_report_data_offset pq = jp_report_data_offset p" "pq_snp_report pq = None" "pq_report_signature_algorithm pq = jp_algorithm p"
    by (simp_all add: pq)
  show "off + jp_launch_length p \<le> length (pq_report_body pq) \<and>
      pq_launch_measurement pq = Some (slice off (off + jp_launch_length p) (pq_report_body pq))" if "jp_launch_offset p = Some off"
    using l that by (auto simp: pq split: if_split_asm)
qed

lemma server_verified:
  assumes "server_verifier cr pki off root_cert q nonce binding (Some meas) now = Inr v" and "qv_verified v"
  obtains pq raw where "json_quote_parse pki (server_parser off) q = Inr pq"
    "trusted_path pki [root_cert] now 0 (pq_leaf pq # pq_intermediates pq)"
    "report_verify pki (pq_leaf pq) ECDSA_SHA256 (pq_signature pq) (pq_report_body pq) = None"
    "bytes_fromhex nonce = Some raw" "take 32 (pq_report_body pq) = sha256 cr (raw @ binding)"
    "off + 48 \<le> length (pq_report_body pq)" "meas = prefixed_sha256 cr (slice off (off + 48) (pq_report_body pq))" "qv_snp_report v = None"
proof -
  obtain pq raw s where q: "json_quote_parse pki (server_parser off) q = Inr pq"
    "verify_cert_chain pki (pq_leaf pq) (pq_intermediates pq) [root_cert] now = Inr None"
    "verify_report_signature pki pq = Inr ()" "bytes_fromhex nonce = Some raw"
    "slice (pq_report_data_offset pq) (pq_report_data_offset pq + 32) (pq_report_body pq) = sha256 cr (raw @ binding)"
    "launch_error cr True (pq_launch_measurement pq) (Some meas) = None" "qv_snp_report v = pq_snp_report pq"
    by (rule quote_verify_accepts [OF assms [unfolded server_verifier_def]]) simp
  note f = json_quote_fields [OF q(1)]
  have l: "off + 48 \<le> length (pq_report_body pq)" "pq_launch_measurement pq = Some (slice off (off + 48) (pq_report_body pq))"
    using f(4) [of off] by (simp_all add: server_parser_def)
  have r: "report_verify pki (pq_leaf pq) ECDSA_SHA256 (pq_signature pq) (pq_report_body pq) = None"
    using q(3) f(3) by (auto simp: verify_report_signature_def server_parser_def rbind_Inr_iff Let_def split: option.split_asm if_split_asm)
  have m: "meas = prefixed_sha256 cr (slice off (off + 48) (pq_report_body pq))" using q(6) l(2) by (simp add: launch_error_def split: if_split_asm)
  have t: "trusted_path pki [root_cert] now 0 (pq_leaf pq # pq_intermediates pq)" by (rule verify_cert_chain_sound [OF q(2)])
  have d: "take 32 (pq_report_body pq) = sha256 cr (raw @ binding)" using q(5) f(1) by (simp add: server_parser_def slice_def)
  show thesis by (rule that [OF q(1) t r q(4) d l(1) m]) (simp add: q(7) f(2))
qed

text \<open>
  C8 (reference server). A server built from its environment answers that it released only when a root is configured
  with the offset of the launch measurement, and the evidence's container holds a report that is
  signed by a key chaining to that root; the signed bytes themselves begin with the digest of the
  challenge nonce and the transport key, and hold at the offset a launch measurement the manifest
  accepts and has not revoked; the manifest is one the identities file lists; and what the answer
  carries is the key of the keystore file for exactly those weights, sealed to that transport key.
  What the evidence says of itself decides nothing.
\<close>

theorem env_server_release_is_measured:
  assumes "build_kbs_from_env env pki rk h = Inr k0"
    and "server_release env lib io body (server_run env lib ops k0) = (a, k)" and "says_released a"
  shows "\<exists>m ev root_path data root_cert off q pq n tpk raw mh ids keystore key sealed acc.
    body = Some (m, ev) \<and> configured h ''WCM_CPU_TRUST_ROOT_FILE'' = Some root_path \<and> read_file h root_path = Inr data \<and>
    load_pem_certificate pki False data = Inr root_cert \<and> launch_measurement_offset_from_env h = Inr off \<and>
    cq_quote_b64 (ev_cpu ev) = Some q \<and> json_quote_parse pki (server_parser off) q = Inr pq \<and>
    trusted_path pki [root_cert] (io_cpu io) 0 (pq_leaf pq # pq_intermediates pq) \<and>
    report_verify pki (pq_leaf pq) ECDSA_SHA256 (pq_signature pq) (pq_report_body pq) = None \<and>
    bytes_fromhex (cq_nonce_echo (ev_cpu ev)) = Some n \<and> cq_transport_public_key (ev_cpu ev) = Some tpk \<and>
    bytes_fromhex tpk = Some raw \<and> length raw = 32 \<and> take 32 (pq_report_body pq) = sha256 env (n @ raw) \<and>
    off + 48 \<le> length (pq_report_body pq) \<and>
    acc \<in> set (si_accepted_measurements (rp_required_serving_image (m_release_policy m))) \<and> am_status acc \<noteq> image_revoked \<and>
    am_measurement acc = prefixed_sha256 env (slice off (off + 48) (pq_report_body pq)) \<and>
    manifest_identity env m = Inr mh \<and> identities_from_env h = Inr ids \<and> mh \<in> set ids \<and>
    keystore_from_env h = Inr keystore \<and> map_of keystore (m_weights_hash m) = Some key \<and>
    seal_to_public_key env (io_ephemeral io) (io_seal_nonce io) tpk key [] = Inr sealed \<and>
    sealed_in a = Some (b64encode sealed)"
proof -
  note same = server_run_config [of k0 env lib ops]
  let ?k = "server_run env lib ops k0"
  obtain m ev d where r: "body = Some (m, ev)" "verify_and_release env lib io m ev False ?k = (Inr d, k)" "dec_released d"
    "a = Answer (decision_json d)" by (rule server_release_steps [OF assms(2,3)])
  obtain keystore ids where b: "keystore_from_env h = Inr keystore" "identities_from_env h = Inr ids"
    "kb_keystore ?k = keystore" "kb_trusted_manifest_identities ?k = ids" "kb_require_channel_binding ?k"
    by (rule built_fields [OF assms(1)]) (simp add: same_config_fields [OF same])
  obtain root_path data root_cert off where v: "configured h ''WCM_CPU_TRUST_ROOT_FILE'' = Some root_path"
    "launch_measurement_offset_from_env h = Inr off" "read_file h root_path = Inr data" "load_pem_certificate pki False data = Inr root_cert"
    "kb_cpu_quote_verifier ?k = Some (server_verifier env pki off root_cert)"
    by (rule released_on_verifier [OF assms(1) same r(2,3)])
  obtain q w tpk raw where h: "cq_quote_b64 (ev_cpu ev) = Some q" "cq_transport_public_key (ev_cpu ev) = Some tpk"
    "bytes_fromhex tpk = Some raw" "length raw = 32" "qv_verified w"
    "server_verifier env pki off root_cert q (cq_nonce_echo (ev_cpu ev)) raw (Some (cq_serving_image_measurement (ev_cpu ev))) (io_cpu io) = Inr w"
    using released_hardware [OF r(2,3) v(5) b(5)] by blast
  obtain pq n where p: "json_quote_parse pki (server_parser off) q = Inr pq"
    "trusted_path pki [root_cert] (io_cpu io) 0 (pq_leaf pq # pq_intermediates pq)"
    "report_verify pki (pq_leaf pq) ECDSA_SHA256 (pq_signature pq) (pq_report_body pq) = None"
    "bytes_fromhex (cq_nonce_echo (ev_cpu ev)) = Some n" "take 32 (pq_report_body pq) = sha256 env (n @ raw)" "off + 48 \<le> length (pq_report_body pq)"
    "cq_serving_image_measurement (ev_cpu ev) = prefixed_sha256 env (slice off (off + 48) (pq_report_body pq))"
    by (rule server_verified [OF h(6,5)])
  obtain mh key acc where m: "manifest_identity env m = Inr mh" "mh \<in> set ids" "map_of keystore (m_weights_hash m) = Some key"
    "acc \<in> set (si_accepted_measurements (rp_required_serving_image (m_release_policy m)))"
    "am_measurement acc = cq_serving_image_measurement (ev_cpu ev)" "am_status acc \<noteq> image_revoked"
    using released_policy [OF r(2,3)] unfolding b(3,4) by blast
  obtain sealed where s: "dec_sealed_key d = Some sealed" "seal_to_public_key env (io_ephemeral io) (io_seal_nonce io) tpk key [] = Inr sealed"
    using sealed_release [OF r(2) b(5)] r(3) m(3) h(2) unfolding b(3) by auto
  have "sealed_in a = Some (b64encode sealed)" using sealed_not_empty [OF s(2)] by (simp add: r(4) sealed_in_decision s(1) split: list.split)
  then show ?thesis
    by (intro exI [of _ m] exI [of _ ev] exI [of _ root_path] exI [of _ data] exI [of _ root_cert] exI [of _ off] exI [of _ q] exI [of _ pq]
        exI [of _ n] exI [of _ tpk] exI [of _ raw] exI [of _ mh] exI [of _ ids] exI [of _ keystore] exI [of _ key] exI [of _ sealed] exI [of _ acc])
      (intro conjI r(1) v(1-4) h(1-4) p(1-6) m(1-4,6) m(5) [unfolded p(7)] b(1,2) s(2))
qed

subsection \<open>When the server refuses everything\<close>

lemma no_release_without_report:
  assumes "build_kbs_from_env env pki rk h = Inr k0" and "server_release env lib io (Some (m, ev)) (server_run env lib ops k0) = (a, k)"
    and "says_released a"
  shows "configured h ''WCM_CPU_TRUST_ROOT_FILE'' \<noteq> None" "cq_quote_b64 (ev_cpu ev) \<noteq> None"
    "configured h ''WCM_ALLOWED_PLATFORM_INSTANCES_FILE'' = None"
proof -
  note same = server_run_config [of k0 env lib ops]
  let ?k = "server_run env lib ops k0"
  obtain d where r: "verify_and_release env lib io m ev False ?k = (Inr d, k)" "dec_released d"
    by (rule server_release_steps [OF assms(2,3)]) auto
  obtain instances allowed where b: "instances_from_env h = Inr instances" "normalize_platform_instances instances = Inr allowed"
    "kb_allowed_platform_instances ?k = allowed" "kb_require_channel_binding ?k"
    by (rule built_fields [OF assms(1)]) (simp add: same_config_fields [OF same])
  obtain root_path root_cert off where v: "configured h ''WCM_CPU_TRUST_ROOT_FILE'' = Some root_path"
    "kb_cpu_quote_verifier ?k = Some (server_verifier env pki off root_cert)"
    by (rule released_on_verifier [OF assms(1) same r])
  then show "configured h ''WCM_CPU_TRUST_ROOT_FILE'' \<noteq> None" by simp
  obtain q w raw where h: "cq_quote_b64 (ev_cpu ev) = Some q" "qv_verified w"
    "server_verifier env pki off root_cert q (cq_nonce_echo (ev_cpu ev)) raw (Some (cq_serving_image_measurement (ev_cpu ev))) (io_cpu io) = Inr w"
    "\<forall>allowed. kb_allowed_platform_instances ?k = Some allowed \<longrightarrow> (\<exists>report. qv_snp_report w = Some report)"
    using released_hardware [OF r v(2) b(4)] by blast
  show "cq_quote_b64 (ev_cpu ev) \<noteq> None" using h(1) by simp
  have "qv_snp_report w = None" by (rule server_verified [OF h(3,2)])
  then have "allowed = None" using h(4) b(3) by auto
  then show "configured h ''WCM_ALLOWED_PLATFORM_INSTANCES_FILE'' = None"
    using b(1,2) by (auto simp: instances_from_env_def normalize_platform_instances_def rbind_Inr_iff split: option.split_asm json.split_asm if_split_asm)
qed

text \<open>
  C9 (reference server). A server built from its environment refuses every release when no CPU root is configured, for
  all evidence the software provider can make, whatever its knobs, and whenever a list of allowed
  platform instances is configured: the container format its parser reads yields no SEV-SNP report
  to take a CHIP_ID from.
\<close>

theorem env_server_refuses:
  assumes "build_kbs_from_env env pki rk h = Inr k0"
    and "server_release env lib io (Some (m, ev)) (server_run env lib ops k0) = (a, k)"
    and "configured h ''WCM_CPU_TRUST_ROOT_FILE'' = None \<or> configured h ''WCM_ALLOWED_PLATFORM_INSTANCES_FILE'' \<noteq> None \<or>
      software_produce cr knobs c measurement tpk = Inr ev"
  shows "\<not> says_released a"
proof
  assume "says_released a"
  note n = no_release_without_report [OF assms(1,2) this]
  have "cq_quote_b64 (ev_cpu ev) = None" if "software_produce cr knobs c measurement tpk = Inr ev"
    using that by (auto simp: software_produce_def Let_def rbind_Inr_iff)
  with assms(3) n show False by auto
qed

subsection \<open>A concrete server\<close>

definition srv_pki :: "nat gpu_pki" where
  "srv_pki = demo_gpu_pki\<lparr>load_x509 := (\<lambda>d. Inr (if d = [] then 3 else 7)),
     json_loads := (\<lambda>_. Inr (JDict [(us ''leaf_pem'', JStr []), (us ''report_b64'', JStr demo_snp_quote), (us ''signature_b64'', JStr [])]))\<rparr>"

lemma srv_pki_simps [simp]:
  "load_x509 srv_pki d = Inr (if d = [] then 3 else 7)" "validity srv_pki c = Inr (0, 100)" "public_key srv_pki c = Inr (EC True)"
  "cert_verify srv_pki a b = None" "report_verify srv_pki a p s m = None" "basic_constraints srv_pki c = Inr (Some (True, None))"
  "key_cert_sign srv_pki c = Inr None" "subject srv_pki c = Inr []" "serial_number srv_pki c = 1"
  "json_loads srv_pki bs = Inr (JDict [(us ''leaf_pem'', JStr []), (us ''report_b64'', JStr demo_snp_quote), (us ''signature_b64'', JStr [])])"
  by (simp_all add: srv_pki_def gpu_pki.defs demo_gpu_pki_def pki.defs demo_pki_def)

definition srv_host :: "bool \<Rightarrow> host" where
  "srv_host pinned = \<lparr>getenv = map_of ([(''WCM_KEYSTORE_FILE'', [1]), (''WCM_CPU_TRUST_ROOT_FILE'', [2]),
       (''WCM_CPU_LAUNCH_MEASUREMENT_OFFSET'', us '' 0x90''), (''WCM_TRUSTED_MANIFEST_IDENTITIES_FILE'', [3])] @
       (if pinned then [(''WCM_ALLOWED_PLATFORM_INSTANCES_FILE'', [4])] else [])),
     read_json = (\<lambda>p. Inr (if p = [1] then JDict [(demo_hash 0, JStr (us ''AAAA''))] else if p = [3] then JList [JStr demo_mh]
       else JList [JStr (replicate 128 49)])),
     read_file = (\<lambda>_. Inr [0]), decimal_of = (\<lambda>_. None)\<rparr>"

definition srv_kbs :: "bool \<Rightarrow> kbs" where
  "srv_kbs pinned = \<lparr>kb_keystore = [(demo_hash 0, [0, 0, 0])], kb_challenges = new_store 300, kb_revoked = [], kb_max_cache = 600,
     kb_gpu_revocation = None, kb_cpu_quote_verifier = Some (server_verifier demo_kbs_env srv_pki 144 7), kb_gpu_report_verifier = None,
     kb_require_channel_binding = True, kb_require_cpu_quote_verification = True, kb_require_gpu_report_verification = True,
     kb_renewal_signing_key = [5], kb_renewal_ttl = 60, kb_memory_fingerprint_public_key = None,
     kb_allow_legacy_memory_fingerprint = False, kb_trusted_manifest_identities = [demo_mh],
     kb_allowed_platform_instances = (if pinned then Some [replicate 128 49] else None)\<rparr>"

lemma srv_offset: "launch_measurement_offset_from_env (srv_host pinned) = Inr 144"
  by (simp add: launch_measurement_offset_from_env_def srv_host_def us_def strip_def re_space_def int_base0_def ascii_digit_def
      scan_unsigned_def scan_prefixed_def digit_value_def)

lemma srv_builds: "build_kbs_from_env demo_kbs_env srv_pki [5] (srv_host pinned) = Inr (srv_kbs pinned)"
proof -
  have k: "keystore_from_env (srv_host pinned) = Inr [(demo_hash 0, [0, 0, 0])]"
    by (simp add: keystore_from_env_def configured_def srv_host_def keystore_entry_def b64decode_def us_def std64_val_def)
  have c: "cpu_verifier_from_env demo_kbs_env srv_pki (srv_host pinned) = Inr (Some (server_verifier demo_kbs_env srv_pki 144 7))"
  proof -
    have "configured (srv_host pinned) ''WCM_CPU_TRUST_ROOT_FILE'' = Some [2]" "read_file (srv_host pinned) p = Inr [0]" for p
      by (simp_all add: configured_def srv_host_def)
    then show ?thesis by (simp add: cpu_verifier_from_env_def srv_offset load_pem_certificate_def)
  qed
  have g: "gpu_verifier_from_env srv_pki (srv_host pinned) = Inr None"
    by (simp add: gpu_verifier_from_env_def configured_def srv_host_def)
  have i: "identities_from_env (srv_host pinned) = Inr [demo_mh]"
    by (simp add: identities_from_env_def configured_def srv_host_def)
  have p: "instances_from_env (srv_host pinned) = Inr (if pinned then Some [JStr (replicate 128 49)] else None)"
    by (simp add: instances_from_env_def configured_def srv_host_def)
  have "strip (replicate 128 49) = replicate 128 49" by (simp add: strip_def re_space_def)
  moreover have "lower_ascii (replicate 128 49) = replicate 128 49" by (simp add: lower_ascii_def)
  ultimately have "normalize_instance (JStr (replicate 128 49)) = Inr (replicate 128 49)"
    by (simp add: normalize_instance_def Let_def list_ex_iff list_all_iff lower_hex_def)
  then show ?thesis
    by (simp add: build_kbs_from_env_def k c g i p new_kbs_def normalize_platform_instances_def srv_kbs_def)
qed

lemma srv_quote:
  "\<exists>v. server_verifier demo_kbs_env srv_pki 144 7 demo_snp_quote (us ''00'') (replicate 32 0) (Some (demo_hash 0)) 1 = Inr v \<and> qv_verified v"
proof -
  have "json_quote_parse srv_pki (server_parser 144) demo_snp_quote =
      Inr \<lparr>pq_report_body = replicate 1185 0, pq_signature = [], pq_leaf = 3, pq_intermediates = [], pq_report_data_offset = 0,
        pq_report_signature_algorithm = us ''ecdsa-sha256'', pq_launch_measurement = Some (replicate 48 0), pq_snp_report = None\<rparr>"
    using b64decode_zeros [of 395]
    by (simp add: json_quote_parse_def json_quote_body_def server_parser_def demo_snp_quote_def [symmetric] load_pem_text_def
        load_pem_certificate_def json_item_def json_b64_def slice_def take_replicate drop_replicate utf8_encode_def b64decode_def [of "[]"])
  moreover have "verify_cert_chain srv_pki 3 [] [7] 1 = Inr None"
    by (simp add: verify_cert_chain_def chain_error_def valid_at_def signed_by_def pubkey_verify_def may_issue_def Let_def)
  moreover have "bytes_fromhex (us ''00'') = Some [0]" by (simp add: us_def hex_val_def ascii_space_def)
  ultimately show ?thesis
    by (simp add: server_verifier_def quote_verify_def verify_report_signature_def launch_error_def Let_def slice_def take_replicate demo_measurement)
      (simp add: replicate_Suc [symmetric] del: replicate_Suc)
qed

definition srv_serving :: kbs where
  "srv_serving = server_run demo_kbs_env demo_ocsp [Get_Health, Post_Challenge 0 (us ''00'')] (srv_kbs False)"

lemma srv_serving_eq: "srv_serving = (srv_kbs False)\<lparr>kb_challenges := snd (cs_issue 0 (us ''00'') (new_store 300))\<rparr>"
  by (simp add: srv_serving_def server_run_def server_challenge_def issue_challenge_def srv_kbs_def split: prod.split)

lemma srv_serving_fields:
  "kb_keystore srv_serving = [(demo_hash 0, [0, 0, 0])]" "kb_cpu_quote_verifier srv_serving = Some (server_verifier demo_kbs_env srv_pki 144 7)"
  "kb_require_channel_binding srv_serving" "kb_trusted_manifest_identities srv_serving = [demo_mh]"
  "kb_allowed_platform_instances srv_serving = None" "kb_gpu_report_verifier srv_serving = None"
  "kb_revoked srv_serving = []" "kb_max_cache srv_serving = 600" "kb_gpu_revocation srv_serving = None"
  by (simp_all add: srv_serving_eq srv_kbs_def)

lemma srv_request_fields:
  "cq_transport_public_key (ev_cpu demo_request) = Some (hex_of_bytes (replicate 32 0))" "cq_nonce_echo (ev_cpu demo_request) = us ''00''"
  "cq_quote_b64 (ev_cpu demo_request) = Some demo_snp_quote" "ev_gpu demo_request = None"
  "cq_platform (ev_cpu demo_request) = us ''amd-sev-snp''" "cq_assurance_tier (ev_cpu demo_request) = us ''hardware-attested''"
  "cq_serving_image_measurement (ev_cpu demo_request) = demo_hash 0" "cq_attestation_key_cache_age_seconds (ev_cpu demo_request) = 0"
  by (simp_all add: demo_request_def demo_evidence_def)

lemma srv_gate:
  "\<exists>cs. gate_checks demo_kbs_env demo_ocsp demo_io (srv_serving\<lparr>kb_challenges := s\<rparr>) demo_gated demo_request demo_mh False =
     (Inr (cs, None), srv_serving\<lparr>kb_challenges := s\<rparr>) \<and> list_all cr_passed cs"
proof -
  obtain v where v: "server_verifier demo_kbs_env srv_pki 144 7 demo_snp_quote (us ''00'') (replicate 32 0) (Some (demo_hash 0)) 1 = Inr v"
    "qv_verified v" using srv_quote by blast
  have ne: "hex_of_bytes (replicate 32 0) \<noteq> []" using length_hex_of_bytes [of "replicate 32 0"] by auto
  show ?thesis
    unfolding gate_checks_def gate_list_def check_gpu_report_def check_memory_fingerprint_def check_cpu_quote_def
      check_attestation_revocation_def check_channel_binding_def check_authorized_def check_cpu_platform_def
      check_assurance_tier_def check_serving_image_def check_gpu_def check_platform_integrity_def
      check_platform_instance_def check_key_available_def
    by (simp add: srv_serving_fields srv_request_fields rcv_gated_fields v ne Models.demo_policy_def bytes_fromhex_hex assurance_tier_value_def
        demo_io_def)
qed

lemma srv_releases:
  "\<exists>a k. server_release demo_kbs_env demo_ocsp demo_io (Some (demo_gated, demo_request)) srv_serving = (a, k) \<and> says_released a"
proof -
  obtain eh where eh: "evidence_identity demo_kbs_env demo_request = Inr eh" using demo_request_identities(2) by blast
  obtain s where s: "cs_consume (us ''00'') 1 (kb_challenges srv_serving) = (Inr (), s)"
    by (simp add: srv_serving_eq cs_issue_def cs_prune_def new_store_def cs_consume_def secs_def Let_def)
  obtain cs where g: "gate_checks demo_kbs_env demo_ocsp demo_io (srv_serving\<lparr>kb_challenges := s\<rparr>) demo_gated demo_request demo_mh False =
     (Inr (cs, None), srv_serving\<lparr>kb_challenges := s\<rparr>)" "list_all cr_passed cs" using srv_gate by blast
  let ?d = "release_key demo_kbs_env demo_io (srv_serving\<lparr>kb_challenges := s\<rparr>) demo_gated demo_request demo_mh cs None"
  have "verify_and_release demo_kbs_env demo_ocsp demo_io demo_gated demo_request False srv_serving = (Inr ?d, srv_serving\<lparr>kb_challenges := s\<rparr>)"
    using s g(1) by (simp add: verify_and_release_def demo_request_identities(1) eh srv_request_fields) (simp add: demo_io_def)
  moreover have "dec_released ?d"
  proof -
    obtain x where "seal_to_public_key demo_kbs_env (io_ephemeral demo_io) (io_seal_nonce demo_io) (hex_of_bytes (replicate 32 0)) [0, 0, 0] [] = Inr x"
      by (simp add: seal_to_public_key_def bytes_fromhex_hex)
    with g(2) show ?thesis by (simp add: release_key_def Let_def srv_serving_fields srv_request_fields rcv_gated_fields)
  qed
  ultimately show ?thesis by (simp add: server_release_def says_released_decision)
qed

theorem env_server_release_is_measured_witness:
  "\<exists>a k sealed pq n raw. server_release demo_kbs_env demo_ocsp demo_io (Some (demo_gated, demo_request)) srv_serving = (a, k) \<and> says_released a \<and>
     json_quote_parse srv_pki (server_parser 144) demo_snp_quote = Inr pq \<and> take 32 (pq_report_body pq) = sha256 demo_kbs_env (n @ raw) \<and>
     sealed_in a = Some (b64encode sealed)"
proof -
  obtain a k where r: "server_release demo_kbs_env demo_ocsp demo_io (Some (demo_gated, demo_request)) srv_serving = (a, k)" "says_released a"
    using srv_releases by blast
  from env_server_release_is_measured [OF srv_builds r(1) [unfolded srv_serving_def] r(2)]
  have "\<exists>off q pq n raw sealed. launch_measurement_offset_from_env (srv_host False) = Inr off \<and> cq_quote_b64 (ev_cpu demo_request) = Some q \<and>
      json_quote_parse srv_pki (server_parser off) q = Inr pq \<and> take 32 (pq_report_body pq) = sha256 demo_kbs_env (n @ raw) \<and>
      sealed_in a = Some (b64encode sealed)" by blast
  then have "\<exists>pq n raw sealed. json_quote_parse srv_pki (server_parser 144) demo_snp_quote = Inr pq \<and>
      take 32 (pq_report_body pq) = sha256 demo_kbs_env (n @ raw) \<and> sealed_in a = Some (b64encode sealed)"
    unfolding srv_offset srv_request_fields by blast
  then show ?thesis using r by blast
qed

theorem env_server_refuses_witness:
  "\<exists>a k. server_release demo_kbs_env demo_ocsp demo_io (Some (demo_gated, demo_request))
      (server_run demo_kbs_env demo_ocsp [Post_Challenge 0 (us ''00'')] (srv_kbs True)) = (a, k) \<and> \<not> says_released a"
proof -
  obtain a k where r: "server_release demo_kbs_env demo_ocsp demo_io (Some (demo_gated, demo_request))
      (server_run demo_kbs_env demo_ocsp [Post_Challenge 0 (us ''00'')] (srv_kbs True)) = (a, k)" by fastforce
  have "configured (srv_host True) ''WCM_ALLOWED_PLATFORM_INSTANCES_FILE'' \<noteq> None" by (simp add: configured_def srv_host_def)
  then have "\<not> says_released a" by (intro env_server_refuses [OF srv_builds r]) blast
  with r show ?thesis by blast
qed

end
