(* ===== verification/Provenance.thy ===== *)
theory Provenance
  imports Models
begin

section \<open>Model-signing provenance (\<open>provenance.py\<close>)\<close>

text \<open>
  The cross-check of a manifest's reference to an OpenSSF model-signing signature. The optional
  package \<open>model_signing\<close> is a parameter, absent when it is not installed: what it hashes a model
  to, and whether a signature file verifies over a model. The main results: a verdict is positive
  exactly when the manifest has a reference, the package accepted the signature over these files and
  the digest derived from them is the recorded one; and the recorded digest fixes the hashed
  resources, whatever their order and whatever their paths are.
\<close>

record resource =
  rd_identifier :: pystr
  rd_algorithm :: pystr
  rd_digest_hex :: pystr

record 'p model_signing =
  ms_hash :: "'p \<Rightarrow> resource list result"
  ms_verify :: "'p \<Rightarrow> 'p \<Rightarrow> 'p \<Rightarrow> unit result" \<comment> \<open>public key, model, signature\<close>

record provenance_result =
  pr_verified :: bool
  pr_reason :: "pystr option"

definition require_model_signing :: "'p model_signing option \<Rightarrow> 'p model_signing result" where
  "require_model_signing pkg = (case pkg of None \<Rightarrow> Inl (OtherError (us ''ImportError'')) | Some ms \<Rightarrow> Inr ms)"

definition resource_part :: "resource \<Rightarrow> pystr" where
  "resource_part rd = rd_identifier rd @ [0] @ rd_algorithm rd @ [0] @ rd_digest_hex rd"

definition digest_payload :: "resource list \<Rightarrow> bytes result" where
  "digest_payload rds = utf8_encode (join [0x1e] (sort (map resource_part rds)))"

definition model_signing_digest :: "('x) crypto_scheme \<Rightarrow> 'p model_signing option \<Rightarrow> 'p \<Rightarrow> pystr result" where
  "model_signing_digest cr pkg model_path =
     rbind (require_model_signing pkg) (\<lambda>ms.
     rbind (ms_hash ms model_path) (\<lambda>hashed.
     rbind (digest_payload hashed) (\<lambda>payload.
     Inr (prefixed_sha256 cr payload))))"

definition verify_provenance ::
  "('x) crypto_scheme \<Rightarrow> 'p model_signing option \<Rightarrow> manifest \<Rightarrow> 'p \<Rightarrow> 'p \<Rightarrow> 'p \<Rightarrow> provenance_result result" where
  "verify_provenance cr pkg manifest model_path signature_path public_key =
     (case Option.bind (m_provenance manifest) pv_model_signing of
        None \<Rightarrow> Inr \<lparr>pr_verified = False, pr_reason = Some (us ''manifest has no provenance.model_signing reference'')\<rparr>
      | Some ref \<Rightarrow>
          rbind (require_model_signing pkg) (\<lambda>ms.
          case ms_verify ms public_key model_path signature_path of
            Inl e \<Rightarrow>
              if is_Exception e
              then Inr \<lparr>pr_verified = False, pr_reason = Some (us ''model-signing signature did not verify: '' @ exn_text e)\<rparr>
              else Inl e
          | Inr _ \<Rightarrow>
              rbind (model_signing_digest cr pkg model_path) (\<lambda>actual.
              let expected = ms_signed_digest ref in
              if actual \<noteq> expected
              then Inr \<lparr>pr_verified = False, pr_reason = Some (us ''signed_digest mismatch: manifest records '' @ expected @
                us '', model files hash to '' @ actual)\<rparr>
              else Inr \<lparr>pr_verified = True, pr_reason = None\<rparr>)))"

subsection \<open>The verdict\<close>

definition provenance_holds :: "('x) crypto_scheme \<Rightarrow> 'p model_signing \<Rightarrow> manifest \<Rightarrow> 'p \<Rightarrow> 'p \<Rightarrow> 'p \<Rightarrow> bool" where
  "provenance_holds cr ms manifest model_path signature_path public_key \<longleftrightarrow>
     (\<exists>p ref rds payload. m_provenance manifest = Some p \<and> pv_model_signing p = Some ref \<and>
        ms_verify ms public_key model_path signature_path = Inr () \<and> ms_hash ms model_path = Inr rds \<and>
        digest_payload rds = Inr payload \<and> ms_signed_digest ref = prefixed_sha256 cr payload)"

lemma verify_provenance_verified:
  "verify_provenance cr pkg m path sig pub = Inr r \<and> pr_verified r \<longleftrightarrow>
     (\<exists>ms. pkg = Some ms \<and> provenance_holds cr ms m path sig pub \<and> r = \<lparr>pr_verified = True, pr_reason = None\<rparr>)"
  by (cases "m_provenance m"; cases pkg)
    (auto simp: verify_provenance_def provenance_holds_def model_signing_digest_def require_model_signing_def rbind_Inr_iff Let_def
      split: option.split sum.split if_split_asm)

subsection \<open>The digest fixes the resources\<close>

text \<open>
  What the package documents of a resource: its identifier is the path of a file relative to the
  model, so it has no NUL, though it may hold any other character, the separator 0x1e included; its
  algorithm is a name without NUL; its digest is written in hexadecimal digits.
\<close>

definition documented_resource :: "resource \<Rightarrow> bool" where
  "documented_resource rd \<longleftrightarrow> code_points (rd_identifier rd) \<and> 0 \<notin> set (rd_identifier rd) \<and>
     code_points (rd_algorithm rd) \<and> 0 \<notin> set (rd_algorithm rd) \<and> list_all lower_hex (rd_digest_hex rd)"

lemma zero_split:
  assumes "a @ 0 # x = b @ 0 # (y :: pystr)" and "0 \<notin> set a" and "0 \<notin> set b"
  shows "a = b" and "x = y"
  using assms by (auto simp: append_eq_append_conv2 Cons_eq_append_conv append_eq_Cons_conv)

lemma lower_hex_plain: "list_all lower_hex s \<Longrightarrow> 0x1e \<notin> set s \<and> code_points s"
  by (auto simp: list_all_iff lower_hex_def code_points_def)

text \<open>Two texts without the separator, each followed by nothing or by the separator and more.\<close>

lemma separated_split:
  assumes "a @ (if p then [] else c # x) = b @ (if q then [] else c # y)" and "c \<notin> set a" and "c \<notin> set b"
  shows "a = b \<and> p = q \<and> (\<not> p \<longrightarrow> x = y)"
proof -
  have tw: "takeWhile (\<lambda>d. d \<noteq> c) (z @ (if r then [] else c # v)) = z" if "c \<notin> set z" for z r v
    using that by (auto simp: takeWhile_eq_all_conv takeWhile_append)
  have "a = b" using arg_cong [OF assms(1), of "takeWhile (\<lambda>d. d \<noteq> c)"] unfolding tw [OF assms(2)] tw [OF assms(3)] .
  then show ?thesis using assms(1) by (auto split: if_split_asm)
qed

lemma join_step: "join s (x # xs) = x @ (if xs = [] then [] else s @ join s xs)"
  by (cases xs) simp_all

text \<open>The joined descriptors are read back from the left: a path up to the first NUL, an algorithm up
  to the second, digits up to a separator or the end.\<close>

lemma join_parts_inj:
  "join [0x1e] (map resource_part xs) = join [0x1e] (map resource_part ys) \<Longrightarrow> list_all documented_resource xs \<Longrightarrow>
   list_all documented_resource ys \<Longrightarrow> xs = ys"
proof (induction xs arbitrary: ys)
  case Nil
  then show ?case by (cases ys) (simp_all add: join_step resource_part_def)
next
  case (Cons x xs)
  then obtain y zs where ys: "ys = y # zs" by (cases ys) (simp_all add: join_step resource_part_def)
  let ?t = "\<lambda>rds. if map resource_part rds = [] then [] else 0x1e # join [0x1e] (map resource_part rds)"
  have e: "rd_identifier x @ 0 # rd_algorithm x @ 0 # rd_digest_hex x @ ?t xs =
      rd_identifier y @ 0 # rd_algorithm y @ 0 # rd_digest_hex y @ ?t zs"
    using Cons.prems(1) unfolding ys list.map join_step by (simp only: resource_part_def append_assoc append_Cons append_Nil)
  have x: "0 \<notin> set (rd_identifier x)" "0 \<notin> set (rd_algorithm x)" "0x1e \<notin> set (rd_digest_hex x)"
    using Cons.prems(2) lower_hex_plain by (simp_all add: documented_resource_def)
  have y: "0 \<notin> set (rd_identifier y)" "0 \<notin> set (rd_algorithm y)" "0x1e \<notin> set (rd_digest_hex y)"
    using Cons.prems(3) ys lower_hex_plain by (simp_all add: documented_resource_def)
  note i = zero_split [OF e x(1) y(1)]
  note a = zero_split [OF i(2) x(2) y(2)]
  note d = separated_split [OF a(2) x(3) y(3)]
  have "x = y" using i(1) a(1) conjunct1 [OF d] by (cases x, cases y) simp
  moreover have "xs = zs"
  proof (cases "xs = []")
    case True
    then show ?thesis using d by simp
  next
    case False
    then have "join [0x1e] (map resource_part xs) = join [0x1e] (map resource_part zs)" using d by simp
    from Cons.IH [OF this] show ?thesis using Cons.prems(2,3) ys by simp
  qed
  ultimately show ?case using ys by simp
qed

lemma sort_parts: "sort (map resource_part rds) = map resource_part (sort_key resource_part rds)"
  by (rule properties_for_sort) simp_all

lemma code_points_parts: "list_all documented_resource rds \<Longrightarrow> code_points (join [0x1e] (map resource_part rds))"
proof (induction rds)
  case (Cons rd rds)
  have "code_points (resource_part rd)"
    using Cons.prems lower_hex_plain [of "rd_digest_hex rd"] by (auto simp: resource_part_def documented_resource_def code_points_def)
  with Cons show ?case unfolding list.map join_step by (auto simp: code_points_def)
qed (simp add: code_points_def)

lemma payload_inj:
  assumes "digest_payload rds = Inr b" and "digest_payload rds' = Inr b"
    and "list_all documented_resource rds" and "list_all documented_resource rds'"
  shows "mset rds = mset rds'"
proof -
  let ?s = "sort_key resource_part"
  have d: "list_all documented_resource (?s rds)" "list_all documented_resource (?s rds')" using assms(3,4) by (simp_all add: list_all_iff)
  have "join [0x1e] (map resource_part (?s rds)) = join [0x1e] (map resource_part (?s rds'))"
    by (rule utf8_encode_inj [OF assms(1,2) [unfolded digest_payload_def sort_parts] code_points_parts [OF d(1)] code_points_parts [OF d(2)]])
  from join_parts_inj [OF this d] show ?thesis by (metis mset_sort)
qed

text \<open>
  C10 (provenance). Two models that verify against one manifest, under whatever keys and signatures,
  were each accepted by the package and have the same resources with the same digests, in any order.
  The descriptors are those the package documents: paths and algorithm names without NUL, digests in
  hexadecimal; a path may hold the separator 0x1e, and still no two models are confused. The one
  proviso is that SHA-256 does not collide on the two digested payloads.
\<close>

theorem provenance_fixes_resources:
  assumes "verify_provenance cr pkg m path sig pub = Inr r" and "pr_verified r"
    and "verify_provenance cr pkg' m path' sig' pub' = Inr r'" and "pr_verified r'"
    and "\<And>ms rds. pkg = Some ms \<and> ms_hash ms path = Inr rds \<or> pkg' = Some ms \<and> ms_hash ms path' = Inr rds \<Longrightarrow> list_all documented_resource rds"
    and "inj_on (sha256 cr) {b. \<exists>ms rds. (pkg = Some ms \<and> ms_hash ms path = Inr rds \<or> pkg' = Some ms \<and> ms_hash ms path' = Inr rds) \<and> digest_payload rds = Inr b}"
  shows "\<exists>ms ms' rds rds'. pkg = Some ms \<and> pkg' = Some ms' \<and> ms_verify ms pub path sig = Inr () \<and> ms_verify ms' pub' path' sig' = Inr () \<and>
    ms_hash ms path = Inr rds \<and> ms_hash ms' path' = Inr rds' \<and> mset rds = mset rds'"
proof -
  obtain ms ms' where ms: "pkg = Some ms" "pkg' = Some ms'" "provenance_holds cr ms m path sig pub" "provenance_holds cr ms' m path' sig' pub'"
    using verify_provenance_verified [of cr pkg m path sig pub r] verify_provenance_verified [of cr pkg' m path' sig' pub' r'] assms(1-4) by metis
  from ms(3) obtain p ref rds b where h: "m_provenance m = Some p" "pv_model_signing p = Some ref" "ms_verify ms pub path sig = Inr ()"
    "ms_hash ms path = Inr rds" "digest_payload rds = Inr b" "ms_signed_digest ref = prefixed_sha256 cr b"
    unfolding provenance_holds_def by blast
  from ms(4) obtain rds' b' where h': "ms_verify ms' pub' path' sig' = Inr ()" "ms_hash ms' path' = Inr rds'"
    "digest_payload rds' = Inr b'" "prefixed_sha256 cr b = prefixed_sha256 cr b'"
    unfolding provenance_holds_def by (auto simp: h(1,2,6))
  have "sha256 cr b = sha256 cr b'" using h'(4) by (simp add: prefixed_sha256_def hex_of_bytes_inj)
  with assms(6) have b: "b = b'" by (rule inj_onD) (use ms(1,2) h(4,5) h'(2,3) in auto)+
  have "list_all documented_resource rds" "list_all documented_resource rds'" using assms(5) [of ms rds] assms(5) [of ms' rds'] ms(1,2) h(4) h'(2) by simp_all
  with payload_inj [OF h(5) h'(3) [folded b]] have "mset rds = mset rds'" .
  with ms(1,2) h(3,4) h'(1,2) show ?thesis by blast
qed

subsection \<open>A concrete model\<close>

definition demo_resources :: "resource list" where
  "demo_resources = [\<lparr>rd_identifier = us ''b'', rd_algorithm = us ''sha256'', rd_digest_hex = us ''01''\<rparr>,
     \<lparr>rd_identifier = us ''a'' @ [0x1e], rd_algorithm = us ''sha256'', rd_digest_hex = us ''02''\<rparr>]"

definition demo_signing :: "nat model_signing" where
  "demo_signing = \<lparr>ms_hash = (\<lambda>p. Inr (if p = 0 then demo_resources else rev demo_resources)), ms_verify = (\<lambda>_ _ _. Inr ())\<rparr>"

definition demo_referenced :: manifest where
  "demo_referenced = demo_manifest\<lparr>m_provenance := Some \<lparr>pv_model_signing =
     Some \<lparr>ms_signed_digest = projr (model_signing_digest demo_crypto (Some demo_signing) 0), ms_transparency = None, ms_signer = None\<rparr>\<rparr>\<rparr>"

lemma demo_payload:
  "\<exists>b. digest_payload demo_resources = Inr b \<and> digest_payload (rev demo_resources) = Inr b"
  by (simp add: digest_payload_def demo_resources_def resource_part_def us_def utf8_encode_def surrogate_def)

lemma demo_documented: "list_all documented_resource demo_resources" "list_all documented_resource (rev demo_resources)"
  by (simp_all add: demo_resources_def documented_resource_def code_points_def us_def lower_hex_def)

lemma demo_provenance: "verify_provenance demo_crypto (Some demo_signing) demo_referenced p s k = Inr \<lparr>pr_verified = True, pr_reason = None\<rparr>"
  using demo_payload
  by (auto simp: verify_provenance_def demo_referenced_def demo_signing_def model_signing_digest_def require_model_signing_def)

theorem provenance_fixes_resources_witness:
  "\<exists>rds rds'. ms_hash demo_signing 0 = Inr rds \<and> ms_hash demo_signing 1 = Inr rds' \<and> mset rds = mset rds'"
proof -
  obtain b where b: "digest_payload demo_resources = Inr b" "digest_payload (rev demo_resources) = Inr b" using demo_payload by blast
  have h: "ms_hash demo_signing p = Inr (if p = 0 then demo_resources else rev demo_resources)" for p by (simp add: demo_signing_def)
  have "\<exists>ms ms' rds rds'. Some demo_signing = Some ms \<and> Some demo_signing = Some ms' \<and> ms_verify ms (0 :: nat) 0 0 = Inr () \<and>
      ms_verify ms' 0 1 0 = Inr () \<and> ms_hash ms 0 = Inr rds \<and> ms_hash ms' 1 = Inr rds' \<and> mset rds = mset rds'"
  proof (rule provenance_fixes_resources [OF demo_provenance _ demo_provenance])
    show "inj_on (sha256 demo_crypto) {c. \<exists>ms rds. (Some demo_signing = Some ms \<and> ms_hash ms 0 = Inr rds \<or>
        Some demo_signing = Some ms \<and> ms_hash ms 1 = Inr rds) \<and> digest_payload rds = Inr c}"
      by (rule inj_on_subset [of _ "{b}"]) (auto simp: h b)
  qed (use demo_documented in \<open>auto simp: h\<close>)
  then show ?thesis by blast
qed

end
