(* ===== verification/Spec2Isabelle.thy ===== *)
theory Spec2Isabelle
  imports Prelude Challenge Merkle Canonicalize Signing Models Renewal Seal Custody Quote Snp MemorySweep GpuRevocation Kbs
    EndToEnd Interpolation Gf256 Threshold Lineage Verify Transparency RuntimeRecords PyJson BrokerPolicy Deployment
    Provisioning Nvidia Receiver Tdx ArtifactDigest ModelMemory AzureVtpm BootBundle BrokerWire BrokerService ReferenceServer Provenance
begin

text \<open>
  A verification library for \<open>wcm\<close>, the Python package of the weight custody manifest
  (\<open>src/python/src/wcm\<close>).  File names below are relative to that directory.

  \<^bold>\<open>The program.\<close>  A model owner publishes a signed \<^emph>\<open>manifest\<close> that names a model's weights, who
  may run them and under which attestation rules.  A key broker service holds the weight key.  A workload in
  a confidential VM asks it for a challenge, binds the nonce and a fresh transport key into a hardware
  report, and sends report and manifest back; the broker appraises the report against the vendor roots, the
  manifest's policy, the measurements and the revocation state, and seals the key to the transport key.
  Inside the enclave a custody session keeps the key while signed renewals arrive within the manifest's
  cadence and wipes it on lapse, budget or tamper.  Around this core stand a second deployment, in which the
  broker itself runs attested and the owner provisions it with a key and a policy; a transparency log;
  derivative lineage; threshold release by secret sharing; signed run-time records; checks of the loaded
  model in memory and of the memory range that holds it; and the boot bundle the broker's guest starts from.

  \<^bold>\<open>Theories and the code they model.\<close>
  \<^item> \<open>Prelude\<close>: errors as values (\<open>'a result\<close> is a sum with the exception on the left), bytes as 8-bit words,
    Python strings as lists of code points, the encodings of the standard library (hex, big- and
    little-endian integers, slices), and the lemmas on them that every component shares.
  \<^item> \<open>Canonicalize\<close> (\<open>_canonicalize.py\<close>), \<open>PyJson\<close> (the \<open>json.dumps\<close> form used by the provisioning
    modules), \<open>Merkle\<close> (\<open>_merkle.py\<close>), \<open>Signing\<close> (\<open>_signing.py\<close>), \<open>Seal\<close> (\<open>_seal.py\<close>),
    \<open>Challenge\<close> (\<open>_challenge.py\<close>): the primitives.
  \<^item> \<open>Models\<close> (\<open>models.py\<close>, \<open>_types.py\<close>), \<open>Verify\<close> (\<open>_verify.py\<close>), \<open>Lineage\<close> (\<open>lineage.py\<close>),
    \<open>Transparency\<close> (\<open>transparency.py\<close>), \<open>Provenance\<close> (\<open>provenance.py\<close>): manifests and what vouches for them.
  \<^item> \<open>Quote\<close> (\<open>_quote_verify.py\<close>, \<open>_certificates.py\<close>), \<open>Snp\<close> (\<open>snp.py\<close>), \<open>Tdx\<close> (\<open>tdx.py\<close>,
    \<open>platform_floor.py\<close>), \<open>Nvidia\<close> (\<open>nvidia.py\<close>), \<open>AzureVtpm\<close> (\<open>azure_vtpm.py\<close>), \<open>GpuRevocation\<close>
    (\<open>gpu_revocation.py\<close>): the appraisal of hardware evidence.
  \<^item> \<open>Kbs\<close> (\<open>kbs.py\<close>), \<open>Renewal\<close> (\<open>attestation.py\<close>, \<open>renewal.py\<close>), \<open>Custody\<close> (\<open>custody.py\<close>),
    \<open>RuntimeRecords\<close> (\<open>runtime_records.py\<close>), \<open>ReferenceServer\<close> (\<open>server.py\<close>,
    \<open>providers.py\<close>): the release gate, the session it feeds and the HTTP surface of the broker.
  \<^item> \<open>Interpolation\<close>, \<open>Gf256\<close>, \<open>Threshold\<close> (\<open>threshold.py\<close>): polynomials by values over any field, the
    byte field built by log tables as the code builds it, and the sharing scheme.
  \<^item> \<open>MemorySweep\<close> (\<open>memory_sweep.py\<close>), \<open>ModelMemory\<close> (\<open>model_memory.py\<close>), \<open>ArtifactDigest\<close>
    (\<open>artifact_digest.py\<close>): memory and files.
  \<^item> \<open>BrokerPolicy\<close> and \<open>Provisioning\<close> (\<open>provisioning.py\<close>, \<open>provisioning_state.py\<close>), \<open>Deployment\<close>
    (\<open>deployment_identity.py\<close>), \<open>Receiver\<close> (\<open>broker_receiver.py\<close>), \<open>BrokerWire\<close> (\<open>provisioning_wire.py\<close>,
    \<open>guest_broker.py\<close>), \<open>BrokerService\<close> (\<open>broker_server.py\<close>, \<open>owner_provision.py\<close>, the SEV-SNP provider of
    \<open>_hw_providers.py\<close>), \<open>BootBundle\<close> (\<open>boot_bundle.py\<close>): the provisioned broker.
  \<^item> \<open>EndToEnd\<close>: the composition of quote verification, broker, sealing, renewals and custody session.

  \<^bold>\<open>State and operations.\<close>  A class with state is a record, a method a function that takes the record and
  returns the updated one beside a result, an exception a value of \<open>py_error\<close>.  The clock, fresh random
  values and what a network, a file or a device answered are arguments of the operation that reads them, so
  a theorem holds for every answer.  Messages keep their fixed text; values interpolated into them are left
  out where no code reads the message.

  \<^bold>\<open>Interfaces.\<close>  \<open>Challenge.single_use_store\<close> states what a store of nonces promises and is interpreted on
  the challenge store (\<open>cs\<close>); the owner's and the broker's challenge steps rest on it.
  \<open>Custody.lease\<close> and its extension \<open>Custody.metered_lease\<close> state a window that ends and an operation budget
  that only a renewal restores, and are interpreted on the session's step function (\<open>custody\<close>).
  \<open>Canonicalize.text_coder\<close> states that quoted strings are self-delimiting; unique readability of whole JSON
  texts is proved in it once and holds of the canonical printer (\<open>canonical\<close>) and of \<open>json.dumps\<close>
  (\<open>dumped\<close>, in \<open>PyJson\<close>).  \<open>MemorySweep.paged_memory\<close> states what a
  memory range promises; it is interpreted on the byte array of the code (\<open>bytearray\<close>) and on a range
  whose pages share cells (\<open>aliased\<close>), the attack the sweep is there to find.

  \<^bold>\<open>What the lemmas show.\<close>
  \<^item> Release: a key leaves the broker only sealed, only after every configured gate, once per challenge; the
    report is bound to nonce, transport key and measurement through a certificate path to a pinned root.
  \<^item> Custody: the key is readable only within the cadence since the last accepted renewal and only for the
    budgeted number of operations; the monitor ends wiped; a renewal is applied at most once.
  \<^item> Provisioning: the owner's key reaches the receiver's broker only through an attested report, at most
    once, and policies never roll back; an honest run of client and service does install it.
  \<^item> Evidence parsers: each parser is total, malformed input is an error value and the verifier's verdict on it
    is a denial, except for exceptions of the X.509 loader other than \<open>ValueError\<close>, which escape; accepted
    input has the documented layout.
  \<^item> The reference server: built from its environment it releases only on signed measurements, and refuses
    everything without a root, on software evidence and when platform instances are pinned.
  \<^item> Data: canonical JSON is injective up to normalisation, digests bind what they list (files by the bytes on
    disk, deployments by artifacts, launch parameters and policy, models by their resources), Merkle proofs are sound
    for a collision-free hash, records and logs fix their history, images are well-formed archives.
  \<^item> Threshold: any quorum recovers the secret, fewer shares are consistent with every secret.

  \<^bold>\<open>Parameters and hypotheses.\<close>  The \<open>cryptography\<close> package, hash functions, X.509 and PEM encodings, OCSP,
  \<open>tarfile\<close>, \<open>urlsplit\<close>, the Unicode tables, \<open>repr\<close> of floats and pydantic's reading of JSON text into
  objects are parameters.  A theorem that needs a law of one of them names it: that verification accepts what
  signing produced, that opening inverts sealing, that a hash has no collision among the strings
  considered.  Each such theorem has a witness at concrete functions.

  \<^bold>\<open>Bounds and termination.\<close>  No definition uses fuel.  Loops are structural recursions or have a measure:
  the remaining bytes of a parser, the unvisited manifests of a lineage walk, the attempts left of a
  request, the bits of a tree size.  Integers are unbounded as in Python, bytes are 8-bit words, and the byte
  field is computed at its width.  Nesting of JSON values is bounded by the code's own limit.

  \<^bold>\<open>Not modelled.\<close>  Failures of SQLite in the epoch store; thread interleaving inside one operation (the code
  takes a lock around each); the iteration order of Python sets where the result does not depend on it.  The
  command line (\<open>cli.py\<close>) and other entry points parse arguments, read files and print.  The conformance
  runner (\<open>conformance.py\<close>, \<open>_vendor_vectors.py\<close>) replays test vectors.  \<open>schema.py\<close> calls the
  jsonschema package on packaged files.  Of \<open>_hw_providers.py\<close> the TDX, NVIDIA and Azure collectors drive
  devices, a TPM and subprocesses.  Tools, boot experiments, container builds and paper experiments outside the
  package drive other programs.
\<close>

end
